(* ===== verification/Prelude.thy ===== *)
theory Prelude
  imports Main "HOL-Library.AList" "HOL-Library.Char_ord" "HOL-Library.List_Lexorder"
begin

text \<open>
  Shared vocabulary of the development: the types every component uses, the pieces of the
  JavaScript standard library the backend relies on (truthiness, \<open>??\<close>, \<open>trim\<close>,
  \<open>toLowerCase\<close>, \<open>slice\<close>, \<open>split\<close>), errors as values, and generic lemmas about
  association lists, filters and folds.

  Conventions.
  \<^item> A JavaScript string is a HOL \<open>string\<close>; its characters stand for code units below 256.
  \<^item> \<open>null\<close> and \<open>undefined\<close> are both \<open>None\<close>: the modelled code never tells them apart
    (it uses \<open>??\<close>, \<open>!x\<close> and \<open>x ?? undefined\<close> only).
  \<^item> An instant is its number of milliseconds since the epoch; \<open>toISOString\<close> and
    \<open>Date.parse\<close> are inverse to each other on such values, so an ISO string in the code is the
    number it denotes here. A clock reading and a fresh identifier are arguments.
\<close>

section \<open>Basic types\<close>

type_synonym id = string
type_synonym timestamp = nat

datatype exn =
    ConcurrencyError string id nat
  | JsError string

text \<open>
  JSON values, and the JavaScript values a decoded protobuf message consists of. Numbers are
  integers (the protocol's numeric fields are); \<open>JNonFinite\<close> stands for NaN and the infinities.
\<close>

datatype json =
    JNull
  | JBool bool
  | JNum int
  | JNonFinite
  | JStr string
  | JArr "json list"
  | JObj "(string \<times> json) list"

text \<open>What an HTTP handler answers; \<open>Thrown\<close> is an exception that leaves the handler (Hono answers 500).\<close>

datatype response =
    Json nat json
  | Text nat string
  | NoBody nat
  | Thrown exn

fun resp_status :: "response \<Rightarrow> nat" where
  "resp_status (Json n _) = n"
| "resp_status (Text n _) = n"
| "resp_status (NoBody n) = n"
| "resp_status (Thrown _) = 500"

abbreviation json_error :: "nat \<Rightarrow> string \<Rightarrow> response" where
  "json_error n msg \<equiv> Json n (JObj [(''error'', JStr msg)])"

section \<open>Hint collections\<close>

named_theorems reducer_simps \<open>equations of the aggregate reducers\<close>
named_theorems store_laws \<open>what reads of the event store return after a write\<close>
named_theorems wf_intros \<open>operations that keep the event store well formed\<close>

section \<open>JavaScript helpers\<close>

definition truthy :: "string option \<Rightarrow> bool" where
  "truthy v = (case v of None \<Rightarrow> False | Some s \<Rightarrow> s \<noteq> [])"

text \<open>\<open>a ?? b\<close>\<close>

definition nullish :: "'a option \<Rightarrow> 'a option \<Rightarrow> 'a option" where
  "nullish a b = (case a of None \<Rightarrow> b | Some x \<Rightarrow> Some x)"

definition nullish_or :: "'a option \<Rightarrow> 'a \<Rightarrow> 'a" where
  "nullish_or a d = (case a of None \<Rightarrow> d | Some x \<Rightarrow> x)"

text \<open>\<open>s || d\<close> on strings\<close>

definition or_default :: "string \<Rightarrow> string \<Rightarrow> string" where
  "or_default s d = (if s = [] then d else s)"

definition is_space :: "char \<Rightarrow> bool" where
  "is_space c = (of_char c \<in> {9, 10, 11, 12, 13, 32, 160 :: nat})"

definition js_trim :: "string \<Rightarrow> string" where
  "js_trim s = rev (dropWhile is_space (rev (dropWhile is_space s)))"

definition lower_char :: "char \<Rightarrow> char" where
  "lower_char c = (let n = of_char c :: nat in
     if (65 \<le> n \<and> n \<le> 90) \<or> (192 \<le> n \<and> n \<le> 222 \<and> n \<noteq> 215) then char_of (n + 32) else c)"

definition js_lower :: "string \<Rightarrow> string" where
  "js_lower s = map lower_char s"

text \<open>\<open>s.slice(-n)\<close> for positive \<open>n\<close>\<close>

definition slice_last :: "nat \<Rightarrow> string \<Rightarrow> string" where
  "slice_last n s = drop (length s - n) s"

text \<open>\<open>s.split(c)\<close> for a one-character separator\<close>

fun split_char :: "char \<Rightarrow> string \<Rightarrow> string list" where
  "split_char c [] = [[]]"
| "split_char c (x # xs) =
     (if x = c then [] # split_char c xs
      else (case split_char c xs of [] \<Rightarrow> [[x]] | w # ws \<Rightarrow> (x # w) # ws))"

fun join_with :: "string \<Rightarrow> string list \<Rightarrow> string" where
  "join_with sep [] = []"
| "join_with sep [x] = x"
| "join_with sep (x # y # zs) = x @ sep @ join_with sep (y # zs)"

fun digit_char :: "nat \<Rightarrow> char" where
  "digit_char n = char_of (48 + n)"

text \<open>\<open>String(n)\<close> for a number\<close>

fun nat_to_string :: "nat \<Rightarrow> string" where
  "nat_to_string n = (if n < 10 then [digit_char n] else nat_to_string (n div 10) @ [digit_char (n mod 10)])"

declare nat_to_string.simps [simp del]

definition int_to_string :: "int \<Rightarrow> string" where
  "int_to_string i = (if i < 0 then ''-'' @ nat_to_string (nat (- i)) else nat_to_string (nat i))"

text \<open>\<open>[...new Set(xs)]\<close>: the distinct elements in order of first occurrence\<close>

definition uniq :: "'a list \<Rightarrow> 'a list" where
  "uniq xs = rev (remdups (rev xs))"

section \<open>Lemmas on the helpers\<close>

lemma truthy_simps [simp]:
  "truthy None = False" "truthy (Some s) = (s \<noteq> [])"
  by (simp_all add: truthy_def)

lemma nullish_simps [simp]:
  "nullish None b = b" "nullish (Some x) b = Some x"
  "nullish_or None d = d" "nullish_or (Some x) d = x"
  by (simp_all add: nullish_def nullish_or_def)

lemma nullish_None_right [simp]: "nullish a None = a"
  by (cases a) simp_all

lemma split_char_nonempty [simp]: "split_char c s \<noteq> []"
  by (induction s) (auto split: list.splits)

lemma split_char_no_sep: "c \<notin> set s \<Longrightarrow> split_char c s = [s]"
  by (induction s) auto

lemma split_char_app: "c \<notin> set a \<Longrightarrow> split_char c (a @ c # b) = a # split_char c b"
  by (induction a) auto

lemma slice_last_length: "length (slice_last n s) = min n (length s)"
  by (simp add: slice_last_def)

lemma dropWhile_is_space_idem: "dropWhile P (dropWhile P xs) = dropWhile P xs"
  by (induction xs) auto

lemma trim_idem [simp]: "js_trim (js_trim s) = js_trim s"
proof -
  let ?t = "dropWhile is_space s"
  have "dropWhile is_space (js_trim s) = js_trim s"
  proof (cases "js_trim s")
    case (Cons c cs)
    have "takeWhile is_space (rev ?t) @ rev (js_trim s) = rev ?t"
      unfolding js_trim_def rev_rev_ident by (rule takeWhile_dropWhile_id)
    then have "?t = js_trim s @ rev (takeWhile is_space (rev ?t))" by (metis rev_append rev_rev_ident)
    then obtain xs where "?t = c # xs" unfolding Cons by (metis append_Cons)
    then have "hd ?t = c" "?t \<noteq> []" by (simp_all only: list.sel) simp
    with hd_dropWhile [of is_space s] have "\<not> is_space c" by fastforce
    then show ?thesis by (simp add: Cons)
  qed simp
  then show ?thesis
    by (simp add: js_trim_def [of "js_trim s"]) (simp add: js_trim_def dropWhile_is_space_idem)
qed

section \<open>Lists and association lists\<close>

lemma set_uniq [simp]: "set (uniq xs) = set xs"
  by (simp add: uniq_def)

lemma distinct_uniq [simp]: "distinct (uniq xs)"
  by (simp add: uniq_def)

lemma uniq_Nil [simp]: "uniq [] = []"
  by (simp add: uniq_def)

lemma uniq_snoc: "uniq (xs @ [x]) = (if x \<in> set xs then uniq xs else uniq xs @ [x])"
  by (simp add: uniq_def)

text \<open>A Redis hash or a JavaScript Map: insertion order is kept, \<open>AList.update\<close> overwrites in place.\<close>

lemma map_of_update [simp]: "map_of (AList.update k v al) = (map_of al)(k \<mapsto> v)"
  by (rule update_conv')

lemma map_of_delete [simp]: "map_of (AList.delete k al) = (map_of al)(k := None)"
  by (rule delete_conv')

lemma filter_snoc: "filter P (xs @ [x]) = (if P x then filter P xs @ [x] else filter P xs)"
  by simp

lemma sort_key_sorted_id: "sorted (map f xs) \<Longrightarrow> sort_key f xs = xs"
  by (induction xs) (auto simp: insort_is_Cons)

lemma foldl_invariant:
  assumes "I a" and "\<And>a x. x \<in> set xs \<Longrightarrow> I a \<Longrightarrow> I (f a x)"
  shows "I (foldl f a xs)"
  using assms by (induction xs arbitrary: a) auto

end
