(* ===== verification/Events.thy ===== *)
theory Events
  imports Prelude
begin

text \<open>
  The domain events of the backend: one payload type per data interface of the
  \<open>domain/*/events.ts\<close> files, one datatype per aggregate whose constructors are the entries
  of its \<open>...EventName\<close> table, and their union \<open>domain_event\<close>.

  In the code a stored event carries a string \<open>eventName\<close> and an untyped \<open>data\<close>; every
  append writes a name together with the payload interface of that name, and every reducer
  switches on the name and casts the payload. The pair is a tagged union here, and
  \<open>event_name\<close> gives back the string.
\<close>

section \<open>Aggregate types\<close>

datatype aggregate_type =
    ACCOUNT | IP_CLIENT | ACTION | ACTION_EXECUTION
  | NOTIFICATION_CHANNEL | PROVIDER_CREDENTIAL | TRAEFIK_PROVIDER

fun aggregate_type_name :: "aggregate_type \<Rightarrow> string" where
  "aggregate_type_name ACCOUNT = ''account''"
| "aggregate_type_name IP_CLIENT = ''ip_client''"
| "aggregate_type_name ACTION = ''action''"
| "aggregate_type_name ACTION_EXECUTION = ''action_execution''"
| "aggregate_type_name NOTIFICATION_CHANNEL = ''notification_channel''"
| "aggregate_type_name PROVIDER_CREDENTIAL = ''provider_credential''"
| "aggregate_type_name TRAEFIK_PROVIDER = ''traefik_provider''"

section \<open>Account\<close>

record AccountRegisteredData =
  reg_accountId :: id
  reg_deviceLimit :: int
  reg_registeredAt :: timestamp

record AccountDeviceLimitOverriddenData =
  ovr_accountId :: id
  ovr_previousLimit :: int
  ovr_newLimit :: int
  ovr_overriddenBy :: id
  ovr_overriddenAt :: timestamp

record AccountClosedData =
  cls_accountId :: id
  cls_closedAt :: timestamp

datatype account_event =
    AccountRegistered AccountRegisteredData
  | AccountDeviceLimitOverridden AccountDeviceLimitOverriddenData
  | AccountClosed AccountClosedData

fun account_event_name :: "account_event \<Rightarrow> string" where
  "account_event_name (AccountRegistered _) = ''registered''"
| "account_event_name (AccountDeviceLimitOverridden _) = ''device_limit_overridden''"
| "account_event_name (AccountClosed _) = ''closed''"

section \<open>IP client\<close>

datatype notification_preference = PrefOff | PrefFailuresOnly | PrefAll

record IpClientRegisteredData =
  icr_ipClientId :: id
  icr_accountId :: id
  icr_label :: string
  icr_credentialHash :: string
  icr_registeredAt :: timestamp

record IpClientIpReportReceivedData =
  rep_reportedIPv4 :: "string option"
  rep_reportedIPv6 :: "string option"
  rep_receivedAt :: timestamp

record IpClientIpChangedData =
  chg_previousIPv4 :: "string option"
  chg_newIPv4 :: "string option"
  chg_previousIPv6 :: "string option"
  chg_newIPv6 :: "string option"
  chg_settledAt :: timestamp

datatype ip_client_event =
    IpClientRegistered IpClientRegisteredData
  | IpClientCredentialRotated string timestamp
  | IpClientEnabled id
  | IpClientDisabled id
  | IpClientDecommissioned timestamp
  | IpReportReceived IpClientIpReportReceivedData
  | IpChanged IpClientIpChangedData
  | NotificationPreferenceSet notification_preference

fun ip_client_event_name :: "ip_client_event \<Rightarrow> string" where
  "ip_client_event_name (IpClientRegistered _) = ''registered''"
| "ip_client_event_name (IpClientCredentialRotated _ _) = ''credential_rotated''"
| "ip_client_event_name (IpClientEnabled _) = ''enabled''"
| "ip_client_event_name (IpClientDisabled _) = ''disabled''"
| "ip_client_event_name (IpClientDecommissioned _) = ''decommissioned''"
| "ip_client_event_name (IpReportReceived _) = ''ip_report_received''"
| "ip_client_event_name (IpChanged _) = ''ip_changed''"
| "ip_client_event_name (NotificationPreferenceSet _) = ''notification_preference_set''"

section \<open>Action\<close>

datatype address_family = IPv4 | IPv6

text \<open>
  \<open>ActionConfig\<close> is a union of three interfaces that the code narrows by casts and by
  property tests (\<open>"providerCredentialId" in config\<close>). The record has the fields of all
  three, each optional, so a cast reads the same object and a test asks for a field.
\<close>

record ActionConfig =
  cf_providerCredentialId :: "id option"
  cf_zone :: "string option"
  cf_recordName :: "string option"
  cf_firewallId :: "int option"
  cf_direction :: "string option"
  cf_protocol :: "string option"
  cf_port :: "string option"
  cf_description :: "string option"
  cf_traefikProviderId :: "id option"
  cf_group :: "string option"

definition empty_config :: ActionConfig where
  "empty_config = \<lparr>cf_providerCredentialId = None, cf_zone = None, cf_recordName = None,
     cf_firewallId = None, cf_direction = None, cf_protocol = None, cf_port = None,
     cf_description = None, cf_traefikProviderId = None, cf_group = None\<rparr>"

definition HETZNER_CLOUD_DNS_UPDATE_ACTION_TYPE :: string where
  "HETZNER_CLOUD_DNS_UPDATE_ACTION_TYPE = ''hetzner_cloud_dns_update''"

definition HETZNER_CLOUD_FIREWALL_RULE_UPDATE_ACTION_TYPE :: string where
  "HETZNER_CLOUD_FIREWALL_RULE_UPDATE_ACTION_TYPE = ''hetzner_cloud_firewall_rule_update''"

definition TRAEFIK_CONFIG_DELIVERY_ACTION_TYPE :: string where
  "TRAEFIK_CONFIG_DELIVERY_ACTION_TYPE = ''traefik_config_delivery''"

lemmas action_type_defs =
  HETZNER_CLOUD_DNS_UPDATE_ACTION_TYPE_def
  HETZNER_CLOUD_FIREWALL_RULE_UPDATE_ACTION_TYPE_def
  TRAEFIK_CONFIG_DELIVERY_ACTION_TYPE_def

lemma action_types_distinct [simp]:
  "HETZNER_CLOUD_DNS_UPDATE_ACTION_TYPE \<noteq> HETZNER_CLOUD_FIREWALL_RULE_UPDATE_ACTION_TYPE"
  "HETZNER_CLOUD_FIREWALL_RULE_UPDATE_ACTION_TYPE \<noteq> HETZNER_CLOUD_DNS_UPDATE_ACTION_TYPE"
  "HETZNER_CLOUD_DNS_UPDATE_ACTION_TYPE \<noteq> TRAEFIK_CONFIG_DELIVERY_ACTION_TYPE"
  "TRAEFIK_CONFIG_DELIVERY_ACTION_TYPE \<noteq> HETZNER_CLOUD_DNS_UPDATE_ACTION_TYPE"
  "HETZNER_CLOUD_FIREWALL_RULE_UPDATE_ACTION_TYPE \<noteq> TRAEFIK_CONFIG_DELIVERY_ACTION_TYPE"
  "TRAEFIK_CONFIG_DELIVERY_ACTION_TYPE \<noteq> HETZNER_CLOUD_FIREWALL_RULE_UPDATE_ACTION_TYPE"
  by (simp_all add: action_type_defs)

definition hasProviderCredential :: "ActionConfig option \<Rightarrow> bool" where
  "hasProviderCredential c = (case c of None \<Rightarrow> False | Some cf \<Rightarrow> cf_providerCredentialId cf \<noteq> None)"

record ActionAttachedData =
  att_actionId :: id
  att_accountId :: id
  att_ipClientId :: id
  att_type :: string
  att_addressFamilies :: "address_family list"
  att_config :: ActionConfig
  att_attachedAt :: timestamp

record ActionReconfiguredData =
  rcf_addressFamilies :: "address_family list option"
  rcf_config :: "ActionConfig option"
  rcf_reconfiguredAt :: timestamp

record ActionFirewallRuleAppliedData =
  fra_actionId :: id
  fra_ipv4 :: "string option"
  fra_ipv6 :: "string option"
  fra_appliedAt :: timestamp

datatype action_event =
    ActionAttached ActionAttachedData
  | ActionReconfigured ActionReconfiguredData
  | ActionEnabled id
  | ActionDisabled id
  | ActionDetached timestamp
  | ActionFirewallRuleApplied ActionFirewallRuleAppliedData

fun action_event_name :: "action_event \<Rightarrow> string" where
  "action_event_name (ActionAttached _) = ''attached''"
| "action_event_name (ActionReconfigured _) = ''reconfigured''"
| "action_event_name (ActionEnabled _) = ''enabled''"
| "action_event_name (ActionDisabled _) = ''disabled''"
| "action_event_name (ActionDetached _) = ''detached''"
| "action_event_name (ActionFirewallRuleApplied _) = ''firewall_rule_applied''"

section \<open>Action execution\<close>

datatype triggered_by = ByIpChange | ByManual

record IpValuesUsed =
  ipv_ipv4 :: "string option"
  ipv_ipv6 :: "string option"

datatype outcome = Succeeded | Failed

record ActionExecutionStartedData =
  sta_executionId :: id
  sta_accountId :: id
  sta_actionId :: id
  sta_ipClientId :: id
  sta_triggeredBy :: triggered_by
  sta_causationEventId :: id
  sta_ipValuesUsed :: IpValuesUsed
  sta_attempt :: nat
  sta_startedAt :: timestamp

record ActionExecutionSucceededData =
  suc_completedAt :: timestamp
  suc_providerResponseSummary :: string

record ActionExecutionFailedData =
  fai_attempt :: nat
  fai_error :: string
  fai_retriesExhausted :: bool
  fai_failedAt :: timestamp

record ActionExecutionNotificationSentData =
  nts_channelId :: id
  nts_outcomeNotified :: outcome
  nts_sentAt :: timestamp

datatype action_execution_event =
    ExecutionStarted ActionExecutionStartedData
  | ExecutionSucceeded ActionExecutionSucceededData
  | ExecutionFailed ActionExecutionFailedData
  | ExecutionRetryScheduled nat timestamp
  | ExecutionNotificationSent ActionExecutionNotificationSentData

fun action_execution_event_name :: "action_execution_event \<Rightarrow> string" where
  "action_execution_event_name (ExecutionStarted _) = ''started''"
| "action_execution_event_name (ExecutionSucceeded _) = ''succeeded''"
| "action_execution_event_name (ExecutionFailed _) = ''failed''"
| "action_execution_event_name (ExecutionRetryScheduled _ _) = ''retry_scheduled''"
| "action_execution_event_name (ExecutionNotificationSent _) = ''notification_sent''"

section \<open>Notification channel and provider credential\<close>

definition EMAIL_NOTIFICATION_CHANNEL_TYPE :: string where
  "EMAIL_NOTIFICATION_CHANNEL_TYPE = ''email''"

record NotificationChannelRegisteredData =
  ncr_channelId :: id
  ncr_accountId :: id
  ncr_type :: string
  ncr_addresses :: "string list"
  ncr_registeredAt :: timestamp

datatype notification_channel_event =
    ChannelRegistered NotificationChannelRegisteredData
  | ChannelReconfigured "string list" timestamp
  | ChannelRevoked timestamp

fun notification_channel_event_name :: "notification_channel_event \<Rightarrow> string" where
  "notification_channel_event_name (ChannelRegistered _) = ''registered''"
| "notification_channel_event_name (ChannelReconfigured _ _) = ''reconfigured''"
| "notification_channel_event_name (ChannelRevoked _) = ''revoked''"

record ProviderCredentialStoredData =
  pcs_credentialId :: id
  pcs_accountId :: id
  pcs_provider :: string
  pcs_label :: string
  pcs_encryptedSecret :: string
  pcs_secretLast4 :: string
  pcs_storedAt :: timestamp

datatype provider_credential_event =
    CredentialStored ProviderCredentialStoredData
  | CredentialRotated string timestamp
  | CredentialRevoked timestamp

fun provider_credential_event_name :: "provider_credential_event \<Rightarrow> string" where
  "provider_credential_event_name (CredentialStored _) = ''stored''"
| "provider_credential_event_name (CredentialRotated _ _) = ''rotated''"
| "provider_credential_event_name (CredentialRevoked _) = ''revoked''"

section \<open>Traefik provider\<close>

datatype connection_mode = AgentInitiated | ServerInitiated

datatype disconnect_reason = DrClosed | DrSuperseded | DrRevoked | DrTimeout | DrError

datatype publish_failure = TooLarge | InternalFailure

fun publish_failure_name :: "publish_failure \<Rightarrow> string" where
  "publish_failure_name TooLarge = ''too_large''"
| "publish_failure_name InternalFailure = ''internal''"

record TraefikProviderCreatedData =
  tpc_providerId :: id
  tpc_accountId :: id
  tpc_name :: string
  tpc_connectionMode :: connection_mode
  tpc_createdAt :: timestamp

record TraefikProviderTokenIssuedData =
  tki_tokenId :: id
  tki_tokenHash :: string
  tki_last4 :: string
  tki_issuedAt :: timestamp

record TraefikProviderSnapshotPublishedData =
  pub_contentHash :: string
  pub_groupCount :: nat
  pub_entryCount :: nat
  pub_correlationId :: id
  pub_absorbedCausationIds :: "id list option"
  pub_publishedAt :: timestamp

record TraefikProviderSnapshotPublishFailedData =
  pbf_reason :: publish_failure
  pbf_correlationId :: id
  pbf_absorbedCausationIds :: "id list option"
  pbf_failedAt :: timestamp

record TraefikProviderAgentConnectedData =
  agc_sessionId :: id
  agc_tokenId :: id
  agc_agentVersion :: string
  agc_protocolVersion :: nat
  agc_maxOfflineSeconds :: nat
  agc_replacedPrevious :: bool
  agc_connectedAt :: timestamp

record TraefikProviderAgentDisconnectedData =
  agd_sessionId :: id
  agd_reason :: disconnect_reason
  agd_disconnectedAt :: timestamp

record FileChecksum =
  fc_name :: string
  fc_sha256 :: string

datatype check_status = CheckOk | CheckMissing | CheckUnreachable

record TraefikCheckResult =
  tc_status :: check_status
  tc_loaded :: "string list"
  tc_missing :: "string list"

record TraefikProviderSnapshotAppliedData =
  sap_version :: nat
  sap_correlationId :: id
  sap_agentVersion :: string
  sap_stale :: bool
  sap_files :: "FileChecksum list"
  sap_templates :: "FileChecksum list"
  sap_traefikCheck :: "TraefikCheckResult option"
  sap_appliedAt :: timestamp

record TraefikProviderSnapshotApplyFailedData =
  saf_version :: nat
  saf_correlationId :: id
  saf_reason :: string
  saf_appliedAt :: timestamp

datatype traefik_provider_event =
    ProviderCreated TraefikProviderCreatedData
  | ProviderRenamed string timestamp
  | ProviderDeleted timestamp
  | TokenIssued TraefikProviderTokenIssuedData
  | TokenRevoked id timestamp
  | SnapshotPublished TraefikProviderSnapshotPublishedData
  | SnapshotPublishFailed TraefikProviderSnapshotPublishFailedData
  | AgentConnected TraefikProviderAgentConnectedData
  | AgentDisconnected TraefikProviderAgentDisconnectedData
  | SnapshotApplied TraefikProviderSnapshotAppliedData
  | SnapshotApplyFailed TraefikProviderSnapshotApplyFailedData

fun traefik_provider_event_name :: "traefik_provider_event \<Rightarrow> string" where
  "traefik_provider_event_name (ProviderCreated _) = ''created''"
| "traefik_provider_event_name (ProviderRenamed _ _) = ''renamed''"
| "traefik_provider_event_name (ProviderDeleted _) = ''deleted''"
| "traefik_provider_event_name (TokenIssued _) = ''token_issued''"
| "traefik_provider_event_name (TokenRevoked _ _) = ''token_revoked''"
| "traefik_provider_event_name (SnapshotPublished _) = ''snapshot_published''"
| "traefik_provider_event_name (SnapshotPublishFailed _) = ''snapshot_publish_failed''"
| "traefik_provider_event_name (AgentConnected _) = ''agent_connected''"
| "traefik_provider_event_name (AgentDisconnected _) = ''agent_disconnected''"
| "traefik_provider_event_name (SnapshotApplied _) = ''snapshot_applied''"
| "traefik_provider_event_name (SnapshotApplyFailed _) = ''snapshot_apply_failed''"

section \<open>All events\<close>

datatype domain_event =
    AccountEv account_event
  | IpClientEv ip_client_event
  | ActionEv action_event
  | ExecutionEv action_execution_event
  | ChannelEv notification_channel_event
  | CredentialEv provider_credential_event
  | ProviderEv traefik_provider_event

fun event_aggregate :: "domain_event \<Rightarrow> aggregate_type" where
  "event_aggregate (AccountEv _) = ACCOUNT"
| "event_aggregate (IpClientEv _) = IP_CLIENT"
| "event_aggregate (ActionEv _) = ACTION"
| "event_aggregate (ExecutionEv _) = ACTION_EXECUTION"
| "event_aggregate (ChannelEv _) = NOTIFICATION_CHANNEL"
| "event_aggregate (CredentialEv _) = PROVIDER_CREDENTIAL"
| "event_aggregate (ProviderEv _) = TRAEFIK_PROVIDER"

fun event_name :: "domain_event \<Rightarrow> string" where
  "event_name (AccountEv e) = account_event_name e"
| "event_name (IpClientEv e) = ip_client_event_name e"
| "event_name (ActionEv e) = action_event_name e"
| "event_name (ExecutionEv e) = action_execution_event_name e"
| "event_name (ChannelEv e) = notification_channel_event_name e"
| "event_name (CredentialEv e) = provider_credential_event_name e"
| "event_name (ProviderEv e) = traefik_provider_event_name e"

lemma aggregate_type_name_inject: "aggregate_type_name a = aggregate_type_name b \<Longrightarrow> a = b"
  by (cases a; cases b) simp_all

end
