(* ===== verification/Config.thy ===== *)
theory Config
  imports Prelude
begin

text \<open>
  Configuration: \<open>config/env.ts\<close> (reading the environment, collecting every problem in one
  run) and \<open>config/check.ts\<close> (\<open>validate-config\<close>). The environment is a partial function from
  variable names to values. \<open>Number.parseInt\<close> is modelled on unbounded integers; \<open>new URL(v)\<close>
  is the parameter \<open>url_protocol\<close>: the \<open>protocol\<close> of a valid URL, \<open>None\<close> where the
  constructor throws.
\<close>

type_synonym env = "string \<Rightarrow> string option"

section \<open>Reading the environment\<close>

record Config =
  cfg_cloudEventsSource :: string
  cfg_cloudEventsTypePrefix :: string
  cfg_defaultIpClientLimit :: int
  cfg_actionRetryAttempts :: int
  cfg_actionRetryBaseDelayMs :: int
  cfg_ipClientDebounceMs :: int
  cfg_databaseUrl :: string
  cfg_redisUrl :: string
  cfg_logtoEndpoint :: string
  cfg_logtoAppId :: string
  cfg_logtoAppSecret :: string
  cfg_logtoManagementClientId :: string
  cfg_logtoManagementClientSecret :: string
  cfg_logtoManagementApiBaseUrl :: string
  cfg_port :: int
  cfg_bindAddress :: string
  cfg_credentialEncryptionKey :: string
  cfg_smtpHost :: string
  cfg_smtpPort :: int
  cfg_smtpUser :: string
  cfg_smtpPassword :: string
  cfg_smtpSecure :: bool
  cfg_notificationFromAddress :: string
  cfg_appLogLevel :: string
  cfg_accessLogFilePath :: string
  cfg_accessLogMaxSizeBytes :: int
  cfg_accessLogMaxFiles :: int
  cfg_agentPort :: int
  cfg_agentPublicUrl :: string
  cfg_agentSnapshotMaxBytes :: int
  cfg_agentSnapshotCoalesceMs :: int
  cfg_agentResyncMs :: int
  cfg_agentHeartbeatSeconds :: int
  cfg_version :: string

definition REQUIRED_STRING_VARS :: "string list" where
  "REQUIRED_STRING_VARS =
     [''BACKEND_CLOUDEVENTS_SOURCE'', ''BACKEND_CLOUDEVENTS_TYPE_PREFIX'', ''BACKEND_DATABASE_URL'',
      ''BACKEND_REDIS_URL'', ''BACKEND_LOGTO_ENDPOINT'', ''BACKEND_CREDENTIAL_ENCRYPTION_KEY'']"

datatype problem_kind = Missing | NotInteger

datatype ConfigProblem = ConfigProblem (cp_name: string) (cp_kind: problem_kind)

fun describeProblem :: "ConfigProblem \<Rightarrow> string" where
  "describeProblem (ConfigProblem n Missing) = ''Missing required environment variable: '' @ n"
| "describeProblem (ConfigProblem n NotInteger) = ''Environment variable '' @ n @ '' must be an integer''"

definition is_digit :: "char \<Rightarrow> bool" where
  "is_digit c = (48 \<le> (of_char c :: nat) \<and> of_char c \<le> (57 :: nat))"

definition digits_value :: "string \<Rightarrow> int" where
  "digits_value ds = foldl (\<lambda>n c. 10 * n + (int (of_char c) - 48)) 0 ds"

text \<open>\<open>Number.parseInt(raw, 10)\<close>; \<open>None\<close> is NaN.\<close>

definition parse_int :: "string \<Rightarrow> int option" where
  "parse_int raw =
     (let s = dropWhile is_space raw;
          neg = (case s of c # _ \<Rightarrow> c = CHR ''-'' | [] \<Rightarrow> False);
          body = (case s of c # cs \<Rightarrow> if c = CHR ''-'' \<or> c = CHR ''+'' then cs else s | [] \<Rightarrow> []);
          ds = takeWhile is_digit body
      in if ds = [] then None else Some (if neg then - digits_value ds else digits_value ds))"

text \<open>
  Each method of \<open>EnvReader\<close> returns the value and the problems it pushes; \<open>readConfig\<close>
  concatenates them in the order of the calls.
\<close>

definition requireString :: "env \<Rightarrow> string \<Rightarrow> string \<times> ConfigProblem list" where
  "requireString env key = (case env key of
       None \<Rightarrow> ([], [ConfigProblem key Missing])
     | Some v \<Rightarrow> if v = [] \<or> js_trim v = [] then ([], [ConfigProblem key Missing]) else (v, []))"

definition optionalString :: "env \<Rightarrow> string \<Rightarrow> string \<Rightarrow> string" where
  "optionalString env key fallback = nullish_or (env key) fallback"

definition optionalInt :: "env \<Rightarrow> string \<Rightarrow> int \<Rightarrow> int \<times> ConfigProblem list" where
  "optionalInt env key fallback = (case env key of
       None \<Rightarrow> (fallback, [])
     | Some raw \<Rightarrow> if raw = [] then (fallback, [])
         else (case parse_int raw of
             None \<Rightarrow> (fallback, [ConfigProblem key NotInteger])
           | Some n \<Rightarrow> (n, [])))"

definition optionalBool :: "env \<Rightarrow> string \<Rightarrow> bool \<Rightarrow> bool" where
  "optionalBool env key fallback = (case env key of
       None \<Rightarrow> fallback
     | Some raw \<Rightarrow> if raw = [] then fallback else raw = ''true'')"

text \<open>\<open>s.replace(/\/+$/, "")\<close>\<close>

definition strip_trailing_slashes :: "string \<Rightarrow> string" where
  "strip_trailing_slashes s = rev (dropWhile (\<lambda>c. c = CHR ''/'') (rev s))"

definition readConfig :: "env \<Rightarrow> Config \<times> ConfigProblem list" where
  "readConfig env =
    (let cloudEventsSource = requireString env ''BACKEND_CLOUDEVENTS_SOURCE'';
         cloudEventsTypePrefix = requireString env ''BACKEND_CLOUDEVENTS_TYPE_PREFIX'';
         defaultIpClientLimit = optionalInt env ''BACKEND_DEFAULT_IP_CLIENT_LIMIT'' 5;
         actionRetryAttempts = optionalInt env ''BACKEND_ACTION_RETRY_ATTEMPTS'' 5;
         actionRetryBaseDelayMs = optionalInt env ''BACKEND_ACTION_RETRY_BASE_DELAY_MS'' 30000;
         ipClientDebounceMs = optionalInt env ''BACKEND_IP_CLIENT_DEBOUNCE_MS'' 30000;
         databaseUrl = requireString env ''BACKEND_DATABASE_URL'';
         redisUrl = requireString env ''BACKEND_REDIS_URL'';
         logtoEndpoint = requireString env ''BACKEND_LOGTO_ENDPOINT'';
         port = optionalInt env ''BACKEND_PORT'' 8080;
         credentialEncryptionKey = requireString env ''BACKEND_CREDENTIAL_ENCRYPTION_KEY'';
         smtpPort = optionalInt env ''BACKEND_SMTP_PORT'' 1025;
         accessLogMaxSizeBytes = optionalInt env ''BACKEND_ACCESS_LOG_MAX_SIZE_BYTES'' 10485760;
         accessLogMaxFiles = optionalInt env ''BACKEND_ACCESS_LOG_MAX_FILES'' 5;
         agentPort = optionalInt env ''BACKEND_AGENT_PORT'' 8081;
         agentSnapshotMaxBytes = optionalInt env ''BACKEND_AGENT_SNAPSHOT_MAX_BYTES'' 1048576;
         agentSnapshotCoalesceMs = optionalInt env ''BACKEND_AGENT_SNAPSHOT_COALESCE_MS'' 1000;
         agentResyncMs = optionalInt env ''BACKEND_AGENT_RESYNC_MS'' 900000;
         agentHeartbeatSeconds = optionalInt env ''BACKEND_AGENT_HEARTBEAT_SECONDS'' 30
     in (\<lparr>cfg_cloudEventsSource = fst cloudEventsSource,
          cfg_cloudEventsTypePrefix = fst cloudEventsTypePrefix,
          cfg_defaultIpClientLimit = fst defaultIpClientLimit,
          cfg_actionRetryAttempts = fst actionRetryAttempts,
          cfg_actionRetryBaseDelayMs = fst actionRetryBaseDelayMs,
          cfg_ipClientDebounceMs = fst ipClientDebounceMs,
          cfg_databaseUrl = fst databaseUrl,
          cfg_redisUrl = fst redisUrl,
          cfg_logtoEndpoint = fst logtoEndpoint,
          cfg_logtoAppId = optionalString env ''BACKEND_LOGTO_APP_ID'' [],
          cfg_logtoAppSecret = optionalString env ''BACKEND_LOGTO_APP_SECRET'' [],
          cfg_logtoManagementClientId = optionalString env ''BACKEND_LOGTO_MANAGEMENT_CLIENT_ID'' [],
          cfg_logtoManagementClientSecret = optionalString env ''BACKEND_LOGTO_MANAGEMENT_CLIENT_SECRET'' [],
          cfg_logtoManagementApiBaseUrl = optionalString env ''BACKEND_LOGTO_MANAGEMENT_API_BASE_URL'' [],
          cfg_port = fst port,
          cfg_bindAddress = or_default (js_trim (optionalString env ''BACKEND_BIND_ADDRESS'' ''0.0.0.0'')) ''0.0.0.0'',
          cfg_credentialEncryptionKey = fst credentialEncryptionKey,
          cfg_smtpHost = optionalString env ''BACKEND_SMTP_HOST'' ''localhost'',
          cfg_smtpPort = fst smtpPort,
          cfg_smtpUser = optionalString env ''BACKEND_SMTP_USER'' [],
          cfg_smtpPassword = optionalString env ''BACKEND_SMTP_PASSWORD'' [],
          cfg_smtpSecure = optionalBool env ''BACKEND_SMTP_SECURE'' False,
          cfg_notificationFromAddress = optionalString env ''BACKEND_NOTIFICATION_FROM_ADDRESS'' ''fluxip@localhost'',
          cfg_appLogLevel = optionalString env ''BACKEND_APP_LOG_LEVEL'' ''info'',
          cfg_accessLogFilePath = optionalString env ''BACKEND_ACCESS_LOG_FILE_PATH'' ''logs/access.log'',
          cfg_accessLogMaxSizeBytes = fst accessLogMaxSizeBytes,
          cfg_accessLogMaxFiles = fst accessLogMaxFiles,
          cfg_agentPort = fst agentPort,
          cfg_agentPublicUrl = strip_trailing_slashes (optionalString env ''BACKEND_AGENT_PUBLIC_URL'' []),
          cfg_agentSnapshotMaxBytes = fst agentSnapshotMaxBytes,
          cfg_agentSnapshotCoalesceMs = fst agentSnapshotCoalesceMs,
          cfg_agentResyncMs = fst agentResyncMs,
          cfg_agentHeartbeatSeconds = fst agentHeartbeatSeconds,
          cfg_version = or_default (js_trim (optionalString env ''FLUXIP_VERSION'' ''dev'')) ''dev''\<rparr>,
         concat [snd cloudEventsSource, snd cloudEventsTypePrefix, snd defaultIpClientLimit,
          snd actionRetryAttempts, snd actionRetryBaseDelayMs, snd ipClientDebounceMs, snd databaseUrl,
          snd redisUrl, snd logtoEndpoint, snd port, snd credentialEncryptionKey, snd smtpPort,
          snd accessLogMaxSizeBytes, snd accessLogMaxFiles, snd agentPort, snd agentSnapshotMaxBytes,
          snd agentSnapshotCoalesceMs, snd agentResyncMs, snd agentHeartbeatSeconds]))"

definition collectConfigProblems :: "env \<Rightarrow> ConfigProblem list" where
  "collectConfigProblems env = snd (readConfig env)"

text \<open>\<open>Inl\<close> is the thrown \<open>ConfigError\<close> with its problems.\<close>

definition loadConfig :: "env \<Rightarrow> ConfigProblem list + Config" where
  "loadConfig env = (case readConfig env of (config, problems) \<Rightarrow>
     if length problems > 0 then Inl problems else Inr config)"

definition config_error_message :: "ConfigProblem list \<Rightarrow> string" where
  "config_error_message ps = join_with [CHR 0x0A] (map describeProblem ps)"

section \<open>validate-config\<close>

datatype finding_level = LevelError | LevelWarning

datatype ConfigFinding =
  ConfigFinding (f_name: string) (f_level: finding_level) (f_reason: string) (f_feature: "string option")

definition INTEGERS :: "(string \<times> int \<times> int option) list" where
  "INTEGERS =
     [(''BACKEND_DEFAULT_IP_CLIENT_LIMIT'', 0, None),
      (''BACKEND_ACTION_RETRY_ATTEMPTS'', 0, None),
      (''BACKEND_ACTION_RETRY_BASE_DELAY_MS'', 0, None),
      (''BACKEND_IP_CLIENT_DEBOUNCE_MS'', 0, None),
      (''BACKEND_PORT'', 1, Some 65535),
      (''BACKEND_SMTP_PORT'', 1, Some 65535),
      (''BACKEND_ACCESS_LOG_MAX_SIZE_BYTES'', 0, None),
      (''BACKEND_ACCESS_LOG_MAX_FILES'', 0, None),
      (''BACKEND_AGENT_PORT'', 1, Some 65535),
      (''BACKEND_AGENT_SNAPSHOT_MAX_BYTES'', 0, None),
      (''BACKEND_AGENT_SNAPSHOT_COALESCE_MS'', 0, None),
      (''BACKEND_AGENT_RESYNC_MS'', 0, None),
      (''BACKEND_AGENT_HEARTBEAT_SECONDS'', 0, None)]"

definition URLS :: "(string \<times> string list \<times> bool) list" where
  "URLS =
     [(''BACKEND_DATABASE_URL'', [''postgres:'', ''postgresql:''], True),
      (''BACKEND_REDIS_URL'', [''redis:'', ''rediss:''], True),
      (''BACKEND_LOGTO_ENDPOINT'', [''http:'', ''https:''], True),
      (''BACKEND_LOGTO_MANAGEMENT_API_BASE_URL'', [''http:'', ''https:''], False),
      (''BACKEND_AGENT_PUBLIC_URL'', [''http:'', ''https:''], False)]"

definition LOG_LEVELS :: "string list" where
  "LOG_LEVELS = [''trace'', ''debug'', ''info'', ''warning'', ''error'', ''fatal'']"

definition isBlank :: "string option \<Rightarrow> bool" where
  "isBlank v = (case v of None \<Rightarrow> True | Some s \<Rightarrow> js_trim s = [])"

text \<open>
  \<open>/^[A-Za-z0-9+/]+={0,2}$/\<close> and a decoded length of 32: Node decodes \<open>n\<close> base64 characters
  (padding not counted) to \<open>3 * n div 4\<close> bytes.
\<close>

definition is_base64_char :: "char \<Rightarrow> bool" where
  "is_base64_char c = (let n = of_char c :: nat in
     (65 \<le> n \<and> n \<le> 90) \<or> (97 \<le> n \<and> n \<le> 122) \<or> (48 \<le> n \<and> n \<le> 57) \<or> n = 43 \<or> n = 47)"

definition isValidKey :: "string \<Rightarrow> bool" where
  "isValidKey v = (let body = takeWhile is_base64_char v; rest = dropWhile is_base64_char v in
     body \<noteq> [] \<and> (rest = [] \<or> rest = ''='' \<or> rest = ''=='') \<and> 3 * length body div 4 = 32)"

text \<open>\<open>/^-?\d+$/\<close> and \<open>Number(text)\<close> on such a text\<close>

definition is_integer_text :: "string \<Rightarrow> bool" where
  "is_integer_text t = (let ds = (case t of c # cs \<Rightarrow> if c = CHR ''-'' then cs else t | [] \<Rightarrow> []) in
     ds \<noteq> [] \<and> list_all is_digit ds)"

definition integer_value :: "string \<Rightarrow> int" where
  "integer_value t = (case t of [] \<Rightarrow> 0 | c # cs \<Rightarrow> if c = CHR ''-'' then - digits_value cs else digits_value t)"

definition urlProblem :: "(string \<Rightarrow> string option) \<Rightarrow> string \<Rightarrow> string list \<Rightarrow> string option" where
  "urlProblem url_protocol value protocols = (case url_protocol value of
       Some p \<Rightarrow> if p \<in> set protocols then None
         else Some (''unexpected scheme (expected '' @ join_with '' or '' (map butlast protocols) @ '')'')
     | None \<Rightarrow> Some ''not a valid URL'')"

abbreviation conf_error :: "string \<Rightarrow> string \<Rightarrow> ConfigFinding" where
  "conf_error n r \<equiv> ConfigFinding n LevelError r None"

abbreviation conf_warn :: "string \<Rightarrow> string \<Rightarrow> string \<Rightarrow> ConfigFinding" where
  "conf_warn n r f \<equiv> ConfigFinding n LevelWarning r (Some f)"

text \<open>
  \<open>failed\<close> is the set of the names of the errors found so far, so \<open>failed.has(name)\<close> asks the
  error list. \<open>env_text\<close> is \<open>(value as string).trim()\<close>, only used where the value is present.
\<close>

definition has_failed :: "ConfigFinding list \<Rightarrow> string \<Rightarrow> bool" where
  "has_failed errors name = (name \<in> f_name ` set errors)"

definition env_text :: "env \<Rightarrow> string \<Rightarrow> string" where
  "env_text env name = js_trim (nullish_or (env name) [])"

definition problem_errors :: "env \<Rightarrow> ConfigFinding list" where
  "problem_errors env =
     map (\<lambda>p. conf_error (cp_name p) (if cp_kind p = Missing then ''missing'' else ''not an integer''))
       (collectConfigProblems env)"

definition check_integer :: "env \<Rightarrow> ConfigFinding list \<Rightarrow> string \<times> int \<times> int option \<Rightarrow> ConfigFinding list" where
  "check_integer env errors = (\<lambda>(name, mn, mx).
     if has_failed errors name \<or> isBlank (env name) then errors
     else (let text = env_text env name in
       if \<not> is_integer_text text then errors @ [conf_error name ''not an integer'']
       else if integer_value text < mn \<or> (case mx of None \<Rightarrow> False | Some m \<Rightarrow> m < integer_value text)
       then errors @ [conf_error name (case mx of
              None \<Rightarrow> ''must be at least '' @ int_to_string mn
            | Some m \<Rightarrow> ''must be between '' @ int_to_string mn @ '' and '' @ int_to_string m)]
       else errors))"

definition check_url ::
  "(string \<Rightarrow> string option) \<Rightarrow> env \<Rightarrow> ConfigFinding list \<Rightarrow> string \<times> string list \<times> bool \<Rightarrow> ConfigFinding list" where
  "check_url url_protocol env errors = (\<lambda>(name, protocols, required).
     if has_failed errors name \<or> (isBlank (env name) \<and> \<not> required) then errors
     else (case urlProblem url_protocol (env_text env name) protocols of
         None \<Rightarrow> errors
       | Some reason \<Rightarrow> errors @ [conf_error name reason]))"

definition check_key :: "env \<Rightarrow> ConfigFinding list \<Rightarrow> ConfigFinding list" where
  "check_key env errors =
     (let name = ''BACKEND_CREDENTIAL_ENCRYPTION_KEY'' in
      if \<not> has_failed errors name \<and> \<not> isBlank (env name) \<and> \<not> isValidKey (env_text env name)
      then errors @ [conf_error name ''not a base64-encoded 32-byte key (generate one with: openssl rand -base64 32)'']
      else errors)"

definition check_one_of :: "env \<Rightarrow> string \<Rightarrow> string list \<Rightarrow> string \<Rightarrow> ConfigFinding list \<Rightarrow> ConfigFinding list" where
  "check_one_of env name allowed reason errors =
     (if \<not> isBlank (env name) \<and> env_text env name \<notin> set allowed
      then errors @ [conf_error name reason] else errors)"

definition ends_with :: "string \<Rightarrow> string \<Rightarrow> bool" where
  "ends_with s suf = (length suf \<le> length s \<and> drop (length s - length suf) s = suf)"

definition config_warnings :: "env \<Rightarrow> ConfigFinding list" where
  "config_warnings env =
     (if isBlank (env ''BACKEND_SMTP_HOST'') \<or> js_lower (env_text env ''BACKEND_SMTP_HOST'') = ''localhost''
      then [conf_warn ''BACKEND_SMTP_HOST'' ''empty or localhost (development default)'' ''email notifications''] else [])
   @ (if isBlank (env ''BACKEND_NOTIFICATION_FROM_ADDRESS'')
         \<or> ends_with (js_lower (env_text env ''BACKEND_NOTIFICATION_FROM_ADDRESS'')) ''@localhost''
      then [conf_warn ''BACKEND_NOTIFICATION_FROM_ADDRESS'' ''empty or @localhost (development default)'' ''email notifications''] else [])
   @ map (\<lambda>name. conf_warn name ''empty'' ''changing the password in the app'')
       (filter (\<lambda>name. isBlank (env name))
         [''BACKEND_LOGTO_MANAGEMENT_CLIENT_ID'', ''BACKEND_LOGTO_MANAGEMENT_CLIENT_SECRET'',
          ''BACKEND_LOGTO_MANAGEMENT_API_BASE_URL''])
   @ (if isBlank (env ''BACKEND_AGENT_PUBLIC_URL'')
      then [conf_warn ''BACKEND_AGENT_PUBLIC_URL'' ''empty'' ''creating Traefik agents''] else [])"

definition checkConfig :: "(string \<Rightarrow> string option) \<Rightarrow> env \<Rightarrow> ConfigFinding list" where
  "checkConfig url_protocol env =
     (let e0 = problem_errors env;
          e1 = foldl (check_integer env) e0 INTEGERS;
          e2 = foldl (check_url url_protocol env) e1 URLS;
          e3 = check_key env e2;
          e4 = check_one_of env ''BACKEND_SMTP_SECURE'' [''true'', ''false''] ''must be true or false'' e3;
          e5 = check_one_of env ''BACKEND_APP_LOG_LEVEL'' LOG_LEVELS
                 (''must be one of '' @ join_with '', '' LOG_LEVELS) e4
      in e5 @ config_warnings env)"

definition config_accepted :: "ConfigFinding list \<Rightarrow> bool" where
  "config_accepted findings = list_all (\<lambda>f. f_level f \<noteq> LevelError) findings"

section \<open>Lemmas\<close>

text \<open>Every pass only adds errors: an accepted configuration passed each of them unchanged.\<close>

lemma check_integer_extends: "set errors \<subseteq> set (check_integer env errors x)"
  by (cases x) (auto simp: check_integer_def Let_def)

lemma check_url_extends: "set errors \<subseteq> set (check_url up env errors x)"
  by (cases x) (auto simp: check_url_def split: option.splits)

lemma check_key_extends: "set errors \<subseteq> set (check_key env errors)"
  by (auto simp: check_key_def Let_def)

lemma check_one_of_extends: "set errors \<subseteq> set (check_one_of env n a r errors)"
  by (auto simp: check_one_of_def)

lemma foldl_extends:
  assumes "\<And>e x. set e \<subseteq> set (f e x)"
  shows "set e \<subseteq> set (foldl f e xs)"
proof (induction xs arbitrary: e)
  case (Cons x xs)
  with assms [of e x] show ?case by fastforce
qed simp

lemma all_errors_stay_empty:
  assumes "\<And>e x. set e \<subseteq> set (f e x)" and "foldl f e xs = []"
  shows "e = [] \<and> (\<forall>x \<in> set xs. f [] x = [])"
  using assms(2)
proof (induction xs arbitrary: e)
  case (Cons x xs)
  then have "f e x = []" and "\<forall>y \<in> set xs. f [] y = []" by simp_all
  moreover from this assms(1) [of e x] have "e = []" by simp
  ultimately show ?case by simp
qed simp

definition config_errors :: "(string \<Rightarrow> string option) \<Rightarrow> env \<Rightarrow> ConfigFinding list" where
  "config_errors up env =
     check_one_of env ''BACKEND_APP_LOG_LEVEL'' LOG_LEVELS (''must be one of '' @ join_with '', '' LOG_LEVELS)
       (check_one_of env ''BACKEND_SMTP_SECURE'' [''true'', ''false''] ''must be true or false''
         (check_key env (foldl (check_url up env)
           (foldl (check_integer env) (problem_errors env) INTEGERS) URLS)))"

lemma checkConfig_split: "checkConfig up env = config_errors up env @ config_warnings env"
  by (simp only: checkConfig_def config_errors_def Let_def)

lemma check_integer_shape:
  "check_integer env e x = e \<or> (\<exists>n r. check_integer env e x = e @ [conf_error n r])"
  by (cases x) (simp add: check_integer_def Let_def)

lemma check_url_shape:
  "check_url up env e x = e \<or> (\<exists>n r. check_url up env e x = e @ [conf_error n r])"
  by (cases x) (simp add: check_url_def split: option.split)

lemma check_key_shape:
  "check_key env e = e \<or> (\<exists>n r. check_key env e = e @ [conf_error n r])"
  by (simp add: check_key_def Let_def)

lemma check_one_of_shape:
  "check_one_of env nm a r e = e \<or> (\<exists>n r'. check_one_of env nm a r e = e @ [conf_error n r'])"
  by (simp add: check_one_of_def)

definition only_errors :: "ConfigFinding list \<Rightarrow> bool" where
  "only_errors e = (\<forall>f \<in> set e. f_level f = LevelError)"

lemma only_errors_snoc: "only_errors e \<Longrightarrow> e' = e \<or> (\<exists>n r. e' = e @ [conf_error n r]) \<Longrightarrow> only_errors e'"
  by (auto simp: only_errors_def)

lemma errors_are_errors: "only_errors (config_errors up env)"
proof -
  have "only_errors (problem_errors env)" by (auto simp: only_errors_def problem_errors_def)
  then have "only_errors (foldl (check_integer env) (problem_errors env) INTEGERS)"
    by (rule foldl_invariant) (erule only_errors_snoc, rule check_integer_shape)
  then have "only_errors (foldl (check_url up env) (foldl (check_integer env) (problem_errors env) INTEGERS) URLS)"
    by (rule foldl_invariant) (erule only_errors_snoc, rule check_url_shape)
  then show ?thesis
    unfolding config_errors_def
    by (intro only_errors_snoc [OF _ check_one_of_shape] only_errors_snoc [OF _ check_key_shape])
qed

lemma accepted_no_errors:
  assumes "config_accepted (checkConfig up env)"
  shows "config_errors up env = []"
proof (rule ccontr)
  assume "config_errors up env \<noteq> []"
  then obtain f where f: "f \<in> set (config_errors up env)" by (cases "config_errors up env") auto
  with assms have "f_level f \<noteq> LevelError"
    by (auto simp: config_accepted_def list_all_iff checkConfig_split)
  moreover from f have "f_level f = LevelError" using errors_are_errors [of up env] by (simp add: only_errors_def)
  ultimately show False by blast
qed

lemma accepted_passes:
  assumes "config_accepted (checkConfig up env)"
  shows "collectConfigProblems env = []"
    and "\<forall>x \<in> set INTEGERS. check_integer env [] x = []"
proof -
  let ?e1 = "foldl (check_integer env) (problem_errors env) INTEGERS"
  have "set ?e1 \<subseteq> set (foldl (check_url up env) ?e1 URLS)"
    by (rule foldl_extends) (rule check_url_extends)
  also have "\<dots> \<subseteq> set (config_errors up env)"
    unfolding config_errors_def using check_key_extends check_one_of_extends by (meson subset_trans)
  finally have "?e1 = []" using accepted_no_errors [OF assms] by simp
  then have "problem_errors env = [] \<and> (\<forall>x \<in> set INTEGERS. check_integer env [] x = [])"
    by (rule all_errors_stay_empty [OF check_integer_extends])
  then show "collectConfigProblems env = []"
    and "\<forall>x \<in> set INTEGERS. check_integer env [] x = []"
    by (simp_all add: problem_errors_def)
qed

text \<open>On an integer text \<open>parseInt\<close> and \<open>Number\<close> agree.\<close>

lemma is_digit_not_space: "is_digit c \<Longrightarrow> \<not> is_space c"
  by (auto simp: is_digit_def is_space_def)

lemma minus_plus_facts [simp]:
  "\<not> is_digit CHR ''-''" "\<not> is_digit CHR ''+''" "\<not> is_space CHR ''-''"
  by (simp_all add: is_digit_def is_space_def)

lemma dropWhile_trim: "\<exists>w. dropWhile is_space s = js_trim s @ w \<and> (\<forall>c \<in> set w. is_space c)"
proof -
  let ?r = "rev (dropWhile is_space s)"
  have "dropWhile is_space s = rev (takeWhile is_space ?r @ dropWhile is_space ?r)" by simp
  also have "\<dots> = js_trim s @ rev (takeWhile is_space ?r)"
    by (simp only: rev_append js_trim_def)
  finally have "dropWhile is_space s = js_trim s @ rev (takeWhile is_space ?r)" .
  then show ?thesis by (metis set_rev set_takeWhileD)
qed

lemma trim_empty:
  assumes "js_trim s = []"
  shows "dropWhile is_space s = []"
proof (rule ccontr)
  assume ne: "dropWhile is_space s \<noteq> []"
  obtain w where w: "dropWhile is_space s = w" "\<forall>c \<in> set w. is_space c"
    using dropWhile_trim [of s] assms by auto
  from ne have "\<not> is_space (hd (dropWhile is_space s))" by (rule hd_dropWhile)
  moreover from ne w(1) have "hd (dropWhile is_space s) \<in> set w" by simp
  ultimately show False using w(2) by blast
qed

lemma takeWhile_digits_app:
  "list_all is_digit ds \<Longrightarrow> (\<forall>c \<in> set w. is_space c) \<Longrightarrow> takeWhile is_digit (ds @ w) = ds"
proof (induction ds)
  case Nil
  then show ?case using is_digit_not_space by (cases w) auto
qed simp

lemma parse_int_integer_text:
  assumes "is_integer_text (js_trim s)"
  shows "parse_int s = Some (integer_value (js_trim s))"
proof -
  obtain w where w: "dropWhile is_space s = js_trim s @ w" "\<forall>c \<in> set w. is_space c"
    using dropWhile_trim by blast
  obtain c cs where t: "js_trim s = c # cs"
    using assms by (cases "js_trim s") (auto simp: is_integer_text_def)
  show ?thesis
  proof (cases "c = CHR ''-''")
    case True
    with assms t have "cs \<noteq> []" "list_all is_digit cs" by (simp_all add: is_integer_text_def)
    with True t w show ?thesis
      by (simp add: parse_int_def integer_value_def takeWhile_digits_app)
  next
    case False
    with assms t have d: "list_all is_digit (c # cs)" by (simp add: is_integer_text_def)
    then have "c \<noteq> CHR ''+''" by auto
    with False t w d takeWhile_digits_app [OF d w(2)] show ?thesis
      by (simp add: parse_int_def integer_value_def)
  qed
qed

text \<open>What an accepted integer variable reads as: its default, or a value within its bounds.\<close>

lemma check_integer_bounds:
  assumes "check_integer env [] (name, mn, mx) = []" and "snd (optionalInt env name d) = []"
    and "mn \<le> d" and "\<And>m. mx = Some m \<Longrightarrow> d \<le> m"
  shows "mn \<le> fst (optionalInt env name d) \<and> (\<forall>m. mx = Some m \<longrightarrow> fst (optionalInt env name d) \<le> m)"
proof (cases "isBlank (env name)")
  case True
  have "fst (optionalInt env name d) = d"
  proof (cases "env name")
    case (Some v)
    with True have "js_trim v = []" by (simp add: isBlank_def)
    then have "dropWhile is_space v = []" by (rule trim_empty)
    then have "parse_int v = None" by (simp only: parse_int_def Let_def) simp
    with Some show ?thesis by (simp add: optionalInt_def)
  qed (simp add: optionalInt_def)
  with assms(3,4) show ?thesis by simp
next
  case False
  then obtain v where v: "env name = Some v" "js_trim v \<noteq> []"
    by (auto simp: isBlank_def split: option.splits)
  from False assms(1) v have ok: "is_integer_text (js_trim v)" "mn \<le> integer_value (js_trim v)"
    "\<And>m. mx = Some m \<Longrightarrow> integer_value (js_trim v) \<le> m"
    by (auto simp: check_integer_def has_failed_def env_text_def Let_def split: if_splits option.splits)
  from v have "v \<noteq> []" by (auto simp: js_trim_def)
  with v ok show ?thesis by (simp add: optionalInt_def parse_int_integer_text)
qed

lemma requireString_problem:
  "snd (requireString env k) = (if isBlank (env k) then [ConfigProblem k Missing] else [])"
  by (auto simp: requireString_def isBlank_def js_trim_def split: option.splits)

lemma optionalInt_problem:
  "snd (optionalInt env k d) = [] \<or> snd (optionalInt env k d) = [ConfigProblem k NotInteger]"
  by (auto simp: optionalInt_def split: option.splits)

lemma no_missing_int: "filter (\<lambda>p. cp_kind p = Missing) (snd (optionalInt env k d)) = []"
  using optionalInt_problem [of env k d] by auto

lemma missing_required: "filter (\<lambda>p. cp_kind p = Missing) (snd (requireString env k)) = snd (requireString env k)"
  by (simp add: requireString_problem)

lemma missing_problems:
  "filter (\<lambda>p. cp_kind p = Missing) (collectConfigProblems env) =
     concat (map (\<lambda>k. snd (requireString env k)) REQUIRED_STRING_VARS)"
  unfolding collectConfigProblems_def readConfig_def Let_def snd_conv REQUIRED_STRING_VARS_def
  by (simp only: concat.simps list.map filter_append no_missing_int missing_required append_Nil append_Nil2)

lemma int_vars_ok:
  assumes "collectConfigProblems env = []"
  shows "snd (optionalInt env ''BACKEND_PORT'' 8080) = []"
    and "snd (optionalInt env ''BACKEND_SMTP_PORT'' 1025) = []"
    and "snd (optionalInt env ''BACKEND_AGENT_PORT'' 8081) = []"
    and "snd (optionalInt env ''BACKEND_AGENT_SNAPSHOT_MAX_BYTES'' 1048576) = []"
    and "snd (optionalInt env ''BACKEND_DEFAULT_IP_CLIENT_LIMIT'' 5) = []"
  using assms unfolding collectConfigProblems_def readConfig_def Let_def snd_conv concat.simps append_is_Nil_conv
  by (simp_all only: simp_thms)

section \<open>Properties\<close>

text \<open>What \<open>validate-config\<close> accepts, the application starts with: \<open>loadConfig\<close> does not throw, every required
  text is there, and the ports, the snapshot limit and the device limit it reads lie within the bounds that were checked
  (\<open>parseInt\<close> of the reader and \<open>Number\<close> of the checker agree on every accepted text).\<close>
theorem accepted_config_loads:
  assumes "config_accepted (checkConfig url_protocol env)"
  shows "\<exists>c. loadConfig env = Inr c
    \<and> 1 \<le> cfg_port c \<and> cfg_port c \<le> 65535 \<and> 1 \<le> cfg_smtpPort c \<and> cfg_smtpPort c \<le> 65535
    \<and> 1 \<le> cfg_agentPort c \<and> cfg_agentPort c \<le> 65535
    \<and> 0 \<le> cfg_agentSnapshotMaxBytes c \<and> 0 \<le> cfg_defaultIpClientLimit c
    \<and> (\<forall>k \<in> set REQUIRED_STRING_VARS. \<not> isBlank (env k))"
proof -
  let ?c = "fst (readConfig env)"
  note ok = accepted_passes [OF assms]
  have load: "loadConfig env = Inr ?c"
    using ok(1) by (simp add: loadConfig_def collectConfigProblems_def case_prod_beta)
  have req: "\<forall>k \<in> set REQUIRED_STRING_VARS. \<not> isBlank (env k)"
    using missing_problems [of env] ok(1) by (auto simp: requireString_problem split: if_splits)
  have in_table: "(''BACKEND_PORT'', 1, Some 65535) \<in> set INTEGERS" "(''BACKEND_SMTP_PORT'', 1, Some 65535) \<in> set INTEGERS"
    "(''BACKEND_AGENT_PORT'', 1, Some 65535) \<in> set INTEGERS" "(''BACKEND_AGENT_SNAPSHOT_MAX_BYTES'', 0, None) \<in> set INTEGERS"
    "(''BACKEND_DEFAULT_IP_CLIENT_LIMIT'', 0, None) \<in> set INTEGERS"
    unfolding INTEGERS_def by (simp_all only: list.set insert_iff simp_thms)
  note bounds = check_integer_bounds [OF ok(2) [rule_format]]
  have fields: "cfg_port ?c = fst (optionalInt env ''BACKEND_PORT'' 8080)"
    "cfg_smtpPort ?c = fst (optionalInt env ''BACKEND_SMTP_PORT'' 1025)"
    "cfg_agentPort ?c = fst (optionalInt env ''BACKEND_AGENT_PORT'' 8081)"
    "cfg_agentSnapshotMaxBytes ?c = fst (optionalInt env ''BACKEND_AGENT_SNAPSHOT_MAX_BYTES'' 1048576)"
    "cfg_defaultIpClientLimit ?c = fst (optionalInt env ''BACKEND_DEFAULT_IP_CLIENT_LIMIT'' 5)"
    unfolding readConfig_def Let_def fst_conv Config.simps by (rule refl)+
  have "1 \<le> cfg_port ?c \<and> cfg_port ?c \<le> 65535" "1 \<le> cfg_smtpPort ?c \<and> cfg_smtpPort ?c \<le> 65535"
    "1 \<le> cfg_agentPort ?c \<and> cfg_agentPort ?c \<le> 65535" "0 \<le> cfg_agentSnapshotMaxBytes ?c" "0 \<le> cfg_defaultIpClientLimit ?c"
    using bounds [OF in_table(1) int_vars_ok(1) [OF ok(1)]] bounds [OF in_table(2) int_vars_ok(2) [OF ok(1)]]
      bounds [OF in_table(3) int_vars_ok(3) [OF ok(1)]] bounds [OF in_table(4) int_vars_ok(4) [OF ok(1)]]
      bounds [OF in_table(5) int_vars_ok(5) [OF ok(1)]]
    unfolding fields by simp_all
  with load req show ?thesis by blast
qed

definition sample_env :: env where
  "sample_env = map_of
     [(''BACKEND_CLOUDEVENTS_SOURCE'', ''s''), (''BACKEND_CLOUDEVENTS_TYPE_PREFIX'', ''t''),
      (''BACKEND_DATABASE_URL'', ''postgres://d''), (''BACKEND_REDIS_URL'', ''redis://r''),
      (''BACKEND_LOGTO_ENDPOINT'', ''http://l''), (''BACKEND_PORT'', '' 80 ''),
      (''BACKEND_CREDENTIAL_ENCRYPTION_KEY'', ''AAAAAAAAAAAAAAAAAAAAAAAAAAAAAAAAAAAAAAAAAAA='')]"

definition sample_protocol :: "string \<Rightarrow> string option" where
  "sample_protocol v = Some (takeWhile (\<lambda>c. c \<noteq> CHR '':'') v @ '':'')"

text \<open>A minimal environment; its log level is unset or blank, its agent port unset or that of the HTTP server.\<close>

definition sample_variant :: "string option \<Rightarrow> string option \<Rightarrow> env" where
  "sample_variant level port = sample_env(''BACKEND_APP_LOG_LEVEL'' := level, ''BACKEND_AGENT_PORT'' := port)"

lemma sample_variant_accepted:
  assumes "isBlank level" and "port = None \<or> port = Some ''80''"
  shows "config_accepted (checkConfig sample_protocol (sample_variant level port))"
proof -
  let ?env = "sample_variant level port"
  have "collectConfigProblems ?env = []"
    using assms(2) by (auto simp add: collectConfigProblems_def readConfig_def Let_def requireString_def optionalInt_def sample_variant_def sample_env_def
       js_trim_def is_space_def parse_int_def is_digit_def)
  then have "problem_errors ?env = []" by (simp add: problem_errors_def)
  moreover have "foldl (check_integer ?env) [] INTEGERS = []"
    using assms(2) by (auto simp add: INTEGERS_def check_integer_def sample_variant_def sample_env_def isBlank_def has_failed_def env_text_def js_trim_def is_space_def
       is_integer_text_def is_digit_def integer_value_def digits_value_def)
  moreover have "foldl (check_url sample_protocol ?env) [] URLS = []"
    by (simp add: URLS_def check_url_def sample_variant_def sample_env_def isBlank_def has_failed_def env_text_def js_trim_def is_space_def
       urlProblem_def sample_protocol_def)
  moreover have "check_key ?env [] = []"
    by (simp add: check_key_def sample_variant_def sample_env_def isBlank_def has_failed_def env_text_def js_trim_def is_space_def
      isValidKey_def is_base64_char_def Let_def)
  moreover have "check_one_of ?env ''BACKEND_SMTP_SECURE'' a r [] = []" 
    "check_one_of ?env ''BACKEND_APP_LOG_LEVEL'' a r [] = []" for a r
    using assms(1) by (simp_all add: check_one_of_def sample_variant_def sample_env_def isBlank_def)
  ultimately have "config_errors sample_protocol ?env = []" by (simp only: config_errors_def)
  moreover have "config_accepted (config_warnings ?env)"
    by (auto simp: config_accepted_def config_warnings_def)
  ultimately show ?thesis
    by (simp add: checkConfig_split)
qed

lemma sample_env_accepted: "config_accepted (checkConfig sample_protocol sample_env)"
proof -
  have "sample_variant None None = sample_env" by (auto simp: sample_variant_def sample_env_def fun_eq_iff)
  with sample_variant_accepted [of None None] show ?thesis by (simp add: isBlank_def)
qed

lemma accepted_config_loads_witness:
  "config_accepted (checkConfig sample_protocol sample_env)
   \<and> (\<exists>c. loadConfig sample_env = Inr c \<and> cfg_port c \<le> 65535)"
  using accepted_config_loads [OF sample_env_accepted] sample_env_accepted by blast

text \<open>A start with a broken environment reports everything that is missing at once: the problems
  \<open>loadConfig\<close> throws name exactly the required variables that are absent or blank, each once.\<close>
theorem all_missing_reported:
  "map cp_name (filter (\<lambda>p. cp_kind p = Missing) (collectConfigProblems env)) =
     filter (\<lambda>k. isBlank (env k)) REQUIRED_STRING_VARS"
proof -
  have "map cp_name (concat (map (\<lambda>k. if isBlank (env k) then [ConfigProblem k Missing] else []) ks)) =
      filter (\<lambda>k. isBlank (env k)) ks" for ks
    by (induction ks) simp_all
  then show ?thesis by (simp only: missing_problems requireString_problem)
qed

section \<open>Printing and reading back\<close>

lemma digits_value_snoc: "digits_value (ds @ [c]) = 10 * digits_value ds + (int (of_char c) - 48)"
  by (simp add: digits_value_def)

lemma digit_char_facts: "n < 10 \<Longrightarrow> is_digit (digit_char n)" "n < 10 \<Longrightarrow> int (of_char (digit_char n)) = int n + 48"
  by (simp_all add: is_digit_def)

lemma nat_to_string_digits: "list_all is_digit (nat_to_string n) \<and> nat_to_string n \<noteq> [] \<and> digits_value (nat_to_string n) = int n"
proof (induction n rule: nat_to_string.induct)
  case (1 n)
  show ?case
  proof (cases "n < 10")
    case True
    then show ?thesis using digit_char_facts [OF True] by (simp add: nat_to_string.simps [of n] digits_value_def del: digit_char.simps)
  next
    case False
    have m: "n mod 10 < 10" by simp
    have "int n = 10 * int (n div 10) + int (n mod 10)" by presburger
    with 1 False digit_char_facts [OF m] show ?thesis
      by (simp add: nat_to_string.simps [of n] digits_value_snoc del: digit_char.simps)
  qed
qed

end
