(* ===== verification/EventStore.thy ===== *)
theory EventStore
  imports Events Config
begin

text \<open>
  The event store: \<open>ports/event-store.ts\<close>, its Postgres implementation
  (\<open>adapters/event-store-postgres\<close>), the CloudEvents envelope (\<open>domain/cloud-events.ts\<close>) and
  aggregate replay (\<open>domain/replay.ts\<close>).

  The \<open>events\<close> table is the list of its rows in insertion order. Its two constraints, the primary
  key \<open>id\<close> and \<open>UNIQUE (aggregate_type, aggregate_id, sequence_number)\<close> of migration 2, are the
  only thing an insert checks; a violation of either is error 23505 and becomes a
  \<open>ConcurrencyError\<close>. \<open>SELECT DISTINCT\<close> gives ids in order of first occurrence (SQL promises no
  order; the properties about lists of ids do not depend on it).

  The locale \<open>event_log\<close> is the interface the aggregates rely on (what a read returns after an
  append, when an append is refused); it is interpreted on the rows below, and the guarantee of
  optimistic concurrency is proved once inside it.
\<close>

section \<open>Rows and inputs\<close>

record stored_event =
  ev_id :: id
  ev_aggregateType :: aggregate_type
  ev_aggregateId :: id
  ev_sequenceNumber :: nat
  ev_accountId :: id
  ev_type :: string
  ev_source :: string
  ev_time :: timestamp
  ev_data :: domain_event

record append_input =
  in_id :: id
  in_aggregateType :: aggregate_type
  in_aggregateId :: id
  in_accountId :: id
  in_expectedSequenceNumber :: nat
  in_type :: string
  in_source :: string
  in_time :: timestamp
  in_data :: domain_event

type_synonym event_store = "stored_event list"

record stream_key =
  key_accountId :: id
  key_aggregateType :: aggregate_type
  key_aggregateId :: id

definition stream :: "id \<Rightarrow> aggregate_type \<Rightarrow> id \<Rightarrow> stream_key" where
  "stream acc t i = \<lparr>key_accountId = acc, key_aggregateType = t, key_aggregateId = i\<rparr>"

lemma stream_simps [simp]:
  "key_accountId (stream acc t i) = acc" "key_aggregateType (stream acc t i) = t"
  "key_aggregateId (stream acc t i) = i"
  by (simp_all add: stream_def)

lemma stream_eq_iff [simp]: "stream a t i = stream b u j \<longleftrightarrow> a = b \<and> t = u \<and> i = j"
  by (auto simp: stream_def)

section \<open>The Postgres event store\<close>

definition row_of :: "append_input \<Rightarrow> stored_event" where
  "row_of input = \<lparr>ev_id = in_id input, ev_aggregateType = in_aggregateType input,
     ev_aggregateId = in_aggregateId input, ev_sequenceNumber = in_expectedSequenceNumber input,
     ev_accountId = in_accountId input, ev_type = in_type input, ev_source = in_source input,
     ev_time = in_time input, ev_data = in_data input\<rparr>"

definition same_slot :: "append_input \<Rightarrow> stored_event \<Rightarrow> bool" where
  "same_slot input row = (ev_aggregateType row = in_aggregateType input
     \<and> ev_aggregateId row = in_aggregateId input
     \<and> ev_sequenceNumber row = in_expectedSequenceNumber input)"

definition unique_violation :: "event_store \<Rightarrow> append_input \<Rightarrow> bool" where
  "unique_violation rows input = list_ex (\<lambda>row. ev_id row = in_id input \<or> same_slot input row) rows"

definition es_append :: "event_store \<Rightarrow> append_input \<Rightarrow> exn + (stored_event \<times> event_store)" where
  "es_append rows input =
     (if unique_violation rows input
      then Inl (ConcurrencyError (aggregate_type_name (in_aggregateType input)) (in_aggregateId input)
                  (in_expectedSequenceNumber input))
      else Inr (row_of input, rows @ [row_of input]))"

definition in_stream :: "stream_key \<Rightarrow> stored_event \<Rightarrow> bool" where
  "in_stream k row = (ev_accountId row = key_accountId k
     \<and> ev_aggregateType row = key_aggregateType k \<and> ev_aggregateId row = key_aggregateId k)"

definition readStream :: "event_store \<Rightarrow> stream_key \<Rightarrow> stored_event list" where
  "readStream rows k = sort_key ev_sequenceNumber (filter (in_stream k) rows)"

definition listAggregateIds :: "event_store \<Rightarrow> id \<Rightarrow> aggregate_type \<Rightarrow> id list" where
  "listAggregateIds rows accountId aggregateType =
     uniq (map ev_aggregateId
       (filter (\<lambda>row. ev_accountId row = accountId \<and> ev_aggregateType row = aggregateType) rows))"

definition resolveAccountId :: "event_store \<Rightarrow> aggregate_type \<Rightarrow> id \<Rightarrow> id option" where
  "resolveAccountId rows aggregateType aggregateId =
     map_option ev_accountId
       (find (\<lambda>row. ev_aggregateType row = aggregateType \<and> ev_aggregateId row = aggregateId) rows)"

definition deleteAccount :: "event_store \<Rightarrow> id \<Rightarrow> event_store" where
  "deleteAccount rows accountId = filter (\<lambda>row. ev_accountId row \<noteq> accountId) rows"

section \<open>Building and appending domain events\<close>

text \<open>A fresh ULID and the clock, read where the code calls \<open>ulid()\<close> and \<open>new Date()\<close>.\<close>

record tick =
  tk_id :: id
  tk_now :: timestamp

record built_event =
  bl_id :: id
  bl_type :: string
  bl_source :: string
  bl_time :: timestamp
  bl_data :: domain_event

definition buildDomainEvent :: "Config \<Rightarrow> tick \<Rightarrow> aggregate_type \<Rightarrow> domain_event \<Rightarrow> built_event" where
  "buildDomainEvent config tk aggregateType d =
     \<lparr>bl_id = tk_id tk,
      bl_type = cfg_cloudEventsTypePrefix config @ ''.'' @ aggregate_type_name aggregateType @ ''.'' @ event_name d,
      bl_source = cfg_cloudEventsSource config,
      bl_time = tk_now tk,
      bl_data = d\<rparr>"

text \<open>
  The pair \<open>buildDomainEvent\<close>, \<open>eventStore.append\<close> that ends every write of the backend, with the
  account, the aggregate and the expected sequence number of the call.
\<close>

definition append_event ::
  "Config \<Rightarrow> tick \<Rightarrow> event_store \<Rightarrow> stream_key \<Rightarrow> nat \<Rightarrow> domain_event \<Rightarrow> exn + (stored_event \<times> event_store)" where
  "append_event config tk rows k expected d =
     (let built = buildDomainEvent config tk (key_aggregateType k) d in
      es_append rows \<lparr>in_id = bl_id built, in_aggregateType = key_aggregateType k,
        in_aggregateId = key_aggregateId k, in_accountId = key_accountId k,
        in_expectedSequenceNumber = expected, in_type = bl_type built, in_source = bl_source built,
        in_time = bl_time built, in_data = bl_data built\<rparr>)"

section \<open>Replay\<close>

text \<open>\<open>loadAggregate\<close>: the folded state, the events and the version (their number).\<close>

definition loadAggregate ::
  "event_store \<Rightarrow> stream_key \<Rightarrow> 'st \<Rightarrow> ('st \<Rightarrow> stored_event \<Rightarrow> 'st) \<Rightarrow> 'st \<times> stored_event list \<times> nat" where
  "loadAggregate rows k initialState reducer =
     (let events = readStream rows k in (foldl reducer initialState events, events, length events))"

section \<open>Well-formed tables\<close>

definition aggregate_rows :: "event_store \<Rightarrow> aggregate_type \<Rightarrow> id \<Rightarrow> stored_event list" where
  "aggregate_rows rows t i = filter (\<lambda>row. ev_aggregateType row = t \<and> ev_aggregateId row = i) rows"

text \<open>
  The rows of one aggregate belong to one account and are numbered 1, 2, 3, ... in insertion order.
\<close>

definition wf_store :: "event_store \<Rightarrow> bool" where
  "wf_store rows = (\<forall>t i. let rs = aggregate_rows rows t i in
     map ev_sequenceNumber rs = [1..<Suc (length rs)]
     \<and> (\<forall>r \<in> set rs. \<forall>r' \<in> set rs. ev_accountId r = ev_accountId r'))"

lemma wf_store_numbers:
  "wf_store rows \<Longrightarrow> map ev_sequenceNumber (aggregate_rows rows t i) = [1..<Suc (length (aggregate_rows rows t i))]"
  unfolding wf_store_def Let_def by blast

lemma wf_store_account:
  "wf_store rows \<Longrightarrow> r \<in> set (aggregate_rows rows t i) \<Longrightarrow> r' \<in> set (aggregate_rows rows t i) \<Longrightarrow>
   ev_accountId r = ev_accountId r'"
  unfolding wf_store_def Let_def by blast

lemma wf_store_Nil [wf_intros]: "wf_store []"
  by (simp add: wf_store_def aggregate_rows_def)

lemma filter_in_stream:
  "filter (in_stream k) rows =
     filter (\<lambda>r. ev_accountId r = key_accountId k) (aggregate_rows rows (key_aggregateType k) (key_aggregateId k))"
  unfolding aggregate_rows_def filter_filter by (rule filter_cong) (auto simp: in_stream_def)

text \<open>Under the invariant a stream is all the rows of its aggregate, or nothing (a foreign one).\<close>

lemma filter_in_stream_cases:
  assumes "wf_store rows"
  obtains "filter (in_stream k) rows = aggregate_rows rows (key_aggregateType k) (key_aggregateId k)"
  | "filter (in_stream k) rows = []"
proof (cases "filter (in_stream k) rows = []")
  case False
  let ?rs = "aggregate_rows rows (key_aggregateType k) (key_aggregateId k)"
  from False obtain r where "r \<in> set ?rs" "ev_accountId r = key_accountId k"
    unfolding filter_in_stream by (auto simp: filter_empty_conv)
  then have "\<forall>r' \<in> set ?rs. ev_accountId r' = key_accountId k"
    using wf_store_account [OF assms] by metis
  then have "filter (in_stream k) rows = ?rs"
    unfolding filter_in_stream by simp
  then show ?thesis by (rule that(1))
qed

lemma readStream_wf:
  assumes "wf_store rows"
  shows "readStream rows k = filter (in_stream k) rows"
    and "map ev_sequenceNumber (readStream rows k) = [1..<Suc (length (readStream rows k))]"
proof -
  have numbers: "map ev_sequenceNumber (filter (in_stream k) rows) = [1..<Suc (length (filter (in_stream k) rows))]"
    using filter_in_stream_cases [OF assms] wf_store_numbers [OF assms] by (metis length_map list.map(1) upt_rec less_irrefl One_nat_def list.size(3))
  then have "sorted (map ev_sequenceNumber (filter (in_stream k) rows))" by (simp only: sorted_upt)
  then show eq: "readStream rows k = filter (in_stream k) rows"
    unfolding readStream_def by (rule sort_key_sorted_id)
  from numbers show "map ev_sequenceNumber (readStream rows k) = [1..<Suc (length (readStream rows k))]"
    by (simp only: eq)
qed

section \<open>What an append does\<close>

lemma es_append_Inr:
  "es_append rows input = Inr (e, rows') \<longleftrightarrow>
     \<not> unique_violation rows input \<and> e = row_of input \<and> rows' = rows @ [row_of input]"
  by (auto simp: es_append_def)

lemma append_event_Inr:
  assumes "append_event cfg tk rows k n d = Inr (e, rows')"
  shows "rows' = rows @ [e]" and "in_stream k e" and "ev_sequenceNumber e = n" and "ev_data e = d"
    and "ev_id e = tk_id tk" and "ev_time e = tk_now tk"
    and "ev_id e \<notin> ev_id ` set rows"
    and "n \<notin> ev_sequenceNumber ` set (aggregate_rows rows (key_aggregateType k) (key_aggregateId k))"
  using assms
  by (auto simp: append_event_def buildDomainEvent_def Let_def es_append_Inr row_of_def in_stream_def
      unique_violation_def same_slot_def list_ex_iff aggregate_rows_def)

lemma append_event_Inl:
  assumes "append_event cfg tk rows k n d = Inl x"
  shows "x = ConcurrencyError (aggregate_type_name (key_aggregateType k)) (key_aggregateId k) n"
  using assms by (auto simp: append_event_def Let_def es_append_def split: if_splits)

lemma append_event_cases:
  obtains (conflict) "append_event cfg tk rows k n d =
      Inl (ConcurrencyError (aggregate_type_name (key_aggregateType k)) (key_aggregateId k) n)"
  | (appended) e where "append_event cfg tk rows k n d = Inr (e, rows @ [e])"
  by (cases "append_event cfg tk rows k n d") (metis append_event_Inl, metis append_event_Inr(1) prod.collapse)

lemma append_event_taken:
  assumes "wf_store rows" and "1 \<le> n" and "n \<le> length (readStream rows k)"
  shows "\<exists>x. append_event cfg tk rows k n d = Inl x"
proof (cases rule: append_event_cases [of cfg tk rows k n d])
  case (appended e)
  let ?rs = "aggregate_rows rows (key_aggregateType k) (key_aggregateId k)"
  from assms(1) have "filter (in_stream k) rows = ?rs \<or> filter (in_stream k) rows = []"
    using filter_in_stream_cases by blast
  with assms have "n \<le> length ?rs" by (auto simp: readStream_wf(1))
  with assms(2) have "n \<in> set (map ev_sequenceNumber ?rs)"
    by (simp only: wf_store_numbers [OF assms(1)] set_upt) simp
  then show ?thesis using append_event_Inr(8) [OF appended] by simp
qed simp

text \<open>An append at the next number of the stream it read.\<close>

lemma append_event_next:
  assumes wf: "wf_store rows" and n: "n = Suc (length (readStream rows k))"
    and ok: "append_event cfg tk rows k n d = Inr (e, rows')"
  shows "wf_store rows'" and "readStream rows' k = readStream rows k @ [e]"
    and "k' \<noteq> k \<Longrightarrow> readStream rows' k' = readStream rows k'"
proof -
  let ?t = "key_aggregateType k" and ?i = "key_aggregateId k"
  let ?rs = "aggregate_rows rows ?t ?i"
  note new = append_event_Inr [OF ok]
  from new(2) have e_fields: "ev_aggregateType e = ?t" "ev_aggregateId e = ?i" "ev_accountId e = key_accountId k"
    by (simp_all add: in_stream_def)
  have own: "filter (in_stream k) rows = ?rs"
  proof (cases rule: filter_in_stream_cases [OF wf, of k])
    case 2
    then have "n = 1" using n by (simp add: readStream_wf(1) [OF wf])
    with new(8) have "1 \<notin> set (map ev_sequenceNumber ?rs)" by simp
    then have "length ?rs = 0" by (simp only: wf_store_numbers [OF wf] set_upt) simp
    with 2 show ?thesis by simp
  qed
  then have len: "n = Suc (length ?rs)" using n by (simp add: readStream_wf(1) [OF wf])
  have all_own: "\<forall>r \<in> set ?rs. ev_accountId r = key_accountId k"
    using own by (auto simp: filter_in_stream filter_id_conv)
  have rows_t: "aggregate_rows rows' t i = aggregate_rows rows t i @ (if t = ?t \<and> i = ?i then [e] else [])" for t i
    using new(1) e_fields by (auto simp: aggregate_rows_def)
  have numbers: "map ev_sequenceNumber (?rs @ [e]) = [1..<Suc (length (?rs @ [e]))]"
    using wf_store_numbers [OF wf, of ?t ?i] len new(3) by (simp add: upt_Suc_append)
  show wf': "wf_store rows'"
    unfolding wf_store_def Let_def
  proof (intro allI)
    fix t i
    show "map ev_sequenceNumber (aggregate_rows rows' t i) = [1..<Suc (length (aggregate_rows rows' t i))]
      \<and> (\<forall>r \<in> set (aggregate_rows rows' t i). \<forall>r' \<in> set (aggregate_rows rows' t i). ev_accountId r = ev_accountId r')"
    proof (cases "t = ?t \<and> i = ?i")
      case True
      then have eq: "aggregate_rows rows' t i = ?rs @ [e]" by (simp add: rows_t)
      have "\<forall>r \<in> set (?rs @ [e]). ev_accountId r = key_accountId k" using all_own e_fields(3) by auto
      with numbers show ?thesis unfolding eq by metis
    next
      case False
      then have eq: "aggregate_rows rows' t i = aggregate_rows rows t i" by (simp add: rows_t)
      show ?thesis unfolding eq using wf_store_numbers [OF wf] wf_store_account [OF wf] by blast
    qed
  qed
  show "readStream rows' k = readStream rows k @ [e]"
    unfolding readStream_wf(1) [OF wf] readStream_wf(1) [OF wf'] using new(1,2) by simp
  show "readStream rows' k' = readStream rows k'" if "k' \<noteq> k"
  proof -
    from that new(2) have "\<not> in_stream k' e" by (cases k; cases k') (auto simp: in_stream_def)
    then show ?thesis
      unfolding readStream_wf(1) [OF wf] readStream_wf(1) [OF wf'] using new(1) by simp
  qed
qed

lemma readStream_other: "\<not> in_stream k e \<Longrightarrow> readStream (rows @ [e]) k = readStream rows k"
  by (simp add: readStream_def)

text \<open>An append nobody interferes with fails only on a clash of event ids.\<close>

lemma append_alone:
  assumes wf: "wf_store rows" and fresh: "tk_id tk \<notin> ev_id ` set rows"
    and mine: "\<forall>r \<in> set (aggregate_rows rows t i). ev_accountId r = acc"
  obtains e where "append_event cfg tk rows (stream acc t i) (Suc (length (readStream rows (stream acc t i)))) d = Inr (e, rows @ [e])"
proof -
  let ?k = "stream acc t i"
  have own: "readStream rows ?k = aggregate_rows rows t i"
    unfolding readStream_wf(1) [OF wf] filter_in_stream using mine by simp
  have "\<forall>r \<in> set (aggregate_rows rows t i). ev_sequenceNumber r \<noteq> Suc (length (readStream rows ?k))"
  proof
    fix r
    assume "r \<in> set (aggregate_rows rows t i)"
    then have "ev_sequenceNumber r \<in> set [1..<Suc (length (aggregate_rows rows t i))]"
      unfolding wf_store_numbers [OF wf, symmetric] by simp
    then show "ev_sequenceNumber r \<noteq> Suc (length (readStream rows ?k))"
      unfolding own set_upt by simp
  qed
  then have "\<not> unique_violation rows \<lparr>in_id = tk_id tk, in_aggregateType = t,
        in_aggregateId = i, in_accountId = acc, in_expectedSequenceNumber = Suc (length (readStream rows ?k)),
        in_type = x, in_source = y, in_time = z, in_data = w\<rparr>" for x y z w
    using fresh unfolding unique_violation_def list_ex_iff same_slot_def aggregate_rows_def
    by (auto simp: image_iff)
  then have "\<exists>e. append_event cfg tk rows ?k (Suc (length (readStream rows ?k))) d = Inr (e, rows @ [e])"
    by (simp add: append_event_def Let_def buildDomainEvent_def es_append_def)
  with that show ?thesis by blast
qed

lemma deleteAccount_wf [wf_intros]:
  assumes "wf_store rows"
  shows "wf_store (deleteAccount rows acc)"
proof -
  have "aggregate_rows (deleteAccount rows acc) t i = aggregate_rows rows t i
      \<or> aggregate_rows (deleteAccount rows acc) t i = []" for t i
  proof (cases "\<exists>r \<in> set (aggregate_rows rows t i). ev_accountId r = acc")
    case True
    then have "\<forall>r \<in> set (aggregate_rows rows t i). ev_accountId r = acc"
      using wf_store_account [OF assms] by metis
    then show ?thesis by (auto simp: aggregate_rows_def deleteAccount_def filter_empty_conv)
  next
    case False
    then have "aggregate_rows (deleteAccount rows acc) t i = aggregate_rows rows t i"
      unfolding aggregate_rows_def deleteAccount_def filter_filter
      by (intro filter_cong) auto
    then show ?thesis by simp
  qed
  then show ?thesis
    using wf_store_numbers [OF assms] wf_store_account [OF assms]
    unfolding wf_store_def Let_def
    by (metis One_nat_def empty_iff length_map less_irrefl list.set(1) list.simps(8) list.size(3) upt_rec)
qed

lemma readStream_deleteAccount:
  "readStream (deleteAccount rows acc) k = (if key_accountId k = acc then [] else readStream rows k)"
proof -
  have "filter (in_stream k) (deleteAccount rows acc) =
      (if key_accountId k = acc then [] else filter (in_stream k) rows)"
    by (auto simp: deleteAccount_def filter_empty_conv in_stream_def intro!: filter_cong)
  then show ?thesis by (simp add: readStream_def)
qed

lemma set_listAggregateIds:
  "set (listAggregateIds rows acc t) = {i. readStream rows (stream acc t i) \<noteq> []}"
proof -
  have "readStream rows (stream acc t i) \<noteq> [] \<longleftrightarrow>
      (\<exists>r \<in> set rows. ev_accountId r = acc \<and> ev_aggregateType r = t \<and> ev_aggregateId r = i)" for i
  proof -
    have "readStream rows (stream acc t i) \<noteq> [] \<longleftrightarrow> set (readStream rows (stream acc t i)) \<noteq> {}" by simp
    also have "\<dots> \<longleftrightarrow> (\<exists>r \<in> set rows. in_stream (stream acc t i) r)"
      by (auto simp: readStream_def)
    finally show ?thesis by (simp add: in_stream_def)
  qed
  then show ?thesis by (auto simp: listAggregateIds_def)
qed

lemma distinct_listAggregateIds [simp]: "distinct (listAggregateIds rows acc t)"
  by (simp add: listAggregateIds_def)

section \<open>The interface of an event log\<close>

text \<open>Stores that a sequence of appends can lead to; a writer's expected number comes from an earlier read.\<close>

inductive grows ::
  "('s \<Rightarrow> 'k \<Rightarrow> 'e list) \<Rightarrow> ('s \<Rightarrow> 'k \<Rightarrow> nat \<Rightarrow> 'i \<Rightarrow> exn + ('e \<times> 's)) \<Rightarrow> 's \<Rightarrow> 's \<Rightarrow> bool"
  for rd ap where
  grows_refl: "grows rd ap s s"
| grows_step: "grows rd ap s t \<Longrightarrow> 1 \<le> n \<Longrightarrow> n \<le> Suc (length (rd t k)) \<Longrightarrow> ap t k n x = Inr (e, u) \<Longrightarrow>
    grows rd ap s u"

locale event_log =
  fixes rd :: "'s \<Rightarrow> 'k \<Rightarrow> 'e list"
    and ap :: "'s \<Rightarrow> 'k \<Rightarrow> nat \<Rightarrow> 'i \<Rightarrow> exn + ('e \<times> 's)"
    and inv :: "'s \<Rightarrow> bool"
  assumes append_inv: "inv s \<Longrightarrow> n = Suc (length (rd s k)) \<Longrightarrow> ap s k n x = Inr (e, s') \<Longrightarrow> inv s'"
    and append_read: "inv s \<Longrightarrow> n = Suc (length (rd s k)) \<Longrightarrow> ap s k n x = Inr (e, s') \<Longrightarrow> rd s' k = rd s k @ [e]"
    and append_frame: "inv s \<Longrightarrow> n = Suc (length (rd s k)) \<Longrightarrow> ap s k n x = Inr (e, s') \<Longrightarrow> k' \<noteq> k \<Longrightarrow> rd s' k' = rd s k'"
    and append_taken: "inv s \<Longrightarrow> 1 \<le> n \<Longrightarrow> n \<le> length (rd s k) \<Longrightarrow> \<exists>err. ap s k n x = Inl err"
begin

lemma success_is_next:
  assumes "inv s" "1 \<le> n" "n \<le> Suc (length (rd s k))" "ap s k n x = Inr (e, s')"
  shows "n = Suc (length (rd s k))"
  using assms append_taken [of s n k x] by (cases "n \<le> length (rd s k)") auto

lemma grows_inv_prefix:
  "grows rd ap s t \<Longrightarrow> inv s \<Longrightarrow> inv t \<and> (\<exists>new. rd t k = rd s k @ new)"
proof (induction arbitrary: k rule: grows.induct)
  case (grows_step s t n k' x e u)
  then have t: "inv t" by blast
  with grows_step.hyps have n: "n = Suc (length (rd t k'))" by (blast intro: success_is_next)
  from append_inv [OF t n grows_step.hyps(4)] have "inv u" .
  moreover have "\<exists>new. rd u k = rd s k @ new"
    using grows_step.IH [OF grows_step.prems, of k] append_read [OF t n grows_step.hyps(4)]
      append_frame [OF t n grows_step.hyps(4), of k] by (cases "k = k'") auto
  ultimately show ?case by blast
qed simp

text \<open>
  Optimistic concurrency: an append that expects the number after the version it read succeeds only
  if nothing was appended to the stream in between.
\<close>

lemma unchanged_if_appended:
  assumes "inv s" and "grows rd ap s t" and "ap t k (Suc (length (rd s k))) x = Inr (e, u)"
  shows "rd t k = rd s k" and "rd u k = rd s k @ [e]"
proof -
  from grows_inv_prefix [OF assms(2,1)] obtain new where t: "inv t" and new: "rd t k = rd s k @ new" by blast
  have "Suc (length (rd s k)) = Suc (length (rd t k))"
    by (rule success_is_next [OF t _ _ assms(3)]) (simp_all add: new)
  with new show same: "rd t k = rd s k" by simp
  with append_read [OF t _ assms(3)] show "rd u k = rd s k @ [e]" by simp
qed

end

text \<open>One append of the backend: the tick and the event are what the writer supplies.\<close>

definition store_append ::
  "Config \<Rightarrow> event_store \<Rightarrow> stream_key \<Rightarrow> nat \<Rightarrow> tick \<times> domain_event \<Rightarrow> exn + (stored_event \<times> event_store)" where
  "store_append cfg rows k n = (\<lambda>(tk, d). append_event cfg tk rows k n d)"

lemma store_append_next:
  assumes "wf_store rows" and "n = Suc (length (readStream rows k))"
    and "store_append cfg rows k n x = Inr (e, rows')"
  shows "wf_store rows'" and "readStream rows' k = readStream rows k @ [e]"
    and "k' \<noteq> k \<Longrightarrow> readStream rows' k' = readStream rows k'"
  using assms append_event_next [OF assms(1,2), of cfg "fst x" "snd x" e rows']
  by (simp_all add: store_append_def case_prod_beta)

lemma store_append_taken:
  "wf_store rows \<Longrightarrow> 1 \<le> n \<Longrightarrow> n \<le> length (readStream rows k) \<Longrightarrow> \<exists>err. store_append cfg rows k n x = Inl err"
  by (simp add: store_append_def case_prod_beta append_event_taken)

interpretation es: event_log readStream "store_append cfg" wf_store for cfg
proof unfold_locales
qed (erule (2) store_append_next, erule (2) store_append_next, erule (3) store_append_next,
    erule (2) store_append_taken)

section \<open>Sample rows\<close>

text \<open>A row given by its key and payload, for the concrete instances of the properties.\<close>

definition sample_row :: "id \<Rightarrow> id \<Rightarrow> id \<Rightarrow> nat \<Rightarrow> domain_event \<Rightarrow> stored_event" where
  "sample_row evId acc i n d = \<lparr>ev_id = evId, ev_aggregateType = event_aggregate d, ev_aggregateId = i,
     ev_sequenceNumber = n, ev_accountId = acc, ev_type = [], ev_source = [], ev_time = 0, ev_data = d\<rparr>"

lemma sample_row_simps [simp]:
  "ev_id (sample_row evId acc i n d) = evId" "ev_aggregateType (sample_row evId acc i n d) = event_aggregate d"
  "ev_aggregateId (sample_row evId acc i n d) = i" "ev_sequenceNumber (sample_row evId acc i n d) = n"
  "ev_accountId (sample_row evId acc i n d) = acc" "ev_data (sample_row evId acc i n d) = d"
  by (simp_all add: sample_row_def)

definition sample_attach :: "id \<Rightarrow> id \<Rightarrow> id \<Rightarrow> id \<Rightarrow> string \<Rightarrow> domain_event" where
  "sample_attach acc a d p g = ActionEv (ActionAttached \<lparr>att_actionId = a, att_accountId = acc, att_ipClientId = d,
     att_type = TRAEFIK_CONFIG_DELIVERY_ACTION_TYPE, att_addressFamilies = [],
     att_config = empty_config\<lparr>cf_traefikProviderId := Some p, cf_group := Some g\<rparr>, att_attachedAt = 0\<rparr>)"

definition sample_change :: "string \<Rightarrow> domain_event" where
  "sample_change ip = IpClientEv (IpChanged \<lparr>chg_previousIPv4 = None, chg_newIPv4 = Some ip,
     chg_previousIPv6 = None, chg_newIPv6 = None, chg_settledAt = 0\<rparr>)"

lemma sample_event_aggregate [simp]:
  "event_aggregate (sample_attach acc a d p g) = ACTION" "event_aggregate (sample_change ip) = IP_CLIENT"
  by (simp_all add: sample_attach_def sample_change_def)

end
