(* ===== verification/Aggregates.thy ===== *)
theory Aggregates
  imports EventStore
begin

text \<open>
  The states and reducers of six aggregates: account, IP client, action, action execution,
  notification channel and provider credential (\<open>domain/*/*-aggregate.ts\<close>); the Traefik provider
  has its own theory. A reducer's last equation is the \<open>default\<close> branch of its \<open>switch\<close>.

  The locale \<open>guarded_aggregate\<close> is the contract of an aggregate whose writers check a guard on the
  replayed state before they append: histories that respect the guard keep the aggregate's
  invariant. It is interpreted on the IP client, the action, the channel and the credential with
  the guards of their HTTP routes.
\<close>

section \<open>Account\<close>

datatype account_status = AccActive | AccClosed

record AccountState =
  acc_accountId :: "id option"
  acc_deviceLimit :: int
  acc_status :: account_status

definition initialAccountState :: AccountState where
  "initialAccountState = \<lparr>acc_accountId = None, acc_deviceLimit = 0, acc_status = AccActive\<rparr>"

fun account_apply :: "AccountState \<Rightarrow> domain_event \<Rightarrow> AccountState" where
  "account_apply state (AccountEv (AccountRegistered d)) =
     \<lparr>acc_accountId = Some (reg_accountId d), acc_deviceLimit = reg_deviceLimit d, acc_status = AccActive\<rparr>"
| "account_apply state (AccountEv (AccountDeviceLimitOverridden d)) = state\<lparr>acc_deviceLimit := ovr_newLimit d\<rparr>"
| "account_apply state (AccountEv (AccountClosed d)) = state\<lparr>acc_status := AccClosed\<rparr>"
| "account_apply state _ = state"

definition accountReducer :: "AccountState \<Rightarrow> stored_event \<Rightarrow> AccountState" where
  "accountReducer state event = account_apply state (ev_data event)"

section \<open>IP client\<close>

datatype ip_client_status = IcEnabled | IcDisabled | IcDecommissioned

record IpClientState =
  ic_ipClientId :: "id option"
  ic_accountId :: "id option"
  ic_label :: string
  ic_credentialHash :: "string option"
  ic_status :: ip_client_status
  ic_lastKnownIPv4 :: "string option"
  ic_lastKnownIPv6 :: "string option"
  ic_notificationPreference :: notification_preference

definition initialIpClientState :: IpClientState where
  "initialIpClientState = \<lparr>ic_ipClientId = None, ic_accountId = None, ic_label = [],
     ic_credentialHash = None, ic_status = IcEnabled, ic_lastKnownIPv4 = None,
     ic_lastKnownIPv6 = None, ic_notificationPreference = PrefOff\<rparr>"

fun ip_client_apply :: "IpClientState \<Rightarrow> domain_event \<Rightarrow> IpClientState" where
  "ip_client_apply state (IpClientEv (IpClientRegistered d)) =
     state\<lparr>ic_ipClientId := Some (icr_ipClientId d), ic_accountId := Some (icr_accountId d),
       ic_label := icr_label d, ic_credentialHash := Some (icr_credentialHash d), ic_status := IcEnabled\<rparr>"
| "ip_client_apply state (IpClientEv (IpClientCredentialRotated h t)) = state\<lparr>ic_credentialHash := Some h\<rparr>"
| "ip_client_apply state (IpClientEv (IpClientEnabled i)) = state\<lparr>ic_status := IcEnabled\<rparr>"
| "ip_client_apply state (IpClientEv (IpClientDisabled i)) = state\<lparr>ic_status := IcDisabled\<rparr>"
| "ip_client_apply state (IpClientEv (IpClientDecommissioned t)) = state\<lparr>ic_status := IcDecommissioned\<rparr>"
| "ip_client_apply state (IpClientEv (IpChanged d)) =
     state\<lparr>ic_lastKnownIPv4 := nullish (chg_newIPv4 d) (ic_lastKnownIPv4 state),
       ic_lastKnownIPv6 := nullish (chg_newIPv6 d) (ic_lastKnownIPv6 state)\<rparr>"
| "ip_client_apply state (IpClientEv (NotificationPreferenceSet p)) = state\<lparr>ic_notificationPreference := p\<rparr>"
| "ip_client_apply state _ = state"

definition ipClientReducer :: "IpClientState \<Rightarrow> stored_event \<Rightarrow> IpClientState" where
  "ipClientReducer state event = ip_client_apply state (ev_data event)"

section \<open>Action\<close>

datatype action_status = ActEnabled | ActDisabled | ActDetached

record OwnedEntries =
  own_ipv4 :: "string option"
  own_ipv6 :: "string option"

definition no_entries :: OwnedEntries where
  "no_entries = \<lparr>own_ipv4 = None, own_ipv6 = None\<rparr>"

record ActionState =
  ac_actionId :: "id option"
  ac_accountId :: "id option"
  ac_ipClientId :: "id option"
  ac_type :: "string option"
  ac_addressFamilies :: "address_family list"
  ac_config :: "ActionConfig option"
  ac_status :: action_status
  ac_firewallOwnedEntries :: OwnedEntries

definition initialActionState :: ActionState where
  "initialActionState = \<lparr>ac_actionId = None, ac_accountId = None, ac_ipClientId = None, ac_type = None,
     ac_addressFamilies = [], ac_config = None, ac_status = ActEnabled,
     ac_firewallOwnedEntries = no_entries\<rparr>"

fun action_apply :: "ActionState \<Rightarrow> domain_event \<Rightarrow> ActionState" where
  "action_apply state (ActionEv (ActionAttached d)) =
     state\<lparr>ac_actionId := Some (att_actionId d), ac_accountId := Some (att_accountId d),
       ac_ipClientId := Some (att_ipClientId d), ac_type := Some (att_type d),
       ac_addressFamilies := att_addressFamilies d, ac_config := Some (att_config d), ac_status := ActEnabled\<rparr>"
| "action_apply state (ActionEv (ActionReconfigured d)) =
     state\<lparr>ac_addressFamilies := nullish_or (rcf_addressFamilies d) (ac_addressFamilies state),
       ac_config := nullish (rcf_config d) (ac_config state)\<rparr>"
| "action_apply state (ActionEv (ActionEnabled i)) = state\<lparr>ac_status := ActEnabled\<rparr>"
| "action_apply state (ActionEv (ActionDisabled i)) = state\<lparr>ac_status := ActDisabled\<rparr>"
| "action_apply state (ActionEv (ActionDetached t)) = state\<lparr>ac_status := ActDetached\<rparr>"
| "action_apply state (ActionEv (ActionFirewallRuleApplied d)) =
     state\<lparr>ac_firewallOwnedEntries :=
       \<lparr>own_ipv4 = nullish (fra_ipv4 d) (own_ipv4 (ac_firewallOwnedEntries state)),
        own_ipv6 = nullish (fra_ipv6 d) (own_ipv6 (ac_firewallOwnedEntries state))\<rparr>\<rparr>"
| "action_apply state _ = state"

definition actionReducer :: "ActionState \<Rightarrow> stored_event \<Rightarrow> ActionState" where
  "actionReducer state event = action_apply state (ev_data event)"

section \<open>Action execution\<close>

datatype execution_status = ExRunning | ExSucceeded | ExFailed

record ActionExecutionState =
  ex_executionId :: "id option"
  ex_accountId :: "id option"
  ex_actionId :: "id option"
  ex_ipClientId :: "id option"
  ex_triggeredBy :: "triggered_by option"
  ex_causationEventId :: "id option"
  ex_ipValuesUsed :: IpValuesUsed
  ex_attempt :: nat
  ex_status :: execution_status
  ex_error :: "string option"
  ex_startedAt :: "timestamp option"
  ex_completedAt :: "timestamp option"
  ex_failedAt :: "timestamp option"

definition no_ips :: IpValuesUsed where
  "no_ips = \<lparr>ipv_ipv4 = None, ipv_ipv6 = None\<rparr>"

definition initialActionExecutionState :: ActionExecutionState where
  "initialActionExecutionState = \<lparr>ex_executionId = None, ex_accountId = None, ex_actionId = None,
     ex_ipClientId = None, ex_triggeredBy = None, ex_causationEventId = None, ex_ipValuesUsed = no_ips,
     ex_attempt = 0, ex_status = ExRunning, ex_error = None, ex_startedAt = None,
     ex_completedAt = None, ex_failedAt = None\<rparr>"

fun action_execution_apply :: "ActionExecutionState \<Rightarrow> domain_event \<Rightarrow> ActionExecutionState" where
  "action_execution_apply state (ExecutionEv (ExecutionStarted d)) =
     state\<lparr>ex_executionId := Some (sta_executionId d), ex_accountId := Some (sta_accountId d),
       ex_actionId := Some (sta_actionId d), ex_ipClientId := Some (sta_ipClientId d),
       ex_triggeredBy := Some (sta_triggeredBy d), ex_causationEventId := Some (sta_causationEventId d),
       ex_ipValuesUsed := sta_ipValuesUsed d, ex_attempt := sta_attempt d, ex_status := ExRunning,
       ex_startedAt := Some (sta_startedAt d)\<rparr>"
| "action_execution_apply state (ExecutionEv (ExecutionSucceeded d)) =
     state\<lparr>ex_status := ExSucceeded, ex_error := None, ex_completedAt := Some (suc_completedAt d)\<rparr>"
| "action_execution_apply state (ExecutionEv (ExecutionFailed d)) =
     state\<lparr>ex_status := ExFailed, ex_attempt := fai_attempt d, ex_error := Some (fai_error d),
       ex_failedAt := Some (fai_failedAt d)\<rparr>"
| "action_execution_apply state _ = state"

definition actionExecutionReducer :: "ActionExecutionState \<Rightarrow> stored_event \<Rightarrow> ActionExecutionState" where
  "actionExecutionReducer state event = action_execution_apply state (ev_data event)"

section \<open>Notification channel\<close>

datatype channel_status = ChActive | ChRevoked

record NotificationChannelState =
  nc_channelId :: "id option"
  nc_accountId :: "id option"
  nc_type :: string
  nc_addresses :: "string list"
  nc_status :: channel_status

definition initialNotificationChannelState :: NotificationChannelState where
  "initialNotificationChannelState = \<lparr>nc_channelId = None, nc_accountId = None, nc_type = [],
     nc_addresses = [], nc_status = ChActive\<rparr>"

fun notification_channel_apply :: "NotificationChannelState \<Rightarrow> domain_event \<Rightarrow> NotificationChannelState" where
  "notification_channel_apply state (ChannelEv (ChannelRegistered d)) =
     state\<lparr>nc_channelId := Some (ncr_channelId d), nc_accountId := Some (ncr_accountId d),
       nc_type := ncr_type d, nc_addresses := ncr_addresses d, nc_status := ChActive\<rparr>"
| "notification_channel_apply state (ChannelEv (ChannelReconfigured as t)) = state\<lparr>nc_addresses := as\<rparr>"
| "notification_channel_apply state (ChannelEv (ChannelRevoked t)) = state\<lparr>nc_status := ChRevoked\<rparr>"
| "notification_channel_apply state _ = state"

definition notificationChannelReducer :: "NotificationChannelState \<Rightarrow> stored_event \<Rightarrow> NotificationChannelState" where
  "notificationChannelReducer state event = notification_channel_apply state (ev_data event)"

section \<open>Provider credential\<close>

datatype credential_status = CrActive | CrRevoked

record ProviderCredentialState =
  pc_credentialId :: "id option"
  pc_accountId :: "id option"
  pc_provider :: string
  pc_label :: string
  pc_encryptedSecret :: "string option"
  pc_secretLast4 :: string
  pc_status :: credential_status

definition initialProviderCredentialState :: ProviderCredentialState where
  "initialProviderCredentialState = \<lparr>pc_credentialId = None, pc_accountId = None, pc_provider = [],
     pc_label = [], pc_encryptedSecret = None, pc_secretLast4 = [], pc_status = CrActive\<rparr>"

fun provider_credential_apply :: "ProviderCredentialState \<Rightarrow> domain_event \<Rightarrow> ProviderCredentialState" where
  "provider_credential_apply state (CredentialEv (CredentialStored d)) =
     state\<lparr>pc_credentialId := Some (pcs_credentialId d), pc_accountId := Some (pcs_accountId d),
       pc_provider := pcs_provider d, pc_label := pcs_label d,
       pc_encryptedSecret := Some (pcs_encryptedSecret d), pc_secretLast4 := pcs_secretLast4 d,
       pc_status := CrActive\<rparr>"
| "provider_credential_apply state (CredentialEv (CredentialRotated s t)) = state\<lparr>pc_encryptedSecret := Some s\<rparr>"
| "provider_credential_apply state (CredentialEv (CredentialRevoked t)) = state\<lparr>pc_status := CrRevoked\<rparr>"
| "provider_credential_apply state _ = state"

definition providerCredentialReducer :: "ProviderCredentialState \<Rightarrow> stored_event \<Rightarrow> ProviderCredentialState" where
  "providerCredentialReducer state event = provider_credential_apply state (ev_data event)"

lemmas reducer_defs = accountReducer_def ipClientReducer_def actionReducer_def actionExecutionReducer_def
  notificationChannelReducer_def providerCredentialReducer_def

declare reducer_defs [reducer_simps]

section \<open>Loading\<close>

definition loadAccount :: "event_store \<Rightarrow> id \<Rightarrow> AccountState \<times> stored_event list \<times> nat" where
  "loadAccount rows acc = loadAggregate rows (stream acc ACCOUNT acc) initialAccountState accountReducer"

definition loadIpClient :: "event_store \<Rightarrow> id \<Rightarrow> id \<Rightarrow> IpClientState \<times> stored_event list \<times> nat" where
  "loadIpClient rows acc i = loadAggregate rows (stream acc IP_CLIENT i) initialIpClientState ipClientReducer"

definition loadAction :: "event_store \<Rightarrow> id \<Rightarrow> id \<Rightarrow> ActionState \<times> stored_event list \<times> nat" where
  "loadAction rows acc i = loadAggregate rows (stream acc ACTION i) initialActionState actionReducer"

definition loadExecution :: "event_store \<Rightarrow> id \<Rightarrow> id \<Rightarrow> ActionExecutionState \<times> stored_event list \<times> nat" where
  "loadExecution rows acc i =
     loadAggregate rows (stream acc ACTION_EXECUTION i) initialActionExecutionState actionExecutionReducer"

definition loadChannel :: "event_store \<Rightarrow> id \<Rightarrow> NotificationChannelState \<times> stored_event list \<times> nat" where
  "loadChannel rows acc =
     loadAggregate rows (stream acc NOTIFICATION_CHANNEL acc) initialNotificationChannelState notificationChannelReducer"

definition loadCredential :: "event_store \<Rightarrow> id \<Rightarrow> id \<Rightarrow> ProviderCredentialState \<times> stored_event list \<times> nat" where
  "loadCredential rows acc i =
     loadAggregate rows (stream acc PROVIDER_CREDENTIAL i) initialProviderCredentialState providerCredentialReducer"

lemmas load_defs = loadAccount_def loadIpClient_def loadAction_def loadExecution_def loadChannel_def
  loadCredential_def loadAggregate_def

section \<open>Aggregates with guarded writers\<close>

fun legal_history :: "'st \<Rightarrow> ('st \<Rightarrow> 'ev \<Rightarrow> 'st) \<Rightarrow> ('st \<Rightarrow> 'ev \<Rightarrow> bool) \<Rightarrow> 'ev list \<Rightarrow> bool" where
  "legal_history st red allowed [] = True"
| "legal_history st red allowed (e # es) = (allowed st e \<and> legal_history (red st e) red allowed es)"

locale guarded_aggregate =
  fixes init :: 'st
    and red :: "'st \<Rightarrow> 'ev \<Rightarrow> 'st"
    and allowed :: "'st \<Rightarrow> 'ev \<Rightarrow> bool"
    and final :: "'st \<Rightarrow> bool"
  assumes init_not_final: "\<not> final init"
    and final_stays: "final st \<Longrightarrow> allowed st e \<Longrightarrow> final (red st e)"
begin

lemma legal_snoc:
  "legal_history st red allowed (es @ [e]) \<longleftrightarrow> legal_history st red allowed es \<and> allowed (foldl red st es) e"
  by (induction es arbitrary: st) auto

lemma legal_app:
  "legal_history st red allowed (es @ fs) \<longleftrightarrow>
     legal_history st red allowed es \<and> legal_history (foldl red st es) red allowed fs"
  by (induction es arbitrary: st) auto

lemma final_from: "final st \<Longrightarrow> legal_history st red allowed es \<Longrightarrow> final (foldl red st es)"
  by (induction es arbitrary: st) (auto intro: final_stays)

text \<open>A final state is never left: every longer legal history is final too.\<close>

lemma final_forever:
  assumes "legal_history init red allowed (es @ fs)" and "final (foldl red init es)"
  shows "final (foldl red init (es @ fs))"
  using assms by (simp add: legal_app final_from)

end

text \<open>
  The guards of the writers, on the event they append. A registration or attachment is the first
  event of its stream (expected number 1, so the replayed state is the initial one); a change of
  status, a rotation or an IP report requires that the device is not decommissioned.
\<close>

fun ip_client_allowed :: "IpClientState \<Rightarrow> domain_event \<Rightarrow> bool" where
  "ip_client_allowed st (IpClientEv (IpClientRegistered d)) = (ic_ipClientId st = None \<and> ic_status st \<noteq> IcDecommissioned)"
| "ip_client_allowed st (IpClientEv (IpClientEnabled i)) = (ic_status st \<noteq> IcDecommissioned)"
| "ip_client_allowed st (IpClientEv (IpClientDisabled i)) = (ic_status st \<noteq> IcDecommissioned)"
| "ip_client_allowed st (IpClientEv (IpClientDecommissioned t)) = (ic_status st \<noteq> IcDecommissioned)"
| "ip_client_allowed st (IpClientEv (IpClientCredentialRotated h t)) = (ic_status st \<noteq> IcDecommissioned)"
| "ip_client_allowed st (IpClientEv (IpReportReceived d)) = (ic_status st = IcEnabled)"
| "ip_client_allowed st (IpClientEv (IpChanged d)) = (ic_status st = IcEnabled)"
| "ip_client_allowed st (IpClientEv (NotificationPreferenceSet p)) = True"
| "ip_client_allowed st _ = False"

fun action_allowed :: "ActionState \<Rightarrow> domain_event \<Rightarrow> bool" where
  "action_allowed st (ActionEv (ActionAttached d)) = (ac_actionId st = None \<and> ac_status st \<noteq> ActDetached)"
| "action_allowed st (ActionEv (ActionEnabled i)) = (ac_status st \<noteq> ActDetached)"
| "action_allowed st (ActionEv (ActionDisabled i)) = (ac_status st \<noteq> ActDetached)"
| "action_allowed st (ActionEv (ActionDetached t)) = (ac_status st \<noteq> ActDetached)"
| "action_allowed st (ActionEv (ActionReconfigured d)) = True"
| "action_allowed st (ActionEv (ActionFirewallRuleApplied d)) = True"
| "action_allowed st _ = False"

fun credential_allowed :: "ProviderCredentialState \<Rightarrow> domain_event \<Rightarrow> bool" where
  "credential_allowed st (CredentialEv (CredentialStored d)) = (pc_credentialId st = None \<and> pc_status st \<noteq> CrRevoked)"
| "credential_allowed st (CredentialEv (CredentialRevoked t)) = (pc_credentialId st \<noteq> None \<and> pc_status st = CrActive)"
| "credential_allowed st _ = False"

interpretation ic: guarded_aggregate initialIpClientState ip_client_apply ip_client_allowed
  "\<lambda>st. ic_status st = IcDecommissioned"
proof unfold_locales
  show "ic_status (ip_client_apply st e) = IcDecommissioned"
    if "ic_status st = IcDecommissioned" "ip_client_allowed st e" for st e
    using that by (cases "(st, e)" rule: ip_client_allowed.cases) auto
qed (simp add: initialIpClientState_def)

interpretation act: guarded_aggregate initialActionState action_apply action_allowed
  "\<lambda>st. ac_status st = ActDetached"
proof unfold_locales
  show "ac_status (action_apply st e) = ActDetached"
    if "ac_status st = ActDetached" "action_allowed st e" for st e
    using that by (cases "(st, e)" rule: action_allowed.cases) auto
qed (simp add: initialActionState_def)

interpretation cred: guarded_aggregate initialProviderCredentialState provider_credential_apply credential_allowed
  "\<lambda>st. pc_status st = CrRevoked"
proof unfold_locales
  show "pc_status (provider_credential_apply st e) = CrRevoked"
    if "pc_status st = CrRevoked" "credential_allowed st e" for st e
    using that by (cases "(st, e)" rule: credential_allowed.cases) auto
qed (simp add: initialProviderCredentialState_def)

lemma foldl_reducer_data:
  "(\<And>st e. red st e = app st (ev_data e)) \<Longrightarrow> foldl red st es = foldl app st (map ev_data es)"
  by (induction es arbitrary: st) simp_all

lemma foldl_reducers:
  "foldl accountReducer a es = foldl account_apply a (map ev_data es)"
  "foldl ipClientReducer b es = foldl ip_client_apply b (map ev_data es)"
  "foldl actionReducer c es = foldl action_apply c (map ev_data es)"
  "foldl actionExecutionReducer d es = foldl action_execution_apply d (map ev_data es)"
  "foldl notificationChannelReducer f es = foldl notification_channel_apply f (map ev_data es)"
  "foldl providerCredentialReducer g es = foldl provider_credential_apply g (map ev_data es)"
  by (rule foldl_reducer_data, simp add: reducer_defs)+

text \<open>An address, once known, never becomes unknown again.\<close>

lemma ip_client_apply_keeps_address:
  "ic_lastKnownIPv4 st \<noteq> None \<Longrightarrow> ic_lastKnownIPv4 (ip_client_apply st e) \<noteq> None"
  "ic_lastKnownIPv6 st \<noteq> None \<Longrightarrow> ic_lastKnownIPv6 (ip_client_apply st e) \<noteq> None"
  by (cases "(st, e)" rule: ip_client_apply.cases; auto simp: nullish_def split: option.split)+

end
