(* ===== verification/Projections.thy ===== *)
theory Projections
  imports Aggregates
begin

text \<open>
  The Redis read models (\<open>projections/*.ts\<close>): device list, actions of a device, executions of an
  action. A Redis hash is an association list; as in Redis, a hash without fields does not exist.
  A stored value is the summary itself (\<open>JSON.parse\<close> undoes \<open>JSON.stringify\<close> on it).

  The locale \<open>read_model\<close> relates the incremental update of a projection to its rebuild from the
  event store: whatever the order of the two, the hash holds the visible summaries of the replayed
  states. It is interpreted on the three projections.
\<close>

section \<open>Redis hashes\<close>

type_synonym 'v redis_hash = "(id \<times> 'v) list"
type_synonym 'v redis = "(string \<times> 'v redis_hash) list"

definition r_hgetall :: "'v redis \<Rightarrow> string \<Rightarrow> 'v redis_hash" where
  "r_hgetall r key = (case map_of r key of None \<Rightarrow> [] | Some h \<Rightarrow> h)"

definition r_exists :: "'v redis \<Rightarrow> string \<Rightarrow> bool" where
  "r_exists r key = (map_of r key \<noteq> None)"

definition r_hset :: "'v redis \<Rightarrow> string \<Rightarrow> id \<Rightarrow> 'v \<Rightarrow> 'v redis" where
  "r_hset r key f v = AList.update key (AList.update f v (r_hgetall r key)) r"

definition r_del :: "'v redis \<Rightarrow> string \<Rightarrow> 'v redis" where
  "r_del r key = AList.delete key r"

definition r_hdel :: "'v redis \<Rightarrow> string \<Rightarrow> id \<Rightarrow> 'v redis" where
  "r_hdel r key f = (let h = AList.delete f (r_hgetall r key) in
     if h = [] then r_del r key else AList.update key h r)"

lemma r_hgetall_hset [simp]:
  "r_hgetall (r_hset r key f v) key' = (if key' = key then AList.update f v (r_hgetall r key) else r_hgetall r key')"
  by (simp add: r_hgetall_def r_hset_def)

lemma r_hgetall_del [simp]:
  "r_hgetall (r_del r key) key' = (if key' = key then [] else r_hgetall r key')"
  by (simp add: r_hgetall_def r_del_def)

lemma r_hgetall_hdel [simp]:
  "r_hgetall (r_hdel r key f) key' = (if key' = key then AList.delete f (r_hgetall r key) else r_hgetall r key')"
  by (simp add: r_hdel_def Let_def) (simp add: r_hgetall_def)

lemma r_exists_del [simp]: "r_exists (r_del r key) key' = (key' \<noteq> key \<and> r_exists r key')"
  by (simp add: r_exists_def r_del_def)

lemma r_exists_hset [simp]: "r_exists (r_hset r key f v) key' = (key' = key \<or> r_exists r key')"
  by (simp add: r_exists_def r_hset_def)

section \<open>Device list\<close>

record IpClientSummary =
  ics_ipClientId :: id
  ics_label :: string
  ics_status :: ip_client_status
  ics_lastKnownIPv4 :: "string option"
  ics_lastKnownIPv6 :: "string option"
  ics_notificationPreference :: notification_preference

definition ip_clients_key :: "id \<Rightarrow> string" where
  "ip_clients_key accountId = ''proj:'' @ accountId @ '':ip_clients''"

text \<open>An id is absent when it is \<open>null\<close> or the empty string.\<close>

definition ip_client_summary :: "IpClientState \<Rightarrow> IpClientSummary option" where
  "ip_client_summary state = (if truthy (ic_ipClientId state) then
     Some \<lparr>ics_ipClientId = the (ic_ipClientId state), ics_label = ic_label state,
       ics_status = ic_status state, ics_lastKnownIPv4 = ic_lastKnownIPv4 state,
       ics_lastKnownIPv6 = ic_lastKnownIPv6 state,
       ics_notificationPreference = ic_notificationPreference state\<rparr>
     else None)"

definition upsertIpClientProjection ::
  "IpClientSummary redis \<Rightarrow> id \<Rightarrow> IpClientState \<Rightarrow> IpClientSummary redis" where
  "upsertIpClientProjection redis accountId state = (case ip_client_summary state of
       None \<Rightarrow> redis
     | Some summary \<Rightarrow>
         if ics_status summary = IcDecommissioned
         then r_hdel redis (ip_clients_key accountId) (ics_ipClientId summary)
         else r_hset redis (ip_clients_key accountId) (ics_ipClientId summary) summary)"

definition rebuildIpClientsProjection ::
  "IpClientSummary redis \<Rightarrow> event_store \<Rightarrow> id \<Rightarrow> IpClientSummary redis" where
  "rebuildIpClientsProjection redis rows accountId =
     (let key = ip_clients_key accountId;
          ipClientIds = listAggregateIds rows accountId IP_CLIENT
      in foldl (\<lambda>r i. case ip_client_summary (fst (loadIpClient rows accountId i)) of
             None \<Rightarrow> r
           | Some summary \<Rightarrow>
               if ics_status summary \<noteq> IcDecommissioned then r_hset r key (ics_ipClientId summary) summary else r)
         (r_del redis key) ipClientIds)"

definition listIpClientsProjection ::
  "IpClientSummary redis \<Rightarrow> event_store \<Rightarrow> id \<Rightarrow> IpClientSummary list \<times> IpClientSummary redis" where
  "listIpClientsProjection redis rows accountId =
     (let key = ip_clients_key accountId;
          redis' = (if r_exists redis key then redis else rebuildIpClientsProjection redis rows accountId)
      in (map snd (r_hgetall redis' key), redis'))"

section \<open>Actions of a device\<close>

record ActionSummary =
  acs_actionId :: id
  acs_ipClientId :: id
  acs_type :: string
  acs_addressFamilies :: "address_family list"
  acs_config :: "ActionConfig option"
  acs_status :: action_status

definition actions_key :: "id \<Rightarrow> id \<Rightarrow> string" where
  "actions_key accountId ipClientId = ''proj:'' @ accountId @ '':ip_client:'' @ ipClientId @ '':actions''"

definition action_summary :: "ActionState \<Rightarrow> ActionSummary option" where
  "action_summary state =
     (if truthy (ac_actionId state) \<and> truthy (ac_ipClientId state) \<and> truthy (ac_type state) then
       Some \<lparr>acs_actionId = the (ac_actionId state), acs_ipClientId = the (ac_ipClientId state),
         acs_type = the (ac_type state), acs_addressFamilies = ac_addressFamilies state,
         acs_config = ac_config state, acs_status = ac_status state\<rparr>
      else None)"

definition upsertActionProjection ::
  "ActionSummary redis \<Rightarrow> id \<Rightarrow> ActionState \<Rightarrow> ActionSummary redis" where
  "upsertActionProjection redis accountId state = (case action_summary state of
       None \<Rightarrow> redis
     | Some summary \<Rightarrow> (let key = actions_key accountId (acs_ipClientId summary) in
         if acs_status summary = ActDetached then r_hdel redis key (acs_actionId summary)
         else r_hset redis key (acs_actionId summary) summary))"

definition rebuildActionsProjection ::
  "ActionSummary redis \<Rightarrow> event_store \<Rightarrow> id \<Rightarrow> id \<Rightarrow> ActionSummary redis" where
  "rebuildActionsProjection redis rows accountId ipClientId =
     (let allActionIds = listAggregateIds rows accountId ACTION;
          key = actions_key accountId ipClientId
      in foldl (\<lambda>r i. let state = fst (loadAction rows accountId i) in
             if ac_ipClientId state \<noteq> Some ipClientId then r
             else (case action_summary state of
                 None \<Rightarrow> r
               | Some summary \<Rightarrow>
                   if acs_status summary \<noteq> ActDetached then r_hset r key (acs_actionId summary) summary else r))
         (r_del redis key) allActionIds)"

definition listActionsProjection ::
  "ActionSummary redis \<Rightarrow> event_store \<Rightarrow> id \<Rightarrow> id \<Rightarrow> ActionSummary list \<times> ActionSummary redis" where
  "listActionsProjection redis rows accountId ipClientId =
     (let key = actions_key accountId ipClientId;
          redis' = (if r_exists redis key then redis else rebuildActionsProjection redis rows accountId ipClientId)
      in (map snd (r_hgetall redis' key), redis'))"

section \<open>Executions of an action\<close>

record ExecutionSummary =
  exs_executionId :: id
  exs_actionId :: id
  exs_ipClientId :: id
  exs_triggeredBy :: "triggered_by option"
  exs_ipValuesUsed :: IpValuesUsed
  exs_status :: execution_status
  exs_attempt :: nat
  exs_error :: "string option"
  exs_startedAt :: "timestamp option"
  exs_completedAt :: "timestamp option"
  exs_failedAt :: "timestamp option"

definition executions_key :: "id \<Rightarrow> id \<Rightarrow> string" where
  "executions_key accountId actionId = ''proj:'' @ accountId @ '':action:'' @ actionId @ '':executions''"

definition execution_summary :: "ActionExecutionState \<Rightarrow> ExecutionSummary option" where
  "execution_summary state =
     (if truthy (ex_executionId state) \<and> truthy (ex_actionId state) \<and> truthy (ex_ipClientId state) then
       Some \<lparr>exs_executionId = the (ex_executionId state), exs_actionId = the (ex_actionId state),
         exs_ipClientId = the (ex_ipClientId state), exs_triggeredBy = ex_triggeredBy state,
         exs_ipValuesUsed = ex_ipValuesUsed state, exs_status = ex_status state,
         exs_attempt = ex_attempt state, exs_error = ex_error state, exs_startedAt = ex_startedAt state,
         exs_completedAt = ex_completedAt state, exs_failedAt = ex_failedAt state\<rparr>
      else None)"

definition upsertExecutionProjection ::
  "ExecutionSummary redis \<Rightarrow> id \<Rightarrow> ActionExecutionState \<Rightarrow> ExecutionSummary redis" where
  "upsertExecutionProjection redis accountId state = (case execution_summary state of
       None \<Rightarrow> redis
     | Some summary \<Rightarrow>
         r_hset redis (executions_key accountId (exs_actionId summary)) (exs_executionId summary) summary)"

definition rebuildExecutionsProjection ::
  "ExecutionSummary redis \<Rightarrow> event_store \<Rightarrow> id \<Rightarrow> id \<Rightarrow> ExecutionSummary redis" where
  "rebuildExecutionsProjection redis rows accountId actionId =
     (let allExecutionIds = listAggregateIds rows accountId ACTION_EXECUTION;
          key = executions_key accountId actionId
      in foldl (\<lambda>r i. let state = fst (loadExecution rows accountId i) in
             if ex_actionId state \<noteq> Some actionId then r
             else (case execution_summary state of
                 None \<Rightarrow> r
               | Some summary \<Rightarrow> r_hset r key (exs_executionId summary) summary))
         (r_del redis key) allExecutionIds)"

definition listExecutionsProjection ::
  "ExecutionSummary redis \<Rightarrow> event_store \<Rightarrow> id \<Rightarrow> id \<Rightarrow> ExecutionSummary list \<times> ExecutionSummary redis" where
  "listExecutionsProjection redis rows accountId actionId =
     (let key = executions_key accountId actionId;
          redis' = (if r_exists redis key then redis else rebuildExecutionsProjection redis rows accountId actionId)
      in (map snd (r_hgetall redis' key), redis'))"

section \<open>Incremental update and rebuild agree\<close>

text \<open>
  \<open>shown st\<close> is the field and value a replayed state contributes to the hash under consideration
  (\<open>None\<close>: it contributes nothing), \<open>fid st\<close> the field it owns. \<open>put\<close> is the incremental
  update, \<open>add\<close> the rebuild's loop body.
\<close>

locale read_model =
  fixes fid :: "'st \<Rightarrow> id option"
    and shown :: "'st \<Rightarrow> 'v option"
    and put :: "'v redis_hash \<Rightarrow> 'st \<Rightarrow> 'v redis_hash"
    and add :: "'v redis_hash \<Rightarrow> 'st \<Rightarrow> 'v redis_hash"
  assumes put_shown: "fid st = Some i \<Longrightarrow> map_of (put h st) = (map_of h)(i := shown st)"
    and add_shown: "fid st = Some i \<Longrightarrow> shown st = Some v \<Longrightarrow> map_of (add h st) = (map_of h)(i \<mapsto> v)"
    and add_hidden: "shown st = None \<Longrightarrow> add h st = h"
begin

text \<open>The rebuild of a hash from the states of the ids \<open>is\<close>, each of which owns the field of its id.\<close>

lemma rebuild_content:
  assumes "\<And>i. i \<in> set is \<Longrightarrow> fid (st i) = Some i \<or> shown (st i) = None"
  shows "map_of (foldl (\<lambda>h i. add h (st i)) h0 is) i =
    (if i \<in> set is \<and> shown (st i) \<noteq> None then shown (st i) else map_of h0 i)"
  using assms
proof (induction "is" arbitrary: h0)
  case (Cons j js)
  have step: "map_of (add h0 (st j)) k = (if k = j \<and> shown (st j) \<noteq> None then shown (st j) else map_of h0 k)" for k
  proof (cases "shown (st j)")
    case (Some v)
    with Cons.prems [of j] have "fid (st j) = Some j" by simp
    with Some show ?thesis by (simp add: add_shown)
  qed (simp add: add_hidden)
  show ?case using Cons.IH [of "add h0 (st j)"] Cons.prems by (auto simp: step)
qed simp

text \<open>
  The incremental update after a change of the state of \<open>i\<close> leads from the rebuild of the old
  states to (the content of) the rebuild of the new ones.
\<close>

lemma put_is_rebuild:
  assumes "map_of h = (\<lambda>j. if j \<in> S then shown (st j) else None)" and "fid s = Some i"
  shows "map_of (put h s) = (\<lambda>j. if j \<in> insert i S then shown ((st(i := s)) j) else None)"
  using assms by (auto simp: put_shown fun_eq_iff)

end

text \<open>The three projections, seen as operations on one hash.\<close>

definition put_ip_client :: "IpClientSummary redis_hash \<Rightarrow> IpClientState \<Rightarrow> IpClientSummary redis_hash" where
  "put_ip_client h state = (case ip_client_summary state of
       None \<Rightarrow> h
     | Some s \<Rightarrow> if ics_status s = IcDecommissioned then AList.delete (ics_ipClientId s) h
                else AList.update (ics_ipClientId s) s h)"

definition add_ip_client :: "IpClientSummary redis_hash \<Rightarrow> IpClientState \<Rightarrow> IpClientSummary redis_hash" where
  "add_ip_client h state = (case ip_client_summary state of
       None \<Rightarrow> h
     | Some s \<Rightarrow> if ics_status s \<noteq> IcDecommissioned then AList.update (ics_ipClientId s) s h else h)"

definition visible_ip_client :: "IpClientState \<Rightarrow> IpClientSummary option" where
  "visible_ip_client state = (if ic_status state = IcDecommissioned then None else ip_client_summary state)"

definition put_action :: "ActionSummary redis_hash \<Rightarrow> ActionState \<Rightarrow> ActionSummary redis_hash" where
  "put_action h state = (case action_summary state of
       None \<Rightarrow> h
     | Some s \<Rightarrow> if acs_status s = ActDetached then AList.delete (acs_actionId s) h
                else AList.update (acs_actionId s) s h)"

definition add_action :: "ActionSummary redis_hash \<Rightarrow> ActionState \<Rightarrow> ActionSummary redis_hash" where
  "add_action h state = (case action_summary state of
       None \<Rightarrow> h
     | Some s \<Rightarrow> if acs_status s \<noteq> ActDetached then AList.update (acs_actionId s) s h else h)"

definition visible_action :: "ActionState \<Rightarrow> ActionSummary option" where
  "visible_action state = (if ac_status state = ActDetached then None else action_summary state)"

definition add_execution :: "ExecutionSummary redis_hash \<Rightarrow> ActionExecutionState \<Rightarrow> ExecutionSummary redis_hash" where
  "add_execution h state = (case execution_summary state of
       None \<Rightarrow> h
     | Some s \<Rightarrow> AList.update (exs_executionId s) s h)"

definition ip_client_field :: "IpClientState \<Rightarrow> id option" where
  "ip_client_field st = (if truthy (ic_ipClientId st) then ic_ipClientId st else None)"

definition action_field :: "ActionState \<Rightarrow> id option" where
  "action_field st = map_option acs_actionId (action_summary st)"

definition execution_field :: "ActionExecutionState \<Rightarrow> id option" where
  "execution_field st = map_option exs_executionId (execution_summary st)"

interpretation ipm: read_model ip_client_field visible_ip_client put_ip_client add_ip_client
  by unfold_locales
    (auto simp: ip_client_field_def visible_ip_client_def put_ip_client_def add_ip_client_def
      ip_client_summary_def split: if_splits)

interpretation acm: read_model action_field visible_action put_action add_action
  by unfold_locales
    (auto simp: action_field_def visible_action_def put_action_def add_action_def
      action_summary_def split: if_splits)

interpretation exm: read_model execution_field execution_summary add_execution add_execution
  by unfold_locales
    (auto simp: execution_field_def add_execution_def split: option.splits)

lemma upsert_ip_client_hash:
  "r_hgetall (upsertIpClientProjection r acc st) (ip_clients_key acc) = put_ip_client (r_hgetall r (ip_clients_key acc)) st"
  by (simp add: upsertIpClientProjection_def put_ip_client_def split: option.split)

lemma foldl_hash:
  assumes "\<And>r i. r_hgetall (f r i) key = g (r_hgetall r key) i"
  shows "r_hgetall (foldl f r xs) key = foldl g (r_hgetall r key) xs"
  using assms by (induction xs arbitrary: r) auto

lemma rebuild_ip_clients_hash:
  "r_hgetall (rebuildIpClientsProjection r rows acc) (ip_clients_key acc) =
     foldl (\<lambda>h i. add_ip_client h (fst (loadIpClient rows acc i))) [] (listAggregateIds rows acc IP_CLIENT)"
  unfolding rebuildIpClientsProjection_def Let_def
  by (subst foldl_hash [where g = "\<lambda>h i. add_ip_client h (fst (loadIpClient rows acc i))"])
    (auto simp: add_ip_client_def split: option.split)

lemma upsert_action_hash:
  assumes "ac_ipClientId st = Some ic"
  shows "r_hgetall (upsertActionProjection r acc st) (actions_key acc ic) = put_action (r_hgetall r (actions_key acc ic)) st"
  using assms by (auto simp: upsertActionProjection_def put_action_def action_summary_def Let_def)

lemma upsert_execution_hash:
  assumes "ex_actionId st = Some a"
  shows "r_hgetall (upsertExecutionProjection r acc st) (executions_key acc a) =
    add_execution (r_hgetall r (executions_key acc a)) st"
  using assms by (auto simp: upsertExecutionProjection_def add_execution_def execution_summary_def)

end
