(* ===== verification/Json.thy ===== *)
theory Json
  imports Prelude
begin

text \<open>
  \<open>JSON.stringify\<close> on the values the backend serialises (no indentation, keys in insertion order),
  the byte length of its UTF-8 encoding, and a stable \<open>Array.prototype.sort\<close> with a comparator.
  The main result is that the JSON text determines the value: \<open>json_stringify_inject\<close>.
\<close>

section \<open>Stringification\<close>

definition hex_char :: "nat \<Rightarrow> char" where
  "hex_char n = char_of (if n < 10 then n + 48 else n + 87)"

text \<open>The two-character escapes of JSON: the escaped code and the letter after the backslash.\<close>

definition short_escapes :: "(nat \<times> char) list" where
  "short_escapes = [(34, CHR 0x22), (92, CHR 0x5C), (8, CHR ''b''), (12, CHR ''f''), (10, CHR ''n''),
     (13, CHR ''r''), (9, CHR ''t'')]"

definition escape_char :: "char \<Rightarrow> string" where
  "escape_char c = (let n = of_char c :: nat in
     case map_of short_escapes n of
       Some e \<Rightarrow> [CHR 0x5C, e]
     | None \<Rightarrow> if n < 32 then [CHR 0x5C, CHR ''u'', CHR ''0'', CHR ''0'', hex_char (n div 16), hex_char (n mod 16)]
         else [c])"

definition json_quote :: "string \<Rightarrow> string" where
  "json_quote s = CHR 0x22 # concat (map escape_char s) @ [CHR 0x22]"

fun json_stringify :: "json \<Rightarrow> string" where
  "json_stringify JNull = ''null''"
| "json_stringify (JBool b) = (if b then ''true'' else ''false'')"
| "json_stringify (JNum i) = int_to_string i"
| "json_stringify JNonFinite = ''null''"
| "json_stringify (JStr s) = json_quote s"
| "json_stringify (JArr xs) = ''['' @ join_with '','' (map json_stringify xs) @ '']''"
| "json_stringify (JObj fs) =
     ''{'' @ join_with '','' (map (\<lambda>(k, v). json_quote k @ '':'' @ json_stringify v) fs) @ ''}''"

text \<open>A property read \<open>o.k\<close>; a value that is no object has no such property.\<close>

fun json_prop :: "json \<Rightarrow> string \<Rightarrow> json option" where
  "json_prop (JObj fs) k = map_of fs k"
| "json_prop _ k = None"

text \<open>\<open>Buffer.byteLength(s, "utf8")\<close> for code units below 256\<close>

definition utf8_length :: "string \<Rightarrow> nat" where
  "utf8_length s = sum_list (map (\<lambda>c. if (of_char c :: nat) < 128 then 1 else 2) s)"

section \<open>Sorting with a comparator\<close>

text \<open>A stable insertion sort; \<open>le x y\<close> is \<open>cmp(x, y) <= 0\<close>.\<close>

fun insert_by :: "('a \<Rightarrow> 'a \<Rightarrow> bool) \<Rightarrow> 'a \<Rightarrow> 'a list \<Rightarrow> 'a list" where
  "insert_by le x [] = [x]"
| "insert_by le x (y # ys) = (if le x y then x # y # ys else y # insert_by le x ys)"

fun sort_by :: "('a \<Rightarrow> 'a \<Rightarrow> bool) \<Rightarrow> 'a list \<Rightarrow> 'a list" where
  "sort_by le [] = []"
| "sort_by le (x # xs) = insert_by le x (sort_by le xs)"

lemma set_insert_by [simp]: "set (insert_by le x ys) = insert x (set ys)"
  by (induction ys) auto

lemma set_sort_by [simp]: "set (sort_by le xs) = set xs"
  by (induction xs) auto

lemma length_insert_by [simp]: "length (insert_by le x ys) = Suc (length ys)"
  by (induction ys) auto

lemma length_sort_by [simp]: "length (sort_by le xs) = length xs"
  by (induction xs) auto

lemma distinct_insert_by [simp]: "distinct (insert_by le x ys) \<longleftrightarrow> x \<notin> set ys \<and> distinct ys"
  by (induction ys) auto

lemma distinct_sort_by [simp]: "distinct (sort_by le xs) \<longleftrightarrow> distinct xs"
  by (induction xs) auto

lemma insert_by_map: "(\<And>x y. le' (f x) (f y) = le x y) \<Longrightarrow> insert_by le' (f x) (map f ys) = map f (insert_by le x ys)"
  by (induction ys) auto

lemma sort_by_map: "(\<And>x y. le' (f x) (f y) = le x y) \<Longrightarrow> sort_by le' (map f xs) = map f (sort_by le xs)"
  by (induction xs) (auto simp: insert_by_map)

locale comparator_order =
  fixes le :: "'a \<Rightarrow> 'a \<Rightarrow> bool"
  assumes le_total: "le x y \<or> le y x"
    and le_trans: "le x y \<Longrightarrow> le y z \<Longrightarrow> le x z"
begin

lemma sorted_insert_by: "sorted_wrt le ys \<Longrightarrow> sorted_wrt le (insert_by le x ys)"
  using le_total by (induction ys) (auto intro: le_trans)

lemma sorted_sort_by: "sorted_wrt le (sort_by le xs)"
  by (induction xs) (auto intro: sorted_insert_by)

text \<open>Where no two different elements compare equal, the result depends on the set of elements only.\<close>

lemma sort_by_unique:
  assumes "set xs = set ys" and "distinct xs" and "distinct ys"
    and anti: "\<And>x y. x \<in> set xs \<Longrightarrow> y \<in> set xs \<Longrightarrow> le x y \<Longrightarrow> le y x \<Longrightarrow> x = y"
  shows "sort_by le xs = sort_by le ys"
proof -
  have "us = vs" if "sorted_wrt le us" "sorted_wrt le vs" "set us = set vs" "distinct us" "distinct vs"
    "set us \<subseteq> set xs" for us vs
    using that
  proof (induction us arbitrary: vs)
    case (Cons u us)
    then obtain v vs' where vs: "vs = v # vs'" by (cases vs) auto
    have "u = v"
    proof (rule ccontr)
      assume "u \<noteq> v"
      with Cons.prems vs have "u \<in> set vs'" "v \<in> set us" by auto
      with Cons.prems vs have "le v u" "le u v" by auto
      moreover from Cons.prems vs have "u \<in> set xs" "v \<in> set xs" by auto
      ultimately show False using anti \<open>u \<noteq> v\<close> by blast
    qed
    moreover from Cons.prems vs \<open>u = v\<close> have "set us = set vs'" by auto
    then have "us = vs'" using Cons.prems vs by (intro Cons.IH) auto
    ultimately show ?case using vs by simp
  qed simp
  from this [of "sort_by le xs" "sort_by le ys"] assms(1-3) sorted_sort_by
  show ?thesis by simp
qed

end

text \<open>The code's comparison of two strings by \<open><\<close>, by code units.\<close>

definition str_le :: "string \<Rightarrow> string \<Rightarrow> bool" where
  "str_le a b = (a \<le> b)"

interpretation str_le: comparator_order str_le
  by unfold_locales (auto simp: str_le_def)

section \<open>The text determines the value\<close>

lemma of_char_hex: "n < 16 \<Longrightarrow> (of_char (hex_char n) :: nat) = (if n < 10 then n + 48 else n + 87)"
  by (auto simp: hex_char_def take_bit_eq_mod)

lemma hex_char_inject:
  assumes "m < 16" and "n < 16" and "hex_char m = hex_char n"
  shows "m = n"
proof -
  have "(if m < 10 then m + 48 else m + 87) = (if n < 10 then n + 48 else n + 87)"
    using assms of_char_hex by metis
  with assms(1,2) show ?thesis by (auto split: if_splits)
qed

text \<open>An escape is a backslash with a letter, a backslash with \<open>u00xx\<close>, or the character itself.\<close>

lemma escape_cases:
  obtains (short) e where "escape_char c = [CHR 0x5C, e]" and "e \<noteq> CHR ''u''"
      and "map_of short_escapes (of_char c) = Some e"
  | (control) "escape_char c = [CHR 0x5C, CHR ''u'', CHR ''0'', CHR ''0'', hex_char (of_char c div 16), hex_char (of_char c mod 16)]"
      and "(of_char c :: nat) < 32"
  | (plain) "escape_char c = [c]" and "c \<noteq> CHR 0x5C" and "c \<noteq> CHR 0x22"
proof (cases "map_of short_escapes (of_char c)")
  case None
  then have "c \<noteq> CHR 0x5C" and "c \<noteq> CHR 0x22" by (auto simp: short_escapes_def)
  with None control plain show ?thesis by (cases "(of_char c :: nat) < 32") (simp_all add: escape_char_def Let_def)
next
  case (Some e)
  then have "e \<noteq> CHR ''u''" by (auto simp: short_escapes_def split: if_splits)
  with Some short show ?thesis by (simp add: escape_char_def Let_def)
qed

lemma short_escapes_inject: "map_of short_escapes m = Some e \<Longrightarrow> map_of short_escapes n = Some e \<Longrightarrow> m = n"
  by (auto simp: short_escapes_def split: if_splits)

lemma nibbles_inject: "(m :: nat) div 16 = n div 16 \<Longrightarrow> m mod 16 = n mod 16 \<Longrightarrow> m = n"
  by (metis div_mult_mod_eq)

lemma escape_prefix_free:
  assumes "escape_char c @ r = escape_char d @ t"
  shows "c = d \<and> r = t"
proof -
  have "(of_char c :: nat) = of_char d \<and> r = t"
  proof (cases rule: escape_cases [of c])
    case (short e)
    note c = this
    show ?thesis
    proof (cases rule: escape_cases [of d])
      case (short e')
      with c assms have "e' = e" "r = t" by simp_all
      with short_escapes_inject [OF c(3)] short(3) show ?thesis by blast
    qed (use assms c in auto)
  next
    case control
    note c = this
    show ?thesis
    proof (cases rule: escape_cases [of d])
      case control
      with c assms have eq: "hex_char (of_char c div 16) = hex_char (of_char d div 16)"
        "hex_char (of_char c mod 16) = hex_char (of_char d mod 16)" "r = t" by simp_all
      have "(of_char c :: nat) div 16 = of_char d div 16" "(of_char c :: nat) mod 16 = of_char d mod 16"
        by (rule hex_char_inject [OF _ _ eq(1)], use c(2) control(2) in simp_all)
          (rule hex_char_inject [OF _ _ eq(2)], simp_all)
      with eq(3) show ?thesis using nibbles_inject by blast
    qed (use assms c in auto)
  next
    case plain
    note c = this
    show ?thesis
      by (cases rule: escape_cases [of d]) (use assms c in auto)
  qed
  then show ?thesis by simp
qed

lemma escape_Cons: "\<exists>x xs. escape_char c = x # xs \<and> x \<noteq> CHR 0x22"
  by (cases rule: escape_cases [of c]) auto

lemma escape_not_quote: "escape_char c @ r \<noteq> CHR 0x22 # t"
  using escape_Cons [of c] by auto

lemma escaped_prefix_free:
  "concat (map escape_char u) @ CHR 0x22 # r = concat (map escape_char v) @ CHR 0x22 # t \<Longrightarrow> u = v \<and> r = t"
proof (induction u arbitrary: v)
  case Nil
  show ?case
  proof (cases v)
    case (Cons d v')
    with Nil have "escape_char d @ (concat (map escape_char v') @ CHR 0x22 # t) = CHR 0x22 # r" by simp
    with escape_not_quote show ?thesis by blast
  qed (use Nil in simp)
next
  case (Cons c u)
  show ?case
  proof (cases v)
    case Nil
    with Cons.prems have "escape_char c @ (concat (map escape_char u) @ CHR 0x22 # r) = CHR 0x22 # t" by simp
    with escape_not_quote show ?thesis by blast
  next
    case (Cons d v')
    with Cons.prems have "escape_char c @ (concat (map escape_char u) @ CHR 0x22 # r) =
        escape_char d @ (concat (map escape_char v') @ CHR 0x22 # t)" by simp
    from escape_prefix_free [OF this] Cons.IH Cons show ?thesis by blast
  qed
qed

lemma quote_prefix_free: "json_quote u @ r = json_quote v @ t \<Longrightarrow> u = v \<and> r = t"
  using escaped_prefix_free [of u r v t] by (simp add: json_quote_def)

text \<open>A separated list closed by a character no element starts with.\<close>

definition list_tail :: "('a \<Rightarrow> string) \<Rightarrow> char \<Rightarrow> 'a list \<Rightarrow> string \<Rightarrow> string" where
  "list_tail enc c xs r = (if xs = [] then c # r else CHR '','' # join_with '','' (map enc xs) @ c # r)"

lemma join_tail: "join_with '','' (map enc (x # xs)) @ c # r = enc x @ list_tail enc c xs r"
  by (cases xs) (simp_all add: list_tail_def)

lemma join_prefix_free:
  assumes "c \<noteq> CHR '',''"
    and "\<And>x y r t. x \<in> set xs \<Longrightarrow> y \<in> set ys \<Longrightarrow> enc x @ r = enc y @ t \<Longrightarrow> x = y \<and> r = t"
    and "\<And>y r t. y \<in> set xs \<union> set ys \<Longrightarrow> enc y @ r \<noteq> c # t"
    and "join_with '','' (map enc xs) @ c # r = join_with '','' (map enc ys) @ c # t"
  shows "xs = ys \<and> r = t"
  using assms(2-4)
proof (induction xs arbitrary: ys)
  case Nil
  show ?case
  proof (cases ys)
    case (Cons y ys')
    with Nil(3) have "enc y @ list_tail enc c ys' t = c # r" unfolding Cons join_tail by simp
    with Nil(2) Cons show ?thesis by auto
  qed (use Nil in simp)
next
  case (Cons x xs)
  note prems = Cons.prems
  show ?case
  proof (cases ys)
    case Nil
    with prems(3) have "enc x @ list_tail enc c xs r = c # t" unfolding Nil join_tail by simp
    with prems(2) show ?thesis by auto
  next
    case (Cons y ys')
    with prems(3) have eq: "enc x @ list_tail enc c xs r = enc y @ list_tail enc c ys' t" by (simp only: join_tail)
    have xy: "x = y \<and> list_tail enc c xs r = list_tail enc c ys' t"
      by (rule prems(1) [OF _ _ eq]) (simp_all add: Cons)
    show ?thesis
    proof (cases "xs = [] \<or> ys' = []")
      case True
      with xy assms(1) Cons show ?thesis by (auto simp: list_tail_def split: if_splits)
    next
      case False
      with xy have "join_with '','' (map enc xs) @ c # r = join_with '','' (map enc ys') @ c # t"
        by (simp add: list_tail_def)
      then have "xs = ys' \<and> r = t" using prems(1,2) Cons by (intro Cons.IH) auto
      with xy Cons show ?thesis by simp
    qed
  qed
qed

text \<open>
  A number is not closed by a character of its own, so the statement is about the values without
  numbers (a snapshot's content has none).
\<close>

fun no_numbers :: "json \<Rightarrow> bool" where
  "no_numbers (JNum i) = False"
| "no_numbers JNonFinite = False"
| "no_numbers (JArr xs) = list_all no_numbers xs"
| "no_numbers (JObj fs) = list_all (\<lambda>(k, v). no_numbers v) fs"
| "no_numbers _ = True"

lemma stringify_not_bracket: "no_numbers v \<Longrightarrow> json_stringify v @ r \<noteq> CHR '']'' # t"
  by (cases v) (auto simp: json_quote_def)

abbreviation json_field :: "string \<times> json \<Rightarrow> string" where
  "json_field \<equiv> \<lambda>(k, v). json_quote k @ '':'' @ json_stringify v"

lemma field_not_brace: "json_field f @ r \<noteq> CHR ''}'' # t"
  by (cases f) (simp add: json_quote_def)

lemma stringify_heads:
  assumes "no_numbers y"
  shows "json_stringify y @ t = CHR 0x22 # u \<Longrightarrow> \<exists>s. y = JStr s"
    and "json_stringify y @ t = CHR ''['' # u \<Longrightarrow> \<exists>ys. y = JArr ys"
    and "json_stringify y @ t = CHR ''{'' # u \<Longrightarrow> \<exists>gs. y = JObj gs"
    and "json_stringify y @ t = CHR ''n'' # u \<Longrightarrow> y = JNull"
    and "json_stringify y @ t = CHR ''t'' # u \<Longrightarrow> y = JBool True"
    and "json_stringify y @ t = CHR ''f'' # u \<Longrightarrow> y = JBool False"
  using assms by (cases y; simp add: json_quote_def split: if_splits)+

lemma stringify_prefix_free:
  "no_numbers x \<Longrightarrow> no_numbers y \<Longrightarrow> json_stringify x @ r = json_stringify y @ t \<Longrightarrow> x = y \<and> r = t"
proof (induction x arbitrary: y r t)
  case (JStr s)
  from JStr.prems(3) have "json_stringify y @ t = CHR 0x22 # concat (map escape_char s) @ CHR 0x22 # r"
    by (simp add: json_quote_def)
  from stringify_heads(1) [OF JStr.prems(2) this] obtain s' where y: "y = JStr s'" ..
  with JStr.prems(3) have "json_quote s @ r = json_quote s' @ t" by simp
  from quote_prefix_free [OF this] y show ?case by simp
next
  case (JArr xs)
  from JArr.prems(3) have "json_stringify y @ t = CHR ''['' # join_with '','' (map json_stringify xs) @ CHR '']'' # r"
    by simp
  from stringify_heads(2) [OF JArr.prems(2) this] obtain ys where y: "y = JArr ys" ..
  note prems = JArr.prems [unfolded y]
  have eq: "join_with '','' (map json_stringify xs) @ CHR '']'' # r = join_with '','' (map json_stringify ys) @ CHR '']'' # t"
    using prems(3) by simp
  have nn: "\<forall>v \<in> set xs \<union> set ys. no_numbers v" using prems(1,2) by (simp add: list_all_iff ball_Un)
  have pf: "v = w \<and> r' = t'"
    if "v \<in> set xs" "w \<in> set ys" "json_stringify v @ r' = json_stringify w @ t'" for v w r' t'
    using JArr.IH [OF that(1) _ _ that(3)] nn that(1,2) by blast
  have "xs = ys \<and> r = t"
  proof (rule join_prefix_free [OF _ pf _ eq])
    show "json_stringify v @ r' \<noteq> CHR '']'' # t'" if "v \<in> set xs \<union> set ys" for v r' t'
      by (rule stringify_not_bracket) (rule nn [rule_format, OF that])
  qed simp_all
  with y show ?case by simp
next
  case (JObj fs)
  from JObj.prems(3) have "json_stringify y @ t = CHR ''{'' # join_with '','' (map json_field fs) @ CHR ''}'' # r"
    by simp
  from stringify_heads(3) [OF JObj.prems(2) this] obtain gs where y: "y = JObj gs" ..
  note prems = JObj.prems [unfolded y]
  have eq: "join_with '','' (map json_field fs) @ CHR ''}'' # r = join_with '','' (map json_field gs) @ CHR ''}'' # t"
    using prems(3) by simp
  have pf: "f = g \<and> r' = t'"
    if f: "f \<in> set fs" and g: "g \<in> set gs" and e: "json_field f @ r' = json_field g @ t'" for f g r' t'
  proof -
    obtain k v k' v' where fg: "f = (k, v)" "g = (k', v')" by (cases f; cases g) blast
    from e fg have q: "json_quote k @ ('':'' @ json_stringify v @ r') = json_quote k' @ ('':'' @ json_stringify v' @ t')"
      by simp
    from quote_prefix_free [OF q] have k: "k = k'" and v: "json_stringify v @ r' = json_stringify v' @ t'" by simp_all
    from f g fg prems(1,2) have nn: "no_numbers v" "no_numbers v'" by (auto simp: list_all_iff)
    have "v \<in> Basic_BNFs.snds f" by (simp add: fg)
    from JObj.IH [OF f this nn v] k fg show ?thesis by simp
  qed
  have "fs = gs \<and> r = t"
    by (rule join_prefix_free [OF _ pf _ eq]) (simp, assumption+, rule field_not_brace)
  with y show ?case by simp
next
  case JNull
  then have "y = JNull" by (intro stringify_heads(4)) (simp_all add: eq_commute)
  with JNull show ?case by simp
next
  case (JBool b)
  then have "y = JBool b" by (cases b) (auto intro!: stringify_heads(5,6) simp: eq_commute)
  with JBool show ?case by simp
qed simp_all

lemma json_stringify_inject:
  assumes "no_numbers x" and "no_numbers y" and "json_stringify x = json_stringify y"
  shows "x = y"
  using stringify_prefix_free [OF assms(1,2), of "[]" "[]"] assms(3) by simp

end
