(* ===== verification/Secrets.thy ===== *)
theory Secrets
  imports Json
begin

text \<open>
  The three secrets of the backend: the reporting credential of a device
  (\<open>domain/ip-client/credential.ts\<close>), the reversible encryption of provider credentials
  (\<open>domain/provider-credential/secret-encryption.ts\<close>) and the agent token
  (\<open>domain/traefik-provider/token.ts\<close>).

  The primitives of \<open>node:crypto\<close> are a parameter, the record \<open>crypto\<close>; random bytes are arguments,
  already encoded as the code encodes them. The theorems name what they need of the primitives.
\<close>

record crypto =
  sha256hex :: "string \<Rightarrow> string"
  \<comment> \<open>key, IV, plaintext to the base64 texts of IV, authentication tag and ciphertext\<close>
  aes_seal :: "string \<Rightarrow> string \<Rightarrow> string \<Rightarrow> string \<times> string \<times> string"
  \<comment> \<open>key and the three base64 texts to the plaintext, or the error the cipher throws\<close>
  aes_open :: "string \<Rightarrow> string \<Rightarrow> string \<Rightarrow> string \<Rightarrow> exn + string"

section \<open>Hexadecimal decoding\<close>

definition hex_digit :: "char \<Rightarrow> nat option" where
  "hex_digit c = (let n = of_char c :: nat in
     if 48 \<le> n \<and> n \<le> 57 then Some (n - 48)
     else if 97 \<le> n \<and> n \<le> 102 then Some (n - 87)
     else if 65 \<le> n \<and> n \<le> 70 then Some (n - 55)
     else None)"

text \<open>\<open>Buffer.from(s, "hex")\<close>: pairs of digits up to the first that is none.\<close>

fun hex_decode :: "string \<Rightarrow> nat list" where
  "hex_decode (a # b # s) = (case (hex_digit a, hex_digit b) of
       (Some x, Some y) \<Rightarrow> (16 * x + y) # hex_decode s
     | _ \<Rightarrow> [])"
| "hex_decode _ = []"

definition lower_hex :: "char \<Rightarrow> bool" where
  "lower_hex c = (let n = of_char c :: nat in (48 \<le> n \<and> n \<le> 57) \<or> (97 \<le> n \<and> n \<le> 102))"

definition timing_safe_eq :: "nat list \<Rightarrow> nat list \<Rightarrow> bool" where
  "timing_safe_eq xs ys = (if length xs \<noteq> length ys then False else list_all2 (=) xs ys)"

section \<open>Reporting credential\<close>

record GeneratedCredential =
  gc_secret :: string
  gc_hash :: string

definition digest :: "crypto \<Rightarrow> string \<Rightarrow> string \<Rightarrow> string" where
  "digest cr secret salt = sha256hex cr (salt @ '':'' @ secret)"

definition generateCredential :: "crypto \<Rightarrow> string \<Rightarrow> string \<Rightarrow> GeneratedCredential" where
  "generateCredential cr secret salt = \<lparr>gc_secret = secret, gc_hash = salt @ '':'' @ digest cr secret salt\<rparr>"

definition verifyCredential :: "crypto \<Rightarrow> string \<Rightarrow> string \<Rightarrow> bool" where
  "verifyCredential cr secret storedHash = (case split_char (CHR '':'') storedHash of
       salt # expectedDigest # _ \<Rightarrow>
         if salt = [] \<or> expectedDigest = [] then False
         else timing_safe_eq (hex_decode (digest cr secret salt)) (hex_decode expectedDigest)
     | _ \<Rightarrow> False)"

section \<open>Encrypted provider credentials\<close>

definition encryptSecret :: "crypto \<Rightarrow> string \<Rightarrow> string \<Rightarrow> string \<Rightarrow> string" where
  "encryptSecret cr iv plaintext base64Key = (case aes_seal cr base64Key iv plaintext of
     (ivB64, authTagB64, dataB64) \<Rightarrow> join_with ''.'' [ivB64, authTagB64, dataB64])"

definition maskLast4 :: "string \<Rightarrow> string" where
  "maskLast4 secret = slice_last 4 secret"

definition decryptSecret :: "crypto \<Rightarrow> string \<Rightarrow> string \<Rightarrow> exn + string" where
  "decryptSecret cr ciphertext base64Key = (case split_char (CHR ''.'') ciphertext of
       ivB64 # authTagB64 # dataB64 # _ \<Rightarrow>
         if ivB64 = [] \<or> authTagB64 = [] \<or> dataB64 = [] then Inl (JsError ''Malformed encrypted secret'')
         else aes_open cr base64Key ivB64 authTagB64 dataB64
     | _ \<Rightarrow> Inl (JsError ''Malformed encrypted secret''))"

section \<open>Agent token\<close>

definition TOKEN_PREFIX :: string where
  "TOKEN_PREFIX = ''fxt_''"

record GeneratedAgentToken =
  gt_plaintext :: string
  gt_hash :: string
  gt_last4 :: string

definition hashAgentToken :: "crypto \<Rightarrow> string \<Rightarrow> string" where
  "hashAgentToken cr plaintext = sha256hex cr plaintext"

definition generateAgentToken :: "crypto \<Rightarrow> string \<Rightarrow> GeneratedAgentToken" where
  "generateAgentToken cr random = (let plaintext = TOKEN_PREFIX @ random in
     \<lparr>gt_plaintext = plaintext, gt_hash = hashAgentToken cr plaintext, gt_last4 = slice_last 4 plaintext\<rparr>)"

definition verifyAgentToken :: "crypto \<Rightarrow> string \<Rightarrow> string \<Rightarrow> bool" where
  "verifyAgentToken cr presented storedHash =
     timing_safe_eq (hex_decode (hashAgentToken cr presented)) (hex_decode storedHash)"

section \<open>Lemmas\<close>

lemma timing_safe_eq_iff [simp]: "timing_safe_eq xs ys \<longleftrightarrow> xs = ys"
  by (auto simp: timing_safe_eq_def list_all2_eq[symmetric] dest: list_all2_lengthD)

text \<open>On lower-case digests of even length decoding loses nothing.\<close>

lemma lower_hex_cases:
  assumes "lower_hex c"
  obtains n where "hex_digit c = Some n" and "n < 16"
  using assms by (auto simp: lower_hex_def hex_digit_def Let_def split: if_splits)

lemma hex_digit_inj:
  "lower_hex a \<Longrightarrow> lower_hex b \<Longrightarrow> hex_digit a = hex_digit b \<Longrightarrow> a = b"
proof -
  assume "lower_hex a" and "lower_hex b" and "hex_digit a = hex_digit b"
  then have "(of_char a :: nat) = of_char b"
    by (auto simp: lower_hex_def hex_digit_def Let_def simp del: of_char_eq_iff split: if_splits)
  then show "a = b" by simp
qed

lemma hex_byte_inj:
  fixes x y x' y' :: nat
  assumes "16 * x + y = 16 * x' + y'" and "y < 16" and "y' < 16"
  shows "x = x' \<and> y = y'"
proof -
  have "(16 * x + y) div 16 = x" "(16 * x' + y') div 16 = x'" using assms(2,3) by simp_all
  with assms(1) have "x = x'" by simp
  with assms(1) show ?thesis by simp
qed

lemma hex_decode_inj:
  assumes "list_all lower_hex s" and "list_all lower_hex t" and "length s = length t" and "even (length s)"
    and "hex_decode s = hex_decode t"
  shows "s = t"
  using assms
proof (induction s arbitrary: t rule: hex_decode.induct)
  case (1 a b s)
  then have "length t = Suc (Suc (length s))" by simp
  then obtain a' b' t' where t: "t = a' # b' # t'"
    by (auto simp: length_Suc_conv)
  from 1(2,3) have hex: "lower_hex a" "lower_hex b" "lower_hex a'" "lower_hex b'" by (simp_all add: t)
  obtain x where x: "hex_digit a = Some x" using hex(1) by (rule lower_hex_cases)
  obtain y where y: "hex_digit b = Some y" "y < 16" using hex(2) by (rule lower_hex_cases)
  obtain x' where x': "hex_digit a' = Some x'" using hex(3) by (rule lower_hex_cases)
  obtain y' where y': "hex_digit b' = Some y'" "y' < 16" using hex(4) by (rule lower_hex_cases)
  note digits = x y x' y'
  with 1(6) have eq: "16 * x + y = 16 * x' + y'" "hex_decode s = hex_decode t'" by (simp_all add: t)
  from hex_byte_inj [OF eq(1) y(2) y'(2)] have "x = x'" "y = y'" by simp_all
  then have "a = a'" "b = b'"
    using hex_digit_inj [OF hex(1,3)] hex_digit_inj [OF hex(2,4)] digits by simp_all
  moreover have "s = t'"
    by (rule 1(1) [of "Some x" "Some y" x y])
      (use 1(2-5) digits eq in \<open>simp_all add: t\<close>)
  ultimately show ?case by (simp add: t)
qed auto

text \<open>What the code relies on of SHA-256: its hexadecimal form has 64 lower-case digits.\<close>

definition hex_digests :: "crypto \<Rightarrow> bool" where
  "hex_digests cr = (\<forall>s. length (sha256hex cr s) = 64 \<and> list_all lower_hex (sha256hex cr s))"

lemma hex_digests_eq:
  "hex_digests cr \<Longrightarrow> hex_decode (sha256hex cr s) = hex_decode (sha256hex cr t) \<longleftrightarrow> sha256hex cr s = sha256hex cr t"
  using hex_decode_inj [of "sha256hex cr s" "sha256hex cr t"] by (auto simp: hex_digests_def)

lemma hex_digest_no_colon: "hex_digests cr \<Longrightarrow> CHR '':'' \<notin> set (sha256hex cr s)"
proof
  assume "hex_digests cr" and "CHR '':'' \<in> set (sha256hex cr s)"
  then have "lower_hex (CHR '':'')" by (auto simp: hex_digests_def list_all_iff)
  then show False by (simp add: lower_hex_def)
qed

text \<open>
  AES-256-GCM as the code uses it: opening what was sealed under the same key gives the plaintext,
  and the base64 texts contain no dot and are empty only where the bytes are (the ciphertext of an
  empty plaintext).
\<close>

definition aead :: "crypto \<Rightarrow> bool" where
  "aead cr = (\<forall>key iv p. case aes_seal cr key iv p of (i, t, d) \<Rightarrow>
     aes_open cr key i t d = Inr p
     \<and> CHR ''.'' \<notin> set i \<and> CHR ''.'' \<notin> set t \<and> CHR ''.'' \<notin> set d
     \<and> i \<noteq> [] \<and> t \<noteq> [] \<and> (d = [] \<longleftrightarrow> p = []))"

text \<open>A concrete instance, used by the witnesses: constant digests, a cipher that stores the plaintext in hexadecimal.\<close>

definition hex_text :: "string \<Rightarrow> string" where
  "hex_text s = concat (map (\<lambda>c. [hex_char (of_char c div 16), hex_char (of_char c mod 16)]) s)"

fun unhex_text :: "string \<Rightarrow> string" where
  "unhex_text s = map char_of (hex_decode s)"

definition sample_crypto :: crypto where
  "sample_crypto = \<lparr>sha256hex = (\<lambda>s. take 64 (hex_text s @ replicate 64 (CHR ''0''))),
     aes_seal = (\<lambda>key iv p. (''iv'', ''tag'', hex_text p)),
     aes_open = (\<lambda>key i t d. Inr (unhex_text d))\<rparr>"

lemma hex_char_props:
  assumes "n < 16"
  shows "hex_digit (hex_char n) = Some n" and "lower_hex (hex_char n)"
  using assms by (auto simp: hex_char_def hex_digit_def lower_hex_def Let_def)

lemma char_nibbles: "(of_char (c :: char) :: nat) div 16 < 16" "(of_char (c :: char) :: nat) mod 16 < 16"
  using nat_of_char_less_256 [of c] by (auto simp: less_mult_imp_div_less simp del: nat_of_char_less_256)

lemma hex_decode_text: "hex_decode (hex_text s) = map of_char s"
  by (induction s) (simp_all add: hex_text_def hex_char_props char_nibbles)

lemma lower_hex_text: "list_all lower_hex (hex_text s)"
  by (induction s) (simp_all add: hex_text_def hex_char_props char_nibbles)

lemma list_all_take: "list_all P xs \<Longrightarrow> list_all P (take n xs)"
  by (auto simp: list_all_iff dest: in_set_takeD)

lemma sample_digests: "hex_digests sample_crypto"
proof -
  have zeros: "list_all lower_hex (replicate 64 (CHR ''0''))"
    unfolding list_all_iff lower_hex_def by simp
  have "list_all lower_hex (take 64 (hex_text s @ replicate 64 (CHR ''0'')))" for s
    by (rule list_all_take) (simp only: list_all_append lower_hex_text zeros)
  then have "\<forall>s. length (take 64 (hex_text s @ replicate 64 (CHR ''0''))) = 64
      \<and> list_all lower_hex (take 64 (hex_text s @ replicate 64 (CHR ''0'')))"
    by (simp only: length_take length_append length_replicate) simp
  then show ?thesis
    unfolding hex_digests_def sample_crypto_def crypto.simps .
qed

lemma sample_aead: "aead sample_crypto"
proof -
  have "\<not> lower_hex (CHR ''.'')" by (simp add: lower_hex_def)
  then have "CHR ''.'' \<notin> set (hex_text p)" for p
    using lower_hex_text [of p] by (auto simp: list_all_iff)
  moreover have "hex_text p = [] \<longleftrightarrow> p = []" for p by (cases p) (simp_all add: hex_text_def)
  ultimately show ?thesis by (simp add: aead_def sample_crypto_def hex_decode_text comp_def)
qed

text \<open>Splitting the two stored forms back into their parts.\<close>

lemma split_two:
  "a \<notin> set s \<Longrightarrow> a \<notin> set t \<Longrightarrow> split_char a (s @ [a] @ t) = [s, t]"
  by (simp add: split_char_app split_char_no_sep)

lemma split_three:
  "a \<notin> set s \<Longrightarrow> a \<notin> set t \<Longrightarrow> a \<notin> set u \<Longrightarrow> split_char a (s @ [a] @ t @ [a] @ u) = [s, t, u]"
  by (simp add: split_char_app split_char_no_sep)

lemma decrypt_encrypt:
  assumes "aead cr"
  shows "decryptSecret cr (encryptSecret cr iv plaintext key) key =
    (if plaintext = [] then Inl (JsError ''Malformed encrypted secret'') else Inr plaintext)"
proof -
  obtain i t d where sealed: "aes_seal cr key iv plaintext = (i, t, d)" by (cases "aes_seal cr key iv plaintext")
  have "case aes_seal cr key iv plaintext of (i, t, d) \<Rightarrow> aes_open cr key i t d = Inr plaintext
     \<and> CHR ''.'' \<notin> set i \<and> CHR ''.'' \<notin> set t \<and> CHR ''.'' \<notin> set d
     \<and> i \<noteq> [] \<and> t \<noteq> [] \<and> (d = [] \<longleftrightarrow> plaintext = [])"
    by (rule assms [unfolded aead_def, THEN spec, of key, THEN spec, of iv, THEN spec, of plaintext])
  then have open_sealed: "aes_open cr key i t d = Inr plaintext" "i \<noteq> []" "t \<noteq> []" "d = [] \<longleftrightarrow> plaintext = []"
    and dots: "CHR ''.'' \<notin> set i" "CHR ''.'' \<notin> set t" "CHR ''.'' \<notin> set d"
    by (auto simp only: sealed prod.case)
  show ?thesis
    using split_three [OF dots] open_sealed
    by (simp add: decryptSecret_def encryptSecret_def sealed)
qed

section \<open>Properties\<close>

text \<open>A device's reporting secret verifies against the hash stored when it was generated, and another
  secret verifies only where SHA-256 collides on the salted texts: splitting the stored form at the
  colon, decoding the hexadecimal digests and the constant-time comparison lose nothing.\<close>
theorem credential_verifies:
  assumes "hex_digests cr" and "salt \<noteq> []" and "CHR '':'' \<notin> set salt"
  shows "verifyCredential cr presented (gc_hash (generateCredential cr secret salt)) \<longleftrightarrow>
    sha256hex cr (salt @ '':'' @ presented) = sha256hex cr (salt @ '':'' @ secret)"
proof -
  let ?d = "sha256hex cr (salt @ '':'' @ secret)"
  have "length ?d = 64" using assms(1) by (simp add: hex_digests_def)
  then have "?d \<noteq> []" by auto
  then show ?thesis
    using assms hex_digests_eq [OF assms(1)]
    by (simp add: verifyCredential_def generateCredential_def digest_def
        split_two [OF assms(3) hex_digest_no_colon [OF assms(1)], simplified])
qed

lemma credential_verifies_witness:
  "verifyCredential sample_crypto ''abc'' (gc_hash (generateCredential sample_crypto ''abc'' ''5a17''))
   \<and> \<not> verifyCredential sample_crypto ''abd'' (gc_hash (generateCredential sample_crypto ''abc'' ''5a17''))"
  using credential_verifies [OF sample_digests, of "''5a17''" "''abc''" "''abc''"]
    credential_verifies [OF sample_digests, of "''5a17''" "''abd''" "''abc''"]
  by (simp add: sample_crypto_def hex_text_def hex_char_def)

text \<open>Storing a provider secret and reading it back gives the secret, for every non-empty secret. The empty
  one is the exception: its ciphertext part is empty, which \<open>decryptSecret\<close> takes for a malformed text
  (the routes refuse an empty secret before it gets here).\<close>
theorem secret_roundtrip:
  assumes "aead cr"
  shows "decryptSecret cr (encryptSecret cr iv plaintext key) key =
    (if plaintext = [] then Inl (JsError ''Malformed encrypted secret'') else Inr plaintext)"
  using assms by (rule decrypt_encrypt)

lemma secret_roundtrip_witness:
  "decryptSecret sample_crypto (encryptSecret sample_crypto ''n'' ''hunter2'' ''k'') ''k'' = Inr ''hunter2''"
  using secret_roundtrip [OF sample_aead, of "''n''" "''hunter2''" "''k''"] by simp

text \<open>An agent token verifies against its own stored hash, and another presented token verifies only where
  its digest is the stored one; the hint kept beside it is the token's last four characters.\<close>
theorem agent_token_verifies:
  assumes "hex_digests cr"
  shows "(verifyAgentToken cr presented (gt_hash (generateAgentToken cr random)) \<longleftrightarrow>
      sha256hex cr presented = sha256hex cr (gt_plaintext (generateAgentToken cr random)))
    \<and> length (gt_last4 (generateAgentToken cr random)) = 4
    \<and> (\<exists>p. gt_plaintext (generateAgentToken cr random) = p @ gt_last4 (generateAgentToken cr random))"
proof -
  have "verifyAgentToken cr presented (gt_hash (generateAgentToken cr random)) \<longleftrightarrow>
      sha256hex cr presented = sha256hex cr (gt_plaintext (generateAgentToken cr random))"
    using hex_digests_eq [OF assms] by (simp add: verifyAgentToken_def generateAgentToken_def hashAgentToken_def Let_def)
  moreover have "length (gt_last4 (generateAgentToken cr random)) = 4"
    by (simp add: generateAgentToken_def TOKEN_PREFIX_def slice_last_length Let_def)
  moreover have "\<exists>p. gt_plaintext (generateAgentToken cr random) = p @ gt_last4 (generateAgentToken cr random)"
    unfolding generateAgentToken_def Let_def GeneratedAgentToken.simps slice_last_def
    by (metis append_take_drop_id)
  ultimately show ?thesis by blast
qed

lemma agent_token_verifies_witness:
  "verifyAgentToken sample_crypto ''fxt_r1'' (gt_hash (generateAgentToken sample_crypto ''r1''))"
  using agent_token_verifies [OF sample_digests, of "''fxt_r1''" "''r1''"]
  by (simp add: generateAgentToken_def TOKEN_PREFIX_def Let_def)

end
