(* ===== verification/TraefikProvider.thy ===== *)
theory TraefikProvider
  imports Aggregates
begin

text \<open>
  The Traefik provider aggregate (\<open>domain/traefik-provider/traefik-provider-aggregate.ts\<close>) and the
  store that loads and appends to its streams (\<open>provider-store.ts\<close>, \<open>keyed-mutex.ts\<close>).

  \<open>store_append\<close> of the code serialises the appends to one provider within the process; an append
  is one step here. Another process can still append between the two calls of one attempt, which the
  argument \<open>between\<close> of \<open>provider_append\<close> stands for: the rows other writers add after the version
  was read, once per attempt.
\<close>

section \<open>State and reducer\<close>

definition MAX_ACTIVE_TOKENS :: nat where
  "MAX_ACTIVE_TOKENS = 2"

record ProviderTokenState =
  tok_tokenId :: id
  tok_hash :: string
  tok_last4 :: string
  tok_issuedAt :: timestamp
  tok_revokedAt :: "timestamp option"

datatype provider_status = TpActive | TpDeleted

datatype presence = PrConnected | PrDisconnected | PrNever

record LastPublished =
  lp_version :: nat
  lp_contentHash :: string
  lp_correlationId :: id
  lp_publishedAt :: timestamp

record LastPublishError =
  le_reason :: publish_failure
  le_correlationId :: id
  le_failedAt :: timestamp

record LastApplied =
  la_version :: nat
  la_correlationId :: id
  la_stale :: bool
  la_files :: "FileChecksum list"
  la_templates :: "FileChecksum list"
  la_traefikCheck :: "TraefikCheckResult option"
  la_appliedAt :: timestamp

record LastApplyError =
  ae_version :: nat
  ae_correlationId :: id
  ae_reason :: string
  ae_appliedAt :: timestamp

record TraefikProviderState =
  tp_providerId :: "id option"
  tp_accountId :: "id option"
  tp_name :: string
  tp_connectionMode :: connection_mode
  tp_status :: provider_status
  tp_tokens :: "ProviderTokenState list"
  tp_lastPublished :: "LastPublished option"
  tp_lastPublishError :: "LastPublishError option"
  tp_lastConnectedAt :: "timestamp option"
  tp_lastDisconnectedAt :: "timestamp option"
  tp_lastPresence :: presence
  tp_agentVersion :: "string option"
  tp_maxOfflineSeconds :: "nat option"
  tp_replacedPreviousAt :: "timestamp option"
  tp_lastApplied :: "LastApplied option"
  tp_lastApplyError :: "LastApplyError option"

definition initialTraefikProviderState :: TraefikProviderState where
  "initialTraefikProviderState = \<lparr>tp_providerId = None, tp_accountId = None, tp_name = [],
     tp_connectionMode = AgentInitiated, tp_status = TpActive, tp_tokens = [],
     tp_lastPublished = None, tp_lastPublishError = None, tp_lastConnectedAt = None,
     tp_lastDisconnectedAt = None, tp_lastPresence = PrNever, tp_agentVersion = None,
     tp_maxOfflineSeconds = None, tp_replacedPreviousAt = None, tp_lastApplied = None,
     tp_lastApplyError = None\<rparr>"

definition activeTokens :: "TraefikProviderState \<Rightarrow> ProviderTokenState list" where
  "activeTokens state = filter (\<lambda>token. tok_revokedAt token = None) (tp_tokens state)"

definition revoke_token :: "id \<Rightarrow> timestamp \<Rightarrow> ProviderTokenState \<Rightarrow> ProviderTokenState" where
  "revoke_token tokenId revokedAt token =
     (if tok_tokenId token = tokenId \<and> tok_revokedAt token = None
      then token\<lparr>tok_revokedAt := Some revokedAt\<rparr> else token)"

text \<open>The reducer on a payload; \<open>n\<close> is the event's sequence number, which is a snapshot's version.\<close>

fun traefik_provider_apply :: "TraefikProviderState \<Rightarrow> nat \<Rightarrow> domain_event \<Rightarrow> TraefikProviderState" where
  "traefik_provider_apply state n (ProviderEv (ProviderCreated d)) =
     state\<lparr>tp_providerId := Some (tpc_providerId d), tp_accountId := Some (tpc_accountId d),
       tp_name := tpc_name d, tp_connectionMode := tpc_connectionMode d, tp_status := TpActive\<rparr>"
| "traefik_provider_apply state n (ProviderEv (ProviderRenamed newName t)) = state\<lparr>tp_name := newName\<rparr>"
| "traefik_provider_apply state n (ProviderEv (ProviderDeleted t)) = state\<lparr>tp_status := TpDeleted\<rparr>"
| "traefik_provider_apply state n (ProviderEv (TokenIssued d)) =
     state\<lparr>tp_tokens := tp_tokens state @ [\<lparr>tok_tokenId = tki_tokenId d, tok_hash = tki_tokenHash d,
       tok_last4 = tki_last4 d, tok_issuedAt = tki_issuedAt d, tok_revokedAt = None\<rparr>]\<rparr>"
| "traefik_provider_apply state n (ProviderEv (TokenRevoked tokenId t)) =
     state\<lparr>tp_tokens := map (revoke_token tokenId t) (tp_tokens state)\<rparr>"
| "traefik_provider_apply state n (ProviderEv (SnapshotPublished d)) =
     state\<lparr>tp_lastPublished := Some \<lparr>lp_version = n, lp_contentHash = pub_contentHash d,
         lp_correlationId = pub_correlationId d, lp_publishedAt = pub_publishedAt d\<rparr>,
       tp_lastPublishError := None\<rparr>"
| "traefik_provider_apply state n (ProviderEv (SnapshotPublishFailed d)) =
     state\<lparr>tp_lastPublishError := Some \<lparr>le_reason = pbf_reason d,
       le_correlationId = pbf_correlationId d, le_failedAt = pbf_failedAt d\<rparr>\<rparr>"
| "traefik_provider_apply state n (ProviderEv (AgentConnected d)) =
     state\<lparr>tp_lastConnectedAt := Some (agc_connectedAt d), tp_lastPresence := PrConnected,
       tp_agentVersion := Some (agc_agentVersion d),
       tp_maxOfflineSeconds := Some (agc_maxOfflineSeconds d),
       tp_replacedPreviousAt := (if agc_replacedPrevious d then Some (agc_connectedAt d)
                                 else tp_replacedPreviousAt state)\<rparr>"
| "traefik_provider_apply state n (ProviderEv (AgentDisconnected d)) =
     (if agd_reason d = DrSuperseded
      then state\<lparr>tp_lastDisconnectedAt := Some (agd_disconnectedAt d)\<rparr>
      else state\<lparr>tp_lastDisconnectedAt := Some (agd_disconnectedAt d), tp_lastPresence := PrDisconnected\<rparr>)"
| "traefik_provider_apply state n (ProviderEv (SnapshotApplied d)) =
     state\<lparr>tp_agentVersion := (if sap_agentVersion d \<noteq> [] then Some (sap_agentVersion d)
                               else tp_agentVersion state),
       tp_lastApplied := Some \<lparr>la_version = sap_version d, la_correlationId = sap_correlationId d,
         la_stale = sap_stale d, la_files = sap_files d, la_templates = sap_templates d,
         la_traefikCheck = sap_traefikCheck d, la_appliedAt = sap_appliedAt d\<rparr>,
       tp_lastApplyError := None\<rparr>"
| "traefik_provider_apply state n (ProviderEv (SnapshotApplyFailed d)) =
     state\<lparr>tp_lastApplyError := Some \<lparr>ae_version = saf_version d,
       ae_correlationId = saf_correlationId d, ae_reason = saf_reason d, ae_appliedAt = saf_appliedAt d\<rparr>\<rparr>"
| "traefik_provider_apply state n _ = state"

definition traefikProviderReducer :: "TraefikProviderState \<Rightarrow> stored_event \<Rightarrow> TraefikProviderState" where
  "traefikProviderReducer state event = traefik_provider_apply state (ev_sequenceNumber event) (ev_data event)"

declare traefikProviderReducer_def [reducer_simps]

section \<open>The provider store\<close>

record LoadedProvider =
  ld_state :: TraefikProviderState
  ld_version :: nat

definition provider_load :: "event_store \<Rightarrow> id \<Rightarrow> id \<Rightarrow> LoadedProvider" where
  "provider_load rows accountId providerId =
     (case loadAggregate rows (stream accountId TRAEFIK_PROVIDER providerId)
             initialTraefikProviderState traefikProviderReducer of
       (state, events, version) \<Rightarrow> \<lparr>ld_state = state, ld_version = version\<rparr>)"

definition provider_loadActive :: "event_store \<Rightarrow> id \<Rightarrow> id \<Rightarrow> LoadedProvider option" where
  "provider_loadActive rows accountId providerId =
     (let loaded = provider_load rows accountId providerId in
      if \<not> truthy (tp_providerId (ld_state loaded)) \<or> tp_accountId (ld_state loaded) \<noteq> Some accountId
         \<or> tp_status (ld_state loaded) \<noteq> TpActive
      then None else Some loaded)"

definition provider_resolveAccountId :: "event_store \<Rightarrow> id \<Rightarrow> id option" where
  "provider_resolveAccountId rows providerId = resolveAccountId rows TRAEFIK_PROVIDER providerId"

definition provider_listActive :: "event_store \<Rightarrow> id \<Rightarrow> LoadedProvider list" where
  "provider_listActive rows accountId =
     filter (\<lambda>loaded. tp_status (ld_state loaded) = TpActive \<and> truthy (tp_providerId (ld_state loaded)))
       (map (provider_load rows accountId) (listAggregateIds rows accountId TRAEFIK_PROVIDER))"

text \<open>
  One attempt: load the version, append at the next number. \<open>between\<close> is what other processes do to
  the table in the meantime; a conflict of the first attempt is retried once.
\<close>

definition provider_attempt ::
  "Config \<Rightarrow> tick \<Rightarrow> (event_store \<Rightarrow> event_store) \<Rightarrow> event_store \<Rightarrow> id \<Rightarrow> id \<Rightarrow> traefik_provider_event \<Rightarrow>
   (exn + stored_event) \<times> event_store" where
  "provider_attempt cfg tk between rows accountId providerId d =
     (let version = ld_version (provider_load rows accountId providerId); rows' = between rows in
      case append_event cfg tk rows' (stream accountId TRAEFIK_PROVIDER providerId) (version + 1) (ProviderEv d) of
        Inl err \<Rightarrow> (Inl err, rows')
      | Inr (e, rows'') \<Rightarrow> (Inr e, rows''))"

fun is_conflict :: "exn \<Rightarrow> bool" where
  "is_conflict (ConcurrencyError _ _ _) = True"
| "is_conflict (JsError _) = False"

definition provider_append_racing ::
  "Config \<Rightarrow> (nat \<Rightarrow> tick) \<Rightarrow> (nat \<Rightarrow> event_store \<Rightarrow> event_store) \<Rightarrow> event_store \<Rightarrow> id \<Rightarrow> id \<Rightarrow>
   traefik_provider_event \<Rightarrow> (exn + stored_event) \<times> event_store" where
  "provider_append_racing cfg tk between rows accountId providerId d =
     (case provider_attempt cfg (tk 0) (between 0) rows accountId providerId d of
        (Inl err, rows') \<Rightarrow>
          (if is_conflict err then provider_attempt cfg (tk 1) (between 1) rows' accountId providerId d
           else (Inl err, rows'))
      | done \<Rightarrow> done)"

text \<open>The append when no other process writes: what the callers below use.\<close>

definition provider_append ::
  "Config \<Rightarrow> tick \<Rightarrow> event_store \<Rightarrow> id \<Rightarrow> id \<Rightarrow> traefik_provider_event \<Rightarrow> (exn + stored_event) \<times> event_store" where
  "provider_append cfg tk rows accountId providerId d =
     provider_append_racing cfg (\<lambda>_. tk) (\<lambda>_ r. r) rows accountId providerId d"

section \<open>Lemmas\<close>

lemma activeTokens_snoc:
  "activeTokens (traefik_provider_apply st n (ProviderEv (TokenIssued d))) =
     activeTokens st @ [\<lparr>tok_tokenId = tki_tokenId d, tok_hash = tki_tokenHash d,
       tok_last4 = tki_last4 d, tok_issuedAt = tki_issuedAt d, tok_revokedAt = None\<rparr>]"
  by (simp add: activeTokens_def)

lemma activeTokens_revoke:
  "activeTokens (traefik_provider_apply st n (ProviderEv (TokenRevoked i t))) =
     filter (\<lambda>token. tok_tokenId token \<noteq> i) (activeTokens st)"
proof -
  have "filter (\<lambda>token. tok_revokedAt token = None) (map (revoke_token i t) ts) =
      filter (\<lambda>token. tok_tokenId token \<noteq> i) (filter (\<lambda>token. tok_revokedAt token = None) ts)" for ts
    by (induction ts) (auto simp: revoke_token_def)
  then show ?thesis by (simp add: activeTokens_def)
qed

lemma provider_load_simps:
  "ld_state (provider_load rows acc p) =
     foldl traefikProviderReducer initialTraefikProviderState (readStream rows (stream acc TRAEFIK_PROVIDER p))"
  "ld_version (provider_load rows acc p) = length (readStream rows (stream acc TRAEFIK_PROVIDER p))"
  by (simp_all add: provider_load_def loadAggregate_def Let_def)

lemma provider_attempt_Inr:
  assumes "provider_attempt cfg tk between rows acc p d = (Inr e, rows')"
  shows "append_event cfg tk (between rows) (stream acc TRAEFIK_PROVIDER p)
      (Suc (length (readStream rows (stream acc TRAEFIK_PROVIDER p)))) (ProviderEv d) = Inr (e, rows')"
  using assms
  by (auto simp: provider_attempt_def Let_def provider_load_simps split: sum.splits prod.splits)

lemma provider_attempt_Inl:
  assumes "provider_attempt cfg tk between rows acc p d = (Inl x, rows')"
  shows "rows' = between rows" and "is_conflict x"
    and "append_event cfg tk (between rows) (stream acc TRAEFIK_PROVIDER p)
      (Suc (length (readStream rows (stream acc TRAEFIK_PROVIDER p)))) (ProviderEv d) = Inl x"
  using assms
  by (auto simp: provider_attempt_def Let_def provider_load_simps dest: append_event_Inl
      split: sum.splits prod.splits)

text \<open>An attempt nobody interferes with fails only on a clash of event ids.\<close>

lemma attempt_alone:
  assumes wf: "wf_store rows" and fresh: "tk_id tk \<notin> ev_id ` set rows"
    and mine: "\<forall>r \<in> set (aggregate_rows rows TRAEFIK_PROVIDER p). ev_accountId r = acc"
  obtains e where "provider_attempt cfg tk (\<lambda>r. r) rows acc p d = (Inr e, rows @ [e])"
    and "ev_data e = ProviderEv d" and "ev_sequenceNumber e = Suc (ld_version (provider_load rows acc p))"
proof -
  obtain e where e: "append_event cfg tk rows (stream acc TRAEFIK_PROVIDER p)
      (Suc (length (readStream rows (stream acc TRAEFIK_PROVIDER p)))) (ProviderEv d) = Inr (e, rows @ [e])"
    by (rule append_alone [OF wf fresh mine])
  show ?thesis
    by (rule that [of e]) (use e append_event_Inr(3,4) [OF e] in
      \<open>simp_all add: provider_attempt_def Let_def provider_load_simps\<close>)
qed

text \<open>The append the callers use: where it succeeds the row is the next one of the provider's stream.\<close>

lemma provider_append_Inr:
  assumes "provider_append cfg tk rows acc p d = (Inr e, rows')"
  shows "append_event cfg tk rows (stream acc TRAEFIK_PROVIDER p)
      (Suc (length (readStream rows (stream acc TRAEFIK_PROVIDER p)))) (ProviderEv d) = Inr (e, rows')"
proof (cases "provider_attempt cfg tk (\<lambda>r. r) rows acc p d")
  case (Pair res rows'')
  show ?thesis
  proof (cases res)
    case (Inr e')
    with Pair assms have "provider_attempt cfg tk (\<lambda>r. r) rows acc p d = (Inr e, rows')"
      by (simp add: provider_append_def provider_append_racing_def)
    from provider_attempt_Inr [OF this] show ?thesis .
  next
    case (Inl x)
    from provider_attempt_Inl [OF Pair [unfolded Inl]] have "rows'' = rows" "is_conflict x" by simp_all
    with Pair Inl assms have "provider_attempt cfg tk (\<lambda>r. r) rows acc p d = (Inr e, rows')"
      by (simp add: provider_append_def provider_append_racing_def)
    from provider_attempt_Inr [OF this] show ?thesis .
  qed
qed

lemma provider_append_cases:
  obtains (appended) e where "provider_append cfg tk rows acc p d = (Inr e, rows @ [e])"
  | (conflict) x where "provider_append cfg tk rows acc p d = (Inl x, rows)" and "is_conflict x"
proof (cases "provider_append cfg tk rows acc p d")
  case (Pair res rows')
  show ?thesis
  proof (cases res)
    case (Inr e)
    with append_event_Inr(1) [OF provider_append_Inr [OF Pair [unfolded Inr]]] Pair appended show ?thesis by simp
  next
    case (Inl x)
    obtain r1 rows1 where one: "provider_attempt cfg tk (\<lambda>r. r) rows acc p d = (r1, rows1)" by fastforce
    show ?thesis
    proof (cases r1)
      case (Inr e)
      with one Pair Inl show ?thesis by (simp add: provider_append_def provider_append_racing_def)
    next
      case c1: (Inl x1)
      note conf = provider_attempt_Inl [OF one [unfolded c1]]
      with one c1 Pair Inl have "provider_attempt cfg tk (\<lambda>r. r) rows acc p d = (Inl x, rows')"
        by (simp add: provider_append_def provider_append_racing_def)
      with provider_attempt_Inl [OF this] Pair Inl conflict show ?thesis by simp
    qed
  qed
qed

lemma provider_append_alone:
  assumes "wf_store rows" and "tk_id tk \<notin> ev_id ` set rows"
    and "\<forall>r \<in> set (aggregate_rows rows TRAEFIK_PROVIDER p). ev_accountId r = acc"
  shows "\<exists>e. provider_append cfg tk rows acc p d = (Inr e, rows @ [e])"
proof -
  obtain e where "provider_attempt cfg tk (\<lambda>r. r) rows acc p d = (Inr e, rows @ [e])"
    by (rule attempt_alone [OF assms])
  then show ?thesis by (simp add: provider_append_def provider_append_racing_def)
qed

lemma provider_append_state:
  assumes wf: "wf_store rows" and ok: "provider_append cfg tk rows acc p d = (Inr e, rows')"
  shows "wf_store rows'" and "rows' = rows @ [e]" and "ev_data e = ProviderEv d"
    and "ev_sequenceNumber e = Suc (ld_version (provider_load rows acc p))"
    and "ld_state (provider_load rows' acc p) =
      traefik_provider_apply (ld_state (provider_load rows acc p)) (ev_sequenceNumber e) (ProviderEv d)"
    and "k \<noteq> stream acc TRAEFIK_PROVIDER p \<Longrightarrow> readStream rows' k = readStream rows k"
    and "t \<noteq> TRAEFIK_PROVIDER \<Longrightarrow> listAggregateIds rows' acc t = listAggregateIds rows acc t"
proof -
  note ap = provider_append_Inr [OF ok]
  note next_row = append_event_next [OF wf refl ap] and fields = append_event_Inr [OF ap]
  show "wf_store rows'" by (rule next_row(1))
  show "rows' = rows @ [e]" by (rule fields(1))
  show d: "ev_data e = ProviderEv d" by (rule fields(4))
  show "ev_sequenceNumber e = Suc (ld_version (provider_load rows acc p))" by (simp add: fields(3) provider_load_simps)
  show "ld_state (provider_load rows' acc p) =
      traefik_provider_apply (ld_state (provider_load rows acc p)) (ev_sequenceNumber e) (ProviderEv d)"
    by (simp only: provider_load_simps next_row(2) foldl_append foldl.simps traefikProviderReducer_def d)
  show "readStream rows' k = readStream rows k" if "k \<noteq> stream acc TRAEFIK_PROVIDER p" by (rule next_row(3) [OF that])
  show "listAggregateIds rows' acc t = listAggregateIds rows acc t" if "t \<noteq> TRAEFIK_PROVIDER"
    using that fields(1,2) by (simp add: listAggregateIds_def in_stream_def)
qed

text \<open>
  The contract of a guarded aggregate: a provider is created once, and a deleted one stays deleted.
  The agent's own events are not guarded (a session's end is recorded after a deletion).
\<close>

fun provider_allowed :: "TraefikProviderState \<Rightarrow> domain_event \<Rightarrow> bool" where
  "provider_allowed st (ProviderEv (ProviderCreated d)) = (tp_providerId st = None \<and> tp_status st \<noteq> TpDeleted)"
| "provider_allowed st (ProviderEv (ProviderRenamed n t)) = (tp_status st \<noteq> TpDeleted)"
| "provider_allowed st (ProviderEv (ProviderDeleted t)) = (tp_status st \<noteq> TpDeleted)"
| "provider_allowed st (ProviderEv (TokenIssued d)) =
     (tp_status st \<noteq> TpDeleted \<and> length (activeTokens st) < MAX_ACTIVE_TOKENS)"
| "provider_allowed st (ProviderEv e) = True"
| "provider_allowed st _ = False"

interpretation tp: guarded_aggregate initialTraefikProviderState traefikProviderReducer
  "\<lambda>st e. provider_allowed st (ev_data e)" "\<lambda>st. tp_status st = TpDeleted"
proof unfold_locales
  show "tp_status (traefikProviderReducer st e) = TpDeleted"
    if "tp_status st = TpDeleted" "provider_allowed st (ev_data e)" for st e
    using that by (cases "(st, ev_data e)" rule: provider_allowed.cases) (auto simp: reducer_simps)
qed (simp add: initialTraefikProviderState_def)

lemma activeTokens_bounded:
  assumes "provider_allowed st d" and "length (activeTokens st) \<le> MAX_ACTIVE_TOKENS"
  shows "length (activeTokens (traefik_provider_apply st n d)) \<le> MAX_ACTIVE_TOKENS"
proof (cases "\<exists>x. d = ProviderEv (TokenIssued x)")
  case True
  then show ?thesis using assms(1)
    by (auto simp only: activeTokens_snoc provider_allowed.simps length_append list.size)
next
  case False
  have "tp_tokens (traefik_provider_apply st n d) = tp_tokens st \<or> (\<exists>i t. d = ProviderEv (TokenRevoked i t))"
    using False by (cases "(st, n, d)" rule: traefik_provider_apply.cases) auto
  then show ?thesis
  proof
    assume "tp_tokens (traefik_provider_apply st n d) = tp_tokens st"
    with assms(2) show ?thesis by (simp add: activeTokens_def)
  next
    assume "\<exists>i t. d = ProviderEv (TokenRevoked i t)"
    then obtain i t where d: "d = ProviderEv (TokenRevoked i t)" by blast
    have "length (filter (\<lambda>token. tok_tokenId token \<noteq> i) (activeTokens st)) \<le> length (activeTokens st)"
      by (rule length_filter_le)
    with assms(2) show ?thesis unfolding d activeTokens_revoke by (rule order_trans [rotated])
  qed
qed

lemma legal_activeTokens:
  assumes "legal_history st traefikProviderReducer (\<lambda>st e. provider_allowed st (ev_data e)) es"
    and "length (activeTokens st) \<le> MAX_ACTIVE_TOKENS"
  shows "length (activeTokens (foldl traefikProviderReducer st es)) \<le> MAX_ACTIVE_TOKENS"
  using assms by (induction es arbitrary: st) (auto simp: reducer_simps activeTokens_bounded)

text \<open>A revoked token is not active again, whatever is appended later, unless its id is issued anew.\<close>

lemma apply_tokens_ids:
  assumes "\<forall>x. d = ProviderEv (TokenIssued x) \<longrightarrow> tki_tokenId x \<noteq> i"
    and "i \<notin> tok_tokenId ` set (activeTokens st)"
  shows "i \<notin> tok_tokenId ` set (activeTokens (traefik_provider_apply st n d))"
proof (cases "(\<exists>x. d = ProviderEv (TokenIssued x)) \<or> (\<exists>j t. d = ProviderEv (TokenRevoked j t))")
  case True
  then show ?thesis
    using assms by (elim disjE exE) (auto simp: activeTokens_snoc activeTokens_revoke simp del: traefik_provider_apply.simps)
next
  case False
  then have "tp_tokens (traefik_provider_apply st n d) = tp_tokens st"
    by (cases "(st, n, d)" rule: traefik_provider_apply.cases) auto
  with assms(2) show ?thesis by (simp add: activeTokens_def)
qed

lemma foldl_tokens_ids:
  assumes "\<forall>e \<in> set es. \<forall>x. ev_data e = ProviderEv (TokenIssued x) \<longrightarrow> tki_tokenId x \<noteq> i"
    and "i \<notin> tok_tokenId ` set (activeTokens st)"
  shows "i \<notin> tok_tokenId ` set (activeTokens (foldl traefikProviderReducer st es))"
  using assms
proof (induction es arbitrary: st)
  case (Cons e es)
  then have "i \<notin> tok_tokenId ` set (activeTokens (traefikProviderReducer st e))"
    unfolding traefikProviderReducer_def by (intro apply_tokens_ids) auto
  with Cons show ?case by simp
qed simp

section \<open>Properties\<close>

text \<open>C1. One lost race never loses a provider event: whatever other processes append between the load and the
  write of the first attempt, \<open>append\<close> retries on the new version and ends with exactly one new row at
  the end of the table, holding the given payload and the next free number of the stream as it is then.\<close>
theorem provider_append_survives_one_race:
  assumes wf: "wf_store rows" and others: "grows readStream (store_append cfg) rows rows'"
    and mine: "\<forall>r \<in> set (aggregate_rows rows' TRAEFIK_PROVIDER p). ev_accountId r = acc"
    and fresh: "tk_id (tk 1) \<notin> ev_id ` set rows'"
  shows "\<exists>e. provider_append_racing cfg tk (\<lambda>n. if n = 0 then (\<lambda>r. rows') else (\<lambda>r. r)) rows acc p d = (Inr e, rows' @ [e])
    \<and> ev_data e = ProviderEv d \<and> ev_sequenceNumber e = Suc (ld_version (provider_load rows' acc p))"
proof -
  let ?k = "stream acc TRAEFIK_PROVIDER p"
  from es.grows_inv_prefix [OF others wf] obtain new where wf': "wf_store rows'"
    and len: "length (readStream rows ?k) \<le> length (readStream rows' ?k)" by (metis le_add1 length_append)
  obtain res rows'' where first: "provider_attempt cfg (tk 0) (\<lambda>r. rows') rows acc p d = (res, rows'')" by fastforce
  show ?thesis
  proof (cases res)
    case (Inr e)
    note ap = provider_attempt_Inr [OF first [unfolded Inr]]
    have "Suc (length (readStream rows ?k)) = Suc (length (readStream rows' ?k))"
      by (rule es.success_is_next [OF wf', where cfg = cfg and x = "(tk 0, ProviderEv d)"])
        (use len ap in \<open>simp_all add: store_append_def\<close>)
    with first append_event_Inr(1,3,4) [OF ap] show ?thesis
      by (simp add: provider_append_racing_def Inr provider_load_simps)
  next
    case (Inl x)
    note conflict = provider_attempt_Inl(1,2) [OF first [unfolded Inl]]
    from attempt_alone [OF wf' fresh mine] obtain e where
      "provider_attempt cfg (tk 1) (\<lambda>r. r) rows' acc p d = (Inr e, rows' @ [e])" "ev_data e = ProviderEv d"
      "ev_sequenceNumber e = Suc (ld_version (provider_load rows' acc p))" .
    with first conflict show ?thesis by (simp add: provider_append_racing_def Inl)
  qed
qed

definition sample_config :: Config where
  "sample_config = fst (readConfig sample_env)"

definition sample_tick :: "nat \<Rightarrow> tick" where
  "sample_tick n = \<lparr>tk_id = nat_to_string n, tk_now = n\<rparr>"

lemma first_append:
  obtains e where "append_event cfg tk [] k n d = Inr (e, [e])" and "ev_id e = tk_id tk"
    and "ev_accountId e = key_accountId k" and "ev_aggregateType e = key_aggregateType k"
    and "ev_aggregateId e = key_aggregateId k" and "ev_sequenceNumber e = n"
  by (simp add: append_event_def buildDomainEvent_def Let_def es_append_def unique_violation_def row_of_def)

lemma provider_append_survives_one_race_witness:
  "\<exists>e rows'. rows' \<noteq> []
    \<and> provider_append_racing sample_config sample_tick (\<lambda>n. if n = 0 then (\<lambda>r. rows') else (\<lambda>r. r)) [] ''acc'' ''p''
        (ProviderDeleted 5) = (Inr e, rows' @ [e])
    \<and> ev_sequenceNumber e = 2"
proof -
  let ?k = "stream ''acc'' TRAEFIK_PROVIDER ''p''"
  obtain e where e: "append_event sample_config (sample_tick 7) [] ?k 1 (ProviderEv (ProviderRenamed ''n'' 3)) = Inr (e, [e])"
    and fields: "ev_id e = tk_id (sample_tick 7)" "ev_accountId e = ''acc''" "ev_aggregateType e = TRAEFIK_PROVIDER"
      "ev_aggregateId e = ''p''" "ev_sequenceNumber e = 1"
    by (rule first_append [of sample_config "sample_tick 7" ?k 1 "ProviderEv (ProviderRenamed ''n'' 3)"]) simp
  have grow: "grows readStream (store_append sample_config) [] [e]"
    by (rule grows_step [OF grows_refl, where e = e and n = 1 and k = ?k and x = "(sample_tick 7, ProviderEv (ProviderRenamed ''n'' 3))"])
      (simp_all add: store_append_def e [simplified])
  have mine: "\<forall>r \<in> set (aggregate_rows [e] TRAEFIK_PROVIDER ''p''). ev_accountId r = ''acc''"
    by (simp add: aggregate_rows_def fields)
  have fresh: "tk_id (sample_tick 1) \<notin> ev_id ` set [e]"
    by (simp add: fields sample_tick_def nat_to_string.simps)
  have "ld_version (provider_load [e] ''acc'' ''p'') = 1"
    by (simp add: provider_load_simps readStream_def in_stream_def fields)
  with provider_append_survives_one_race [where tk = sample_tick and d = "ProviderDeleted 5", OF wf_store_Nil grow mine fresh]
  obtain e' where "provider_append_racing sample_config sample_tick (\<lambda>n. if n = 0 then (\<lambda>r. [e]) else (\<lambda>r. r)) [] ''acc'' ''p''
        (ProviderDeleted 5) = (Inr e', [e] @ [e'])" and "ev_sequenceNumber e' = 2" by auto
  then show ?thesis by (intro exI [of _ e'] exI [of _ "[e]"]) simp
qed

end
