(* ===== verification/Snapshot.thy ===== *)
theory Snapshot
  imports TraefikProvider Secrets
begin

text \<open>
  What a Traefik provider's agent is sent: \<open>domain/traefik-provider/delivery-actions.ts\<close> and
  \<open>snapshot.ts\<close>.

  \<open>String.prototype.localeCompare\<close> is the parameter \<open>lc\<close>; what is used of it is \<open>collation\<close>, that it
  is a total preorder. The casts of \<open>config\<close> read a delivery configuration, whose two fields are
  always present. A JavaScript \<open>Map\<close> is an association list in insertion order. The replays of one
  snapshot see one state of the store.
\<close>

section \<open>Delivery actions\<close>

record DeliveryAction =
  da_actionId :: id
  da_ipClientId :: id
  da_traefikProviderId :: id
  da_group :: string
  da_status :: action_status

definition delivery_provider :: "ActionConfig \<Rightarrow> id" where
  "delivery_provider config = nullish_or (cf_traefikProviderId config) []"

definition delivery_group :: "ActionConfig \<Rightarrow> string" where
  "delivery_group config = nullish_or (cf_group config) []"

text \<open>One turn of the loop: \<open>None\<close> is \<open>continue\<close>.\<close>

definition delivery_action :: "id \<Rightarrow> ActionState \<Rightarrow> DeliveryAction option" where
  "delivery_action actionId state =
     (if ac_type state \<noteq> Some TRAEFIK_CONFIG_DELIVERY_ACTION_TYPE \<or> ac_status state = ActDetached
         \<or> \<not> truthy (ac_ipClientId state)
      then None
      else (case ac_config state of
          None \<Rightarrow> None
        | Some config \<Rightarrow> Some \<lparr>da_actionId = actionId, da_ipClientId = nullish_or (ac_ipClientId state) [],
            da_traefikProviderId = delivery_provider config, da_group = delivery_group config,
            da_status = ac_status state\<rparr>))"

definition listDeliveryActions :: "event_store \<Rightarrow> id \<Rightarrow> DeliveryAction list" where
  "listDeliveryActions rows accountId =
     List.map_filter (\<lambda>actionId. delivery_action actionId (fst (loadAction rows accountId actionId)))
       (listAggregateIds rows accountId ACTION)"

definition providersOfDevice :: "event_store \<Rightarrow> id \<Rightarrow> id \<Rightarrow> id list" where
  "providersOfDevice rows accountId ipClientId =
     uniq (map da_traefikProviderId
       (filter (\<lambda>a. da_ipClientId a = ipClientId) (listDeliveryActions rows accountId)))"

section \<open>Snapshot content\<close>

record SnapshotEntry =
  se_deviceName :: string
  se_ips :: "string list"

record SnapshotGroup =
  sg_key :: string
  sg_entries :: "SnapshotEntry list"

record SnapshotContent =
  sc_providerName :: string
  sc_groups :: "SnapshotGroup list"

definition snapshot_member :: "id \<Rightarrow> ActionState \<Rightarrow> (string \<times> id) option" where
  "snapshot_member providerId state =
     (if ac_type state \<noteq> Some TRAEFIK_CONFIG_DELIVERY_ACTION_TYPE \<or> ac_status state \<noteq> ActEnabled
         \<or> \<not> truthy (ac_ipClientId state)
      then None
      else (case ac_config state of
          None \<Rightarrow> None
        | Some config \<Rightarrow> if delivery_provider config \<noteq> providerId then None
            else Some (delivery_group config, nullish_or (ac_ipClientId state) [])))"

definition snapshot_members :: "event_store \<Rightarrow> id \<Rightarrow> id \<Rightarrow> (string \<times> id) list" where
  "snapshot_members rows accountId providerId =
     List.map_filter (\<lambda>actionId. snapshot_member providerId (fst (loadAction rows accountId actionId)))
       (listAggregateIds rows accountId ACTION)"

text \<open>A device's label and addresses, or nothing when it is not usable.\<close>

definition known_ips :: "IpClientState \<Rightarrow> string list" where
  "known_ips state = filter (\<lambda>ip. ip \<noteq> []) (List.map_filter (\<lambda>x. x) [ic_lastKnownIPv4 state, ic_lastKnownIPv6 state])"

definition device_info :: "id \<Rightarrow> IpClientState \<Rightarrow> SnapshotEntry option" where
  "device_info ipClientId state =
     (if ic_status state = IcEnabled \<and> known_ips state \<noteq> []
      then Some \<lparr>se_deviceName = or_default (js_trim (ic_label state)) ipClientId, se_ips = known_ips state\<rparr>
      else None)"

definition device :: "event_store \<Rightarrow> id \<Rightarrow> id \<Rightarrow> SnapshotEntry option" where
  "device rows accountId ipClientId = device_info ipClientId (fst (loadIpClient rows accountId ipClientId))"

type_synonym device_cache = "(id \<times> SnapshotEntry option) list"
type_synonym by_group = "(string \<times> (id \<times> SnapshotEntry) list) list"

definition cached_device :: "event_store \<Rightarrow> id \<Rightarrow> device_cache \<Rightarrow> id \<Rightarrow> SnapshotEntry option \<times> device_cache" where
  "cached_device rows accountId cache ipClientId = (case map_of cache ipClientId of
       Some v \<Rightarrow> (v, cache)
     | None \<Rightarrow> let v = device rows accountId ipClientId in (v, AList.update ipClientId v cache))"

definition put_member :: "by_group \<Rightarrow> string \<Rightarrow> id \<Rightarrow> SnapshotEntry \<Rightarrow> by_group" where
  "put_member byGroup g ipClientId info =
     AList.update g (AList.update ipClientId info (nullish_or (map_of byGroup g) [])) byGroup"

fun collect_groups ::
  "event_store \<Rightarrow> id \<Rightarrow> device_cache \<Rightarrow> by_group \<Rightarrow> (string \<times> id) list \<Rightarrow> by_group" where
  "collect_groups rows accountId cache byGroup [] = byGroup"
| "collect_groups rows accountId cache byGroup ((g, i) # members) =
     (case cached_device rows accountId cache i of
        (None, cache') \<Rightarrow> collect_groups rows accountId cache' byGroup members
      | (Some info, cache') \<Rightarrow> collect_groups rows accountId cache' (put_member byGroup g i info) members)"

definition entry_le :: "(string \<Rightarrow> string \<Rightarrow> int) \<Rightarrow> id \<times> SnapshotEntry \<Rightarrow> id \<times> SnapshotEntry \<Rightarrow> bool" where
  "entry_le lc = (\<lambda>(idA, a) (idB, b). let c = lc (se_deviceName a) (se_deviceName b) in
     if c \<noteq> 0 then c < 0 else idA \<le> idB)"

definition group_le :: "string \<times> 'a \<Rightarrow> string \<times> 'a \<Rightarrow> bool" where
  "group_le p q = str_le (fst p) (fst q)"

definition sorted_groups :: "(string \<Rightarrow> string \<Rightarrow> int) \<Rightarrow> by_group \<Rightarrow> SnapshotGroup list" where
  "sorted_groups lc byGroup =
     map (\<lambda>(key, entries). \<lparr>sg_key = key, sg_entries = map snd (sort_by (entry_le lc) entries)\<rparr>)
       (sort_by group_le byGroup)"

definition buildSnapshotContent ::
  "(string \<Rightarrow> string \<Rightarrow> int) \<Rightarrow> event_store \<Rightarrow> id \<Rightarrow> id \<Rightarrow> string \<Rightarrow> SnapshotContent" where
  "buildSnapshotContent lc rows accountId providerId providerName =
     \<lparr>sc_providerName = providerName,
      sc_groups = sorted_groups lc (collect_groups rows accountId [] [] (snapshot_members rows accountId providerId))\<rparr>"

section \<open>Serialised content\<close>

definition entry_json :: "SnapshotEntry \<Rightarrow> json" where
  "entry_json e = JObj [(''deviceName'', JStr (se_deviceName e)), (''ips'', JArr (map JStr (se_ips e)))]"

definition group_json :: "SnapshotGroup \<Rightarrow> json" where
  "group_json g = JObj [(''key'', JStr (sg_key g)), (''entries'', JArr (map entry_json (sg_entries g)))]"

definition content_json :: "SnapshotContent \<Rightarrow> json" where
  "content_json c = JObj [(''providerName'', JStr (sc_providerName c)), (''groups'', JArr (map group_json (sc_groups c)))]"

definition snapshotContentHash :: "crypto \<Rightarrow> SnapshotContent \<Rightarrow> string" where
  "snapshotContentHash cr content = sha256hex cr (json_stringify (content_json content))"

definition group_count :: "SnapshotContent \<Rightarrow> nat" where
  "group_count content = length (sc_groups content)"

definition entry_count :: "SnapshotContent \<Rightarrow> nat" where
  "entry_count content = foldl (\<lambda>sum g. sum + length (sg_entries g)) 0 (sc_groups content)"

definition snapshotApproxBytes :: "SnapshotContent \<Rightarrow> nat" where
  "snapshotApproxBytes content = utf8_length (json_stringify (content_json content))"

section \<open>Lemmas\<close>

lemma json_fields_inject [simp]:
  "entry_json e = entry_json e' \<longleftrightarrow> e = e'"
  "group_json g = group_json g' \<longleftrightarrow> g = g'"
  "content_json c = content_json c' \<longleftrightarrow> c = c'"
proof -
  have strs: "map JStr xs = map JStr ys \<longleftrightarrow> xs = ys" for xs ys
    by (rule inj_map_eq_map) (simp add: inj_on_def)
  show entry: "entry_json e = entry_json e' \<longleftrightarrow> e = e'" for e e'
    by (cases e; cases e') (simp add: entry_json_def strs)
  then have entries: "map entry_json xs = map entry_json ys \<longleftrightarrow> xs = ys" for xs ys
    by (intro inj_map_eq_map) (simp add: inj_on_def)
  show grp: "group_json g = group_json g' \<longleftrightarrow> g = g'" for g g'
    by (cases g; cases g') (simp add: group_json_def entries)
  then have groups: "map group_json xs = map group_json ys \<longleftrightarrow> xs = ys" for xs ys
    by (intro inj_map_eq_map) (simp add: inj_on_def)
  show "content_json c = content_json c' \<longleftrightarrow> c = c'"
    by (cases c; cases c') (simp add: content_json_def groups)
qed

lemma content_no_numbers: "no_numbers (content_json c)"
  by (simp add: content_json_def group_json_def entry_json_def list_all_iff)

lemma set_map_filter: "set (List.map_filter f xs) = {y. \<exists>x \<in> set xs. f x = Some y}"
  by (induction xs) (auto simp: List.map_filter_simps split: option.splits)

text \<open>An action that was never attached is in no snapshot, so the list of ids does not matter.\<close>

lemma loadAction_empty: "readStream rows (stream acc ACTION i) = [] \<Longrightarrow> fst (loadAction rows acc i) = initialActionState"
  by (simp add: loadAction_def loadAggregate_def)

lemma snapshot_members_set:
  "set (snapshot_members rows acc p) = {m. \<exists>i. snapshot_member p (fst (loadAction rows acc i)) = Some m}"
proof -
  have "snapshot_member p (fst (loadAction rows acc i)) = None" if "readStream rows (stream acc ACTION i) = []" for i
    using that by (simp add: loadAction_empty snapshot_member_def initialActionState_def)
  then show ?thesis
    unfolding snapshot_members_def set_map_filter set_listAggregateIds by fastforce
qed

text \<open>The cache never answers anything but the replay.\<close>

definition cache_ok :: "event_store \<Rightarrow> id \<Rightarrow> device_cache \<Rightarrow> bool" where
  "cache_ok rows acc cache = (\<forall>i v. map_of cache i = Some v \<longrightarrow> v = device rows acc i)"

lemma cached_device_eq:
  assumes "cache_ok rows acc cache"
  shows "fst (cached_device rows acc cache i) = device rows acc i"
    and "cache_ok rows acc (snd (cached_device rows acc cache i))"
  using assms by (auto simp: cached_device_def cache_ok_def Let_def split: option.splits)

fun collect_reference :: "(id \<Rightarrow> SnapshotEntry option) \<Rightarrow> by_group \<Rightarrow> (string \<times> id) list \<Rightarrow> by_group" where
  "collect_reference dev byGroup [] = byGroup"
| "collect_reference dev byGroup ((g, i) # members) = (case dev i of
     None \<Rightarrow> collect_reference dev byGroup members
   | Some info \<Rightarrow> collect_reference dev (put_member byGroup g i info) members)"

lemma collect_groups_reference:
  "cache_ok rows acc cache \<Longrightarrow>
   collect_groups rows acc cache byGroup members = collect_reference (device rows acc) byGroup members"
proof (induction members arbitrary: cache byGroup)
  case (Cons m members)
  obtain g i where m: "m = (g, i)" by (cases m)
  obtain v cache' where c: "cached_device rows acc cache i = (v, cache')" by fastforce
  from cached_device_eq [OF Cons.prems, of i] c have "v = device rows acc i" "cache_ok rows acc cache'" by simp_all
  with Cons.IH c m show ?case by (simp split: option.split)
qed simp

text \<open>Group and entry as a double lookup.\<close>

definition lookup2 :: "by_group \<Rightarrow> string \<Rightarrow> id \<Rightarrow> SnapshotEntry option" where
  "lookup2 byGroup g i = (case map_of byGroup g of None \<Rightarrow> None | Some es \<Rightarrow> map_of es i)"

lemma lookup2_Nil: "lookup2 [] g i = None"
  by (simp add: lookup2_def)

lemma lookup2_put: "lookup2 (put_member bg g i info) g' i' = (if g' = g \<and> i' = i then Some info else lookup2 bg g' i')"
  by (auto simp: lookup2_def put_member_def split: option.split)

lemma lookup2_collect:
  "lookup2 (collect_reference dev bg ms) g i =
     (if (g, i) \<in> set ms \<and> dev i \<noteq> None then dev i else lookup2 bg g i)"
  by (induction dev bg ms rule: collect_reference.induct) (auto simp: lookup2_put split: option.splits)

text \<open>Keys stay distinct, and no group is empty.\<close>

definition wf_groups :: "by_group \<Rightarrow> bool" where
  "wf_groups bg = (distinct (map fst bg) \<and> (\<forall>(g, es) \<in> set bg. distinct (map fst es) \<and> es \<noteq> []))"

lemma set_update_subset: "set (AList.update k v al) \<subseteq> insert (k, v) (set al)"
  by (induction al) auto

lemma wf_groups_put: "wf_groups bg \<Longrightarrow> wf_groups (put_member bg g i info)"
proof -
  assume wf: "wf_groups bg"
  let ?es = "nullish_or (map_of bg g) []"
  let ?new = "AList.update i info ?es"
  have "distinct (map fst ?es)"
    using wf by (cases "map_of bg g") (auto simp: wf_groups_def dest: map_of_SomeD)
  then have "distinct (map fst ?new)" by (rule distinct_update)
  moreover have "?new \<noteq> []" "[] \<noteq> ?new" by (cases ?es; auto)+
  moreover have "distinct (map fst (put_member bg g i info))"
    unfolding put_member_def using wf by (intro distinct_update) (simp add: wf_groups_def)
  moreover have "set (put_member bg g i info) \<subseteq> insert (g, ?new) (set bg)"
    unfolding put_member_def by (rule set_update_subset)
  ultimately show "wf_groups (put_member bg g i info)"
    using wf unfolding wf_groups_def by (intro conjI ballI) (auto dest!: subsetD)
qed

lemma wf_groups_collect: "wf_groups bg \<Longrightarrow> wf_groups (collect_reference dev bg ms)"
  by (induction dev bg ms rule: collect_reference.induct) (auto simp: wf_groups_put split: option.split)

abbreviation collected :: "event_store \<Rightarrow> id \<Rightarrow> id \<Rightarrow> by_group" where
  "collected rows acc p \<equiv> collect_reference (device rows acc) [] (snapshot_members rows acc p)"

lemma buildSnapshotContent_reference:
  "buildSnapshotContent lc rows acc p n = \<lparr>sc_providerName = n, sc_groups = sorted_groups lc (collected rows acc p)\<rparr>"
  by (simp add: buildSnapshotContent_def collect_groups_reference cache_ok_def)

lemma wf_collected: "wf_groups (collected rows acc p)"
  by (rule wf_groups_collect) (simp add: wf_groups_def)

lemma lookup2_collected:
  "lookup2 (collected rows acc p) g i = Some e \<longleftrightarrow>
     (g, i) \<in> set (snapshot_members rows acc p) \<and> device rows acc i = Some e"
  by (auto simp: lookup2_collect lookup2_Nil)

lemma in_groups_lookup2:
  "wf_groups bg \<Longrightarrow> (\<exists>es. (g, es) \<in> set bg \<and> (i, e) \<in> set es) \<longleftrightarrow> lookup2 bg g i = Some e"
  by (auto simp: wf_groups_def lookup2_def dest!: map_of_SomeD split: option.splits)
     (metis (no_types, lifting) case_prodD map_of_is_SomeI option.inject option.distinct(1))+

section \<open>Order\<close>

text \<open>What is used of \<open>localeCompare\<close>: comparing is antisymmetric in sign and transitive.\<close>

definition collation :: "(string \<Rightarrow> string \<Rightarrow> int) \<Rightarrow> bool" where
  "collation lc = ((\<forall>a b. lc a b < 0 \<longleftrightarrow> lc b a > 0) \<and> (\<forall>a b c. lc a b \<le> 0 \<longrightarrow> lc b c \<le> 0 \<longrightarrow> lc a c \<le> 0))"

definition code_point_compare :: "string \<Rightarrow> string \<Rightarrow> int" where
  "code_point_compare a b = (if a < b then -1 else if a = b then 0 else 1)"

lemma code_point_collation: "collation code_point_compare"
  by (auto simp: collation_def code_point_compare_def split: if_splits)

lemma collation_zero:
  assumes "collation lc"
  shows "lc a b = 0 \<longleftrightarrow> lc b a = 0"
proof -
  have "lc a b < 0 \<longleftrightarrow> lc b a > 0" "lc b a < 0 \<longleftrightarrow> lc a b > 0"
    using assms unfolding collation_def by blast+
  then show ?thesis by linarith
qed

lemma entry_le_cases:
  "entry_le lc (i, e) (j, f) \<longleftrightarrow>
     lc (se_deviceName e) (se_deviceName f) < 0 \<or> lc (se_deviceName e) (se_deviceName f) = 0 \<and> i \<le> j"
  by (auto simp: entry_le_def Let_def)

lemma entry_order:
  assumes "collation lc"
  shows "comparator_order (entry_le lc)"
proof
  note sgn = assms [unfolded collation_def]
  fix x y z :: "id \<times> SnapshotEntry"
  obtain i e j f k g where x: "x = (i, e)" and y: "y = (j, f)" and z: "z = (k, g)"
    by (cases x; cases y; cases z) blast
  let ?l = "\<lambda>e f. lc (se_deviceName e) (se_deviceName f)"
  show "entry_le lc x y \<or> entry_le lc y x"
  proof -
    have "?l e f < 0 \<longleftrightarrow> ?l f e > 0" using sgn by blast
    then show ?thesis
      unfolding x y entry_le_cases using collation_zero [OF assms, of "se_deviceName e" "se_deviceName f"] linear [of i j]
      by linarith
  qed
  show "entry_le lc x z" if "entry_le lc x y" "entry_le lc y z"
  proof -
    from that have le: "?l e f \<le> 0" "?l f g \<le> 0" unfolding x y z entry_le_cases by auto
    then have eg: "?l e g \<le> 0" using sgn by blast
    show ?thesis
    proof (cases "?l e g = 0")
      case True
      then have "?l g e \<le> 0" using collation_zero [OF assms, of "se_deviceName e" "se_deviceName g"] by simp
      with le sgn have "?l f e \<le> 0" "?l g f \<le> 0" by blast+
      moreover have "?l e f < 0 \<longleftrightarrow> ?l f e > 0" "?l f g < 0 \<longleftrightarrow> ?l g f > 0" using sgn by blast+
      ultimately have "?l e f = 0" "?l f g = 0" using le by linarith+
      with that True show ?thesis unfolding x y z entry_le_cases by auto
    next
      case False
      with eg show ?thesis unfolding x z entry_le_cases by simp
    qed
  qed
qed

interpretation group_le: comparator_order "group_le :: string \<times> 'a \<Rightarrow> string \<times> 'a \<Rightarrow> bool"
  by unfold_locales (use str_le.le_total str_le.le_trans in \<open>auto simp: group_le_def\<close>)

text \<open>
  Two maps with the same contents have the same sorted form, whatever their insertion orders.
\<close>

lemma sorted_entries_unique:
  assumes "collation lc" and "distinct (map fst es)" and "distinct (map fst fs)" and same: "map_of es = map_of fs"
  shows "sort_by (entry_le lc) es = sort_by (entry_le lc) fs"
proof (rule comparator_order.sort_by_unique [OF entry_order [OF assms(1)]])
  show "set es = set fs" using same by (simp add: map_of_inject_set assms(2,3))
  show "distinct es" "distinct fs" using assms(2,3) by (simp_all add: distinct_map)
  fix x y
  assume x: "x \<in> set es" and y: "y \<in> set es" and le: "entry_le lc x y" "entry_le lc y x"
  have "fst x = fst y"
    using le by (cases x; cases y) (auto simp: entry_le_cases collation_zero [OF assms(1)] dest: assms(1) [unfolded collation_def, THEN conjunct1, rule_format, THEN iffD1])
  with x y assms(2) show "x = y" by (metis eq_key_imp_eq_value prod.collapse)
qed

lemma sorted_groups_normal:
  "sorted_groups lc bg = map (\<lambda>(key, entries). \<lparr>sg_key = key, sg_entries = map snd entries\<rparr>)
     (sort_by group_le (map (\<lambda>(g, es). (g, sort_by (entry_le lc) es)) bg))"
proof -
  have "sort_by group_le (map (\<lambda>(g, es). (g, sort_by (entry_le lc) es)) bg) =
      map (\<lambda>(g, es). (g, sort_by (entry_le lc) es)) (sort_by group_le bg)"
    by (rule sort_by_map) (simp add: group_le_def case_prod_beta)
  then show ?thesis by (simp add: sorted_groups_def case_prod_beta comp_def)
qed

lemma lookup2_group:
  assumes "wf_groups bg" and "(g, es) \<in> set bg"
  shows "map_of es = lookup2 bg g"
  using assms by (auto simp: wf_groups_def lookup2_def fun_eq_iff)

lemma groups_subset:
  assumes "collation lc" and wf: "wf_groups bg" "wf_groups bg'" and same: "lookup2 bg = lookup2 bg'"
  shows "set (map (\<lambda>(g, es). (g, sort_by (entry_le lc) es)) bg) \<subseteq> set (map (\<lambda>(g, es). (g, sort_by (entry_le lc) es)) bg')"
proof
  fix x
  assume "x \<in> set (map (\<lambda>(g, es). (g, sort_by (entry_le lc) es)) bg)"
  then obtain g es where x: "x = (g, sort_by (entry_le lc) es)" and mem: "(g, es) \<in> set bg" by auto
  from wf(1) mem have "es \<noteq> []" and d: "distinct (map fst es)" by (auto simp: wf_groups_def)
  then obtain i e es' where "es = (i, e) # es'" by (cases es) auto
  then have "map_of es i = Some e" by simp
  then have "lookup2 bg' g i = Some e" using lookup2_group [OF wf(1) mem] same by simp
  then obtain es' where mem': "(g, es') \<in> set bg'" using in_groups_lookup2 [OF wf(2)] by blast
  with wf(2) have d': "distinct (map fst es')" by (auto simp: wf_groups_def)
  have "map_of es = map_of es'"
    using lookup2_group [OF wf(1) mem] lookup2_group [OF wf(2) mem'] same by simp
  from sorted_entries_unique [OF assms(1) d d' this] x mem'
  show "x \<in> set (map (\<lambda>(g, es). (g, sort_by (entry_le lc) es)) bg')" by force
qed

lemma sorted_groups_unique:
  assumes "collation lc" and wf: "wf_groups bg" "wf_groups bg'" and same: "lookup2 bg = lookup2 bg'"
  shows "sorted_groups lc bg = sorted_groups lc bg'"
proof -
  let ?h = "\<lambda>(g, es). (g, sort_by (entry_le lc) es)"
  have keys: "distinct (map fst (map ?h b))" if "wf_groups b" for b
    using that by (simp add: wf_groups_def comp_def case_prod_beta)
  have "sort_by group_le (map ?h bg) = sort_by group_le (map ?h bg')"
  proof (rule group_le.sort_by_unique)
    show "set (map ?h bg) = set (map ?h bg')"
      using groups_subset [OF assms] groups_subset [OF assms(1) wf(2,1) same [symmetric]] by blast
    show "distinct (map ?h bg)" "distinct (map ?h bg')"
      using keys [OF wf(1)] keys [OF wf(2)] distinct_map by blast+
    fix x y
    assume x: "x \<in> set (map ?h bg)" and y: "y \<in> set (map ?h bg)" and "group_le x y" "group_le y x"
    then have "fst x = fst y" by (auto simp: group_le_def str_le_def)
    with x y keys [OF wf(1)] show "x = y" by (metis eq_key_imp_eq_value prod.collapse)
  qed
  then show ?thesis by (simp only: sorted_groups_normal)
qed

lemma in_sorted_groups:
  "(\<exists>gr \<in> set (sorted_groups lc bg). sg_key gr = g \<and> e \<in> set (sg_entries gr)) \<longleftrightarrow>
     (\<exists>i es. (g, es) \<in> set bg \<and> (i, e) \<in> set es)"
  by (force simp: sorted_groups_def)

lemma sorted_groups_keys:
  assumes "wf_groups bg"
  shows "sorted_wrt (<) (map sg_key (sorted_groups lc bg))" and "\<forall>gr \<in> set (sorted_groups lc bg). sg_entries gr \<noteq> []"
proof -
  have keys: "map sg_key (sorted_groups lc bg) = map fst (sort_by group_le bg)"
    by (simp add: sorted_groups_def comp_def case_prod_beta)
  have "sorted (map fst (sort_by group_le bg))"
    using group_le.sorted_sort_by [of bg] by (simp add: sorted_map group_le_def [abs_def] str_le_def)
  moreover have "distinct (map fst (sort_by group_le bg))"
  proof -
    have "inj_on fst (set bg) \<and> distinct bg" using assms by (simp add: wf_groups_def distinct_map)
    then show ?thesis by (simp add: distinct_map)
  qed
  ultimately show "sorted_wrt (<) (map sg_key (sorted_groups lc bg))"
    unfolding keys by (simp add: strict_sorted_iff)
  show "\<forall>gr \<in> set (sorted_groups lc bg). sg_entries gr \<noteq> []"
  proof
    fix gr
    assume "gr \<in> set (sorted_groups lc bg)"
    then obtain g es where "(g, es) \<in> set bg" and gr: "sg_entries gr = map snd (sort_by (entry_le lc) es)"
      by (auto simp: sorted_groups_def)
    then have "length es \<noteq> 0" using assms by (auto simp: wf_groups_def)
    then have "length (sg_entries gr) \<noteq> 0" unfolding gr by simp
    then show "sg_entries gr \<noteq> []" by auto
  qed
qed

section \<open>Properties\<close>

text \<open>C4. A snapshot is complete and contains nothing else: a group has an entry exactly for an attached,
  enabled delivery action of that group and provider whose device is enabled and has a known address, and
  the entry is the device's (trimmed) label, or its id where the label is blank, with its known addresses.\<close>
theorem snapshot_complete:
  "(\<exists>gr \<in> set (sc_groups (buildSnapshotContent lc rows acc p providerName)). sg_key gr = g \<and> e \<in> set (sg_entries gr)) \<longleftrightarrow>
   (\<exists>actionId i config. let a = fst (loadAction rows acc actionId); d = fst (loadIpClient rows acc i) in
      ac_type a = Some TRAEFIK_CONFIG_DELIVERY_ACTION_TYPE \<and> ac_status a = ActEnabled
      \<and> ac_ipClientId a = Some i \<and> i \<noteq> [] \<and> ac_config a = Some config
      \<and> delivery_provider config = p \<and> delivery_group config = g
      \<and> ic_status d = IcEnabled \<and> known_ips d \<noteq> []
      \<and> e = \<lparr>se_deviceName = or_default (js_trim (ic_label d)) i, se_ips = known_ips d\<rparr>)"
proof -
  have member: "snapshot_member p a = Some (g, i) \<longleftrightarrow>
      ac_type a = Some TRAEFIK_CONFIG_DELIVERY_ACTION_TYPE \<and> ac_status a = ActEnabled \<and> ac_ipClientId a = Some i \<and> i \<noteq> []
      \<and> (\<exists>config. ac_config a = Some config \<and> delivery_provider config = p \<and> delivery_group config = g)" for a i
    by (cases "ac_ipClientId a") (auto simp: snapshot_member_def split: option.splits)
  have dev: "device rows acc i = Some e \<longleftrightarrow> (let d = fst (loadIpClient rows acc i) in
      ic_status d = IcEnabled \<and> known_ips d \<noteq> []
      \<and> e = \<lparr>se_deviceName = or_default (js_trim (ic_label d)) i, se_ips = known_ips d\<rparr>)" for i
    by (auto simp: device_def device_info_def Let_def)
  have "(\<exists>gr \<in> set (sc_groups (buildSnapshotContent lc rows acc p providerName)). sg_key gr = g \<and> e \<in> set (sg_entries gr)) \<longleftrightarrow>
      (\<exists>i. lookup2 (collected rows acc p) g i = Some e)"
    unfolding buildSnapshotContent_reference SnapshotContent.simps in_sorted_groups
    using in_groups_lookup2 [OF wf_collected] by blast
  also have "\<dots> \<longleftrightarrow> (\<exists>i actionId. snapshot_member p (fst (loadAction rows acc actionId)) = Some (g, i) \<and> device rows acc i = Some e)"
    unfolding lookup2_collected snapshot_members_set by blast
  finally show ?thesis unfolding member dev Let_def by blast
qed

text \<open>Equal states serialise, and hash, identically: the content depends only on the replayed states of the
  account's actions and devices, not on the order in which the store lists ids or in which anything was
  attached, and within it the groups are in strictly increasing order of their keys and none is empty.\<close>
theorem snapshot_canonical:
  assumes "collation lc"
    and "\<forall>i. fst (loadAction rows acc i) = fst (loadAction rows' acc i)"
    and "\<forall>i. fst (loadIpClient rows acc i) = fst (loadIpClient rows' acc i)"
  shows "buildSnapshotContent lc rows acc p n = buildSnapshotContent lc rows' acc p n
    \<and> sorted_wrt (<) (map sg_key (sc_groups (buildSnapshotContent lc rows acc p n)))
    \<and> (\<forall>gr \<in> set (sc_groups (buildSnapshotContent lc rows acc p n)). sg_entries gr \<noteq> [])"
proof -
  have "device rows acc = device rows' acc" using assms(3) by (simp add: device_def fun_eq_iff)
  moreover have "set (snapshot_members rows acc p) = set (snapshot_members rows' acc p)"
    using assms(2) by (simp add: snapshot_members_set)
  ultimately have "lookup2 (collected rows acc p) = lookup2 (collected rows' acc p)"
    by (simp add: fun_eq_iff lookup2_collect lookup2_Nil)
  from sorted_groups_unique [OF assms(1) wf_collected wf_collected this]
  have "buildSnapshotContent lc rows acc p n = buildSnapshotContent lc rows' acc p n"
    by (simp add: buildSnapshotContent_reference)
  moreover note sorted_groups_keys [OF wf_collected, of lc rows acc p]
  ultimately show ?thesis by (simp add: buildSnapshotContent_reference)
qed

definition sample_rows :: "stored_event list" where
  "sample_rows =
     [sample_row ''e1'' ''acc'' ''a1'' 1 (sample_attach ''acc'' ''a1'' ''d1'' ''p'' ''web''),
      sample_row ''e2'' ''acc'' ''a2'' 1 (sample_attach ''acc'' ''a2'' ''d2'' ''p'' ''api''),
      sample_row ''e3'' ''acc'' ''d1'' 1 (sample_change ''1.2.3.4'')]"

lemma snapshot_canonical_witness:
  "buildSnapshotContent code_point_compare sample_rows ''acc'' ''p'' ''home'' =
   buildSnapshotContent code_point_compare (rev sample_rows) ''acc'' ''p'' ''home''"
proof -
  have "readStream sample_rows (stream ''acc'' t i) = readStream (rev sample_rows) (stream ''acc'' t i)" for t i
    by (cases t; cases "i = ''a1''"; cases "i = ''a2''")
      (auto simp: readStream_def sample_rows_def in_stream_def)
  then have "\<forall>i. fst (loadAction sample_rows ''acc'' i) = fst (loadAction (rev sample_rows) ''acc'' i)"
    "\<forall>i. fst (loadIpClient sample_rows ''acc'' i) = fst (loadIpClient (rev sample_rows) ''acc'' i)"
    by (simp_all add: load_defs Let_def)
  from snapshot_canonical [OF code_point_collation this, of "''p''" "''home''"] show ?thesis by blast
qed

text \<open>An unchanged hash means unchanged content, so nothing is lost when a publication is skipped: two contents
  with the same hash are equal, or SHA-256 collides on their two different JSON texts.\<close>
theorem snapshot_hash_determines_content:
  assumes "snapshotContentHash cr content = snapshotContentHash cr content'"
  shows "content = content'
    \<or> (\<exists>s t. s \<noteq> t \<and> sha256hex cr s = sha256hex cr t \<and> s = json_stringify (content_json content))"
proof (cases "json_stringify (content_json content) = json_stringify (content_json content')")
  case True
  from json_stringify_inject [OF content_no_numbers content_no_numbers this] show ?thesis by simp
qed (use assms in \<open>auto simp: snapshotContentHash_def\<close>)

lemma snapshot_hash_determines_content_witness:
  "snapshotContentHash sample_crypto \<lparr>sc_providerName = ''p'', sc_groups = []\<rparr> =
     snapshotContentHash sample_crypto (buildSnapshotContent code_point_compare [] ''acc'' ''p'' ''p'')
   \<and> \<lparr>sc_providerName = ''p'', sc_groups = []\<rparr> = buildSnapshotContent code_point_compare [] ''acc'' ''p'' ''p''"
proof -
  have "buildSnapshotContent code_point_compare [] ''acc'' ''p'' ''p'' = \<lparr>sc_providerName = ''p'', sc_groups = []\<rparr>"
    by (simp add: buildSnapshotContent_def snapshot_members_def listAggregateIds_def sorted_groups_def map_filter_simps)
  with snapshot_hash_determines_content [of sample_crypto "\<lparr>sc_providerName = ''p'', sc_groups = []\<rparr>"
      "buildSnapshotContent code_point_compare [] ''acc'' ''p'' ''p''"]
  show ?thesis by simp
qed

end
