(* ===== verification/Publisher.thy ===== *)
theory Publisher
  imports Snapshot
begin

text \<open>
  Publishing snapshots: \<open>SnapshotPublisher.publish\<close> and \<open>publishNow\<close>
  (\<open>adapters/queue-bullmq/snapshot-publisher.ts\<close>).

  A call runs under the per-provider mutex, so it is one step on the store. \<open>tk 0\<close> is the clock and
  the fresh correlation id, \<open>tk 1\<close> the tick of the appended event. The first component of a result is
  what the call returns or throws.
\<close>

record SnapshotPayload =
  sp_content :: SnapshotContent
  sp_version :: nat
  sp_correlationId :: id
  sp_generatedAt :: timestamp

record PublishResult =
  pr_snapshot :: SnapshotPayload
  pr_changed :: bool

definition absorbed_field :: "id list \<Rightarrow> id list option" where
  "absorbed_field absorbed = (if length absorbed > 0 then Some absorbed else None)"

text \<open>The part after the comparison of hashes: a new version, or the recorded failure.\<close>

definition publish_new ::
  "crypto \<Rightarrow> Config \<Rightarrow> (nat \<Rightarrow> tick) \<Rightarrow> event_store \<Rightarrow> id \<Rightarrow> id \<Rightarrow> id option \<Rightarrow> id list \<Rightarrow> SnapshotContent \<Rightarrow>
   (exn + PublishResult option) \<times> event_store" where
  "publish_new cr config tk rows accountId providerId causationId absorbed content =
     (let correlationId = nullish_or causationId (tk_id (tk 0));
          now = tk_now (tk 0);
          size = snapshotApproxBytes content in
      if int size > cfg_agentSnapshotMaxBytes config
      then (case provider_append config (tk 1) rows accountId providerId
              (SnapshotPublishFailed \<lparr>pbf_reason = TooLarge, pbf_correlationId = correlationId,
                 pbf_absorbedCausationIds = absorbed_field absorbed, pbf_failedAt = now\<rparr>) of
            (Inl err, rows') \<Rightarrow> (Inl err, rows')
          | (Inr e, rows') \<Rightarrow> (Inr None, rows'))
      else (case provider_append config (tk 1) rows accountId providerId
              (SnapshotPublished \<lparr>pub_contentHash = snapshotContentHash cr content,
                 pub_groupCount = group_count content, pub_entryCount = entry_count content,
                 pub_correlationId = correlationId, pub_absorbedCausationIds = absorbed_field absorbed,
                 pub_publishedAt = now\<rparr>) of
            (Inl err, rows') \<Rightarrow> (Inl err, rows')
          | (Inr e, rows') \<Rightarrow>
              (Inr (Some \<lparr>pr_snapshot = \<lparr>sp_content = content, sp_version = ev_sequenceNumber e,
                 sp_correlationId = correlationId, sp_generatedAt = now\<rparr>, pr_changed = True\<rparr>), rows')))"

definition publish ::
  "(string \<Rightarrow> string \<Rightarrow> int) \<Rightarrow> crypto \<Rightarrow> Config \<Rightarrow> (nat \<Rightarrow> tick) \<Rightarrow> event_store \<Rightarrow> id \<Rightarrow> id \<Rightarrow> id option \<Rightarrow> id list \<Rightarrow>
   (exn + PublishResult option) \<times> event_store" where
  "publish lc cr config tk rows accountId providerId causationId absorbed =
     (case provider_loadActive rows accountId providerId of
        None \<Rightarrow> (Inr None, rows)
      | Some loaded \<Rightarrow>
        (let state = ld_state loaded;
             content = buildSnapshotContent lc rows accountId providerId (tp_name state);
             contentHash = snapshotContentHash cr content in
         case tp_lastPublished state of
           Some published \<Rightarrow>
             if lp_contentHash published = contentHash
             then (Inr (Some \<lparr>pr_snapshot = \<lparr>sp_content = content, sp_version = lp_version published,
                     sp_correlationId = lp_correlationId published, sp_generatedAt = lp_publishedAt published\<rparr>,
                     pr_changed = False\<rparr>), rows)
             else publish_new cr config tk rows accountId providerId causationId absorbed content
         | None \<Rightarrow> publish_new cr config tk rows accountId providerId causationId absorbed content))"

definition publishNow ::
  "(string \<Rightarrow> string \<Rightarrow> int) \<Rightarrow> crypto \<Rightarrow> Config \<Rightarrow> (nat \<Rightarrow> tick) \<Rightarrow> event_store \<Rightarrow> id \<Rightarrow> id \<Rightarrow> id option \<Rightarrow>
   (exn + SnapshotPayload option) \<times> event_store" where
  "publishNow lc cr config tk rows accountId providerId causationId =
     (case publish lc cr config tk rows accountId providerId causationId [] of
        (Inl err, rows') \<Rightarrow> (Inl err, rows')
      | (Inr r, rows') \<Rightarrow> (Inr (map_option pr_snapshot r), rows'))"

section \<open>Lemmas\<close>

lemma publish_new_cases:
  obtains (conflict) x where "publish_new cr cfg tk rows acc p cause absorbed content = (Inl x, rows)"
  | (too_large) e where "publish_new cr cfg tk rows acc p cause absorbed content = (Inr None, rows @ [e])"
      and "int (snapshotApproxBytes content) > cfg_agentSnapshotMaxBytes cfg"
      and "provider_append cfg (tk 1) rows acc p
        (SnapshotPublishFailed \<lparr>pbf_reason = TooLarge, pbf_correlationId = nullish_or cause (tk_id (tk 0)),
           pbf_absorbedCausationIds = absorbed_field absorbed, pbf_failedAt = tk_now (tk 0)\<rparr>) = (Inr e, rows @ [e])"
  | (published) e where "publish_new cr cfg tk rows acc p cause absorbed content =
        (Inr (Some \<lparr>pr_snapshot = \<lparr>sp_content = content, sp_version = ev_sequenceNumber e,
           sp_correlationId = nullish_or cause (tk_id (tk 0)), sp_generatedAt = tk_now (tk 0)\<rparr>, pr_changed = True\<rparr>), rows @ [e])"
      and "int (snapshotApproxBytes content) \<le> cfg_agentSnapshotMaxBytes cfg"
      and "provider_append cfg (tk 1) rows acc p
        (SnapshotPublished \<lparr>pub_contentHash = snapshotContentHash cr content,
           pub_groupCount = group_count content, pub_entryCount = entry_count content,
           pub_correlationId = nullish_or cause (tk_id (tk 0)), pub_absorbedCausationIds = absorbed_field absorbed,
           pub_publishedAt = tk_now (tk 0)\<rparr>) = (Inr e, rows @ [e])"
proof (cases "int (snapshotApproxBytes content) > cfg_agentSnapshotMaxBytes cfg")
  case True
  show ?thesis
    by (rule provider_append_cases [of cfg "tk 1" rows acc p "SnapshotPublishFailed \<lparr>pbf_reason = TooLarge,
          pbf_correlationId = nullish_or cause (tk_id (tk 0)), pbf_absorbedCausationIds = absorbed_field absorbed,
          pbf_failedAt = tk_now (tk 0)\<rparr>"])
      (use True in \<open>simp_all add: publish_new_def Let_def conflict too_large\<close>)
next
  case False
  show ?thesis
    by (rule provider_append_cases [of cfg "tk 1" rows acc p "SnapshotPublished \<lparr>pub_contentHash = snapshotContentHash cr content,
           pub_groupCount = group_count content, pub_entryCount = entry_count content,
           pub_correlationId = nullish_or cause (tk_id (tk 0)), pub_absorbedCausationIds = absorbed_field absorbed,
           pub_publishedAt = tk_now (tk 0)\<rparr>"])
      (use False in \<open>simp_all add: publish_new_def Let_def conflict published\<close>)
qed

text \<open>A row of the provider's own stream changes nothing a snapshot is built from.\<close>

lemma buildSnapshotContent_provider_append:
  assumes "wf_store rows" and "provider_append cfg tk rows acc p d = (Inr e, rows')"
  shows "buildSnapshotContent lc rows' acc q n = buildSnapshotContent lc rows acc q n"
proof -
  have action: "loadAction rows' acc i = loadAction rows acc i" for i
    using provider_append_state(6) [OF assms, of "stream acc ACTION i"] by (simp add: load_defs)
  have "device rows' acc = device rows acc"
    using provider_append_state(6) [OF assms, of "stream acc IP_CLIENT i" for i] by (simp add: device_def load_defs fun_eq_iff)
  moreover have "snapshot_members rows' acc q = snapshot_members rows acc q"
    using provider_append_state(7) [OF assms, of ACTION] by (simp add: snapshot_members_def action)
  ultimately show ?thesis by (simp add: buildSnapshotContent_reference)
qed

lemma publish_cases:
  obtains (gone) "provider_loadActive rows acc p = None"
      and "publish lc cr cfg tk rows acc p cause absorbed = (Inr None, rows)"
  | (same) loaded published where "provider_loadActive rows acc p = Some loaded"
      and "tp_lastPublished (ld_state loaded) = Some published"
      and "lp_contentHash published = snapshotContentHash cr (buildSnapshotContent lc rows acc p (tp_name (ld_state loaded)))"
      and "publish lc cr cfg tk rows acc p cause absorbed = (Inr (Some \<lparr>pr_snapshot =
            \<lparr>sp_content = buildSnapshotContent lc rows acc p (tp_name (ld_state loaded)), sp_version = lp_version published,
             sp_correlationId = lp_correlationId published, sp_generatedAt = lp_publishedAt published\<rparr>,
             pr_changed = False\<rparr>), rows)"
  | (differs) loaded where "provider_loadActive rows acc p = Some loaded"
      and "publish lc cr cfg tk rows acc p cause absorbed =
        publish_new cr cfg tk rows acc p cause absorbed (buildSnapshotContent lc rows acc p (tp_name (ld_state loaded)))"
      and "\<And>published. tp_lastPublished (ld_state loaded) = Some published \<Longrightarrow>
        lp_contentHash published \<noteq> snapshotContentHash cr (buildSnapshotContent lc rows acc p (tp_name (ld_state loaded)))"
proof (cases "provider_loadActive rows acc p")
  case None
  with gone show ?thesis by (simp add: publish_def)
next
  case (Some l)
  show ?thesis
  proof (cases "tp_lastPublished (ld_state l)")
    case None
    with Some differs show ?thesis by (simp add: publish_def Let_def)
  next
    case p: (Some pub)
    show ?thesis
    proof (cases "lp_contentHash pub = snapshotContentHash cr (buildSnapshotContent lc rows acc p (tp_name (ld_state l)))")
      case True
      with Some p same [of l pub] show ?thesis by (simp add: publish_def Let_def)
    next
      case False
      with Some p differs [of l] show ?thesis by (simp add: publish_def Let_def)
    qed
  qed
qed

lemma provider_loadActive_Some:
  "provider_loadActive rows acc p = Some l \<longleftrightarrow> l = provider_load rows acc p
     \<and> truthy (tp_providerId (ld_state l)) \<and> tp_accountId (ld_state l) = Some acc \<and> tp_status (ld_state l) = TpActive"
  by (auto simp: provider_loadActive_def Let_def)

text \<open>The version of the last snapshot is the number of one of the events read, so at most their count.\<close>

definition version_bounded :: "stored_event list \<Rightarrow> TraefikProviderState \<Rightarrow> bool" where
  "version_bounded es st = (\<forall>l. tp_lastPublished st = Some l \<longrightarrow> lp_version l \<in> ev_sequenceNumber ` set es)"

lemma version_bounded_fold: "version_bounded es (foldl traefikProviderReducer initialTraefikProviderState es)"
proof (induction es rule: rev_induct)
  case Nil
  then show ?case by (simp add: version_bounded_def initialTraefikProviderState_def)
next
  case (snoc e es)
  let ?st = "foldl traefikProviderReducer initialTraefikProviderState es"
  have "tp_lastPublished (traefikProviderReducer ?st e) = tp_lastPublished ?st
      \<or> (\<exists>l. tp_lastPublished (traefikProviderReducer ?st e) = Some l \<and> lp_version l = ev_sequenceNumber e)"
    unfolding traefikProviderReducer_def
    by (cases "(?st, ev_sequenceNumber e, ev_data e)" rule: traefik_provider_apply.cases) auto
  with snoc show ?case by (auto simp: version_bounded_def)
qed

lemma last_version_le:
  assumes "wf_store rows" and "tp_lastPublished (ld_state (provider_load rows acc p)) = Some l"
  shows "lp_version l \<le> ld_version (provider_load rows acc p)"
proof -
  let ?es = "readStream rows (stream acc TRAEFIK_PROVIDER p)"
  have "lp_version l \<in> set (map ev_sequenceNumber ?es)"
    using version_bounded_fold [of ?es] assms(2) by (simp add: version_bounded_def provider_load_simps)
  then show ?thesis
    unfolding readStream_wf(2) [OF assms(1)] provider_load_simps(2) set_upt by simp
qed

section \<open>Properties\<close>

text \<open>A publication the event store does not refuse: a fresh event id, in an aggregate of the account.\<close>

lemma publish_new_alone:
  assumes "wf_store rows" and "tk_id (tk 1) \<notin> ev_id ` set rows"
    and "\<forall>r \<in> set (aggregate_rows rows TRAEFIK_PROVIDER p). ev_accountId r = acc"
  shows "\<exists>r rows'. publish_new cr cfg tk rows acc p cause absorbed content = (Inr r, rows')"
proof (cases "int (snapshotApproxBytes content) > cfg_agentSnapshotMaxBytes cfg")
  case True
  obtain e where "provider_append cfg (tk 1) rows acc p (SnapshotPublishFailed \<lparr>pbf_reason = TooLarge,
      pbf_correlationId = nullish_or cause (tk_id (tk 0)), pbf_absorbedCausationIds = absorbed_field absorbed,
      pbf_failedAt = tk_now (tk 0)\<rparr>) = (Inr e, rows @ [e])"
    using provider_append_alone [OF assms] by blast
  then show ?thesis by (simp add: publish_new_def Let_def True)
next
  case False
  obtain e where "provider_append cfg (tk 1) rows acc p (SnapshotPublished \<lparr>pub_contentHash = snapshotContentHash cr content,
      pub_groupCount = group_count content, pub_entryCount = entry_count content,
      pub_correlationId = nullish_or cause (tk_id (tk 0)), pub_absorbedCausationIds = absorbed_field absorbed,
      pub_publishedAt = tk_now (tk 0)\<rparr>) = (Inr e, rows @ [e])"
    using provider_append_alone [OF assms] by blast
  then show ?thesis by (simp add: publish_new_def Let_def False)
qed

text \<open>What the call that publishes a changed content does: it is refused with the store unchanged, or it
  appends exactly the event of its branch.\<close>

lemma publish_new_outcomes:
  assumes wf: "wf_store rows" and new: "publish_new cr cfg tk rows acc p cause absorbed content = (res, rows')"
  shows "(\<exists>err. res = Inl err \<and> rows' = rows)
    \<or> (int (snapshotApproxBytes content) > cfg_agentSnapshotMaxBytes cfg \<and> res = Inr None \<and>
        (\<exists>e. rows' = rows @ [e] \<and> ev_data e = ProviderEv (SnapshotPublishFailed \<lparr>pbf_reason = TooLarge,
          pbf_correlationId = nullish_or cause (tk_id (tk 0)), pbf_absorbedCausationIds = absorbed_field absorbed,
          pbf_failedAt = tk_now (tk 0)\<rparr>)))
    \<or> (int (snapshotApproxBytes content) \<le> cfg_agentSnapshotMaxBytes cfg \<and>
        (\<exists>e. rows' = rows @ [e] \<and> ev_data e = ProviderEv (SnapshotPublished
            \<lparr>pub_contentHash = snapshotContentHash cr content, pub_groupCount = group_count content,
             pub_entryCount = entry_count content, pub_correlationId = nullish_or cause (tk_id (tk 0)),
             pub_absorbedCausationIds = absorbed_field absorbed, pub_publishedAt = tk_now (tk 0)\<rparr>)
          \<and> ev_sequenceNumber e = Suc (ld_version (provider_load rows acc p))
          \<and> res = Inr (Some \<lparr>pr_snapshot = \<lparr>sp_content = content, sp_version = ev_sequenceNumber e,
              sp_correlationId = nullish_or cause (tk_id (tk 0)), sp_generatedAt = tk_now (tk 0)\<rparr>, pr_changed = True\<rparr>)
          \<and> tp_lastPublished (ld_state (provider_load rows' acc p)) = Some \<lparr>lp_version = ev_sequenceNumber e,
              lp_contentHash = snapshotContentHash cr content, lp_correlationId = nullish_or cause (tk_id (tk 0)),
              lp_publishedAt = tk_now (tk 0)\<rparr>))"
proof (cases rule: publish_new_cases [of cr cfg tk rows acc p cause absorbed content])
  case (conflict x)
  with new show ?thesis by auto
next
  case (too_large e)
  note ok = provider_append_state(3) [OF wf too_large(3)]
  from too_large new have "res = Inr None" "rows' = rows @ [e]" by simp_all
  with ok too_large(2) show ?thesis by blast
next
  case (published e)
  note ok = provider_append_state(3-5) [OF wf published(3)]
  from published(1) new have r: "rows' = rows @ [e]" "res = Inr (Some \<lparr>pr_snapshot = \<lparr>sp_content = content,
      sp_version = ev_sequenceNumber e, sp_correlationId = nullish_or cause (tk_id (tk 0)),
      sp_generatedAt = tk_now (tk 0)\<rparr>, pr_changed = True\<rparr>)" by simp_all
  from ok(3) r(1) have "tp_lastPublished (ld_state (provider_load rows' acc p)) = Some \<lparr>lp_version = ev_sequenceNumber e,
      lp_contentHash = snapshotContentHash cr content, lp_correlationId = nullish_or cause (tk_id (tk 0)),
      lp_publishedAt = tk_now (tk 0)\<rparr>" by simp
  with ok(1,2) r published(2) show ?thesis by blast
qed

text \<open>C5. What a publication does, on every branch. For a provider that is not active it answers with
  nothing and changes nothing. If the hash of the content the store now gives equals the last published
  hash, it answers with that content under the last version, correlation id and time, unchanged, and
  changes nothing. Otherwise the content is new. Where it is larger than the configured limit the one row
  appended is the recorded size failure of this change and the answer is nothing. Where it fits, the one
  row appended is \<open>snapshot_published\<close> with this content's hash, counts and causes; the answer carries the
  content under the number of that row, which is greater than every version published before, and the
  provider's last publication is now this one. In these two branches the only other outcome is that the
  event store refuses the append: the call throws and the store is as it was. It refuses nothing when the
  event id is fresh and the aggregate is the account's own.\<close>
theorem publish_outcomes:
  assumes "wf_store rows" and "publish lc cr cfg tk rows acc p cause absorbed = (res, rows')"
    and "st = ld_state (provider_load rows acc p)"
    and "content = buildSnapshotContent lc rows acc p (tp_name st)" and "hash = snapshotContentHash cr content"
  shows "(if provider_loadActive rows acc p = None then res = Inr None \<and> rows' = rows
      else if map_option lp_contentHash (tp_lastPublished st) = Some hash
      then rows' = rows \<and> (\<exists>l. tp_lastPublished st = Some l \<and> res = Inr (Some \<lparr>pr_snapshot =
        \<lparr>sp_content = content, sp_version = lp_version l, sp_correlationId = lp_correlationId l,
         sp_generatedAt = lp_publishedAt l\<rparr>, pr_changed = False\<rparr>))
      else if int (snapshotApproxBytes content) > cfg_agentSnapshotMaxBytes cfg
      then (\<exists>err. res = Inl err \<and> rows' = rows) \<or> (res = Inr None \<and>
        (\<exists>e. rows' = rows @ [e] \<and> ev_data e = ProviderEv (SnapshotPublishFailed \<lparr>pbf_reason = TooLarge,
          pbf_correlationId = nullish_or cause (tk_id (tk 0)), pbf_absorbedCausationIds = absorbed_field absorbed,
          pbf_failedAt = tk_now (tk 0)\<rparr>)))
      else (\<exists>err. res = Inl err \<and> rows' = rows) \<or>
        (\<exists>e. rows' = rows @ [e] \<and> ev_data e = ProviderEv (SnapshotPublished
            \<lparr>pub_contentHash = hash, pub_groupCount = group_count content, pub_entryCount = entry_count content,
             pub_correlationId = nullish_or cause (tk_id (tk 0)), pub_absorbedCausationIds = absorbed_field absorbed,
             pub_publishedAt = tk_now (tk 0)\<rparr>)
          \<and> (\<forall>l. tp_lastPublished st = Some l \<longrightarrow> lp_version l < ev_sequenceNumber e)
          \<and> res = Inr (Some \<lparr>pr_snapshot = \<lparr>sp_content = content, sp_version = ev_sequenceNumber e,
              sp_correlationId = nullish_or cause (tk_id (tk 0)), sp_generatedAt = tk_now (tk 0)\<rparr>, pr_changed = True\<rparr>)
          \<and> tp_lastPublished (ld_state (provider_load rows' acc p)) = Some \<lparr>lp_version = ev_sequenceNumber e,
              lp_contentHash = hash, lp_correlationId = nullish_or cause (tk_id (tk 0)), lp_publishedAt = tk_now (tk 0)\<rparr>))
    \<and> (tk_id (tk 1) \<notin> ev_id ` set rows \<and> (\<forall>r \<in> set (aggregate_rows rows TRAEFIK_PROVIDER p). ev_accountId r = acc)
        \<longrightarrow> (\<exists>r. res = Inr r))"
proof (cases rule: publish_cases [of rows acc p lc cr cfg tk cause absorbed])
  case gone
  with assms(2) show ?thesis by auto
next
  case (same loaded published)
  then have l: "loaded = provider_load rows acc p" by (simp add: provider_loadActive_Some)
  from same(2,3) have "map_option lp_contentHash (tp_lastPublished st) = Some hash"
    unfolding assms(3-5) l by simp
  moreover from same assms(2) have "rows' = rows" "tp_lastPublished st = Some published \<and> res = Inr (Some \<lparr>pr_snapshot =
      \<lparr>sp_content = content, sp_version = lp_version published, sp_correlationId = lp_correlationId published,
       sp_generatedAt = lp_publishedAt published\<rparr>, pr_changed = False\<rparr>)"
    unfolding assms(3-5) l by simp_all
  ultimately show ?thesis using same(1) by simp
next
  case (differs loaded)
  then have l: "loaded = provider_load rows acc p" by (simp add: provider_loadActive_Some)
  note new = assms(2) [unfolded differs(2) l, folded assms(3), folded assms(4)]
  have ne: "map_option lp_contentHash (tp_lastPublished st) \<noteq> Some hash"
    using differs(3) unfolding assms(3-5) l by (cases "tp_lastPublished st") (auto simp: assms(3) l)
  have le: "lp_version l \<le> ld_version (provider_load rows acc p)" if "tp_lastPublished st = Some l" for l
    using last_version_le [OF assms(1)] that unfolding assms(3) .
  have alone: "\<exists>r. res = Inr r" if "tk_id (tk 1) \<notin> ev_id ` set rows"
      "\<forall>r \<in> set (aggregate_rows rows TRAEFIK_PROVIDER p). ev_accountId r = acc"
    using publish_new_alone [where tk = tk, OF assms(1) that, of cr cfg cause absorbed content] new by auto
  show ?thesis
    using publish_new_outcomes [OF assms(1) new, folded assms(5)] differs(1) ne alone
    by (auto simp: less_Suc_eq_le le)
qed

text \<open>Publishing is idempotent: right after a version was published, another call with any trigger publishes
  nothing, leaves the store unchanged and answers with the same version, content and correlation id.\<close>
theorem publish_idempotent:
  assumes "wf_store rows" and "publish lc cr cfg tk rows acc p cause absorbed = (Inr (Some r), rows')"
  shows "publish lc cr cfg tk' rows' acc p cause' absorbed' = (Inr (Some (r\<lparr>pr_changed := False\<rparr>)), rows')"
proof (cases rule: publish_cases [of rows acc p lc cr cfg tk cause absorbed])
  case gone
  with assms show ?thesis by simp
next
  case (same loaded published)
  then have "r = r\<lparr>pr_changed := False\<rparr>" "rows' = rows" using assms(2) by auto
  with same assms(2) show ?thesis by (simp add: publish_def Let_def)
next
  case (differs loaded)
  let ?content = "buildSnapshotContent lc rows acc p (tp_name (ld_state loaded))"
  note new = assms(2) [unfolded differs(2)]
  show ?thesis
  proof (cases rule: publish_new_cases [of cr cfg tk rows acc p cause absorbed ?content])
    case (conflict x)
    with new show ?thesis by simp
  next
    case (too_large e)
    with new show ?thesis by simp
  next
    case (published e)
    have rows': "rows' = rows @ [e]" using published(1) new by simp
    have ok: "provider_append cfg (tk 1) rows acc p
        (SnapshotPublished \<lparr>pub_contentHash = snapshotContentHash cr ?content,
           pub_groupCount = group_count ?content, pub_entryCount = entry_count ?content,
           pub_correlationId = nullish_or cause (tk_id (tk 0)), pub_absorbedCausationIds = absorbed_field absorbed,
           pub_publishedAt = tk_now (tk 0)\<rparr>) = (Inr e, rows')" using published(3) rows' by simp
    from differs(1) have loaded: "loaded = provider_load rows acc p" by (simp add: provider_loadActive_Some)
    define st where "st = ld_state (provider_load rows' acc p)"
    have st: "tp_name st = tp_name (ld_state loaded)" "tp_providerId st = tp_providerId (ld_state loaded)"
      "tp_accountId st = tp_accountId (ld_state loaded)" "tp_status st = tp_status (ld_state loaded)"
      "tp_lastPublished st = Some \<lparr>lp_version = ev_sequenceNumber e, lp_contentHash = snapshotContentHash cr ?content,
         lp_correlationId = nullish_or cause (tk_id (tk 0)), lp_publishedAt = tk_now (tk 0)\<rparr>"
      unfolding st_def provider_append_state(5) [OF assms(1) ok] loaded by simp_all
    have active: "provider_loadActive rows' acc p = Some (provider_load rows' acc p)"
      using differs(1) st unfolding loaded provider_loadActive_Some st_def by simp
    have content: "buildSnapshotContent lc rows' acc p (tp_name st) = ?content"
      using buildSnapshotContent_provider_append [OF assms(1) ok] st(1) by simp
    have r: "r = \<lparr>pr_snapshot = \<lparr>sp_content = ?content, sp_version = ev_sequenceNumber e,
        sp_correlationId = nullish_or cause (tk_id (tk 0)), sp_generatedAt = tk_now (tk 0)\<rparr>, pr_changed = True\<rparr>"
      using published(1) new by simp
    show ?thesis
      unfolding publish_def active option.case Let_def st_def [symmetric] content st(5)
      by (simp add: r)
  qed
qed

definition sample_provider_rows :: "stored_event list" where
  "sample_provider_rows = [sample_row ''e1'' ''acc'' ''p'' 1 (ProviderEv (ProviderCreated
     \<lparr>tpc_providerId = ''p'', tpc_accountId = ''acc'', tpc_name = ''n'', tpc_connectionMode = AgentInitiated, tpc_createdAt = 0\<rparr>))]"

lemma sample_provider_wf: "wf_store sample_provider_rows"
  by (simp add: wf_store_def sample_provider_rows_def aggregate_rows_def)

lemma sample_provider_state:
  "ld_state (provider_load sample_provider_rows ''acc'' ''p'') = initialTraefikProviderState\<lparr>tp_providerId := Some ''p'',
     tp_accountId := Some ''acc'', tp_name := ''n''\<rparr>"
  by (simp add: provider_load_simps readStream_def in_stream_def sample_provider_rows_def traefikProviderReducer_def
      initialTraefikProviderState_def)

lemma sample_limit: "cfg_agentSnapshotMaxBytes sample_config = 1048576"
proof -
  have "sample_env ''BACKEND_AGENT_SNAPSHOT_MAX_BYTES'' = None" by (simp add: sample_env_def)
  then have "fst (optionalInt sample_env ''BACKEND_AGENT_SNAPSHOT_MAX_BYTES'' 1048576) = 1048576"
    by (simp add: optionalInt_def)
  then show ?thesis unfolding sample_config_def readConfig_def Let_def fst_conv Config.simps .
qed

text \<open>A first publication of a provider that nothing is delivered to.\<close>

lemma publish_first:
  assumes wf: "wf_store rows" and fresh: "tk_id (sample_tick 1) \<notin> ev_id ` set rows"
    and mine: "\<forall>r \<in> set (aggregate_rows rows TRAEFIK_PROVIDER ''p''). ev_accountId r = ''acc''"
    and state: "ld_state (provider_load rows ''acc'' ''p'') = initialTraefikProviderState\<lparr>tp_providerId := Some ''p'',
     tp_accountId := Some ''acc'', tp_name := ''n''\<rparr>"
    and members: "snapshot_members rows ''acc'' ''p'' = []"
  obtains r rows' where "publish code_point_compare sample_crypto sample_config sample_tick rows ''acc'' ''p''
      (Some ''c'') [] = (Inr (Some r), rows')" and "pr_changed r"
proof -
  let ?content = "\<lparr>sc_providerName = ''n'', sc_groups = []\<rparr>"
  from members have content: "buildSnapshotContent code_point_compare rows ''acc'' ''p'' ''n'' = ?content"
    by (simp add: buildSnapshotContent_def sorted_groups_def map_filter_simps)
  have size: "snapshotApproxBytes ?content \<le> 1000"
    by (simp add: snapshotApproxBytes_def content_json_def json_quote_def utf8_length_def escape_char_def short_escapes_def)
  have active: "provider_loadActive rows ''acc'' ''p'' = Some (provider_load rows ''acc'' ''p'')"
    by (simp add: provider_loadActive_Some state initialTraefikProviderState_def)
  have new: "publish code_point_compare sample_crypto sample_config sample_tick rows ''acc'' ''p'' (Some ''c'') [] =
      publish_new sample_crypto sample_config sample_tick rows ''acc'' ''p'' (Some ''c'') [] ?content"
    by (simp add: publish_def active state initialTraefikProviderState_def content)
  show ?thesis
  proof (cases rule: publish_new_cases [of sample_crypto sample_config sample_tick rows "''acc''" "''p''" "Some ''c''" "[]" ?content])
    case (published e)
    with that new show ?thesis by simp
  next
    case (too_large e)
    with size show ?thesis by (simp add: sample_limit)
  next
    case (conflict x)
    note ok = provider_append_alone [OF wf fresh mine, of sample_config]
    have "\<not> int (snapshotApproxBytes ?content) > cfg_agentSnapshotMaxBytes sample_config"
      using size by (simp add: sample_limit)
    then obtain r rows' where "publish_new sample_crypto sample_config sample_tick rows ''acc'' ''p'' (Some ''c'') [] ?content
        = (Inr r, rows')"
      using ok [of "SnapshotPublished \<lparr>pub_contentHash = snapshotContentHash sample_crypto ?content,
        pub_groupCount = group_count ?content, pub_entryCount = entry_count ?content,
        pub_correlationId = nullish_or (Some ''c'') (tk_id (sample_tick 0)), pub_absorbedCausationIds = absorbed_field [],
        pub_publishedAt = tk_now (sample_tick 0)\<rparr>"]
      unfolding publish_new_def Let_def by (simp only: if_False) auto
    with conflict show ?thesis by simp
  qed
qed

lemma sample_publish:
  obtains r rows' where "publish code_point_compare sample_crypto sample_config sample_tick sample_provider_rows ''acc'' ''p''
      (Some ''c'') [] = (Inr (Some r), rows')" and "pr_changed r"
proof (rule publish_first [OF sample_provider_wf _ _ sample_provider_state])
  show "snapshot_members sample_provider_rows ''acc'' ''p'' = []"
    by (simp add: snapshot_members_def map_filter_simps listAggregateIds_def sample_provider_rows_def)
qed (simp_all add: sample_provider_rows_def sample_tick_def nat_to_string.simps aggregate_rows_def that)

lemma publish_outcomes_witness:
  "\<exists>r e. publish code_point_compare sample_crypto sample_config sample_tick sample_provider_rows ''acc'' ''p'' (Some ''c'') [] =
       (Inr (Some r), sample_provider_rows @ [e])
     \<and> ev_data e = ProviderEv (SnapshotPublished \<lparr>pub_contentHash = snapshotContentHash sample_crypto (sp_content (pr_snapshot r)),
         pub_groupCount = group_count (sp_content (pr_snapshot r)), pub_entryCount = entry_count (sp_content (pr_snapshot r)),
         pub_correlationId = ''c'', pub_absorbedCausationIds = None, pub_publishedAt = tk_now (sample_tick 0)\<rparr>)
     \<and> pr_changed r \<and> sp_version (pr_snapshot r) = ev_sequenceNumber e"
proof -
  obtain r rows' where r: "publish code_point_compare sample_crypto sample_config sample_tick sample_provider_rows ''acc'' ''p''
      (Some ''c'') [] = (Inr (Some r), rows')" "pr_changed r" by (rule sample_publish)
  have active: "provider_loadActive sample_provider_rows ''acc'' ''p'' \<noteq> None"
    by (simp add: provider_loadActive_def Let_def sample_provider_state initialTraefikProviderState_def)
  note claim = publish_outcomes [OF sample_provider_wf r(1) refl refl refl]
  from claim active r(2) show ?thesis
    unfolding sample_provider_state by (auto simp: initialTraefikProviderState_def nullish_or_def absorbed_field_def r(1) split: if_splits)
qed

lemma publish_idempotent_witness:
  "\<exists>r rows'. publish code_point_compare sample_crypto sample_config sample_tick sample_provider_rows ''acc'' ''p'' (Some ''c'') [] =
       (Inr (Some r), rows') \<and> pr_changed r
     \<and> publish code_point_compare sample_crypto sample_config (\<lambda>n. sample_tick (n + 9)) rows' ''acc'' ''p'' None [] =
       (Inr (Some (r\<lparr>pr_changed := False\<rparr>)), rows')"
proof -
  obtain r rows' where r: "publish code_point_compare sample_crypto sample_config sample_tick sample_provider_rows ''acc'' ''p''
      (Some ''c'') [] = (Inr (Some r), rows')" "pr_changed r" by (rule sample_publish)
  from publish_idempotent [OF sample_provider_wf r(1), of "\<lambda>n. sample_tick (n + 9)" None "[]"] r show ?thesis by blast
qed

end
