(* ===== verification/Delivery.thy ===== *)
theory Delivery
  imports Publisher
begin

text \<open>
  What the user sees of a delivery: the rows of a device's history
  (\<open>domain/traefik-provider/delivery-history.ts\<close>), the connection state of a provider
  (\<open>deriveConnectionState\<close> in \<open>routes/traefik-providers.ts\<close>) and the status of a delivery action
  (\<open>routes/delivery-status.ts\<close>). All three are derived from events or replayed state, never stored.
\<close>

section \<open>Delivery history\<close>

datatype delivery_kind = Combined | Delivered

datatype delivery_stage = StagePublished | StageApplied | StageFailed

record TraefikDelivery =
  td_actionId :: id
  td_traefikProviderId :: id
  td_providerName :: "string option"
  td_group :: string
  td_kind :: delivery_kind
  td_stage :: "delivery_stage option"
  td_at :: "timestamp option"
  td_error :: "string option"
  td_version :: "nat option"

record DeliveryActionRef =
  ref_actionId :: id
  ref_traefikProviderId :: id
  ref_group :: string

record DeliveryProvider =
  dp_name :: "string option"
  dp_events :: "stored_event list"

definition base_row :: "DeliveryActionRef \<Rightarrow> DeliveryProvider \<Rightarrow> delivery_kind \<Rightarrow> delivery_stage option \<Rightarrow>
    timestamp option \<Rightarrow> string option \<Rightarrow> nat option \<Rightarrow> TraefikDelivery" where
  "base_row action provider kind stage at error version =
     \<lparr>td_actionId = ref_actionId action, td_traefikProviderId = ref_traefikProviderId action,
      td_providerName = dp_name provider, td_group = ref_group action, td_kind = kind,
      td_stage = stage, td_at = at, td_error = error, td_version = version\<rparr>"

definition applied_events :: "stored_event list \<Rightarrow> TraefikProviderSnapshotAppliedData list" where
  "applied_events events = List.map_filter
     (\<lambda>e. case ev_data e of ProviderEv (SnapshotApplied d) \<Rightarrow> Some d | _ \<Rightarrow> None) events"

definition apply_failed_events :: "stored_event list \<Rightarrow> TraefikProviderSnapshotApplyFailedData list" where
  "apply_failed_events events = List.map_filter
     (\<lambda>e. case ev_data e of ProviderEv (SnapshotApplyFailed d) \<Rightarrow> Some d | _ \<Rightarrow> None) events"

text \<open>The stage of a published version: applied, else failed (the last report), else published.\<close>

definition stage_of ::
  "stored_event list \<Rightarrow> nat \<Rightarrow> timestamp \<Rightarrow> delivery_stage \<times> timestamp \<times> string option" where
  "stage_of events version publishedAt =
     (case find (\<lambda>a. sap_version a \<ge> version) (applied_events events) of
        Some done \<Rightarrow> (StageApplied, sap_appliedAt done, None)
      | None \<Rightarrow>
          (case rev (filter (\<lambda>f. saf_version f = version) (apply_failed_events events)) of
             failed # _ \<Rightarrow> (StageFailed, saf_appliedAt failed, Some (saf_reason failed))
           | [] \<Rightarrow> (StagePublished, publishedAt, None)))"

text \<open>The calls of \<open>put\<close> that one event makes, in order.\<close>

definition event_puts ::
  "DeliveryActionRef \<Rightarrow> DeliveryProvider \<Rightarrow> stored_event list \<Rightarrow> stored_event \<Rightarrow> (id \<times> TraefikDelivery) list" where
  "event_puts action provider events event = (case ev_data event of
     ProviderEv (SnapshotPublished d) \<Rightarrow>
       (let version = ev_sequenceNumber event in
        case stage_of events version (pub_publishedAt d) of (stage, at, error) \<Rightarrow>
          (pub_correlationId d, base_row action provider Delivered (Some stage) (Some at) error (Some version))
          # map (\<lambda>i. (i, base_row action provider Combined None None None (Some version)))
              (nullish_or (pub_absorbedCausationIds d) []))
   | ProviderEv (SnapshotPublishFailed d) \<Rightarrow>
       (pbf_correlationId d, base_row action provider Delivered (Some StageFailed) (Some (pbf_failedAt d))
          (Some (publish_failure_name (pbf_reason d))) None)
       # map (\<lambda>i. (i, base_row action provider Combined None None None None))
           (nullish_or (pbf_absorbedCausationIds d) [])
   | _ \<Rightarrow> [])"

type_synonym delivery_rows = "(id \<times> TraefikDelivery) list"

definition put_row :: "id list \<Rightarrow> delivery_rows \<Rightarrow> id \<times> TraefikDelivery \<Rightarrow> delivery_rows" where
  "put_row changeIds rows = (\<lambda>(changeId, row).
     if changeId \<notin> set changeIds then rows
     else (case map_of rows changeId of
         Some existing \<Rightarrow> if td_kind existing = Delivered \<and> td_kind row = Combined then rows
           else AList.update changeId row rows
       | None \<Rightarrow> AList.update changeId row rows))"

definition action_rows :: "id list \<Rightarrow> DeliveryActionRef \<Rightarrow> DeliveryProvider \<Rightarrow> delivery_rows" where
  "action_rows changeIds action provider =
     (let events = sort_key ev_sequenceNumber (dp_events provider) in
      foldl (\<lambda>rows event. foldl (put_row changeIds) rows (event_puts action provider events event)) [] events)"

type_synonym delivery_result = "(id \<times> TraefikDelivery list) list"

definition push_row :: "delivery_result \<Rightarrow> id \<times> TraefikDelivery \<Rightarrow> delivery_result" where
  "push_row result = (\<lambda>(changeId, row). AList.update changeId (nullish_or (map_of result changeId) [] @ [row]) result)"

definition deriveDeliveries ::
  "id list \<Rightarrow> DeliveryActionRef list \<Rightarrow> (id \<times> DeliveryProvider) list \<Rightarrow> delivery_result" where
  "deriveDeliveries ipChangedEventIds actions providers =
     foldl (\<lambda>result action. case map_of providers (ref_traefikProviderId action) of
         None \<Rightarrow> result
       | Some provider \<Rightarrow> foldl push_row result (action_rows ipChangedEventIds action provider))
       (map (\<lambda>i. (i, [])) (uniq ipChangedEventIds)) actions"

section \<open>Connection state and delivery status\<close>

datatype connection_state = NeverConnected | Connected | Disconnected | Stale

definition deriveConnectionState :: "timestamp \<Rightarrow> TraefikProviderState \<Rightarrow> bool \<Rightarrow> timestamp \<Rightarrow> connection_state" where
  "deriveConnectionState processStartedAt state connected now =
     (if connected then Connected
      else case tp_lastConnectedAt state of
        None \<Rightarrow> NeverConnected
      | Some lastConnected \<Rightarrow>
          (let maxOffline = nullish_or (tp_maxOfflineSeconds state) 0 * 1000 in
           if maxOffline \<le> 0 then Disconnected
           else (let explicit = nullish_or (tp_lastDisconnectedAt state) 0;
                     since0 = max explicit lastConnected;
                     since = (if tp_lastPresence state = PrConnected then max since0 processStartedAt else since0)
                 in if int now - int since > int maxOffline then Stale else Disconnected)))"

datatype delivery_status = DsApplied | DsPending | DsError | DsAgentDisconnected | DsDisabled

definition deriveDeliveryStatus ::
  "timestamp \<Rightarrow> TraefikProviderState \<Rightarrow> bool \<Rightarrow> timestamp \<Rightarrow> bool \<Rightarrow> delivery_status" where
  "deriveDeliveryStatus processStartedAt state connected now actionEnabled =
     (if \<not> actionEnabled then DsDisabled
      else if deriveConnectionState processStartedAt state connected now \<noteq> Connected then DsAgentDisconnected
      else case map_option lp_version (tp_lastPublished state) of
        None \<Rightarrow> DsPending
      | Some published \<Rightarrow>
          if (case tp_lastApplyError state of None \<Rightarrow> False | Some e \<Rightarrow> ae_version e \<ge> published) then DsError
          else if (case tp_lastApplied state of None \<Rightarrow> False | Some a \<Rightarrow> la_version a \<ge> published) then DsApplied
          else DsPending)"

record DeliveryStatusItem =
  dsi_actionId :: id
  dsi_traefikProviderId :: id
  dsi_providerName :: string
  dsi_group :: string
  dsi_status :: delivery_status
  dsi_publishedVersion :: "nat option"
  dsi_appliedVersion :: "nat option"
  dsi_error :: "(string \<times> timestamp) option"

text \<open>\<open>GET /ip-clients/:ipClientId/delivery-status\<close>; \<open>isConnected\<close> is the session registry's.\<close>

definition delivery_status_items ::
  "timestamp \<Rightarrow> (id \<Rightarrow> bool) \<Rightarrow> timestamp \<Rightarrow> event_store \<Rightarrow> id \<Rightarrow> id \<Rightarrow> DeliveryStatusItem list" where
  "delivery_status_items processStartedAt isConnected now rows accountId ipClientId =
     List.map_filter (\<lambda>action. case provider_loadActive rows accountId (da_traefikProviderId action) of
         None \<Rightarrow> None
       | Some loaded \<Rightarrow>
          (let state = ld_state loaded;
               status = deriveDeliveryStatus processStartedAt state (isConnected (da_traefikProviderId action)) now
                 (da_status action = ActEnabled)
           in Some \<lparr>dsi_actionId = da_actionId action, dsi_traefikProviderId = da_traefikProviderId action,
                dsi_providerName = tp_name state, dsi_group = da_group action, dsi_status = status,
                dsi_publishedVersion = map_option lp_version (tp_lastPublished state),
                dsi_appliedVersion = map_option la_version (tp_lastApplied state),
                dsi_error = (if status = DsError
                  then map_option (\<lambda>e. (ae_reason e, ae_appliedAt e)) (tp_lastApplyError state) else None)\<rparr>))
       (filter (\<lambda>a. da_ipClientId a = ipClientId) (listDeliveryActions rows accountId))"

section \<open>Kinds are ordered\<close>

text \<open>A delivered row outranks a combined one; the class instance brings the library's lemmas on maxima.\<close>

instantiation delivery_kind :: linorder
begin

definition less_eq_delivery_kind :: "delivery_kind \<Rightarrow> delivery_kind \<Rightarrow> bool" where
  "less_eq_delivery_kind a b = (a = Combined \<or> b = Delivered)"

definition less_delivery_kind :: "delivery_kind \<Rightarrow> delivery_kind \<Rightarrow> bool" where
  "less_delivery_kind a b = (a = Combined \<and> b = Delivered)"

instance
proof
  fix x y z :: delivery_kind
  show "x < y \<longleftrightarrow> x \<le> y \<and> \<not> y \<le> x" and "x \<le> x" and "x \<le> y \<or> y \<le> x"
    and "x \<le> y \<Longrightarrow> y \<le> z \<Longrightarrow> x \<le> z" and "x \<le> y \<Longrightarrow> y \<le> x \<Longrightarrow> x = y"
    by (cases x; cases y; cases z; simp add: less_eq_delivery_kind_def less_delivery_kind_def)+
qed

end

section \<open>The declarative reading\<close>

text \<open>The row of one change: the last delivered one named for it, else the last combined one.\<close>

definition winner :: "id \<Rightarrow> (id \<times> TraefikDelivery) list \<Rightarrow> TraefikDelivery option" where
  "winner i puts =
     (let named = map snd (filter (\<lambda>p. fst p = i) puts);
          delivered = filter (\<lambda>r. td_kind r = Delivered) named in
      if delivered \<noteq> [] then Some (last delivered)
      else if named \<noteq> [] then Some (last named) else None)"

lemma winner_Nil [simp]: "winner i [] = None"
  by (simp add: winner_def)

lemma winner_kind:
  "winner i puts = Some r \<Longrightarrow>
   td_kind r = Delivered \<longleftrightarrow> (\<exists>q. (i, q) \<in> set puts \<and> td_kind q = Delivered)"
proof -
  assume w: "winner i puts = Some r"
  let ?named = "map snd (filter (\<lambda>p. fst p = i) puts)"
  let ?delivered = "filter (\<lambda>r. td_kind r = Delivered) ?named"
  have some: "?delivered \<noteq> [] \<longleftrightarrow> (\<exists>q. (i, q) \<in> set puts \<and> td_kind q = Delivered)"
    by (force simp: filter_empty_conv)
  show ?thesis
  proof (cases "?delivered = []")
    case True
    with w have "?named \<noteq> []" "r = last ?named" by (auto simp: winner_def Let_def split: if_splits)
    then have "r \<in> set ?named" using last_in_set [of ?named] by simp
    with True have "td_kind r \<noteq> Delivered" by (auto simp: filter_empty_conv)
    with True some show ?thesis by blast
  next
    case False
    with w have "r = last ?delivered" by (simp add: winner_def Let_def)
    with False have "r \<in> set ?delivered" using last_in_set by metis
    then have "td_kind r = Delivered" by simp
    with False some show ?thesis by blast
  qed
qed

lemma winner_snoc:
  "winner i (puts @ [(j, row)]) =
     (if j \<noteq> i then winner i puts
      else case winner i puts of
        None \<Rightarrow> Some row
      | Some existing \<Rightarrow> if td_kind row < td_kind existing then Some existing else Some row)"
proof (cases "j = i")
  case True
  show ?thesis
  proof (cases "winner i puts")
    case None
    then have "filter (\<lambda>p. fst p = i) puts = []" by (auto simp: winner_def Let_def split: if_splits)
    with None True show ?thesis by (simp add: winner_def)
  next
    case (Some ex)
    note k = winner_kind [OF Some]
    let ?named = "map snd (filter (\<lambda>p. fst p = i) puts)"
    have d: "filter (\<lambda>r. td_kind r = Delivered) ?named \<noteq> [] \<longleftrightarrow> td_kind ex = Delivered"
      unfolding k by (force simp: filter_empty_conv)
    show ?thesis
      using Some True d
      by (cases "td_kind row"; cases "td_kind ex") (auto simp: winner_def Let_def less_delivery_kind_def split: if_splits)
  qed
qed (simp add: winner_def)

lemma put_rows_winner:
  assumes "i \<in> set ids"
  shows "map_of (foldl (put_row ids) [] puts) i = winner i puts"
proof (induction puts rule: rev_induct)
  case (snoc p puts)
  obtain j row where p: "p = (j, row)" by (cases p)
  have skip: "td_kind row < td_kind ex \<longleftrightarrow> td_kind ex = Delivered \<and> td_kind row = Combined" for ex
    by (auto simp: less_delivery_kind_def)
  show ?case
    using snoc assms unfolding p winner_snoc skip
    by (auto simp: put_row_def split: option.splits)
qed simp

lemma put_rows_ids: "fst ` set (foldl (put_row ids) [] puts) \<subseteq> set ids"
  and put_rows_distinct: "distinct (map fst (foldl (put_row ids) [] puts))"
proof (induction puts rule: rev_induct)
  case (snoc p puts)
  obtain j row where p: "p = (j, row)" by (cases p)
  { case 1
    from snoc(1) show ?case
      by (auto simp: p put_row_def dom_update [symmetric] split: option.splits dest!: set_update_subset [THEN subsetD]) }
  { case 2
    from snoc(2) show ?case by (auto simp: p put_row_def distinct_update split: option.splits) }
qed simp_all

lemma foldl_concat_map: "foldl (\<lambda>a x. foldl f a (g x)) b xs = foldl f b (concat (map g xs))"
  by (induction xs arbitrary: b) simp_all

definition provider_puts :: "DeliveryActionRef \<Rightarrow> DeliveryProvider \<Rightarrow> (id \<times> TraefikDelivery) list" where
  "provider_puts action provider =
     (let events = sort_key ev_sequenceNumber (dp_events provider) in concat (map (event_puts action provider events) events))"

lemma action_rows_puts: "action_rows ids action provider = foldl (put_row ids) [] (provider_puts action provider)"
  by (simp add: action_rows_def provider_puts_def Let_def foldl_concat_map)

text \<open>Pushing the rows of one action appends at most one row to each change.\<close>

lemma push_rows:
  assumes "distinct (map fst rows)" and "map_of result i = Some xs"
  shows "map_of (foldl push_row result rows) i = Some (case map_of rows i of None \<Rightarrow> xs | Some row \<Rightarrow> xs @ [row])"
  using assms
proof (induction rows arbitrary: result xs)
  case (Cons p rows)
  obtain j row where p: "p = (j, row)" by (cases p)
  show ?case
  proof (cases "j = i")
    case True
    then have "map_of (push_row result p) i = Some (xs @ [row])" using Cons.prems(2) by (simp add: p push_row_def)
    moreover have "map_of rows i = None" using Cons.prems(1) True p by (simp add: map_of_eq_None_iff)
    ultimately show ?thesis using Cons.IH [of "push_row result p" "xs @ [row]"] Cons.prems(1) p True by simp
  next
    case False
    then have "map_of (push_row result p) i = Some xs" using Cons.prems(2) by (simp add: p push_row_def)
    with Cons.IH [of "push_row result p" xs] Cons.prems(1) p False show ?thesis by simp
  qed
qed simp

lemma deriveDeliveries_winners:
  assumes "changeId \<in> set ipChangedEventIds"
  shows "map_of (deriveDeliveries ipChangedEventIds actions providers) changeId =
    Some (List.map_filter (\<lambda>action. case map_of providers (ref_traefikProviderId action) of
        None \<Rightarrow> None | Some provider \<Rightarrow> winner changeId (provider_puts action provider)) actions)"
proof (induction actions rule: rev_induct)
  case Nil
  have "map_of (map (\<lambda>i. (i, [])) xs) changeId = Some []" if "changeId \<in> set xs" for xs
    using that by (induction xs) auto
  from this [of "uniq ipChangedEventIds"] assms show ?case by (simp add: deriveDeliveries_def map_filter_simps)
next
  case (snoc action actions)
  let ?old = "deriveDeliveries ipChangedEventIds actions providers"
  have app: "List.map_filter f (xs @ [x]) = List.map_filter f xs @ (case f x of None \<Rightarrow> [] | Some y \<Rightarrow> [y])"
    for f :: "DeliveryActionRef \<Rightarrow> TraefikDelivery option" and xs x
    by (induction xs) (auto simp: map_filter_simps split: option.split)
  show ?case
  proof (cases "map_of providers (ref_traefikProviderId action)")
    case None
    with snoc show ?thesis by (simp add: app deriveDeliveries_def)
  next
    case (Some provider)
    have "deriveDeliveries ipChangedEventIds (actions @ [action]) providers =
        foldl push_row ?old (action_rows ipChangedEventIds action provider)"
      by (simp add: deriveDeliveries_def Some)
    with push_rows [OF put_rows_distinct snoc, of ipChangedEventIds "provider_puts action provider"]
    show ?thesis
      by (simp add: app Some action_rows_puts put_rows_winner [OF assms] split: option.split)
  qed
qed

section \<open>Properties\<close>

text \<open>C35. The derived history is what its comment says: every IP change has, per delivery action whose provider
  is known and in the order of the actions, exactly one row or none; the row is the last one in which a
  provider event names the change as its cause, or else the last one that absorbed it, and there is none
  when no event names the change.\<close>
theorem deliveries_are_winners:
  assumes "changeId \<in> set ipChangedEventIds"
  shows "map_of (deriveDeliveries ipChangedEventIds actions providers) changeId =
    Some (List.map_filter (\<lambda>action. case map_of providers (ref_traefikProviderId action) of
        None \<Rightarrow> None | Some provider \<Rightarrow> winner changeId (provider_puts action provider)) actions)"
  using assms by (rule deriveDeliveries_winners)

definition sample_published :: "id \<Rightarrow> id list \<Rightarrow> domain_event" where
  "sample_published cause absorbed = ProviderEv (SnapshotPublished \<lparr>pub_contentHash = [], pub_groupCount = 1, pub_entryCount = 1,
     pub_correlationId = cause, pub_absorbedCausationIds = Some absorbed, pub_publishedAt = 9\<rparr>)"

lemma deliveries_are_winners_witness:
  "\<exists>row. map_of (deriveDeliveries [''c1'', ''c2''] [\<lparr>ref_actionId = ''a'', ref_traefikProviderId = ''p'', ref_group = ''g''\<rparr>]
      [(''p'', \<lparr>dp_name = None, dp_events = [sample_row ''e1'' ''acc'' ''p'' 1 (sample_published ''c2'' [''c1''])]\<rparr>)]) ''c1'' = Some [row]
    \<and> td_kind row = Combined \<and> td_version row = Some 1"
  by (subst deliveries_are_winners)
    (simp_all add: map_filter_simps winner_def provider_puts_def Let_def event_puts_def sample_published_def base_row_def
      stage_of_def applied_events_def apply_failed_events_def)

text \<open>Without further events a disconnected agent only ages: a state that is stale stays stale as time
  passes, it is not stale before the agent's own maximum offline time has passed since the process started
  or the agent last connected, and with no offline limit it never is.\<close>
theorem stale_after_max_offline:
  assumes "tp_lastConnectedAt state = Some connectedAt"
    and "deriveConnectionState start state False now = Stale" and "now \<le> later"
  shows "deriveConnectionState start state False later = Stale
    \<and> (\<exists>s > 0. tp_maxOfflineSeconds state = Some s \<and> now > connectedAt + 1000 * s
        \<and> (tp_lastPresence state = PrConnected \<longrightarrow> now > start + 1000 * s))"
  using assms
  by (auto simp: deriveConnectionState_def Let_def nullish_or_def split: option.splits if_splits)

definition sample_offline :: TraefikProviderState where
  "sample_offline = initialTraefikProviderState\<lparr>tp_lastConnectedAt := Some 1000, tp_maxOfflineSeconds := Some 60,
     tp_lastPresence := PrDisconnected, tp_lastDisconnectedAt := Some 5000\<rparr>"

lemma stale_after_max_offline_witness:
  "deriveConnectionState 0 sample_offline False 65001 = Stale \<and> deriveConnectionState 0 sample_offline False 90000 = Stale"
proof -
  have state: "tp_lastConnectedAt sample_offline = Some 1000" "deriveConnectionState 0 sample_offline False 65001 = Stale"
    by (simp_all add: sample_offline_def deriveConnectionState_def)
  from stale_after_max_offline [OF state, of 90000] state(2) show ?thesis by simp
qed

text \<open>A delivery action shows as applied exactly when it is enabled, its agent is connected, something was
  published, the last successful report is for that version or a later one and no failure report is.\<close>
theorem applied_status_iff:
  "deriveDeliveryStatus start state connected now enabled = DsApplied \<longleftrightarrow>
     enabled \<and> connected
     \<and> (\<exists>p a. tp_lastPublished state = Some p \<and> tp_lastApplied state = Some a \<and> lp_version p \<le> la_version a
          \<and> \<not> (\<exists>e. tp_lastApplyError state = Some e \<and> lp_version p \<le> ae_version e))"
proof -
  have "deriveConnectionState start state connected now = Connected \<longleftrightarrow> connected"
    by (auto simp: deriveConnectionState_def Let_def split: option.splits)
  then show ?thesis
    by (auto simp: deriveDeliveryStatus_def split: option.splits)
qed

end
