(* ===== verification/Coordinator.thy ===== *)
theory Coordinator
  imports Publisher
begin

text \<open>
  \<open>SnapshotCoordinator\<close> (\<open>adapters/agent-grpc/snapshot-coordinator.ts\<close>): change triggers become
  publications, several triggers within the collapse window become one.

  Between two \<open>await\<close>s the code runs without interruption, so the component is a state machine whose
  steps are a call of \<open>schedule\<close>, a collapse timer that fires (the part of \<open>run\<close> up to the await of
  \<open>publish\<close>), the settling of that promise (the \<open>finally\<close> block), and \<open>stop\<close>. A timer that was set
  and not cleared can fire at any time: no step depends on how long the window is. \<open>co_inFlight\<close> holds
  the runs whose \<open>publish\<close> has not settled; they go on after \<open>stop\<close>. The entry that \<open>run\<close> captured is
  the one in the map as long as the coordinator is not stopped (only \<open>run\<close> itself removes it), so the
  \<open>finally\<close> block reads it there.
\<close>

section \<open>State and operations\<close>

record Pending =
  pn_accountId :: id
  pn_causationIds :: "id list"
  pn_timer :: bool
  pn_running :: bool
  pn_dirty :: bool

record coordinator =
  co_pending :: "(id \<times> Pending) list"
  co_inFlight :: "id list"
  co_resyncTimer :: bool
  co_stopped :: bool

record publish_call =
  pcall_accountId :: id
  pcall_providerId :: id
  pcall_causationId :: "id option"
  pcall_absorbed :: "id list"

definition initial_coordinator :: coordinator where
  "initial_coordinator = \<lparr>co_pending = [], co_inFlight = [], co_resyncTimer = False, co_stopped = False\<rparr>"

definition new_pending :: "id \<Rightarrow> Pending" where
  "new_pending accountId = \<lparr>pn_accountId = accountId, pn_causationIds = [], pn_timer = False,
     pn_running = False, pn_dirty = False\<rparr>"

text \<open>One provider of a \<open>schedule\<close> call.\<close>

definition triggered_entry :: "id \<Rightarrow> id option \<Rightarrow> Pending option \<Rightarrow> Pending" where
  "triggered_entry accountId causationId found =
     (let entry = (nullish_or found (new_pending accountId))\<lparr>pn_accountId := accountId\<rparr>;
          entry = (if truthy causationId
                   then entry\<lparr>pn_causationIds := pn_causationIds entry @ [the causationId]\<rparr> else entry)
      in if pn_running entry then entry\<lparr>pn_dirty := True\<rparr> else entry\<lparr>pn_timer := True\<rparr>)"

definition schedule_one :: "id \<Rightarrow> id option \<Rightarrow> (id \<times> Pending) list \<Rightarrow> id \<Rightarrow> (id \<times> Pending) list" where
  "schedule_one accountId causationId pending providerId =
     AList.update providerId (triggered_entry accountId causationId (map_of pending providerId)) pending"

definition coordinator_schedule :: "coordinator \<Rightarrow> id \<Rightarrow> id list \<Rightarrow> id option \<Rightarrow> coordinator" where
  "coordinator_schedule st accountId providerIds causationId =
     (if co_stopped st then st
      else st\<lparr>co_pending := foldl (schedule_one accountId causationId) (co_pending st) (uniq providerIds)\<rparr>)"

text \<open>\<open>run\<close> up to the call of \<open>publish\<close>, and that call.\<close>

definition last_option :: "'a list \<Rightarrow> 'a option" where
  "last_option xs = (if xs = [] then None else Some (last xs))"

definition coordinator_run :: "coordinator \<Rightarrow> id \<Rightarrow> coordinator \<times> publish_call option" where
  "coordinator_run st providerId =
     (case map_of (co_pending st) providerId of
        None \<Rightarrow> (st, None)
      | Some entry \<Rightarrow>
          if co_stopped st then (st, None)
          else (st\<lparr>co_pending := AList.update providerId
                    (entry\<lparr>pn_timer := False, pn_running := True, pn_dirty := False, pn_causationIds := []\<rparr>)
                    (co_pending st),
                  co_inFlight := co_inFlight st @ [providerId]\<rparr>,
                Some \<lparr>pcall_accountId = pn_accountId entry, pcall_providerId = providerId,
                  pcall_causationId = last_option (pn_causationIds entry),
                  pcall_absorbed = butlast (pn_causationIds entry)\<rparr>))"

text \<open>The message pushed to a connected agent when \<open>publish\<close> returns, and the \<open>finally\<close> block.\<close>

definition run_push :: "(exn + PublishResult option) \<Rightarrow> SnapshotPayload option" where
  "run_push result = (case result of
       Inr (Some r) \<Rightarrow> if pr_changed r then Some (pr_snapshot r) else None
     | _ \<Rightarrow> None)"

definition coordinator_settle :: "coordinator \<Rightarrow> id \<Rightarrow> coordinator" where
  "coordinator_settle st providerId =
     (let st = st\<lparr>co_inFlight := remove1 providerId (co_inFlight st)\<rparr> in
      case map_of (co_pending st) providerId of
        None \<Rightarrow> st
      | Some entry \<Rightarrow>
          if pn_dirty entry \<and> \<not> co_stopped st
          then st\<lparr>co_pending := AList.update providerId (entry\<lparr>pn_running := False, pn_timer := True\<rparr>) (co_pending st)\<rparr>
          else st\<lparr>co_pending := AList.delete providerId (co_pending st)\<rparr>)"

definition coordinator_startResync :: "coordinator \<Rightarrow> coordinator" where
  "coordinator_startResync st = (if co_resyncTimer st then st else st\<lparr>co_resyncTimer := True\<rparr>)"

text \<open>One tick of the resync interval publishes without a cause for every connected agent and pushes any snapshot.\<close>

definition resync_calls :: "(id \<times> id) list \<Rightarrow> publish_call list" where
  "resync_calls connectedProviders = map (\<lambda>(accountId, providerId). \<lparr>pcall_accountId = accountId,
     pcall_providerId = providerId, pcall_causationId = None, pcall_absorbed = []\<rparr>) connectedProviders"

definition resync_push :: "(exn + PublishResult option) \<Rightarrow> SnapshotPayload option" where
  "resync_push result = (case result of Inr (Some r) \<Rightarrow> Some (pr_snapshot r) | _ \<Rightarrow> None)"

definition coordinator_stop :: "coordinator \<Rightarrow> coordinator" where
  "coordinator_stop st = st\<lparr>co_stopped := True, co_resyncTimer := False, co_pending := []\<rparr>"

section \<open>Steps and runs\<close>

datatype coord_event =
    Schedule id "id list" "id option"
  | TimerFires id
  | PublishSettles id
  | StartResync
  | Stop

definition timer_set :: "coordinator \<Rightarrow> id \<Rightarrow> bool" where
  "timer_set st p = (\<exists>entry. map_of (co_pending st) p = Some entry \<and> pn_timer entry)"

inductive coord_step :: "coordinator \<Rightarrow> coord_event \<Rightarrow> publish_call list \<Rightarrow> coordinator \<Rightarrow> bool" where
  step_schedule: "coord_step st (Schedule a ps c) [] (coordinator_schedule st a ps c)"
| step_timer: "timer_set st p \<Longrightarrow> coordinator_run st p = (st', call) \<Longrightarrow>
    coord_step st (TimerFires p) (case call of None \<Rightarrow> [] | Some c \<Rightarrow> [c]) st'"
| step_settles: "p \<in> set (co_inFlight st) \<Longrightarrow> coord_step st (PublishSettles p) [] (coordinator_settle st p)"
| step_resync: "coord_step st StartResync [] (coordinator_startResync st)"
| step_stop: "coord_step st Stop [] (coordinator_stop st)"

inductive_simps coord_step_timer: "coord_step st (TimerFires p) out st'"
inductive_simps coord_step_settles: "coord_step st (PublishSettles p) out st'"

inductive coord_trace :: "coord_event list \<Rightarrow> publish_call list \<Rightarrow> coordinator \<Rightarrow> bool" where
  trace_init: "coord_trace [] [] initial_coordinator"
| trace_step: "coord_trace evs outs st \<Longrightarrow> coord_step st ev out st' \<Longrightarrow> coord_trace (evs @ [ev]) (outs @ out) st'"

section \<open>Invariant\<close>

definition entry_ok :: "Pending \<Rightarrow> bool" where
  "entry_ok e = ((pn_timer e \<longleftrightarrow> \<not> pn_running e)
     \<and> (pn_causationIds e \<noteq> [] \<longrightarrow> pn_timer e \<or> pn_dirty e))"

definition coordinator_ok :: "coordinator \<Rightarrow> bool" where
  "coordinator_ok st = (
     (\<forall>p e. map_of (co_pending st) p = Some e \<longrightarrow> entry_ok e \<and> (pn_running e \<longrightarrow> p \<in> set (co_inFlight st)))
     \<and> (\<not> co_stopped st \<longrightarrow> distinct (co_inFlight st)
          \<and> (\<forall>p \<in> set (co_inFlight st). \<exists>e. map_of (co_pending st) p = Some e \<and> pn_running e))
     \<and> (co_stopped st \<longrightarrow> co_pending st = []))"

lemma triggered_entry_props:
  assumes "\<And>e. found = Some e \<Longrightarrow> entry_ok e"
  shows "entry_ok (triggered_entry a c found)"
    and "pn_running (triggered_entry a c found) \<longleftrightarrow> (\<exists>e. found = Some e \<and> pn_running e)"
    and "pn_causationIds (triggered_entry a c found) =
      (case found of None \<Rightarrow> [] | Some e \<Rightarrow> pn_causationIds e) @ (if truthy c then [the c] else [])"
  using assms by (cases found; simp add: triggered_entry_def Let_def new_pending_def entry_ok_def)+

lemma triggered_dirty: "pn_running (triggered_entry a c found) \<Longrightarrow> pn_dirty (triggered_entry a c found)"
  by (cases found; cases "truthy c") (auto simp: triggered_entry_def Let_def new_pending_def split: if_splits)

lemma map_of_schedule:
  "distinct ps \<Longrightarrow> map_of (foldl (schedule_one a c) pending ps) p =
     (if p \<in> set ps then Some (triggered_entry a c (map_of pending p)) else map_of pending p)"
  by (induction ps arbitrary: pending) (auto simp: schedule_one_def)

lemma schedule_lookup:
  "\<not> co_stopped st \<Longrightarrow> map_of (co_pending (coordinator_schedule st a ps c)) p =
     (if p \<in> set ps then Some (triggered_entry a c (map_of (co_pending st) p)) else map_of (co_pending st) p)"
  by (simp add: coordinator_schedule_def map_of_schedule)

lemma coordinator_ok_init: "coordinator_ok initial_coordinator"
  by (simp add: coordinator_ok_def initial_coordinator_def)

lemma coordinator_okD:
  "coordinator_ok st \<Longrightarrow> map_of (co_pending st) p = Some e \<Longrightarrow> entry_ok e \<and> (pn_running e \<longrightarrow> p \<in> set (co_inFlight st))"
  "coordinator_ok st \<Longrightarrow> \<not> co_stopped st \<Longrightarrow> distinct (co_inFlight st)"
  "coordinator_ok st \<Longrightarrow> \<not> co_stopped st \<Longrightarrow> p \<in> set (co_inFlight st) \<Longrightarrow> \<exists>e. map_of (co_pending st) p = Some e \<and> pn_running e"
  "coordinator_ok st \<Longrightarrow> co_stopped st \<Longrightarrow> co_pending st = []"
  by (auto simp: coordinator_ok_def)

lemma coordinator_ok_schedule:
  assumes "coordinator_ok st"
  shows "coordinator_ok (coordinator_schedule st a ps c)"
proof (cases "co_stopped st")
  case False
  have same: "co_inFlight (coordinator_schedule st a ps c) = co_inFlight st" "\<not> co_stopped (coordinator_schedule st a ps c)"
    using False by (simp_all add: coordinator_schedule_def)
  have found: "entry_ok e" if "map_of (co_pending st) p = Some e" for p e
    using coordinator_okD(1) [OF assms that] by blast
  show ?thesis
    unfolding coordinator_ok_def same schedule_lookup [OF False]
    using False coordinator_okD [OF assms] found triggered_entry_props(1,2) [of "map_of (co_pending st) p" for p]
    by (auto simp: same split: if_splits)
qed (simp add: coordinator_schedule_def assms)

lemma coordinator_run_Some:
  assumes "coordinator_run st p = (st', Some call)"
  obtains e where "map_of (co_pending st) p = Some e" and "\<not> co_stopped st"
    and "st' = st\<lparr>co_pending := AList.update p (e\<lparr>pn_timer := False, pn_running := True, pn_dirty := False, pn_causationIds := []\<rparr>) (co_pending st),
      co_inFlight := co_inFlight st @ [p]\<rparr>"
    and "pcall_providerId call = p" and "pcall_absorbed call = butlast (pn_causationIds e)"
    and "pcall_causationId call = last_option (pn_causationIds e)" and "pcall_accountId call = pn_accountId e"
  using assms by (auto simp: coordinator_run_def split: option.splits if_splits)

lemma timer_run:
  assumes "coordinator_ok st" and "timer_set st p" and "coordinator_run st p = (st', r)"
  obtains call where "r = Some call"
proof -
  from assms(2) obtain e where "map_of (co_pending st) p = Some e" by (auto simp: timer_set_def)
  moreover from this have "\<not> co_stopped st" using coordinator_okD(4) [OF assms(1)] by auto
  ultimately show ?thesis using assms(3) that by (auto simp: coordinator_run_def)
qed

lemma coordinator_ok_timer:
  assumes ok: "coordinator_ok st" and t: "timer_set st p" and r: "coordinator_run st p = (st', r)"
  shows "coordinator_ok st'"
proof -
  obtain call where "r = Some call" by (rule timer_run [OF ok t r])
  from coordinator_run_Some [OF r [unfolded this]] obtain e where e: "map_of (co_pending st) p = Some e" "\<not> co_stopped st"
    and st': "st' = st\<lparr>co_pending := AList.update p (e\<lparr>pn_timer := False, pn_running := True, pn_dirty := False, pn_causationIds := []\<rparr>) (co_pending st),
      co_inFlight := co_inFlight st @ [p]\<rparr>" by blast
  from t e have "pn_timer e" by (auto simp: timer_set_def)
  with coordinator_okD(1) [OF ok e(1)] have "\<not> pn_running e" by (simp add: entry_ok_def)
  then have "p \<notin> set (co_inFlight st)" using coordinator_okD(3) [OF ok e(2), of p] e(1) by auto
  then show ?thesis
    using coordinator_okD [OF ok] e(2) unfolding coordinator_ok_def st' by (auto simp: entry_ok_def split: if_splits)
qed

lemma coordinator_ok_settle:
  assumes ok: "coordinator_ok st" and p: "p \<in> set (co_inFlight st)"
  shows "coordinator_ok (coordinator_settle st p)"
proof (cases "co_stopped st")
  case True
  then have "co_pending st = []" by (rule coordinator_okD(4) [OF ok])
  with True ok show ?thesis by (auto simp: coordinator_settle_def coordinator_ok_def)
next
  case False
  obtain e where e: "map_of (co_pending st) p = Some e" "pn_running e"
    using coordinator_okD(3) [OF ok False p] by blast
  have d: "distinct (co_inFlight st)" by (rule coordinator_okD(2) [OF ok False])
  have eok: "entry_ok e" using coordinator_okD(1) [OF ok e(1)] by blast
  show ?thesis
    using False e d eok coordinator_okD(1,3) [OF ok]
    by (auto simp: coordinator_settle_def Let_def coordinator_ok_def entry_ok_def split: if_splits)
qed

lemma coord_step_ok: "coord_step st ev out st' \<Longrightarrow> coordinator_ok st \<Longrightarrow> coordinator_ok st'"
proof (induction rule: coord_step.induct)
  case (step_resync st)
  then show ?case by (simp add: coordinator_ok_def coordinator_startResync_def)
next
  case (step_stop st)
  show ?case by (simp add: coordinator_ok_def coordinator_stop_def)
qed (auto intro: coordinator_ok_schedule coordinator_ok_timer coordinator_ok_settle)

lemma coord_trace_ok: "coord_trace evs outs st \<Longrightarrow> coordinator_ok st"
  by (induction rule: coord_trace.induct) (auto intro: coordinator_ok_init coord_step_ok)

section \<open>Causes and wake-ups\<close>

text \<open>The causes of the accepted triggers for a provider, in arrival order, and those handed to \<open>publish\<close>.\<close>

fun event_causes :: "id \<Rightarrow> coord_event \<Rightarrow> id list" where
  "event_causes p (Schedule a ps (Some c)) = (if p \<in> set ps \<and> c \<noteq> [] then [c] else [])"
| "event_causes p _ = []"

definition triggered_causes :: "id \<Rightarrow> coord_event list \<Rightarrow> id list" where
  "triggered_causes p evs = concat (map (event_causes p) evs)"

definition call_causes :: "publish_call \<Rightarrow> id list" where
  "call_causes c = pcall_absorbed c @ (case pcall_causationId c of None \<Rightarrow> [] | Some i \<Rightarrow> [i])"

definition published_causes :: "id \<Rightarrow> publish_call list \<Rightarrow> id list" where
  "published_causes p calls = concat (map call_causes (filter (\<lambda>c. pcall_providerId c = p) calls))"

definition pending_causes :: "coordinator \<Rightarrow> id \<Rightarrow> id list" where
  "pending_causes st p = (case map_of (co_pending st) p of None \<Rightarrow> [] | Some e \<Rightarrow> pn_causationIds e)"

lemma butlast_last_option: "butlast xs @ (case last_option xs of None \<Rightarrow> [] | Some i \<Rightarrow> [i]) = xs"
  by (simp add: last_option_def)

lemma causes_app [simp]:
  "triggered_causes p (xs @ ys) = triggered_causes p xs @ triggered_causes p ys"
  "published_causes p (us @ vs) = published_causes p us @ published_causes p vs"
  by (simp_all add: triggered_causes_def published_causes_def)

lemma triggered_causes_one [simp]: "triggered_causes p [ev] = event_causes p ev"
  by (simp add: triggered_causes_def)

lemma published_causes_Nil [simp]: "published_causes p [] = []"
  by (simp add: published_causes_def)

lemma event_causes_schedule:
  "event_causes p (Schedule a ps c) = (if p \<in> set ps \<and> truthy c then [the c] else [])"
  by (cases c) auto

text \<open>A step moves causes from the triggers to the entry and from the entry to a call, losing none.\<close>

lemma coord_step_causes:
  assumes "coord_step st ev out st'" and "coordinator_ok st" and "\<not> co_stopped st'"
  shows "pending_causes st p @ event_causes p ev = published_causes p out @ pending_causes st' p"
  using assms
proof (induction rule: coord_step.induct)
  case (step_schedule st a ps c)
  from step_schedule.prems(2) have live: "\<not> co_stopped st" by (auto simp: coordinator_schedule_def split: if_splits)
  have found: "entry_ok e" if "map_of (co_pending st) p = Some e" for e
    using coordinator_okD(1) [OF step_schedule.prems(1) that] by blast
  show ?case
    unfolding event_causes_schedule pending_causes_def schedule_lookup [OF live]
    using triggered_entry_props(3) [of "map_of (co_pending st) p" a c] found by (auto split: option.splits)
next
  case (step_timer st q st' r)
  obtain call where r: "r = Some call" by (rule timer_run [OF step_timer.prems(1) step_timer.hyps])
  show ?case
    by (rule coordinator_run_Some [OF step_timer.hyps(2) [unfolded r]]; cases "q = p") (auto simp: r pending_causes_def published_causes_def call_causes_def butlast_last_option)
next
  case (step_settles q st)
  have live: "\<not> co_stopped st"
    using step_settles.prems(2) by (auto simp: coordinator_settle_def Let_def split: option.splits if_splits)
  obtain e where e: "map_of (co_pending st) q = Some e" "pn_running e"
    using coordinator_okD(3) [OF step_settles.prems(1) live step_settles.hyps] by blast
  have "entry_ok e" using coordinator_okD(1) [OF step_settles.prems(1) e(1)] by blast
  with e live show ?case
    by (auto simp: coordinator_settle_def Let_def pending_causes_def entry_ok_def split: option.splits)
qed (simp_all add: coordinator_startResync_def coordinator_stop_def pending_causes_def)

lemma coord_step_stopped: "coord_step st ev out st' \<Longrightarrow> co_stopped st \<Longrightarrow> co_stopped st'"
  by (induction rule: coord_step.induct)
    (auto simp: coordinator_schedule_def coordinator_settle_def coordinator_startResync_def coordinator_stop_def
      coordinator_run_def Let_def split: option.splits if_splits)

section \<open>Properties\<close>

text \<open>C26. No change is lost and none is published twice: in every run of the coordinator that was not stopped, the
  causes handed to \<open>publish\<close> for a provider, absorbed ones before the correlating one, followed by those
  still waiting in its entry, are exactly the causes of the triggers accepted for it, in arrival order.\<close>
theorem coordinator_conserves_causes:
  assumes "coord_trace evs calls st" and "\<not> co_stopped st"
  shows "triggered_causes p evs = published_causes p calls @ pending_causes st p"
  using assms
proof (induction rule: coord_trace.induct)
  case trace_init
  then show ?case by (simp add: initial_coordinator_def pending_causes_def triggered_causes_def)
next
  case (trace_step evs outs st ev out st')
  then have "\<not> co_stopped st" using coord_step_stopped by blast
  with trace_step.IH have "triggered_causes p evs = published_causes p outs @ pending_causes st p" .
  with coord_step_causes [OF trace_step.hyps(2) coord_trace_ok [OF trace_step.hyps(1)] trace_step.prems, of p]
  show ?case by simp
qed

text \<open>C32. The final state always wins: after a trigger the provider has a collapse timer, or its run is in progress
  and marked dirty, so the settling of that run sets the timer; a timer that fires starts a publication
  with the waiting causes; and no provider ever has two runs in progress or a timer beside a run.\<close>
theorem coordinator_no_lost_wakeup:
  assumes "coord_trace evs calls st" and "\<not> co_stopped st" and "p \<in> set ps"
  shows "distinct (co_inFlight st)
    \<and> (\<forall>q. timer_set st q \<longrightarrow> q \<notin> set (co_inFlight st))
    \<and> (let st' = coordinator_schedule st a ps c in
        timer_set st' p \<or> (p \<in> set (co_inFlight st') \<and> timer_set (coordinator_settle st' p) p))
    \<and> (\<forall>q. timer_set st q \<longrightarrow> (\<exists>call. snd (coordinator_run st q) = Some call
          \<and> pcall_providerId call = q \<and> call_causes call = pending_causes st q))"
proof (intro conjI)
  note ok = coord_trace_ok [OF assms(1)]
  show "distinct (co_inFlight st)" by (rule coordinator_okD(2) [OF ok assms(2)])
  show "\<forall>q. timer_set st q \<longrightarrow> q \<notin> set (co_inFlight st)"
    using coordinator_okD(1,3) [OF ok] assms(2) by (fastforce simp: timer_set_def entry_ok_def)
  show "let st' = coordinator_schedule st a ps c in
      timer_set st' p \<or> (p \<in> set (co_inFlight st') \<and> timer_set (coordinator_settle st' p) p)"
  proof -
    let ?st' = "coordinator_schedule st a ps c"
    let ?e = "triggered_entry a c (map_of (co_pending st) p)"
    have e: "map_of (co_pending ?st') p = Some ?e" using schedule_lookup [OF assms(2)] assms(3) by simp
    have live: "\<not> co_stopped ?st'" using assms(2) by (simp add: coordinator_schedule_def)
    have ok': "coordinator_ok ?st'" by (rule coordinator_ok_schedule [OF ok])
    show ?thesis
    proof (cases "pn_running ?e")
      case True
      then have "pn_dirty ?e" by (rule triggered_dirty)
      with e live have "timer_set (coordinator_settle ?st' p) p"
        by (simp add: timer_set_def coordinator_settle_def Let_def)
      with True coordinator_okD(1) [OF ok' e] show ?thesis by (simp add: Let_def)
    next
      case False
      with coordinator_okD(1) [OF ok' e] e show ?thesis by (simp add: Let_def timer_set_def entry_ok_def)
    qed
  qed
  show "\<forall>q. timer_set st q \<longrightarrow> (\<exists>call. snd (coordinator_run st q) = Some call
      \<and> pcall_providerId call = q \<and> call_causes call = pending_causes st q)"
    using assms(2) by (auto simp: timer_set_def coordinator_run_def call_causes_def butlast_last_option pending_causes_def)
qed

text \<open>A run with three triggers for one provider, two of them during the publication.\<close>

definition sample_coordinator :: coordinator where
  "sample_coordinator = coordinator_schedule (coordinator_schedule
     (fst (coordinator_run (coordinator_schedule initial_coordinator ''acc'' [''p''] (Some ''c1'')) ''p''))
     ''acc'' [''p''] (Some ''c2'')) ''acc'' [''p'', ''q''] (Some ''c3'')"

definition sample_call :: publish_call where
  "sample_call = \<lparr>pcall_accountId = ''acc'', pcall_providerId = ''p'', pcall_causationId = Some ''c1'', pcall_absorbed = []\<rparr>"

lemmas sample_coordinator_simps = sample_coordinator_def sample_call_def coordinator_schedule_def coordinator_run_def
  initial_coordinator_def schedule_one_def triggered_entry_def new_pending_def Let_def last_option_def uniq_def

lemma sample_coordinator_trace:
  "coord_trace [Schedule ''acc'' [''p''] (Some ''c1''), TimerFires ''p'', Schedule ''acc'' [''p''] (Some ''c2''),
      Schedule ''acc'' [''p'', ''q''] (Some ''c3'')] [sample_call] sample_coordinator"
proof -
  let ?s1 = "coordinator_schedule initial_coordinator ''acc'' [''p''] (Some ''c1'')"
  have t1: "coord_trace [Schedule ''acc'' [''p''] (Some ''c1'')] [] ?s1"
    using trace_step [OF trace_init step_schedule] by simp
  have fires: "timer_set ?s1 ''p''" and run: "coordinator_run ?s1 ''p'' = (fst (coordinator_run ?s1 ''p''), Some sample_call)"
    by (simp_all add: timer_set_def sample_coordinator_simps)
  from trace_step [OF t1 step_timer [OF fires run]]
  have "coord_trace [Schedule ''acc'' [''p''] (Some ''c1''), TimerFires ''p''] [sample_call] (fst (coordinator_run ?s1 ''p''))" by simp
  from trace_step [OF trace_step [OF this step_schedule] step_schedule] show ?thesis
    by (simp add: sample_coordinator_def)
qed

lemma sample_coordinator_live: "\<not> co_stopped sample_coordinator"
  by (simp add: sample_coordinator_simps)

lemma coordinator_conserves_causes_witness:
  "triggered_causes ''p'' [Schedule ''acc'' [''p''] (Some ''c1''), TimerFires ''p'', Schedule ''acc'' [''p''] (Some ''c2''),
      Schedule ''acc'' [''p'', ''q''] (Some ''c3'')] = [''c1'', ''c2'', ''c3'']
   \<and> published_causes ''p'' [sample_call] @ pending_causes sample_coordinator ''p'' = [''c1'', ''c2'', ''c3'']"
  using coordinator_conserves_causes [OF sample_coordinator_trace sample_coordinator_live, of "''p''"]
  by (simp add: triggered_causes_def)

lemma coordinator_no_lost_wakeup_witness:
  "distinct (co_inFlight sample_coordinator) \<and> timer_set sample_coordinator ''q'' \<and> ''q'' \<notin> set (co_inFlight sample_coordinator)"
proof -
  have "timer_set sample_coordinator ''q''" by (simp add: timer_set_def sample_coordinator_simps)
  with coordinator_no_lost_wakeup [OF sample_coordinator_trace sample_coordinator_live, of "''q''" "[''q'']" "''acc''" None]
  show ?thesis by simp
qed

end
