(* ===== verification/AgentProtocol.thy ===== *)
theory AgentProtocol
  imports Publisher
begin

text \<open>
  The messages of an agent session (\<open>domain/traefik-provider/agent-protocol.ts\<close>) and their wire
  form (\<open>adapters/agent-grpc/proto-codec.ts\<close>).

  An envelope is what \<open>@grpc/proto-loader\<close> hands over: an object of untyped values (\<open>json\<close>), whose
  numbers are integers or not finite. \<open>to_iso\<close> is the ISO form of an instant.
\<close>

section \<open>Messages\<close>

record HelloMessage =
  he_protocolVersion :: nat
  he_agentVersion :: string
  he_maxOfflineSeconds :: nat
  he_heartbeatSeconds :: nat
  he_maxSnapshotBytes :: nat
  he_providerName :: string
  he_acceptedVersion :: nat

datatype report_result = ResultOk | ResultError | ResultIgnoredStale

record ReportMessage =
  rp_version :: nat
  rp_correlationId :: string
  rp_result :: report_result
  rp_error :: string
  rp_agentVersion :: string
  rp_stale :: bool
  rp_files :: "FileChecksum list"
  rp_templates :: "FileChecksum list"
  rp_traefikCheck :: "TraefikCheckResult option"

datatype agent_message =
    MsgHello HelloMessage
  | MsgSnapshot SnapshotPayload
  | MsgReport ReportMessage
  | MsgHeartbeat nat
  | MsgSyncRequest
  | MsgBye string

definition PROTOCOL_MIN_VERSION :: nat where "PROTOCOL_MIN_VERSION = 1"
definition PROTOCOL_MAX_VERSION :: nat where "PROTOCOL_MAX_VERSION = 1"

datatype close_code =
  CodeOk | CodeUnauthenticated | CodeFailedPrecondition | CodeAborted | CodeUnavailable
  | CodeDeadlineExceeded | CodeInternal

record CloseReason =
  cr_code :: close_code
  cr_message :: string
  cr_disconnect :: disconnect_reason

section \<open>Reading untyped values\<close>

definition MAX_TEXT :: nat where "MAX_TEXT = 2000"
definition MAX_FILES :: nat where "MAX_FILES = 500"

text \<open>\<open>o.k ?? {}\<close>\<close>

definition prop_object :: "json \<Rightarrow> string \<Rightarrow> json" where
  "prop_object j k = (case json_prop j k of None \<Rightarrow> JObj [] | Some JNull \<Rightarrow> JObj [] | Some v \<Rightarrow> v)"

definition str :: "json option \<Rightarrow> nat \<Rightarrow> string" where
  "str v mx = (case v of Some (JStr s) \<Rightarrow> take mx s | _ \<Rightarrow> [])"

definition num :: "json option \<Rightarrow> nat" where
  "num v = (case v of Some (JNum i) \<Rightarrow> if i \<ge> 0 then nat i else 0 | _ \<Rightarrow> 0)"

definition sums :: "json option \<Rightarrow> FileChecksum list" where
  "sums v = (case v of
     Some (JArr xs) \<Rightarrow> map (\<lambda>item. \<lparr>fc_name = str (json_prop item ''name'') 256, fc_sha256 = str (json_prop item ''sha256'') 64\<rparr>)
       (take MAX_FILES xs)
   | _ \<Rightarrow> [])"

definition strings :: "json option \<Rightarrow> string list" where
  "strings v = (case v of Some (JArr xs) \<Rightarrow> map (\<lambda>x. str (Some x) 256) (take MAX_FILES xs) | _ \<Rightarrow> [])"

definition check_status_of :: "json option \<Rightarrow> check_status option" where
  "check_status_of v =
     (if v = Some (JStr ''STATUS_OK'') then Some CheckOk
      else if v = Some (JStr ''STATUS_MISSING'') then Some CheckMissing
      else if v = Some (JStr ''STATUS_UNREACHABLE'') then Some CheckUnreachable
      else None)"

definition checkFrom :: "json option \<Rightarrow> TraefikCheckResult option" where
  "checkFrom v = (case v of
     Some (JObj fs) \<Rightarrow> (case check_status_of (json_prop (JObj fs) ''status'') of
         None \<Rightarrow> None
       | Some status \<Rightarrow> Some \<lparr>tc_status = status, tc_loaded = strings (json_prop (JObj fs) ''loaded''),
           tc_missing = strings (json_prop (JObj fs) ''missing'')\<rparr>)
   | _ \<Rightarrow> None)"

definition result_of :: "json option \<Rightarrow> report_result option" where
  "result_of v =
     (if v = Some (JStr ''RESULT_OK'') then Some ResultOk
      else if v = Some (JStr ''RESULT_ERROR'') then Some ResultError
      else if v = Some (JStr ''RESULT_IGNORED_STALE'') then Some ResultIgnoredStale
      else None)"

section \<open>The codec\<close>

definition decode_hello :: "json \<Rightarrow> agent_message" where
  "decode_hello h = MsgHello \<lparr>he_protocolVersion = num (json_prop h ''protocolVersion''),
     he_agentVersion = str (json_prop h ''agentVersion'') 64,
     he_maxOfflineSeconds = num (json_prop h ''maxOfflineSeconds''),
     he_heartbeatSeconds = num (json_prop h ''heartbeatSeconds''),
     he_maxSnapshotBytes = num (json_prop h ''maxSnapshotBytes''),
     he_providerName = str (json_prop h ''providerName'') 256,
     he_acceptedVersion = num (json_prop h ''acceptedVersion'')\<rparr>"

definition decode_report :: "json \<Rightarrow> agent_message option" where
  "decode_report r = (case result_of (json_prop r ''result'') of
     None \<Rightarrow> None
   | Some result \<Rightarrow> Some (MsgReport \<lparr>rp_version = num (json_prop r ''version''),
       rp_correlationId = str (json_prop r ''correlationId'') 128, rp_result = result,
       rp_error = str (json_prop r ''error'') MAX_TEXT, rp_agentVersion = str (json_prop r ''agentVersion'') 64,
       rp_stale = (json_prop r ''stale'' = Some (JBool True)), rp_files = sums (json_prop r ''files''),
       rp_templates = sums (json_prop r ''templates''), rp_traefikCheck = checkFrom (json_prop r ''traefikCheck'')\<rparr>))"

definition decodeEnvelope :: "json \<Rightarrow> agent_message option" where
  "decodeEnvelope envelope = (case json_prop envelope ''body'' of
     Some (JStr body) \<Rightarrow>
       if body = ''hello'' then Some (decode_hello (prop_object envelope ''hello''))
       else if body = ''report'' then decode_report (prop_object envelope ''report'')
       else if body = ''heartbeat'' then Some (MsgHeartbeat (num (json_prop (prop_object envelope ''heartbeat'') ''nonce'')))
       else if body = ''syncRequest'' then Some MsgSyncRequest
       else if body = ''bye'' then Some (MsgBye (str (json_prop (prop_object envelope ''bye'') ''reason'') 256))
       else None
   | _ \<Rightarrow> None)"

definition wire_entry :: "SnapshotEntry \<Rightarrow> json" where
  "wire_entry e = JObj [(''deviceName'', JStr (se_deviceName e)), (''ips'', JArr (map JStr (se_ips e)))]"

definition wire_group :: "SnapshotGroup \<Rightarrow> json" where
  "wire_group g = JObj [(''key'', JStr (sg_key g)), (''entries'', JArr (map wire_entry (sg_entries g)))]"

text \<open>\<open>Inl\<close> is the error the code throws for a report.\<close>

fun encodeEnvelope :: "(timestamp \<Rightarrow> string) \<Rightarrow> agent_message \<Rightarrow> exn + json" where
  "encodeEnvelope to_iso (MsgHello m) = Inr (JObj [(''hello'', JObj [
      (''protocolVersion'', JNum (int (he_protocolVersion m))), (''agentVersion'', JStr (he_agentVersion m)),
      (''maxOfflineSeconds'', JNum (int (he_maxOfflineSeconds m))),
      (''heartbeatSeconds'', JNum (int (he_heartbeatSeconds m))),
      (''maxSnapshotBytes'', JNum (int (he_maxSnapshotBytes m))),
      (''providerName'', JStr (he_providerName m)), (''acceptedVersion'', JNum (int (he_acceptedVersion m)))])])"
| "encodeEnvelope to_iso (MsgSnapshot s) = Inr (JObj [(''snapshot'', JObj [
      (''version'', JNum (int (sp_version s))), (''correlationId'', JStr (sp_correlationId s)),
      (''generatedAt'', JStr (to_iso (sp_generatedAt s))), (''providerName'', JStr (sc_providerName (sp_content s))),
      (''groups'', JArr (map wire_group (sc_groups (sp_content s))))])])"
| "encodeEnvelope to_iso (MsgHeartbeat n) = Inr (JObj [(''heartbeat'', JObj [(''nonce'', JNum (int n))])])"
| "encodeEnvelope to_iso MsgSyncRequest = Inr (JObj [(''syncRequest'', JObj [])])"
| "encodeEnvelope to_iso (MsgBye reason) = Inr (JObj [(''bye'', JObj [(''reason'', JStr reason)])])"
| "encodeEnvelope to_iso (MsgReport r) = Inl (JsError ''the server never sends reports'')"

section \<open>Bounds\<close>

definition texts_bounded :: "string list \<Rightarrow> bool" where
  "texts_bounded xs = (length xs \<le> MAX_FILES \<and> (\<forall>x \<in> set xs. length x \<le> 256))"

definition sums_bounded :: "FileChecksum list \<Rightarrow> bool" where
  "sums_bounded fs = (length fs \<le> MAX_FILES \<and> (\<forall>f \<in> set fs. length (fc_name f) \<le> 256 \<and> length (fc_sha256 f) \<le> 64))"

text \<open>What a decoded message of an agent keeps to: the limits of its texts and lists, and its kind.\<close>

fun message_bounded :: "agent_message \<Rightarrow> bool" where
  "message_bounded (MsgHello m) = (length (he_agentVersion m) \<le> 64 \<and> length (he_providerName m) \<le> 256)"
| "message_bounded (MsgReport r) = (length (rp_correlationId r) \<le> 128 \<and> length (rp_error r) \<le> MAX_TEXT
     \<and> length (rp_agentVersion r) \<le> 64 \<and> sums_bounded (rp_files r) \<and> sums_bounded (rp_templates r)
     \<and> (case rp_traefikCheck r of None \<Rightarrow> True | Some c \<Rightarrow> texts_bounded (tc_loaded c) \<and> texts_bounded (tc_missing c)))"
| "message_bounded (MsgBye reason) = (length reason \<le> 256)"
| "message_bounded (MsgSnapshot s) = False"
| "message_bounded _ = True"

lemma str_bounded [simp]: "length (str v n) \<le> n"
  by (auto simp: str_def split: option.split json.split)

lemma sums_bounded [simp]: "sums_bounded (sums v)"
  by (auto simp: sums_bounded_def sums_def split: option.split json.split)

lemma strings_bounded [simp]: "texts_bounded (strings v)"
  by (auto simp: texts_bounded_def strings_def split: option.split json.split)

lemma checkFrom_bounded: "checkFrom v = Some c \<Longrightarrow> texts_bounded (tc_loaded c) \<and> texts_bounded (tc_missing c)"
  by (auto simp: checkFrom_def split: option.splits json.splits)

lemma decode_report_bounded: "decode_report r = Some m \<Longrightarrow> message_bounded m"
  by (auto simp: decode_report_def checkFrom_bounded split: option.splits)

section \<open>Properties\<close>

text \<open>Whatever an agent sends, the decoded message is bounded: every text is cut to its limit, no list has
  more than 500 items, and no snapshot is ever accepted from an agent, so one message cannot put more than
  that into the event log.\<close>
theorem decoded_messages_bounded:
  "case decodeEnvelope envelope of None \<Rightarrow> True | Some m \<Rightarrow> message_bounded m"
proof (cases "json_prop envelope ''body''")
  case (Some v)
  show ?thesis
  proof (cases v)
    case (JStr body)
    with Some show ?thesis
      by (simp add: decodeEnvelope_def decode_hello_def decode_report_bounded split: option.split)
  qed (use Some in \<open>simp_all add: decodeEnvelope_def\<close>)
qed (simp add: decodeEnvelope_def)

end
