(* ===== verification/Sessions.thy ===== *)
theory Sessions
  imports AgentProtocol
begin

text \<open>
  Live agent sessions: \<open>adapters/agent-grpc/session-registry.ts\<close>, the session handler
  (\<open>domain/traefik-provider/agent-session-handler.ts\<close>) and the part of
  \<open>adapters/agent-grpc/grpc-agent-server.ts\<close> that connects a gRPC stream to it.

  The handler is a state machine: a step is what runs between two \<open>await\<close>s, \<open>ss_pc\<close> says at which
  \<open>await\<close> of \<open>process\<close> the session is and \<open>ss_closing\<close> at which of \<open>onClosed\<close>; the promise chain is the
  inbox. The steps of different sessions, other writers of the store, timers and the transport
  interleave freely in \<open>session_step\<close>. \<open>closed\<close> and \<open>finished\<close> are set together, and the channel's
  \<open>ended\<close> is set in the same step as they are, so they are one flag. What a channel writes to its stream is
  the log \<open>sx_sent\<close>. A database call and the code after its \<open>await\<close> are one step.
  The waiting of \<open>onClosed\<close> for the chain is the condition that \<open>process\<close> is at no \<open>await\<close>: the
  messages still queued then do nothing, since the session is closed.
\<close>

section \<open>The session registry\<close>

record ActiveSession =
  as_providerId :: id
  as_accountId :: id
  as_sessionId :: id
  as_tokenId :: id
  as_connectedAt :: timestamp

type_synonym registry = "(id \<times> ActiveSession) list"

definition registry_register :: "registry \<Rightarrow> ActiveSession \<Rightarrow> ActiveSession option \<times> registry" where
  "registry_register reg session =
     (map_of reg (as_providerId session), AList.update (as_providerId session) session reg)"

definition registry_unregister :: "registry \<Rightarrow> id \<Rightarrow> id \<Rightarrow> bool \<times> registry" where
  "registry_unregister reg providerId sessionId = (case map_of reg providerId of
     None \<Rightarrow> (False, reg)
   | Some current \<Rightarrow> if as_sessionId current \<noteq> sessionId then (False, reg) else (True, AList.delete providerId reg))"

definition registry_isConnected :: "registry \<Rightarrow> id \<Rightarrow> bool" where
  "registry_isConnected reg providerId = (map_of reg providerId \<noteq> None)"

text \<open>The channel a message is sent on, if any; the sessions whose channels a termination closes, in order.\<close>

definition registry_push :: "registry \<Rightarrow> id \<Rightarrow> id option" where
  "registry_push reg providerId = map_option as_sessionId (map_of reg providerId)"

definition terminateByToken :: "registry \<Rightarrow> id \<Rightarrow> id \<Rightarrow> id list" where
  "terminateByToken reg providerId tokenId = (case map_of reg providerId of
     None \<Rightarrow> []
   | Some session \<Rightarrow> if as_tokenId session \<noteq> tokenId then [] else [as_sessionId session])"

definition terminateByProvider :: "registry \<Rightarrow> id \<Rightarrow> id list" where
  "terminateByProvider reg providerId = (case map_of reg providerId of
     None \<Rightarrow> [] | Some session \<Rightarrow> [as_sessionId session])"

definition terminateByAccount :: "registry \<Rightarrow> id \<Rightarrow> id list" where
  "terminateByAccount reg accountId =
     map as_sessionId (filter (\<lambda>session. as_accountId session = accountId) (map snd reg))"

definition terminateAll :: "registry \<Rightarrow> id list" where
  "terminateAll reg = map as_sessionId (map snd reg)"

definition registry_connected :: "registry \<Rightarrow> (id \<times> id) list" where
  "registry_connected reg = map (\<lambda>s. (as_accountId s, as_providerId s)) (map snd reg)"

definition registry_size :: "registry \<Rightarrow> nat" where
  "registry_size reg = length reg"

text \<open>The port the handler relies on, and what it promises.\<close>

locale session_registry =
  fixes current :: "'r \<Rightarrow> id \<Rightarrow> ActiveSession option"
    and reg_add :: "'r \<Rightarrow> ActiveSession \<Rightarrow> ActiveSession option \<times> 'r"
    and reg_remove :: "'r \<Rightarrow> id \<Rightarrow> id \<Rightarrow> bool \<times> 'r"
  assumes add_returns: "fst (reg_add r s) = current r (as_providerId s)"
    and add_current: "current (snd (reg_add r s)) = (current r)(as_providerId s \<mapsto> s)"
    and remove_own: "current r p = Some s \<Longrightarrow> as_sessionId s = i \<Longrightarrow>
      fst (reg_remove r p i) \<and> current (snd (reg_remove r p i)) = (current r)(p := None)"
    and remove_other: "(\<And>s. current r p = Some s \<Longrightarrow> as_sessionId s \<noteq> i) \<Longrightarrow>
      \<not> fst (reg_remove r p i) \<and> current (snd (reg_remove r p i)) = current r"
begin

text \<open>A superseded session that ends does not evict its successor.\<close>

lemma successor_stays:
  assumes "as_sessionId s \<noteq> i"
  shows "current (snd (reg_remove (snd (reg_add r s)) (as_providerId s) i)) (as_providerId s) = Some s"
  using remove_other [of "snd (reg_add r s)" "as_providerId s" i] assms by (simp add: add_current)

lemma remove_current:
  "current (snd (reg_remove r p i)) q =
     (if q = p \<and> (\<exists>s. current r p = Some s \<and> as_sessionId s = i) then None else current r q)"
  using remove_own [of r p _ i] remove_other [of r p i] by (cases "\<exists>s. current r p = Some s \<and> as_sessionId s = i") auto

end

interpretation sr: session_registry map_of registry_register registry_unregister
  by unfold_locales (auto simp: registry_register_def registry_unregister_def split: option.split)

section \<open>The session handler\<close>

datatype pc =
    Idle
  | AppendConnected TraefikProviderAgentConnectedData
  | LoadForHello nat
  | PublishCurrent bool
  | AppendReport traefik_provider_event

datatype closing =
    NotClosing
  | AwaitChain disconnect_reason
  | LoadBeforeDisconnect disconnect_reason
  | AppendDisconnected disconnect_reason timestamp
  | Finished

record Session =
  ss_providerId :: id
  ss_accountId :: id
  ss_tokenId :: id
  ss_helloSeen :: bool
  ss_connectedRecorded :: bool
  ss_closed :: bool
  ss_disconnectRecorded :: bool
  ss_closeReason :: "CloseReason option"
  ss_heartbeatTimer :: bool
  ss_lastReceivedAt :: timestamp
  ss_nonce :: nat
  ss_pc :: pc
  ss_closing :: closing
  ss_inbox :: "agent_message list"

text \<open>What a stream is given: a message, \<open>call.end()\<close>, or the error of \<open>fail\<close>.\<close>

datatype channel_output = Message agent_message | EndStream | FailStream close_code string

record sessions =
  sx_rows :: event_store
  sx_registry :: registry
  sx_sessions :: "id \<Rightarrow> Session option"
  sx_sent :: "(id \<times> channel_output) list"

definition new_session :: "id \<Rightarrow> id \<Rightarrow> id \<Rightarrow> timestamp \<Rightarrow> Session" where
  "new_session accountId providerId tokenId now = \<lparr>ss_providerId = providerId, ss_accountId = accountId,
     ss_tokenId = tokenId, ss_helloSeen = False, ss_connectedRecorded = False, ss_closed = False,
     ss_disconnectRecorded = False, ss_closeReason = None, ss_heartbeatTimer = False,
     ss_lastReceivedAt = now, ss_nonce = 0, ss_pc = Idle, ss_closing = NotClosing, ss_inbox = []\<rparr>"

definition close_reason :: "close_code \<Rightarrow> string \<Rightarrow> disconnect_reason \<Rightarrow> CloseReason" where
  "close_reason code message disconnect = \<lparr>cr_code = code, cr_message = message, cr_disconnect = disconnect\<rparr>"

definition upd_session :: "id \<Rightarrow> (Session \<Rightarrow> Session) \<Rightarrow> sessions \<Rightarrow> sessions" where
  "upd_session i f w = w\<lparr>sx_sessions := (sx_sessions w)(i := map_option f (sx_sessions w i))\<rparr>"

text \<open>\<open>channel.send\<close>: nothing is written once the stream has ended.\<close>

definition session_emit :: "id \<Rightarrow> channel_output \<Rightarrow> sessions \<Rightarrow> sessions" where
  "session_emit i x w = w\<lparr>sx_sent := sx_sent w @ [(i, x)]\<rparr>"

definition session_send :: "id \<Rightarrow> agent_message \<Rightarrow> sessions \<Rightarrow> sessions" where
  "session_send i m w = (case sx_sessions w i of
     None \<Rightarrow> w
   | Some s \<Rightarrow> if ss_closed s then w else session_emit i (Message m) w)"

text \<open>\<open>onClosed\<close> up to its first \<open>await\<close>; \<open>reason\<close> is absent when the transport is gone.\<close>

definition default_reason :: CloseReason where
  "default_reason = close_reason CodeOk ''closed'' DrClosed"

definition session_onClosed :: "id \<Rightarrow> CloseReason option \<Rightarrow> sessions \<Rightarrow> sessions" where
  "session_onClosed i reason w = (case sx_sessions w i of
     None \<Rightarrow> w
   | Some s \<Rightarrow>
       if ss_closed s then w
       else (let effective = nullish_or (nullish reason (ss_closeReason s)) default_reason in
         upd_session i (\<lambda>s. s\<lparr>ss_closed := True, ss_heartbeatTimer := False,
             ss_closing := AwaitChain (cr_disconnect effective)\<rparr>)
           (w\<lparr>sx_registry := snd (registry_unregister (sx_registry w) (ss_providerId s) i)\<rparr>)))"

text \<open>
  \<open>channel.close\<close> and \<open>terminate\<close>. A reason other than \<open>ok\<close> is given to the stream as an error event, which Node
  delivers before \<open>emit\<close> returns: the listener that the server registered for it has called \<open>onClosed\<close> without a
  reason before \<open>close\<close> calls it with one.
\<close>

definition session_fail :: "id \<Rightarrow> CloseReason \<Rightarrow> sessions \<Rightarrow> sessions" where
  "session_fail i reason w = session_onClosed i None (session_emit i (FailStream (cr_code reason) (cr_message reason)) w)"

definition session_close :: "id \<Rightarrow> CloseReason \<Rightarrow> sessions \<Rightarrow> sessions" where
  "session_close i reason w = (case sx_sessions w i of
     None \<Rightarrow> w
   | Some s \<Rightarrow> if ss_closed s then w
       else session_onClosed i (Some reason)
         (if cr_code reason = CodeOk then session_emit i EndStream w else session_fail i reason w))"

text \<open>The client half-closes: the server's \<open>end\<close> listener answers with its own end.\<close>

definition session_end :: "id \<Rightarrow> sessions \<Rightarrow> sessions" where
  "session_end i w = (case sx_sessions w i of
     None \<Rightarrow> w
   | Some s \<Rightarrow> session_onClosed i None (if ss_closed s then w else session_emit i EndStream w))"

definition session_terminate :: "id \<Rightarrow> CloseReason \<Rightarrow> sessions \<Rightarrow> sessions" where
  "session_terminate i reason w = (case sx_sessions w i of
     None \<Rightarrow> w
   | Some s \<Rightarrow> if ss_closeReason s \<noteq> None then w
       else session_close i reason (upd_session i (\<lambda>s. s\<lparr>ss_closeReason := Some reason\<rparr>) w))"

text \<open>\<open>onHello\<close> up to the append of \<open>agent_connected\<close>.\<close>

definition superseded_reason :: CloseReason where
  "superseded_reason = close_reason CodeAborted ''superseded by a newer connection'' DrSuperseded"

definition session_onHello :: "id \<Rightarrow> HelloMessage \<Rightarrow> timestamp \<Rightarrow> sessions \<Rightarrow> sessions" where
  "session_onHello i hello now w = (case sx_sessions w i of
     None \<Rightarrow> w
   | Some s \<Rightarrow>
      (let accepted = min (he_protocolVersion hello) PROTOCOL_MAX_VERSION in
       if accepted < PROTOCOL_MIN_VERSION
       then session_terminate i (close_reason CodeFailedPrecondition
         (''protocol_version_unsupported: agent speaks v'' @ nat_to_string (he_protocolVersion hello) @ '', server supports v''
            @ nat_to_string PROTOCOL_MIN_VERSION @ ''..v'' @ nat_to_string PROTOCOL_MAX_VERSION @ '', update the agent'')
         DrError) w
       else
        (let (replaced, reg) = registry_register (sx_registry w)
               \<lparr>as_providerId = ss_providerId s, as_accountId = ss_accountId s, as_sessionId = i,
                as_tokenId = ss_tokenId s, as_connectedAt = now\<rparr>;
             w1 = upd_session i (\<lambda>s. s\<lparr>ss_helloSeen := True\<rparr>) (w\<lparr>sx_registry := reg\<rparr>);
             w2 = (case replaced of
                 None \<Rightarrow> w1
               | Some old \<Rightarrow> session_close (as_sessionId old) superseded_reason
                   (session_send (as_sessionId old) (MsgBye ''superseded'') w1))
         in upd_session i (\<lambda>t. t\<lparr>ss_pc := AppendConnected \<lparr>agc_sessionId = i, agc_tokenId = ss_tokenId s,
              agc_agentVersion = he_agentVersion hello, agc_protocolVersion = accepted,
              agc_maxOfflineSeconds = he_maxOfflineSeconds hello, agc_replacedPrevious = (replaced \<noteq> None),
              agc_connectedAt = now\<rparr>\<rparr>) w2)))"

text \<open>\<open>onReport\<close>: the event a report is recorded as.\<close>

definition report_event :: "ReportMessage \<Rightarrow> timestamp \<Rightarrow> traefik_provider_event option" where
  "report_event report appliedAt = (case rp_result report of
     ResultIgnoredStale \<Rightarrow> None
   | ResultOk \<Rightarrow> Some (SnapshotApplied \<lparr>sap_version = rp_version report, sap_correlationId = rp_correlationId report,
       sap_agentVersion = rp_agentVersion report, sap_stale = rp_stale report, sap_files = rp_files report,
       sap_templates = rp_templates report, sap_traefikCheck = rp_traefikCheck report, sap_appliedAt = appliedAt\<rparr>)
   | ResultError \<Rightarrow> Some (SnapshotApplyFailed \<lparr>saf_version = rp_version report,
       saf_correlationId = rp_correlationId report, saf_reason = or_default (rp_error report) ''unknown error'',
       saf_appliedAt = appliedAt\<rparr>))"

definition session_pc :: "id \<Rightarrow> pc \<Rightarrow> sessions \<Rightarrow> sessions" where
  "session_pc i p w = upd_session i (\<lambda>s. s\<lparr>ss_pc := p\<rparr>) w"

text \<open>\<open>process\<close> up to its first \<open>await\<close>.\<close>

definition session_process :: "id \<Rightarrow> agent_message \<Rightarrow> timestamp \<Rightarrow> sessions \<Rightarrow> sessions" where
  "session_process i m now w = (case sx_sessions w i of
     None \<Rightarrow> w
   | Some s \<Rightarrow>
       if ss_closed s then w
       else (let w = upd_session i (\<lambda>s. s\<lparr>ss_lastReceivedAt := now\<rparr>) w in
         if \<not> ss_helloSeen s
         then (case m of
             MsgHello hello \<Rightarrow> session_onHello i hello now w
           | _ \<Rightarrow> session_terminate i (close_reason CodeFailedPrecondition ''hello must be the first message'' DrError) w)
         else (case m of
             MsgHello _ \<Rightarrow> w
           | MsgReport report \<Rightarrow> (case report_event report now of
                 None \<Rightarrow> w | Some ev \<Rightarrow> session_pc i (AppendReport ev) w)
           | MsgSyncRequest \<Rightarrow> session_pc i (PublishCurrent False) w
           | MsgHeartbeat _ \<Rightarrow> w
           | MsgBye reason \<Rightarrow> session_terminate i (close_reason CodeOk (or_default reason ''agent said bye'') DrClosed) w
           | MsgSnapshot _ \<Rightarrow> w)))"

text \<open>The next queued message.\<close>

definition session_receive :: "id \<Rightarrow> agent_message \<Rightarrow> sessions \<Rightarrow> sessions" where
  "session_receive i m w = upd_session i (\<lambda>s. s\<lparr>ss_inbox := ss_inbox s @ [m]\<rparr>) w"

definition session_next :: "id \<Rightarrow> timestamp \<Rightarrow> sessions \<Rightarrow> sessions" where
  "session_next i now w = (case sx_sessions w i of
     None \<Rightarrow> w
   | Some s \<Rightarrow> (case ss_inbox s of
       [] \<Rightarrow> w
     | m # ms \<Rightarrow> if ss_pc s \<noteq> Idle then w
         else session_process i m now (upd_session i (\<lambda>s. s\<lparr>ss_inbox := ms\<rparr>) w)))"

section \<open>Continuing after an await\<close>

record session_env =
  se_config :: Config
  se_compare :: "string \<Rightarrow> string \<Rightarrow> int"
  se_crypto :: crypto
  se_serverVersion :: "string option"

definition internal_reason :: CloseReason where
  "internal_reason = close_reason CodeInternal ''internal error'' DrError"

text \<open>
  The rest of \<open>process\<close>, one \<open>await\<close> at a time, with the events this appended. An exception ends the
  session (\<open>handle\<close>'s \<open>catch\<close>).
\<close>

definition append_in_session ::
  "session_env \<Rightarrow> tick \<Rightarrow> id \<Rightarrow> Session \<Rightarrow> traefik_provider_event \<Rightarrow> (sessions \<Rightarrow> sessions) \<Rightarrow> sessions \<Rightarrow>
   sessions \<times> (id \<times> traefik_provider_event) list" where
  "append_in_session env tk i s ev continue w =
     (case provider_append (se_config env) tk (sx_rows w) (ss_accountId s) (ss_providerId s) ev of
        (Inr e, rows) \<Rightarrow> (continue (w\<lparr>sx_rows := rows\<rparr>), [(i, ev)])
      | (Inl err, rows) \<Rightarrow> (session_terminate i internal_reason (session_pc i Idle (w\<lparr>sx_rows := rows\<rparr>)), []))"

definition session_advance ::
  "session_env \<Rightarrow> (nat \<Rightarrow> tick) \<Rightarrow> id \<Rightarrow> sessions \<Rightarrow> sessions \<times> (id \<times> traefik_provider_event) list" where
  "session_advance env tk i w = (case sx_sessions w i of
     None \<Rightarrow> (w, [])
   | Some s \<Rightarrow> (case ss_pc s of
       Idle \<Rightarrow> (w, [])
     | AppendConnected d \<Rightarrow> append_in_session env (tk 0) i s (AgentConnected d)
         (upd_session i (\<lambda>s. s\<lparr>ss_connectedRecorded := True, ss_pc := LoadForHello (agc_protocolVersion d)\<rparr>)) w
     | LoadForHello accepted \<Rightarrow>
         (session_pc i (PublishCurrent True) (session_send i (MsgHello
            \<lparr>he_protocolVersion = PROTOCOL_MAX_VERSION,
             he_agentVersion = nullish_or (se_serverVersion env) ''fluxip'', he_maxOfflineSeconds = 0,
             he_heartbeatSeconds = nat (cfg_agentHeartbeatSeconds (se_config env)),
             he_maxSnapshotBytes = nat (cfg_agentSnapshotMaxBytes (se_config env)),
             he_providerName = (case provider_loadActive (sx_rows w) (ss_accountId s) (ss_providerId s) of
                 None \<Rightarrow> [] | Some loaded \<Rightarrow> tp_name (ld_state loaded)),
             he_acceptedVersion = accepted\<rparr>) w), [])
     | PublishCurrent afterHello \<Rightarrow>
         (case publishNow (se_compare env) (se_crypto env) (se_config env) tk (sx_rows w)
                 (ss_accountId s) (ss_providerId s) None of
            (Inl err, rows) \<Rightarrow> (session_terminate i internal_reason (session_pc i Idle (w\<lparr>sx_rows := rows\<rparr>)), [])
          | (Inr snapshot, rows) \<Rightarrow>
              (let w1 = w\<lparr>sx_rows := rows\<rparr>;
                   w2 = (case snapshot of None \<Rightarrow> w1 | Some p \<Rightarrow> session_send i (MsgSnapshot p) w1)
               in (upd_session i (\<lambda>s. s\<lparr>ss_pc := Idle,
                     ss_heartbeatTimer := (if afterHello then True else ss_heartbeatTimer s)\<rparr>) w2, [])))
     | AppendReport ev \<Rightarrow> append_in_session env (tk 0) i s ev (session_pc i Idle) w))"

text \<open>The rest of \<open>onClosed\<close>.\<close>

definition session_close_advance ::
  "session_env \<Rightarrow> tick \<Rightarrow> id \<Rightarrow> sessions \<Rightarrow> sessions \<times> (id \<times> traefik_provider_event) list" where
  "session_close_advance env tk i w = (case sx_sessions w i of
     None \<Rightarrow> (w, [])
   | Some s \<Rightarrow> (case ss_closing s of
       NotClosing \<Rightarrow> (w, [])
     | AwaitChain reason \<Rightarrow>
         if ss_pc s \<noteq> Idle then (w, [])
         else if \<not> ss_connectedRecorded s \<or> ss_disconnectRecorded s
         then (upd_session i (\<lambda>s. s\<lparr>ss_closing := Finished\<rparr>) w, [])
         else (upd_session i (\<lambda>s. s\<lparr>ss_disconnectRecorded := True, ss_closing := LoadBeforeDisconnect reason\<rparr>) w, [])
     | LoadBeforeDisconnect reason \<Rightarrow>
         (if \<not> truthy (tp_providerId (ld_state (provider_load (sx_rows w) (ss_accountId s) (ss_providerId s))))
          then (upd_session i (\<lambda>s. s\<lparr>ss_closing := Finished\<rparr>) w, [])
          else (upd_session i (\<lambda>s. s\<lparr>ss_closing := AppendDisconnected reason (tk_now tk)\<rparr>) w, []))
     | AppendDisconnected reason at \<Rightarrow>
         (let ev = AgentDisconnected \<lparr>agd_sessionId = i, agd_reason = reason, agd_disconnectedAt = at\<rparr> in
          case provider_append (se_config env) tk (sx_rows w) (ss_accountId s) (ss_providerId s) ev of
            (res, rows) \<Rightarrow> (upd_session i (\<lambda>s. s\<lparr>ss_closing := Finished\<rparr>) (w\<lparr>sx_rows := rows\<rparr>),
              (case res of Inr e \<Rightarrow> [(i, ev)] | Inl err \<Rightarrow> [])))
     | Finished \<Rightarrow> (w, [])))"

text \<open>One tick of the heartbeat interval.\<close>

definition HEARTBEAT_MISSES_ALLOWED :: nat where
  "HEARTBEAT_MISSES_ALLOWED = 3"

definition session_heartbeat :: "session_env \<Rightarrow> id \<Rightarrow> timestamp \<Rightarrow> sessions \<Rightarrow> sessions" where
  "session_heartbeat env i now w = (case sx_sessions w i of
     None \<Rightarrow> w
   | Some s \<Rightarrow>
      (let intervalMs = max 1 (cfg_agentHeartbeatSeconds (se_config env)) * 1000 in
       if \<not> ss_heartbeatTimer s \<or> ss_closed s then w
       else if int now - int (ss_lastReceivedAt s) > intervalMs * int HEARTBEAT_MISSES_ALLOWED
       then session_terminate i (close_reason CodeDeadlineExceeded ''heartbeat timeout'' DrTimeout) w
       else session_send i (MsgHeartbeat (ss_nonce s + 1)) (upd_session i (\<lambda>s. s\<lparr>ss_nonce := ss_nonce s + 1\<rparr>) w)))"

section \<open>Steps\<close>

text \<open>\<open>SessionRegistry.push\<close>: the coordinator and its resync send a snapshot to the provider's registered session.\<close>

definition session_push :: "id \<Rightarrow> agent_message \<Rightarrow> sessions \<Rightarrow> sessions" where
  "session_push providerId m w = (case registry_push (sx_registry w) providerId of
     None \<Rightarrow> w
   | Some i \<Rightarrow> session_send i m w)"

text \<open>
  \<open>step_open\<close> is a stream that passed authentication; \<open>step_other\<close> is everything else that writes the store;
  \<open>step_push\<close> a push to a provider, at any time; \<open>step_close\<close> a termination by token, provider, account or
  shutdown.
\<close>

inductive session_step ::
  "session_env \<Rightarrow> sessions \<Rightarrow> (id \<times> traefik_provider_event) list \<Rightarrow> sessions \<Rightarrow> bool" for env where
  step_open: "sx_sessions w i = None \<Longrightarrow>
    session_step env w [] (w\<lparr>sx_sessions := (sx_sessions w)(i \<mapsto> new_session acc p tok now)\<rparr>)"
| step_receive: "session_step env w [] (session_receive i m w)"
| step_next: "session_step env w [] (session_next i now w)"
| step_advance: "session_advance env tk i w = (w', out) \<Longrightarrow> session_step env w out w'"
| step_close_advance: "session_close_advance env t i w = (w', out) \<Longrightarrow> session_step env w out w'"
| step_heartbeat: "session_step env w [] (session_heartbeat env i now w)"
| step_transport: "session_step env w [] (session_onClosed i None w)"
| step_end: "session_step env w [] (session_end i w)"
| step_close: "session_step env w [] (session_close i reason w)"
| step_push: "session_step env w [] (session_push p m w)"
| step_other: "session_step env w [] (w\<lparr>sx_rows := rows\<rparr>)"

inductive session_trace :: "session_env \<Rightarrow> event_store \<Rightarrow> (id \<times> traefik_provider_event) list \<Rightarrow> sessions \<Rightarrow> bool" for env rows where
  strace_init: "session_trace env rows [] \<lparr>sx_rows = rows, sx_registry = [], sx_sessions = (\<lambda>i. None), sx_sent = []\<rparr>"
| strace_step: "session_trace env rows log w \<Longrightarrow> session_step env w out w' \<Longrightarrow> session_trace env rows (log @ out) w'"

section \<open>Invariant\<close>

definition live :: "Session \<Rightarrow> bool" where
  "live s = (ss_helloSeen s \<and> \<not> ss_closed s)"

fun connection_kind :: "traefik_provider_event \<Rightarrow> bool option" where
  "connection_kind (AgentConnected d) = Some True"
| "connection_kind (AgentDisconnected d) = Some False"
| "connection_kind _ = None"

text \<open>The connects (True) and disconnects (False) recorded for a session, in order.\<close>

definition connection_log :: "id \<Rightarrow> (id \<times> traefik_provider_event) list \<Rightarrow> bool list" where
  "connection_log i log = List.map_filter (\<lambda>(j, ev). if j = i then connection_kind ev else None) log"

fun closing_late :: "closing \<Rightarrow> bool" where
  "closing_late (LoadBeforeDisconnect r) = True"
| "closing_late (AppendDisconnected r t) = True"
| "closing_late _ = False"

definition local_ok :: "Session \<Rightarrow> bool" where
  "local_ok s = (
     (ss_closed s \<longleftrightarrow> ss_closing s \<noteq> NotClosing)
     \<and> (ss_pc s \<noteq> Idle \<longrightarrow> ss_helloSeen s \<and> \<not> closing_late (ss_closing s) \<and> ss_closing s \<noteq> Finished)
     \<and> (\<forall>d. ss_pc s = AppendConnected d \<longrightarrow> \<not> ss_connectedRecorded s)
     \<and> (\<forall>ev. ss_pc s = AppendReport ev \<longrightarrow> connection_kind ev = None)
     \<and> (ss_connectedRecorded s \<longrightarrow> ss_helloSeen s)
     \<and> (ss_disconnectRecorded s \<longrightarrow> ss_connectedRecorded s \<and> (closing_late (ss_closing s) \<or> ss_closing s = Finished))
     \<and> (closing_late (ss_closing s) \<longrightarrow> ss_disconnectRecorded s))"

definition log_ok :: "Session \<Rightarrow> bool list \<Rightarrow> bool" where
  "log_ok s l = (
     if \<not> ss_connectedRecorded s then l = []
     else l = [True] \<or> (l = [True, False] \<and> ss_disconnectRecorded s \<and> ss_closing s = Finished))"

definition sessions_ok :: "sessions \<Rightarrow> (id \<times> traefik_provider_event) list \<Rightarrow> bool" where
  "sessions_ok w log = (
     (\<forall>i s. sx_sessions w i = Some s \<longrightarrow> local_ok s \<and> log_ok s (connection_log i log))
     \<and> (\<forall>i. sx_sessions w i = None \<longrightarrow> connection_log i log = [])
     \<and> (\<forall>p a. map_of (sx_registry w) p = Some a \<longrightarrow>
          (\<exists>s. sx_sessions w (as_sessionId a) = Some s \<and> live s \<and> ss_providerId s = p))
     \<and> (\<forall>i s. sx_sessions w i = Some s \<longrightarrow> live s \<longrightarrow>
          (\<exists>a. map_of (sx_registry w) (ss_providerId s) = Some a \<and> as_sessionId a = i \<and> as_tokenId a = ss_tokenId s)))"

lemma sessions_okD:
  "sessions_ok w log \<Longrightarrow> sx_sessions w i = Some s \<Longrightarrow> local_ok s"
  "sessions_ok w log \<Longrightarrow> sx_sessions w i = Some s \<Longrightarrow> log_ok s (connection_log i log)"
  "sessions_ok w log \<Longrightarrow> map_of (sx_registry w) p = Some a \<Longrightarrow>
     \<exists>s. sx_sessions w (as_sessionId a) = Some s \<and> live s \<and> ss_providerId s = p"
  "sessions_ok w log \<Longrightarrow> sx_sessions w i = Some s \<Longrightarrow> live s \<Longrightarrow>
     \<exists>a. map_of (sx_registry w) (ss_providerId s) = Some a \<and> as_sessionId a = i \<and> as_tokenId a = ss_tokenId s"
  unfolding sessions_ok_def by blast+

lemma connection_log_simps [simp]:
  "connection_log i [] = []"
  "connection_log i (xs @ ys) = connection_log i xs @ connection_log i ys"
  "connection_log i [(j, ev)] = (if j = i then (case connection_kind ev of None \<Rightarrow> [] | Some b \<Rightarrow> [b]) else [])"
proof -
  show "connection_log i (xs @ ys) = connection_log i xs @ connection_log i ys"
    by (induction xs) (auto simp: connection_log_def List.map_filter_simps split: option.splits)
qed (auto simp: connection_log_def List.map_filter_simps split: option.splits)

lemma upd_session_simps [simp]:
  "sx_sessions (upd_session i f w) = (sx_sessions w)(i := map_option f (sx_sessions w i))"
  "sx_registry (upd_session i f w) = sx_registry w" "sx_rows (upd_session i f w) = sx_rows w"
  by (simp_all add: upd_session_def)

lemma session_emit_simps [simp]:
  "sx_sessions (session_emit i x w) = sx_sessions w" "sx_registry (session_emit i x w) = sx_registry w"
  "sx_rows (session_emit i x w) = sx_rows w" "sx_sent (session_emit i x w) = sx_sent w @ [(i, x)]"
  by (simp_all add: session_emit_def)

lemma session_send_simps [simp]:
  "sx_sessions (session_send i m w) = sx_sessions w" "sx_registry (session_send i m w) = sx_registry w"
  "sx_rows (session_send i m w) = sx_rows w"
  by (simp_all add: session_send_def split: option.split)

text \<open>A step that changes one session but not whether it is live.\<close>

lemma sessions_ok_update:
  assumes "sessions_ok w log" and "sx_sessions w i = Some s"
    and "sx_sessions w' = (sx_sessions w)(i \<mapsto> s')" and "sx_registry w' = sx_registry w"
    and "ss_providerId s' = ss_providerId s" and "ss_tokenId s' = ss_tokenId s" and "live s' = live s"
    and "local_ok s'" and "log_ok s' (connection_log i (log @ out))"
    and "\<And>j. j \<noteq> i \<Longrightarrow> connection_log j out = []"
  shows "sessions_ok w' (log @ out)"
proof -
  have a: "\<forall>j t. sx_sessions w' j = Some t \<longrightarrow> local_ok t \<and> log_ok t (connection_log j (log @ out))"
    using assms(1,8,9,10) by (auto simp: assms(3) sessions_ok_def)
  have b: "\<forall>j. sx_sessions w' j = None \<longrightarrow> connection_log j (log @ out) = []"
    using assms(1,10) by (auto simp: assms(3) sessions_ok_def split: if_splits)
  have c: "\<forall>p a. map_of (sx_registry w') p = Some a \<longrightarrow>
      (\<exists>t. sx_sessions w' (as_sessionId a) = Some t \<and> live t \<and> ss_providerId t = p)"
  proof (intro allI impI)
    fix p a
    assume "map_of (sx_registry w') p = Some a"
    then have "map_of (sx_registry w) p = Some a" by (simp only: assms(4))
    from sessions_okD(3) [OF assms(1) this] obtain t where
      t: "sx_sessions w (as_sessionId a) = Some t" "live t" "ss_providerId t = p" by blast
    show "\<exists>t. sx_sessions w' (as_sessionId a) = Some t \<and> live t \<and> ss_providerId t = p"
      using t assms(2,5,7) by (cases "as_sessionId a = i") (simp_all add: assms(3))
  qed
  have d: "\<forall>j t. sx_sessions w' j = Some t \<longrightarrow> live t \<longrightarrow>
      (\<exists>a. map_of (sx_registry w') (ss_providerId t) = Some a \<and> as_sessionId a = j \<and> as_tokenId a = ss_tokenId t)"
    using sessions_okD(4) [OF assms(1)] assms(2,5,6,7) unfolding assms(3,4) by (auto split: if_splits)
  from a b c d show ?thesis unfolding sessions_ok_def by blast
qed

lemmas sessions_ok_quiet = sessions_ok_update [where out = "[]", simplified]

definition closed_session :: "CloseReason option \<Rightarrow> Session \<Rightarrow> Session" where
  "closed_session reason s = s\<lparr>ss_closed := True, ss_heartbeatTimer := False,
     ss_closing := AwaitChain (cr_disconnect (nullish_or (nullish reason (ss_closeReason s)) default_reason))\<rparr>"

lemma closed_session_simps [simp]:
  "ss_providerId (closed_session r s) = ss_providerId s" "ss_tokenId (closed_session r s) = ss_tokenId s"
  "\<not> live (closed_session r s)" "ss_connectedRecorded (closed_session r s) = ss_connectedRecorded s"
  by (simp_all add: closed_session_def live_def)

lemma closed_session_ok:
  "local_ok s \<Longrightarrow> \<not> ss_closed s \<Longrightarrow> local_ok (closed_session r s)"
  "local_ok s \<Longrightarrow> \<not> ss_closed s \<Longrightarrow> log_ok s l \<Longrightarrow> log_ok (closed_session r s) l"
  by (auto simp: closed_session_def local_ok_def log_ok_def)

lemma session_onClosed_open:
  assumes "sx_sessions w i = Some s" and "\<not> ss_closed s"
  shows "sx_sessions (session_onClosed i r w) = (sx_sessions w)(i \<mapsto> closed_session r s)"
    and "map_of (sx_registry (session_onClosed i r w)) p =
      (if p = ss_providerId s \<and> (\<exists>a. map_of (sx_registry w) p = Some a \<and> as_sessionId a = i) then None
       else map_of (sx_registry w) p)"
  using assms by (auto simp: session_onClosed_def Let_def closed_session_def sr.remove_current)

text \<open>The reason that \<open>onClosed\<close> works with when the channel is closed with a reason.\<close>

definition given_reason :: "CloseReason \<Rightarrow> CloseReason option" where
  "given_reason reason = (if cr_code reason = CodeOk then Some reason else None)"

lemma session_onClosed_noop:
  "sx_sessions w i = None \<or> (\<exists>s. sx_sessions w i = Some s \<and> ss_closed s) \<Longrightarrow> session_onClosed i r w = w"
  by (auto simp: session_onClosed_def)

lemma onClosed_emit: "session_onClosed i r (session_emit j x w) = session_emit j x (session_onClosed i r w)"
  by (simp add: session_onClosed_def session_emit_def Let_def upd_session_def split: option.split)

lemma onClosed_twice: "session_onClosed i r' (session_onClosed i r w) = session_onClosed i r w"
proof (cases "\<exists>s. sx_sessions w i = Some s \<and> \<not> ss_closed s")
  case True
  then obtain s where "sx_sessions w i = Some s" "\<not> ss_closed s" by blast
  from session_onClosed_open(1) [OF this] show ?thesis by (intro session_onClosed_noop) (simp add: closed_session_def)
next
  case False
  then have "session_onClosed i r w = w" "session_onClosed i r' w = w"
    by (intro session_onClosed_noop; cases "sx_sessions w i"; simp)+
  then show ?thesis by simp
qed

lemma session_close_open:
  assumes "sx_sessions w i = Some s" and "\<not> ss_closed s"
  shows "session_close i reason w = session_emit i
    (if cr_code reason = CodeOk then EndStream else FailStream (cr_code reason) (cr_message reason))
    (session_onClosed i (given_reason reason) w)"
  using assms by (simp add: session_close_def session_fail_def given_reason_def onClosed_emit onClosed_twice)

lemma session_close_state [simp]:
  "sx_sessions (session_close i reason w) = sx_sessions (session_onClosed i (given_reason reason) w)"
  "sx_registry (session_close i reason w) = sx_registry (session_onClosed i (given_reason reason) w)"
proof -
  have "sx_sessions (session_close i reason w) = sx_sessions (session_onClosed i (given_reason reason) w)
      \<and> sx_registry (session_close i reason w) = sx_registry (session_onClosed i (given_reason reason) w)"
  proof (cases "\<exists>s. sx_sessions w i = Some s \<and> \<not> ss_closed s")
    case True
    then obtain s where "sx_sessions w i = Some s" "\<not> ss_closed s" by blast
    from session_close_open [OF this] show ?thesis by simp
  next
    case False
    then have "session_onClosed i (given_reason reason) w = w" by (intro session_onClosed_noop; cases "sx_sessions w i"; simp)
    moreover from False have "session_close i reason w = w" by (auto simp: session_close_def split: option.split)
    ultimately show ?thesis by simp
  qed
  then show "sx_sessions (session_close i reason w) = sx_sessions (session_onClosed i (given_reason reason) w)"
    and "sx_registry (session_close i reason w) = sx_registry (session_onClosed i (given_reason reason) w)" by simp_all
qed

lemma session_end_state [simp]:
  "sx_sessions (session_end i w) = sx_sessions (session_onClosed i None w)"
  "sx_registry (session_end i w) = sx_registry (session_onClosed i None w)"
  by (auto simp: session_end_def onClosed_emit session_onClosed_noop split: option.split)

lemma sessions_ok_cong:
  "sx_sessions w' = sx_sessions w \<Longrightarrow> sx_registry w' = sx_registry w \<Longrightarrow> sessions_ok w' log = sessions_ok w log"
  by (simp add: sessions_ok_def)

lemma sessions_ok_onClosed:
  assumes ok: "sessions_ok w log"
  shows "sessions_ok (session_onClosed i r w) log"
proof (cases "\<exists>s. sx_sessions w i = Some s \<and> \<not> ss_closed s")
  case False
  then have "session_onClosed i r w = w" by (intro session_onClosed_noop) (cases "sx_sessions w i"; auto)
  with ok show ?thesis by simp
next
  case True
  then obtain s where s: "sx_sessions w i = Some s" "\<not> ss_closed s" by blast
  note w' = session_onClosed_open [OF s]
  note ok_s = sessions_okD(1,2) [OF ok s(1)]
  let ?w = "session_onClosed i r w"
  have "\<forall>j t. sx_sessions ?w j = Some t \<longrightarrow> local_ok t \<and> log_ok t (connection_log j log)"
    using ok_s closed_session_ok [OF ok_s(1) s(2)] sessions_okD(1,2) [OF ok] by (auto simp: w'(1))
  moreover have "\<forall>j. sx_sessions ?w j = None \<longrightarrow> connection_log j log = []"
    using ok by (auto simp: w'(1) sessions_ok_def split: if_splits)
  moreover have "\<forall>p a. map_of (sx_registry ?w) p = Some a \<longrightarrow>
      (\<exists>t. sx_sessions ?w (as_sessionId a) = Some t \<and> live t \<and> ss_providerId t = p)"
    using sessions_okD(3) [OF ok] s by (fastforce simp: w' split: if_splits)
  moreover have "\<forall>j t. sx_sessions ?w j = Some t \<longrightarrow> live t \<longrightarrow>
      (\<exists>a. map_of (sx_registry ?w) (ss_providerId t) = Some a \<and> as_sessionId a = j \<and> as_tokenId a = ss_tokenId t)"
    using sessions_okD(4) [OF ok] by (fastforce simp: w' split: if_splits)
  ultimately show ?thesis unfolding sessions_ok_def by blast
qed

lemma sessions_ok_close: "sessions_ok w log \<Longrightarrow> sessions_ok (session_close i r w) log"
  by (simp add: sessions_ok_cong [OF session_close_state] sessions_ok_onClosed)

lemma sessions_ok_terminate:
  assumes ok: "sessions_ok w log"
  shows "sessions_ok (session_terminate i r w) log"
proof (cases "sx_sessions w i")
  case (Some s)
  have "sessions_ok (upd_session i (\<lambda>s. s\<lparr>ss_closeReason := Some r\<rparr>) w) log"
    by (rule sessions_ok_quiet [OF ok Some, where s' = "s\<lparr>ss_closeReason := Some r\<rparr>"])
      (use sessions_okD(1,2) [OF ok Some] in \<open>simp_all add: Some live_def local_ok_def log_ok_def\<close>)
  from sessions_ok_close [OF this] ok Some show ?thesis
    by (simp add: session_terminate_def)
qed (simp add: session_terminate_def ok)

text \<open>The new session is registered, and the one it replaces is closed in the same step.\<close>

lemma sessions_ok_register:
  assumes ok: "sessions_ok w log" and s: "sx_sessions w i = Some s" "\<not> ss_closed s" "\<not> ss_helloSeen s"
    and reg: "sx_registry w' = AList.update (ss_providerId s) a (sx_registry w)"
    and a: "as_sessionId a = i" "as_tokenId a = ss_tokenId s"
    and sess: "sx_sessions w' = (case map_of (sx_registry w) (ss_providerId s) of
        None \<Rightarrow> (sx_sessions w)(i \<mapsto> s')
      | Some old \<Rightarrow> (sx_sessions w)(i \<mapsto> s', as_sessionId old := map_option (closed_session r) (sx_sessions w (as_sessionId old))))"
    and s': "ss_providerId s' = ss_providerId s" "ss_tokenId s' = ss_tokenId s" "live s'" "local_ok s'"
      "log_ok s' (connection_log i log)"
  shows "sessions_ok w' log"
proof -
  have lookup: "sx_sessions w' j = (if j = i then Some s'
      else if (\<exists>old. map_of (sx_registry w) (ss_providerId s) = Some old \<and> as_sessionId old = j)
      then map_option (closed_session r) (sx_sessions w j) else sx_sessions w j)" for j
  proof (cases "map_of (sx_registry w) (ss_providerId s)")
    case (Some old)
    obtain t where "sx_sessions w (as_sessionId old) = Some t" "live t" using sessions_okD(3) [OF ok Some] by blast
    then have "as_sessionId old \<noteq> i" using s by (auto simp: live_def)
    with Some show ?thesis by (auto simp: sess)
  qed (simp add: sess)
  have old_live: "live t \<and> ss_providerId t = ss_providerId s"
    if "map_of (sx_registry w) (ss_providerId s) = Some old" "sx_sessions w (as_sessionId old) = Some t" for old t
    using sessions_okD(3) [OF ok that(1)] that(2) by auto
  have A: "\<forall>j t. sx_sessions w' j = Some t \<longrightarrow> local_ok t \<and> log_ok t (connection_log j log)"
  proof (intro allI impI)
    fix j t
    assume t: "sx_sessions w' j = Some t"
    show "local_ok t \<and> log_ok t (connection_log j log)"
    proof (cases "j = i")
      case True
      with t s'(4,5) show ?thesis by (simp add: lookup)
    next
      case False
      show ?thesis
      proof (cases "\<exists>old. map_of (sx_registry w) (ss_providerId s) = Some old \<and> as_sessionId old = j")
        case True
        with t False have "map_option (closed_session r) (sx_sessions w j) = Some t" by (simp only: lookup if_False if_True)
        then obtain t0 where t0: "sx_sessions w j = Some t0" "t = closed_session r t0" by (auto simp: map_option_case split: option.splits)
        from True obtain b where b: "map_of (sx_registry w) (ss_providerId s) = Some b" "as_sessionId b = j" by blast
        have "\<not> ss_closed t0" using old_live [OF b(1)] t0(1) b(2) by (simp add: live_def)
        from closed_session_ok [OF sessions_okD(1) [OF ok t0(1)] this] sessions_okD(2) [OF ok t0(1)] t0(2)
        show ?thesis by simp
      next
        case no_old: False
        with t False have "sx_sessions w j = Some t" by (simp only: lookup if_False)
        with sessions_okD(1,2) [OF ok] show ?thesis by simp
      qed
    qed
  qed
  have B: "\<forall>j. sx_sessions w' j = None \<longrightarrow> connection_log j log = []"
  proof (intro allI impI)
    fix j
    assume "sx_sessions w' j = None"
    then have "sx_sessions w j = None" using lookup [of j] by (auto split: if_splits)
    then show "connection_log j log = []" using ok unfolding sessions_ok_def by blast
  qed
  have C: "\<forall>p b. map_of (sx_registry w') p = Some b \<longrightarrow>
      (\<exists>t. sx_sessions w' (as_sessionId b) = Some t \<and> live t \<and> ss_providerId t = p)"
  proof (intro allI impI)
    fix p b
    assume b: "map_of (sx_registry w') p = Some b"
    show "\<exists>t. sx_sessions w' (as_sessionId b) = Some t \<and> live t \<and> ss_providerId t = p"
    proof (cases "p = ss_providerId s")
      case True
      with b a s' show ?thesis by (simp add: reg lookup)
    next
      case False
      with b have "map_of (sx_registry w) p = Some b" by (simp add: reg)
      from sessions_okD(3) [OF ok this] obtain t where t: "sx_sessions w (as_sessionId b) = Some t" "live t" "ss_providerId t = p" by blast
      have "as_sessionId b \<noteq> i" using t s by (auto simp: live_def)
      moreover have "\<not> (\<exists>old. map_of (sx_registry w) (ss_providerId s) = Some old \<and> as_sessionId old = as_sessionId b)"
      proof
        assume "\<exists>old. map_of (sx_registry w) (ss_providerId s) = Some old \<and> as_sessionId old = as_sessionId b"
        then obtain old where old: "map_of (sx_registry w) (ss_providerId s) = Some old" "as_sessionId old = as_sessionId b" by blast
        have "ss_providerId t = ss_providerId s" using old_live [OF old(1)] t(1) old(2) by simp
        with t(3) False show False by simp
      qed
      ultimately have "sx_sessions w' (as_sessionId b) = sx_sessions w (as_sessionId b)" by (simp only: lookup if_False)
      with t show ?thesis by auto
    qed
  qed
  have D: "\<forall>j t. sx_sessions w' j = Some t \<longrightarrow> live t \<longrightarrow>
      (\<exists>b. map_of (sx_registry w') (ss_providerId t) = Some b \<and> as_sessionId b = j \<and> as_tokenId b = ss_tokenId t)"
  proof (intro allI impI)
    fix j t
    assume t: "sx_sessions w' j = Some t" "live t"
    show "\<exists>b. map_of (sx_registry w') (ss_providerId t) = Some b \<and> as_sessionId b = j \<and> as_tokenId b = ss_tokenId t"
    proof (cases "j = i")
      case True
      with t a s' show ?thesis by (simp add: reg lookup)
    next
      case False
      have no: "\<not> (\<exists>old. map_of (sx_registry w) (ss_providerId s) = Some old \<and> as_sessionId old = j)"
      proof
        assume "\<exists>old. map_of (sx_registry w) (ss_providerId s) = Some old \<and> as_sessionId old = j"
        with t(1) False have "map_option (closed_session r) (sx_sessions w j) = Some t" by (simp only: lookup if_False if_True)
        with t(2) show False by auto
      qed
      with t(1) False have t': "sx_sessions w j = Some t" by (simp only: lookup if_False)
      from sessions_okD(4) [OF ok t' t(2)] obtain b where
        b: "map_of (sx_registry w) (ss_providerId t) = Some b" "as_sessionId b = j" "as_tokenId b = ss_tokenId t" by blast
      with no have "ss_providerId t \<noteq> ss_providerId s" by auto
      with b show ?thesis by (simp add: reg)
    qed
  qed
  from A B C D show ?thesis unfolding sessions_ok_def by blast
qed

section \<open>Every step keeps the invariant\<close>

lemma not_greeted:
  assumes "sessions_ok w log" and "sx_sessions w i = Some s" and "\<not> ss_helloSeen s"
  shows "ss_pc s = Idle" and "\<not> ss_connectedRecorded s" and "connection_log i log = []" and "\<not> ss_disconnectRecorded s"
    and "\<not> closing_late (ss_closing s)"
  using sessions_okD(1,2) [OF assms(1,2)] assms(3) by (auto simp: local_ok_def log_ok_def)

lemma sessions_ok_onHello:
  assumes ok: "sessions_ok w log" and s: "sx_sessions w i = Some s" "\<not> ss_closed s" "\<not> ss_helloSeen s"
  shows "sessions_ok (session_onHello i hello now w) log"
proof (cases "min (he_protocolVersion hello) PROTOCOL_MAX_VERSION < PROTOCOL_MIN_VERSION")
  case True
  with s(1) show ?thesis by (simp add: session_onHello_def sessions_ok_terminate [OF ok])
next
  case False
  let ?a = "\<lparr>as_providerId = ss_providerId s, as_accountId = ss_accountId s, as_sessionId = i,
      as_tokenId = ss_tokenId s, as_connectedAt = now\<rparr>"
  let ?reg = "AList.update (ss_providerId s) ?a (sx_registry w)"
  let ?w1 = "upd_session i (\<lambda>s. s\<lparr>ss_helloSeen := True\<rparr>) (w\<lparr>sx_registry := ?reg\<rparr>)"
  let ?old = "map_of (sx_registry w) (ss_providerId s)"
  let ?w2 = "case ?old of None \<Rightarrow> ?w1 | Some old \<Rightarrow> session_close (as_sessionId old) superseded_reason
      (session_send (as_sessionId old) (MsgBye ''superseded'') ?w1)"
  let ?d = "\<lparr>agc_sessionId = i, agc_tokenId = ss_tokenId s, agc_agentVersion = he_agentVersion hello,
      agc_protocolVersion = min (he_protocolVersion hello) PROTOCOL_MAX_VERSION,
      agc_maxOfflineSeconds = he_maxOfflineSeconds hello, agc_replacedPrevious = (?old \<noteq> None), agc_connectedAt = now\<rparr>"
  let ?s' = "s\<lparr>ss_helloSeen := True, ss_pc := AppendConnected ?d\<rparr>"
  have result: "session_onHello i hello now w = upd_session i (\<lambda>s. s\<lparr>ss_pc := AppendConnected ?d\<rparr>) ?w2"
    using False s(1) by (simp add: session_onHello_def Let_def registry_register_def)
  note fresh = not_greeted [OF ok s(1,3)]
  have lok: "local_ok ?s'" "log_ok ?s' (connection_log i log)"
    using sessions_okD(1,2) [OF ok s(1)] fresh s by (auto simp: local_ok_def log_ok_def)
  have w2: "sx_registry ?w2 = ?reg \<and> sx_sessions ?w2 = (case ?old of
      None \<Rightarrow> (sx_sessions w)(i \<mapsto> s\<lparr>ss_helloSeen := True\<rparr>)
    | Some old \<Rightarrow> (sx_sessions w)(i \<mapsto> s\<lparr>ss_helloSeen := True\<rparr>,
        as_sessionId old := map_option (closed_session (given_reason superseded_reason)) (sx_sessions w (as_sessionId old))))"
  proof (cases ?old)
    case None
    with s(1) show ?thesis by simp
  next
    case (Some old)
    from sessions_okD(3) [OF ok Some] obtain t where
      t: "sx_sessions w (as_sessionId old) = Some t" "live t" "ss_providerId t = ss_providerId s" by blast
    have ne: "as_sessionId old \<noteq> i" using t s by (auto simp: live_def)
    have t1: "sx_sessions (session_send (as_sessionId old) (MsgBye ''superseded'') ?w1) (as_sessionId old) = Some t"
      using t ne by simp
    have "\<not> ss_closed t" using t(2) by (simp add: live_def)
    note closed = session_onClosed_open(1) [OF t1 this]
    have "sx_registry (session_onClosed (as_sessionId old) (given_reason superseded_reason)
        (session_send (as_sessionId old) (MsgBye ''superseded'') ?w1)) = ?reg"
      using t1 t(3) \<open>\<not> ss_closed t\<close> ne by (simp add: session_onClosed_def Let_def registry_unregister_def)
    with Some closed t ne s(1) show ?thesis by (simp add: fun_upd_twist)
  qed
  show ?thesis
    unfolding result
  proof (rule sessions_ok_register [OF ok s, where a = ?a and r = "given_reason superseded_reason" and s' = ?s'])
    show "sx_registry (upd_session i (\<lambda>s. s\<lparr>ss_pc := AppendConnected ?d\<rparr>) ?w2) = ?reg" using w2 by simp
    show "sx_sessions (upd_session i (\<lambda>s. s\<lparr>ss_pc := AppendConnected ?d\<rparr>) ?w2) = (case ?old of
        None \<Rightarrow> (sx_sessions w)(i \<mapsto> ?s')
      | Some old \<Rightarrow> (sx_sessions w)(i \<mapsto> ?s', as_sessionId old :=
          map_option (closed_session (given_reason superseded_reason)) (sx_sessions w (as_sessionId old))))"
    proof (cases ?old)
      case None
      with w2 show ?thesis by simp
    next
      case (Some old)
      from sessions_okD(3) [OF ok Some] s have ne: "as_sessionId old \<noteq> i" by (auto simp: live_def)
      from Some w2 ne show ?thesis by (auto simp: fun_eq_iff)
    qed
  qed (use lok s in \<open>simp_all add: live_def\<close>)
qed

text \<open>Changing the program counter or a field that the invariant does not mention.\<close>

lemma sessions_ok_pc:
  assumes "sessions_ok w log" and "sx_sessions w i = Some s" and "ss_closed s \<longrightarrow> p = Idle"
    and "p \<noteq> Idle \<longrightarrow> ss_helloSeen s" and "\<forall>d. p \<noteq> AppendConnected d"
    and "\<forall>ev. p = AppendReport ev \<longrightarrow> connection_kind ev = None"
  shows "sessions_ok (session_pc i p w) log"
proof -
  have "sx_sessions (session_pc i p w) = (sx_sessions w)(i \<mapsto> s\<lparr>ss_pc := p\<rparr>)"
    using assms(2) by (simp add: session_pc_def)
  moreover have "local_ok (s\<lparr>ss_pc := p\<rparr>)" "log_ok (s\<lparr>ss_pc := p\<rparr>) (connection_log i log)"
    using sessions_okD(1,2) [OF assms(1,2)] assms(3-) by (auto simp: local_ok_def log_ok_def)
  ultimately show ?thesis
    by (intro sessions_ok_quiet [OF assms(1,2)]) (simp_all add: session_pc_def live_def)
qed

lemma sessions_ok_field:
  assumes "sessions_ok w log" and "\<And>s. live (f s) = live s"
    and "\<And>s. local_ok s \<Longrightarrow> local_ok (f s)" and "\<And>s l. log_ok s l \<Longrightarrow> log_ok (f s) l"
    and "\<And>s. ss_providerId (f s) = ss_providerId s" and "\<And>s. ss_tokenId (f s) = ss_tokenId s"
  shows "sessions_ok (upd_session i f w) log"
proof (cases "sx_sessions w i")
  case None
  then have "sx_sessions (upd_session i f w) = sx_sessions w" by (auto simp: fun_eq_iff)
  with assms(1) show ?thesis by (simp add: sessions_ok_def)
next
  case (Some s)
  then have "sx_sessions (upd_session i f w) = (sx_sessions w)(i \<mapsto> f s)" by simp
  from sessions_ok_quiet [OF assms(1) Some this] sessions_okD(1,2) [OF assms(1) Some] assms(2-)
  show ?thesis by simp
qed

lemma sessions_ok_send: "sessions_ok (session_send i m w) log = sessions_ok w log"
  by (simp add: sessions_ok_def)

lemma sessions_ok_rows: "sessions_ok (w\<lparr>sx_rows := rows\<rparr>) log = sessions_ok w log"
  by (simp add: sessions_ok_def)

lemma report_event_kind: "report_event r t = Some ev \<Longrightarrow> connection_kind ev = None"
  by (auto simp: report_event_def split: report_result.splits)

lemma sessions_ok_process:
  assumes ok: "sessions_ok w log" and idle: "\<And>s. sx_sessions w i = Some s \<Longrightarrow> ss_pc s = Idle"
  shows "sessions_ok (session_process i m now w) log"
proof (cases "\<exists>s. sx_sessions w i = Some s \<and> \<not> ss_closed s")
  case False
  then have "session_process i m now w = w" by (auto simp: session_process_def split: option.splits)
  with ok show ?thesis by simp
next
  case True
  then obtain s where s: "sx_sessions w i = Some s" "\<not> ss_closed s" by blast
  let ?w = "upd_session i (\<lambda>s. s\<lparr>ss_lastReceivedAt := now\<rparr>) w"
  let ?s = "s\<lparr>ss_lastReceivedAt := now\<rparr>"
  have ok1: "sessions_ok ?w log"
    by (rule sessions_ok_field [OF ok]) (simp_all add: live_def local_ok_def log_ok_def)
  have s1: "sx_sessions ?w i = Some ?s" using s by simp
  show ?thesis
  proof (cases "ss_helloSeen s")
    case False
    have "sessions_ok (session_onHello i h now ?w) log" for h
      by (rule sessions_ok_onHello [OF ok1 s1]) (simp_all add: s False)
    with s False sessions_ok_terminate [OF ok1] show ?thesis
      by (simp add: session_process_def Let_def split: agent_message.split)
  next
    case True
    have "sessions_ok (session_pc i (AppendReport ev) ?w) log" if "report_event r now = Some ev" for r ev
      by (rule sessions_ok_pc [OF ok1 s1]) (use s True report_event_kind [OF that] in simp_all)
    moreover have "sessions_ok (session_pc i (PublishCurrent False) ?w) log"
      by (rule sessions_ok_pc [OF ok1 s1]) (use s True in simp_all)
    ultimately show ?thesis
      using s True ok1 sessions_ok_terminate [OF ok1]
      by (simp add: session_process_def Let_def split: agent_message.split option.split)
  qed
qed

lemma sessions_ok_next:
  assumes "sessions_ok w log"
  shows "sessions_ok (session_next i now w) log"
proof (cases "\<exists>s m ms. sx_sessions w i = Some s \<and> ss_inbox s = m # ms \<and> ss_pc s = Idle")
  case True
  then obtain s m ms where s: "sx_sessions w i = Some s" "ss_inbox s = m # ms" "ss_pc s = Idle" by blast
  have "sessions_ok (upd_session i (\<lambda>s. s\<lparr>ss_inbox := ms\<rparr>) w) log"
    by (rule sessions_ok_field [OF assms]) (simp_all add: live_def local_ok_def log_ok_def)
  from sessions_ok_process [OF this, of i m now] s show ?thesis by (simp add: session_next_def)
next
  case False
  then have "session_next i now w = w" by (auto simp: session_next_def split: option.splits list.splits)
  with assms show ?thesis by simp
qed

lemma sessions_ok_fail:
  assumes "sessions_ok w log" and "sx_sessions w i = Some s"
  shows "sessions_ok (session_terminate i r (session_pc i Idle (w\<lparr>sx_rows := rows\<rparr>))) log"
proof -
  have "sessions_ok (w\<lparr>sx_rows := rows\<rparr>) log" using assms(1) by (simp add: sessions_ok_rows)
  then have "sessions_ok (session_pc i Idle (w\<lparr>sx_rows := rows\<rparr>)) log"
    by (rule sessions_ok_pc [where s = s]) (simp_all add: assms(2))
  then show ?thesis by (rule sessions_ok_terminate)
qed

lemma sessions_ok_advance:
  assumes ok: "sessions_ok w log" and step: "session_advance env tk i w = (w', out)"
  shows "sessions_ok w' (log @ out)"
proof (cases "sx_sessions w i")
  case None
  with ok step show ?thesis by (simp add: session_advance_def)
next
  case (Some s)
  note loc = sessions_okD(1,2) [OF ok Some]
  have append: "sessions_ok w' (log @ out)"
    if "append_in_session env t i s ev continue w = (w', out)"
      and "\<And>rows. sessions_ok (continue (w\<lparr>sx_rows := rows\<rparr>)) (log @ [(i, ev)])" for t ev continue
    using that sessions_ok_fail [OF ok Some]
    by (auto simp: append_in_session_def split: prod.splits sum.splits)
  show ?thesis
  proof (cases "ss_pc s")
    case Idle
    with Some ok step show ?thesis by (simp add: session_advance_def)
  next
    case (AppendConnected d)
    let ?s' = "s\<lparr>ss_connectedRecorded := True, ss_pc := LoadForHello (agc_protocolVersion d)\<rparr>"
    have "sessions_ok (upd_session i (\<lambda>s. s\<lparr>ss_connectedRecorded := True, ss_pc := LoadForHello (agc_protocolVersion d)\<rparr>)
        (w\<lparr>sx_rows := rows\<rparr>)) (log @ [(i, AgentConnected d)])" for rows
      by (rule sessions_ok_update [OF ok Some, where s' = ?s'])
        (use loc Some AppendConnected in \<open>auto simp: live_def local_ok_def log_ok_def\<close>)
    then show ?thesis
      by (intro append) (use step Some AppendConnected in \<open>simp_all add: session_advance_def\<close>)
  next
    case (LoadForHello accepted)
    have nc: "ss_helloSeen s" using loc LoadForHello by (simp add: local_ok_def)
    obtain m where w': "w' = session_pc i (PublishCurrent True) (session_send i m w)" and out: "out = []"
      using step Some LoadForHello by (auto simp: session_advance_def)
    have "sx_sessions w' = (sx_sessions w)(i \<mapsto> s\<lparr>ss_pc := PublishCurrent True\<rparr>)" "sx_registry w' = sx_registry w"
      using Some by (simp_all add: w' session_pc_def)
    moreover have "local_ok (s\<lparr>ss_pc := PublishCurrent True\<rparr>)" "log_ok (s\<lparr>ss_pc := PublishCurrent True\<rparr>) (connection_log i log)"
      using loc LoadForHello by (auto simp: local_ok_def log_ok_def)
    ultimately show ?thesis
      unfolding out append_Nil2 by (intro sessions_ok_quiet [OF ok Some]) (simp_all add: live_def)
  next
    case (PublishCurrent afterHello)
    obtain res rows where pub: "publishNow (se_compare env) (se_crypto env) (se_config env) tk (sx_rows w)
        (ss_accountId s) (ss_providerId s) None = (res, rows)" by fastforce
    show ?thesis
    proof (cases res)
      case (Inl err)
      with step Some PublishCurrent pub sessions_ok_fail [OF ok Some] show ?thesis
        by (auto simp: session_advance_def)
    next
      case (Inr snapshot)
      have out: "out = []" and w': "sx_sessions w' = (sx_sessions w)(i \<mapsto> s\<lparr>ss_pc := Idle,
          ss_heartbeatTimer := (if afterHello then True else ss_heartbeatTimer s)\<rparr>)" "sx_registry w' = sx_registry w"
        using step Some PublishCurrent pub Inr by (auto simp: session_advance_def Let_def split: option.splits)
      from sessions_ok_quiet [OF ok Some w'] loc out show ?thesis
        by (simp add: live_def local_ok_def log_ok_def)
    qed
  next
    case (AppendReport ev)
    have "connection_kind ev = None" using loc AppendReport by (simp add: local_ok_def)
    then have "sessions_ok (session_pc i Idle (w\<lparr>sx_rows := rows\<rparr>)) (log @ [(i, ev)])" for rows
      by (intro sessions_ok_update [OF ok Some, where s' = "s\<lparr>ss_pc := Idle\<rparr>"])
        (use loc Some in \<open>auto simp: live_def local_ok_def log_ok_def session_pc_def\<close>)
    then show ?thesis
      by (intro append) (use step Some AppendReport in \<open>simp_all add: session_advance_def\<close>)
  qed
qed

lemma sessions_ok_close_advance:
  assumes ok: "sessions_ok w log" and step: "session_close_advance env t i w = (w', out)"
  shows "sessions_ok w' (log @ out)"
proof (cases "sx_sessions w i")
  case None
  with ok step show ?thesis by (simp add: session_close_advance_def)
next
  case (Some s)
  note loc = sessions_okD(1,2) [OF ok Some]
  have upd: "sessions_ok w' (log @ out)"
    if "sx_sessions w' = (sx_sessions w)(i \<mapsto> f s)" "sx_registry w' = sx_registry w" "live (f s) = live s"
      "ss_providerId (f s) = ss_providerId s" "ss_tokenId (f s) = ss_tokenId s" "local_ok (f s)"
      "log_ok (f s) (connection_log i (log @ out))" "\<And>j. j \<noteq> i \<Longrightarrow> connection_log j out = []" for f :: "Session \<Rightarrow> Session"
    by (rule sessions_ok_update [OF ok Some that(1,2,4,5,3,6,7,8)])
  show ?thesis
  proof (cases "ss_closing s")
    case NotClosing
    with Some ok step show ?thesis by (simp add: session_close_advance_def)
  next
    case Finished
    with Some ok step show ?thesis by (simp add: session_close_advance_def)
  next
    case (AwaitChain reason)
    show ?thesis
    proof (cases "ss_pc s = Idle")
      case False
      with AwaitChain Some ok step show ?thesis by (simp add: session_close_advance_def)
    next
      case True
      show ?thesis
      proof (cases "\<not> ss_connectedRecorded s \<or> ss_disconnectRecorded s")
        case T: True
        show ?thesis
          by (rule upd [where f = "\<lambda>s. s\<lparr>ss_closing := Finished\<rparr>"])
            (use AwaitChain Some step True T loc in \<open>auto simp: session_close_advance_def live_def local_ok_def log_ok_def\<close>)
      next
        case F: False
        show ?thesis
          by (rule upd [where f = "\<lambda>s. s\<lparr>ss_disconnectRecorded := True, ss_closing := LoadBeforeDisconnect reason\<rparr>"])
            (use AwaitChain Some step True F loc in \<open>auto simp: session_close_advance_def live_def local_ok_def log_ok_def\<close>)
      qed
    qed
  next
    case (LoadBeforeDisconnect reason)
    show ?thesis
    proof (cases "\<not> truthy (tp_providerId (ld_state (provider_load (sx_rows w) (ss_accountId s) (ss_providerId s))))")
      case True
      show ?thesis
        by (rule upd [where f = "\<lambda>s. s\<lparr>ss_closing := Finished\<rparr>"])
          (use LoadBeforeDisconnect Some step True loc in \<open>auto simp: session_close_advance_def live_def local_ok_def log_ok_def\<close>)
    next
      case False
      show ?thesis
        by (rule upd [where f = "\<lambda>s. s\<lparr>ss_closing := AppendDisconnected reason (tk_now t)\<rparr>"])
          (use LoadBeforeDisconnect Some step False loc in \<open>auto simp: session_close_advance_def live_def local_ok_def log_ok_def\<close>)
    qed
  next
    case (AppendDisconnected reason at)
    let ?ev = "AgentDisconnected \<lparr>agd_sessionId = i, agd_reason = reason, agd_disconnectedAt = at\<rparr>"
    obtain res rows where ap: "provider_append (se_config env) t (sx_rows w) (ss_accountId s) (ss_providerId s) ?ev = (res, rows)"
      by fastforce
    show ?thesis
      by (rule upd [where f = "\<lambda>s. s\<lparr>ss_closing := Finished\<rparr>"])
        (use AppendDisconnected Some step ap loc in
          \<open>auto simp: session_close_advance_def Let_def live_def local_ok_def log_ok_def split: sum.splits\<close>)
  qed
qed

lemma sessions_ok_heartbeat:
  assumes "sessions_ok w log"
  shows "sessions_ok (session_heartbeat env i now w) log"
proof -
  have "sessions_ok (upd_session i (\<lambda>s. s\<lparr>ss_nonce := ss_nonce s + 1\<rparr>) w) log"
    by (rule sessions_ok_field [OF assms]) (simp_all add: live_def local_ok_def log_ok_def)
  moreover have "upd_session i (\<lambda>s. s\<lparr>ss_nonce := ss_nonce s + 1\<rparr>) w = upd_session i (\<lambda>s. s\<lparr>ss_nonce := Suc (ss_nonce s)\<rparr>) w"
    by simp
  ultimately show ?thesis
    using assms sessions_ok_terminate [OF assms]
    by (simp add: session_heartbeat_def Let_def sessions_ok_send split: option.split)
qed

lemma session_step_ok:
  assumes "session_step env w out w'" and ok: "sessions_ok w log"
  shows "sessions_ok w' (log @ out)"
  using assms(1)
proof cases
  case (step_open i acc p tok now)
  have fresh: "local_ok (new_session acc p tok now)" "\<not> live (new_session acc p tok now)"
    "ss_connectedRecorded (new_session acc p tok now) = False"
    by (simp_all add: new_session_def local_ok_def live_def)
  have "connection_log i log = []" using ok step_open(3) by (simp add: sessions_ok_def)
  moreover have "\<forall>q a. map_of (sx_registry w) q = Some a \<longrightarrow> as_sessionId a \<noteq> i"
    using sessions_okD(3) [OF ok] step_open(3) by fastforce
  ultimately show ?thesis
    using fresh ok step_open unfolding sessions_ok_def log_ok_def by auto
next
  case (step_receive i m)
  have "sessions_ok (session_receive i m w) log"
    unfolding session_receive_def
    by (rule sessions_ok_field [OF ok]) (simp_all add: live_def local_ok_def log_ok_def)
  with step_receive show ?thesis by simp
next
  case (step_next i now)
  with sessions_ok_next [OF ok] show ?thesis by simp
next
  case (step_advance tk i)
  with sessions_ok_advance [OF ok] show ?thesis by simp
next
  case (step_close_advance t i)
  with sessions_ok_close_advance [OF ok] show ?thesis by simp
next
  case (step_heartbeat i now)
  with sessions_ok_heartbeat [OF ok] show ?thesis by simp
next
  case (step_transport i)
  with sessions_ok_onClosed [OF ok] show ?thesis by simp
next
  case (step_end i)
  with sessions_ok_onClosed [OF ok] show ?thesis by (simp add: sessions_ok_cong [OF session_end_state])
next
  case (step_close i reason)
  with sessions_ok_close [OF ok] show ?thesis by simp
next
  case (step_push p m)
  with ok show ?thesis by (simp add: session_push_def sessions_ok_send split: option.split)
next
  case (step_other rows)
  with ok show ?thesis by (simp add: sessions_ok_rows)
qed

lemma session_trace_ok: "session_trace env rows log w \<Longrightarrow> sessions_ok w log"
proof (induction rule: session_trace.induct)
  case strace_init
  then show ?case by (simp add: sessions_ok_def)
next
  case (strace_step log w out w')
  then show ?case by (blast intro: session_step_ok)
qed

section \<open>Properties\<close>

text \<open>C3. At most one agent session per provider is live (greeted and not closed), however sessions, messages,
  timers and other writers interleave, and it is the one the registry holds; so a push always reaches the
  newest session, and a superseded session that ends late never evicts its successor.\<close>
theorem one_live_session_per_provider:
  assumes "session_trace env rows log w"
    and "sx_sessions w i = Some s" and "live s" and "sx_sessions w j = Some t" and "live t"
    and "ss_providerId s = ss_providerId t"
  shows "i = j \<and> registry_push (sx_registry w) (ss_providerId s) = Some i"
proof -
  note ok = session_trace_ok [OF assms(1)]
  from sessions_okD(4) [OF ok assms(2,3)] obtain a where
    a: "map_of (sx_registry w) (ss_providerId s) = Some a" "as_sessionId a = i" by blast
  from sessions_okD(4) [OF ok assms(4,5)] obtain b where
    b: "map_of (sx_registry w) (ss_providerId t) = Some b" "as_sessionId b = j" by blast
  from a b assms(6) show ?thesis by (simp add: registry_push_def)
qed

text \<open>C29. Connects and disconnects are recorded in pairs: for every session at most one \<open>agent_connected\<close> is appended,
  and at most one \<open>agent_disconnected\<close>, only after it and only once the session is closed; a session that
  never got past the greeting leaves no trace in the provider's stream.\<close>
theorem connection_events_paired:
  assumes "session_trace env rows log w"
  shows "connection_log i log \<in> {[], [True], [True, False]}
    \<and> (connection_log i log \<noteq> [] \<longrightarrow> (\<exists>s. sx_sessions w i = Some s \<and> ss_helloSeen s))
    \<and> (connection_log i log = [True, False] \<longrightarrow> (\<exists>s. sx_sessions w i = Some s \<and> ss_closed s))"
proof (cases "sx_sessions w i")
  case None
  with session_trace_ok [OF assms] show ?thesis by (simp add: sessions_ok_def)
next
  case (Some s)
  from sessions_okD(1,2) [OF session_trace_ok [OF assms] Some] show ?thesis
    using Some by (auto simp: local_ok_def log_ok_def split: if_splits)
qed

text \<open>Revoking a token ends every live session that authenticated with it: after the registry's termination by
  token no greeted open session of the provider holds that token.\<close>
theorem revocation_ends_live_sessions:
  assumes "session_trace env rows log w"
    and "w' = fold (\<lambda>i. session_close i reason) (terminateByToken (sx_registry w) p tok) w"
    and "sx_sessions w' i = Some s" and "ss_providerId s = p" and "ss_tokenId s = tok"
  shows "\<not> live s"
proof
  assume live: "live s"
  note ok = session_trace_ok [OF assms(1)]
  obtain s0 where s0: "sx_sessions w i = Some s0" "s = s0 \<or> (\<exists>r. s = closed_session r s0)"
  proof (cases "map_of (sx_registry w) p")
    case None
    with assms(2,3) that show ?thesis by (simp add: terminateByToken_def)
  next
    case (Some a)
    from sessions_okD(3) [OF ok Some] obtain t where t: "sx_sessions w (as_sessionId a) = Some t" "live t" by blast
    then have "\<not> ss_closed t" by (simp add: live_def)
    from session_onClosed_open(1) [OF t(1) this] Some assms(2,3) t(1) that show ?thesis
      by (auto simp: terminateByToken_def split: if_splits)
  qed
  with live have s: "s = s0" by auto
  from sessions_okD(4) [OF ok s0(1)] live s assms(4,5) obtain a where
    a: "map_of (sx_registry w) p = Some a" "as_sessionId a = i" "as_tokenId a = tok" by blast
  have "\<not> ss_closed s0" using live s by (simp add: live_def)
  from session_onClosed_open(1) [OF s0(1) this] a assms(2,3) have "\<exists>r. s = closed_session r s0"
    by (auto simp: terminateByToken_def)
  with live show False by auto
qed

text \<open>A greeted session, and a stream that was opened with a token but has not been greeted yet.\<close>

definition sample_session_env :: session_env where
  "sample_session_env = \<lparr>se_config = sample_config, se_compare = code_point_compare, se_crypto = sample_crypto, se_serverVersion = None\<rparr>"

definition sample_hello :: HelloMessage where
  "sample_hello = \<lparr>he_protocolVersion = 1, he_agentVersion = ''1.0'', he_maxOfflineSeconds = 60, he_heartbeatSeconds = 0,
     he_maxSnapshotBytes = 0, he_providerName = [], he_acceptedVersion = 0\<rparr>"

definition sample_opened :: sessions where
  "sample_opened = \<lparr>sx_rows = [], sx_registry = [], sx_sessions = [''s1'' \<mapsto> new_session ''acc'' ''p'' ''t1'' 0], sx_sent = []\<rparr>"

definition sample_greeted :: sessions where
  "sample_greeted = session_next ''s1'' 5 (session_receive ''s1'' (MsgHello sample_hello) sample_opened)"

lemma sample_opened_trace: "session_trace sample_session_env [] [] sample_opened"
  using strace_step [OF strace_init step_open, where i1 = "''s1''" and acc1 = "''acc''" and p1 = "''p''" and tok1 = "''t1''" and now1 = 0]
  by (simp add: sample_opened_def)

lemma sample_greeted_trace: "session_trace sample_session_env [] [] sample_greeted"
  using strace_step [OF strace_step [OF sample_opened_trace step_receive] step_next]
  by (simp add: sample_greeted_def)

lemma sample_greeted_session:
  "\<exists>s. sx_sessions sample_greeted ''s1'' = Some s \<and> live s \<and> ss_providerId s = ''p'' \<and> ss_tokenId s = ''t1''"
  by (simp add: sample_greeted_def session_next_def session_receive_def sample_opened_def new_session_def session_process_def
      session_onHello_def sample_hello_def PROTOCOL_MIN_VERSION_def PROTOCOL_MAX_VERSION_def registry_register_def live_def)

lemma one_live_session_per_provider_witness:
  "registry_push (sx_registry sample_greeted) ''p'' = Some ''s1''"
proof -
  obtain s where s: "sx_sessions sample_greeted ''s1'' = Some s" "live s" "ss_providerId s = ''p''"
    using sample_greeted_session by blast
  from one_live_session_per_provider [OF sample_greeted_trace s(1,2,1,2)] s(3) show ?thesis by simp
qed

text \<open>A session from its greeting to the record of its end: its connect is appended, it is closed, its message runs
  to its end, its disconnect is appended.\<close>

lemma sample_append_connection:
  "\<exists>rows e. provider_append sample_config (sample_tick 1) sample_provider_rows ''acc'' ''p'' ev = (Inr e, rows)"
  using provider_append_alone [OF sample_provider_wf, of "sample_tick 1" "''p''" "''acc''" sample_config ev]
  by (fastforce simp: sample_provider_rows_def sample_tick_def nat_to_string.simps aggregate_rows_def)

lemma sample_connection_trace:
  obtains log w where "session_trace sample_session_env [] log w" and "connection_log ''s1'' log = [True, False]"
proof -
  let ?env = sample_session_env and ?i = "''s1''"
  have config: "se_config ?env = sample_config" by (simp add: sample_session_env_def)
  obtain s d where s: "sx_sessions sample_greeted ?i = Some s" "ss_pc s = AppendConnected d" "\<not> ss_closed s" "\<not> ss_disconnectRecorded s"
    "ss_accountId s = ''acc''" "ss_providerId s = ''p''"
    by (simp add: sample_greeted_def session_next_def session_receive_def sample_opened_def new_session_def session_process_def
      session_onHello_def sample_hello_def PROTOCOL_MIN_VERSION_def PROTOCOL_MAX_VERSION_def registry_register_def)
  define w1 where "w1 = sample_greeted\<lparr>sx_rows := sample_provider_rows\<rparr>"
  have t1: "session_trace ?env [] [] w1" using strace_step [OF sample_greeted_trace step_other] by (simp add: w1_def)
  obtain rows e where app: "provider_append sample_config (sample_tick 1) sample_provider_rows ''acc'' ''p'' (AgentConnected d) = (Inr e, rows)"
    using sample_append_connection by blast
  let ?s2 = "s\<lparr>ss_connectedRecorded := True, ss_pc := LoadForHello (agc_protocolVersion d)\<rparr>"
  obtain w2 where w2: "session_advance ?env (\<lambda>n. sample_tick 1) ?i w1 = (w2, [(?i, AgentConnected d)])" "sx_sessions w2 ?i = Some ?s2"
    using s app by (simp add: session_advance_def append_in_session_def w1_def config)
  have t2: "session_trace ?env [] [(?i, AgentConnected d)] w2" using strace_step [OF t1 step_advance [OF w2(1)]] by simp
  have "\<not> ss_closed ?s2" using s(3) by simp
  from session_onClosed_open(1) [OF w2(2) this]
  have w3: "sx_sessions (session_close ?i superseded_reason w2) ?i = Some (closed_session (given_reason superseded_reason) ?s2)"
    by simp
  let ?s3 = "closed_session (given_reason superseded_reason) ?s2"
  obtain dr where dr: "ss_closing ?s3 = AwaitChain dr" by (simp add: closed_session_def)
  obtain w4 where w4: "session_advance ?env (\<lambda>n. sample_tick 1) ?i (session_close ?i superseded_reason w2) = (w4, [])"
    "sx_sessions w4 ?i = Some (?s3\<lparr>ss_pc := PublishCurrent True\<rparr>)"
    using w3 by (simp add: session_advance_def closed_session_def session_pc_def)
  have t4: "session_trace ?env [] [(?i, AgentConnected d)] (w4\<lparr>sx_rows := []\<rparr>)"
    using strace_step [OF strace_step [OF strace_step [OF t2 step_close] step_advance [OF w4(1)]] step_other] by simp
  have "provider_loadActive [] ''acc'' ''p'' = None"
    by (simp add: provider_loadActive_def provider_load_simps readStream_def initialTraefikProviderState_def)
  then have none: "publishNow cmp cr cfg tk [] ''acc'' ''p'' cause = (Inr None, [])" for cmp cr cfg tk cause
    by (simp add: publishNow_def publish_def)
  obtain w5 s5 where w5: "session_advance ?env (\<lambda>n. sample_tick 1) ?i (w4\<lparr>sx_rows := []\<rparr>) = (w5, [])" "sx_sessions w5 ?i = Some s5"
    "ss_pc s5 = Idle" "ss_closing s5 = AwaitChain dr" "ss_connectedRecorded s5" "\<not> ss_disconnectRecorded s5"
    "ss_accountId s5 = ''acc''" "ss_providerId s5 = ''p''"
    using w4(2) s(4-6) dr by (simp add: session_advance_def closed_session_def none)
  have t5: "session_trace ?env [] [(?i, AgentConnected d)] w5" using strace_step [OF t4 step_advance [OF w5(1)]] by simp
  obtain w6 s6 where w6: "session_close_advance ?env (sample_tick 1) ?i w5 = (w6, [])" "sx_sessions w6 ?i = Some s6"
    "ss_closing s6 = LoadBeforeDisconnect dr" "ss_accountId s6 = ''acc''" "ss_providerId s6 = ''p''"
    using w5 by (simp add: session_close_advance_def)
  have t6: "session_trace ?env [] [(?i, AgentConnected d)] (w6\<lparr>sx_rows := sample_provider_rows\<rparr>)"
    using strace_step [OF strace_step [OF t5 step_close_advance [OF w6(1)]] step_other] by simp
  let ?at = "tk_now (sample_tick 1)"
  obtain w7 s7 where w7: "session_close_advance ?env (sample_tick 1) ?i (w6\<lparr>sx_rows := sample_provider_rows\<rparr>) = (w7, [])"
    "sx_sessions w7 ?i = Some s7" "ss_closing s7 = AppendDisconnected dr ?at" "ss_accountId s7 = ''acc''" "ss_providerId s7 = ''p''"
    "sx_rows w7 = sample_provider_rows"
    using w6 by (simp add: session_close_advance_def sample_provider_state initialTraefikProviderState_def)
  have t7: "session_trace ?env [] [(?i, AgentConnected d)] w7" using strace_step [OF t6 step_close_advance [OF w7(1)]] by simp
  let ?d = "AgentDisconnected \<lparr>agd_sessionId = ?i, agd_reason = dr, agd_disconnectedAt = ?at\<rparr>"
  obtain rows' e' where "provider_append sample_config (sample_tick 1) sample_provider_rows ''acc'' ''p'' ?d = (Inr e', rows')"
    using sample_append_connection by blast
  then obtain w8 where w8: "session_close_advance ?env (sample_tick 1) ?i w7 = (w8, [(?i, ?d)])"
    using w7 by (simp add: session_close_advance_def config)
  have "session_trace ?env [] [(?i, AgentConnected d), (?i, ?d)] w8" using strace_step [OF t7 step_close_advance [OF w8]] by simp
  then show ?thesis by (rule that) (simp add: connection_log_def map_filter_simps)
qed

lemma connection_events_paired_witness:
  "\<exists>log w s. session_trace sample_session_env [] log w \<and> connection_log ''s1'' log = [True, False]
     \<and> sx_sessions w ''s1'' = Some s \<and> ss_helloSeen s \<and> ss_closed s"
proof -
  obtain log w where run: "session_trace sample_session_env [] log w" "connection_log ''s1'' log = [True, False]"
    by (rule sample_connection_trace)
  from connection_events_paired [OF run(1), of "''s1''"] run(2)
  obtain s t where "sx_sessions w ''s1'' = Some s" "ss_helloSeen s" "sx_sessions w ''s1'' = Some t" "ss_closed t" by auto
  with run show ?thesis by (intro exI [of _ log] exI [of _ w] exI [of _ s]) simp
qed

lemma revocation_ends_live_sessions_witness:
  "\<exists>w' s. w' = fold (\<lambda>i. session_close i superseded_reason) (terminateByToken (sx_registry sample_greeted) ''p'' ''t1'') sample_greeted
    \<and> sx_sessions w' ''s1'' = Some s \<and> \<not> live s"
proof -
  let ?w' = "fold (\<lambda>i. session_close i superseded_reason) (terminateByToken (sx_registry sample_greeted) ''p'' ''t1'') sample_greeted"
  obtain s where s: "sx_sessions sample_greeted ''s1'' = Some s" "live s" "ss_providerId s = ''p''" "ss_tokenId s = ''t1''"
    using sample_greeted_session by blast
  from sessions_okD(4) [OF session_trace_ok [OF sample_greeted_trace] s(1,2)] s(3,4) obtain a where
    a: "map_of (sx_registry sample_greeted) ''p'' = Some a" "as_sessionId a = ''s1''" "as_tokenId a = ''t1''" by auto
  have "\<not> ss_closed s" using s(2) by (simp add: live_def)
  from session_onClosed_open(1) [OF s(1) this] a have
    s': "sx_sessions ?w' ''s1'' = Some (closed_session (given_reason superseded_reason) s)"
    by (simp add: terminateByToken_def)
  from revocation_ends_live_sessions [OF sample_greeted_trace refl s'] s s' show ?thesis by auto
qed

text \<open>The guarantee has a gap before the greeting: a stream authenticated with a token is in no registry until its
  hello, so a revocation in between terminates nothing, and the later hello still makes it the provider's live session
  under the revoked token (nothing checks the token again).\<close>
theorem revocation_misses_ungreeted_stream:
  "\<exists>env rows log w w' s. session_trace env rows log w \<and> sx_sessions w ''s1'' \<noteq> None
     \<and> terminateByToken (sx_registry w) ''p'' ''t1'' = []
     \<and> session_trace env rows log w' \<and> w' = session_next ''s1'' 5 (session_receive ''s1'' (MsgHello sample_hello) w)
     \<and> sx_sessions w' ''s1'' = Some s \<and> live s \<and> ss_providerId s = ''p'' \<and> ss_tokenId s = ''t1''"
proof -
  have "sx_sessions sample_opened ''s1'' \<noteq> None" "terminateByToken (sx_registry sample_opened) ''p'' ''t1'' = []"
    by (simp_all add: sample_opened_def terminateByToken_def)
  with sample_opened_trace sample_greeted_trace sample_greeted_session show ?thesis
    unfolding sample_greeted_def by blast
qed

end
