(* ===== verification/AgentServer.thy ===== *)
theory AgentServer
  imports Sessions
begin

text \<open>
  Who may open a session: \<open>sourceOf\<close> and \<open>authenticate\<close> of \<open>adapters/agent-grpc/grpc-agent-server.ts\<close>
  and the brute-force guard \<open>adapters/agent-grpc/auth-throttle.ts\<close>.

  Redis counters expire; \<open>now\<close> is the time a command reaches Redis. A call's metadata are the first
  values of the four headers the code reads. The listener and its streams are in \<open>AgentChannel\<close>.
\<close>

section \<open>The brute-force guard\<close>

definition THROTTLE_MAX_FAILURES :: nat where "THROTTLE_MAX_FAILURES = 10"
definition THROTTLE_WINDOW_SECONDS :: nat where "THROTTLE_WINDOW_SECONDS = 300"

text \<open>A counter with its expiry, if one was set.\<close>

type_synonym counters = "(string \<times> (nat \<times> timestamp option)) list"

definition counter_get :: "counters \<Rightarrow> timestamp \<Rightarrow> string \<Rightarrow> nat" where
  "counter_get c now key = (case map_of c key of
     None \<Rightarrow> 0
   | Some (n, None) \<Rightarrow> n
   | Some (n, Some t) \<Rightarrow> if now < t then n else 0)"

definition counter_ttl :: "counters \<Rightarrow> timestamp \<Rightarrow> string \<Rightarrow> timestamp option" where
  "counter_ttl c now key = (case map_of c key of
     Some (n, Some t) \<Rightarrow> if now < t then Some t else None
   | _ \<Rightarrow> None)"

definition counter_incr :: "counters \<Rightarrow> timestamp \<Rightarrow> string \<Rightarrow> nat \<times> counters" where
  "counter_incr c now key = (let n = counter_get c now key + 1 in
     (n, AList.update key (n, counter_ttl c now key) c))"

definition counter_expire :: "counters \<Rightarrow> timestamp \<Rightarrow> string \<Rightarrow> nat \<Rightarrow> counters" where
  "counter_expire c now key seconds = AList.update key (counter_get c now key, Some (now + 1000 * seconds)) c"

definition throttle_key :: "string \<Rightarrow> string" where
  "throttle_key source = ''agentauth:fail:'' @ source"

definition isBlocked :: "counters \<Rightarrow> timestamp \<Rightarrow> string \<Rightarrow> bool" where
  "isBlocked c now source = (counter_get c now (throttle_key source) \<ge> THROTTLE_MAX_FAILURES)"

definition recordFailure :: "counters \<Rightarrow> timestamp \<Rightarrow> string \<Rightarrow> counters" where
  "recordFailure c now source =
     (let key = throttle_key source; (count, c) = counter_incr c now key in
      if count = 1 then counter_expire c now key THROTTLE_WINDOW_SECONDS else c)"

text \<open>The port the server relies on: failures of one source concern that source only.\<close>

locale auth_throttle =
  fixes blocked :: "'t \<Rightarrow> timestamp \<Rightarrow> string \<Rightarrow> bool"
    and failure :: "'t \<Rightarrow> timestamp \<Rightarrow> string \<Rightarrow> 't"
  assumes others_unaffected: "s \<noteq> s' \<Longrightarrow> blocked (failure t now s) now' s' = blocked t now' s'"
    and stays_blocked: "blocked t now s \<Longrightarrow> blocked (failure t now s) now s"
begin

lemma attacker_cannot_lock_out:
  assumes "s \<notin> fst ` set attempts"
  shows "blocked (foldl (\<lambda>t (s, now). failure t now s) t attempts) now' s = blocked t now' s"
  using assms by (induction attempts arbitrary: t) (auto simp: others_unaffected)

end

lemma counter_get_update: "counter_get (AList.update k (n, t) c) now k' =
    (if k' = k then (case t of None \<Rightarrow> n | Some t \<Rightarrow> if now < t then n else 0) else counter_get c now k')"
  by (simp add: counter_get_def split: option.split)

lemma throttle_key_eq [simp]: "throttle_key s = throttle_key s' \<longleftrightarrow> s = s'"
  by (simp add: throttle_key_def)

lemma counter_ttl_future: "counter_ttl c now k = Some t \<Longrightarrow> now < t"
  by (auto simp: counter_ttl_def split: option.splits prod.splits if_splits)

interpretation rt: auth_throttle isBlocked recordFailure
proof unfold_locales
  show "isBlocked (recordFailure t now s) now' s' = isBlocked t now' s'" if "s \<noteq> s'" for t now s now' s'
    using that by (simp add: isBlocked_def recordFailure_def Let_def counter_incr_def counter_expire_def counter_get_update)
  show "isBlocked (recordFailure t now s) now s" if "isBlocked t now s" for t now s
    using that counter_ttl_future [of t now "throttle_key s"]
    by (auto simp: isBlocked_def recordFailure_def Let_def counter_incr_def counter_expire_def counter_get_update
        THROTTLE_MAX_FAILURES_def split: option.split)
qed

text \<open>The counter of a source whose window began at \<open>t0\<close>.\<close>

definition in_window :: "counters \<Rightarrow> string \<Rightarrow> timestamp \<Rightarrow> nat \<Rightarrow> bool" where
  "in_window c source t0 n = (map_of c (throttle_key source) = Some (n, Some (t0 + 1000 * THROTTLE_WINDOW_SECONDS)))"

lemma first_failure:
  assumes "counter_get c t0 (throttle_key source) = 0"
  shows "in_window (recordFailure c t0 source) source t0 1"
  using assms by (simp add: in_window_def recordFailure_def Let_def counter_incr_def counter_expire_def counter_get_update
      THROTTLE_WINDOW_SECONDS_def counter_ttl_def split: option.splits prod.splits)

lemma next_failure:
  assumes "in_window c source t0 (Suc n)" and "now < t0 + 1000 * THROTTLE_WINDOW_SECONDS"
  shows "in_window (recordFailure c now source) source t0 (Suc (Suc n))"
  using assms by (simp add: in_window_def recordFailure_def Let_def counter_incr_def counter_get_def counter_ttl_def)

lemma more_failures:
  assumes "in_window c source t0 (Suc n)" and "\<forall>t \<in> set ts. t < t0 + 1000 * THROTTLE_WINDOW_SECONDS"
  shows "in_window (foldl (\<lambda>c t. recordFailure c t source) c ts) source t0 (Suc n + length ts)"
  using assms
proof (induction ts arbitrary: c n)
  case (Cons t ts)
  from Cons.prems have "in_window (recordFailure c t source) source t0 (Suc (Suc n))" by (intro next_failure) simp_all
  from Cons.IH [OF this] Cons.prems show ?case by simp
qed simp

section \<open>Authentication\<close>

record call_metadata =
  md_provider :: "string option"
  md_authorization :: "string option"
  md_forwardedFor :: "string option"
  md_peer :: string

definition sourceOf :: "call_metadata \<Rightarrow> string" where
  "sourceOf call = (case md_forwardedFor call of
     Some forwarded \<Rightarrow> if length forwarded > 0
       then (let parts = filter (\<lambda>p. p \<noteq> []) (map js_trim (split_char (CHR '','') forwarded)) in
         if parts = [] then md_peer call else last parts)
       else md_peer call
   | None \<Rightarrow> md_peer call)"

definition presented_token :: "string \<Rightarrow> string" where
  "presented_token header =
     (if take 7 (js_lower header) = ''bearer '' then js_trim (drop 7 header) else [])"

datatype auth_result = Throttled | Rejected | Authenticated id id id

text \<open>The chain of lookups; each \<open>None\<close> is a call of \<open>reject\<close>.\<close>

definition find_token ::
  "crypto \<Rightarrow> event_store \<Rightarrow> id \<Rightarrow> string \<Rightarrow> (id \<times> ProviderTokenState) option" where
  "find_token cr rows providerId presented =
     (if providerId = [] \<or> presented = [] then None
      else (case provider_resolveAccountId rows providerId of
          None \<Rightarrow> None
        | Some accountId \<Rightarrow> if accountId = [] then None
            else (case provider_loadActive rows accountId providerId of
                None \<Rightarrow> None
              | Some loaded \<Rightarrow> map_option (\<lambda>token. (accountId, token))
                  (find (\<lambda>t. verifyAgentToken cr presented (tok_hash t)) (activeTokens (ld_state loaded))))))"

definition authenticate ::
  "crypto \<Rightarrow> event_store \<Rightarrow> counters option \<Rightarrow> timestamp \<Rightarrow> call_metadata \<Rightarrow> auth_result \<times> counters option" where
  "authenticate cr rows throttle now call =
     (let providerId = js_trim (nullish_or (md_provider call) []);
          presented = presented_token (nullish_or (md_authorization call) []);
          source = sourceOf call
      in if (case throttle of None \<Rightarrow> False | Some t \<Rightarrow> isBlocked t now source) then (Throttled, throttle)
         else (case find_token cr rows providerId presented of
             None \<Rightarrow> (Rejected, map_option (\<lambda>t. recordFailure t now source) throttle)
           | Some (accountId, token) \<Rightarrow> (Authenticated accountId providerId (tok_tokenId token), throttle)))"

text \<open>\<open>onSession\<close>: the status a refused stream ends with, or the session that is opened.\<close>

definition AUTH_FAILURE_MESSAGE :: string where
  "AUTH_FAILURE_MESSAGE = ''invalid or revoked token for this agent address''"

datatype grpc_status =
  GrpcOk | GrpcUnauthenticated | GrpcFailedPrecondition | GrpcAborted | GrpcUnavailable | GrpcDeadlineExceeded
  | GrpcInternal | GrpcResourceExhausted

fun grpc_status_of :: "close_code \<Rightarrow> grpc_status" where
  "grpc_status_of CodeOk = GrpcOk"
| "grpc_status_of CodeUnauthenticated = GrpcUnauthenticated"
| "grpc_status_of CodeFailedPrecondition = GrpcFailedPrecondition"
| "grpc_status_of CodeAborted = GrpcAborted"
| "grpc_status_of CodeUnavailable = GrpcUnavailable"
| "grpc_status_of CodeDeadlineExceeded = GrpcDeadlineExceeded"
| "grpc_status_of CodeInternal = GrpcInternal"

definition onSession :: "id \<Rightarrow> timestamp \<Rightarrow> auth_result \<Rightarrow> sessions \<Rightarrow> (grpc_status \<times> string) + sessions" where
  "onSession sessionId now auth w = (case auth of
     Throttled \<Rightarrow> Inl (GrpcResourceExhausted, ''too many failed attempts, retry later'')
   | Rejected \<Rightarrow> Inl (GrpcUnauthenticated, AUTH_FAILURE_MESSAGE)
   | Authenticated accountId providerId tokenId \<Rightarrow>
       Inr (w\<lparr>sx_sessions := (sx_sessions w)(sessionId \<mapsto> new_session accountId providerId tokenId now)\<rparr>))"

lemma find_Some_mem: "find P xs = Some x \<Longrightarrow> x \<in> set xs \<and> P x"
  by (induction xs) (auto split: if_splits)

lemma find_token_Some:
  assumes "find_token cr rows p presented = Some (a, token)"
  shows "provider_resolveAccountId rows p = Some a
    \<and> tp_status (ld_state (provider_load rows a p)) = TpActive
    \<and> tp_accountId (ld_state (provider_load rows a p)) = Some a
    \<and> token \<in> set (tp_tokens (ld_state (provider_load rows a p))) \<and> tok_revokedAt token = None
    \<and> verifyAgentToken cr presented (tok_hash token)"
  using assms
  by (auto simp: find_token_def provider_loadActive_Some activeTokens_def dest!: find_Some_mem
      split: if_splits option.splits)

lemma authenticate_found:
  assumes "authenticate cr rows throttle now call = (Authenticated accountId providerId tokenId, throttle')"
  shows "\<not> (case throttle of None \<Rightarrow> False | Some t \<Rightarrow> isBlocked t now (sourceOf call)) \<and> throttle' = throttle
    \<and> (\<exists>token. find_token cr rows providerId (presented_token (nullish_or (md_authorization call) [])) = Some (accountId, token)
         \<and> tokenId = tok_tokenId token)"
proof -
  have free: "\<not> (case throttle of None \<Rightarrow> False | Some t \<Rightarrow> isBlocked t now (sourceOf call))"
    using assms unfolding authenticate_def Let_def by (rule contrapos_pn) simp
  then show ?thesis
    using assms unfolding authenticate_def Let_def by (simp only: if_False split: option.splits prod.splits) auto
qed

section \<open>Properties\<close>

text \<open>C27. Nobody opens a session without a valid token: where \<open>authenticate\<close> accepts, the address names an active
  provider of exactly that account, the returned token is one of its tokens and not revoked, and the
  presented secret has the stored digest; the source was not blocked.\<close>
theorem authenticate_sound:
  assumes "authenticate cr rows throttle now call = (Authenticated accountId providerId tokenId, throttle')"
  shows "provider_resolveAccountId rows providerId = Some accountId
    \<and> tp_status (ld_state (provider_load rows accountId providerId)) = TpActive
    \<and> tp_accountId (ld_state (provider_load rows accountId providerId)) = Some accountId
    \<and> (\<exists>token \<in> set (tp_tokens (ld_state (provider_load rows accountId providerId))).
         tok_tokenId token = tokenId \<and> tok_revokedAt token = None
         \<and> verifyAgentToken cr (presented_token (nullish_or (md_authorization call) [])) (tok_hash token))
    \<and> throttle' = throttle \<and> (\<forall>t. throttle = Some t \<longrightarrow> \<not> isBlocked t now (sourceOf call))"
proof -
  from authenticate_found [OF assms] obtain token where found: "find_token cr rows providerId
      (presented_token (nullish_or (md_authorization call) [])) = Some (accountId, token)"
    and out: "tokenId = tok_tokenId token" "throttle' = throttle"
    and free: "\<not> (case throttle of None \<Rightarrow> False | Some t \<Rightarrow> isBlocked t now (sourceOf call))" by blast
  from find_token_Some [OF found] out free show ?thesis by (cases throttle) auto
qed

text \<open>A provider with one token, and a call that presents it.\<close>

definition sample_token_rows :: "stored_event list" where
  "sample_token_rows = sample_provider_rows @
     [sample_row ''e2'' ''acc'' ''p'' 2 (ProviderEv (TokenIssued \<lparr>tki_tokenId = ''t1'',
        tki_tokenHash = hashAgentToken sample_crypto ''fxt_1'', tki_last4 = ''xt_1'', tki_issuedAt = 0\<rparr>))]"

definition sample_metadata :: call_metadata where
  "sample_metadata = \<lparr>md_provider = Some ''p'', md_authorization = Some ''bearer fxt_1'',
     md_forwardedFor = None, md_peer = ''10.0.0.1''\<rparr>"

lemma sample_token_state:
  "ld_state (provider_load sample_token_rows ''acc'' ''p'') = initialTraefikProviderState\<lparr>tp_providerId := Some ''p'',
     tp_accountId := Some ''acc'', tp_name := ''n'', tp_tokens := [\<lparr>tok_tokenId = ''t1'',
       tok_hash = hashAgentToken sample_crypto ''fxt_1'', tok_last4 = ''xt_1'', tok_issuedAt = 0, tok_revokedAt = None\<rparr>]\<rparr>"
  by (simp add: provider_load_simps readStream_def in_stream_def sample_provider_rows_def sample_token_rows_def
      traefikProviderReducer_def initialTraefikProviderState_def)

lemma authenticate_sound_witness:
  "\<exists>token. token \<in> set (tp_tokens (ld_state (provider_load sample_token_rows ''acc'' ''p'')))
     \<and> tok_tokenId token = ''t1'' \<and> verifyAgentToken sample_crypto ''fxt_1'' (tok_hash token)"
proof -
  have presented: "presented_token (nullish_or (md_authorization sample_metadata) []) = ''fxt_1''"
    by (simp add: sample_metadata_def presented_token_def js_lower_def lower_char_def js_trim_def is_space_def)
  have provider: "js_trim (nullish_or (md_provider sample_metadata) []) = ''p''"
    by (simp add: sample_metadata_def js_trim_def is_space_def)
  have active: "provider_loadActive sample_token_rows ''acc'' ''p'' = Some (provider_load sample_token_rows ''acc'' ''p'')"
    unfolding provider_loadActive_Some sample_token_state by (simp add: initialTraefikProviderState_def)
  have resolve: "provider_resolveAccountId sample_token_rows ''p'' = Some ''acc''"
    by (simp add: provider_resolveAccountId_def resolveAccountId_def sample_token_rows_def sample_provider_rows_def)
  have "find_token sample_crypto sample_token_rows ''p'' ''fxt_1'' \<noteq> None"
    unfolding find_token_def resolve active option.case sample_token_state
    by (simp add: activeTokens_def initialTraefikProviderState_def verifyAgentToken_def hashAgentToken_def)
  then obtain a token where found: "find_token sample_crypto sample_token_rows ''p'' ''fxt_1'' = Some (a, token)" by auto
  from find_token_Some [OF found] resolve have "a = ''acc''" by simp
  have auth: "authenticate sample_crypto sample_token_rows None 0 sample_metadata = (Authenticated a ''p'' (tok_tokenId token), None)"
    unfolding authenticate_def Let_def presented provider found by simp
  have "tok_tokenId t = ''t1''" if "t \<in> set (tp_tokens (ld_state (provider_load sample_token_rows ''acc'' ''p'')))" for t
    using that unfolding sample_token_state by simp
  with authenticate_sound [OF auth] \<open>a = ''acc''\<close> presented show ?thesis by auto
qed

text \<open>The guard counts per source in a fixed window: from the first failure on a source is blocked exactly
  when ten or more failures were recorded, until the window of 300 seconds ends, whatever it presents; and the
  failures of other sources, however many, never block it.\<close>
theorem throttle_window:
  assumes "counter_get c t0 (throttle_key source) = 0"
    and "\<forall>t \<in> set ts. t < t0 + 300000" and "source \<notin> fst ` set others"
  shows "let c' = foldl (\<lambda>c (s, t). recordFailure c t s)
        (foldl (\<lambda>c t. recordFailure c t source) (recordFailure c t0 source) ts) others in
      isBlocked c' now source \<longleftrightarrow> now < t0 + 300000 \<and> 1 + length ts \<ge> 10"
proof -
  let ?c = "foldl (\<lambda>c t. recordFailure c t source) (recordFailure c t0 source) ts"
  have "in_window ?c source t0 (Suc 0 + length ts)"
    by (rule more_failures) (use first_failure [OF assms(1)] assms(2) in \<open>simp_all add: THROTTLE_WINDOW_SECONDS_def\<close>)
  then have "isBlocked ?c now source \<longleftrightarrow> now < t0 + 300000 \<and> 1 + length ts \<ge> 10"
    by (auto simp: in_window_def isBlocked_def counter_get_def THROTTLE_MAX_FAILURES_def THROTTLE_WINDOW_SECONDS_def)
  then show ?thesis
    using rt.attacker_cannot_lock_out [OF assms(3), of ?c now] by (simp add: Let_def)
qed

lemma throttle_window_witness:
  "isBlocked (foldl (\<lambda>c (s, t). recordFailure c t s)
      (foldl (\<lambda>c t. recordFailure c t ''a'') (recordFailure [] 0 ''a'') (replicate 9 7)) [(''b'', 8)]) 299999 ''a''"
  using throttle_window [of "[]" 0 "''a''" "replicate 9 7" "[(''b'', 8)]" 299999]
  by (simp add: counter_get_def)

end
