(* ===== verification/AgentChannel.thy ===== *)
theory AgentChannel
  imports AgentServer
begin

text \<open>
  The gRPC side of a session, \<open>adapters/agent-grpc/grpc-agent-server.ts\<close>: the listener's start and stop, the
  events of a stream, and what a stream is given over its life (\<open>sx_sent\<close> of \<open>Sessions\<close>).

  \<open>progress\<close> is what every operation on sessions does to the streams: a closed session stays closed and its
  stream is given nothing more; an open one is given messages, and at most one terminal output, last, when it
  closes. It is reflexive and transitive, so each operation's proof follows its definition. The gRPC server
  (binding a port, draining connections) and the file system are parameters.
\<close>

section \<open>Start\<close>

definition protoPath :: "(string \<Rightarrow> string \<Rightarrow> string) \<Rightarrow> (string \<Rightarrow> bool) \<Rightarrow> string \<Rightarrow> string \<Rightarrow> exn + string" where
  "protoPath resolve existsSync here cwd =
     (let candidates = [resolve here ''../../../../proto/fluxip/agent/v1/session.proto'',
                        resolve cwd ''proto/fluxip/agent/v1/session.proto'']
      in case find existsSync candidates of
           None \<Rightarrow> Inl (JsError (''session.proto not found (looked in '' @ join_with '', '' candidates @ '')''))
         | Some found \<Rightarrow> Inr found)"

definition message_limit :: "Config \<Rightarrow> int" where
  "message_limit config = cfg_agentSnapshotMaxBytes config + 64 * 1024"

definition server_options :: "Config \<Rightarrow> (string \<times> int) list" where
  "server_options config =
     [(''grpc.max_receive_message_length'', message_limit config),
      (''grpc.max_send_message_length'', message_limit config),
      (''grpc.keepalive_time_ms'', 30000),
      (''grpc.keepalive_timeout_ms'', 10000),
      (''grpc.keepalive_permit_without_calls'', 1),
      (''grpc.http2.min_ping_interval_without_data_ms'', 10000)]"

text \<open>\<open>start\<close>: the schema is read first; \<open>bindAsync\<close> answers an error or the port it bound.\<close>

definition server_start ::
  "(exn + string) \<Rightarrow> ((string \<times> int) list \<Rightarrow> string \<Rightarrow> exn + nat) \<Rightarrow> Config \<Rightarrow> exn + nat" where
  "server_start path bindAsync config = (case path of
     Inl err \<Rightarrow> Inl err
   | Inr definition_file \<Rightarrow>
       bindAsync (server_options config) (cfg_bindAddress config @ '':'' @ int_to_string (cfg_agentPort config)))"

section \<open>A call\<close>

text \<open>The handler of a call: an exception of \<open>onSession\<close> (its lookups) is answered by \<open>fail\<close>.\<close>

definition session_call :: "id \<Rightarrow> timestamp \<Rightarrow> exn + auth_result \<Rightarrow> sessions \<Rightarrow> (grpc_status \<times> string) + sessions" where
  "session_call sessionId now auth w = (case auth of
     Inl err \<Rightarrow> Inl (GrpcInternal, ''internal error'')
   | Inr answer \<Rightarrow> onSession sessionId now answer w)"

text \<open>The events of its stream.\<close>

datatype stream_event = StreamData json | StreamEnd | StreamCancelled | StreamClosed | StreamError

definition stream_finish :: "id \<Rightarrow> sessions \<Rightarrow> sessions" where
  "stream_finish i w = session_onClosed i None w"

fun on_stream :: "id \<Rightarrow> stream_event \<Rightarrow> sessions \<Rightarrow> sessions" where
  "on_stream i (StreamData envelope) w = (case decodeEnvelope envelope of
     None \<Rightarrow> w
   | Some message \<Rightarrow> session_receive i message w)"
| "on_stream i StreamEnd w = session_end i w"
| "on_stream i StreamCancelled w = stream_finish i w"
| "on_stream i StreamClosed w = stream_finish i w"
| "on_stream i StreamError w = stream_finish i w"

text \<open>The status a stream ends with on the wire.\<close>

fun wire_status :: "channel_output \<Rightarrow> (grpc_status \<times> string) option" where
  "wire_status (Message m) = None"
| "wire_status EndStream = Some (GrpcOk, [])"
| "wire_status (FailStream code message) = Some (grpc_status_of code, message)"

section \<open>Stop\<close>

definition shutdown_reason :: CloseReason where
  "shutdown_reason = close_reason CodeUnavailable ''server shutting down'' DrClosed"

datatype listener_end = NoListener | Drained | Forced

text \<open>\<open>drained\<close>: the milliseconds after which \<open>tryShutdown\<close> calls back, if it does.\<close>

definition server_stop :: "bool \<Rightarrow> nat option \<Rightarrow> sessions \<Rightarrow> sessions \<times> listener_end" where
  "server_stop running drained w =
     (let w = fold (\<lambda>i. session_close i shutdown_reason) (terminateAll (sx_registry w)) w
      in if \<not> running then (w, NoListener)
         else (w, case drained of None \<Rightarrow> Forced | Some ms \<Rightarrow> if ms < 2000 then Drained else Forced))"

section \<open>What a stream is given\<close>

fun is_message :: "channel_output \<Rightarrow> bool" where
  "is_message (Message m) = True"
| "is_message _ = False"

abbreviation messages :: "channel_output list \<Rightarrow> bool" where
  "messages xs \<equiv> list_all is_message xs"

definition of_stream :: "id \<Rightarrow> (id \<times> channel_output) list \<Rightarrow> channel_output list" where
  "of_stream i xs = map snd (filter (\<lambda>(j, x). j = i) xs)"

fun stream_moves :: "Session option \<Rightarrow> Session option \<Rightarrow> channel_output list \<Rightarrow> bool" where
  "stream_moves None t xs = (t = None \<and> xs = [])"
| "stream_moves (Some s) None xs = False"
| "stream_moves (Some s) (Some t) xs =
     (if ss_closed s then ss_closed t \<and> xs = []
      else messages (if ss_closed t then butlast xs else xs))"

definition progress :: "sessions \<Rightarrow> sessions \<Rightarrow> bool" where
  "progress w w' = (\<exists>xs. sx_sent w' = sx_sent w @ xs \<and>
     (\<forall>i. stream_moves (sx_sessions w i) (sx_sessions w' i) (of_stream i xs)))"

lemma of_stream_simps [simp]:
  "of_stream i [] = []" "of_stream i (xs @ ys) = of_stream i xs @ of_stream i ys"
  "of_stream i ((j, x) # xs) = (if j = i then x # of_stream i xs else of_stream i xs)"
  by (simp_all add: of_stream_def)

lemma stream_moves_refl: "stream_moves s s []"
  by (cases s) simp_all

lemma messages_butlast: "messages xs \<Longrightarrow> messages (butlast xs)"
  by (auto simp: list_all_iff dest: in_set_butlastD)

lemma stream_moves_trans:
  assumes "stream_moves s t xs" and "stream_moves t u ys"
  shows "stream_moves s u (xs @ ys)"
proof (cases s)
  case (Some s0)
  with assms(1) obtain t0 where t: "t = Some t0" by (cases t) simp_all
  with assms(2) obtain u0 where "u = Some u0" by (cases u) simp_all
  with assms Some t show ?thesis by (auto simp: butlast_append messages_butlast split: if_splits)
qed (use assms in simp)

lemma progress_refl: "progress w w"
  unfolding progress_def by (rule exI [of _ "[]"]) (simp add: stream_moves_refl)

lemma progress_trans:
  assumes "progress w w'" and "progress w' w''"
  shows "progress w w''"
proof -
  obtain xs where xs: "sx_sent w' = sx_sent w @ xs" "\<And>i. stream_moves (sx_sessions w i) (sx_sessions w' i) (of_stream i xs)"
    using assms(1) unfolding progress_def by blast
  obtain ys where ys: "sx_sent w'' = sx_sent w' @ ys" "\<And>i. stream_moves (sx_sessions w' i) (sx_sessions w'' i) (of_stream i ys)"
    using assms(2) unfolding progress_def by blast
  have "stream_moves (sx_sessions w i) (sx_sessions w'' i) (of_stream i (xs @ ys))" for i
    using stream_moves_trans [OF xs(2) ys(2)] by simp
  with xs(1) ys(1) show ?thesis unfolding progress_def by (intro exI [of _ "xs @ ys"]) simp
qed

lemma progress_same: "sx_sessions w' = sx_sessions w \<Longrightarrow> sx_sent w' = sx_sent w \<Longrightarrow> progress w w'"
  unfolding progress_def by (rule exI [of _ "[]"]) (simp add: stream_moves_refl)

text \<open>One session changes and its stream is given \<open>xs\<close>.\<close>

lemma progress_one:
  assumes "sx_sent w' = sx_sent w @ map (Pair i) xs" and "sx_sessions w' = (sx_sessions w)(i := t)"
    and "stream_moves (sx_sessions w i) t xs"
  shows "progress w w'"
proof -
  have own: "of_stream i (map (Pair i) xs) = xs" and other: "j \<noteq> i \<Longrightarrow> of_stream j (map (Pair i) xs) = []" for j
    by (induction xs) simp_all
  have "stream_moves (sx_sessions w j) (sx_sessions w' j) (of_stream j (map (Pair i) xs))" for j
    using assms(3) own other [of j] by (cases "j = i") (simp_all add: assms(2) stream_moves_refl)
  with assms(1) show ?thesis unfolding progress_def by blast
qed

section \<open>Every operation makes progress\<close>

lemma progress_upd:
  assumes "\<And>s. ss_closed (f s) = ss_closed s"
  shows "progress w (upd_session i f w)"
proof (rule progress_one [where i = i and xs = "[]"])
  show "stream_moves (sx_sessions w i) (map_option f (sx_sessions w i)) []"
    using assms by (cases "sx_sessions w i") simp_all
qed (simp_all add: upd_session_def)

lemma progress_emit:
  assumes "sx_sessions w i = Some s" and "\<not> ss_closed s"
  shows "progress w (session_emit i (Message m) w)"
  by (rule progress_one [where i = i and xs = "[Message m]" and t = "Some s"])
    (use assms in \<open>simp_all add: fun_upd_idem\<close>)

lemma progress_send: "progress w (session_send i m w)"
  by (cases "sx_sessions w i") (simp_all add: session_send_def progress_refl progress_emit)

lemma onClosed_sent [simp]: "sx_sent (session_onClosed i r w) = sx_sent w"
  by (simp add: session_onClosed_def upd_session_def Let_def split: option.split)

lemma progress_closing:
  assumes "sx_sessions w i = Some s" and "\<not> ss_closed s"
    and "sx_sessions w' = (sx_sessions w)(i \<mapsto> closed_session r s)" and "sx_sent w' = sx_sent w @ map (Pair i) xs"
    and "messages (butlast xs)"
  shows "progress w w'"
  by (rule progress_one [OF assms(4,3)]) (use assms in \<open>simp add: closed_session_def\<close>)

lemma progress_onClosed: "progress w (session_onClosed i r w)"
proof (cases "\<exists>s. sx_sessions w i = Some s \<and> \<not> ss_closed s")
  case True
  then obtain s where s: "sx_sessions w i = Some s" "\<not> ss_closed s" by blast
  show ?thesis by (rule progress_closing [OF s session_onClosed_open(1) [OF s], where xs = "[]"]) simp_all
next
  case False
  then have "session_onClosed i r w = w" by (intro session_onClosed_noop; cases "sx_sessions w i"; simp)
  then show ?thesis by (simp add: progress_refl)
qed

lemma progress_close: "progress w (session_close i r w)"
proof (cases "\<exists>s. sx_sessions w i = Some s \<and> \<not> ss_closed s")
  case True
  then obtain s where s: "sx_sessions w i = Some s" "\<not> ss_closed s" by blast
  let ?x = "if cr_code r = CodeOk then EndStream else FailStream (cr_code r) (cr_message r)"
  show ?thesis
    by (rule progress_closing [OF s, where xs = "[?x]" and r = "given_reason r"])
      (simp_all add: session_close_open [OF s] session_onClosed_open(1) [OF s])
next
  case False
  then have "session_close i r w = w" by (auto simp: session_close_def split: option.split)
  then show ?thesis by (simp add: progress_refl)
qed

lemma progress_end: "progress w (session_end i w)"
proof (cases "\<exists>s. sx_sessions w i = Some s \<and> \<not> ss_closed s")
  case True
  then obtain s where s: "sx_sessions w i = Some s" "\<not> ss_closed s" by blast
  show ?thesis
    by (rule progress_closing [OF s, where xs = "[EndStream]" and r = None])
      (use s in \<open>simp_all add: session_end_def onClosed_emit session_onClosed_open(1) [OF s]\<close>)
next
  case False
  then have "session_end i w = w" by (auto simp: session_end_def session_onClosed_noop split: option.split)
  then show ?thesis by (simp add: progress_refl)
qed

lemma progress_terminate: "progress w (session_terminate i r w)"
  by (auto simp: session_terminate_def progress_refl split: option.split
      intro!: progress_trans [OF progress_upd progress_close])

lemma progress_pc: "progress w (session_pc i p w)"
  by (simp add: session_pc_def progress_upd)

lemma if_cases: "P x \<Longrightarrow> P y \<Longrightarrow> P (if b then x else y)"
  by simp

lemma progress_onHello: "progress w (session_onHello i hello now w)"
proof -
  have reg: "progress w (upd_session i (\<lambda>s. s\<lparr>ss_helloSeen := True\<rparr>) (w\<lparr>sx_registry := r\<rparr>))" for r
    by (rule progress_trans [OF progress_same progress_upd]) simp_all
  have bye: "progress w (session_close j superseded_reason (session_send j m w))" for j m w
    by (rule progress_trans [OF progress_send progress_close])
  have old: "progress w (case replaced of None \<Rightarrow> w
      | Some old \<Rightarrow> session_close (as_sessionId old) superseded_reason (session_send (as_sessionId old) (MsgBye ''superseded'') w))"
    for replaced w
    by (cases replaced) (simp_all add: progress_refl bye)
  show ?thesis
  proof (cases "sx_sessions w i")
    case None
    then show ?thesis by (simp add: session_onHello_def progress_refl)
  next
    case (Some s)
    have pc: "progress w' (upd_session i (\<lambda>t. t\<lparr>ss_pc := p\<rparr>) w')" for w' p
      by (rule progress_upd) simp
    show ?thesis
      unfolding session_onHello_def Some option.case Let_def case_prod_beta
      by (rule if_cases [where P = "progress w"], rule progress_terminate, rule progress_trans [OF progress_trans [OF reg old] pc])
  qed
qed

lemma progress_process: "progress w (session_process i m now w)"
proof -
  have seen: "progress w (upd_session i (\<lambda>s. s\<lparr>ss_lastReceivedAt := now\<rparr>) w)"
    by (rule progress_upd) simp
  note then_progress = progress_trans [OF seen]
  show ?thesis
  proof (cases "sx_sessions w i")
    case None
    then show ?thesis by (simp add: session_process_def progress_refl)
  next
    case (Some s)
    show ?thesis
      unfolding session_process_def Some option.case Let_def
      by (cases m)
        (simp_all add: progress_refl seen then_progress [OF progress_terminate] then_progress [OF progress_onHello]
          then_progress [OF progress_pc] split: option.split)
  qed
qed

lemma progress_next: "progress w (session_next i now w)"
proof -
  have "progress w (session_process i m now (upd_session i (\<lambda>s. s\<lparr>ss_inbox := ms\<rparr>) w))" for m ms
    by (rule progress_trans [OF progress_upd progress_process]) simp
  then show ?thesis by (simp add: session_next_def progress_refl split: option.split list.split)
qed

lemma progress_receive: "progress w (session_receive i m w)"
  by (simp add: session_receive_def progress_upd)

lemma progress_rows: "progress w (w\<lparr>sx_rows := rows\<rparr>)"
  by (rule progress_same) simp_all

lemma progress_append:
  assumes "\<And>w. progress w (continue w)"
  shows "progress w (fst (append_in_session env tk i s ev continue w))"
proof -
  have ok: "progress w (continue (w\<lparr>sx_rows := rows\<rparr>))" for rows
    by (rule progress_trans [OF progress_rows assms])
  have failed: "progress w (session_terminate i r (session_pc i p (w\<lparr>sx_rows := rows\<rparr>)))" for r p rows
    by (rule progress_trans [OF progress_rows progress_trans [OF progress_pc progress_terminate]])
  show ?thesis by (simp add: append_in_session_def ok failed split: prod.split sum.split)
qed

lemma progress_advance: "progress w (fst (session_advance env tk i w))"
proof (cases "sx_sessions w i")
  case None
  then show ?thesis by (simp add: session_advance_def progress_refl)
next
  case (Some s)
  show ?thesis
  proof (cases "ss_pc s")
    case Idle
    with Some show ?thesis by (simp add: session_advance_def progress_refl)
  next
    case (AppendConnected d)
    with Some show ?thesis by (simp add: session_advance_def progress_append progress_upd)
  next
    case (LoadForHello accepted)
    with Some show ?thesis by (simp add: session_advance_def progress_trans [OF progress_send progress_pc])
  next
    case (AppendReport ev)
    with Some show ?thesis by (simp add: session_advance_def progress_append progress_pc)
  next
    case (PublishCurrent afterHello)
    have failed: "progress w (session_terminate i r (session_pc i p (w\<lparr>sx_rows := rows\<rparr>)))" for r p rows
      by (rule progress_trans [OF progress_rows progress_trans [OF progress_pc progress_terminate]])
    have idle: "progress w' (upd_session i (\<lambda>s. s\<lparr>ss_pc := Idle, ss_heartbeatTimer := t s\<rparr>) w')" for w' t
      by (rule progress_upd) simp
    have sent: "progress w (upd_session i (\<lambda>s. s\<lparr>ss_pc := Idle, ss_heartbeatTimer := t s\<rparr>)
        (case snapshot of None \<Rightarrow> w\<lparr>sx_rows := rows\<rparr> | Some p \<Rightarrow> session_send i (MsgSnapshot p) (w\<lparr>sx_rows := rows\<rparr>)))"
      for t snapshot rows
      by (rule progress_trans [OF progress_rows [of w rows] progress_trans [OF _ idle]])
        (cases snapshot; simp add: progress_refl progress_send)
    from Some PublishCurrent show ?thesis
      by (simp add: session_advance_def Let_def failed sent split: prod.split sum.split)
  qed
qed

lemma progress_close_advance: "progress w (fst (session_close_advance env t i w))"
proof (cases "sx_sessions w i")
  case None
  then show ?thesis by (simp add: session_close_advance_def progress_refl)
next
  case (Some s)
  have "progress w (upd_session i (\<lambda>s. s\<lparr>ss_closing := c\<rparr>) (w\<lparr>sx_rows := rows\<rparr>))" for c rows
    by (rule progress_trans [OF progress_rows progress_upd]) simp
  moreover have "progress w (upd_session i (\<lambda>s. s\<lparr>ss_closing := c\<rparr>) w)" for c
    by (rule progress_upd) simp
  moreover have "progress w (upd_session i (\<lambda>s. s\<lparr>ss_disconnectRecorded := True, ss_closing := c\<rparr>) w)" for c
    by (rule progress_upd) simp
  ultimately show ?thesis
    using Some by (cases "ss_closing s") (simp_all add: session_close_advance_def progress_refl Let_def case_prod_beta)
qed

lemma progress_heartbeat: "progress w (session_heartbeat env i now w)"
proof -
  have "progress w (session_send i m (upd_session i (\<lambda>s. s\<lparr>ss_nonce := ss_nonce s + 1\<rparr>) w))" for m
    by (rule progress_trans [OF progress_upd progress_send]) simp
  then show ?thesis by (simp add: session_heartbeat_def Let_def progress_refl progress_terminate split: option.split)
qed

text \<open>So does every step but the opening of a stream.\<close>

lemma step_progress:
  assumes "session_step env w out w'"
  shows "progress w w' \<or> (\<exists>i acc p tok now. sx_sessions w i = None
    \<and> w' = w\<lparr>sx_sessions := (sx_sessions w)(i \<mapsto> new_session acc p tok now)\<rparr>)"
  using assms
proof cases
  case (step_open i acc p tok now)
  then show ?thesis by blast
next
  case (step_advance tk i)
  with progress_advance [of w env tk i] show ?thesis by simp
next
  case (step_close_advance t i)
  with progress_close_advance [of w env t i] show ?thesis by simp
next
  case (step_push p m)
  then show ?thesis by (simp add: session_push_def progress_send progress_refl split: option.split)
qed (simp_all add: progress_receive progress_next progress_heartbeat progress_onClosed progress_end progress_close progress_rows)

section \<open>Properties\<close>

definition stream_ok :: "sessions \<Rightarrow> id \<Rightarrow> bool" where
  "stream_ok w i = (case sx_sessions w i of
     None \<Rightarrow> of_stream i (sx_sent w) = []
   | Some s \<Rightarrow> messages (if ss_closed s then butlast (of_stream i (sx_sent w)) else of_stream i (sx_sent w)))"

lemma progress_ok:
  assumes "progress w w'" and "stream_ok w i"
  shows "stream_ok w' i"
proof -
  obtain xs where xs: "sx_sent w' = sx_sent w @ xs" "stream_moves (sx_sessions w i) (sx_sessions w' i) (of_stream i xs)"
    using assms(1) unfolding progress_def by blast
  show ?thesis
  proof (cases "sx_sessions w i")
    case None
    with xs assms(2) show ?thesis by (simp add: stream_ok_def)
  next
    case (Some s)
    with xs(2) obtain t where t: "sx_sessions w' i = Some t" by (cases "sx_sessions w' i") simp_all
    from xs assms(2) Some t show ?thesis by (auto simp: stream_ok_def butlast_append messages_butlast split: if_splits)
  qed
qed

lemma stream_ok_open:
  assumes "sx_sessions w j = None" and "stream_ok w i"
  shows "stream_ok (w\<lparr>sx_sessions := (sx_sessions w)(j \<mapsto> new_session acc p tok now)\<rparr>) i"
  using assms by (cases "i = j"; cases "sx_sessions w i") (simp_all add: stream_ok_def new_session_def split: if_splits)

lemma trace_streams_ok: "session_trace env rows log w \<Longrightarrow> stream_ok w i"
proof (induction rule: session_trace.induct)
  case strace_init
  then show ?case by (simp add: stream_ok_def)
next
  case (strace_step log w out w')
  from step_progress [OF strace_step.hyps(2)] strace_step.IH show ?case
    by (elim disjE exE conjE) (simp_all only: progress_ok stream_ok_open)
qed

text \<open>A closed session stays closed, and its stream is given nothing more.\<close>

lemma closed_is_silent:
  assumes "session_step env w out w'" and "sx_sessions w i = Some s" and "ss_closed s"
  shows "of_stream i (sx_sent w') = of_stream i (sx_sent w) \<and> (\<exists>t. sx_sessions w' i = Some t \<and> ss_closed t)"
  using step_progress [OF assms(1)]
proof
  assume "progress w w'"
  then obtain xs where xs: "sx_sent w' = sx_sent w @ xs" "stream_moves (sx_sessions w i) (sx_sessions w' i) (of_stream i xs)"
    unfolding progress_def by blast
  with assms(2,3) show ?thesis by (cases "sx_sessions w' i") simp_all
qed (use assms(2,3) in auto)

lemma trace_step_streams:
  assumes "session_trace env rows log w" and "of_stream i (sx_sent w) = before @ x # later" and "\<not> is_message x"
  shows "later = [] \<and> messages before \<and> (\<exists>s. sx_sessions w i = Some s \<and> ss_closed s)"
proof -
  from trace_streams_ok [OF assms(1), of i] assms(2) obtain s where s: "sx_sessions w i = Some s"
    by (cases "sx_sessions w i") (simp_all add: stream_ok_def)
  with trace_streams_ok [OF assms(1), of i] assms(2,3) have c: "ss_closed s" and m: "messages (butlast (before @ x # later))"
    by (auto simp: stream_ok_def split: if_splits)
  have "later = []" using m assms(3) by (cases later) (simp_all add: butlast_append)
  with m s c show ?thesis by (simp add: butlast_append)
qed

text \<open>C36. Every stream ends once: whatever agents, timers, revocations, a newer connection, the pushes of the coordinator
  and of the resync or the shutdown do and in whatever order, the first terminal output of a stream (its end or its one status) is also the last thing it is given;
  before it there are messages only, its session is closed, and no later step gives the stream anything more.\<close>
theorem stream_ends_once:
  assumes "session_trace env rows log w" and "of_stream i (sx_sent w) = before @ x # later" and "wire_status x \<noteq> None"
  shows "later = [] \<and> messages before \<and> (\<exists>s. sx_sessions w i = Some s \<and> ss_closed s)
    \<and> (\<forall>out w'. session_step env w out w' \<longrightarrow> of_stream i (sx_sent w') = of_stream i (sx_sent w))"
proof -
  from assms(3) have "\<not> is_message x" by (cases x) simp_all
  from trace_step_streams [OF assms(1,2) this] closed_is_silent show ?thesis by blast
qed

text \<open>A greeted session that the shutdown ends: its stream is given one status.\<close>

lemma sample_greeted_sent: "sx_sent sample_greeted = []"
  by (simp add: sample_greeted_def session_next_def session_receive_def sample_opened_def new_session_def session_process_def
      session_onHello_def sample_hello_def PROTOCOL_MIN_VERSION_def PROTOCOL_MAX_VERSION_def registry_register_def upd_session_def)

lemma stream_ends_once_witness:
  "of_stream ''s1'' (sx_sent (session_close ''s1'' shutdown_reason sample_greeted))
     = [FailStream CodeUnavailable ''server shutting down'']
   \<and> (\<exists>s. sx_sessions (session_close ''s1'' shutdown_reason sample_greeted) ''s1'' = Some s \<and> ss_closed s)"
proof -
  let ?w = "session_close ''s1'' shutdown_reason sample_greeted"
  obtain s where s: "sx_sessions sample_greeted ''s1'' = Some s" "\<not> ss_closed s"
    using sample_greeted_session unfolding live_def by blast
  have out: "of_stream ''s1'' (sx_sent ?w) = [] @ FailStream CodeUnavailable ''server shutting down'' # []"
    by (simp add: session_close_open [OF s] sample_greeted_sent shutdown_reason_def close_reason_def)
  have "session_trace sample_session_env [] [] ?w"
    using strace_step [OF sample_greeted_trace step_close] by simp
  from stream_ends_once [OF this out] out show ?thesis by simp
qed

text \<open>The shutdown ends every live session, and the registry is empty afterwards. A stream that has not sent its
  greeting is in no registry: it is ended by the server's own shutdown, not by a status of ours.\<close>

lemma fold_close_sessions:
  assumes "sx_sessions (fold (\<lambda>i. session_close i r) js w) i = Some s"
  shows "\<exists>s0. sx_sessions w i = Some s0 \<and> (ss_closed s \<or> (s = s0 \<and> i \<notin> set js))"
  using assms
proof (induction js arbitrary: w)
  case (Cons j js)
  let ?w = "session_close j r w"
  from Cons.prems have "sx_sessions (fold (\<lambda>i. session_close i r) js ?w) i = Some s" by (simp only: fold_simps)
  from Cons.IH [OF this] obtain s1 where s1: "sx_sessions ?w i = Some s1" "ss_closed s \<or> (s = s1 \<and> i \<notin> set js)" by blast
  show ?case
  proof (cases "\<exists>t. sx_sessions w j = Some t \<and> \<not> ss_closed t")
    case True
    then obtain t where t: "sx_sessions w j = Some t" "\<not> ss_closed t" by blast
    from s1 t session_onClosed_open(1) [OF t] show ?thesis by (cases "i = j") (auto simp: closed_session_def)
  next
    case False
    then have "sx_sessions ?w = sx_sessions w"
      by (simp only: session_close_state) (subst session_onClosed_noop; cases "sx_sessions w j"; simp)
    with s1 False show ?thesis by auto
  qed
qed simp

lemma fold_close_trace:
  "session_trace env rows log w \<Longrightarrow> session_trace env rows log (fold (\<lambda>i. session_close i r) js w)"
proof (induction js arbitrary: w)
  case (Cons j js)
  from strace_step [OF Cons.prems step_close] Cons.IH show ?case by simp
qed simp

theorem server_stop_ends_live:
  assumes "session_trace env rows log w"
  shows "(\<forall>i s. sx_sessions (fst (server_stop running drained w)) i = Some s \<longrightarrow> \<not> live s)
    \<and> (\<forall>p. map_of (sx_registry (fst (server_stop running drained w))) p = None)"
proof -
  let ?js = "terminateAll (sx_registry w)"
  let ?w = "fold (\<lambda>i. session_close i shutdown_reason) ?js w"
  have stop: "fst (server_stop running drained w) = ?w" by (simp add: server_stop_def Let_def)
  have dead: "\<not> live s" if s: "sx_sessions ?w i = Some s" for i s
  proof
    assume live: "live s"
    from fold_close_sessions [OF s] live have s0: "sx_sessions w i = Some s" "i \<notin> set ?js" by (auto simp: live_def)
    from sessions_okD(4) [OF session_trace_ok [OF assms] s0(1) live] obtain a where
      a: "map_of (sx_registry w) (ss_providerId s) = Some a" "as_sessionId a = i" by blast
    from map_of_SomeD [OF a(1)] a(2) have "i \<in> set ?js" by (force simp: terminateAll_def)
    with s0(2) show False by simp
  qed
  moreover have "map_of (sx_registry ?w) p = None" for p
  proof (rule ccontr)
    assume "map_of (sx_registry ?w) p \<noteq> None"
    then obtain a where a: "map_of (sx_registry ?w) p = Some a" by blast
    from sessions_okD(3) [OF session_trace_ok [OF fold_close_trace [OF assms]] a] dead show False by blast
  qed
  ultimately show ?thesis by (simp add: stop)
qed

text \<open>The events of a stream are steps of its session.\<close>

lemma on_stream_step:
  assumes "on_stream i ev w \<noteq> w"
  shows "session_step env w [] (on_stream i ev w)"
  using assms
  by (cases ev) (auto simp: stream_finish_def intro: session_step.intros split: option.splits)

text \<open>The reason of a closure that does not come from the session itself is lost: the disconnection of a superseded or
  revoked session is recorded as an ordinary one, and so the events of a provider whose agent reconnected say it
  is disconnected, although the reducer means to keep the newer connection authoritative.\<close>

lemma forced_closure_recorded_as_closed:
  assumes "sx_sessions w i = Some s" and "\<not> ss_closed s" and "ss_closeReason s = None" and "cr_code reason \<noteq> CodeOk"
  shows "\<exists>t. sx_sessions (session_close i reason w) i = Some t \<and> ss_closing t = AwaitChain DrClosed"
  using assms session_onClosed_open(1) [OF assms(1,2)]
  by (simp add: given_reason_def closed_session_def nullish_or_def default_reason_def close_reason_def)

lemma superseded_presence_lost:
  assumes "sx_sessions w i = Some s" and "\<not> ss_closed s" and "ss_closeReason s = None"
  shows "\<exists>t r. sx_sessions (session_close i superseded_reason w) i = Some t \<and> ss_closing t = AwaitChain r
    \<and> tp_lastPresence (traefik_provider_apply state n (ProviderEv (AgentDisconnected
         \<lparr>agd_sessionId = i, agd_reason = r, agd_disconnectedAt = at\<rparr>))) = PrDisconnected"
  using forced_closure_recorded_as_closed [OF assms, of superseded_reason]
  by (auto simp: superseded_reason_def close_reason_def)

text \<open>A session that ends itself is recorded with its own reason.\<close>

lemma own_termination_recorded:
  assumes "sx_sessions w i = Some s" and "\<not> ss_closed s" and "ss_closeReason s = None"
  shows "\<exists>t. sx_sessions (session_terminate i reason w) i = Some t \<and> ss_closing t = AwaitChain (cr_disconnect reason)"
proof -
  let ?w = "upd_session i (\<lambda>s. s\<lparr>ss_closeReason := Some reason\<rparr>) w"
  have "sx_sessions ?w i = Some (s\<lparr>ss_closeReason := Some reason\<rparr>)" using assms(1) by simp
  from session_onClosed_open(1) [OF this] assms show ?thesis
    by (simp add: session_terminate_def closed_session_def given_reason_def nullish_def nullish_or_def)
qed

end
