(* ===== verification/Hetzner.thy ===== *)
theory Hetzner
  imports Aggregates Json
begin

text \<open>
  The two Hetzner actions: the HTTP client both share in form (\<open>requestJson\<close>), the DNS executor
  (\<open>adapters/actions/hetzner-dns/hetzner-dns-executor.ts\<close>), the firewall executor with its client
  (\<open>adapters/actions/hetzner-firewall\<close>) and the rule selector
  (\<open>domain/action/firewall-rule-selector.ts\<close>).

  The remote API is the parameter \<open>server\<close>, an arbitrary function from the requests sent so far (the
  last one is being answered) to an answer or a network error; the log of requests is threaded through
  the code, so a theorem about the log is one about what the backend does to the outside world.
  \<open>JSON.parse\<close> is the parameter \<open>parse\<close>. A rule is the JSON object it was read as, because the code
  spreads it back into the request; object identity (\<open>rule === matched.rule\<close>) is its position. The
  message of a \<open>TypeError\<close> the engine raises is not modelled.
\<close>

section \<open>Requests\<close>

datatype http_method = GET | POST

record http_request =
  rq_method :: http_method
  rq_url :: string
  rq_token :: string
  rq_body :: "string option"

record http_response =
  rs_status :: nat
  rs_contentType :: "string option"
  rs_body :: string

type_synonym server = "http_request list \<Rightarrow> exn + http_response"

fun js_includes :: "string \<Rightarrow> string \<Rightarrow> bool" where
  "js_includes [] sub = (sub = [])"
| "js_includes (c # cs) sub = (take (length sub) (c # cs) = sub \<or> js_includes cs sub)"

definition response_ok :: "http_response \<Rightarrow> bool" where
  "response_ok r = (200 \<le> rs_status r \<and> rs_status r \<le> 299)"

definition type_error :: exn where
  "type_error = JsError ''TypeError''"

definition check_response :: "string \<Rightarrow> http_response \<Rightarrow> exn + string" where
  "check_response context response =
     (let contentType = nullish_or (rs_contentType response) []; rawBody = rs_body response in
      if \<not> js_includes contentType ''application/json''
      then Inl (JsError (''Hetzner Cloud API returned a non-JSON response for '' @ context @ '' (status ''
        @ nat_to_string (rs_status response) @ '', content-type \"'' @ or_default contentType ''none'' @ ''\"): ''
        @ take 200 rawBody))
      else if \<not> response_ok response
      then Inl (JsError (''Hetzner Cloud API rejected '' @ context @ '' ('' @ nat_to_string (rs_status response) @ ''): ''
        @ take 500 rawBody))
      else Inr rawBody)"

definition requestJson ::
  "(string \<Rightarrow> exn + json) \<Rightarrow> server \<Rightarrow> http_request list \<Rightarrow> http_request \<Rightarrow> string \<Rightarrow> (exn + json) \<times> http_request list" where
  "requestJson parse server log request context =
     (let log' = log @ [request] in
      (case server log' of
         Inl err \<Rightarrow> Inl err
       | Inr response \<Rightarrow> (case check_response context response of
             Inl err \<Rightarrow> Inl err
           | Inr rawBody \<Rightarrow> parse rawBody), log'))"

definition HETZNER_API_BASE :: string where
  "HETZNER_API_BASE = ''https://api.hetzner.cloud/v1''"

text \<open>\<open>${v}\<close> where \<open>v\<close> may be \<open>undefined\<close>\<close>

definition text_of :: "string option \<Rightarrow> string" where
  "text_of v = nullish_or v ''undefined''"

section \<open>DNS records\<close>

record HetznerDnsResolvedConfig =
  dn_apiToken :: string
  dn_zoneName :: "string option"
  dn_recordName :: "string option"
  dn_sourceLabel :: string

definition dns_request :: "HetznerDnsResolvedConfig \<Rightarrow> string \<Rightarrow> string \<Rightarrow> string \<Rightarrow> http_request" where
  "dns_request config rrtype val nowIso = \<lparr>rq_method = POST,
     rq_url = HETZNER_API_BASE @ ''/zones/'' @ text_of (dn_zoneName config) @ ''/rrsets/'' @ text_of (dn_recordName config)
       @ ''/'' @ rrtype @ ''/actions/set_records'',
     rq_token = dn_apiToken config,
     rq_body = Some (json_stringify (JObj [(''records'', JArr [JObj [(''value'', JStr val),
       (''comment'', JStr (dn_sourceLabel config @ '' | '' @ nowIso))]])]))\<rparr>"

definition setRecords ::
  "(string \<Rightarrow> exn + json) \<Rightarrow> server \<Rightarrow> http_request list \<Rightarrow> HetznerDnsResolvedConfig \<Rightarrow> string \<Rightarrow> string \<Rightarrow> string \<Rightarrow>
   (exn + json) \<times> http_request list" where
  "setRecords parse server log config rrtype val nowIso =
     requestJson parse server log (dns_request config rrtype val nowIso) ''the rrset update''"

text \<open>One address family of \<open>execute\<close>, and the whole method; \<open>nowIso\<close> is the clock in ISO form.\<close>

definition dns_family ::
  "(string \<Rightarrow> exn + json) \<Rightarrow> server \<Rightarrow> HetznerDnsResolvedConfig \<Rightarrow> string \<Rightarrow> string \<Rightarrow> string option \<Rightarrow>
   string list \<times> http_request list \<Rightarrow> (exn + string list) \<times> http_request list" where
  "dns_family parse server config rrtype nowIso val st = (case st of (updates, log) \<Rightarrow>
     if \<not> truthy val then (Inr updates, log)
     else (case setRecords parse server log config rrtype (the val) nowIso of
         (Inl err, log') \<Rightarrow> (Inl err, log')
       | (Inr j, log') \<Rightarrow> (Inr (updates @ [rrtype @ ''='' @ the val]), log')))"

definition dns_execute ::
  "(string \<Rightarrow> exn + json) \<Rightarrow> server \<Rightarrow> (nat \<Rightarrow> string) \<Rightarrow> HetznerDnsResolvedConfig \<Rightarrow> IpValuesUsed \<Rightarrow> http_request list \<Rightarrow>
   (exn + string) \<times> http_request list" where
  "dns_execute parse server nowIso config ipValues log =
     (case dns_family parse server config ''A'' (nowIso 0) (ipv_ipv4 ipValues) ([], log) of
        (Inl err, log1) \<Rightarrow> (Inl err, log1)
      | (Inr updates1, log1) \<Rightarrow>
          (case dns_family parse server config ''AAAA'' (nowIso 1) (ipv_ipv6 ipValues) (updates1, log1) of
             (Inl err, log2) \<Rightarrow> (Inl err, log2)
           | (Inr updates, log2) \<Rightarrow>
               if updates = [] then (Inl (JsError ''No IP values supplied to update''), log2)
               else (Inr (''Updated Hetzner DNS record \"'' @ text_of (dn_recordName config) @ ''\": ''
                       @ join_with '', '' updates), log2)))"

section \<open>Selecting a firewall rule\<close>

record RuleSelector =
  sel_direction :: "string option"
  sel_protocol :: "string option"
  sel_port :: "string option"
  sel_description :: "string option"

datatype match_result = Matched nat | NoMatch | AmbiguousMatch nat

text \<open>\<open>v ?? undefined\<close> on a property read\<close>

fun or_undefined :: "json option \<Rightarrow> json option" where
  "or_undefined (Some JNull) = None"
| "or_undefined v = v"

definition selects :: "RuleSelector \<Rightarrow> json \<Rightarrow> bool" where
  "selects selector rule = (
     json_prop rule ''direction'' = map_option JStr (sel_direction selector)
     \<and> json_prop rule ''protocol'' = map_option JStr (sel_protocol selector)
     \<and> or_undefined (json_prop rule ''port'') = map_option JStr (sel_port selector)
     \<and> Some (nullish_or (or_undefined (json_prop rule ''description'')) (JStr [])) = map_option JStr (sel_description selector))"

definition matches_of :: "json list \<Rightarrow> RuleSelector \<Rightarrow> nat list" where
  "matches_of rules selector = filter (\<lambda>i. selects selector (rules ! i)) [0..<length rules]"

definition matchFirewallRule :: "json list \<Rightarrow> RuleSelector \<Rightarrow> match_result" where
  "matchFirewallRule rules selector = (case matches_of rules selector of
       [] \<Rightarrow> NoMatch
     | [i] \<Rightarrow> Matched i
     | ms \<Rightarrow> AmbiguousMatch (length ms))"

section \<open>The firewall client\<close>

definition firewall_url :: "int option \<Rightarrow> string" where
  "firewall_url firewallId = HETZNER_API_BASE @ ''/firewalls/'' @ text_of (map_option int_to_string firewallId)"

definition get_request :: "string \<Rightarrow> int option \<Rightarrow> http_request" where
  "get_request apiToken firewallId =
     \<lparr>rq_method = GET, rq_url = firewall_url firewallId, rq_token = apiToken, rq_body = None\<rparr>"

definition set_rules_request :: "string \<Rightarrow> int option \<Rightarrow> json list \<Rightarrow> http_request" where
  "set_rules_request apiToken firewallId rules =
     \<lparr>rq_method = POST, rq_url = firewall_url firewallId @ ''/actions/set_rules'', rq_token = apiToken,
      rq_body = Some (json_stringify (JObj [(''rules'', JArr rules)]))\<rparr>"

text \<open>\<open>response.firewall.rules\<close>, read as the array the callers filter; an item is not \<open>null\<close>.\<close>

definition rules_of :: "json \<Rightarrow> exn + json list" where
  "rules_of response = (case json_prop response ''firewall'' of
       None \<Rightarrow> Inl type_error
     | Some firewall \<Rightarrow> (case json_prop firewall ''rules'' of
           Some (JArr rules) \<Rightarrow> if JNull \<in> set rules then Inl type_error else Inr rules
         | _ \<Rightarrow> Inl type_error))"

definition getFirewall ::
  "(string \<Rightarrow> exn + json) \<Rightarrow> server \<Rightarrow> http_request list \<Rightarrow> string \<Rightarrow> int option \<Rightarrow> (exn + json list) \<times> http_request list" where
  "getFirewall parse server log apiToken firewallId =
     (case requestJson parse server log (get_request apiToken firewallId) ''reading the firewall'' of
        (Inl err, log') \<Rightarrow> (Inl err, log')
      | (Inr response, log') \<Rightarrow> (rules_of response, log'))"

definition setFirewallRules ::
  "(string \<Rightarrow> exn + json) \<Rightarrow> server \<Rightarrow> http_request list \<Rightarrow> string \<Rightarrow> int option \<Rightarrow> json list \<Rightarrow>
   (exn + json) \<times> http_request list" where
  "setFirewallRules parse server log apiToken firewallId rules =
     requestJson parse server log (set_rules_request apiToken firewallId rules) ''the set_rules update''"

section \<open>Updating a firewall rule\<close>

record HetznerFirewallResolvedConfig =
  hf_apiToken :: string
  hf_accountId :: id
  hf_firewallId :: "int option"
  hf_selector :: RuleSelector
  hf_previousEntries :: OwnedEntries

fun toCidr :: "string \<Rightarrow> address_family \<Rightarrow> string" where
  "toCidr address IPv4 = address @ ''/32''"
| "toCidr address IPv6 = address @ ''/128''"

definition list_key :: "json \<Rightarrow> string" where
  "list_key rule = (if json_prop rule ''direction'' = Some (JStr ''in'') then ''source_ips'' else ''destination_ips'')"

definition current_list :: "json \<Rightarrow> exn + json list" where
  "current_list rule = (case or_undefined (json_prop rule (list_key rule)) of
       None \<Rightarrow> Inr []
     | Some (JArr ips) \<Rightarrow> Inr ips
     | Some _ \<Rightarrow> Inl type_error)"

text \<open>\<open>Object.values(o).filter(Boolean)\<close>\<close>

definition given_entries :: "(address_family \<times> string) list \<Rightarrow> string list" where
  "given_entries entries = filter (\<lambda>v. v \<noteq> []) (map snd entries)"

definition push_missing :: "json list \<Rightarrow> string \<Rightarrow> json list" where
  "push_missing nextList cidr = (if JStr cidr \<in> set nextList then nextList else nextList @ [JStr cidr])"

definition next_list :: "json list \<Rightarrow> (address_family \<times> string) list \<Rightarrow> (address_family \<times> string) list \<Rightarrow> json list" where
  "next_list currentList remove add =
     foldl push_missing (filter (\<lambda>ip. ip \<notin> JStr ` set (given_entries remove)) currentList) (given_entries add)"

fun spread_with :: "json \<Rightarrow> string \<Rightarrow> json \<Rightarrow> json" where
  "spread_with (JObj fs) k v = JObj (AList.update k v fs)"
| "spread_with _ k v = JObj [(k, v)]"

definition selector_error :: "int option \<Rightarrow> match_result \<Rightarrow> exn" where
  "selector_error firewallId m = JsError (case m of
       AmbiguousMatch n \<Rightarrow> nat_to_string n @ '' firewall rules on firewall '' @ text_of (map_option int_to_string firewallId)
         @ '' match the configured selector; expected exactly one''
     | _ \<Rightarrow> ''No firewall rule on firewall '' @ text_of (map_option int_to_string firewallId)
         @ '' matches the configured selector (direction/protocol/port/description)'')"

text \<open>The rules to write back, or the error thrown before anything is written.\<close>

definition next_rules ::
  "HetznerFirewallResolvedConfig \<Rightarrow> (address_family \<times> string) list \<Rightarrow> (address_family \<times> string) list \<Rightarrow> json list \<Rightarrow>
   exn + json list" where
  "next_rules config remove add rules = (case matchFirewallRule rules (hf_selector config) of
       Matched i \<Rightarrow> (case current_list (rules ! i) of
           Inl err \<Rightarrow> Inl err
         | Inr currentList \<Rightarrow>
             Inr (rules[i := spread_with (rules ! i) (list_key (rules ! i)) (JArr (next_list currentList remove add))]))
     | m \<Rightarrow> Inl (selector_error (hf_firewallId config) m))"

definition locked_update ::
  "(string \<Rightarrow> exn + json) \<Rightarrow> server \<Rightarrow> HetznerFirewallResolvedConfig \<Rightarrow> (address_family \<times> string) list \<Rightarrow>
   (address_family \<times> string) list \<Rightarrow> http_request list \<Rightarrow> (exn + unit) \<times> http_request list" where
  "locked_update parse server config remove add log =
     (case getFirewall parse server log (hf_apiToken config) (hf_firewallId config) of
        (Inl err, log1) \<Rightarrow> (Inl err, log1)
      | (Inr rules, log1) \<Rightarrow> (case next_rules config remove add rules of
            Inl err \<Rightarrow> (Inl err, log1)
          | Inr nextRules \<Rightarrow>
              (case setFirewallRules parse server log1 (hf_apiToken config) (hf_firewallId config) nextRules of
                 (Inl err, log2) \<Rightarrow> (Inl err, log2)
               | (Inr j, log2) \<Rightarrow> (Inr (), log2))))"

text \<open>
  \<open>acquired\<close> is the outcome of \<open>acquireFirewallLock\<close> (theory Locks), \<open>released\<close> the error the
  release in the \<open>finally\<close> block throws, if it does.
\<close>

definition applyFirewallRuleUpdate ::
  "(string \<Rightarrow> exn + json) \<Rightarrow> server \<Rightarrow> (exn + unit) \<Rightarrow> exn option \<Rightarrow> HetznerFirewallResolvedConfig \<Rightarrow>
   (address_family \<times> string) list \<Rightarrow> (address_family \<times> string) list \<Rightarrow> http_request list \<Rightarrow> (exn + unit) \<times> http_request list" where
  "applyFirewallRuleUpdate parse server acquired released config remove add log = (case acquired of
       Inl err \<Rightarrow> (Inl err, log)
     | Inr u \<Rightarrow> (case locked_update parse server config remove add log of
           (res, log') \<Rightarrow> (case released of Some err \<Rightarrow> (Inl err, log') | None \<Rightarrow> (res, log'))))"

fun ip_of_family :: "IpValuesUsed \<Rightarrow> address_family \<Rightarrow> string option" where
  "ip_of_family v IPv4 = ipv_ipv4 v"
| "ip_of_family v IPv6 = ipv_ipv6 v"

fun owned_of_family :: "OwnedEntries \<Rightarrow> address_family \<Rightarrow> string option" where
  "owned_of_family v IPv4 = own_ipv4 v"
| "owned_of_family v IPv6 = own_ipv6 v"

fun family_text :: "address_family \<Rightarrow> string" where
  "family_text IPv4 = ''ipv4''"
| "family_text IPv6 = ''ipv6''"

definition given_families :: "IpValuesUsed \<Rightarrow> address_family list" where
  "given_families ipValues = filter (\<lambda>family. truthy (ip_of_family ipValues family)) [IPv4, IPv6]"

definition firewall_add :: "IpValuesUsed \<Rightarrow> (address_family \<times> string) list" where
  "firewall_add ipValues = map (\<lambda>family. (family, toCidr (the (ip_of_family ipValues family)) family)) (given_families ipValues)"

definition firewall_remove :: "OwnedEntries \<Rightarrow> IpValuesUsed \<Rightarrow> (address_family \<times> string) list" where
  "firewall_remove previousEntries ipValues =
     map (\<lambda>family. (family, the (owned_of_family previousEntries family)))
       (filter (\<lambda>family. truthy (owned_of_family previousEntries family)) (given_families ipValues))"

definition firewall_execute ::
  "(string \<Rightarrow> exn + json) \<Rightarrow> server \<Rightarrow> (exn + unit) \<Rightarrow> exn option \<Rightarrow> HetznerFirewallResolvedConfig \<Rightarrow> IpValuesUsed \<Rightarrow>
   http_request list \<Rightarrow> (exn + string) \<times> http_request list" where
  "firewall_execute parse server acquired released config ipValues log =
     (let add = firewall_add ipValues;
          remove = firewall_remove (hf_previousEntries config) ipValues;
          updates = map (\<lambda>(family, cidr). family_text family @ ''='' @ cidr) add
      in if updates = [] then (Inl (JsError ''No IP values supplied to update''), log)
         else (case applyFirewallRuleUpdate parse server acquired released config remove add log of
             (Inl err, log') \<Rightarrow> (Inl err, log')
           | (Inr u, log') \<Rightarrow> (Inr (''Updated Hetzner firewall '' @ text_of (map_option int_to_string (hf_firewallId config))
               @ '' rule: '' @ join_with '', '' updates), log')))"

section \<open>Lemmas\<close>

lemma requestJson_log: "snd (requestJson parse server log rq context) = log @ [rq]"
  by (simp add: requestJson_def Let_def)

lemma matchFirewallRule_Matched: "matchFirewallRule rules selector = Matched i \<longleftrightarrow> matches_of rules selector = [i]"
  by (auto simp: matchFirewallRule_def split: list.split)

lemma foldl_push_missing:
  "set (foldl push_missing l cs) = set l \<union> JStr ` set cs"
  "\<forall>e. P e \<longrightarrow> e \<notin> JStr ` set cs \<Longrightarrow> filter P (foldl push_missing l cs) = filter P l"
proof -
  show "set (foldl push_missing l cs) = set l \<union> JStr ` set cs"
    by (induction cs arbitrary: l) (auto simp: push_missing_def)
  show "filter P (foldl push_missing l cs) = filter P l" if "\<forall>e. P e \<longrightarrow> e \<notin> JStr ` set cs"
    using that by (induction cs arbitrary: l) (auto simp: push_missing_def)
qed

text \<open>What an update does to the list of the selected rule: nothing beyond the named entries.\<close>

lemma next_list_set:
  "set (next_list cur remove add) = {e \<in> set cur. e \<notin> JStr ` set (given_entries remove)} \<union> JStr ` set (given_entries add)"
  by (auto simp: next_list_def foldl_push_missing(1))

lemma next_list_untouched:
  "filter (\<lambda>e. e \<notin> JStr ` set (given_entries remove) \<union> JStr ` set (given_entries add)) (next_list cur remove add) =
   filter (\<lambda>e. e \<notin> JStr ` set (given_entries remove) \<union> JStr ` set (given_entries add)) cur"
  unfolding next_list_def
  by (subst foldl_push_missing(2)) (auto simp: intro!: filter_cong)

definition added_entries :: "IpValuesUsed \<Rightarrow> json set" where
  "added_entries ips = {JStr (toCidr v f) | f v. ip_of_family ips f = Some v \<and> v \<noteq> []}"

definition removed_entries :: "OwnedEntries \<Rightarrow> IpValuesUsed \<Rightarrow> json set" where
  "removed_entries prev ips = {JStr v | f v. truthy (ip_of_family ips f) \<and> owned_of_family prev f = Some v \<and> v \<noteq> []}"

lemma set_given_families: "set (given_families ips) = {f. truthy (ip_of_family ips f)}"
proof -
  have "f \<in> set [IPv4, IPv6]" for f by (cases f) simp_all
  then show ?thesis unfolding given_families_def set_filter by blast
qed

lemma toCidr_nonempty: "toCidr v f \<noteq> []"
  by (cases f) simp_all

lemma truthy_Some: "truthy v \<longleftrightarrow> (\<exists>s. v = Some s \<and> s \<noteq> [])"
  by (cases v) simp_all

lemma given_entries_map: "set (given_entries (map (\<lambda>f. (f, g f)) fs)) = {v. v \<noteq> [] \<and> (\<exists>f \<in> set fs. v = g f)}"
  unfolding given_entries_def set_filter list.set_map image_image snd_conv by blast

lemma given_firewall_add: "JStr ` set (given_entries (firewall_add ips)) = added_entries ips"
proof -
  have "(v \<noteq> [] \<and> (\<exists>f \<in> set (given_families ips). v = toCidr (the (ip_of_family ips f)) f)) \<longleftrightarrow>
      (\<exists>f u. v = toCidr u f \<and> ip_of_family ips f = Some u \<and> u \<noteq> [])" for v
    unfolding set_given_families mem_Collect_eq truthy_Some Bex_def using toCidr_nonempty by (metis option.sel)
  then show ?thesis
    unfolding firewall_add_def given_entries_map added_entries_def by blast
qed

lemma given_firewall_remove: "JStr ` set (given_entries (firewall_remove prev ips)) = removed_entries prev ips"
proof -
  have "(v \<noteq> [] \<and> (\<exists>f \<in> set (filter (\<lambda>f. truthy (owned_of_family prev f)) (given_families ips)). v = the (owned_of_family prev f))) \<longleftrightarrow>
      (\<exists>f. truthy (ip_of_family ips f) \<and> owned_of_family prev f = Some v \<and> v \<noteq> [])" for v
    unfolding set_filter set_given_families mem_Collect_eq Bex_def truthy_Some [of "owned_of_family prev f" for f]
    by (metis option.sel)
  then show ?thesis
    unfolding firewall_remove_def given_entries_map removed_entries_def by blast
qed

text \<open>The three ways an update ends, by the requests it made.\<close>

lemma getFirewall_log: "snd (getFirewall parse server log tok fw) = log @ [get_request tok fw]"
  using requestJson_log [of parse server log "get_request tok fw"]
  by (auto simp: getFirewall_def split: prod.splits sum.splits) (metis snd_conv)+

lemma setFirewallRules_log: "snd (setFirewallRules parse server log tok fw rules) = log @ [set_rules_request tok fw rules]"
  by (simp add: setFirewallRules_def requestJson_log)

lemma locked_update_cases:
  assumes "locked_update parse server config remove add log = (res, log')"
  defines "get \<equiv> get_request (hf_apiToken config) (hf_firewallId config)"
  obtains (refused) err where "res = Inl err" "log' = log @ [get]"
  | (written) rules rules' where "getFirewall parse server log (hf_apiToken config) (hf_firewallId config) = (Inr rules, log @ [get])"
      "next_rules config remove add rules = Inr rules'"
      "log' = log @ [get, set_rules_request (hf_apiToken config) (hf_firewallId config) rules']"
proof -
  obtain r log1 where g: "getFirewall parse server log (hf_apiToken config) (hf_firewallId config) = (r, log1)" by fastforce
  then have log1: "log1 = log @ [get]" using getFirewall_log [of parse server log] unfolding get_def by (metis snd_conv)
  show thesis
  proof (cases r)
    case (Inl err)
    with assms(1) g log1 show ?thesis by (intro refused) (auto simp: locked_update_def)
  next
    case (Inr rules)
    show ?thesis
    proof (cases "next_rules config remove add rules")
      case (Inl err)
      with assms(1) g log1 Inr show ?thesis by (intro refused) (auto simp: locked_update_def)
    next
      case (Inr rules')
      obtain r2 log2 where s: "setFirewallRules parse server log1 (hf_apiToken config) (hf_firewallId config) rules' = (r2, log2)" by fastforce
      then have "log2 = log1 @ [set_rules_request (hf_apiToken config) (hf_firewallId config) rules']"
        using setFirewallRules_log [of parse server log1] by (metis snd_conv)
      moreover have "log' = log2" using assms(1) g s \<open>r = Inr rules\<close> Inr
        by (cases r2) (auto simp: locked_update_def)
      ultimately show ?thesis using g log1 \<open>r = Inr rules\<close> Inr by (intro written) auto
    qed
  qed
qed

lemma next_rules_Inr:
  assumes "next_rules config remove add rules = Inr rules'"
  obtains i cur where "matches_of rules (hf_selector config) = [i]" "current_list (rules ! i) = Inr cur"
    "rules' = rules[i := spread_with (rules ! i) (list_key (rules ! i)) (JArr (next_list cur remove add))]"
  using assms
  by (auto simp: next_rules_def matchFirewallRule_Matched split: match_result.splits sum.splits)

section \<open>Properties\<close>

text \<open>C28. A firewall action changes only what it owns: it sends nothing, or one read, or one read and one write of
  the rules just read in which exactly the one selected rule differs, and there only in its address list: the
  list loses this action's previous entries of the reported families, gains the new ones, and keeps every
  other entry in its order. It reports success only in the last case.\<close>
theorem firewall_write_confined:
  assumes "firewall_execute parse server acquired released config ips log = (res, log')"
  shows "(log' = log \<and> (\<exists>err. res = Inl err))
    \<or> (log' = log @ [get_request (hf_apiToken config) (hf_firewallId config)] \<and> (\<exists>err. res = Inl err))
    \<or> (\<exists>rules i cur new.
        fst (getFirewall parse server log (hf_apiToken config) (hf_firewallId config)) = Inr rules
        \<and> matches_of rules (hf_selector config) = [i] \<and> current_list (rules ! i) = Inr cur
        \<and> log' = log @ [get_request (hf_apiToken config) (hf_firewallId config),
             set_rules_request (hf_apiToken config) (hf_firewallId config)
               (rules[i := spread_with (rules ! i) (list_key (rules ! i)) (JArr new)])]
        \<and> set new = (set cur - removed_entries (hf_previousEntries config) ips) \<union> added_entries ips
        \<and> filter (\<lambda>e. e \<notin> removed_entries (hf_previousEntries config) ips \<union> added_entries ips) new =
          filter (\<lambda>e. e \<notin> removed_entries (hf_previousEntries config) ips \<union> added_entries ips) cur)"
proof (cases "firewall_add ips = [] \<or> (\<exists>err. acquired = Inl err)")
  case True
  with assms have "log' = log \<and> (\<exists>err. res = Inl err)"
    by (auto simp: firewall_execute_def Let_def applyFirewallRuleUpdate_def split: if_splits)
  then show ?thesis by blast
next
  case False
  let ?rem = "firewall_remove (hf_previousEntries config) ips" and ?add = "firewall_add ips"
  from False obtain u where acq: "acquired = Inr u" by (cases acquired) auto
  obtain r log2 where lu: "locked_update parse server config ?rem ?add log = (r, log2)" by fastforce
  have out: "log' = log2" "\<And>err. r = Inl err \<Longrightarrow> \<exists>err'. res = Inl err'"
    using assms False lu acq
    by (auto simp: firewall_execute_def Let_def applyFirewallRuleUpdate_def split: option.splits sum.splits)
  from lu show ?thesis
  proof (cases rule: locked_update_cases)
    case (refused err)
    with out show ?thesis by blast
  next
    case (written rules rules')
    from written(2) obtain i cur where m: "matches_of rules (hf_selector config) = [i]" "current_list (rules ! i) = Inr cur"
      "rules' = rules[i := spread_with (rules ! i) (list_key (rules ! i)) (JArr (next_list cur ?rem ?add))]"
      by (rule next_rules_Inr)
    show ?thesis
      by (intro disjI2 exI [of _ rules] exI [of _ i] exI [of _ cur] exI [of _ "next_list cur ?rem ?add"])
        (use written m out next_list_untouched [of ?rem ?add cur] in
          \<open>auto simp: next_list_set given_firewall_add given_firewall_remove\<close>)
  qed
qed

text \<open>A firewall with one rule, read and written without an error.\<close>

definition sample_rule :: json where
  "sample_rule = JObj [(''direction'', JStr ''in''), (''protocol'', JStr ''icmp''), (''description'', JStr ''home''),
     (''source_ips'', JArr [JStr ''9.9.9.9/32'', JStr ''8.8.8.8/32''])]"

definition sample_parse :: "string \<Rightarrow> exn + json" where
  "sample_parse s = Inr (JObj [(''firewall'', JObj [(''rules'', JArr [sample_rule])])])"

definition sample_server :: server where
  "sample_server log = Inr \<lparr>rs_status = 200, rs_contentType = Some ''application/json'', rs_body = []\<rparr>"

definition sample_firewall :: HetznerFirewallResolvedConfig where
  "sample_firewall = \<lparr>hf_apiToken = ''t'', hf_accountId = ''acc'', hf_firewallId = Some 7,
     hf_selector = \<lparr>sel_direction = Some ''in'', sel_protocol = Some ''icmp'', sel_port = None, sel_description = Some ''home''\<rparr>,
     hf_previousEntries = \<lparr>own_ipv4 = Some ''9.9.9.9/32'', own_ipv6 = None\<rparr>\<rparr>"

definition sample_ips :: IpValuesUsed where
  "sample_ips = \<lparr>ipv_ipv4 = Some ''1.2.3.4'', ipv_ipv6 = None\<rparr>"

lemma sample_request [simp]: "requestJson sample_parse sample_server log rq ctx = (sample_parse [], log @ [rq])"
  by (simp add: requestJson_def Let_def sample_server_def check_response_def response_ok_def)

lemma sample_getFirewall [simp]: "getFirewall sample_parse sample_server log tok fw = (Inr [sample_rule], log @ [get_request tok fw])"
  by (simp add: getFirewall_def sample_parse_def rules_of_def sample_rule_def)

lemma sample_next_rules: "\<exists>rules'. next_rules sample_firewall remove add [sample_rule] = Inr rules'"
  by (simp add: next_rules_def matchFirewallRule_def matches_of_def selects_def sample_firewall_def sample_rule_def
      current_list_def list_key_def)

lemma firewall_write_confined_witness:
  "\<exists>res log'. firewall_execute sample_parse sample_server (Inr ()) None sample_firewall sample_ips [] = (res, log')
    \<and> (\<exists>new. rq_body (last log') = Some (json_stringify (JObj [(''rules'', JArr [spread_with sample_rule ''source_ips'' (JArr new)])]))
        \<and> set new = {JStr ''8.8.8.8/32'', JStr ''1.2.3.4/32''})"
proof -
  obtain rules' where next_rules: "next_rules sample_firewall (firewall_remove (hf_previousEntries sample_firewall) sample_ips)
      (firewall_add sample_ips) [sample_rule] = Inr rules'" using sample_next_rules by blast
  obtain res log' where run: "firewall_execute sample_parse sample_server (Inr ()) None sample_firewall sample_ips [] = (res, log')"
    by fastforce
  from run next_rules have "length log' = 2"
    by (auto simp: firewall_execute_def Let_def applyFirewallRuleUpdate_def locked_update_def setFirewallRules_def
        sample_parse_def firewall_add_def given_families_def sample_ips_def)
  with firewall_write_confined [OF run] obtain i cur new where
    "matches_of [sample_rule] (hf_selector sample_firewall) = [i]" and cur: "current_list ([sample_rule] ! i) = Inr cur"
    and log': "log' = [get_request (hf_apiToken sample_firewall) (hf_firewallId sample_firewall),
        set_rules_request (hf_apiToken sample_firewall) (hf_firewallId sample_firewall)
          ([sample_rule][i := spread_with ([sample_rule] ! i) (list_key ([sample_rule] ! i)) (JArr new)])]"
    and new: "set new = (set cur - removed_entries (hf_previousEntries sample_firewall) sample_ips) \<union> added_entries sample_ips"
    by auto
  then have i: "i = 0" by (auto simp: matches_of_def split: if_splits)
  have key: "list_key sample_rule = ''source_ips''" by (simp add: list_key_def sample_rule_def)
  from cur i have "cur = [JStr ''9.9.9.9/32'', JStr ''8.8.8.8/32'']"
    by (simp add: current_list_def key) (simp add: sample_rule_def)
  moreover have "removed_entries (hf_previousEntries sample_firewall) sample_ips = {JStr ''9.9.9.9/32''}"
    unfolding given_firewall_remove [symmetric]
    by (simp add: firewall_remove_def given_families_def given_entries_def sample_firewall_def sample_ips_def)
  moreover have "added_entries sample_ips = {JStr ''1.2.3.4/32''}"
    unfolding given_firewall_add [symmetric]
    by (simp add: firewall_add_def given_families_def given_entries_def sample_ips_def)
  ultimately have "set new = {JStr ''8.8.8.8/32'', JStr ''1.2.3.4/32''}" using new by auto
  with run log' i key show ?thesis by (simp add: set_rules_request_def) blast
qed

text \<open>A DNS action updates the families in order and stops at the first refusal: it sends one request per reported
  family, the IPv4 one first; a refusal of the first leaves the second unsent, and an error is reported
  exactly when a request was refused or no address was given.\<close>
theorem dns_updates_in_order:
  assumes "dns_execute parse server nowIso config ips log = (res, log')"
  defines "v4 \<equiv> ipv_ipv4 ips" and "v6 \<equiv> ipv_ipv6 ips"
  defines "rqA \<equiv> dns_request config ''A'' (the v4) (nowIso 0)" and "rqAAAA \<equiv> dns_request config ''AAAA'' (the v6) (nowIso 1)"
  defines "refused \<equiv> \<lambda>log rq. \<exists>err. fst (requestJson parse server log rq ''the rrset update'') = Inl err"
  shows "log' = (if truthy v4 \<and> refused log rqA then log @ [rqA]
      else log @ (if truthy v4 then [rqA] else []) @ (if truthy v6 then [rqAAAA] else []))
    \<and> ((\<exists>s. res = Inr s) \<longleftrightarrow> (truthy v4 \<or> truthy v6) \<and> (truthy v4 \<longrightarrow> \<not> refused log rqA)
         \<and> (truthy v6 \<longrightarrow> \<not> refused (log @ (if truthy v4 then [rqA] else [])) rqAAAA))"
proof -
  have family: "dns_family parse server config rrtype now v (u, l) =
      (if \<not> truthy v then (Inr u, l)
       else (case fst (requestJson parse server l (dns_request config rrtype (the v) now) ''the rrset update'') of
           Inl err \<Rightarrow> (Inl err, l @ [dns_request config rrtype (the v) now])
         | Inr j \<Rightarrow> (Inr (u @ [rrtype @ ''='' @ the v]), l @ [dns_request config rrtype (the v) now])))" for rrtype now v u l
    by (simp add: dns_family_def setRecords_def requestJson_def Let_def split: sum.split)
  show ?thesis
  proof (cases "truthy v4")
    case True
    show ?thesis
    proof (cases "fst (requestJson parse server log rqA ''the rrset update'')")
      case (Inl err)
      with True assms show ?thesis by (auto simp: dns_execute_def family)
    next
      case (Inr j)
      with True assms show ?thesis
        by (cases "truthy v6"; cases "fst (requestJson parse server (log @ [rqA]) rqAAAA ''the rrset update'')")
          (auto simp: dns_execute_def family)
    qed
  next
    case False
    with assms show ?thesis
      by (cases "truthy v6"; cases "fst (requestJson parse server log rqAAAA ''the rrset update'')")
        (auto simp: dns_execute_def family)
  qed
qed

definition sample_dns :: HetznerDnsResolvedConfig where
  "sample_dns = \<lparr>dn_apiToken = ''t'', dn_zoneName = Some ''example.com'', dn_recordName = Some ''@'', dn_sourceLabel = ''s''\<rparr>"

lemma dns_updates_in_order_witness:
  "\<exists>res log'. dns_execute sample_parse sample_server (\<lambda>n. []) sample_dns sample_ips [] = (res, log')
    \<and> log' = [dns_request sample_dns ''A'' ''1.2.3.4'' []] \<and> (\<exists>s. res = Inr s)"
proof -
  obtain res log' where run: "dns_execute sample_parse sample_server (\<lambda>n. []) sample_dns sample_ips [] = (res, log')" by fastforce
  with dns_updates_in_order [OF run] show ?thesis
    by (auto simp: sample_ips_def sample_parse_def)
qed

end
