(* ===== verification/Locks.thy ===== *)
theory Locks
  imports Prelude
begin

text \<open>
  The two locks of the backend. The in-process \<open>KeyedMutex\<close>
  (\<open>domain/traefik-provider/keyed-mutex.ts\<close>), which serialises the appends to one provider stream:
  a task is a ticket, its promise settled or not, and the steps are a call of \<open>run\<close>, the start of
  the queued function once the previous tail has settled, its settling and the \<open>finally\<close> block. And
  the advisory lock around a firewall update
  (\<open>adapters/actions/hetzner-firewall/hetzner-firewall-lock.ts\<close>), a Redis key with a time to live;
  the clocks, the random token and what other processes do to Redis are arguments.
\<close>

section \<open>The keyed mutex\<close>

datatype phase = Queued | Running | Settled | Finished

record task =
  ta_key :: string
  ta_previous :: "nat option"
  ta_phase :: phase

record mutex =
  mx_tails :: "string \<Rightarrow> nat option"
  mx_count :: nat
  mx_tasks :: "nat \<Rightarrow> task option"

definition new_mutex :: mutex where
  "new_mutex = \<lparr>mx_tails = (\<lambda>k. None), mx_count = 0, mx_tasks = (\<lambda>t. None)\<rparr>"

definition mutex_run :: "mutex \<Rightarrow> string \<Rightarrow> mutex" where
  "mutex_run m key = m\<lparr>mx_tails := (mx_tails m)(key \<mapsto> mx_count m), mx_count := Suc (mx_count m),
     mx_tasks := (mx_tasks m)(mx_count m \<mapsto> \<lparr>ta_key = key, ta_previous = mx_tails m key, ta_phase = Queued\<rparr>)\<rparr>"

definition over :: "mutex \<Rightarrow> nat \<Rightarrow> bool" where
  "over m t = (case mx_tasks m t of None \<Rightarrow> False | Some x \<Rightarrow> ta_phase x = Settled \<or> ta_phase x = Finished)"

definition set_phase :: "mutex \<Rightarrow> nat \<Rightarrow> phase \<Rightarrow> mutex" where
  "set_phase m t p = m\<lparr>mx_tasks := (mx_tasks m)(t := map_option (\<lambda>x. x\<lparr>ta_phase := p\<rparr>) (mx_tasks m t))\<rparr>"

definition can_start :: "mutex \<Rightarrow> nat \<Rightarrow> bool" where
  "can_start m t = (case mx_tasks m t of
     None \<Rightarrow> False
   | Some x \<Rightarrow> ta_phase x = Queued \<and> (case ta_previous x of None \<Rightarrow> True | Some p \<Rightarrow> over m p))"

definition mutex_finally :: "mutex \<Rightarrow> nat \<Rightarrow> mutex" where
  "mutex_finally m t = (case mx_tasks m t of
     None \<Rightarrow> m
   | Some x \<Rightarrow> let m' = set_phase m t Finished in
       if mx_tails m (ta_key x) = Some t then m'\<lparr>mx_tails := (mx_tails m)(ta_key x := None)\<rparr> else m')"

inductive mutex_step :: "mutex \<Rightarrow> mutex \<Rightarrow> bool" where
  mstep_run: "mutex_step m (mutex_run m key)"
| mstep_start: "can_start m t \<Longrightarrow> mutex_step m (set_phase m t Running)"
| mstep_settle: "mx_tasks m t = Some x \<Longrightarrow> ta_phase x = Running \<Longrightarrow> mutex_step m (set_phase m t Settled)"
| mstep_finally: "mx_tasks m t = Some x \<Longrightarrow> ta_phase x = Settled \<Longrightarrow> mutex_step m (mutex_finally m t)"

inductive mutex_reachable :: "mutex \<Rightarrow> bool" where
  mreach_new: "mutex_reachable new_mutex"
| mreach_step: "mutex_reachable m \<Longrightarrow> mutex_step m m' \<Longrightarrow> mutex_reachable m'"

text \<open>The queue of a key: its tickets in order; the tail is the last of them, or all are over.\<close>

definition same_key :: "mutex \<Rightarrow> nat \<Rightarrow> string \<Rightarrow> bool" where
  "same_key m t k = (\<exists>x. mx_tasks m t = Some x \<and> ta_key x = k)"

definition mutex_ok :: "mutex \<Rightarrow> bool" where
  "mutex_ok m = (
     (\<forall>t. mx_tasks m t \<noteq> None \<longrightarrow> t < mx_count m)
     \<and> (\<forall>k. case mx_tails m k of
          None \<Rightarrow> (\<forall>t. same_key m t k \<longrightarrow> over m t)
        | Some p \<Rightarrow> (\<exists>x. mx_tasks m p = Some x \<and> ta_key x = k \<and> ta_phase x \<noteq> Finished) \<and> (\<forall>t. same_key m t k \<longrightarrow> t \<le> p))
     \<and> (\<forall>u x. mx_tasks m u = Some x \<longrightarrow>
          (case ta_previous x of
             None \<Rightarrow> (\<forall>t < u. same_key m t (ta_key x) \<longrightarrow> over m t)
           | Some p \<Rightarrow> p < u \<and> same_key m p (ta_key x) \<and> (\<forall>t < u. same_key m t (ta_key x) \<longrightarrow> t \<le> p)))
     \<and> (\<forall>u x t. mx_tasks m u = Some x \<longrightarrow> ta_phase x \<noteq> Queued \<longrightarrow> t < u \<longrightarrow> same_key m t (ta_key x) \<longrightarrow> over m t))"

lemma mutex_okD:
  assumes "mutex_ok m"
  shows "mx_tasks m t \<noteq> None \<Longrightarrow> t < mx_count m"
    and "mx_tails m k = None \<Longrightarrow> same_key m t k \<Longrightarrow> over m t"
    and "mx_tails m k = Some p \<Longrightarrow> \<exists>x. mx_tasks m p = Some x \<and> ta_key x = k \<and> ta_phase x \<noteq> Finished"
    and "mx_tails m k = Some p \<Longrightarrow> same_key m t k \<Longrightarrow> t \<le> p"
    and "mx_tasks m u = Some x \<Longrightarrow> ta_previous x = None \<Longrightarrow> t < u \<Longrightarrow> same_key m t (ta_key x) \<Longrightarrow> over m t"
    and "mx_tasks m u = Some x \<Longrightarrow> ta_previous x = Some p \<Longrightarrow> p < u \<and> same_key m p (ta_key x)"
    and "mx_tasks m u = Some x \<Longrightarrow> ta_previous x = Some p \<Longrightarrow> t < u \<Longrightarrow> same_key m t (ta_key x) \<Longrightarrow> t \<le> p"
    and "mx_tasks m u = Some x \<Longrightarrow> ta_phase x \<noteq> Queued \<Longrightarrow> t < u \<Longrightarrow> same_key m t (ta_key x) \<Longrightarrow> over m t"
  using assms unfolding mutex_ok_def by (fastforce split: option.splits)+

lemma mutex_okI:
  assumes "\<And>t. mx_tasks m t \<noteq> None \<Longrightarrow> t < mx_count m"
    and "\<And>k t. mx_tails m k = None \<Longrightarrow> same_key m t k \<Longrightarrow> over m t"
    and "\<And>k p. mx_tails m k = Some p \<Longrightarrow> \<exists>x. mx_tasks m p = Some x \<and> ta_key x = k \<and> ta_phase x \<noteq> Finished"
    and "\<And>k p t. mx_tails m k = Some p \<Longrightarrow> same_key m t k \<Longrightarrow> t \<le> p"
    and "\<And>u x t. mx_tasks m u = Some x \<Longrightarrow> ta_previous x = None \<Longrightarrow> t < u \<Longrightarrow> same_key m t (ta_key x) \<Longrightarrow> over m t"
    and "\<And>u x p. mx_tasks m u = Some x \<Longrightarrow> ta_previous x = Some p \<Longrightarrow> p < u \<and> same_key m p (ta_key x)"
    and "\<And>u x p t. mx_tasks m u = Some x \<Longrightarrow> ta_previous x = Some p \<Longrightarrow> t < u \<Longrightarrow> same_key m t (ta_key x) \<Longrightarrow> t \<le> p"
    and "\<And>u x t. mx_tasks m u = Some x \<Longrightarrow> ta_phase x \<noteq> Queued \<Longrightarrow> t < u \<Longrightarrow> same_key m t (ta_key x) \<Longrightarrow> over m t"
  shows "mutex_ok m"
  unfolding mutex_ok_def
proof (intro conjI allI impI)
  show "t < mx_count m" if "mx_tasks m t \<noteq> None" for t using that by (rule assms(1))
  show "case mx_tails m k of None \<Rightarrow> \<forall>t. same_key m t k \<longrightarrow> over m t
      | Some p \<Rightarrow> (\<exists>x. mx_tasks m p = Some x \<and> ta_key x = k \<and> ta_phase x \<noteq> Finished) \<and> (\<forall>t. same_key m t k \<longrightarrow> t \<le> p)" for k
    using assms(2-4) [of k] by (cases "mx_tails m k") simp_all
  show "case ta_previous x of None \<Rightarrow> \<forall>t < u. same_key m t (ta_key x) \<longrightarrow> over m t
      | Some p \<Rightarrow> p < u \<and> same_key m p (ta_key x) \<and> (\<forall>t < u. same_key m t (ta_key x) \<longrightarrow> t \<le> p)"
    if "mx_tasks m u = Some x" for u x
    using assms(5-7) [OF that] by (cases "ta_previous x") simp_all
  show "over m t" if "mx_tasks m u = Some x" "ta_phase x \<noteq> Queued" "t < u" "same_key m t (ta_key x)" for u x t
    using that by (rule assms(8))
qed

lemma set_phase_simps [simp]:
  "mx_tails (set_phase m t p) = mx_tails m" "mx_count (set_phase m t p) = mx_count m"
  "same_key (set_phase m t p) u k = same_key m u k"
  "mx_tasks (set_phase m t p) u = (if u = t then map_option (\<lambda>x. x\<lparr>ta_phase := p\<rparr>) (mx_tasks m u) else mx_tasks m u)"
  by (auto simp: set_phase_def same_key_def)

lemma over_set_phase:
  "mx_tasks m t = Some x \<Longrightarrow> over (set_phase m t p) u = (if u = t then p = Settled \<or> p = Finished else over m u)"
  by (simp add: over_def)

lemma set_phase_ok:
  assumes ok: "mutex_ok m" and x: "mx_tasks m t = Some x" and keeps: "over m t \<longrightarrow> p = Settled \<or> p = Finished"
    and started: "\<And>u. u < t \<Longrightarrow> same_key m u (ta_key x) \<Longrightarrow> over m u"
    and tail: "p = Finished \<longrightarrow> mx_tails m (ta_key x) \<noteq> Some t"
  shows "mutex_ok (set_phase m t p)"
proof -
  note D = mutex_okD [OF ok]
  have over: "over m u \<Longrightarrow> over (set_phase m t p) u" for u using keeps by (cases "u = t") (simp_all add: over_set_phase [OF x])
  have task: "mx_tasks (set_phase m t p) u = Some y \<Longrightarrow>
      \<exists>y'. mx_tasks m u = Some y' \<and> ta_key y' = ta_key y \<and> ta_previous y' = ta_previous y \<and> (u \<noteq> t \<longrightarrow> y' = y)" for u y
    by (auto split: if_splits)
  show ?thesis
  proof (rule mutex_okI)
    show "u < mx_count (set_phase m t p)" if "mx_tasks (set_phase m t p) u \<noteq> None" for u
      using that D(1) [of u] by (auto split: if_splits)
    show "\<exists>y. mx_tasks (set_phase m t p) q = Some y \<and> ta_key y = k \<and> ta_phase y \<noteq> Finished"
      if "mx_tails (set_phase m t p) k = Some q" for k q
      using that D(3) [of k q] x tail by (cases "q = t") auto
    show "over (set_phase m t p) v" if "mx_tasks (set_phase m t p) u = Some y" "ta_phase y \<noteq> Queued" "v < u"
      "same_key (set_phase m t p) v (ta_key y)" for u y v
    proof (cases "u = t")
      case True
      with that x started [of v] show ?thesis by (intro over) auto
    next
      case False
      with that D(8) [of u y v] show ?thesis by (intro over) auto
    qed
    show "q < u \<and> same_key (set_phase m t p) q (ta_key y)"
      if "mx_tasks (set_phase m t p) u = Some y" "ta_previous y = Some q" for u y q
      using task [OF that(1)] that(2) D(6) [of u _ q] by auto
    show "v \<le> q" if "mx_tasks (set_phase m t p) u = Some y" "ta_previous y = Some q" "v < u"
      "same_key (set_phase m t p) v (ta_key y)" for u y q v
      using task [OF that(1)] that(2-) D(7) [of u _ q v] by auto
    show "over (set_phase m t p) v" if "mx_tasks (set_phase m t p) u = Some y" "ta_previous y = None" "v < u"
      "same_key (set_phase m t p) v (ta_key y)" for u y v
      using task [OF that(1)] that(2-) D(5) [of u _ v] by (intro over) auto
  qed (use D(2,4) over in auto)
qed

lemma mutex_run_ok:
  assumes ok: "mutex_ok m"
  shows "mutex_ok (mutex_run m key)"
proof -
  note D = mutex_okD [OF ok]
  let ?m = "mutex_run m key" and ?n = "mx_count m"
  have fresh: "mx_tasks m ?n = None" using D(1) [of ?n] by blast
  have tasks: "mx_tasks ?m u = (if u = ?n then Some \<lparr>ta_key = key, ta_previous = mx_tails m key, ta_phase = Queued\<rparr> else mx_tasks m u)"
    and tails: "mx_tails ?m k = (if k = key then Some ?n else mx_tails m k)" for u k
    by (simp_all add: mutex_run_def)
  have same: "same_key ?m u k \<longleftrightarrow> (if u = ?n then k = key else same_key m u k)" for u k
    by (auto simp: same_key_def tasks)
  have over: "over ?m u = over m u" for u by (simp add: over_def tasks fresh)
  have bound: "same_key m u k \<Longrightarrow> u < ?n" for u k using D(1) [of u] by (auto simp: same_key_def)
  show ?thesis
  proof (rule mutex_okI)
    show "u < mx_count ?m" if "mx_tasks ?m u \<noteq> None" for u
      using that D(1) [of u] by (auto simp: tasks mutex_run_def split: if_splits)
    show "over ?m u" if "mx_tails ?m k = None" "same_key ?m u k" for u k
      using that D(2) [of k u] by (auto simp: tails same over split: if_splits)
    show "\<exists>x. mx_tasks ?m p = Some x \<and> ta_key x = k \<and> ta_phase x \<noteq> Finished" if "mx_tails ?m k = Some p" for k p
    proof (cases "k = key")
      case True
      with that show ?thesis by (auto simp: tails tasks)
    next
      case False
      with that D(3) [of k p] fresh show ?thesis by (auto simp: tails tasks)
    qed
    show "u \<le> p" if "mx_tails ?m k = Some p" "same_key ?m u k" for k p u
      using that D(4) [of k p u] bound [of u k] by (auto simp: tails same split: if_splits)
    show "over ?m v" if "mx_tasks ?m u = Some y" "ta_previous y = None" "v < u" "same_key ?m v (ta_key y)" for u y v
    proof (cases "u = ?n")
      case True
      with that D(2) [of key v] show ?thesis by (auto simp: tasks same over)
    next
      case False
      with that D(5) [of u y v] D(1) [of u] show ?thesis by (auto simp: tasks same over split: if_splits)
    qed
    show "p < u \<and> same_key ?m p (ta_key y)" if "mx_tasks ?m u = Some y" "ta_previous y = Some p" for u y p
    proof (cases "u = ?n")
      case True
      with that have y: "ta_key y = key" "mx_tails m key = Some p" by (auto simp: tasks)
      with D(3) have "same_key m p key" by (auto simp: same_key_def)
      with bound [OF this] True y show ?thesis by (simp add: same)
    next
      case False
      with that D(6) [of u y p] bound [of p "ta_key y"] show ?thesis by (auto simp: tasks same)
    qed
    show "v \<le> p" if "mx_tasks ?m u = Some y" "ta_previous y = Some p" "v < u" "same_key ?m v (ta_key y)" for u y p v
    proof (cases "u = ?n")
      case True
      with that D(4) [of key p v] show ?thesis by (auto simp: tasks same)
    next
      case False
      with that D(7) [of u y p v] D(1) [of u] show ?thesis by (auto simp: tasks same split: if_splits)
    qed
    show "over ?m v" if "mx_tasks ?m u = Some y" "ta_phase y \<noteq> Queued" "v < u" "same_key ?m v (ta_key y)" for u y v
    proof (cases "u = ?n")
      case True
      with that show ?thesis by (auto simp: tasks)
    next
      case False
      with that D(8) [of u y v] D(1) [of u] show ?thesis by (auto simp: tasks same over split: if_splits)
    qed
  qed
qed

lemma can_start_earlier:
  assumes ok: "mutex_ok m" and can: "can_start m t" and x: "mx_tasks m t = Some x" and u: "u < t" "same_key m u (ta_key x)"
  shows "over m u"
proof (cases "ta_previous x")
  case None
  with mutex_okD(5) [OF ok x] u show ?thesis by blast
next
  case (Some p)
  with can x have p: "over m p" by (simp add: can_start_def)
  then obtain y where y: "mx_tasks m p = Some y" "ta_phase y \<noteq> Queued" by (auto simp: over_def split: option.splits)
  from mutex_okD(6) [OF ok x Some] y(1) have key: "ta_key y = ta_key x" by (auto simp: same_key_def)
  from mutex_okD(7) [OF ok x Some u] consider "u = p" | "u < p" by linarith
  then show ?thesis using p mutex_okD(8) [OF ok y] u(2) key by cases auto
qed

lemma mutex_finally_ok:
  assumes ok: "mutex_ok m" and x: "mx_tasks m t = Some x" "ta_phase x = Settled"
  shows "mutex_ok (mutex_finally m t)"
proof -
  have t: "over m t" by (simp add: over_def x)
  have earlier: "u < t \<Longrightarrow> same_key m u (ta_key x) \<Longrightarrow> over m u" for u
    using mutex_okD(8) [OF ok x(1)] x(2) by simp
  show ?thesis
  proof (cases "mx_tails m (ta_key x) = Some t")
    case False
    with set_phase_ok [OF ok x(1), of Finished] earlier show ?thesis by (simp add: mutex_finally_def x)
  next
    case True
    let ?m0 = "m\<lparr>mx_tails := (mx_tails m)(ta_key x := None)\<rparr>"
    have all: "over m u" if "same_key m u (ta_key x)" for u
      using mutex_okD(4) [OF ok True that] earlier [OF _ that] t by (cases "u = t") auto
    have simps: "same_key ?m0 = same_key m" "over ?m0 = over m" by (auto simp: fun_eq_iff same_key_def over_def)
    have "mutex_ok ?m0"
      by (rule mutex_okI) (use mutex_okD [OF ok] all in \<open>auto simp: simps split: if_splits\<close>)
    then have "mutex_ok (set_phase ?m0 t Finished)"
      by (rule set_phase_ok [where x = x]) (use x earlier in \<open>simp_all add: simps\<close>)
    moreover have "mutex_finally m t = set_phase ?m0 t Finished"
      by (simp add: mutex_finally_def x True set_phase_def)
    ultimately show ?thesis by simp
  qed
qed

lemma mutex_step_ok: "mutex_step m m' \<Longrightarrow> mutex_ok m \<Longrightarrow> mutex_ok m'"
proof (induction rule: mutex_step.induct)
  case (mstep_start m t)
  then obtain x where x: "mx_tasks m t = Some x" "ta_phase x = Queued" by (auto simp: can_start_def split: option.splits)
  with mstep_start show ?case
    by (intro set_phase_ok) (auto simp: over_def dest: can_start_earlier)
next
  case (mstep_settle m t x)
  then show ?case using mutex_okD(8) [OF mstep_settle.prems mstep_settle.hyps(1)] by (intro set_phase_ok) (auto simp: over_def)
qed (simp_all add: mutex_run_ok mutex_finally_ok)

lemma mutex_reachable_ok: "mutex_reachable m \<Longrightarrow> mutex_ok m"
proof (induction rule: mutex_reachable.induct)
  case mreach_new
  show ?case by (rule mutex_okI) (simp_all add: new_mutex_def same_key_def)
qed (rule mutex_step_ok)

text \<open>C34. Appends to one provider stream never interleave: the functions queued under one key run one at a time and in
  the order of the calls, none starts before every earlier one of its key has settled; some task of a key
  with open work is always running or able to start; and a key whose work is done leaves no entry behind.\<close>
theorem mutex_serialises:
  assumes "mutex_reachable m"
  shows "(\<forall>t u x y. mx_tasks m t = Some x \<longrightarrow> mx_tasks m u = Some y \<longrightarrow> ta_key x = ta_key y \<longrightarrow> t < u \<longrightarrow>
        ta_phase y \<noteq> Queued \<longrightarrow> ta_phase x = Settled \<or> ta_phase x = Finished)
    \<and> (\<forall>t x. mx_tasks m t = Some x \<longrightarrow> ta_phase x = Queued \<or> ta_phase x = Running \<longrightarrow>
        (\<exists>u y. mx_tasks m u = Some y \<and> ta_key y = ta_key x \<and> u \<le> t \<and> (ta_phase y = Running \<or> can_start m u)))
    \<and> (\<forall>k. (\<forall>t x. mx_tasks m t = Some x \<longrightarrow> ta_key x = k \<longrightarrow> ta_phase x = Finished) \<longrightarrow> mx_tails m k = None)"
proof (intro conjI allI impI)
  note ok = mutex_reachable_ok [OF assms]
  note D = mutex_okD [OF ok]
  show "ta_phase x = Settled \<or> ta_phase x = Finished"
    if "mx_tasks m t = Some x" "mx_tasks m u = Some y" "ta_key x = ta_key y" "t < u" "ta_phase y \<noteq> Queued" for t u x y
    using D(8) [OF that(2,5,4)] that(1,3) by (simp add: same_key_def over_def)
  show "\<exists>u y. mx_tasks m u = Some y \<and> ta_key y = ta_key x \<and> u \<le> t \<and> (ta_phase y = Running \<or> can_start m u)"
    if "mx_tasks m t = Some x" "ta_phase x = Queued \<or> ta_phase x = Running" for t x
    using that
  proof (induction t arbitrary: x rule: less_induct)
    case (less t)
    show ?case
    proof (cases "ta_phase x = Running \<or> can_start m t")
      case True
      with less.prems show ?thesis by blast
    next
      case False
      with less.prems obtain p where p: "ta_previous x = Some p" "\<not> over m p"
        by (auto simp: can_start_def split: option.splits)
      from D(6) [OF less.prems(1) p(1)] obtain y where y: "p < t" "mx_tasks m p = Some y" "ta_key y = ta_key x"
        by (auto simp: same_key_def)
      with p have "ta_phase y = Queued \<or> ta_phase y = Running" by (cases "ta_phase y") (simp_all add: over_def)
      from less.IH [OF y(1,2) this] y show ?thesis by (metis le_trans less_imp_le)
    qed
  qed
  show "mx_tails m k = None" if "\<forall>t x. mx_tasks m t = Some x \<longrightarrow> ta_key x = k \<longrightarrow> ta_phase x = Finished" for k
    using that D(3) [of k] by (cases "mx_tails m k") auto
qed

lemma mutex_serialises_witness:
  "\<exists>m. mutex_reachable m \<and> can_start m 1
    \<and> map_option ta_phase (mx_tasks m 0) = Some Settled \<and> map_option ta_phase (mx_tasks m 1) = Some Queued
    \<and> (\<exists>u y. mx_tasks m u = Some y \<and> ta_key y = ''p'' \<and> u \<le> 1 \<and> (ta_phase y = Running \<or> can_start m u))"
proof -
  let ?m2 = "mutex_run (mutex_run new_mutex ''p'') ''p''"
  let ?m3 = "set_phase ?m2 0 Running"
  let ?m4 = "set_phase ?m3 0 Settled"
  have "mutex_reachable ?m2" by (intro mreach_step [OF _ mstep_run] mreach_new)
  moreover have "can_start ?m2 0" by (simp add: can_start_def mutex_run_def new_mutex_def)
  ultimately have "mutex_reachable ?m3" by (blast intro: mreach_step mstep_start)
  moreover have "mutex_step ?m3 ?m4"
    by (rule mstep_settle [where x = "\<lparr>ta_key = ''p'', ta_previous = None, ta_phase = Running\<rparr>"]) (simp_all add: mutex_run_def new_mutex_def)
  ultimately have reach: "mutex_reachable ?m4" by (rule mreach_step)
  have one: "mx_tasks ?m4 1 = Some \<lparr>ta_key = ''p'', ta_previous = Some 0, ta_phase = Queued\<rparr>"
    by (simp add: mutex_run_def new_mutex_def)
  have "\<exists>u y. mx_tasks ?m4 u = Some y \<and> ta_key y = ''p'' \<and> u \<le> 1 \<and> (ta_phase y = Running \<or> can_start ?m4 u)"
    using mutex_serialises [OF reach, THEN conjunct2, THEN conjunct1, rule_format, OF one] by simp
  moreover have "can_start ?m4 1" by (simp add: can_start_def over_def mutex_run_def new_mutex_def)
  moreover have "map_option ta_phase (mx_tasks ?m4 0) = Some Settled" by (simp add: mutex_run_def new_mutex_def)
  ultimately show ?thesis using reach one by (intro exI [of _ ?m4]) simp
qed

section \<open>The firewall lock\<close>

text \<open>Redis keys with an expiry: \<open>GET\<close>, \<open>SET key token PX ttl NX\<close> and the release script.\<close>

type_synonym lock_store = "string \<Rightarrow> (string \<times> timestamp) option"

definition lock_get :: "lock_store \<Rightarrow> timestamp \<Rightarrow> string \<Rightarrow> string option" where
  "lock_get locks now key = (case locks key of
     None \<Rightarrow> None | Some (token, expires) \<Rightarrow> if now < expires then Some token else None)"

definition lock_set_nx :: "lock_store \<Rightarrow> timestamp \<Rightarrow> string \<Rightarrow> string \<Rightarrow> nat \<Rightarrow> bool \<times> lock_store" where
  "lock_set_nx locks now key token ttl =
     (if lock_get locks now key = None then (True, locks(key \<mapsto> (token, now + ttl))) else (False, locks))"

definition lock_release :: "lock_store \<Rightarrow> timestamp \<Rightarrow> string \<Rightarrow> string \<Rightarrow> lock_store" where
  "lock_release locks now key token =
     (if lock_get locks now key = Some token then locks(key := None) else locks)"

definition DEFAULT_TTL_MS :: nat where "DEFAULT_TTL_MS = 10000"
definition DEFAULT_MAX_WAIT_MS :: nat where "DEFAULT_MAX_WAIT_MS = 5000"
definition RETRY_DELAY_MS :: nat where "RETRY_DELAY_MS = 100"

definition firewall_lock_key :: "id \<Rightarrow> int \<Rightarrow> string" where
  "firewall_lock_key accountId firewallId = ''firewall-lock:'' @ accountId @ '':'' @ int_to_string firewallId"

text \<open>
  The retry loop, from attempt \<open>n\<close>: \<open>between n\<close> is what others did to Redis before it, \<open>redis_now n\<close>
  the server's clock and \<open>clock n\<close> the reading of \<open>Date.now()\<close> after it; \<open>fault n\<close> is a rejection of its
  \<open>redis.set\<close>, which ends the loop whether or not the command reached Redis before.
\<close>

partial_function (option) acquire_loop ::
  "(nat \<Rightarrow> lock_store \<Rightarrow> lock_store) \<Rightarrow> (nat \<Rightarrow> (exn \<times> bool) option) \<Rightarrow> (nat \<Rightarrow> timestamp) \<Rightarrow> (nat \<Rightarrow> timestamp) \<Rightarrow> id \<Rightarrow> int \<Rightarrow> string \<Rightarrow> timestamp \<Rightarrow>
   nat \<Rightarrow> lock_store \<Rightarrow> ((exn + unit) \<times> nat \<times> lock_store) option" where
  "acquire_loop between fault redis_now clock accountId firewallId token deadline n locks =
     (let acquired = lock_set_nx (between n locks) (redis_now n) (firewall_lock_key accountId firewallId) token DEFAULT_TTL_MS in
      case fault n of
        Some (err, arrived) \<Rightarrow> Some (Inl err, n, if arrived then snd acquired else between n locks)
      | None \<Rightarrow>
      if fst acquired then Some (Inr (), n, snd acquired)
      else if clock n \<ge> deadline
      then Some (Inl (JsError (''Could not acquire firewall lock for account '' @ accountId @ '', firewall ''
        @ int_to_string firewallId)), n, snd acquired)
      else acquire_loop between fault redis_now clock accountId firewallId token deadline (Suc n) (snd acquired))"

definition acquireFirewallLock ::
  "(nat \<Rightarrow> lock_store \<Rightarrow> lock_store) \<Rightarrow> (nat \<Rightarrow> (exn \<times> bool) option) \<Rightarrow> (nat \<Rightarrow> timestamp) \<Rightarrow> (nat \<Rightarrow> timestamp) \<Rightarrow> timestamp \<Rightarrow> id \<Rightarrow> int \<Rightarrow> string \<Rightarrow>
   lock_store \<Rightarrow> ((exn + unit) \<times> nat \<times> lock_store) option" where
  "acquireFirewallLock between fault redis_now clock now accountId firewallId token locks =
     acquire_loop between fault redis_now clock accountId firewallId token (now + DEFAULT_MAX_WAIT_MS) 0 locks"

lemma acquire_loop_returns:
  assumes clock: "\<And>i. clock (Suc i) \<ge> clock i + RETRY_DELAY_MS" and "deadline \<le> clock n + RETRY_DELAY_MS * left"
  shows "\<exists>res k locks'. acquire_loop between fault redis_now clock acc fw token deadline n locks = Some (res, k, locks') \<and> k \<le> n + left
    \<and> (res = Inr () \<longrightarrow> lock_get locks' (redis_now k) (firewall_lock_key acc fw) = Some token)"
  using assms(2)
proof (induction left arbitrary: n locks)
  case 0
  then show ?case
    by (subst acquire_loop.simps) (auto simp: Let_def lock_set_nx_def lock_get_def DEFAULT_TTL_MS_def split: if_splits option.splits prod.splits)
next
  case (Suc left)
  let ?key = "firewall_lock_key acc fw"
  from Suc.prems clock [of n] have "deadline \<le> clock (Suc n) + RETRY_DELAY_MS * left" by simp
  from Suc.IH [OF this, of "between n locks"] show ?case
    by (subst acquire_loop.simps) (auto simp: Let_def lock_set_nx_def lock_get_def DEFAULT_TTL_MS_def split: if_splits option.splits prod.splits)
qed

text \<open>C37. Waiting for the firewall lock always ends: if each wait lasts at least the retry delay, the loop returns after
  at most 51 attempts whatever other processes do to the key and whatever Redis rejects, with an error or holding the
  key under its own token.\<close>
theorem firewall_lock_returns:
  assumes "\<And>i. clock (Suc i) \<ge> clock i + RETRY_DELAY_MS" and "clock 0 \<ge> now"
  shows "\<exists>res k locks'. acquireFirewallLock between fault redis_now clock now acc fw token locks = Some (res, k, locks')
    \<and> k \<le> 50 \<and> (res = Inr () \<longrightarrow> lock_get locks' (redis_now k) (firewall_lock_key acc fw) = Some token)"
  using acquire_loop_returns [of clock "now + DEFAULT_MAX_WAIT_MS" 0 50] assms
  unfolding acquireFirewallLock_def by (simp add: DEFAULT_MAX_WAIT_MS_def RETRY_DELAY_MS_def)

lemma firewall_lock_returns_witness:
  "\<exists>k locks'. acquireFirewallLock (\<lambda>n l. l) (\<lambda>n. None) (\<lambda>n. 100 * n) (\<lambda>n. 100 * n) 0 ''acc'' 7 ''tok''
      (\<lambda>k. Some (''other'', 250)) = Some (Inr (), k, locks') \<and> k \<le> 50"
proof -
  have "acquireFirewallLock (\<lambda>n l. l) (\<lambda>n. None) (\<lambda>n. 100 * n) (\<lambda>n. 100 * n) 0 ''acc'' 7 ''tok'' (\<lambda>k. Some (''other'', 250)) =
      acquire_loop (\<lambda>n l. l) (\<lambda>n. None) (\<lambda>n. 100 * n) (\<lambda>n. 100 * n) ''acc'' 7 ''tok'' 5000 3 (\<lambda>k. Some (''other'', 250))"
    unfolding acquireFirewallLock_def DEFAULT_MAX_WAIT_MS_def
    by (simp add: acquire_loop.simps lock_set_nx_def lock_get_def Let_def numeral_3_eq_3)
  also have "\<exists>l. \<dots> = Some (Inr (), 3, l)"
    by (simp add: acquire_loop.simps lock_set_nx_def lock_get_def Let_def)
  finally obtain l where res: "acquireFirewallLock (\<lambda>n l. l) (\<lambda>n. None) (\<lambda>n. 100 * n) (\<lambda>n. 100 * n) 0 ''acc'' 7 ''tok'' (\<lambda>k. Some (''other'', 250)) =
      Some (Inr (), 3, l)" by blast
  have "\<exists>res k locks'. acquireFirewallLock (\<lambda>n l. l) (\<lambda>n. None) (\<lambda>n. 100 * n) (\<lambda>n. 100 * n) 0 ''acc'' 7 ''tok'' (\<lambda>k. Some (''other'', 250)) =
      Some (res, k, locks') \<and> k \<le> 50
      \<and> (res = Inr () \<longrightarrow> lock_get locks' (100 * k) (firewall_lock_key ''acc'' 7) = Some ''tok'')"
    by (rule firewall_lock_returns) (simp_all add: RETRY_DELAY_MS_def)
  with res show ?thesis by auto
qed

text \<open>
  Processes sharing one Redis: \<open>lw_held\<close> are the handles returned and not yet released, with the time of
  their acquisition, \<open>lw_used\<close> the tokens drawn so far (\<open>randomUUID\<close> never repeats one).
\<close>

record lock_world =
  lw_locks :: lock_store
  lw_now :: timestamp
  lw_held :: "(string \<times> string \<times> timestamp) set"
  lw_used :: "string set"

inductive lock_step :: "lock_world \<Rightarrow> lock_world \<Rightarrow> bool" where
  lstep_time: "lw_now w \<le> t \<Longrightarrow> lock_step w (w\<lparr>lw_now := t\<rparr>)"
| lstep_acquire: "token \<notin> lw_used w \<Longrightarrow> lock_set_nx (lw_locks w) (lw_now w) key token DEFAULT_TTL_MS = (True, locks') \<Longrightarrow>
    lock_step w (w\<lparr>lw_locks := locks', lw_held := insert (token, key, lw_now w) (lw_held w), lw_used := insert token (lw_used w)\<rparr>)"
| lstep_release: "(token, key, at) \<in> lw_held w \<Longrightarrow>
    lock_step w (w\<lparr>lw_locks := lock_release (lw_locks w) (lw_now w) key token, lw_held := lw_held w - {(token, key, at)}\<rparr>)"
| lstep_crash: "lock_step w (w\<lparr>lw_held := lw_held w - lost\<rparr>)"

inductive lock_reachable :: "lock_world \<Rightarrow> bool" where
  lreach_init: "lock_reachable \<lparr>lw_locks = (\<lambda>k. None), lw_now = 0, lw_held = {}, lw_used = {}\<rparr>"
| lreach_step: "lock_reachable w \<Longrightarrow> lock_step w w' \<Longrightarrow> lock_reachable w'"

text \<open>A handle younger than the time to live is the one Redis has.\<close>

definition lock_ok :: "lock_world \<Rightarrow> bool" where
  "lock_ok w = (
     (\<forall>(token, key, at) \<in> lw_held w. token \<in> lw_used w \<and> at \<le> lw_now w
        \<and> (lw_now w < at + DEFAULT_TTL_MS \<longrightarrow> lw_locks w key = Some (token, at + DEFAULT_TTL_MS)))
     \<and> (\<forall>h \<in> lw_held w. \<forall>h' \<in> lw_held w. fst h = fst h' \<longrightarrow> h = h'))"

lemma lock_step_ok:
  assumes "lock_step w w'" and ok: "lock_ok w"
  shows "lock_ok w'"
  using assms(1)
proof cases
  case (lstep_time t)
  with ok show ?thesis by (fastforce simp: lock_ok_def)
next
  case (lstep_acquire token key locks')
  then have free: "lock_get (lw_locks w) (lw_now w) key = None" and locks': "locks' = (lw_locks w)(key \<mapsto> (token, lw_now w + DEFAULT_TTL_MS))"
    by (auto simp: lock_set_nx_def split: if_splits)
  have other: "key' \<noteq> key" if "(tok, key', at) \<in> lw_held w" "lw_now w < at + DEFAULT_TTL_MS" for tok key' at
    using ok that free by (auto simp: lock_ok_def lock_get_def)
  have used: "(token, key', at) \<notin> lw_held w" for key' at
    using ok lstep_acquire(2) by (auto simp: lock_ok_def)
  show ?thesis
    using ok other used lstep_acquire(1) unfolding lock_ok_def locks' by (auto 0 3)
next
  case (lstep_release token key at)
  have keep: "lock_release (lw_locks w) (lw_now w) key token key' = lw_locks w key'"
    if "(tok, key', at') \<in> lw_held w" "tok \<noteq> token" "lw_locks w key' = Some (tok, e)" for tok key' at' e
    using that by (auto simp: lock_release_def lock_get_def split: option.splits if_splits)
  have held: "tok \<in> lw_used w \<and> at' \<le> lw_now w \<and> (lw_now w < at' + DEFAULT_TTL_MS \<longrightarrow>
      lock_release (lw_locks w) (lw_now w) key token key' = Some (tok, at' + DEFAULT_TTL_MS))"
    if h: "(tok, key', at') \<in> lw_held w - {(token, key, at)}" for tok key' at'
  proof -
    have ne: "tok \<noteq> token" using ok h lstep_release(2) unfolding lock_ok_def by fastforce
    from h have "(tok, key', at') \<in> lw_held w" by simp
    with ok keep [OF _ ne] show ?thesis unfolding lock_ok_def by fastforce
  qed
  have once: "\<forall>h \<in> lw_held w - {(token, key, at)}. \<forall>h' \<in> lw_held w - {(token, key, at)}. fst h = fst h' \<longrightarrow> h = h'"
    using ok unfolding lock_ok_def by blast
  show ?thesis
    unfolding lock_ok_def lstep_release(1) using held once by auto
next
  case (lstep_crash lost)
  with ok show ?thesis by (auto simp: lock_ok_def)
qed

lemma lock_reachable_ok: "lock_reachable w \<Longrightarrow> lock_ok w"
proof (induction rule: lock_reachable.induct)
  case lreach_init
  show ?case by (simp add: lock_ok_def)
qed (rule lock_step_ok)

text \<open>Within the time to live the firewall lock excludes: two handles of one firewall that are both younger than
  ten seconds are the same handle, whatever is acquired, released late or lost in a crash in between; a late
  release never deletes another holder's key.\<close>
theorem firewall_lock_excludes:
  assumes "lock_reachable w" and "(token, key, at) \<in> lw_held w" and "(token', key, at') \<in> lw_held w"
    and "lw_now w < at + DEFAULT_TTL_MS" and "lw_now w < at' + DEFAULT_TTL_MS"
  shows "token = token' \<and> at = at'
    \<and> (late \<noteq> token \<longrightarrow> lock_release (lw_locks w) (lw_now w) key late key = Some (token, at + DEFAULT_TTL_MS))"
proof -
  from lock_reachable_ok [OF assms(1)] assms(2-) have
    "lw_locks w key = Some (token, at + DEFAULT_TTL_MS)" "lw_locks w key = Some (token', at' + DEFAULT_TTL_MS)"
    unfolding lock_ok_def by fastforce+
  then show ?thesis by (auto simp: lock_release_def lock_get_def)
qed

definition sample_locked :: lock_world where
  "sample_locked = \<lparr>lw_locks = [''k'' \<mapsto> (''a'', 10000)], lw_now = 0, lw_held = {(''a'', ''k'', 0)}, lw_used = {''a''}\<rparr>"

lemma sample_locked_reachable: "lock_reachable sample_locked"
proof -
  let ?w = "\<lparr>lw_locks = (\<lambda>k. None), lw_now = 0, lw_held = {}, lw_used = {}\<rparr>"
  have "lock_step ?w (?w\<lparr>lw_locks := [''k'' \<mapsto> (''a'', 10000)], lw_held := insert (''a'', ''k'', lw_now ?w) (lw_held ?w),
      lw_used := insert ''a'' (lw_used ?w)\<rparr>)"
    by (rule lstep_acquire) (simp_all add: lock_set_nx_def lock_get_def DEFAULT_TTL_MS_def)
  with lreach_init show ?thesis unfolding sample_locked_def by (auto intro: lreach_step)
qed

lemma firewall_lock_excludes_witness:
  "(''a'', ''k'', 0) \<in> lw_held sample_locked \<and> lock_release (lw_locks sample_locked) (lw_now sample_locked) ''k'' ''b'' ''k'' = Some (''a'', 10000)"
  using firewall_lock_excludes [OF sample_locked_reachable, of "''a''" "''k''" 0 "''a''" 0 "''b''"]
  by (simp add: sample_locked_def DEFAULT_TTL_MS_def)

end
