(* ===== verification/Pipeline.thy ===== *)
theory Pipeline
  imports Snapshot Projections
begin

text \<open>
  From a report of a device to queued executions: the dyndns endpoint
  (\<open>adapters/http/routes/trigger.ts\<close>), the debounce job (\<open>debounce-scheduler.ts\<close>,
  \<open>debounce-worker.ts\<close>), the fan-out (\<open>execution-fanout-worker.ts\<close>) and the manual run
  (\<open>action-run.ts\<close>).

  BullMQ is not modelled: a queue is the list of the \<open>add\<close> calls the code makes, and where a property
  rests on the documented deduplication by job id, \<open>add\<close> is a parameter with that law. \<open>decode64\<close> is
  \<open>Buffer.from(s, "base64").toString("utf8")\<close>. The response header of a 401 and the logging are left out.

  A call of Redis or of a queue can fail after rows were stored. What each such call answers is an argument
  (\<open>answer\<close>, \<open>announce_answers\<close>), and a failed command may have taken effect all the same.
\<close>

section \<open>Answers\<close>

text \<open>What a command sent to Redis answers: done, or an error and whether the command arrived nevertheless.\<close>

datatype answer =
    Done
  | Errored exn bool

text \<open>What is left of a command's effect: all of it, or none.\<close>

fun effect :: "answer \<Rightarrow> 'a \<Rightarrow> 'a \<Rightarrow> 'a" where
  "effect Done new old = new"
| "effect (Errored err arrived) new old = (if arrived then new else old)"

section \<open>Jobs\<close>

record DebounceJob =
  dj_ipClientId :: id
  dj_accountId :: id
  dj_delay :: int
  dj_deduplication :: id

record ActionExecutionJobData =
  ej_accountId :: id
  ej_executionId :: id
  ej_actionId :: id
  ej_ipClientId :: id
  ej_causationEventId :: id
  ej_triggeredBy :: triggered_by
  ej_ipValues :: IpValuesUsed

record ExecutionJob =
  xj_jobId :: string
  xj_data :: ActionExecutionJobData

definition scheduleDebounce :: "Config \<Rightarrow> id \<Rightarrow> id \<Rightarrow> DebounceJob" where
  "scheduleDebounce config ipClientId accountId = \<lparr>dj_ipClientId = ipClientId, dj_accountId = accountId,
     dj_delay = cfg_ipClientDebounceMs config, dj_deduplication = ipClientId\<rparr>"

section \<open>The report endpoint\<close>

record trigger_request =
  tr_authorization :: "string option"
  tr_myip :: "string option"
  tr_myip6 :: "string option"
  tr_remoteAddress :: "string option"

definition parseBasicAuth :: "(string \<Rightarrow> string) \<Rightarrow> string option \<Rightarrow> (string \<times> string) option" where
  "parseBasicAuth decode64 header = (case header of
       None \<Rightarrow> None
     | Some h \<Rightarrow>
         if take 6 h \<noteq> ''Basic '' then None
         else (let decoded = decode64 (drop 6 h); username = takeWhile (\<lambda>c. c \<noteq> CHR '':'') decoded in
           if CHR '':'' \<notin> set decoded then None
           else Some (username, drop (length username + 1) decoded)))"

text \<open>The address the report is recorded with: the query's, or else the connection's.\<close>

definition reported_ipv4 :: "trigger_request \<Rightarrow> string option" where
  "reported_ipv4 req = (if truthy (tr_myip req) then tr_myip req else tr_remoteAddress req)"

definition badauth :: response where
  "badauth = Text 401 ''badauth''"

text \<open>\<open>others\<close> are the rows other writers append between the load of the device and the append of the
  report; \<open>queued\<close> is what the \<open>add\<close> of the settlement answers. The catch clause logs and throws again.\<close>

definition handle_trigger ::
  "crypto \<Rightarrow> (string \<Rightarrow> string) \<Rightarrow> Config \<Rightarrow> tick \<Rightarrow> stored_event list \<Rightarrow> answer \<Rightarrow> event_store \<Rightarrow> trigger_request \<Rightarrow>
   response \<times> event_store \<times> DebounceJob list" where
  "handle_trigger cr decode64 config tk others queued rows req =
     (case parseBasicAuth decode64 (tr_authorization req) of
        None \<Rightarrow> (badauth, rows, [])
      | Some (ipClientId, password) \<Rightarrow> (case resolveAccountId rows IP_CLIENT ipClientId of
            None \<Rightarrow> (badauth, rows, [])
          | Some accountId \<Rightarrow>
              if accountId = [] then (badauth, rows, [])
              else (case loadIpClient rows accountId ipClientId of (state, events, version) \<Rightarrow>
                if \<not> truthy (ic_credentialHash state) \<or> \<not> verifyCredential cr password (the (ic_credentialHash state))
                then (badauth, rows, [])
                else if ic_status state \<noteq> IcEnabled then (badauth, rows, [])
                else (let myip = reported_ipv4 req; myip6 = tr_myip6 req in
                  if \<not> truthy myip \<and> \<not> truthy myip6 then (Text 503 ''911'', rows, [])
                  else (case append_event config tk (rows @ others) (stream accountId IP_CLIENT ipClientId) (version + 1)
                          (IpClientEv (IpReportReceived \<lparr>rep_reportedIPv4 = myip, rep_reportedIPv6 = myip6,
                             rep_receivedAt = tk_now tk\<rparr>)) of
                      Inl err \<Rightarrow> (Thrown err, rows @ others, [])
                    | Inr (e, rows') \<Rightarrow>
                        (case queued of
                           Done \<Rightarrow> Text 200 (''good '' @ nullish_or (nullish myip myip6) ''undefined'')
                         | Errored err arrived \<Rightarrow> Thrown err,
                         rows', effect queued [scheduleDebounce config ipClientId accountId] []))))))"

section \<open>Fan-out\<close>

record fan_out_params =
  fo_accountId :: id
  fo_ipClientId :: id
  fo_causationEventId :: id
  fo_triggeredBy :: triggered_by
  fo_ipValues :: IpValuesUsed

definition runnable :: "id \<Rightarrow> ActionState \<Rightarrow> bool" where
  "runnable ipClientId state = (ac_ipClientId state = Some ipClientId \<and> ac_status state = ActEnabled
     \<and> ac_type state \<noteq> Some TRAEFIK_CONFIG_DELIVERY_ACTION_TYPE)"

definition execution_job_id :: "id \<Rightarrow> id \<Rightarrow> string" where
  "execution_job_id causationEventId actionId = ''exec-'' @ causationEventId @ ''-'' @ actionId"

definition fan_out_job :: "fan_out_params \<Rightarrow> id \<Rightarrow> id \<Rightarrow> ExecutionJob" where
  "fan_out_job p executionId actionId =
     \<lparr>xj_jobId = execution_job_id (fo_causationEventId p) actionId,
      xj_data = \<lparr>ej_accountId = fo_accountId p, ej_executionId = executionId, ej_actionId = actionId,
        ej_ipClientId = fo_ipClientId p, ej_causationEventId = fo_causationEventId p,
        ej_triggeredBy = fo_triggeredBy p, ej_ipValues = fo_ipValues p\<rparr>\<rparr>"

text \<open>What the calls of a fan-out answer: the listing, and in iteration \<open>n\<close> the load and the \<open>add\<close>.\<close>

record fan_out_answers =
  fa_list :: "exn option"
  fa_load :: "nat \<Rightarrow> exn option"
  fa_add :: "nat \<Rightarrow> answer"

text \<open>The loop: how it ends, and the jobs that reached the queue; \<open>fresh n\<close> is the ULID drawn in iteration \<open>n\<close>.\<close>

fun fan_out_loop ::
  "fan_out_answers \<Rightarrow> (nat \<Rightarrow> id) \<Rightarrow> event_store \<Rightarrow> fan_out_params \<Rightarrow> nat \<Rightarrow> id list \<Rightarrow> (exn + unit) \<times> ExecutionJob list" where
  "fan_out_loop ans fresh rows p n [] = (Inr (), [])"
| "fan_out_loop ans fresh rows p n (actionId # actionIds) =
     (case fa_load ans n of
        Some err \<Rightarrow> (Inl err, [])
      | None \<Rightarrow>
        (let state = fst (loadAction rows (fo_accountId p) actionId) in
         if \<not> runnable (fo_ipClientId p) state then fan_out_loop ans fresh rows p (Suc n) actionIds
         else (let job = fan_out_job p (fresh n) actionId in
           case fa_add ans n of
             Errored err arrived \<Rightarrow> (Inl err, effect (Errored err arrived) [job] [])
           | Done \<Rightarrow> (case fan_out_loop ans fresh rows p (Suc n) actionIds of (r, jobs) \<Rightarrow> (r, job # jobs)))))"

definition fanOutActionExecutions ::
  "fan_out_answers \<Rightarrow> (nat \<Rightarrow> id) \<Rightarrow> event_store \<Rightarrow> fan_out_params \<Rightarrow> (exn + unit) \<times> ExecutionJob list" where
  "fanOutActionExecutions ans fresh rows p = (case fa_list ans of
       Some err \<Rightarrow> (Inl err, [])
     | None \<Rightarrow> fan_out_loop ans fresh rows p 0 (listAggregateIds rows (fo_accountId p) ACTION))"

section \<open>The debounce worker\<close>

record pipeline =
  pp_rows :: event_store
  pp_redis :: "IpClientSummary redis"
  pp_schedules :: "(id \<times> id list \<times> id) list"
  pp_jobs :: "ExecutionJob list"

definition is_report :: "stored_event \<Rightarrow> IpClientIpReportReceivedData option" where
  "is_report e = (case ev_data e of IpClientEv (IpReportReceived d) \<Rightarrow> Some d | _ \<Rightarrow> None)"

definition last_report :: "stored_event list \<Rightarrow> IpClientIpReportReceivedData option" where
  "last_report events = (case List.map_filter is_report (rev events) of [] \<Rightarrow> None | d # _ \<Rightarrow> Some d)"

definition resolved_ips :: "IpClientState \<Rightarrow> IpClientIpReportReceivedData \<Rightarrow> IpValuesUsed" where
  "resolved_ips state d = \<lparr>ipv_ipv4 = nullish (rep_reportedIPv4 d) (ic_lastKnownIPv4 state),
     ipv_ipv6 = nullish (rep_reportedIPv6 d) (ic_lastKnownIPv6 state)\<rparr>"

definition known_values :: "IpClientState \<Rightarrow> IpValuesUsed" where
  "known_values state = \<lparr>ipv_ipv4 = ic_lastKnownIPv4 state, ipv_ipv6 = ic_lastKnownIPv6 state\<rparr>"

definition ip_changed_data :: "IpClientState \<Rightarrow> IpValuesUsed \<Rightarrow> timestamp \<Rightarrow> IpClientIpChangedData" where
  "ip_changed_data state ips now = \<lparr>chg_previousIPv4 = ic_lastKnownIPv4 state, chg_newIPv4 = ipv_ipv4 ips,
     chg_previousIPv6 = ic_lastKnownIPv6 state, chg_newIPv6 = ipv_ipv6 ips, chg_settledAt = now\<rparr>"

text \<open>What follows a recorded change: projection, snapshots, executions. Each may fail, and then what was done
  up to there stays; \<open>schedule\<close> of the coordinator only sets timers in memory and cannot fail.\<close>

record announce_answers =
  an_projection :: answer
  an_providers :: "exn option"
  an_fanOut :: fan_out_answers

definition announce_change ::
  "announce_answers \<Rightarrow> bool \<Rightarrow> (nat \<Rightarrow> id) \<Rightarrow> id \<Rightarrow> id \<Rightarrow> IpClientState \<Rightarrow> IpValuesUsed \<Rightarrow> stored_event \<Rightarrow> event_store \<Rightarrow>
   pipeline \<Rightarrow> (exn + unit) \<times> pipeline" where
  "announce_change ans hasSnapshots fresh accountId ipClientId state ips causationEvent rows p =
     (let projected = upsertIpClientProjection (pp_redis p) accountId (ipClientReducer state causationEvent);
          p1 = p\<lparr>pp_rows := rows, pp_redis := effect (an_projection ans) projected (pp_redis p)\<rparr> in
      case an_projection ans of
        Errored err arrived \<Rightarrow> (Inl err, p1)
      | Done \<Rightarrow>
        (case (if hasSnapshots then an_providers ans else None) of
           Some err \<Rightarrow> (Inl err, p1)
         | None \<Rightarrow>
           (let providerIds = providersOfDevice rows accountId ipClientId;
                p2 = p1\<lparr>pp_schedules := pp_schedules p @
                  (if hasSnapshots \<and> length providerIds > 0 then [(accountId, providerIds, ev_id causationEvent)] else [])\<rparr> in
            case fanOutActionExecutions (an_fanOut ans) fresh rows \<lparr>fo_accountId = accountId, fo_ipClientId = ipClientId,
                fo_causationEventId = ev_id causationEvent, fo_triggeredBy = ByIpChange, fo_ipValues = ips\<rparr> of
              (r, jobs) \<Rightarrow> (r, p2\<lparr>pp_jobs := pp_jobs p @ jobs\<rparr>))))"

definition settle ::
  "Config \<Rightarrow> announce_answers \<Rightarrow> bool \<Rightarrow> (nat \<Rightarrow> id) \<Rightarrow> tick \<Rightarrow> id \<Rightarrow> id \<Rightarrow> pipeline \<Rightarrow> (exn + unit) \<times> pipeline" where
  "settle config ans hasSnapshots fresh tk accountId ipClientId p =
     (case loadIpClient (pp_rows p) accountId ipClientId of (state, events, version) \<Rightarrow>
        if ic_status state \<noteq> IcEnabled then (Inr (), p)
        else (case last_report events of
            None \<Rightarrow> (Inr (), p)
          | Some reportData \<Rightarrow>
              (let ips = resolved_ips state reportData in
               if ips = known_values state then (Inr (), p)
               else (case append_event config tk (pp_rows p) (stream accountId IP_CLIENT ipClientId) (version + 1)
                       (IpClientEv (IpChanged (ip_changed_data state ips (tk_now tk)))) of
                   Inl err \<Rightarrow> (Inl err, p)
                 | Inr (causationEvent, rows) \<Rightarrow>
                     announce_change ans hasSnapshots fresh accountId ipClientId state ips causationEvent rows p))))"

section \<open>The manual run\<close>

text \<open>\<open>executionId\<close> and \<open>causationEventId\<close> are the two ULIDs drawn, \<open>queued\<close> what the \<open>add\<close> answers.\<close>

definition handle_run ::
  "answer \<Rightarrow> id \<Rightarrow> id \<Rightarrow> id \<Rightarrow> event_store \<Rightarrow> id \<Rightarrow> response \<times> ExecutionJob list" where
  "handle_run queued executionId causationEventId accountId rows actionId =
     (let actionState = fst (loadAction rows accountId actionId) in
      if \<not> truthy (ac_actionId actionState) \<or> ac_accountId actionState \<noteq> Some accountId
      then (json_error 404 ''not found'', [])
      else if ac_type actionState = Some TRAEFIK_CONFIG_DELIVERY_ACTION_TYPE
      then (Json 409 (JObj [(''error'', JStr ''not_runnable''),
        (''message'', JStr ''Traefik delivery actions are state-based and have nothing to run manually.'')]), [])
      else if ac_status actionState \<noteq> ActEnabled \<or> \<not> truthy (ac_ipClientId actionState)
      then (json_error 409 ''Action is not enabled'', [])
      else (let ipClientId = the (ac_ipClientId actionState);
                ipClientState = fst (loadIpClient rows accountId ipClientId) in
        if \<not> truthy (ic_lastKnownIPv4 ipClientState) \<and> \<not> truthy (ic_lastKnownIPv6 ipClientState)
        then (json_error 409 ''no known IP yet for this Action's IP Client'', [])
        else (case queued of Done \<Rightarrow> Json 202 (JObj [(''executionId'', JStr executionId)]) | Errored err arrived \<Rightarrow> Thrown err,
          effect queued [\<lparr>xj_jobId = ''exec-manual-'' @ executionId,
            xj_data = \<lparr>ej_accountId = accountId, ej_executionId = executionId, ej_actionId = actionId,
              ej_ipClientId = ipClientId, ej_causationEventId = causationEventId, ej_triggeredBy = ByManual,
              ej_ipValues = known_values ipClientState\<rparr>\<rparr>] [])))"

section \<open>Lemmas\<close>

lemma loadIpClient_eq:
  "loadIpClient rows acc i = (fst (loadIpClient rows acc i), readStream rows (stream acc IP_CLIENT i),
     length (readStream rows (stream acc IP_CLIENT i)))"
  by (simp add: loadIpClient_def loadAggregate_def Let_def)

lemma loadIpClient_append:
  assumes "wf_store rows"
    and "append_event cfg tk rows (stream acc IP_CLIENT i) (Suc (length (readStream rows (stream acc IP_CLIENT i)))) (IpClientEv d) = Inr (e, rows')"
  shows "fst (loadIpClient rows' acc i) = ip_client_apply (fst (loadIpClient rows acc i)) (IpClientEv d)"
    and "readStream rows' (stream acc IP_CLIENT i) = readStream rows (stream acc IP_CLIENT i) @ [e]"
    and "wf_store rows'" and "fst (loadAction rows' acc' a) = fst (loadAction rows acc' a)"
    and "ipClientReducer (fst (loadIpClient rows acc i)) e = fst (loadIpClient rows' acc i)"
proof -
  note next_ev = append_event_next [OF assms(1) refl assms(2)] and new = append_event_Inr [OF assms(2)]
  show read: "readStream rows' (stream acc IP_CLIENT i) = readStream rows (stream acc IP_CLIENT i) @ [e]" and "wf_store rows'"
    using next_ev by simp_all
  show st: "fst (loadIpClient rows' acc i) = ip_client_apply (fst (loadIpClient rows acc i)) (IpClientEv d)"
    using new(4) by (simp add: loadIpClient_def loadAggregate_def Let_def read ipClientReducer_def)
  show "ipClientReducer (fst (loadIpClient rows acc i)) e = fst (loadIpClient rows' acc i)"
    using new(4) by (simp add: st ipClientReducer_def)
  have "readStream rows' (stream acc' ACTION a) = readStream rows (stream acc' ACTION a)"
    by (rule next_ev(3)) simp
  then show "fst (loadAction rows' acc' a) = fst (loadAction rows acc' a)"
    by (simp add: loadAction_def loadAggregate_def Let_def)
qed

lemma fan_out_loop_map:
  assumes "fan_out_loop ans fresh rows p n ids = (Inr (), jobs)"
  shows "map (ej_actionId \<circ> xj_data) jobs = filter (\<lambda>a. runnable (fo_ipClientId p) (fst (loadAction rows (fo_accountId p) a))) ids"
  using assms
proof (induction ids arbitrary: n jobs)
  case (Cons a ids)
  from Cons.prems have load: "fa_load ans n = None" by (cases "fa_load ans n") simp_all
  show ?case
  proof (cases "runnable (fo_ipClientId p) (fst (loadAction rows (fo_accountId p) a))")
    case False
    with Cons load show ?thesis by (simp add: Let_def)
  next
    case True
    with Cons.prems load obtain js where "fan_out_loop ans fresh rows p (Suc n) ids = (Inr (), js)"
      "jobs = fan_out_job p (fresh n) a # js"
      by (auto simp: Let_def split: answer.splits prod.splits)
    with Cons.IH True show ?thesis by (simp add: fan_out_job_def)
  qed
qed simp

lemma fan_out_loop_prefix:
  assumes "fan_out_loop ans fresh rows p n ids = (r, jobs)"
  shows "\<exists>rest. filter (\<lambda>a. runnable (fo_ipClientId p) (fst (loadAction rows (fo_accountId p) a))) ids =
    map (ej_actionId \<circ> xj_data) jobs @ rest"
  using assms
proof (induction ids arbitrary: n jobs r)
  case (Cons a ids)
  show ?case
  proof (cases "fa_load ans n = None \<and> runnable (fo_ipClientId p) (fst (loadAction rows (fo_accountId p) a))")
    case False
    then consider "jobs = []" | "fan_out_loop ans fresh rows p (Suc n) ids = (r, jobs)"
        "\<not> runnable (fo_ipClientId p) (fst (loadAction rows (fo_accountId p) a))"
      using Cons.prems by (auto simp: Let_def split: option.splits)
    then show ?thesis
    proof cases
      case 2
      from Cons.IH [OF 2(1)] 2(2) show ?thesis by simp
    qed simp
  next
    case True
    obtain s js where rest: "fan_out_loop ans fresh rows p (Suc n) ids = (s, js)" by fastforce
    with Cons.prems True consider "jobs = []" | "jobs = [fan_out_job p (fresh n) a]" | "jobs = fan_out_job p (fresh n) a # js"
      by (auto simp: Let_def split: answer.splits if_splits)
    then show ?thesis
      using Cons.IH [OF rest] True by cases (auto simp: fan_out_job_def)
  qed
qed simp

lemma fan_out_loop_jobs:
  "j \<in> set (snd (fan_out_loop ans fresh rows p n ids)) \<Longrightarrow> \<exists>m a. a \<in> set ids \<and> j = fan_out_job p (fresh m) a"
proof (induction ids arbitrary: n)
  case (Cons b ids)
  from Cons.prems consider "j = fan_out_job p (fresh n) b" | "j \<in> set (snd (fan_out_loop ans fresh rows p (Suc n) ids))"
    by (auto simp: Let_def case_prod_beta split: if_splits option.splits answer.splits)
  then show ?case
  proof cases
    case 2
    from Cons.IH [OF this] show ?thesis by auto
  qed auto
qed simp

lemma fan_out_jobs:
  "j \<in> set (snd (fanOutActionExecutions ans fresh rows p)) \<Longrightarrow> \<exists>m a. j = fan_out_job p (fresh m) a"
  by (auto simp: fanOutActionExecutions_def split: option.splits dest!: fan_out_loop_jobs)

text \<open>What a settlement leaves behind, however it ends: the rows are those given, jobs are only added.\<close>

lemma announce_change_pipeline:
  assumes "announce_change ans hasSnapshots fresh acc i st ips e rows p = (r, p')"
  shows "pp_rows p' = rows"
    and "r = Inr () \<Longrightarrow> \<exists>jobs. fanOutActionExecutions (an_fanOut ans) fresh rows \<lparr>fo_accountId = acc, fo_ipClientId = i,
           fo_causationEventId = ev_id e, fo_triggeredBy = ByIpChange, fo_ipValues = ips\<rparr> = (Inr (), jobs)
         \<and> pp_jobs p' = pp_jobs p @ jobs
         \<and> pp_schedules p' = pp_schedules p @ (if hasSnapshots \<and> providersOfDevice rows acc i \<noteq> []
             then [(acc, providersOfDevice rows acc i, ev_id e)] else [])"
  using assms
  by (auto simp: announce_change_def Let_def split: answer.splits option.splits prod.splits if_splits)

lemma runnable_listed:
  assumes "runnable d (fst (loadAction rows acc a))"
  shows "a \<in> set (listAggregateIds rows acc ACTION)"
proof -
  have "readStream rows (stream acc ACTION a) \<noteq> []"
    using assms loadAction_empty [of rows acc a] by (auto simp: runnable_def initialActionState_def)
  then show ?thesis by (auto simp: set_listAggregateIds)
qed

text \<open>\<open>settle\<close> by cases on the report it finds.\<close>

lemma settle_eq:
  fixes acc i p
  defines "st \<equiv> fst (loadIpClient (pp_rows p) acc i)" and "k \<equiv> stream acc IP_CLIENT i"
  shows "settle config ans hasSnapshots fresh tk acc i p =
    (case (if ic_status st = IcEnabled then last_report (readStream (pp_rows p) k) else None) of
        None \<Rightarrow> (Inr (), p)
      | Some d \<Rightarrow> if resolved_ips st d = known_values st then (Inr (), p)
          else (case append_event config tk (pp_rows p) k (Suc (length (readStream (pp_rows p) k)))
                  (IpClientEv (IpChanged (ip_changed_data st (resolved_ips st d) (tk_now tk)))) of
              Inl err \<Rightarrow> (Inl err, p)
            | Inr (e, rows) \<Rightarrow> announce_change ans hasSnapshots fresh acc i st (resolved_ips st d) e rows p))"
  unfolding settle_def Let_def
  by (subst loadIpClient_eq) (simp add: st_def [symmetric] k_def [symmetric] split: option.split)

lemma last_report_snoc: "last_report (es @ [e]) = (case is_report e of None \<Rightarrow> last_report es | Some d \<Rightarrow> Some d)"
  by (simp add: last_report_def map_filter_simps split: option.split)

section \<open>Properties\<close>

lemma readStream_append: "wf_store rows \<Longrightarrow> wf_store (rows @ others) \<Longrightarrow>
    readStream (rows @ others) k = readStream rows k @ filter (in_stream k) others"
  by (simp add: readStream_wf(1) filter_append)

text \<open>An append at the number a load gave succeeds only if nobody appended to the stream since.\<close>

lemma append_event_race:
  assumes wf: "wf_store rows" "wf_store (rows @ others)"
    and ok: "append_event cfg tk (rows @ others) k (Suc (length (readStream rows k))) d = Inr (e, rows')"
  shows "filter (in_stream k) others = []" and "readStream (rows @ others) k = readStream rows k"
proof -
  have split: "readStream (rows @ others) k = readStream rows k @ filter (in_stream k) others"
    by (rule readStream_append [OF wf])
  show none: "filter (in_stream k) others = []"
  proof (rule ccontr)
    assume "filter (in_stream k) others \<noteq> []"
    then have "Suc (length (readStream rows k)) \<le> length (readStream (rows @ others) k)"
      unfolding split by (cases "filter (in_stream k) others") simp_all
    from append_event_taken [OF wf(2) _ this, of cfg tk d] ok show False by auto
  qed
  show "readStream (rows @ others) k = readStream rows k" by (simp add: split none)
qed

lemma trigger_outcome:
  assumes "wf_store rows" and wf: "wf_store (rows @ others)"
    and "handle_trigger cr decode64 config tk others queued rows req = (resp, rows', jobs)"
  shows "wf_store rows' \<and> ((rows' \<in> {rows, rows @ others} \<and> jobs = [] \<and> resp_status resp \<noteq> 200)
    \<or> (\<exists>i password acc hash e. parseBasicAuth decode64 (tr_authorization req) = Some (i, password)
        \<and> resolveAccountId rows IP_CLIENT i = Some acc
        \<and> ic_credentialHash (fst (loadIpClient rows acc i)) = Some hash \<and> verifyCredential cr password hash
        \<and> ic_status (fst (loadIpClient rows acc i)) = IcEnabled
        \<and> (truthy (reported_ipv4 req) \<or> truthy (tr_myip6 req))
        \<and> filter (in_stream (stream acc IP_CLIENT i)) others = []
        \<and> rows' = rows @ others @ [e] \<and> in_stream (stream acc IP_CLIENT i) e
        \<and> ev_data e = IpClientEv (IpReportReceived \<lparr>rep_reportedIPv4 = reported_ipv4 req,
             rep_reportedIPv6 = tr_myip6 req, rep_receivedAt = tk_now tk\<rparr>)
        \<and> fst (loadIpClient rows' acc i) = fst (loadIpClient rows acc i)
        \<and> (case queued of
             Done \<Rightarrow> resp_status resp = 200 \<and> jobs = [scheduleDebounce config i acc]
           | Errored err arrived \<Rightarrow> resp = Thrown err \<and> jobs = (if arrived then [scheduleDebounce config i acc] else []))
        \<and> dj_deduplication (scheduleDebounce config i acc) = i))"
proof (cases "\<exists>i password acc. parseBasicAuth decode64 (tr_authorization req) = Some (i, password)
      \<and> resolveAccountId rows IP_CLIENT i = Some acc \<and> acc \<noteq> []")
  case False
  with assms show ?thesis
    by (auto simp: handle_trigger_def badauth_def split: option.splits if_splits)
next
  case True
  then obtain i password acc where auth: "parseBasicAuth decode64 (tr_authorization req) = Some (i, password)"
    "resolveAccountId rows IP_CLIENT i = Some acc" "acc \<noteq> []" by blast
  let ?st = "fst (loadIpClient rows acc i)" and ?k = "stream acc IP_CLIENT i"
  let ?d = "\<lparr>rep_reportedIPv4 = reported_ipv4 req, rep_reportedIPv6 = tr_myip6 req, rep_receivedAt = tk_now tk\<rparr>"
  let ?app = "append_event config tk (rows @ others) ?k (Suc (length (readStream rows ?k))) (IpClientEv (IpReportReceived ?d))"
  have run: "handle_trigger cr decode64 config tk others queued rows req =
      (if \<not> truthy (ic_credentialHash ?st) \<or> \<not> verifyCredential cr password (the (ic_credentialHash ?st)) \<or> ic_status ?st \<noteq> IcEnabled
       then (badauth, rows, [])
       else if \<not> truthy (reported_ipv4 req) \<and> \<not> truthy (tr_myip6 req) then (Text 503 ''911'', rows, [])
       else (case ?app of Inl err \<Rightarrow> (Thrown err, rows @ others, [])
         | Inr (e, rows') \<Rightarrow> (case queued of
               Done \<Rightarrow> Text 200 (''good '' @ nullish_or (nullish (reported_ipv4 req) (tr_myip6 req)) ''undefined'')
             | Errored err arrived \<Rightarrow> Thrown err, rows', effect queued [scheduleDebounce config i acc] [])))"
    unfolding handle_trigger_def auth(1,2) option.case prod.case
    using auth(3) by (subst loadIpClient_eq) (simp add: Let_def)
  consider (refused) "rows' \<in> {rows, rows @ others}" "jobs = []" "resp_status resp \<noteq> 200"
    | (stored) e where "truthy (ic_credentialHash ?st)" "verifyCredential cr password (the (ic_credentialHash ?st))"
        "ic_status ?st = IcEnabled" "truthy (reported_ipv4 req) \<or> truthy (tr_myip6 req)" "?app = Inr (e, rows')"
        "case queued of
             Done \<Rightarrow> resp_status resp = 200 \<and> jobs = [scheduleDebounce config i acc]
           | Errored err arrived \<Rightarrow> resp = Thrown err \<and> jobs = (if arrived then [scheduleDebounce config i acc] else [])"
    using assms(3) unfolding run by (cases queued) (auto simp: badauth_def split: if_splits sum.splits)
  then show ?thesis
  proof cases
    case refused
    with assms(1,2) show ?thesis by auto
  next
    case (stored e)
    note race = append_event_race [OF assms(1) wf stored(5)]
    note app = stored(5) [folded race(2)]
    note new = append_event_Inr [OF app] and st = loadIpClient_append(1,3) [OF wf app]
    have same: "fst (loadIpClient (rows @ others) acc i) = ?st"
      unfolding loadIpClient_def loadAggregate_def race(2) by simp
    obtain hash where "ic_credentialHash ?st = Some hash" using stored(1) by (cases "ic_credentialHash ?st") auto
    with auth stored(2-4,6) new(1,2,4) st race(1) show ?thesis
      by (intro conjI [OF st(2)] disjI2 exI [of _ i] exI [of _ password] exI [of _ acc] exI [of _ hash] exI [of _ e])
        (simp add: scheduleDebounce_def same)
  qed
qed

text \<open>C6. A report is accepted only from its device, whatever other writers append meanwhile and whatever the
  queue answers. Either nothing of the report is stored, nothing is queued and the status is not 200. Or the
  presented secret verifies against the hash of an enabled device, an address was given, nobody else appended
  to the device's stream, exactly one report event with the request's addresses is appended to that stream and
  no replayed state of the device changes by it; then, if the queue takes the settlement, exactly one keyed by
  the device is scheduled and the answer is 200, and if it does not, the report stays stored, the error is
  thrown and at most that settlement is queued. Without the credential of an enabled device no report is stored.\<close>
theorem report_accepted_from_device:
  assumes "wf_store rows" and "wf_store (rows @ others)"
    and "handle_trigger cr decode64 config tk others queued rows req = (resp, rows', jobs)"
  shows "(rows' \<in> {rows, rows @ others} \<and> jobs = [] \<and> resp_status resp \<noteq> 200)
    \<or> (\<exists>i password acc hash e. parseBasicAuth decode64 (tr_authorization req) = Some (i, password)
        \<and> resolveAccountId rows IP_CLIENT i = Some acc
        \<and> ic_credentialHash (fst (loadIpClient rows acc i)) = Some hash \<and> verifyCredential cr password hash
        \<and> ic_status (fst (loadIpClient rows acc i)) = IcEnabled
        \<and> (truthy (reported_ipv4 req) \<or> truthy (tr_myip6 req))
        \<and> filter (in_stream (stream acc IP_CLIENT i)) others = []
        \<and> rows' = rows @ others @ [e] \<and> in_stream (stream acc IP_CLIENT i) e
        \<and> ev_data e = IpClientEv (IpReportReceived \<lparr>rep_reportedIPv4 = reported_ipv4 req,
             rep_reportedIPv6 = tr_myip6 req, rep_receivedAt = tk_now tk\<rparr>)
        \<and> fst (loadIpClient rows' acc i) = fst (loadIpClient rows acc i)
        \<and> (case queued of
             Done \<Rightarrow> resp_status resp = 200 \<and> jobs = [scheduleDebounce config i acc]
           | Errored err arrived \<Rightarrow> resp = Thrown err \<and> jobs = (if arrived then [scheduleDebounce config i acc] else []))
        \<and> dj_deduplication (scheduleDebounce config i acc) = i)"
  using trigger_outcome [OF assms] by (rule conjunct2)

text \<open>C7. Only an actual change is announced: settling a device that is disabled, never reported or whose last report
  brings nothing new leaves everything as it was; otherwise exactly one change event is appended with the old
  and the new addresses (an address the report does not mention is kept), the device's replayed state has
  the new addresses, and the snapshots and executions announced name that event as their cause.\<close>
theorem settle_announces_only_changes:
  assumes "wf_store (pp_rows p)" and "settle config ans hasSnapshots fresh tk acc i p = (Inr (), p')"
  defines "st \<equiv> fst (loadIpClient (pp_rows p) acc i)"
  shows "case (if ic_status st = IcEnabled then last_report (readStream (pp_rows p) (stream acc IP_CLIENT i)) else None) of
      None \<Rightarrow> p' = p
    | Some d \<Rightarrow> if resolved_ips st d = known_values st then p' = p
        else (\<exists>e. pp_rows p' = pp_rows p @ [e]
          \<and> ev_data e = IpClientEv (IpChanged (ip_changed_data st (resolved_ips st d) (tk_now tk)))
          \<and> known_values (fst (loadIpClient (pp_rows p') acc i)) = resolved_ips st d
          \<and> (\<forall>j \<in> set (drop (length (pp_jobs p)) (pp_jobs p')). ej_causationEventId (xj_data j) = ev_id e
               \<and> ej_ipValues (xj_data j) = resolved_ips st d)
          \<and> pp_schedules p' = pp_schedules p @ (if hasSnapshots \<and> providersOfDevice (pp_rows p') acc i \<noteq> []
               then [(acc, providersOfDevice (pp_rows p') acc i, ev_id e)] else []))"
proof -
  let ?k = "stream acc IP_CLIENT i" and ?rows = "pp_rows p"
  define r where "r = (if ic_status st = IcEnabled then last_report (readStream ?rows ?k) else None)"
  note run = settle_eq [of config ans hasSnapshots fresh tk acc i p, folded st_def r_def]
  show ?thesis
  proof (cases r)
    case None
    with assms(2) run show ?thesis unfolding r_def [symmetric] by simp
  next
    case (Some d)
    show ?thesis
    proof (cases "resolved_ips st d = known_values st")
      case True
      with assms(2) run Some show ?thesis unfolding r_def [symmetric] by simp
    next
      case False
      let ?ev = "IpChanged (ip_changed_data st (resolved_ips st d) (tk_now tk))"
      let ?app = "append_event config tk ?rows ?k (Suc (length (readStream ?rows ?k))) (IpClientEv ?ev)"
      from Some have some: "(if ic_status st = IcEnabled then last_report (readStream ?rows ?k) else None) = Some d"
        unfolding r_def .
      from assms(2) False obtain e rows where app: "?app = Inr (e, rows)"
        and p': "announce_change ans hasSnapshots fresh acc i st (resolved_ips st d) e rows p = (Inr (), p')"
        unfolding run some by (auto split: sum.splits)
      note left_over = announce_change_pipeline(1) [OF p'] announce_change_pipeline(2) [OF p' refl]
      have "fst (loadIpClient rows acc i) = ip_client_apply st (IpClientEv ?ev)"
        using loadIpClient_append(1) [OF assms(1) app] by (simp add: st_def)
      then have "known_values (fst (loadIpClient rows acc i)) = resolved_ips st d"
        by (simp add: ip_changed_data_def known_values_def resolved_ips_def nullish_def split: option.splits)
      moreover have "\<forall>j \<in> set (drop (length (pp_jobs p)) (pp_jobs p')). ej_causationEventId (xj_data j) = ev_id e
          \<and> ej_ipValues (xj_data j) = resolved_ips st d"
      proof -
        from left_over(2) obtain jobs where jobs: "fanOutActionExecutions (an_fanOut ans) fresh rows \<lparr>fo_accountId = acc,
            fo_ipClientId = i, fo_causationEventId = ev_id e, fo_triggeredBy = ByIpChange, fo_ipValues = resolved_ips st d\<rparr> =
            (Inr (), jobs)" and "pp_jobs p' = pp_jobs p @ jobs" by blast
        then have "set (drop (length (pp_jobs p)) (pp_jobs p')) = set jobs" by simp
        moreover have "ej_causationEventId (xj_data j) = ev_id e \<and> ej_ipValues (xj_data j) = resolved_ips st d"
          if "j \<in> set jobs" for j
          using fan_out_jobs [of j "an_fanOut ans" fresh rows "\<lparr>fo_accountId = acc, fo_ipClientId = i,
            fo_causationEventId = ev_id e, fo_triggeredBy = ByIpChange, fo_ipValues = resolved_ips st d\<rparr>", unfolded jobs] that
          by (auto simp: fan_out_job_def)
        ultimately show ?thesis by simp
      qed
      ultimately show ?thesis
        using append_event_Inr(1,4) [OF app] Some False left_over
        unfolding r_def [symmetric] by auto
    qed
  qed
qed


text \<open>C30. The fan-out reaches every action it should, once: where no call fails it queues exactly one execution
  for each attached, enabled action of the device that is not a Traefik delivery, under a job id determined by
  the cause and the action; so with a queue that ignores a known job id, repeating it for the same cause queues
  nothing new. Where a call fails, the jobs that reached the queue before are such executions, for distinct actions.\<close>
theorem fan_out_exact:
  fixes fresh rows p
  assumes "\<And>q j. xj_jobId j \<in> ids q \<Longrightarrow> add q j = q" and "\<And>q j. ids (add q j) = insert (xj_jobId j) (ids q)"
    and "fanOutActionExecutions ans fresh rows p = (r, jobs)" and "fanOutActionExecutions ans' fresh' rows p = (r', jobs')"
  shows "distinct (map (ej_actionId \<circ> xj_data) jobs) \<and> distinct (map xj_jobId jobs)
    \<and> ej_actionId ` xj_data ` set jobs \<subseteq> {a. runnable (fo_ipClientId p) (fst (loadAction rows (fo_accountId p) a))}
    \<and> (r = Inr () \<longrightarrow>
        ej_actionId ` xj_data ` set jobs = {a. runnable (fo_ipClientId p) (fst (loadAction rows (fo_accountId p) a))}
        \<and> foldl add (foldl add q jobs) jobs' = foldl add q jobs)"
proof -
  let ?actions = "filter (\<lambda>a. runnable (fo_ipClientId p) (fst (loadAction rows (fo_accountId p) a)))
      (listAggregateIds rows (fo_accountId p) ACTION)"
  have job_ids: "map xj_jobId js = map (execution_job_id (fo_causationEventId p)) (map (ej_actionId \<circ> xj_data) js)"
    if "fanOutActionExecutions a f rows p = (s, js)" for a f s js
    using fan_out_jobs [of _ a f rows p, unfolded that] by (fastforce simp: fan_out_job_def)
  have prefix: "\<exists>rest. ?actions = map (ej_actionId \<circ> xj_data) js @ rest" if "fanOutActionExecutions a f rows p = (s, js)" for a f s js
    using that fan_out_loop_prefix by (auto simp: fanOutActionExecutions_def split: option.splits)
  have all: "map (ej_actionId \<circ> xj_data) jobs = ?actions" if "r = Inr ()"
    using assms(3) fan_out_loop_map unfolding that fanOutActionExecutions_def by (auto split: option.splits)
  have inj: "inj (execution_job_id c)" for c by (auto simp: inj_def execution_job_id_def)
  have known: "set (map xj_jobId js) \<subseteq> ids q' \<Longrightarrow> foldl add q' js = q'" for q' js
    using assms(1) by (induction js) auto
  have grown: "set (map xj_jobId js) \<union> ids q' \<subseteq> ids (foldl add q' js)" for q' js
    using assms(2) by (induction js arbitrary: q') (auto, blast+)
  have "distinct ?actions" by simp
  then have once: "distinct (map (ej_actionId \<circ> xj_data) jobs)"
    using prefix [OF assms(3)] by (metis distinct_append)
  then have keys: "distinct (map xj_jobId jobs)"
    unfolding job_ids [OF assms(3)] by (subst distinct_map) (auto intro: inj_on_subset [OF inj])
  have sub: "set (map (ej_actionId \<circ> xj_data) js) \<subseteq> set ?actions" if "fanOutActionExecutions a f rows p = (s, js)" for a f s js
    using prefix [OF that] by (metis Un_upper1 set_append)
  then have within: "ej_actionId ` xj_data ` set jobs \<subseteq> {a. runnable (fo_ipClientId p) (fst (loadAction rows (fo_accountId p) a))}"
    using sub [OF assms(3)] by (auto simp: image_image)
  have "ej_actionId ` xj_data ` set jobs = {a. runnable (fo_ipClientId p) (fst (loadAction rows (fo_accountId p) a))}
      \<and> foldl add (foldl add q jobs) jobs' = foldl add q jobs" if "r = Inr ()"
  proof
    have "ej_actionId ` xj_data ` set jobs = set ?actions"
      using arg_cong [OF all [OF that], of set] by (simp add: image_comp)
    then show "ej_actionId ` xj_data ` set jobs = {a. runnable (fo_ipClientId p) (fst (loadAction rows (fo_accountId p) a))}"
      by (auto dest: runnable_listed)
    have "set (map xj_jobId jobs') \<subseteq> set (map xj_jobId jobs)"
      using sub [OF assms(4)] arg_cong [OF all [OF that], of set]
      unfolding job_ids [OF assms(3)] job_ids [OF assms(4)] set_map [of "execution_job_id c" for c] by (intro image_mono) simp
    with grown [of jobs q] show "foldl add (foldl add q jobs) jobs' = foldl add q jobs" by (intro known) blast
  qed
  with once keys within show ?thesis by blast
qed

text \<open>Where the queue takes it, a manual run queues one execution with the device's current addresses exactly when the action is the
  account's own, enabled, not a Traefik delivery and its device has a known address; every other request is
  refused with 404 or 409 and queues nothing. The job id is fresh, so two clicks run twice.\<close>
theorem manual_run_outcome:
  assumes "handle_run queued executionId cause acc rows a = (resp, jobs)"
  defines "st \<equiv> fst (loadAction rows acc a)"
  defines "dev \<equiv> fst (loadIpClient rows acc (the (ac_ipClientId st)))"
  shows "if truthy (ac_actionId st) \<and> ac_accountId st = Some acc \<and> ac_status st = ActEnabled
        \<and> ac_type st \<noteq> Some TRAEFIK_CONFIG_DELIVERY_ACTION_TYPE \<and> truthy (ac_ipClientId st)
        \<and> (truthy (ic_lastKnownIPv4 dev) \<or> truthy (ic_lastKnownIPv6 dev))
      then resp = (case queued of Done \<Rightarrow> Json 202 (JObj [(''executionId'', JStr executionId)]) | Errored err arrived \<Rightarrow> Thrown err)
        \<and> (\<exists>j. jobs = effect queued [j] [] \<and> xj_jobId j = ''exec-manual-'' @ executionId
        \<and> ej_actionId (xj_data j) = a \<and> ej_accountId (xj_data j) = acc \<and> ej_ipValues (xj_data j) = known_values dev)
      else jobs = [] \<and> resp_status resp \<in> {404, 409}"
  using assms(1) unfolding handle_run_def Let_def st_def [symmetric] dev_def [symmetric]
  by (simp split: if_splits) auto

section \<open>Concrete instances\<close>

definition sample_secret_hash :: string where
  "sample_secret_hash = ''5a'' @ '':'' @ sha256hex sample_crypto (''5a'' @ '':'' @ ''pw'')"

definition sample_registered :: stored_event where
  "sample_registered = sample_row ''e1'' ''acc'' ''d'' 1 (IpClientEv (IpClientRegistered \<lparr>icr_ipClientId = ''d'',
     icr_accountId = ''acc'', icr_label = ''home'', icr_credentialHash = sample_secret_hash, icr_registeredAt = 0\<rparr>))"

definition sample_reported :: stored_event where
  "sample_reported = sample_row ''e2'' ''acc'' ''d'' 2 (IpClientEv (IpReportReceived \<lparr>rep_reportedIPv4 = Some ''1.2.3.4'',
     rep_reportedIPv6 = None, rep_receivedAt = 0\<rparr>))"

definition sample_dns_action :: stored_event where
  "sample_dns_action = sample_row ''e3'' ''acc'' ''a'' 1 (ActionEv (ActionAttached \<lparr>att_actionId = ''a'', att_accountId = ''acc'',
     att_ipClientId = ''d'', att_type = HETZNER_CLOUD_DNS_UPDATE_ACTION_TYPE, att_addressFamilies = [IPv4],
     att_config = empty_config\<lparr>cf_providerCredentialId := Some ''c''\<rparr>, att_attachedAt = 0\<rparr>))"

definition sample_device_rows :: event_store where
  "sample_device_rows = [sample_registered, sample_reported, sample_dns_action]"

lemmas sample_device_defs = sample_device_rows_def sample_registered_def sample_reported_def sample_dns_action_def

lemma sample_device_wf: "wf_store sample_device_rows" "wf_store [sample_registered]"
  by (auto simp: wf_store_def aggregate_rows_def sample_device_defs Let_def)

lemma sample_device_load:
  "fst (loadIpClient sample_device_rows ''acc'' ''d'') = initialIpClientState\<lparr>ic_ipClientId := Some ''d'',
     ic_accountId := Some ''acc'', ic_label := ''home'', ic_credentialHash := Some sample_secret_hash\<rparr>"
  "fst (loadIpClient [sample_registered] ''acc'' ''d'') = fst (loadIpClient sample_device_rows ''acc'' ''d'')"
  "readStream sample_device_rows (stream ''acc'' IP_CLIENT ''d'') = [sample_registered, sample_reported]"
  "readStream [sample_registered] (stream ''acc'' IP_CLIENT ''d'') = [sample_registered]"
  by (simp_all add: loadIpClient_def loadAggregate_def readStream_def in_stream_def sample_device_defs ipClientReducer_def
      initialIpClientState_def)

lemma sample_action_load:
  "fst (loadAction sample_device_rows ''acc'' ''a'') = initialActionState\<lparr>ac_actionId := Some ''a'', ac_accountId := Some ''acc'',
     ac_ipClientId := Some ''d'', ac_type := Some HETZNER_CLOUD_DNS_UPDATE_ACTION_TYPE, ac_addressFamilies := [IPv4],
     ac_config := Some (empty_config\<lparr>cf_providerCredentialId := Some ''c''\<rparr>)\<rparr>"
  by (simp add: loadAction_def loadAggregate_def readStream_def in_stream_def sample_device_defs actionReducer_def initialActionState_def)

lemma sample_secret_verifies: "verifyCredential sample_crypto ''pw'' sample_secret_hash"
proof -
  have len: "length (sha256hex sample_crypto s) = 64" for s using sample_digests by (simp add: hex_digests_def)
  then have nonempty: "sha256hex sample_crypto s \<noteq> []" for s by (metis length_0_conv zero_neq_numeral)
  show ?thesis
    unfolding sample_secret_hash_def verifyCredential_def digest_def
    by (subst split_two) (simp_all add: hex_digest_no_colon sample_digests nonempty)
qed

definition sample_trigger :: trigger_request where
  "sample_trigger = \<lparr>tr_authorization = Some (''Basic '' @ ''d:pw''), tr_myip = Some ''1.2.3.4'', tr_myip6 = None, tr_remoteAddress = None\<rparr>"

lemma sample_append:
  assumes "tk_id tk \<notin> ev_id ` set rows" and "\<forall>r \<in> set rows. ev_sequenceNumber r < n"
  shows "\<exists>e. append_event cfg tk rows k n d = Inr (e, rows @ [e])"
proof -
  have "\<not> (ev_id row = tk_id tk \<or> ev_sequenceNumber row = n)" if "row \<in> set rows" for row
    using assms that by force
  then show ?thesis
    by (auto simp: append_event_def buildDomainEvent_def Let_def es_append_def unique_violation_def same_slot_def list_ex_iff)
qed

text \<open>Answers without a failure, and ones where the job queue is down.\<close>

definition calm_fan_out :: fan_out_answers where
  "calm_fan_out = \<lparr>fa_list = None, fa_load = (\<lambda>n. None), fa_add = (\<lambda>n. Done)\<rparr>"

definition calm_answers :: announce_answers where
  "calm_answers = \<lparr>an_projection = Done, an_providers = None, an_fanOut = calm_fan_out\<rparr>"

definition queue_down :: announce_answers where
  "queue_down = calm_answers\<lparr>an_fanOut := calm_fan_out\<lparr>fa_add := (\<lambda>n. Errored (JsError ''ECONNREFUSED'') False)\<rparr>\<rparr>"

lemma report_accepted_from_device_witness:
  "\<exists>resp rows' jobs e. handle_trigger sample_crypto (\<lambda>s. s) sample_config (sample_tick 9) [] (Errored (JsError ''ECONNREFUSED'') False)
      [sample_registered] sample_trigger = (resp, rows', jobs)
    \<and> rows' = [sample_registered, e] \<and> jobs = [] \<and> resp = Thrown (JsError ''ECONNREFUSED'')
    \<and> fst (loadIpClient rows' ''acc'' ''d'') = fst (loadIpClient [sample_registered] ''acc'' ''d'')"
proof -
  let ?q = "Errored (JsError ''ECONNREFUSED'') False"
  obtain resp rows' jobs where run: "handle_trigger sample_crypto (\<lambda>s. s) sample_config (sample_tick 9) [] ?q [sample_registered] sample_trigger =
      (resp, rows', jobs)" by (metis prod_cases3)
  have auth: "parseBasicAuth (\<lambda>s. s) (tr_authorization sample_trigger) = Some (''d'', ''pw'')"
    by (simp add: parseBasicAuth_def sample_trigger_def Let_def)
  have account: "resolveAccountId [sample_registered] IP_CLIENT ''d'' = Some ''acc''"
    by (simp add: resolveAccountId_def sample_registered_def)
  let ?d = "IpClientEv (IpReportReceived \<lparr>rep_reportedIPv4 = Some ''1.2.3.4'', rep_reportedIPv6 = None, rep_receivedAt = tk_now (sample_tick 9)\<rparr>)"
  have "\<exists>e. append_event sample_config (sample_tick 9) [sample_registered] (stream ''acc'' IP_CLIENT ''d'') (Suc 0 + 1) ?d =
      Inr (e, [sample_registered] @ [e])"
    by (rule sample_append) (simp_all add: sample_registered_def sample_tick_def nat_to_string.simps)
  then obtain e where app: "append_event sample_config (sample_tick 9) [sample_registered] (stream ''acc'' IP_CLIENT ''d'') (Suc 0 + 1) ?d =
      Inr (e, [sample_registered] @ [e])" by blast
  have state: "ic_credentialHash (fst (loadIpClient [sample_registered] ''acc'' ''d'')) = Some sample_secret_hash"
    "ic_status (fst (loadIpClient [sample_registered] ''acc'' ''d'')) = IcEnabled" "sample_secret_hash \<noteq> []"
    unfolding sample_device_load by (simp_all add: initialIpClientState_def sample_secret_hash_def)
  have addr: "reported_ipv4 sample_trigger = Some ''1.2.3.4''" "tr_myip6 sample_trigger = None"
    by (simp_all add: sample_trigger_def reported_ipv4_def)
  have "fst (snd (handle_trigger sample_crypto (\<lambda>s. s) sample_config (sample_tick 9) [] ?q [sample_registered] sample_trigger)) =
      [sample_registered, e]"
    unfolding handle_trigger_def auth option.case prod.case account Let_def addr
    by (subst loadIpClient_eq) (simp add: state sample_device_load(4) sample_secret_verifies app [simplified])
  then have "rows' = [sample_registered, e]" by (simp add: run)
  moreover from this report_accepted_from_device [OF sample_device_wf(2) _ run] auth account
  have "jobs = [] \<and> resp = Thrown (JsError ''ECONNREFUSED'')
      \<and> fst (loadIpClient rows' ''acc'' ''d'') = fst (loadIpClient [sample_registered] ''acc'' ''d'')"
    by (auto simp: sample_device_wf(2))
  ultimately show ?thesis using run by blast
qed

definition sample_pipeline :: pipeline where
  "sample_pipeline = \<lparr>pp_rows = sample_device_rows, pp_redis = [], pp_schedules = [], pp_jobs = []\<rparr>"

lemma sample_report: "last_report [sample_registered, sample_reported] = Some \<lparr>rep_reportedIPv4 = Some ''1.2.3.4'',
     rep_reportedIPv6 = None, rep_receivedAt = 0\<rparr>"
  by (simp add: last_report_def map_filter_simps is_report_def sample_reported_def)

lemma sample_settle_recorded:
  obtains res p' e where "settle sample_config ans True (\<lambda>n. ''x'') (sample_tick 9) ''acc'' ''d'' sample_pipeline = (res, p')"
    and "pp_rows p' = sample_device_rows @ [e]"
    and "announce_change ans True (\<lambda>n. ''x'') ''acc'' ''d'' (fst (loadIpClient sample_device_rows ''acc'' ''d''))
      \<lparr>ipv_ipv4 = Some ''1.2.3.4'', ipv_ipv6 = None\<rparr> e (sample_device_rows @ [e]) sample_pipeline = (res, p')"
    and "ev_data e \<noteq> ev_data sample_dns_action" and "wf_store (sample_device_rows @ [e])"
    and "loadAction (sample_device_rows @ [e]) ''acc'' ''a'' = loadAction sample_device_rows ''acc'' ''a''"
    and "listAggregateIds (sample_device_rows @ [e]) ''acc'' ACTION = [''a'']"
proof -
  let ?d = "IpClientEv (IpChanged (ip_changed_data (fst (loadIpClient sample_device_rows ''acc'' ''d''))
        \<lparr>ipv_ipv4 = Some ''1.2.3.4'', ipv_ipv6 = None\<rparr> 9))"
  have "\<exists>e. append_event sample_config (sample_tick 9) sample_device_rows k 3 d = Inr (e, sample_device_rows @ [e])" for k d
    by (rule sample_append) (simp_all add: sample_device_defs sample_tick_def nat_to_string.simps)
  then obtain e where app: "append_event sample_config (sample_tick 9) sample_device_rows (stream ''acc'' IP_CLIENT ''d'') 3 ?d =
      Inr (e, sample_device_rows @ [e])" by blast
  then have run: "settle sample_config ans True (\<lambda>n. ''x'') (sample_tick 9) ''acc'' ''d'' sample_pipeline =
     announce_change ans True (\<lambda>n. ''x'') ''acc'' ''d'' (fst (loadIpClient sample_device_rows ''acc'' ''d''))
      \<lparr>ipv_ipv4 = Some ''1.2.3.4'', ipv_ipv6 = None\<rparr> e (sample_device_rows @ [e]) sample_pipeline"
    unfolding settle_eq
    by (simp add: sample_pipeline_def sample_device_load sample_report initialIpClientState_def resolved_ips_def known_values_def
        numeral_3_eq_3 sample_tick_def)
  obtain res p' where p': "settle sample_config ans True (\<lambda>n. ''x'') (sample_tick 9) ''acc'' ''d'' sample_pipeline = (res, p')" by fastforce
  note ap = p' [unfolded run]
  note new = append_event_Inr [OF app]
  have key: "3 = Suc (length (readStream sample_device_rows (stream ''acc'' IP_CLIENT ''d'')))" by (simp add: sample_device_load)
  note nxt = append_event_next [OF sample_device_wf(1) key app]
  have load: "loadAction (sample_device_rows @ [e]) ''acc'' ''a'' = loadAction sample_device_rows ''acc'' ''a''"
    unfolding loadAction_def loadAggregate_def by (simp add: nxt(3))
  have ids: "listAggregateIds (sample_device_rows @ [e]) ''acc'' ACTION = [''a'']"
    using new(2) by (simp add: listAggregateIds_def sample_device_defs in_stream_def uniq_def)
  show ?thesis
    by (rule that [OF p' announce_change_pipeline(1) [OF ap] ap _ nxt(1) load ids]) (simp add: new(4) sample_dns_action_def)
qed

lemma sample_settle:
  obtains p' where "settle sample_config calm_answers True (\<lambda>n. ''x'') (sample_tick 9) ''acc'' ''d'' sample_pipeline = (Inr (), p')"
proof -
  obtain res p' e where run: "settle sample_config calm_answers True (\<lambda>n. ''x'') (sample_tick 9) ''acc'' ''d'' sample_pipeline = (res, p')"
    and ap: "announce_change calm_answers True (\<lambda>n. ''x'') ''acc'' ''d'' (fst (loadIpClient sample_device_rows ''acc'' ''d''))
      \<lparr>ipv_ipv4 = Some ''1.2.3.4'', ipv_ipv6 = None\<rparr> e (sample_device_rows @ [e]) sample_pipeline = (res, p')"
    and load: "loadAction (sample_device_rows @ [e]) ''acc'' ''a'' = loadAction sample_device_rows ''acc'' ''a''"
    and ids: "listAggregateIds (sample_device_rows @ [e]) ''acc'' ACTION = [''a'']"
    by (rule sample_settle_recorded)
  have "res = Inr ()"
    using ap by (auto simp: announce_change_def calm_answers_def calm_fan_out_def fanOutActionExecutions_def Let_def ids case_prod_beta
        split: if_splits)
  with run that show ?thesis by simp
qed

lemma settle_announces_only_changes_witness:
  "\<exists>p' e. settle sample_config calm_answers True (\<lambda>n. ''x'') (sample_tick 9) ''acc'' ''d'' sample_pipeline = (Inr (), p')
    \<and> pp_rows p' = sample_device_rows @ [e]
    \<and> ipv_ipv4 (known_values (fst (loadIpClient (pp_rows p') ''acc'' ''d''))) = Some ''1.2.3.4''"
proof -
  obtain p' where run: "settle sample_config calm_answers True (\<lambda>n. ''x'') (sample_tick 9) ''acc'' ''d'' sample_pipeline = (Inr (), p')"
    by (rule sample_settle)
  have "wf_store (pp_rows sample_pipeline)" by (simp add: sample_pipeline_def sample_device_wf)
  from settle_announces_only_changes [OF this run] obtain e where "pp_rows p' = sample_device_rows @ [e]"
    "ipv_ipv4 (known_values (fst (loadIpClient (pp_rows p') ''acc'' ''d''))) = Some ''1.2.3.4''"
    by (auto simp: sample_pipeline_def sample_device_load sample_report initialIpClientState_def resolved_ips_def known_values_def)
  with run show ?thesis by blast
qed


definition sample_queue_add :: "ExecutionJob list \<Rightarrow> ExecutionJob \<Rightarrow> ExecutionJob list" where
  "sample_queue_add q j = (if xj_jobId j \<in> xj_jobId ` set q then q else q @ [j])"

definition sample_fan_out :: fan_out_params where
  "sample_fan_out = \<lparr>fo_accountId = ''acc'', fo_ipClientId = ''d'', fo_causationEventId = ''c'', fo_triggeredBy = ByIpChange,
     fo_ipValues = \<lparr>ipv_ipv4 = Some ''1.2.3.4'', ipv_ipv6 = None\<rparr>\<rparr>"

lemma fan_out_exact_witness:
  "\<exists>jobs jobs'. fanOutActionExecutions calm_fan_out (\<lambda>n. ''x'') sample_device_rows sample_fan_out = (Inr (), jobs)
   \<and> fanOutActionExecutions calm_fan_out (\<lambda>n. ''y'') sample_device_rows sample_fan_out = (Inr (), jobs')
   \<and> ''a'' \<in> ej_actionId ` xj_data ` set jobs
   \<and> foldl sample_queue_add (foldl sample_queue_add [] jobs) jobs' = foldl sample_queue_add [] jobs"
proof -
  have ids: "listAggregateIds sample_device_rows ''acc'' ACTION = [''a'']"
    by (simp add: listAggregateIds_def sample_device_defs uniq_def)
  have r: "runnable ''d'' (fst (loadAction sample_device_rows ''acc'' ''a''))"
    unfolding sample_action_load by (simp add: runnable_def initialActionState_def)
  have "fst (fanOutActionExecutions calm_fan_out f sample_device_rows sample_fan_out) = Inr ()" for f
    using r by (simp add: fanOutActionExecutions_def calm_fan_out_def sample_fan_out_def ids Let_def)
  then obtain jobs jobs' where run: "fanOutActionExecutions calm_fan_out (\<lambda>n. ''x'') sample_device_rows sample_fan_out = (Inr (), jobs)"
    "fanOutActionExecutions calm_fan_out (\<lambda>n. ''y'') sample_device_rows sample_fan_out = (Inr (), jobs')"
    by (metis prod.collapse)
  have "''a'' \<in> {a. runnable (fo_ipClientId sample_fan_out) (fst (loadAction sample_device_rows (fo_accountId sample_fan_out) a))}"
    using r by (simp add: sample_fan_out_def)
  moreover have "xj_jobId j \<in> xj_jobId ` set q \<Longrightarrow> sample_queue_add q j = q"
    and "xj_jobId ` set (sample_queue_add q j) = insert (xj_jobId j) (xj_jobId ` set q)" for q j
    by (auto simp: sample_queue_add_def)
  note fan_out_exact [where ids = "\<lambda>q. xj_jobId ` set q" and add = sample_queue_add and q = "[]", OF this run]
  ultimately show ?thesis using run by blast
qed

definition sample_settled_rows :: event_store where
  "sample_settled_rows = sample_device_rows @ [sample_row ''e4'' ''acc'' ''d'' 3 (sample_change ''1.2.3.4'')]"

lemma sample_settled_load:
  "fst (loadAction sample_settled_rows ''acc'' ''a'') = fst (loadAction sample_device_rows ''acc'' ''a'')"
  "ic_lastKnownIPv4 (fst (loadIpClient sample_settled_rows ''acc'' ''d'')) = Some ''1.2.3.4''"
  by (simp_all add: loadAction_def loadIpClient_def loadAggregate_def readStream_def in_stream_def sample_settled_rows_def
      sample_device_defs ipClientReducer_def sample_change_def)

lemma manual_run_outcome_witness:
  "\<exists>resp j. handle_run Done ''x'' ''y'' ''acc'' sample_settled_rows ''a'' = (resp, [j]) \<and> xj_jobId j = ''exec-manual-x''"
proof -
  obtain resp jobs where run: "handle_run Done ''x'' ''y'' ''acc'' sample_settled_rows ''a'' = (resp, jobs)" by fastforce
  from manual_run_outcome [OF run] run show ?thesis
    by (auto simp: sample_settled_load sample_action_load initialActionState_def)
qed

end
