(* ===== verification/ExecutionWorker.thy ===== *)
theory ExecutionWorker
  imports Pipeline Hetzner
begin

text \<open>
  The worker that runs one action execution (\<open>adapters/queue-bullmq/action-execution-worker.ts\<close>).

  The job is one attempt: the worker function applied to the job and the number of attempts made, with
  what it throws (BullMQ then retries). Its state is the event store, the executions read model, the log
  of requests to the providers and the notifications sent. Executors and notification channels are the
  tables the worker is created with; a Redis failure and what other processes append between a load and
  a write are arguments, so that every \<open>catch\<close> of the code is reached. \<open>tk n\<close> is the fresh id and the
  clock at the \<open>n\<close>th place that reads them.
\<close>

section \<open>State and dependencies\<close>

record notification_message =
  nm_addresses :: "string list"
  nm_subject :: string
  nm_body :: string

record worker_state =
  wk_rows :: event_store
  wk_redis :: "ExecutionSummary redis"
  wk_requests :: "http_request list"
  wk_mails :: "notification_message list"

datatype resolved_config =
    ResolvedDns HetznerDnsResolvedConfig
  | ResolvedFirewall HetznerFirewallResolvedConfig
  | ResolvedUndefined

type_synonym executor = "resolved_config \<Rightarrow> IpValuesUsed \<Rightarrow> http_request list \<Rightarrow> (exn + string) \<times> http_request list"

record worker_deps =
  wd_config :: Config
  wd_crypto :: crypto
  wd_executors :: "string \<Rightarrow> executor option"
  wd_channels :: "string \<Rightarrow> (notification_message \<Rightarrow> exn option) option"
  \<comment> \<open>the error of the \<open>n\<close>th projection update, if Redis fails\<close>
  wd_redisError :: "nat \<Rightarrow> exn option"
  \<comment> \<open>what others append between the load and the write of the action's own event\<close>
  wd_between :: "nat \<Rightarrow> event_store \<Rightarrow> event_store"
  wd_tick :: "nat \<Rightarrow> tick"

record job =
  jb_data :: ActionExecutionJobData
  jb_attemptsMade :: nat
  jb_attempts :: "int option"

fun error_message :: "exn \<Rightarrow> string" where
  "error_message (JsError m) = m"
| "error_message (ConcurrencyError t i n) =
     ''Concurrency conflict appending to '' @ t @ ''/'' @ i @ '' at sequence '' @ nat_to_string n"

section \<open>Writing\<close>

definition nextSequence :: "event_store \<Rightarrow> id \<Rightarrow> id \<Rightarrow> nat" where
  "nextSequence rows accountId executionId = snd (snd (loadExecution rows accountId executionId)) + 1"

definition appendExecutionEvent ::
  "worker_deps \<Rightarrow> tick \<Rightarrow> id \<Rightarrow> id \<Rightarrow> action_execution_event \<Rightarrow> worker_state \<Rightarrow> (exn + unit) \<times> worker_state" where
  "appendExecutionEvent deps tk accountId executionId d w =
     (case append_event (wd_config deps) tk (wk_rows w) (stream accountId ACTION_EXECUTION executionId)
             (nextSequence (wk_rows w) accountId executionId) (ExecutionEv d) of
        Inl err \<Rightarrow> (Inl err, w)
      | Inr (e, rows) \<Rightarrow> (Inr (), w\<lparr>wk_rows := rows\<rparr>))"

definition refreshExecutionProjection ::
  "worker_deps \<Rightarrow> nat \<Rightarrow> id \<Rightarrow> id \<Rightarrow> worker_state \<Rightarrow> (exn + unit) \<times> worker_state" where
  "refreshExecutionProjection deps n accountId executionId w =
     (let state = fst (loadExecution (wk_rows w) accountId executionId) in
      case wd_redisError deps n of
        Some err \<Rightarrow> (Inl err, w)
      | None \<Rightarrow> (Inr (), w\<lparr>wk_redis := upsertExecutionProjection (wk_redis w) accountId state\<rparr>))"

text \<open>Sequencing: the next step runs unless the first one threw.\<close>

definition and_then ::
  "(exn + unit) \<times> 'w \<Rightarrow> ('w \<Rightarrow> (exn + unit) \<times> 'w) \<Rightarrow> (exn + unit) \<times> 'w" where
  "and_then r next_step = (case r of (Inl err, w) \<Rightarrow> (Inl err, w) | (Inr u, w) \<Rightarrow> next_step w)"

section \<open>Notifications\<close>

fun outcome_name :: "outcome \<Rightarrow> string" where
  "outcome_name Succeeded = ''succeeded''"
| "outcome_name Failed = ''failed''"

definition wants_notification :: "notification_preference \<Rightarrow> outcome \<Rightarrow> bool" where
  "wants_notification preference outcome =
     (if preference = PrefOff then False
      else if preference = PrefFailuresOnly \<and> outcome = Succeeded then False
      else True)"

definition notification_for :: "NotificationChannelState \<Rightarrow> id \<Rightarrow> id \<Rightarrow> outcome \<Rightarrow> notification_message" where
  "notification_for channelState ipClientId executionId outcome =
     \<lparr>nm_addresses = nc_addresses channelState,
      nm_subject = ''FluxIP: Action execution '' @ outcome_name outcome,
      nm_body = ''Execution '' @ executionId @ '' for IP Client '' @ ipClientId @ '' '' @ outcome_name outcome @ ''.''\<rparr>"

definition usable_channel :: "NotificationChannelState \<Rightarrow> bool" where
  "usable_channel channelState = (truthy (nc_channelId channelState) \<and> nc_status channelState = ChActive
     \<and> length (nc_addresses channelState) \<noteq> 0)"

text \<open>Everything thrown inside is logged only, so the result is the new state.\<close>

definition maybeSendNotification ::
  "worker_deps \<Rightarrow> tick \<Rightarrow> id \<Rightarrow> id \<Rightarrow> id \<Rightarrow> outcome \<Rightarrow> worker_state \<Rightarrow> worker_state" where
  "maybeSendNotification deps tk accountId ipClientId executionId outcome w =
     (let preference = ic_notificationPreference (fst (loadIpClient (wk_rows w) accountId ipClientId)) in
      if \<not> wants_notification preference outcome then w
      else (let channelState = fst (loadChannel (wk_rows w) accountId) in
        if \<not> usable_channel channelState then w
        else (case wd_channels deps (nc_type channelState) of
            None \<Rightarrow> w
          | Some send \<Rightarrow>
             (let message = notification_for channelState ipClientId executionId outcome in
              case send message of
                Some err \<Rightarrow> w
              | None \<Rightarrow> snd (appendExecutionEvent deps tk accountId executionId
                  (ExecutionNotificationSent \<lparr>nts_channelId = the (nc_channelId channelState),
                     nts_outcomeNotified = outcome, nts_sentAt = tk_now tk\<rparr>)
                  (w\<lparr>wk_mails := wk_mails w @ [message]\<rparr>))))))"

section \<open>Executor configuration\<close>

definition usable_credential :: "event_store \<Rightarrow> id \<Rightarrow> id option \<Rightarrow> string option" where
  "usable_credential rows accountId credentialId = (case credentialId of
       None \<Rightarrow> None
     | Some c \<Rightarrow> (let credentialState = fst (loadCredential rows accountId c) in
         if \<not> truthy (pc_encryptedSecret credentialState) \<or> pc_status credentialState \<noteq> CrActive then None
         else pc_encryptedSecret credentialState))"

definition resolve_token :: "worker_deps \<Rightarrow> event_store \<Rightarrow> id \<Rightarrow> id option \<Rightarrow> exn + string" where
  "resolve_token deps rows accountId credentialId = (case usable_credential rows accountId credentialId of
       None \<Rightarrow> Inl (JsError ''Provider Credential is missing or has been revoked'')
     | Some encrypted \<Rightarrow> decryptSecret (wd_crypto deps) encrypted (cfg_credentialEncryptionKey (wd_config deps)))"

text \<open>\<open>s.replace(/^https?:\/\//, "")\<close>\<close>

definition strip_protocol :: "string \<Rightarrow> string" where
  "strip_protocol s = (if take 7 s = ''http://'' then drop 7 s else if take 8 s = ''https://'' then drop 8 s else s)"

definition resolveDnsExecutorConfig ::
  "worker_deps \<Rightarrow> event_store \<Rightarrow> id \<Rightarrow> ActionConfig \<Rightarrow> exn + HetznerDnsResolvedConfig" where
  "resolveDnsExecutorConfig deps rows accountId config =
     (case resolve_token deps rows accountId (cf_providerCredentialId config) of
        Inl err \<Rightarrow> Inl err
      | Inr apiToken \<Rightarrow> Inr \<lparr>dn_apiToken = apiToken, dn_zoneName = cf_zone config, dn_recordName = cf_recordName config,
          dn_sourceLabel = strip_protocol (cfg_cloudEventsSource (wd_config deps))\<rparr>)"

definition firewall_selector :: "ActionConfig \<Rightarrow> RuleSelector" where
  "firewall_selector config = \<lparr>sel_direction = cf_direction config, sel_protocol = cf_protocol config,
     sel_port = cf_port config, sel_description = cf_description config\<rparr>"

definition resolveFirewallExecutorConfig ::
  "worker_deps \<Rightarrow> event_store \<Rightarrow> id \<Rightarrow> ActionConfig \<Rightarrow> OwnedEntries \<Rightarrow> exn + HetznerFirewallResolvedConfig" where
  "resolveFirewallExecutorConfig deps rows accountId config previousEntries =
     (case resolve_token deps rows accountId (cf_providerCredentialId config) of
        Inl err \<Rightarrow> Inl err
      | Inr apiToken \<Rightarrow> Inr \<lparr>hf_apiToken = apiToken, hf_accountId = accountId, hf_firewallId = cf_firewallId config,
          hf_selector = firewall_selector config, hf_previousEntries = previousEntries\<rparr>)"

definition resolve_config :: "worker_deps \<Rightarrow> event_store \<Rightarrow> id \<Rightarrow> ActionState \<Rightarrow> ActionConfig \<Rightarrow> exn + resolved_config" where
  "resolve_config deps rows accountId actionState config =
     (if ac_type actionState = Some HETZNER_CLOUD_DNS_UPDATE_ACTION_TYPE
      then (case resolveDnsExecutorConfig deps rows accountId config of
          Inl err \<Rightarrow> Inl err | Inr r \<Rightarrow> Inr (ResolvedDns r))
      else if ac_type actionState = Some HETZNER_CLOUD_FIREWALL_RULE_UPDATE_ACTION_TYPE
      then (case resolveFirewallExecutorConfig deps rows accountId config (ac_firewallOwnedEntries actionState) of
          Inl err \<Rightarrow> Inl err | Inr r \<Rightarrow> Inr (ResolvedFirewall r))
      else Inr ResolvedUndefined)"

section \<open>Recording what a firewall update owns\<close>

definition firewall_applied_data :: "id \<Rightarrow> IpValuesUsed \<Rightarrow> timestamp \<Rightarrow> ActionFirewallRuleAppliedData" where
  "firewall_applied_data actionId ipValues now = \<lparr>fra_actionId = actionId,
     fra_ipv4 = (if truthy (ipv_ipv4 ipValues) then Some (toCidr (the (ipv_ipv4 ipValues)) IPv4) else None),
     fra_ipv6 = (if truthy (ipv_ipv6 ipValues) then Some (toCidr (the (ipv_ipv6 ipValues)) IPv6) else None),
     fra_appliedAt = now\<rparr>"

definition firewall_applied_attempt ::
  "worker_deps \<Rightarrow> tick \<Rightarrow> nat \<Rightarrow> id \<Rightarrow> id \<Rightarrow> ActionFirewallRuleAppliedData \<Rightarrow> event_store \<Rightarrow> (exn + unit) \<times> event_store" where
  "firewall_applied_attempt deps tk attempt accountId actionId d rows =
     (let version = snd (snd (loadAction rows accountId actionId)); rows' = wd_between deps attempt rows in
      case append_event (wd_config deps) tk rows' (stream accountId ACTION actionId) (version + 1)
             (ActionEv (ActionFirewallRuleApplied d)) of
        Inl err \<Rightarrow> (Inl err, rows')
      | Inr (e, rows'') \<Rightarrow> (Inr (), rows''))"

definition appendFirewallRuleAppliedEventBestEffort ::
  "worker_deps \<Rightarrow> id \<Rightarrow> id \<Rightarrow> IpValuesUsed \<Rightarrow> worker_state \<Rightarrow> worker_state" where
  "appendFirewallRuleAppliedEventBestEffort deps accountId actionId ipValues w =
     (let d = firewall_applied_data actionId ipValues (tk_now (wd_tick deps 2)) in
      case firewall_applied_attempt deps (wd_tick deps 2) 0 accountId actionId d (wk_rows w) of
        (Inr u, rows) \<Rightarrow> w\<lparr>wk_rows := rows\<rparr>
      | (Inl err, rows) \<Rightarrow>
          (if is_conflict err
           then w\<lparr>wk_rows := snd (firewall_applied_attempt deps (wd_tick deps 3) 1 accountId actionId d rows)\<rparr>
           else w\<lparr>wk_rows := rows\<rparr>))"

section \<open>One attempt\<close>

definition started_data :: "job \<Rightarrow> timestamp \<Rightarrow> ActionExecutionStartedData" where
  "started_data j now = \<lparr>sta_executionId = ej_executionId (jb_data j), sta_accountId = ej_accountId (jb_data j),
     sta_actionId = ej_actionId (jb_data j), sta_ipClientId = ej_ipClientId (jb_data j),
     sta_triggeredBy = ej_triggeredBy (jb_data j), sta_causationEventId = ej_causationEventId (jb_data j),
     sta_ipValuesUsed = ej_ipValues (jb_data j), sta_attempt = jb_attemptsMade j + 1, sta_startedAt = now\<rparr>"

definition missing_family :: "ActionState \<Rightarrow> IpValuesUsed \<Rightarrow> bool" where
  "missing_family actionState ipValues = list_ex (\<lambda>family. \<not> truthy (ip_of_family ipValues family)) (ac_addressFamilies actionState)"

definition relevant_ips :: "ActionState \<Rightarrow> IpValuesUsed \<Rightarrow> IpValuesUsed" where
  "relevant_ips actionState ipValues =
     \<lparr>ipv_ipv4 = (if IPv4 \<in> set (ac_addressFamilies actionState) then ipv_ipv4 ipValues else None),
      ipv_ipv6 = (if IPv6 \<in> set (ac_addressFamilies actionState) then ipv_ipv6 ipValues else None)\<rparr>"

text \<open>A failed execution: the event, the projection and, if wanted, the notification.\<close>

definition record_failure ::
  "worker_deps \<Rightarrow> nat \<Rightarrow> nat \<Rightarrow> job \<Rightarrow> string \<Rightarrow> bool \<Rightarrow> worker_state \<Rightarrow> (exn + unit) \<times> worker_state" where
  "record_failure deps n r j message exhausted w =
     (let accountId = ej_accountId (jb_data j); executionId = ej_executionId (jb_data j) in
      and_then (appendExecutionEvent deps (wd_tick deps n) accountId executionId
          (ExecutionFailed \<lparr>fai_attempt = jb_attemptsMade j + 1, fai_error = message,
             fai_retriesExhausted = exhausted, fai_failedAt = tk_now (wd_tick deps n)\<rparr>) w)
        (\<lambda>w. and_then (refreshExecutionProjection deps r accountId executionId w)
        (\<lambda>w. (Inr (), if exhausted
          then maybeSendNotification deps (wd_tick deps (Suc n)) accountId (ej_ipClientId (jb_data j)) executionId Failed w
          else w))))"

text \<open>The body of the \<open>try\<close>.\<close>

definition attempt_body ::
  "worker_deps \<Rightarrow> job \<Rightarrow> ActionState \<Rightarrow> ActionConfig \<Rightarrow> executor \<Rightarrow> worker_state \<Rightarrow> (exn + unit) \<times> worker_state" where
  "attempt_body deps j actionState config execute w =
     (let accountId = ej_accountId (jb_data j); executionId = ej_executionId (jb_data j);
          relevantIpValues = relevant_ips actionState (ej_ipValues (jb_data j))
      in case resolve_config deps (wk_rows w) accountId actionState config of
           Inl err \<Rightarrow> (Inl err, w)
         | Inr resolvedConfig \<Rightarrow>
             (case execute resolvedConfig relevantIpValues (wk_requests w) of
                (Inl err, requests) \<Rightarrow> (Inl err, w\<lparr>wk_requests := requests\<rparr>)
              | (Inr summary, requests) \<Rightarrow>
                  and_then (appendExecutionEvent deps (wd_tick deps 1) accountId executionId
                      (ExecutionSucceeded \<lparr>suc_completedAt = tk_now (wd_tick deps 1), suc_providerResponseSummary = summary\<rparr>)
                      (w\<lparr>wk_requests := requests\<rparr>))
                    (\<lambda>w. let w = (if ac_type actionState = Some HETZNER_CLOUD_FIREWALL_RULE_UPDATE_ACTION_TYPE
                          then appendFirewallRuleAppliedEventBestEffort deps accountId (ej_actionId (jb_data j)) relevantIpValues w
                          else w) in
                      and_then (refreshExecutionProjection deps 0 accountId executionId w)
                        (\<lambda>w. (Inr (), maybeSendNotification deps (wd_tick deps 4) accountId (ej_ipClientId (jb_data j))
                           executionId Succeeded w)))))"

definition is_final_attempt :: "job \<Rightarrow> bool" where
  "is_final_attempt j = (int (jb_attemptsMade j) + 1 \<ge> nullish_or (jb_attempts j) 1)"

definition run_attempt ::
  "worker_deps \<Rightarrow> job \<Rightarrow> ActionState \<Rightarrow> ActionConfig \<Rightarrow> executor \<Rightarrow> worker_state \<Rightarrow> (exn + unit) \<times> worker_state" where
  "run_attempt deps j actionState config execute w =
     (case attempt_body deps j actionState config execute w of
        (Inr u, w) \<Rightarrow> (Inr u, w)
      | (Inl err, w) \<Rightarrow>
          and_then (record_failure deps 5 1 j (error_message err) (is_final_attempt j) w) (\<lambda>w. (Inl err, w)))"

definition run_execution :: "worker_deps \<Rightarrow> job \<Rightarrow> worker_state \<Rightarrow> (exn + unit) \<times> worker_state" where
  "run_execution deps j w =
     (let accountId = ej_accountId (jb_data j); executionId = ej_executionId (jb_data j) in
      and_then (appendExecutionEvent deps (wd_tick deps 0) accountId executionId
          (ExecutionStarted (started_data j (tk_now (wd_tick deps 0)))) w)
        (\<lambda>w. let actionState = fst (loadAction (wk_rows w) accountId (ej_actionId (jb_data j))) in
          if \<not> truthy (ac_actionId actionState) \<or> ac_status actionState \<noteq> ActEnabled
             \<or> ac_config actionState = None \<or> \<not> truthy (ac_type actionState)
          then (Inr (), w)
          else if missing_family actionState (ej_ipValues (jb_data j))
          then record_failure deps 5 1 j ''Required address family missing from the reported IP change'' True w
          else (case wd_executors deps (the (ac_type actionState)) of
              None \<Rightarrow> (Inl (JsError (''No ActionExecutor registered for type \"'' @ the (ac_type actionState) @ ''\"'')), w)
            | Some execute \<Rightarrow> run_attempt deps j actionState (the (ac_config actionState)) execute w)))"

text \<open>The table the application creates the worker with (\<open>main.ts\<close>).\<close>

definition dns_executor :: "(string \<Rightarrow> exn + json) \<Rightarrow> server \<Rightarrow> (nat \<Rightarrow> string) \<Rightarrow> executor" where
  "dns_executor parse server nowIso resolved ips log = (case resolved of
       ResolvedDns config \<Rightarrow> dns_execute parse server nowIso config ips log
     | _ \<Rightarrow> (Inl type_error, log))"

definition firewall_executor :: "(string \<Rightarrow> exn + json) \<Rightarrow> server \<Rightarrow> (exn + unit) \<Rightarrow> exn option \<Rightarrow> executor" where
  "firewall_executor parse server acquired released resolved ips log = (case resolved of
       ResolvedFirewall config \<Rightarrow> firewall_execute parse server acquired released config ips log
     | _ \<Rightarrow> (Inl type_error, log))"

definition application_executors ::
  "(string \<Rightarrow> exn + json) \<Rightarrow> server \<Rightarrow> (nat \<Rightarrow> string) \<Rightarrow> (exn + unit) \<Rightarrow> exn option \<Rightarrow> string \<Rightarrow> executor option" where
  "application_executors parse server nowIso acquired released = map_of
     [(HETZNER_CLOUD_DNS_UPDATE_ACTION_TYPE, dns_executor parse server nowIso),
      (HETZNER_CLOUD_FIREWALL_RULE_UPDATE_ACTION_TYPE, firewall_executor parse server acquired released)]"

section \<open>Lemmas\<close>

lemma and_then_simps [simp]: "and_then (Inl err, w) f = (Inl err, w)" "and_then (Inr u, w) f = f w"
  by (simp_all add: and_then_def)

lemma nextSequence_eq: "nextSequence rows acc ex = Suc (length (readStream rows (stream acc ACTION_EXECUTION ex)))"
  by (simp add: nextSequence_def loadExecution_def loadAggregate_def Let_def)

text \<open>
  A store in which the appends numbered \<open>n\<close> and later succeed: well formed, the execution's stream
  belongs to the account, and the ids still to be drawn are new.
\<close>

definition ready :: "worker_deps \<Rightarrow> id \<Rightarrow> id \<Rightarrow> nat \<Rightarrow> event_store \<Rightarrow> bool" where
  "ready deps acc ex n rows = (wf_store rows
     \<and> (\<forall>r \<in> set (aggregate_rows rows ACTION_EXECUTION ex). ev_accountId r = acc)
     \<and> (\<forall>m \<ge> n. tk_id (wd_tick deps m) \<notin> ev_id ` set rows) \<and> inj (\<lambda>m. tk_id (wd_tick deps m)))"

lemma ready_mono: "ready deps acc ex n rows \<Longrightarrow> n \<le> m \<Longrightarrow> ready deps acc ex m rows"
  by (auto simp: ready_def)

lemma ready_append:
  assumes "ready deps acc ex n rows" and "n \<le> m"
    and "append_event (wd_config deps) (wd_tick deps m) rows k (Suc (length (readStream rows k))) d = Inr (e, rows @ [e])"
    and "key_accountId k = acc"
  shows "ready deps acc ex (Suc m) (rows @ [e])"
proof -
  have parts: "wf_store rows" "inj (\<lambda>m. tk_id (wd_tick deps m))" "\<forall>i \<ge> n. tk_id (wd_tick deps i) \<notin> ev_id ` set rows"
    "\<forall>r \<in> set (aggregate_rows rows ACTION_EXECUTION ex). ev_accountId r = acc"
    using assms(1) by (auto simp: ready_def)
  note new = append_event_Inr [OF assms(3)]
  have id: "ev_id e = tk_id (wd_tick deps m)" by (rule new(5))
  have "tk_id (wd_tick deps i) \<notin> ev_id ` set (rows @ [e])" if "Suc m \<le> i" for i
  proof -
    have "tk_id (wd_tick deps i) \<noteq> tk_id (wd_tick deps m)" using that injD [OF parts(2), of i m] by auto
    with parts(3) that assms(2) show ?thesis by (auto simp: id)
  qed
  moreover have "wf_store (rows @ [e])" by (rule append_event_next(1) [OF parts(1) refl assms(3)])
  moreover have "ev_accountId e = acc" using new(2) assms(4) by (simp add: in_stream_def)
  then have "\<forall>r \<in> set (aggregate_rows (rows @ [e]) ACTION_EXECUTION ex). ev_accountId r = acc"
    using parts(4) by (auto simp: aggregate_rows_def)
  ultimately show ?thesis using parts(2) by (auto simp: ready_def)
qed

lemma append_execution_ready:
  assumes "ready deps acc ex n (wk_rows w)" and "n \<le> m"
  obtains e where "appendExecutionEvent deps (wd_tick deps m) acc ex d w = (Inr (), w\<lparr>wk_rows := wk_rows w @ [e]\<rparr>)"
    and "ready deps acc ex (Suc m) (wk_rows w @ [e])"
    and "fst (loadExecution (wk_rows w @ [e]) acc ex) = action_execution_apply (fst (loadExecution (wk_rows w) acc ex)) (ExecutionEv d)"
    and "in_stream (stream acc ACTION_EXECUTION ex) e" and "ev_data e = ExecutionEv d"
proof -
  let ?k = "stream acc ACTION_EXECUTION ex"
  from assms have wf: "wf_store (wk_rows w)" and fresh: "tk_id (wd_tick deps m) \<notin> ev_id ` set (wk_rows w)"
    and mine: "\<forall>r \<in> set (aggregate_rows (wk_rows w) ACTION_EXECUTION ex). ev_accountId r = acc"
    by (auto simp: ready_def)
  obtain e where e: "append_event (wd_config deps) (wd_tick deps m) (wk_rows w) ?k (Suc (length (readStream (wk_rows w) ?k)))
      (ExecutionEv d) = Inr (e, wk_rows w @ [e])"
    by (rule append_alone [OF wf fresh mine])
  have load: "fst (loadExecution (wk_rows w @ [e]) acc ex) = action_execution_apply (fst (loadExecution (wk_rows w) acc ex)) (ExecutionEv d)"
    using append_event_next(2) [OF wf refl e] append_event_Inr(4) [OF e]
    by (simp add: loadExecution_def loadAggregate_def Let_def actionExecutionReducer_def)
  show ?thesis
    by (rule that [OF _ ready_append [OF assms e] load])
      (use e append_event_Inr(2,4) [OF e] in \<open>simp_all add: appendExecutionEvent_def nextSequence_eq\<close>)
qed

text \<open>Events of an execution leave every other aggregate as it was.\<close>

lemma loads_other:
  assumes "in_stream (stream acc ACTION_EXECUTION ex) e"
  shows "fst (loadAction (rows @ [e]) acc' a) = fst (loadAction rows acc' a)"
    and "fst (loadIpClient (rows @ [e]) acc' a) = fst (loadIpClient rows acc' a)"
    and "fst (loadChannel (rows @ [e]) acc') = fst (loadChannel rows acc')"
    and "fst (loadCredential (rows @ [e]) acc' a) = fst (loadCredential rows acc' a)"
  using assms
  by (simp_all add: load_defs Let_def readStream_other in_stream_def)

lemma resolve_config_cong:
  "(\<And>c. fst (loadCredential rows acc c) = fst (loadCredential rows' acc c)) \<Longrightarrow>
   resolve_config deps rows acc st config = resolve_config deps rows' acc st config"
  by (simp add: resolve_config_def resolveDnsExecutorConfig_def resolveFirewallExecutorConfig_def resolve_token_def
      usable_credential_def split: option.split)

lemma maybeSend_keeps:
  fixes i out
  assumes "ready deps acc ex n (wk_rows w)" and "n \<le> m"
  defines "w' \<equiv> maybeSendNotification deps (wd_tick deps m) acc i ex out w"
  shows "fst (loadExecution (wk_rows w') acc ex) = fst (loadExecution (wk_rows w) acc ex)"
    and "wk_requests w' = wk_requests w"
proof -
  have app: "fst (loadExecution (wk_rows (snd (appendExecutionEvent deps (wd_tick deps m) acc ex (ExecutionNotificationSent d)
        (w\<lparr>wk_mails := ms\<rparr>)))) acc ex) = fst (loadExecution (wk_rows w) acc ex)
      \<and> wk_requests (snd (appendExecutionEvent deps (wd_tick deps m) acc ex (ExecutionNotificationSent d) (w\<lparr>wk_mails := ms\<rparr>))) = wk_requests w"
    for d ms
  proof -
    have ready': "ready deps acc ex n (wk_rows (w\<lparr>wk_mails := ms\<rparr>))" using assms(1) by simp
    obtain e where "appendExecutionEvent deps (wd_tick deps m) acc ex (ExecutionNotificationSent d) (w\<lparr>wk_mails := ms\<rparr>) =
        (Inr (), (w\<lparr>wk_mails := ms\<rparr>)\<lparr>wk_rows := wk_rows (w\<lparr>wk_mails := ms\<rparr>) @ [e]\<rparr>)"
      "fst (loadExecution (wk_rows (w\<lparr>wk_mails := ms\<rparr>) @ [e]) acc ex) =
        action_execution_apply (fst (loadExecution (wk_rows (w\<lparr>wk_mails := ms\<rparr>)) acc ex)) (ExecutionEv (ExecutionNotificationSent d))"
      by (rule append_execution_ready [OF ready' assms(2), where d = "ExecutionNotificationSent d"]) blast
    then show ?thesis by simp
  qed
  show "fst (loadExecution (wk_rows w') acc ex) = fst (loadExecution (wk_rows w) acc ex)" "wk_requests w' = wk_requests w"
    unfolding w'_def maybeSendNotification_def Let_def by (simp_all add: app split: option.split)
qed

lemma applied_event_keeps:
  fixes a ips
  assumes "ready deps acc ex n (wk_rows w)" and "n \<le> 2" and alone: "wd_between deps = (\<lambda>n r. r)"
  defines "w' \<equiv> appendFirewallRuleAppliedEventBestEffort deps acc a ips w"
  shows "ready deps acc ex 4 (wk_rows w')" and "fst (loadExecution (wk_rows w') acc ex) = fst (loadExecution (wk_rows w) acc ex)"
    and "wk_requests w' = wk_requests w"
proof -
  let ?k = "stream acc ACTION a"
  have attempt: "ready deps acc ex (Suc m) rows' \<and> fst (loadExecution rows' acc ex) = fst (loadExecution rows acc ex)"
    if "ready deps acc ex m rows" "firewall_applied_attempt deps (wd_tick deps m) at acc a d rows = (res, rows')" for m at d rows res rows'
  proof (cases rule: append_event_cases [of "wd_config deps" "wd_tick deps m" rows ?k "Suc (length (readStream rows ?k))"
        "ActionEv (ActionFirewallRuleApplied d)"])
    case conflict
    with that have "rows' = rows" by (auto simp: firewall_applied_attempt_def alone loadAction_def loadAggregate_def Let_def)
    with that(1) show ?thesis by (auto intro: ready_mono)
  next
    case (appended e)
    with that have "rows' = rows @ [e]" by (auto simp: firewall_applied_attempt_def alone loadAction_def loadAggregate_def Let_def)
    moreover have "readStream (rows @ [e]) (stream acc ACTION_EXECUTION ex) = readStream rows (stream acc ACTION_EXECUTION ex)"
      using append_event_Inr(2) [OF appended] by (intro readStream_other) (auto simp: in_stream_def)
    ultimately show ?thesis using ready_append [OF that(1) order_refl appended]
      by (simp add: loadExecution_def loadAggregate_def Let_def)
  qed
  obtain res rows1 where first: "firewall_applied_attempt deps (wd_tick deps 2) 0 acc a
      (firewall_applied_data a ips (tk_now (wd_tick deps 2))) (wk_rows w) = (res, rows1)" by fastforce
  note one = attempt [OF ready_mono [OF assms(1,2)] first]
  obtain res2 rows2 where second: "firewall_applied_attempt deps (wd_tick deps 3) 1 acc a
      (firewall_applied_data a ips (tk_now (wd_tick deps 2))) rows1 = (res2, rows2)" by fastforce
  have three: "ready deps acc ex 3 rows1" using one by (simp add: numeral_3_eq_3 numeral_2_eq_2)
  note two = attempt [OF this second]
  have "Suc 3 = (4 :: nat)" by simp
  then show "ready deps acc ex 4 (wk_rows w')" "fst (loadExecution (wk_rows w') acc ex) = fst (loadExecution (wk_rows w) acc ex)"
    "wk_requests w' = wk_requests w"
    unfolding w'_def appendFirewallRuleAppliedEventBestEffort_def Let_def first
    using one two ready_mono [OF three, of 4] by (auto simp: second [simplified] split: sum.split)
qed

lemma record_failure_ready:
  assumes "ready deps (ej_accountId (jb_data j)) (ej_executionId (jb_data j)) n (wk_rows w)" and "n \<le> m" and "wd_redisError deps r = None"
  shows "\<exists>w'. record_failure deps m r j msg exhausted w = (Inr (), w') \<and> wk_requests w' = wk_requests w
    \<and> fst (loadExecution (wk_rows w') (ej_accountId (jb_data j)) (ej_executionId (jb_data j))) =
      (fst (loadExecution (wk_rows w) (ej_accountId (jb_data j)) (ej_executionId (jb_data j))))
        \<lparr>ex_status := ExFailed, ex_attempt := jb_attemptsMade j + 1, ex_error := Some msg,
         ex_failedAt := Some (tk_now (wd_tick deps m))\<rparr>"
proof -
  let ?acc = "ej_accountId (jb_data j)" and ?ex = "ej_executionId (jb_data j)"
  let ?d = "ExecutionFailed \<lparr>fai_attempt = jb_attemptsMade j + 1, fai_error = msg, fai_retriesExhausted = exhausted,
    fai_failedAt = tk_now (wd_tick deps m)\<rparr>"
  obtain e where e: "appendExecutionEvent deps (wd_tick deps m) ?acc ?ex ?d w = (Inr (), w\<lparr>wk_rows := wk_rows w @ [e]\<rparr>)"
    "ready deps ?acc ?ex (Suc m) (wk_rows w @ [e])"
    "fst (loadExecution (wk_rows w @ [e]) ?acc ?ex) = action_execution_apply (fst (loadExecution (wk_rows w) ?acc ?ex)) (ExecutionEv ?d)"
    by (rule append_execution_ready [OF assms(1,2), where d = ?d]) blast
  let ?w1 = "w\<lparr>wk_rows := wk_rows w @ [e], wk_redis := upsertExecutionProjection (wk_redis w) ?acc
    (fst (loadExecution (wk_rows w @ [e]) ?acc ?ex))\<rparr>"
  have run: "record_failure deps m r j msg exhausted w = (Inr (), if exhausted
      then maybeSendNotification deps (wd_tick deps (Suc m)) ?acc (ej_ipClientId (jb_data j)) ?ex Failed ?w1 else ?w1)"
    unfolding record_failure_def Let_def e(1) and_then_simps refreshExecutionProjection_def assms(3) option.case by simp
  have "ready deps ?acc ?ex (Suc m) (wk_rows ?w1)" using e(2) by simp
  note sent = maybeSend_keeps [OF this order_refl, of "ej_ipClientId (jb_data j)" Failed]
  show ?thesis
    unfolding run using sent e(3) by (cases exhausted) simp_all
qed

lemma run_attempt_ready:
  fixes j w st config execute
  defines "acc \<equiv> ej_accountId (jb_data j)" and "ex \<equiv> ej_executionId (jb_data j)"
  assumes "ready deps acc ex 1 (wk_rows w)" and "wd_between deps = (\<lambda>n r. r)" and "wd_redisError deps 1 = None"
    and "run_attempt deps j st config execute w = (res, w')"
  shows "let final = fst (loadExecution (wk_rows w') acc ex); failed = (\<lambda>err. res = Inl err \<and> ex_status final = ExFailed
        \<and> ex_error final = Some (error_message err) \<and> ex_attempt final = jb_attemptsMade j + 1) in
    case resolve_config deps (wk_rows w) acc st config of
      Inl err \<Rightarrow> failed err \<and> wk_requests w' = wk_requests w
    | Inr rc \<Rightarrow> (case execute rc (relevant_ips st (ej_ipValues (jb_data j))) (wk_requests w) of
        (Inl err, requests) \<Rightarrow> failed err \<and> wk_requests w' = requests
      | (Inr summary, requests) \<Rightarrow> wk_requests w' = requests \<and> (case wd_redisError deps 0 of
          Some err \<Rightarrow> failed err
        | None \<Rightarrow> res = Inr () \<and> ex_status final = ExSucceeded \<and> ex_error final = None
            \<and> ex_attempt final = ex_attempt (fst (loadExecution (wk_rows w) acc ex))))"
proof -
  have caught: "res = Inl err \<and> ex_status (fst (loadExecution (wk_rows w') acc ex)) = ExFailed
      \<and> ex_error (fst (loadExecution (wk_rows w') acc ex)) = Some (error_message err)
      \<and> ex_attempt (fst (loadExecution (wk_rows w') acc ex)) = jb_attemptsMade j + 1 \<and> wk_requests w' = wk_requests w1"
    if "attempt_body deps j st config execute w = (Inl err, w1)" "ready deps acc ex n (wk_rows w1)" "n \<le> 5" for err w1 n
  proof -
    note hyps = that
    obtain w2 where w2: "record_failure deps 5 1 j (error_message err) (is_final_attempt j) w1 = (Inr (), w2)"
      "wk_requests w2 = wk_requests w1"
      "fst (loadExecution (wk_rows w2) acc ex) = (fst (loadExecution (wk_rows w1) acc ex))\<lparr>ex_status := ExFailed,
         ex_attempt := jb_attemptsMade j + 1, ex_error := Some (error_message err), ex_failedAt := Some (tk_now (wd_tick deps 5))\<rparr>"
      using record_failure_ready [OF hyps(2) [unfolded acc_def ex_def] hyps(3) assms(5)] unfolding acc_def ex_def by blast
    then show ?thesis using assms(6) hyps(1) by (auto simp: run_attempt_def)
  qed
  show ?thesis
  proof (cases "resolve_config deps (wk_rows w) acc st config")
    case (Inl err)
    then have "attempt_body deps j st config execute w = (Inl err, w)" by (simp add: attempt_body_def Let_def acc_def)
    from caught [OF this assms(3)] Inl show ?thesis by simp
  next
    case (Inr rc)
    obtain r requests where run: "execute rc (relevant_ips st (ej_ipValues (jb_data j))) (wk_requests w) = (r, requests)" by fastforce
    show ?thesis
    proof (cases r)
      case (Inl err)
      with Inr run have "attempt_body deps j st config execute w = (Inl err, w\<lparr>wk_requests := requests\<rparr>)"
        by (simp add: attempt_body_def Let_def acc_def)
      from caught [OF this, of 1] assms(3) Inr Inl run show ?thesis by simp
    next
      case (Inr summary)
      let ?d = "ExecutionSucceeded \<lparr>suc_completedAt = tk_now (wd_tick deps 1), suc_providerResponseSummary = summary\<rparr>"
      let ?w0 = "w\<lparr>wk_requests := requests\<rparr>"
      have "ready deps acc ex 1 (wk_rows ?w0)" using assms(3) by simp
      then obtain e where e: "appendExecutionEvent deps (wd_tick deps 1) acc ex ?d ?w0 = (Inr (), ?w0\<lparr>wk_rows := wk_rows ?w0 @ [e]\<rparr>)"
        "ready deps acc ex (Suc 1) (wk_rows ?w0 @ [e])"
        "fst (loadExecution (wk_rows ?w0 @ [e]) acc ex) = action_execution_apply (fst (loadExecution (wk_rows ?w0) acc ex)) (ExecutionEv ?d)"
        by (rule append_execution_ready [where d = ?d, OF _ order_refl]) blast
      let ?w1 = "?w0\<lparr>wk_rows := wk_rows w @ [e]\<rparr>"
      define w2 where "w2 = (if ac_type st = Some HETZNER_CLOUD_FIREWALL_RULE_UPDATE_ACTION_TYPE
        then appendFirewallRuleAppliedEventBestEffort deps acc (ej_actionId (jb_data j)) (relevant_ips st (ej_ipValues (jb_data j))) ?w1 else ?w1)"
      have r1: "ready deps acc ex 2 (wk_rows ?w1)" using e(2) by (simp add: numeral_2_eq_2)
      have w2: "ready deps acc ex 4 (wk_rows w2)" "fst (loadExecution (wk_rows w2) acc ex) = fst (loadExecution (wk_rows ?w1) acc ex)"
        "wk_requests w2 = requests"
        using applied_event_keeps [OF r1 order_refl assms(4)] ready_mono [OF r1, of 4] unfolding w2_def by auto
      have body: "attempt_body deps j st config execute w = (case wd_redisError deps 0 of
          Some err \<Rightarrow> (Inl err, w2)
        | None \<Rightarrow> (Inr (), maybeSendNotification deps (wd_tick deps 4) acc (ej_ipClientId (jb_data j)) ex Succeeded
            (w2\<lparr>wk_redis := upsertExecutionProjection (wk_redis w2) acc (fst (loadExecution (wk_rows w2) acc ex))\<rparr>)))"
        unfolding attempt_body_def Let_def acc_def [symmetric] ex_def [symmetric]
          \<open>resolve_config deps (wk_rows w) acc st config = Inr rc\<close> sum.case run [unfolded Inr] prod.case e(1) and_then_simps
        by (cases "ac_type st = Some HETZNER_CLOUD_FIREWALL_RULE_UPDATE_ACTION_TYPE"; cases "wd_redisError deps 0")
          (simp_all add: w2_def refreshExecutionProjection_def)
      show ?thesis
      proof (cases "wd_redisError deps 0")
        case None
        have "ready deps acc ex 4 (wk_rows (w2\<lparr>wk_redis := upsertExecutionProjection (wk_redis w2) acc
            (fst (loadExecution (wk_rows w2) acc ex))\<rparr>))" using w2(1) by simp
        note sent = maybeSend_keeps [OF this order_refl, of "ej_ipClientId (jb_data j)" Succeeded]
        from assms(6) body None have "res = Inr ()" "w' = maybeSendNotification deps (wd_tick deps 4) acc (ej_ipClientId (jb_data j)) ex Succeeded
            (w2\<lparr>wk_redis := upsertExecutionProjection (wk_redis w2) acc (fst (loadExecution (wk_rows w2) acc ex))\<rparr>)"
          by (auto simp: run_attempt_def)
        with \<open>resolve_config deps (wk_rows w) acc st config = Inr rc\<close> run Inr None sent w2 e(3) show ?thesis by simp
      next
        case (Some err)
        with body have "attempt_body deps j st config execute w = (Inl err, w2)" by simp
        from caught [OF this w2(1)] \<open>resolve_config deps (wk_rows w) acc st config = Inr rc\<close> run Inr Some w2(3)
        show ?thesis by simp
      qed
    qed
  qed
qed

section \<open>Properties\<close>

text \<open>C8. The recorded outcome of an attempt is what happened: replaying the execution gives \<open>running\<close> where the
  action is no longer runnable (nothing was done), \<open>failed\<close> without a retry and without a request where a
  required address family is missing, \<open>failed\<close> with the error that is thrown for the retry where the
  credential is unusable or the provider refused, and \<open>succeeded\<close> where the provider accepted, unless the
  projection update after it fails, which turns the recorded success into a failure that is retried.\<close>
theorem execution_outcome:
  assumes "ready deps (ej_accountId (jb_data j)) (ej_executionId (jb_data j)) 0 (wk_rows w)"
    and "wd_between deps = (\<lambda>n r. r)" and "wd_redisError deps 1 = None" and "run_execution deps j w = (res, w')"
  shows "let acc = ej_accountId (jb_data j); ips = ej_ipValues (jb_data j);
        final = fst (loadExecution (wk_rows w') acc (ej_executionId (jb_data j)));
        st = fst (loadAction (wk_rows w) acc (ej_actionId (jb_data j)));
        failed = (\<lambda>err. res = Inl err \<and> ex_status final = ExFailed \<and> ex_error final = Some (error_message err))
    in ex_attempt final = jb_attemptsMade j + 1
      \<and> (if \<not> truthy (ac_actionId st) \<or> ac_status st \<noteq> ActEnabled \<or> ac_config st = None \<or> \<not> truthy (ac_type st)
         then res = Inr () \<and> ex_status final = ExRunning \<and> wk_requests w' = wk_requests w
         else if missing_family st ips then res = Inr () \<and> ex_status final = ExFailed \<and> wk_requests w' = wk_requests w
         else (case wd_executors deps (the (ac_type st)) of
             None \<Rightarrow> (\<exists>err. res = Inl err) \<and> ex_status final = ExRunning \<and> wk_requests w' = wk_requests w
           | Some execute \<Rightarrow> (case resolve_config deps (wk_rows w) acc st (the (ac_config st)) of
               Inl err \<Rightarrow> failed err \<and> wk_requests w' = wk_requests w
             | Inr rc \<Rightarrow> (case execute rc (relevant_ips st ips) (wk_requests w) of
                 (Inl err, requests) \<Rightarrow> failed err \<and> wk_requests w' = requests
               | (Inr summary, requests) \<Rightarrow> wk_requests w' = requests \<and> (case wd_redisError deps 0 of
                   Some err \<Rightarrow> failed err
                 | None \<Rightarrow> res = Inr () \<and> ex_status final = ExSucceeded \<and> ex_error final = None)))))"
proof -
  let ?acc = "ej_accountId (jb_data j)" and ?ex = "ej_executionId (jb_data j)"
  let ?d = "ExecutionStarted (started_data j (tk_now (wd_tick deps 0)))"
  define st where "st = fst (loadAction (wk_rows w) ?acc (ej_actionId (jb_data j)))"
  obtain e where e: "appendExecutionEvent deps (wd_tick deps 0) ?acc ?ex ?d w = (Inr (), w\<lparr>wk_rows := wk_rows w @ [e]\<rparr>)"
    "ready deps ?acc ?ex 1 (wk_rows w @ [e])" "in_stream (stream ?acc ACTION_EXECUTION ?ex) e"
    "fst (loadExecution (wk_rows w @ [e]) ?acc ?ex) = action_execution_apply (fst (loadExecution (wk_rows w) ?acc ?ex)) (ExecutionEv ?d)"
    by (rule append_execution_ready [OF assms(1) order_refl, where d = ?d]) auto
  define w1 where "w1 = w\<lparr>wk_rows := wk_rows w @ [e]\<rparr>"
  have ready1: "ready deps ?acc ?ex 1 (wk_rows w1)" using e(2) by (simp add: w1_def)
  have started: "ex_status (fst (loadExecution (wk_rows w1) ?acc ?ex)) = ExRunning"
    "ex_attempt (fst (loadExecution (wk_rows w1) ?acc ?ex)) = jb_attemptsMade j + 1" "wk_requests w1 = wk_requests w"
    using e(4) by (simp_all add: w1_def started_data_def)
  have same: "fst (loadAction (wk_rows w1) ?acc (ej_actionId (jb_data j))) = st"
    "resolve_config deps (wk_rows w1) ?acc st c = resolve_config deps (wk_rows w) ?acc st c" for c
    using loads_other [OF e(3), of "wk_rows w"] by (simp_all add: w1_def st_def cong: resolve_config_cong)
  have run: "run_execution deps j w = (if \<not> truthy (ac_actionId st) \<or> ac_status st \<noteq> ActEnabled \<or> ac_config st = None \<or> \<not> truthy (ac_type st)
      then (Inr (), w1)
      else if missing_family st (ej_ipValues (jb_data j))
      then record_failure deps 5 1 j ''Required address family missing from the reported IP change'' True w1
      else (case wd_executors deps (the (ac_type st)) of
          None \<Rightarrow> (Inl (JsError (''No ActionExecutor registered for type \"'' @ the (ac_type st) @ ''\"'')), w1)
        | Some execute \<Rightarrow> run_attempt deps j st (the (ac_config st)) execute w1))"
    unfolding run_execution_def Let_def e(1) and_then_simps w1_def [symmetric] same ..
  consider (idle) "\<not> truthy (ac_actionId st) \<or> ac_status st \<noteq> ActEnabled \<or> ac_config st = None \<or> \<not> truthy (ac_type st)"
    | (missing) "\<not> (\<not> truthy (ac_actionId st) \<or> ac_status st \<noteq> ActEnabled \<or> ac_config st = None \<or> \<not> truthy (ac_type st))"
        "missing_family st (ej_ipValues (jb_data j))"
    | (unknown) "\<not> (\<not> truthy (ac_actionId st) \<or> ac_status st \<noteq> ActEnabled \<or> ac_config st = None \<or> \<not> truthy (ac_type st))"
        "\<not> missing_family st (ej_ipValues (jb_data j))" "wd_executors deps (the (ac_type st)) = None"
    | (runs) execute where "\<not> (\<not> truthy (ac_actionId st) \<or> ac_status st \<noteq> ActEnabled \<or> ac_config st = None \<or> \<not> truthy (ac_type st))"
        "\<not> missing_family st (ej_ipValues (jb_data j))" "wd_executors deps (the (ac_type st)) = Some execute"
    by (cases "wd_executors deps (the (ac_type st))") blast+
  then show ?thesis
  proof cases
    case idle
    then have "res = Inr ()" "w' = w1" using assms(4) unfolding run by simp_all
    with idle started show ?thesis by (simp only: Let_def st_def [symmetric]) simp
  next
    case missing
    then have "record_failure deps 5 1 j ''Required address family missing from the reported IP change'' True w1 = (res, w')"
      using assms(4) unfolding run by (simp only: if_False if_True)
    with record_failure_ready [OF ready1 _ assms(3), of 5 "''Required address family missing from the reported IP change''" True]
      missing started show ?thesis by (simp only: Let_def st_def [symmetric]) auto
  next
    case unknown
    have "\<exists>err. res = Inl err" "w' = w1"
      using assms(4) unfolding run if_not_P [OF unknown(1)] if_not_P [OF unknown(2)] unknown(3) option.case by auto
    with unknown started show ?thesis by (simp only: Let_def st_def [symmetric]) simp
  next
    case runs
    then have "run_attempt deps j st (the (ac_config st)) execute w1 = (res, w')"
      using assms(4) unfolding run by (simp only: if_False option.case)
    note outcome = run_attempt_ready [OF ready1 assms(2,3) this, unfolded Let_def same started]
    show ?thesis
      unfolding Let_def st_def [symmetric] if_not_P [OF runs(1)] if_not_P [OF runs(2)] runs(3) option.case
      using outcome
      by (cases "resolve_config deps (wk_rows w) ?acc st (the (ac_config st))"; cases "wd_redisError deps 0")
        (auto split: prod.splits sum.splits)
  qed
qed

text \<open>What the steps of an attempt do to the notifications sent and to the settings they depend on.\<close>

definition same_settings :: "event_store \<Rightarrow> event_store \<Rightarrow> bool" where
  "same_settings rows rows' = ((\<forall>acc i. fst (loadIpClient rows' acc i) = fst (loadIpClient rows acc i))
     \<and> (\<forall>acc. fst (loadChannel rows' acc) = fst (loadChannel rows acc)))"

lemma same_settings_refl [simp]: "same_settings rows rows"
  by (simp add: same_settings_def)

lemma same_settings_trans: "same_settings a b \<Longrightarrow> same_settings b c \<Longrightarrow> same_settings a c"
  by (simp add: same_settings_def)

lemma append_same_settings:
  assumes "append_event cfg tk rows k n d = Inr (e, rows')" and "key_aggregateType k \<in> {ACTION, ACTION_EXECUTION}"
  shows "same_settings rows rows'"
  using append_event_Inr(1,2) [OF assms(1)] assms(2)
  by (auto simp: same_settings_def load_defs Let_def readStream_other in_stream_def)

definition quiet :: "worker_state \<Rightarrow> worker_state \<Rightarrow> bool" where
  "quiet w w' = (wk_mails w' = wk_mails w \<and> same_settings (wk_rows w) (wk_rows w'))"

lemma quiet_trans: "quiet a b \<Longrightarrow> quiet b c \<Longrightarrow> quiet a c"
  by (auto simp: quiet_def intro: same_settings_trans)

lemma append_quiet: "appendExecutionEvent deps tk acc ex d w = (r, w') \<Longrightarrow> quiet w w'"
  by (auto simp: appendExecutionEvent_def quiet_def split: sum.splits dest: append_same_settings)

lemma refresh_quiet: "refreshExecutionProjection deps n acc ex w = (r, w') \<Longrightarrow> quiet w w'"
  by (auto simp: refreshExecutionProjection_def Let_def quiet_def split: option.splits)

lemma applied_quiet:
  assumes "wd_between deps = (\<lambda>n r. r)"
  shows "quiet w (appendFirewallRuleAppliedEventBestEffort deps acc a ips w)"
proof -
  have attempt: "same_settings rows (snd (firewall_applied_attempt deps tk n acc a d rows))" for tk n d rows
    by (auto simp: firewall_applied_attempt_def assms Let_def split: sum.split dest: append_same_settings)
  show ?thesis
    unfolding appendFirewallRuleAppliedEventBestEffort_def Let_def
    by (auto simp: quiet_def split: prod.split sum.split intro!: same_settings_trans [OF _ attempt]) (metis attempt snd_conv)+
qed

text \<open>One notification more, and a wanted one.\<close>

definition notified :: "worker_state \<Rightarrow> worker_state \<Rightarrow> id \<Rightarrow> id \<Rightarrow> id \<Rightarrow> outcome \<Rightarrow> bool" where
  "notified w w' acc i ex out = (
     wk_mails w' = wk_mails w @ [notification_for (fst (loadChannel (wk_rows w) acc)) i ex out]
     \<and> usable_channel (fst (loadChannel (wk_rows w) acc))
     \<and> wants_notification (ic_notificationPreference (fst (loadIpClient (wk_rows w) acc i))) out)"

lemma maybeSend_mails:
  assumes "quiet w w1"
  shows "wk_mails (maybeSendNotification deps tk acc i ex out w1) = wk_mails w
    \<or> notified w (maybeSendNotification deps tk acc i ex out w1) acc i ex out"
proof -
  have "wk_mails (snd (appendExecutionEvent deps tk acc ex d u)) = wk_mails u" for d u
    using append_quiet [of deps tk acc ex d u] by (auto simp: quiet_def) (metis prod.collapse)
  with assms show ?thesis
    unfolding notified_def maybeSendNotification_def Let_def quiet_def same_settings_def by (auto split: option.split)
qed

lemma quiet_notified: "quiet w w1 \<Longrightarrow> notified w1 w' acc i ex out \<Longrightarrow> notified w w' acc i ex out"
  by (simp add: quiet_def same_settings_def notified_def)

lemma record_failure_mails:
  fixes w j
  defines "acc \<equiv> ej_accountId (jb_data j)" and "ex \<equiv> ej_executionId (jb_data j)" and "i \<equiv> ej_ipClientId (jb_data j)"
  assumes "record_failure deps n r j msg exhausted w = (res, w')"
  shows "wk_mails w' = wk_mails w \<or> notified w w' acc i ex Failed \<and> exhausted \<and> res = Inr ()"
proof -
  let ?d = "ExecutionFailed \<lparr>fai_attempt = jb_attemptsMade j + 1, fai_error = msg, fai_retriesExhausted = exhausted,
    fai_failedAt = tk_now (wd_tick deps n)\<rparr>"
  obtain r1 w1 where s1: "appendExecutionEvent deps (wd_tick deps n) acc ex ?d w = (r1, w1)" by fastforce
  obtain r2 w2 where s2: "refreshExecutionProjection deps r acc ex w1 = (r2, w2)" by fastforce
  have q: "quiet w w1" "quiet w w2" using append_quiet [OF s1] refresh_quiet [OF s2] by (auto intro: quiet_trans)
  consider "w' = w1" | "w' = w2"
    | "exhausted" "res = Inr ()" "w' = maybeSendNotification deps (wd_tick deps (Suc n)) acc i ex Failed w2"
    using assms(4) unfolding record_failure_def Let_def acc_def [symmetric] ex_def [symmetric] i_def [symmetric] s1
    by (cases r1; cases r2) (auto simp: s2 split: if_splits)
  then show ?thesis
    using q maybeSend_mails [OF q(2)] by cases (auto simp: quiet_def)
qed

lemma attempt_body_mails:
  fixes w j
  defines "acc \<equiv> ej_accountId (jb_data j)" and "ex \<equiv> ej_executionId (jb_data j)" and "i \<equiv> ej_ipClientId (jb_data j)"
  assumes "attempt_body deps j st config execute w = (res, w')" and alone: "wd_between deps = (\<lambda>n r. r)"
  shows "quiet w w' \<or> (res = Inr () \<and> (wk_mails w' = wk_mails w \<or> notified w w' acc i ex Succeeded))"
proof (cases "resolve_config deps (wk_rows w) acc st config")
  case (Inl err)
  with assms(4) show ?thesis by (auto simp: attempt_body_def Let_def acc_def quiet_def)
next
  case rc: (Inr rc)
  obtain r requests where run: "execute rc (relevant_ips st (ej_ipValues (jb_data j))) (wk_requests w) = (r, requests)" by fastforce
  show ?thesis
  proof (cases r)
    case (Inl err)
    with assms(4) rc run show ?thesis by (auto simp: attempt_body_def Let_def acc_def quiet_def)
  next
    case (Inr summary)
    let ?d = "ExecutionSucceeded \<lparr>suc_completedAt = tk_now (wd_tick deps 1), suc_providerResponseSummary = summary\<rparr>"
    obtain r1 w1 where s1: "appendExecutionEvent deps (wd_tick deps 1) acc ex ?d (w\<lparr>wk_requests := requests\<rparr>) = (r1, w1)" by fastforce
    define w2 where "w2 = (if ac_type st = Some HETZNER_CLOUD_FIREWALL_RULE_UPDATE_ACTION_TYPE
      then appendFirewallRuleAppliedEventBestEffort deps acc (ej_actionId (jb_data j)) (relevant_ips st (ej_ipValues (jb_data j))) w1 else w1)"
    obtain r3 w3 where s3: "refreshExecutionProjection deps 0 acc ex w2 = (r3, w3)" by fastforce
    have q1: "quiet w w1" using append_quiet [OF s1] by (simp add: quiet_def)
    then have q2: "quiet w w2" unfolding w2_def using applied_quiet [OF alone] by (auto intro: quiet_trans)
    from quiet_trans [OF q2 refresh_quiet [OF s3]] have q3: "quiet w w3" .
    have step: "(res, w') = and_then (r1, w1) (\<lambda>w. and_then (refreshExecutionProjection deps 0 acc ex
        (if ac_type st = Some HETZNER_CLOUD_FIREWALL_RULE_UPDATE_ACTION_TYPE
         then appendFirewallRuleAppliedEventBestEffort deps acc (ej_actionId (jb_data j)) (relevant_ips st (ej_ipValues (jb_data j))) w else w))
        (\<lambda>w. (Inr (), maybeSendNotification deps (wd_tick deps 4) acc i ex Succeeded w)))"
      using assms(4) unfolding attempt_body_def Let_def acc_def [symmetric] ex_def [symmetric] i_def [symmetric] rc sum.case
        run [unfolded Inr] prod.case s1 by (rule sym)
    consider "w' = w1" | "w' = w3" | "res = Inr ()" "w' = maybeSendNotification deps (wd_tick deps 4) acc i ex Succeeded w3"
      using step by (cases r1; cases r3) (simp_all add: w2_def [symmetric] s3)
    then show ?thesis
      using q1 q3 maybeSend_mails [OF q3] by cases auto
  qed
qed

text \<open>Notifications respect the device's preference: an attempt sends at most one, only through a usable channel and
  to its addresses, only of an outcome the preference asks for, about success only when the attempt succeeded,
  and about a failure only when no retry follows.\<close>
theorem notification_respects_preference:
  assumes "run_execution deps j w = (res, w')" and "wd_between deps = (\<lambda>n r. r)"
  defines "ch \<equiv> fst (loadChannel (wk_rows w) (ej_accountId (jb_data j)))"
    and "preference \<equiv> ic_notificationPreference (fst (loadIpClient (wk_rows w) (ej_accountId (jb_data j)) (ej_ipClientId (jb_data j))))"
  shows "wk_mails w' = wk_mails w
    \<or> (\<exists>out. wk_mails w' = wk_mails w @ [notification_for ch (ej_ipClientId (jb_data j)) (ej_executionId (jb_data j)) out]
        \<and> usable_channel ch \<and> wants_notification preference out
        \<and> (case out of Succeeded \<Rightarrow> res = Inr () | Failed \<Rightarrow> res = Inr () \<or> is_final_attempt j))"
proof -
  let ?acc = "ej_accountId (jb_data j)" and ?ex = "ej_executionId (jb_data j)" and ?i = "ej_ipClientId (jb_data j)"
  obtain r1 w1 where s1: "appendExecutionEvent deps (wd_tick deps 0) ?acc ?ex (ExecutionStarted (started_data j (tk_now (wd_tick deps 0)))) w
      = (r1, w1)" by fastforce
  note q1 = append_quiet [OF s1]
  let ?msg = "''Required address family missing from the reported IP change''"
  consider (same) "w' = w1"
    | (missing) "record_failure deps 5 1 j ?msg True w1 = (res, w')"
    | (ran) st config execute where "run_attempt deps j st config execute w1 = (res, w')"
    using assms(1) unfolding run_execution_def Let_def s1
    by (cases r1) (simp_all split: if_splits option.splits)
  then have "wk_mails w' = wk_mails w
      \<or> (\<exists>out. notified w w' ?acc ?i ?ex out \<and> (case out of Succeeded \<Rightarrow> res = Inr () | Failed \<Rightarrow> res = Inr () \<or> is_final_attempt j))"
  proof cases
    case same
    with q1 show ?thesis by (simp add: quiet_def)
  next
    case missing
    from record_failure_mails [OF this] quiet_notified [OF q1] q1 show ?thesis
      by (auto simp: quiet_def intro!: exI [of _ Failed])
  next
    case ran
    obtain r2 w2 where body: "attempt_body deps j st config execute w1 = (r2, w2)" by fastforce
    note mails = attempt_body_mails [OF body assms(2)]
    show ?thesis
    proof (cases r2)
      case (Inr u)
      with ran body have "res = Inr ()" "w' = w2" by (auto simp: run_attempt_def)
      with mails quiet_notified [OF q1] q1 show ?thesis
        by (auto simp: quiet_def intro!: exI [of _ Succeeded])
    next
      case (Inl err)
      with mails have q2: "quiet w w2" using q1 by (auto intro: quiet_trans)
      obtain r3 w3 where failure: "record_failure deps 5 1 j (error_message err) (is_final_attempt j) w2 = (r3, w3)" by fastforce
      with ran body Inl have "w' = w3" by (cases r3) (auto simp: run_attempt_def)
      with record_failure_mails [OF failure] quiet_notified [OF q2] q2 show ?thesis
        by (auto simp: quiet_def intro!: exI [of _ Failed])
    qed
  qed
  then show ?thesis unfolding notified_def ch_def preference_def by blast
qed

section \<open>A concrete attempt\<close>

definition sample_credential :: stored_event where
  "sample_credential = sample_row ''e5'' ''acc'' ''c'' 1 (CredentialEv (CredentialStored \<lparr>pcs_credentialId = ''c'', pcs_accountId = ''acc'',
     pcs_provider = ''hetzner'', pcs_label = ''l'',
     pcs_encryptedSecret = encryptSecret sample_crypto ''iv'' ''token'' (cfg_credentialEncryptionKey sample_config),
     pcs_secretLast4 = ''oken'', pcs_storedAt = 0\<rparr>))"

definition sample_preference :: stored_event where
  "sample_preference = sample_row ''e6'' ''acc'' ''d'' 2 (IpClientEv (NotificationPreferenceSet PrefAll))"

definition sample_channel :: stored_event where
  "sample_channel = sample_row ''e7'' ''acc'' ''acc'' 1 (ChannelEv (ChannelRegistered \<lparr>ncr_channelId = ''n'', ncr_accountId = ''acc'',
     ncr_type = EMAIL_NOTIFICATION_CHANNEL_TYPE, ncr_addresses = [''a@b''], ncr_registeredAt = 0\<rparr>))"

definition sample_worker_state :: worker_state where
  "sample_worker_state = \<lparr>wk_rows = [sample_registered, sample_dns_action, sample_credential, sample_preference, sample_channel],
     wk_redis = [], wk_requests = [], wk_mails = []\<rparr>"

definition sample_worker :: worker_deps where
  "sample_worker = \<lparr>wd_config = sample_config, wd_crypto = sample_crypto,
     wd_executors = application_executors sample_parse sample_server (\<lambda>n. ''now'') (Inr ()) None,
     wd_channels = (\<lambda>t. Some (\<lambda>m. None)), wd_redisError = (\<lambda>n. None), wd_between = (\<lambda>n r. r),
     wd_tick = (\<lambda>n. \<lparr>tk_id = replicate n (CHR ''z''), tk_now = n\<rparr>)\<rparr>"

definition sample_job :: job where
  "sample_job = \<lparr>jb_data = \<lparr>ej_accountId = ''acc'', ej_executionId = ''x'', ej_actionId = ''a'', ej_ipClientId = ''d'',
     ej_causationEventId = ''e4'', ej_triggeredBy = ByIpChange, ej_ipValues = sample_ips\<rparr>, jb_attemptsMade = 0, jb_attempts = Some 3\<rparr>"

lemmas sample_worker_row_defs = sample_registered_def sample_dns_action_def sample_credential_def sample_preference_def sample_channel_def

lemma sample_worker_ready: "ready sample_worker ''acc'' ''x'' 0 (wk_rows sample_worker_state)"
proof -
  have "CHR ''e'' \<notin> set (tk_id (wd_tick sample_worker m))" for m by (simp add: sample_worker_def)
  moreover have "CHR ''e'' \<in> set i" if "i \<in> ev_id ` set (wk_rows sample_worker_state)" for i
    using that by (auto simp: sample_worker_state_def sample_worker_row_defs)
  ultimately have "tk_id (wd_tick sample_worker m) \<notin> ev_id ` set (wk_rows sample_worker_state)" for m by blast
  moreover have "inj (\<lambda>m. tk_id (wd_tick sample_worker m))"
    by (rule injI) (auto simp: sample_worker_def dest: arg_cong [where f = length])
  moreover have "wf_store (wk_rows sample_worker_state)"
    by (auto simp: wf_store_def aggregate_rows_def sample_worker_state_def sample_worker_row_defs Let_def)
  ultimately show ?thesis
    by (simp add: ready_def) (simp add: aggregate_rows_def sample_worker_state_def sample_worker_row_defs)
qed

lemma sample_worker_loads:
  "fst (loadAction (wk_rows sample_worker_state) ''acc'' ''a'') = fst (loadAction sample_device_rows ''acc'' ''a'')"
  "pc_encryptedSecret (fst (loadCredential (wk_rows sample_worker_state) ''acc'' ''c'')) =
     Some (encryptSecret sample_crypto ''iv'' ''token'' (cfg_credentialEncryptionKey sample_config))"
  "pc_status (fst (loadCredential (wk_rows sample_worker_state) ''acc'' ''c'')) = CrActive"
  by (simp_all add: loadAction_def loadCredential_def loadAggregate_def readStream_def in_stream_def sample_worker_state_def
      sample_device_defs sample_worker_row_defs actionReducer_def providerCredentialReducer_def initialProviderCredentialState_def)

lemma sample_resolve:
  "\<exists>rc. resolve_config sample_worker (wk_rows sample_worker_state) ''acc'' (fst (loadAction sample_device_rows ''acc'' ''a''))
      (empty_config\<lparr>cf_providerCredentialId := Some ''c''\<rparr>) = Inr (ResolvedDns rc)"
proof -
  have "encryptSecret sample_crypto iv p k \<noteq> []" for iv p k
    by (cases "aes_seal sample_crypto k iv p") (simp add: encryptSecret_def)
  then have "usable_credential (wk_rows sample_worker_state) ''acc'' (Some ''c'') =
      Some (encryptSecret sample_crypto ''iv'' ''token'' (cfg_credentialEncryptionKey sample_config))"
    by (simp add: usable_credential_def Let_def sample_worker_loads)
  then have "resolve_token sample_worker (wk_rows sample_worker_state) ''acc'' (Some ''c'') = Inr ''token''"
    by (simp add: resolve_token_def sample_worker_def decrypt_encrypt [OF sample_aead])
  then show ?thesis
    by (simp add: resolve_config_def resolveDnsExecutorConfig_def sample_action_load empty_config_def)
qed

lemma sample_attempt:
  obtains res w' where "run_execution sample_worker sample_job sample_worker_state = (res, w')"
  by fastforce

lemma execution_outcome_witness:
  "\<exists>w'. run_execution sample_worker sample_job sample_worker_state = (Inr (), w')
    \<and> ex_status (fst (loadExecution (wk_rows w') ''acc'' ''x'')) = ExSucceeded \<and> length (wk_requests w') = 1"
proof -
  obtain res w' where run: "run_execution sample_worker sample_job sample_worker_state = (res, w')" by (rule sample_attempt)
  obtain rc where rc: "resolve_config sample_worker (wk_rows sample_worker_state) ''acc'' (fst (loadAction sample_device_rows ''acc'' ''a''))
      (empty_config\<lparr>cf_providerCredentialId := Some ''c''\<rparr>) = Inr (ResolvedDns rc)" using sample_resolve by blast
  have job: "ej_accountId (jb_data sample_job) = ''acc''" "ej_executionId (jb_data sample_job) = ''x''"
    "ej_actionId (jb_data sample_job) = ''a''" "ej_ipValues (jb_data sample_job) = sample_ips"
    by (simp_all add: sample_job_def)
  define st where "st = fst (loadAction sample_device_rows ''acc'' ''a'')"
  have st: "truthy (ac_actionId st)" "ac_status st = ActEnabled" "ac_config st = Some (empty_config\<lparr>cf_providerCredentialId := Some ''c''\<rparr>)"
    "ac_type st = Some HETZNER_CLOUD_DNS_UPDATE_ACTION_TYPE" "\<not> missing_family st sample_ips"
    by (simp_all add: st_def sample_action_load initialActionState_def missing_family_def sample_ips_def)
  have executor: "wd_executors sample_worker HETZNER_CLOUD_DNS_UPDATE_ACTION_TYPE = Some (dns_executor sample_parse sample_server (\<lambda>n. ''now''))"
    by (simp add: sample_worker_def application_executors_def)
  have relevant: "relevant_ips st sample_ips = sample_ips"
    by (simp add: st_def relevant_ips_def sample_action_load sample_ips_def initialActionState_def)
  have "\<exists>s. dns_executor sample_parse sample_server (\<lambda>n. ''now'') (ResolvedDns rc) sample_ips [] = (Inr s, [dns_request rc ''A'' ''1.2.3.4'' ''now''])"
    by (simp add: dns_executor_def dns_execute_def dns_family_def setRecords_def sample_ips_def sample_parse_def)
  then obtain s where dns: "dns_executor sample_parse sample_server (\<lambda>n. ''now'') (ResolvedDns rc) sample_ips [] =
      (Inr s, [dns_request rc ''A'' ''1.2.3.4'' ''now''])" by blast
  have "truthy (Some HETZNER_CLOUD_DNS_UPDATE_ACTION_TYPE)" by (simp add: HETZNER_CLOUD_DNS_UPDATE_ACTION_TYPE_def)
  moreover have "wd_redisError sample_worker = (\<lambda>n. None)" "wd_between sample_worker = (\<lambda>n r. r)" "wk_requests sample_worker_state = []"
    by (simp_all add: sample_worker_def sample_worker_state_def)
  ultimately show ?thesis
    using execution_outcome [OF sample_worker_ready [folded job(1,2)] _ _ run] run
    by (simp add: job sample_worker_loads st_def [symmetric] st executor rc [folded st_def] relevant dns Let_def)
qed

lemma notification_respects_preference_witness:
  "\<exists>res w'. run_execution sample_worker sample_job sample_worker_state = (res, w')
    \<and> length (wk_mails w') \<le> 1 \<and> (\<forall>m \<in> set (wk_mails w'). nm_addresses m = [''a@b''])"
proof -
  obtain res w' where run: "run_execution sample_worker sample_job sample_worker_state = (res, w')" by (rule sample_attempt)
  have "wd_between sample_worker = (\<lambda>n r. r)" by (simp add: sample_worker_def)
  note once = notification_respects_preference [OF run this]
  have "nc_addresses (fst (loadChannel (wk_rows sample_worker_state) ''acc'')) = [''a@b'']"
    by (simp add: loadChannel_def loadAggregate_def readStream_def in_stream_def sample_worker_state_def sample_worker_row_defs
        notificationChannelReducer_def)
  moreover have "wk_mails sample_worker_state = []" "ej_accountId (jb_data sample_job) = ''acc''"
    by (simp_all add: sample_worker_state_def sample_job_def)
  ultimately show ?thesis using once run by (auto simp: notification_for_def)
qed

end
