(* ===== verification/Backend.thy ===== *)
theory Backend
  imports Pipeline Sessions Hetzner
begin

text \<open>
  What the HTTP routes of \<open>adapters/http/routes\<close> share: the state a request works on, the write that
  ends it, and request sequences.

  A handler is a function from the values it draws (ids, clock, random bytes), the account of the
  verified token, the request and the state to the response and the new state. Its one append is
  where other processes can come in between: \<open>rt_between\<close> is what they do to the event table after the
  handler's reads and before its write. \<open>rt_redisError\<close> is the error of the handler's Redis calls, if
  Redis fails.

  A request body is given with the types the handler declares for it (\<open>c.req.json<T>()\<close>), absent
  fields as \<open>None\<close>; a body that is no JSON is the one with every field absent, which is what the
  \<open>catch\<close> makes of it. Where the code itself tests the type of a field, the field is a \<open>json\<close> value.
  The three Redis projections have keys of their own each and are separate components of the state.
\<close>

section \<open>State\<close>

record route_deps =
  rt_config :: Config
  rt_crypto :: crypto
  rt_hasSnapshots :: bool
  rt_hasProviderStore :: bool
  rt_redisError :: "exn option"
  rt_between :: "event_store \<Rightarrow> event_store"
  rt_parse :: "string \<Rightarrow> exn + json"
  rt_server :: server
  \<comment> \<open>the outcome of acquiring and of releasing the firewall lock\<close>
  rt_acquired :: "exn + unit"
  rt_released :: "exn option"

record backend =
  bk_rows :: event_store
  bk_clients :: "IpClientSummary redis"
  bk_actions :: "ActionSummary redis"
  bk_schedules :: "(id \<times> id list) list"
  bk_requests :: "http_request list"
  bk_registry :: registry
  bk_terminated :: "(id \<times> CloseReason) list"

text \<open>The values one request draws: a ULID for what it creates, the clock, event ids, random texts.\<close>

record drawn =
  dr_id :: id
  dr_tick :: tick
  dr_tick2 :: tick
  dr_random :: string
  dr_salt :: string

section \<open>Writing\<close>

text \<open>\<open>buildDomainEvent\<close> and \<open>append\<close> after a load that saw \<open>version\<close> events.\<close>

definition commit :: "route_deps \<Rightarrow> tick \<Rightarrow> stream_key \<Rightarrow> nat \<Rightarrow> domain_event \<Rightarrow> backend \<Rightarrow> (exn + stored_event) \<times> backend" where
  "commit deps tk k version d b =
     (let rows = rt_between deps (bk_rows b) in
      case append_event (rt_config deps) tk rows k (version + 1) d of
        Inl err \<Rightarrow> (Inl err, b\<lparr>bk_rows := rows\<rparr>)
      | Inr (e, rows') \<Rightarrow> (Inr e, b\<lparr>bk_rows := rows'\<rparr>))"

text \<open>What follows an \<open>await\<close>: nothing, if it threw.\<close>

definition proceed :: "(exn + 'a) \<times> 'w \<Rightarrow> ('a \<Rightarrow> 'w \<Rightarrow> response \<times> 'w) \<Rightarrow> response \<times> 'w" where
  "proceed r k = (case r of (Inl err, w) \<Rightarrow> (Thrown err, w) | (Inr x, w) \<Rightarrow> k x w)"

lemma proceed_simps [simp]: "proceed (Inl err, w) k = (Thrown err, w)" "proceed (Inr x, w) k = k x w"
  by (simp_all add: proceed_def)

definition text_json :: "string option \<Rightarrow> json" where
  "text_json v = (case v of None \<Rightarrow> JNull | Some s \<Rightarrow> JStr s)"

definition time_json :: "timestamp option \<Rightarrow> json" where
  "time_json v = (case v of None \<Rightarrow> JNull | Some t \<Rightarrow> JNum (int t))"

text \<open>An optional field, left out of the JSON text when \<open>undefined\<close>.\<close>

definition opt_field :: "string \<Rightarrow> json option \<Rightarrow> (string \<times> json) list" where
  "opt_field k v = (case v of None \<Rightarrow> [] | Some j \<Rightarrow> [(k, j)])"

abbreviation not_found :: response where
  "not_found \<equiv> json_error 404 ''not found''"

section \<open>What a write does\<close>

text \<open>\<open>rows'\<close> is \<open>rows\<close> with one more event.\<close>

definition wrote :: "event_store \<Rightarrow> event_store \<Rightarrow> stream_key \<Rightarrow> domain_event \<Rightarrow> bool" where
  "wrote rows rows' k d = (\<exists>e. rows' = rows @ [e] \<and> in_stream k e \<and> ev_data e = d)"

text \<open>Other writers only append, and with numbers that follow what they read.\<close>

definition others_append :: "route_deps \<Rightarrow> backend \<Rightarrow> bool" where
  "others_append deps b = grows readStream (store_append (rt_config deps)) (bk_rows b) (rt_between deps (bk_rows b))"

definition undisturbed :: "route_deps \<Rightarrow> bool" where
  "undisturbed deps = (rt_between deps = (\<lambda>rows. rows))"

lemma undisturbed_appends: "undisturbed deps \<Longrightarrow> others_append deps b"
  by (simp add: undisturbed_def others_append_def grows_refl)

lemma commit_cases:
  obtains (conflict) x where "commit deps tk k version d b = (Inl x, b\<lparr>bk_rows := rt_between deps (bk_rows b)\<rparr>)"
  | (appended) e where "commit deps tk k version d b = (Inr e, b\<lparr>bk_rows := rt_between deps (bk_rows b) @ [e]\<rparr>)"
      and "append_event (rt_config deps) tk (rt_between deps (bk_rows b)) k (version + 1) d = Inr (e, rt_between deps (bk_rows b) @ [e])"
proof (cases rule: append_event_cases [of "rt_config deps" tk "rt_between deps (bk_rows b)" k "version + 1" d])
  case conflict
  then show ?thesis by (intro that(1)) (simp add: commit_def Let_def)
next
  case (appended e)
  then show ?thesis by (intro that(2)) (simp_all add: commit_def Let_def)
qed

text \<open>A commit nobody interferes with goes through, unless its event id is taken.\<close>

lemma commit_alone:
  assumes "wf_store (bk_rows b)" and "undisturbed deps" and "tk_id tk \<notin> ev_id ` set (bk_rows b)"
    and "\<forall>r \<in> set (aggregate_rows (bk_rows b) t i). ev_accountId r = acc" and "n = length (readStream (bk_rows b) (stream acc t i))"
  shows "\<exists>e. commit deps tk (stream acc t i) n d b = (Inr e, b\<lparr>bk_rows := bk_rows b @ [e]\<rparr>)"
proof -
  obtain e where "append_event (rt_config deps) tk (bk_rows b) (stream acc t i) (Suc n) d = Inr (e, bk_rows b @ [e])"
    unfolding assms(5) by (rule append_alone [OF assms(1,3,4)])
  then show ?thesis using assms(2) by (simp add: commit_def undisturbed_def)
qed

text \<open>
  Optimistic concurrency for a handler: if its append goes through, its reads of the stream are still
  true of the table it appends to.
\<close>

lemma append_after_load:
  assumes wf: "wf_store (bk_rows b)" and others: "others_append deps b"
    and ok: "append_event (rt_config deps) tk (rt_between deps (bk_rows b)) k (length (readStream (bk_rows b) k) + 1) d = Inr (e, rows')"
  shows "wf_store (rt_between deps (bk_rows b))" and "readStream (rt_between deps (bk_rows b)) k = readStream (bk_rows b) k"
    and "wf_store rows'" and "rows' = rt_between deps (bk_rows b) @ [e]" and "in_stream k e" and "ev_data e = d"
    and "readStream rows' k = readStream (bk_rows b) k @ [e]"
    and "k' \<noteq> k \<Longrightarrow> readStream rows' k' = readStream (rt_between deps (bk_rows b)) k'"
proof -
  let ?rows = "rt_between deps (bk_rows b)"
  have grown: "grows readStream (store_append (rt_config deps)) (bk_rows b) ?rows"
    using others by (simp add: others_append_def)
  have sa: "store_append (rt_config deps) ?rows k (Suc (length (readStream (bk_rows b) k))) (tk, d) = Inr (e, rows')"
    using ok by (simp add: store_append_def)
  show wf': "wf_store ?rows" using es.grows_inv_prefix [OF grown wf] by blast
  show same: "readStream ?rows k = readStream (bk_rows b) k" by (rule es.unchanged_if_appended(1) [OF wf grown sa])
  have "length (readStream (bk_rows b) k) + 1 = Suc (length (readStream ?rows k))" by (simp add: same)
  note next_ev = append_event_next [OF wf' this ok] and new = append_event_Inr [OF ok]
  show "wf_store rows'" "rows' = ?rows @ [e]" "in_stream k e" "ev_data e = d" using next_ev new by simp_all
  show "readStream rows' k = readStream (bk_rows b) k @ [e]" using next_ev(2) by (simp add: same)
  show "readStream rows' k' = readStream ?rows k'" if "k' \<noteq> k" by (rule next_ev(3) [OF that])
qed

lemma loads_eq:
  "loadIpClient rows acc i = (fst (loadIpClient rows acc i), readStream rows (stream acc IP_CLIENT i),
     length (readStream rows (stream acc IP_CLIENT i)))"
  "loadAction rows acc i = (fst (loadAction rows acc i), readStream rows (stream acc ACTION i),
     length (readStream rows (stream acc ACTION i)))"
  "loadCredential rows acc i = (fst (loadCredential rows acc i), readStream rows (stream acc PROVIDER_CREDENTIAL i),
     length (readStream rows (stream acc PROVIDER_CREDENTIAL i)))"
  "loadChannel rows acc = (fst (loadChannel rows acc), readStream rows (stream acc NOTIFICATION_CHANNEL acc),
     length (readStream rows (stream acc NOTIFICATION_CHANNEL acc)))"
  "loadAccount rows acc = (fst (loadAccount rows acc), readStream rows (stream acc ACCOUNT acc),
     length (readStream rows (stream acc ACCOUNT acc)))"
  by (simp_all add: load_defs Let_def)

text \<open>A load depends on its stream only.\<close>

lemma loads_cong:
  "readStream rows (stream acc IP_CLIENT i) = readStream rows' (stream acc IP_CLIENT i) \<Longrightarrow> loadIpClient rows acc i = loadIpClient rows' acc i"
  "readStream rows (stream acc ACTION i) = readStream rows' (stream acc ACTION i) \<Longrightarrow> loadAction rows acc i = loadAction rows' acc i"
  "readStream rows (stream acc PROVIDER_CREDENTIAL i) = readStream rows' (stream acc PROVIDER_CREDENTIAL i) \<Longrightarrow>
     loadCredential rows acc i = loadCredential rows' acc i"
  "readStream rows (stream acc NOTIFICATION_CHANNEL acc) = readStream rows' (stream acc NOTIFICATION_CHANNEL acc) \<Longrightarrow>
     loadChannel rows acc = loadChannel rows' acc"
  "readStream rows (stream acc ACCOUNT acc) = readStream rows' (stream acc ACCOUNT acc) \<Longrightarrow> loadAccount rows acc = loadAccount rows' acc"
  by (simp_all add: load_defs Let_def)

text \<open>The states after a write.\<close>

lemma wrote_reads:
  assumes "wf_store rows" and "wf_store rows'" and "wrote rows rows' k d"
  obtains e where "rows' = rows @ [e]" and "in_stream k e" and "ev_data e = d"
    and "readStream rows' k = readStream rows k @ [e]"
    and "\<And>k'. k' \<noteq> k \<Longrightarrow> readStream rows' k' = readStream rows k'"
proof -
  from assms(3) obtain e where e: "rows' = rows @ [e]" "in_stream k e" "ev_data e = d" by (auto simp: wrote_def)
  have own: "readStream rows' k = readStream rows k @ [e]"
    unfolding readStream_wf(1) [OF assms(1)] readStream_wf(1) [OF assms(2)] using e by simp
  have other: "readStream rows' k' = readStream rows k'" if "k' \<noteq> k" for k'
  proof -
    from that e(2) have "\<not> in_stream k' e" by (cases k; cases k') (auto simp: in_stream_def)
    then show ?thesis unfolding readStream_wf(1) [OF assms(1)] readStream_wf(1) [OF assms(2)] using e by simp
  qed
  show ?thesis by (rule that [OF e own other])
qed

lemma listAggregateIds_snoc:
  "in_stream (stream acc t i) e \<Longrightarrow> listAggregateIds (rows @ [e]) acc t =
     (if i \<in> set (listAggregateIds rows acc t) then listAggregateIds rows acc t else listAggregateIds rows acc t @ [i])"
  by (simp add: listAggregateIds_def in_stream_def uniq_snoc)

lemma listAggregateIds_other:
  "in_stream (stream acc t i) e \<Longrightarrow> acc' \<noteq> acc \<or> t' \<noteq> t \<Longrightarrow> listAggregateIds (rows @ [e]) acc' t' = listAggregateIds rows acc' t'"
  by (auto simp: listAggregateIds_def in_stream_def)

section \<open>Guarded routes\<close>

text \<open>
  The contract of the routes of one aggregate: the guards of a \<open>guarded_aggregate\<close>, checked on a load, and
  an append at the number after it. What it gives is proved once, for every aggregate with such routes.
\<close>

definition replay :: "'st \<Rightarrow> ('st \<Rightarrow> domain_event \<Rightarrow> 'st) \<Rightarrow> event_store \<Rightarrow> stream_key \<Rightarrow> 'st" where
  "replay init red rows k = foldl red init (map ev_data (readStream rows k))"

lemma replay_loads:
  "fst (loadIpClient rows acc i) = replay initialIpClientState ip_client_apply rows (stream acc IP_CLIENT i)"
  "fst (loadAction rows acc i) = replay initialActionState action_apply rows (stream acc ACTION i)"
  "fst (loadCredential rows acc i) = replay initialProviderCredentialState provider_credential_apply rows (stream acc PROVIDER_CREDENTIAL i)"
  "fst (loadChannel rows acc) = replay initialNotificationChannelState notification_channel_apply rows (stream acc NOTIFICATION_CHANNEL acc)"
  "fst (loadAccount rows acc) = replay initialAccountState account_apply rows (stream acc ACCOUNT acc)"
  by (simp_all add: load_defs Let_def foldl_reducers replay_def)

lemma replay_wrote:
  assumes "wf_store rows" and "wf_store rows'" and "wrote rows rows' k d"
  shows "replay init red rows' k = red (replay init red rows k) d" and "k' \<noteq> k \<Longrightarrow> replay init red rows' k' = replay init red rows k'"
proof -
  obtain e where "ev_data e = d" "readStream rows' k = readStream rows k @ [e]"
    and "\<And>k'. k' \<noteq> k \<Longrightarrow> readStream rows' k' = readStream rows k'"
    by (rule wrote_reads [OF assms]) blast
  then show "replay init red rows' k = red (replay init red rows k) d" "k' \<noteq> k \<Longrightarrow> replay init red rows' k' = replay init red rows k'"
    by (simp_all add: replay_def)
qed

text \<open>
  The outcome of a request on the table: nothing, only the others' events, or one more event that its
  writer's guard allows in the state the stream is in when it is appended.
\<close>

definition guarded_outcome ::
  "(event_store \<Rightarrow> stream_key \<Rightarrow> 'st) \<Rightarrow> ('st \<Rightarrow> domain_event \<Rightarrow> bool) \<Rightarrow> route_deps \<Rightarrow> stream_key \<Rightarrow> event_store \<Rightarrow> event_store \<Rightarrow> bool" where
  "guarded_outcome load allowed deps k rows rows' = (rows' = rows \<or> rows' = rt_between deps rows
     \<or> (\<exists>d. wrote (rt_between deps rows) rows' k d \<and> wf_store (rt_between deps rows) \<and> wf_store rows'
          \<and> readStream (rt_between deps rows) k = readStream rows k \<and> allowed (load rows k) d))"

lemma guarded_outcome_refl [simp]: "guarded_outcome load allowed deps k rows rows"
  by (simp add: guarded_outcome_def)

locale guarded_route = guarded_aggregate init red allowed final
  for init :: 'st and red :: "'st \<Rightarrow> domain_event \<Rightarrow> 'st" and allowed and final
begin

lemma commit_outcome:
  assumes "wf_store (bk_rows b)" and "others_append deps b" and "allowed (replay init red (bk_rows b) k) d"
  shows "guarded_outcome (replay init red) allowed deps k (bk_rows b)
    (bk_rows (snd (commit deps tk k (length (readStream (bk_rows b) k)) d b)))"
proof (cases rule: commit_cases [of deps tk k "length (readStream (bk_rows b) k)" d b])
  case conflict
  then show ?thesis by (simp add: guarded_outcome_def)
next
  case (appended e)
  note new = append_after_load [OF assms(1,2) appended(2)]
  from appended(1) new assms(3) show ?thesis by (auto simp: guarded_outcome_def wrote_def)
qed

text \<open>A creation expects number 1: it goes through only on an empty stream.\<close>

lemma create_outcome:
  assumes "wf_store (bk_rows b)" and "others_append deps b" and "allowed init d"
  shows "guarded_outcome (replay init red) allowed deps k (bk_rows b) (bk_rows (snd (commit deps tk k 0 d b)))"
proof (cases "readStream (bk_rows b) k")
  case Nil
  then have "allowed (replay init red (bk_rows b) k) d" using assms(3) by (simp add: replay_def)
  from commit_outcome [OF assms(1,2) this, of tk] Nil show ?thesis by simp
next
  case (Cons r rs)
  from assms(2) have grown: "grows readStream (store_append (rt_config deps)) (bk_rows b) (rt_between deps (bk_rows b))"
    by (simp add: others_append_def)
  obtain new where wf: "wf_store (rt_between deps (bk_rows b))"
    and read: "readStream (rt_between deps (bk_rows b)) k = (r # rs) @ new"
    using es.grows_inv_prefix [OF grown assms(1), of k] Cons by auto
  have "1 \<le> length (readStream (rt_between deps (bk_rows b)) k)" using read by simp
  from append_event_taken [OF wf order_refl this, of "rt_config deps" tk d]
  have "bk_rows (snd (commit deps tk k 0 d b)) = rt_between deps (bk_rows b)"
    by (auto simp: commit_def Let_def)
  then show ?thesis by (simp add: guarded_outcome_def)
qed

lemma guarded_request:
  assumes "guarded_outcome (replay init red) allowed deps k rows rows'"
  defines "seen \<equiv> rt_between deps rows"
  shows "(rows' = rows \<or> rows' = seen \<or> (\<exists>e. rows' = seen @ [e] \<and> in_stream k e \<and> allowed (replay init red seen k) (ev_data e)
      \<and> (\<forall>k'. k' \<noteq> k \<longrightarrow> readStream rows' k' = readStream seen k')))
    \<and> (rows' \<noteq> rows \<and> final (replay init red seen k) \<longrightarrow> final (replay init red rows' k))"
proof (cases "rows' = rows \<or> rows' = seen")
  case False
  with assms(1) obtain d where w: "wrote seen rows' k d" "wf_store seen" "wf_store rows'"
    and same: "readStream seen k = readStream rows k" and allowed: "allowed (replay init red rows k) d"
    by (auto simp: guarded_outcome_def seen_def)
  obtain e where e: "rows' = seen @ [e]" "in_stream k e" "ev_data e = d"
    and other: "\<And>k'. k' \<noteq> k \<Longrightarrow> readStream rows' k' = readStream seen k'"
    by (rule wrote_reads [OF w(2,3,1)]) blast
  have now: "allowed (replay init red seen k) d" using allowed same by (simp add: replay_def)
  have "final (replay init red rows' k)" if "final (replay init red seen k)"
    using final_stays [OF that now] replay_wrote(1) [OF w(2,3,1)] by metis
  with e other now show ?thesis by blast
qed auto

end

text \<open>A continuation that leaves the table alone leaves it as the append made it.\<close>

lemma proceed_rows:
  assumes "\<And>x b. bk_rows (snd (k x b)) = bk_rows b"
  shows "bk_rows (snd (proceed r k)) = bk_rows (snd r)"
  using assms by (cases r; cases "fst r") (auto simp: proceed_def)

lemma create_refused:
  assumes "wf_store (bk_rows b)" and "undisturbed deps" and "readStream (bk_rows b) k \<noteq> []"
  shows "\<exists>x. commit deps tk k 0 d b = (Inl x, b)"
proof -
  have "1 \<le> length (readStream (bk_rows b) k)" using assms(3) by (cases "readStream (bk_rows b) k") simp_all
  from append_event_taken [OF assms(1) order_refl this] obtain x where "append_event (rt_config deps) tk (bk_rows b) k 1 d = Inl x" by blast
  then show ?thesis using assms(2) by (simp add: commit_def undisturbed_def)
qed

lemma create_taken:
  assumes "wf_store (bk_rows b)" and "undisturbed deps" and "readStream (bk_rows b) k \<noteq> []"
  shows "snd (proceed (commit deps tk k 0 d b) f) = b"
  using create_refused [OF assms, of tk d] by auto

text \<open>After an undisturbed commit the table has one more event.\<close>

lemma commit_undisturbed:
  assumes "wf_store (bk_rows b)" and "undisturbed deps" and "commit deps tk k (length (readStream (bk_rows b) k)) d b = (Inr e, b1)"
  shows "wrote (bk_rows b) (bk_rows b1) k d" and "wf_store (bk_rows b1)" and "b1 = b\<lparr>bk_rows := bk_rows b @ [e]\<rparr>"
proof (atomize (full), cases rule: commit_cases [of deps tk k "length (readStream (bk_rows b) k)" d b])
  case conflict
  with assms(3) show "wrote (bk_rows b) (bk_rows b1) k d \<and> wf_store (bk_rows b1) \<and> b1 = b\<lparr>bk_rows := bk_rows b @ [e]\<rparr>" by simp
next
  case (appended e')
  have between: "rt_between deps (bk_rows b) = bk_rows b" using assms(2) by (simp add: undisturbed_def)
  note new = append_after_load [OF assms(1) undisturbed_appends [OF assms(2)] appended(2)]
  from appended(1) assms(3) have "b1 = b\<lparr>bk_rows := bk_rows b @ [e]\<rparr>" "e' = e" by (simp_all add: between)
  with new show "wrote (bk_rows b) (bk_rows b1) k d \<and> wf_store (bk_rows b1) \<and> b1 = b\<lparr>bk_rows := bk_rows b @ [e]\<rparr>"
    by (auto simp: wrote_def between)
qed

text \<open>A creation that went through found its stream empty.\<close>

lemma create_undisturbed:
  assumes "wf_store (bk_rows b)" and "undisturbed deps" and "commit deps tk k 0 d b = (Inr e, b1)"
  shows "readStream (bk_rows b) k = []" and "wrote (bk_rows b) (bk_rows b1) k d" and "wf_store (bk_rows b1)"
    and "b1 = b\<lparr>bk_rows := bk_rows b @ [e]\<rparr>"
proof -
  show empty: "readStream (bk_rows b) k = []"
    using create_refused [OF assms(1,2), of k tk d] assms(3) by auto
  then have "commit deps tk k (length (readStream (bk_rows b) k)) d b = (Inr e, b1)" using assms(3) by simp
  note commit_undisturbed [OF assms(1,2) this]
  then show "wrote (bk_rows b) (bk_rows b1) k d" "wf_store (bk_rows b1)" "b1 = b\<lparr>bk_rows := bk_rows b @ [e]\<rparr>" by auto
qed

section \<open>Request sequences\<close>

text \<open>A server answers requests one after the other; an invariant every request keeps holds throughout.\<close>

fun serve :: "('r \<Rightarrow> 's \<Rightarrow> 'o \<times> 's) \<Rightarrow> 's \<Rightarrow> 'r list \<Rightarrow> 'o list \<times> 's" where
  "serve handle s [] = ([], s)"
| "serve handle s (r # rs) = (case handle r s of (resp, s') \<Rightarrow>
     (case serve handle s' rs of (resps, s'') \<Rightarrow> (resp # resps, s'')))"

text \<open>Every request of the sequence is one that can occur in the state it meets (fresh ids, for instance).\<close>

fun admitted :: "('r \<Rightarrow> 's \<Rightarrow> 'o \<times> 's) \<Rightarrow> ('r \<Rightarrow> 's \<Rightarrow> bool) \<Rightarrow> 's \<Rightarrow> 'r list \<Rightarrow> bool" where
  "admitted handle ok s [] = True"
| "admitted handle ok s (r # rs) = (ok r s \<and> admitted handle ok (snd (handle r s)) rs)"

lemma admitted_all [simp]: "admitted handle (\<lambda>r s. True) s rs"
  by (induction rs arbitrary: s) simp_all

locale request_handler =
  fixes handle :: "'r \<Rightarrow> 's \<Rightarrow> 'o \<times> 's" and ok :: "'r \<Rightarrow> 's \<Rightarrow> bool" and inv :: "'s \<Rightarrow> bool"
  assumes handle_inv: "inv s \<Longrightarrow> ok r s \<Longrightarrow> inv (snd (handle r s))"
begin

lemma serve_inv: "inv s \<Longrightarrow> admitted handle ok s rs \<Longrightarrow> inv (snd (serve handle s rs))"
proof (induction rs arbitrary: s)
  case (Cons r rs)
  obtain resp s' where one: "handle r s = (resp, s')" by fastforce
  with handle_inv [OF Cons.prems(1), of r] Cons.prems(2) have "inv s'" "admitted handle ok s' rs" by simp_all
  from Cons.IH [OF this] show ?case by (simp add: one case_prod_beta)
qed simp

lemma serve_length: "length (fst (serve handle s rs)) = length rs"
  by (induction rs arbitrary: s) (simp_all add: case_prod_beta)

end

section \<open>Sample values\<close>

definition sample_routes :: route_deps where
  "sample_routes = \<lparr>rt_config = sample_config, rt_crypto = sample_crypto, rt_hasSnapshots = True, rt_hasProviderStore = True,
     rt_redisError = None, rt_between = (\<lambda>rows. rows), rt_parse = sample_parse, rt_server = sample_server,
     rt_acquired = Inr (), rt_released = None\<rparr>"

definition sample_backend :: "event_store \<Rightarrow> backend" where
  "sample_backend rows = \<lparr>bk_rows = rows, bk_clients = [], bk_actions = [], bk_schedules = [], bk_requests = [],
     bk_registry = [], bk_terminated = []\<rparr>"

definition sample_drawn :: drawn where
  "sample_drawn = \<lparr>dr_id = ''n'', dr_tick = \<lparr>tk_id = ''t'', tk_now = 7\<rparr>, dr_tick2 = \<lparr>tk_id = ''u'', tk_now = 8\<rparr>,
     dr_random = ''r'', dr_salt = ''5a''\<rparr>"

lemma sample_routes_simps [simp]:
  "undisturbed sample_routes" "rt_redisError sample_routes = None" "others_append sample_routes b"
  "rt_between sample_routes rows = rows"
  by (simp_all add: sample_routes_def undisturbed_def others_append_def grows_refl)

lemma sample_backend_simps [simp]: "bk_rows (sample_backend rows) = rows" "bk_clients (sample_backend rows) = []"
  by (simp_all add: sample_backend_def)

definition sample_account :: stored_event where
  "sample_account = sample_row ''e0'' ''acc'' ''acc'' 1 (AccountEv (AccountRegistered
     \<lparr>reg_accountId = ''acc'', reg_deviceLimit = 5, reg_registeredAt = 0\<rparr>))"

end
