(* ===== verification/DeviceRoutes.thy ===== *)
theory DeviceRoutes
  imports Backend
begin

text \<open>
  The routes of a device: \<open>adapters/http/routes/ip-clients.ts\<close>. \<open>device_request\<close> has one constructor per
  route, \<open>device_route\<close> dispatches as the router does. The account whose limit a registration reads is
  loaded by \<open>AccountService.getState\<close>.
\<close>

section \<open>Handlers\<close>

definition countActiveIpClients :: "event_store \<Rightarrow> id \<Rightarrow> nat" where
  "countActiveIpClients rows accountId =
     length (filter (\<lambda>i. ic_status (fst (loadIpClient rows accountId i)) \<noteq> IcDecommissioned)
       (listAggregateIds rows accountId IP_CLIENT))"

definition refresh_device :: "route_deps \<Rightarrow> id \<Rightarrow> id \<Rightarrow> backend \<Rightarrow> (exn + unit) \<times> backend" where
  "refresh_device deps accountId ipClientId b =
     (let state = fst (loadIpClient (bk_rows b) accountId ipClientId) in
      case rt_redisError deps of
        Some err \<Rightarrow> (Inl err, b)
      | None \<Rightarrow> (Inr (), b\<lparr>bk_clients := upsertIpClientProjection (bk_clients b) accountId state\<rparr>))"

definition scheduleDeviceProviders :: "route_deps \<Rightarrow> id \<Rightarrow> id \<Rightarrow> backend \<Rightarrow> backend" where
  "scheduleDeviceProviders deps accountId ipClientId b =
     (if \<not> rt_hasSnapshots deps then b
      else (let providerIds = providersOfDevice (bk_rows b) accountId ipClientId in
        if length providerIds > 0 then b\<lparr>bk_schedules := bk_schedules b @ [(accountId, providerIds)]\<rparr> else b))"

definition loadOwnedIpClient :: "event_store \<Rightarrow> id \<Rightarrow> id \<Rightarrow> (IpClientState \<times> nat) option" where
  "loadOwnedIpClient rows accountId ipClientId =
     (case loadIpClient rows accountId ipClientId of (state, events, version) \<Rightarrow>
        if \<not> truthy (ic_ipClientId state) \<or> ic_accountId state \<noteq> Some accountId then None
        else Some (state, version))"

fun ip_client_status_name :: "ip_client_status \<Rightarrow> string" where
  "ip_client_status_name IcEnabled = ''enabled''"
| "ip_client_status_name IcDisabled = ''disabled''"
| "ip_client_status_name IcDecommissioned = ''decommissioned''"

fun preference_name :: "notification_preference \<Rightarrow> string" where
  "preference_name PrefOff = ''off''"
| "preference_name PrefFailuresOnly = ''failures_only''"
| "preference_name PrefAll = ''all''"

definition parse_preference :: "string \<Rightarrow> notification_preference option" where
  "parse_preference s = find (\<lambda>p. preference_name p = s) [PrefOff, PrefFailuresOnly, PrefAll]"

definition device_status_reply :: "id \<Rightarrow> ip_client_status \<Rightarrow> response" where
  "device_status_reply ipClientId status =
     Json 200 (JObj [(''ipClientId'', JStr ipClientId), (''status'', JStr (ip_client_status_name status))])"

definition credential_json :: "id \<Rightarrow> string \<Rightarrow> json" where
  "credential_json ipClientId secret = JObj [(''username'', JStr ipClientId), (''password'', JStr secret)]"

definition device_label :: "string option \<Rightarrow> string" where
  "device_label label = or_default (js_trim (nullish_or label [])) ''Unnamed device''"

definition device_register :: "route_deps \<Rightarrow> drawn \<Rightarrow> id \<Rightarrow> string option \<Rightarrow> backend \<Rightarrow> response \<times> backend" where
  "device_register deps dr accountId bodyLabel b =
     (let label = device_label bodyLabel;
          account = fst (loadAccount (bk_rows b) accountId);
          activeCount = countActiveIpClients (bk_rows b) accountId
      in if int activeCount \<ge> acc_deviceLimit account
         then (Json 409 (JObj [(''error'', JStr ''device_limit_reached''), (''limit'', JNum (acc_deviceLimit account))]), b)
         else (let ipClientId = dr_id dr; generated = generateCredential (rt_crypto deps) (dr_random dr) (dr_salt dr) in
           proceed (commit deps (dr_tick dr) (stream accountId IP_CLIENT ipClientId) 0
               (IpClientEv (IpClientRegistered \<lparr>icr_ipClientId = ipClientId, icr_accountId = accountId, icr_label = label,
                  icr_credentialHash = gc_hash generated, icr_registeredAt = tk_now (dr_tick dr)\<rparr>)) b)
             (\<lambda>e b. proceed (refresh_device deps accountId ipClientId b)
             (\<lambda>u b. (Json 201 (JObj [(''ipClientId'', JStr ipClientId), (''label'', JStr label),
                (''reportingCredential'', credential_json ipClientId (gc_secret generated))]), b)))))"

definition ip_client_summary_json :: "IpClientSummary \<Rightarrow> json" where
  "ip_client_summary_json s = JObj [(''ipClientId'', JStr (ics_ipClientId s)), (''label'', JStr (ics_label s)),
     (''status'', JStr (ip_client_status_name (ics_status s))), (''lastKnownIPv4'', text_json (ics_lastKnownIPv4 s)),
     (''lastKnownIPv6'', text_json (ics_lastKnownIPv6 s)),
     (''notificationPreference'', JStr (preference_name (ics_notificationPreference s)))]"

definition device_list :: "route_deps \<Rightarrow> id \<Rightarrow> backend \<Rightarrow> response \<times> backend" where
  "device_list deps accountId b = (case rt_redisError deps of
       Some err \<Rightarrow> (Thrown err, b)
     | None \<Rightarrow> (case listIpClientsProjection (bk_clients b) (bk_rows b) accountId of (items, redis) \<Rightarrow>
         (Json 200 (JObj [(''items'', JArr (map ip_client_summary_json items))]), b\<lparr>bk_clients := redis\<rparr>)))"

definition device_get :: "id \<Rightarrow> id \<Rightarrow> backend \<Rightarrow> response \<times> backend" where
  "device_get accountId ipClientId b = (case loadOwnedIpClient (bk_rows b) accountId ipClientId of
       None \<Rightarrow> (not_found, b)
     | Some (state, version) \<Rightarrow>
         (Json 200 (JObj [(''ipClientId'', text_json (ic_ipClientId state)), (''label'', JStr (ic_label state)),
            (''status'', JStr (ip_client_status_name (ic_status state))),
            (''lastKnownIPv4'', text_json (ic_lastKnownIPv4 state)), (''lastKnownIPv6'', text_json (ic_lastKnownIPv6 state)),
            (''notificationPreference'', JStr (preference_name (ic_notificationPreference state)))]), b))"

text \<open>The end of the three routes that change the status: append, projection, snapshots, answer.\<close>

definition device_change ::
  "route_deps \<Rightarrow> drawn \<Rightarrow> id \<Rightarrow> id \<Rightarrow> nat \<Rightarrow> ip_client_event \<Rightarrow> ip_client_status \<Rightarrow> backend \<Rightarrow> response \<times> backend" where
  "device_change deps dr accountId ipClientId version d status b =
     proceed (commit deps (dr_tick dr) (stream accountId IP_CLIENT ipClientId) version (IpClientEv d) b)
       (\<lambda>e b. proceed (refresh_device deps accountId ipClientId b)
       (\<lambda>u b. (device_status_reply ipClientId status, scheduleDeviceProviders deps accountId ipClientId b)))"

definition device_enable :: "route_deps \<Rightarrow> drawn \<Rightarrow> id \<Rightarrow> id \<Rightarrow> backend \<Rightarrow> response \<times> backend" where
  "device_enable deps dr accountId ipClientId b = (case loadOwnedIpClient (bk_rows b) accountId ipClientId of
       None \<Rightarrow> (not_found, b)
     | Some (state, version) \<Rightarrow>
         if ic_status state = IcDecommissioned then (json_error 409 ''cannot enable a decommissioned IP Client'', b)
         else device_change deps dr accountId ipClientId version (IpClientEnabled ipClientId) IcEnabled b)"

definition device_disable :: "route_deps \<Rightarrow> drawn \<Rightarrow> id \<Rightarrow> id \<Rightarrow> backend \<Rightarrow> response \<times> backend" where
  "device_disable deps dr accountId ipClientId b = (case loadOwnedIpClient (bk_rows b) accountId ipClientId of
       None \<Rightarrow> (not_found, b)
     | Some (state, version) \<Rightarrow>
         if ic_status state = IcDecommissioned then (json_error 409 ''cannot disable a decommissioned IP Client'', b)
         else device_change deps dr accountId ipClientId version (IpClientDisabled ipClientId) IcDisabled b)"

definition device_rotate :: "route_deps \<Rightarrow> drawn \<Rightarrow> id \<Rightarrow> id \<Rightarrow> backend \<Rightarrow> response \<times> backend" where
  "device_rotate deps dr accountId ipClientId b = (case loadOwnedIpClient (bk_rows b) accountId ipClientId of
       None \<Rightarrow> (not_found, b)
     | Some (state, version) \<Rightarrow>
         if ic_status state = IcDecommissioned
         then (json_error 409 ''cannot rotate the credential of a decommissioned IP Client'', b)
         else (let generated = generateCredential (rt_crypto deps) (dr_random dr) (dr_salt dr) in
           proceed (commit deps (dr_tick dr) (stream accountId IP_CLIENT ipClientId) version
               (IpClientEv (IpClientCredentialRotated (gc_hash generated) (tk_now (dr_tick dr)))) b)
             (\<lambda>e b. (Json 200 (JObj [(''ipClientId'', JStr ipClientId),
                (''reportingCredential'', credential_json ipClientId (gc_secret generated))]), b))))"

definition device_prefer :: "route_deps \<Rightarrow> drawn \<Rightarrow> id \<Rightarrow> id \<Rightarrow> string option \<Rightarrow> backend \<Rightarrow> response \<times> backend" where
  "device_prefer deps dr accountId ipClientId bodyPreference b = (case loadOwnedIpClient (bk_rows b) accountId ipClientId of
       None \<Rightarrow> (not_found, b)
     | Some (state, version) \<Rightarrow>
         (case parse_preference (nullish_or bodyPreference []) of
            None \<Rightarrow> (json_error 400 ''preference must be one of \"off\", \"failures_only\", \"all\"'', b)
          | Some preference \<Rightarrow>
              proceed (commit deps (dr_tick dr) (stream accountId IP_CLIENT ipClientId) version
                  (IpClientEv (NotificationPreferenceSet preference)) b)
                (\<lambda>e b. proceed (refresh_device deps accountId ipClientId b)
                (\<lambda>u b. (Json 200 (JObj [(''ipClientId'', JStr ipClientId),
                   (''notificationPreference'', JStr (preference_name preference))]), b)))))"

definition device_decommission :: "route_deps \<Rightarrow> drawn \<Rightarrow> id \<Rightarrow> id \<Rightarrow> backend \<Rightarrow> response \<times> backend" where
  "device_decommission deps dr accountId ipClientId b = (case loadOwnedIpClient (bk_rows b) accountId ipClientId of
       None \<Rightarrow> (not_found, b)
     | Some (state, version) \<Rightarrow>
         if ic_status state = IcDecommissioned then (device_status_reply ipClientId IcDecommissioned, b)
         else device_change deps dr accountId ipClientId version (IpClientDecommissioned (tk_now (dr_tick dr))) IcDecommissioned b)"

datatype device_request =
    RegisterDevice "string option"
  | ListDevices
  | GetDevice id
  | EnableDevice id
  | DisableDevice id
  | RotateCredential id
  | SetPreference id "string option"
  | DecommissionDevice id

fun device_route :: "route_deps \<Rightarrow> drawn \<Rightarrow> id \<Rightarrow> device_request \<Rightarrow> backend \<Rightarrow> response \<times> backend" where
  "device_route deps dr acc (RegisterDevice label) b = device_register deps dr acc label b"
| "device_route deps dr acc ListDevices b = device_list deps acc b"
| "device_route deps dr acc (GetDevice i) b = device_get acc i b"
| "device_route deps dr acc (EnableDevice i) b = device_enable deps dr acc i b"
| "device_route deps dr acc (DisableDevice i) b = device_disable deps dr acc i b"
| "device_route deps dr acc (RotateCredential i) b = device_rotate deps dr acc i b"
| "device_route deps dr acc (SetPreference i p) b = device_prefer deps dr acc i p b"
| "device_route deps dr acc (DecommissionDevice i) b = device_decommission deps dr acc i b"

fun requested_device :: "device_request \<Rightarrow> id option" where
  "requested_device (RegisterDevice label) = None"
| "requested_device ListDevices = None"
| "requested_device (GetDevice i) = Some i"
| "requested_device (EnableDevice i) = Some i"
| "requested_device (DisableDevice i) = Some i"
| "requested_device (RotateCredential i) = Some i"
| "requested_device (SetPreference i p) = Some i"
| "requested_device (DecommissionDevice i) = Some i"

section \<open>What a request can write\<close>

interpretation icr: guarded_route initialIpClientState ip_client_apply ip_client_allowed "\<lambda>st. ic_status st = IcDecommissioned"
  by unfold_locales

abbreviation device_outcome :: "route_deps \<Rightarrow> id \<Rightarrow> id \<Rightarrow> event_store \<Rightarrow> event_store \<Rightarrow> bool" where
  "device_outcome deps acc i \<equiv>
     guarded_outcome (replay initialIpClientState ip_client_apply) ip_client_allowed deps (stream acc IP_CLIENT i)"

lemma refresh_rows [simp]: "bk_rows (snd (refresh_device deps acc i b)) = bk_rows b"
  by (simp add: refresh_device_def Let_def split: option.split)

lemma schedule_rows [simp]: "bk_rows (scheduleDeviceProviders deps acc i b) = bk_rows b"
  by (simp add: scheduleDeviceProviders_def Let_def)

lemma refresh_proceed_rows:
  assumes "\<And>b. bk_rows (snd (k b)) = bk_rows b"
  shows "bk_rows (snd (proceed (refresh_device deps acc i b) (\<lambda>u. k))) = bk_rows b"
  by (subst proceed_rows) (simp_all add: assms)

lemma commit_device_outcome:
  assumes "wf_store (bk_rows b)" and "others_append deps b"
    and "ip_client_allowed (fst (loadIpClient (bk_rows b) acc i)) (IpClientEv d)"
  shows "device_outcome deps acc i (bk_rows b)
    (bk_rows (snd (commit deps tk (stream acc IP_CLIENT i) (length (readStream (bk_rows b) (stream acc IP_CLIENT i))) (IpClientEv d) b)))"
  by (rule icr.commit_outcome) (use assms in \<open>simp_all add: replay_loads(1)\<close>)

lemma loadOwnedIpClient_Some:
  "loadOwnedIpClient rows acc i = Some (st, n) \<longleftrightarrow> st = fst (loadIpClient rows acc i) \<and> n = length (readStream rows (stream acc IP_CLIENT i))
     \<and> truthy (ic_ipClientId st) \<and> ic_accountId st = Some acc"
  unfolding loadOwnedIpClient_def by (subst loads_eq(1)) auto

lemma device_change_rows:
  "bk_rows (snd (device_change deps dr acc i n d status b)) = bk_rows (snd (commit deps (dr_tick dr) (stream acc IP_CLIENT i) n (IpClientEv d) b))"
  unfolding device_change_def by (intro proceed_rows refresh_proceed_rows) simp

text \<open>Every request on the device it names; a registration on the device it creates.\<close>

lemma device_route_outcome:
  assumes "wf_store (bk_rows b)" and "others_append deps b"
  shows "device_outcome deps acc (nullish_or (requested_device req) (dr_id dr)) (bk_rows b) (bk_rows (snd (device_route deps dr acc req b)))"
proof (cases req)
  case (RegisterDevice label)
  have "bk_rows (snd (device_register deps dr acc label b)) = bk_rows b \<or>
      (\<exists>d. bk_rows (snd (device_register deps dr acc label b)) =
        bk_rows (snd (commit deps (dr_tick dr) (stream acc IP_CLIENT (dr_id dr)) 0 (IpClientEv (IpClientRegistered d)) b)))"
    unfolding device_register_def Let_def
    by (simp add: proceed_rows refresh_proceed_rows) blast
  moreover have "ip_client_allowed initialIpClientState (IpClientEv (IpClientRegistered d))" for d
    by (simp add: initialIpClientState_def)
  ultimately show ?thesis using icr.create_outcome [OF assms] RegisterDevice by fastforce
next
  case ListDevices
  then show ?thesis by (simp add: device_list_def split: option.split prod.split)
next
  case (GetDevice i)
  then show ?thesis by (simp add: device_get_def split: option.split)
next
  case (EnableDevice i)
  with commit_device_outcome [OF assms, of acc i "IpClientEnabled i"] show ?thesis
    by (auto simp: device_enable_def device_change_rows loadOwnedIpClient_Some split: option.split)
next
  case (DisableDevice i)
  with commit_device_outcome [OF assms, of acc i "IpClientDisabled i"] show ?thesis
    by (auto simp: device_disable_def device_change_rows loadOwnedIpClient_Some split: option.split)
next
  case (RotateCredential i)
  with commit_device_outcome [OF assms, of acc i "IpClientCredentialRotated h t" for h t] show ?thesis
    by (auto simp: device_rotate_def proceed_rows Let_def loadOwnedIpClient_Some split: option.split)
next
  case (SetPreference i p)
  with commit_device_outcome [OF assms, of acc i "NotificationPreferenceSet q" for q] show ?thesis
    by (auto simp: device_prefer_def proceed_rows refresh_proceed_rows loadOwnedIpClient_Some split: option.split)
next
  case (DecommissionDevice i)
  with commit_device_outcome [OF assms, of acc i "IpClientDecommissioned t" for t] show ?thesis
    by (auto simp: device_decommission_def device_change_rows loadOwnedIpClient_Some split: option.split)
qed

lemma device_route_foreign:
  assumes "requested_device req = Some i" and "loadOwnedIpClient (bk_rows b) acc i = None"
  shows "device_route deps dr acc req b = (not_found, b)"
  using assms by (cases req) (simp_all add: device_get_def device_enable_def device_disable_def device_rotate_def
      device_prefer_def device_decommission_def)

section \<open>The device limit\<close>

definition active_devices :: "event_store \<Rightarrow> id \<Rightarrow> id set" where
  "active_devices rows acc = {i. readStream rows (stream acc IP_CLIENT i) \<noteq> []
     \<and> ic_status (fst (loadIpClient rows acc i)) \<noteq> IcDecommissioned}"

lemma count_is_card: "countActiveIpClients rows acc = card (active_devices rows acc)"
  and finite_active_devices [simp]: "finite (active_devices rows acc)"
proof -
  have eq: "active_devices rows acc = set (filter (\<lambda>i. ic_status (fst (loadIpClient rows acc i)) \<noteq> IcDecommissioned)
      (listAggregateIds rows acc IP_CLIENT))"
    by (auto simp: active_devices_def set_listAggregateIds)
  show "countActiveIpClients rows acc = card (active_devices rows acc)"
    unfolding eq countActiveIpClients_def by (rule distinct_card [symmetric]) simp
  show "finite (active_devices rows acc)" unfolding eq by (rule finite_set)
qed

text \<open>One allowed event of a device adds at most that device, and only if it was not there before.\<close>

lemma active_after:
  assumes "wrote rows rows' (stream acc IP_CLIENT i) d" and "wf_store rows" and "wf_store rows'"
    and "ip_client_allowed (fst (loadIpClient rows acc i)) d"
  shows "active_devices rows' acc \<subseteq> insert i (active_devices rows acc)"
    and "readStream rows (stream acc IP_CLIENT i) \<noteq> [] \<Longrightarrow> active_devices rows' acc \<subseteq> active_devices rows acc"
proof -
  obtain e where own: "readStream rows' (stream acc IP_CLIENT i) = readStream rows (stream acc IP_CLIENT i) @ [e]" "ev_data e = d"
    and other: "\<And>k'. k' \<noteq> stream acc IP_CLIENT i \<Longrightarrow> readStream rows' k' = readStream rows k'"
    by (rule wrote_reads [OF assms(2,3,1)]) blast
  have load: "loadIpClient rows' acc j = loadIpClient rows acc j" if "j \<noteq> i" for j
    using that by (intro loads_cong(1) other) simp
  have st: "fst (loadIpClient rows' acc i) = ip_client_apply (fst (loadIpClient rows acc i)) d"
    using own by (simp add: load_defs Let_def ipClientReducer_def)
  have still: "ic_status (fst (loadIpClient rows' acc i)) \<noteq> IcDecommissioned \<Longrightarrow> ic_status (fst (loadIpClient rows acc i)) \<noteq> IcDecommissioned"
    using ic.final_stays [OF _ assms(4)] by (auto simp: st)
  show "active_devices rows' acc \<subseteq> insert i (active_devices rows acc)"
  proof
    fix j
    assume "j \<in> active_devices rows' acc"
    then show "j \<in> insert i (active_devices rows acc)"
      using load other by (cases "j = i") (auto simp: active_devices_def)
  qed
  then show "active_devices rows' acc \<subseteq> active_devices rows acc" if "readStream rows (stream acc IP_CLIENT i) \<noteq> []"
    using that still by (auto simp: active_devices_def)
qed

lemma owned_listed:
  assumes "loadOwnedIpClient rows acc i = Some x"
  shows "readStream rows (stream acc IP_CLIENT i) \<noteq> []"
proof
  assume "readStream rows (stream acc IP_CLIENT i) = []"
  with assms show False by (cases x) (simp add: loadOwnedIpClient_Some load_defs initialIpClientState_def)
qed

lemma device_register_limit:
  assumes "int (countActiveIpClients (bk_rows b) acc) \<ge> acc_deviceLimit (fst (loadAccount (bk_rows b) acc))"
  shows "device_register deps dr acc label b =
    (Json 409 (JObj [(''error'', JStr ''device_limit_reached''), (''limit'', JNum (acc_deviceLimit (fst (loadAccount (bk_rows b) acc))))]), b)"
  using assms by (simp add: device_register_def Let_def)

section \<open>The device list follows the devices\<close>

definition device_ids_ok :: "event_store \<Rightarrow> bool" where
  "device_ids_ok rows = (\<forall>r \<in> set rows. \<forall>d. ev_data r = IpClientEv (IpClientRegistered d) \<longrightarrow> icr_ipClientId d = ev_aggregateId r)"

lemma device_id_of_stream:
  assumes "device_ids_ok rows"
  shows "ic_ipClientId (fst (loadIpClient rows acc i)) = None \<or> ic_ipClientId (fst (loadIpClient rows acc i)) = Some i"
proof -
  have "ic_ipClientId (foldl ipClientReducer initialIpClientState (readStream rows (stream acc IP_CLIENT i))) \<in> {None, Some i}"
  proof (rule foldl_invariant [where I = "\<lambda>st. ic_ipClientId st \<in> {None, Some i}"])
    fix st :: IpClientState and e
    assume "e \<in> set (readStream rows (stream acc IP_CLIENT i))" and I: "ic_ipClientId st \<in> {None, Some i}"
    then have e: "e \<in> set rows" "ev_aggregateId e = i" by (auto simp: readStream_def in_stream_def)
    show "ic_ipClientId (ipClientReducer st e) \<in> {None, Some i}"
    proof (cases "\<exists>d. ev_data e = IpClientEv (IpClientRegistered d)")
      case True
      with assms e show ?thesis by (auto simp: device_ids_ok_def ipClientReducer_def)
    next
      case False
      then have "ic_ipClientId (ip_client_apply st (ev_data e)) = ic_ipClientId st"
        by (cases "(st, ev_data e)" rule: ip_client_apply.cases) auto
      with I show ?thesis by (simp add: ipClientReducer_def)
    qed
  qed (simp add: initialIpClientState_def)
  then show ?thesis by (simp add: load_defs Let_def)
qed

text \<open>What the list should show: the visible summary of every device of the account.\<close>

definition devices_shown :: "event_store \<Rightarrow> id \<Rightarrow> id \<Rightarrow> IpClientSummary option" where
  "devices_shown rows acc i = (if i \<in> set (listAggregateIds rows acc IP_CLIENT)
     then visible_ip_client (fst (loadIpClient rows acc i)) else None)"

definition device_view_ok :: "id \<Rightarrow> backend \<Rightarrow> bool" where
  "device_view_ok acc b = (wf_store (bk_rows b) \<and> device_ids_ok (bk_rows b)
     \<and> map_of (r_hgetall (bk_clients b) (ip_clients_key acc)) = devices_shown (bk_rows b) acc
     \<and> distinct (map fst (r_hgetall (bk_clients b) (ip_clients_key acc))))"

lemma devices_shown_own: "devices_shown rows acc i = visible_ip_client (fst (loadIpClient rows acc i))"
proof (cases "readStream rows (stream acc IP_CLIENT i) = []")
  case True
  then have "visible_ip_client (fst (loadIpClient rows acc i)) = None"
    by (simp add: load_defs initialIpClientState_def visible_ip_client_def ip_client_summary_def)
  then show ?thesis by (simp add: devices_shown_def)
qed (simp add: devices_shown_def set_listAggregateIds)

lemma visible_Some: "visible_ip_client st = Some s \<longleftrightarrow> ic_status st \<noteq> IcDecommissioned \<and> ip_client_summary st = Some s"
  by (simp add: visible_ip_client_def)

lemma devices_shown_wrote:
  assumes "wf_store rows" and "wf_store rows'" and "wrote rows rows' (stream acc IP_CLIENT i) d"
  shows "devices_shown rows' acc = (devices_shown rows acc)(i := visible_ip_client (fst (loadIpClient rows' acc i)))"
proof
  fix j
  from assms obtain e where other: "\<And>k'. k' \<noteq> stream acc IP_CLIENT i \<Longrightarrow> readStream rows' k' = readStream rows k'"
    by (auto elim: wrote_reads)
  have "loadIpClient rows' acc j = loadIpClient rows acc j" if "j \<noteq> i" using that by (intro loads_cong(1) other) simp
  then show "devices_shown rows' acc j = ((devices_shown rows acc)(i := visible_ip_client (fst (loadIpClient rows' acc i)))) j"
    by (simp add: devices_shown_own)
qed

lemma put_ip_client_distinct: "distinct (map fst h) \<Longrightarrow> distinct (map fst (put_ip_client h s))"
  by (simp add: put_ip_client_def distinct_update distinct_delete split: option.split)

lemma add_ip_client_distinct: "distinct (map fst h) \<Longrightarrow> distinct (map fst (add_ip_client h s))"
  by (simp add: add_ip_client_def distinct_update split: option.split)

lemma put_ip_client_map:
  assumes "ic_ipClientId s = Some i" and "i = [] \<Longrightarrow> map_of h i = None"
  shows "map_of (put_ip_client h s) = (map_of h)(i := visible_ip_client s)"
proof (cases "i = []")
  case True
  with assms show ?thesis
    by (auto simp: put_ip_client_def visible_ip_client_def ip_client_summary_def)
next
  case False
  with assms show ?thesis by (intro ipm.put_shown) (simp add: ip_client_field_def)
qed

text \<open>A commit on a device's stream followed by a refresh keeps the view.\<close>

lemma device_view_refresh:
  assumes ok: "device_view_ok acc b" and calm: "undisturbed deps" "rt_redisError deps = None"
    and legal: "ip_client_allowed (fst (loadIpClient (bk_rows b) acc i)) (IpClientEv d)"
    and own: "ic_ipClientId (ip_client_apply (fst (loadIpClient (bk_rows b) acc i)) (IpClientEv d)) = Some i"
    and reg: "\<And>x. d = IpClientRegistered x \<Longrightarrow> icr_ipClientId x = i"
    and k: "\<And>e b. bk_rows (snd (k e b)) = bk_rows b" "\<And>e b. bk_clients (snd (k e b)) = bk_clients b"
  shows "device_view_ok acc (snd (proceed (commit deps tk (stream acc IP_CLIENT i)
      (length (readStream (bk_rows b) (stream acc IP_CLIENT i))) (IpClientEv d) b)
    (\<lambda>e b. proceed (refresh_device deps acc i b) (\<lambda>u. k e))))"
proof (cases rule: commit_cases [of deps tk "stream acc IP_CLIENT i" "length (readStream (bk_rows b) (stream acc IP_CLIENT i))" "IpClientEv d" b])
  case conflict
  with ok calm show ?thesis by (simp add: undisturbed_def)
next
  case (appended e)
  have wf: "wf_store (bk_rows b)" using ok by (simp add: device_view_ok_def)
  note new = append_after_load [OF wf undisturbed_appends [OF calm(1)] appended(2)]
  let ?rows' = "bk_rows b @ [e]" and ?h = "r_hgetall (bk_clients b) (ip_clients_key acc)"
  have between: "rt_between deps (bk_rows b) = bk_rows b" using calm(1) by (simp add: undisturbed_def)
  define st' where "st' = fst (loadIpClient ?rows' acc i)"
  have st': "st' = ip_client_apply (fst (loadIpClient (bk_rows b) acc i)) (IpClientEv d)"
    unfolding st'_def using new(6,7) by (simp add: between load_defs Let_def ipClientReducer_def)
  have wf': "wf_store ?rows'" using new(3) by (simp add: between)
  have w: "wrote (bk_rows b) ?rows' (stream acc IP_CLIENT i) (IpClientEv d)" using new(5,6) by (auto simp: wrote_def)
  have ids: "device_ids_ok ?rows'"
    using ok reg new(5,6) by (auto simp: device_ids_ok_def device_view_ok_def in_stream_def)
  have empty: "map_of ?h i = None" if "i = []"
    using ok that device_id_of_stream [of "bk_rows b" acc i]
    by (auto simp: device_view_ok_def devices_shown_own visible_ip_client_def ip_client_summary_def)
  have "map_of (put_ip_client ?h st') = devices_shown ?rows' acc"
    using put_ip_client_map [OF own [folded st'] empty] ok
    by (simp add: device_view_ok_def devices_shown_wrote [OF wf wf' w] st'_def)
  moreover have "snd (proceed (commit deps tk (stream acc IP_CLIENT i)
      (length (readStream (bk_rows b) (stream acc IP_CLIENT i))) (IpClientEv d) b) (\<lambda>e b. proceed (refresh_device deps acc i b) (\<lambda>u. k e)))
    = snd (k e (b\<lparr>bk_rows := ?rows', bk_clients := upsertIpClientProjection (bk_clients b) acc st'\<rparr>))"
    using appended(1) calm(2) by (simp add: between refresh_device_def Let_def st'_def)
  moreover have "distinct (map fst (put_ip_client ?h st'))"
    using ok by (intro put_ip_client_distinct) (simp add: device_view_ok_def)
  ultimately show ?thesis using wf' ids by (simp add: device_view_ok_def k upsert_ip_client_hash)
qed

lemma schedule_clients [simp]: "bk_clients (scheduleDeviceProviders deps acc i b) = bk_clients b"
  by (simp add: scheduleDeviceProviders_def Let_def)

text \<open>A rotation changes nothing the list shows, so it needs no refresh.\<close>

lemma device_view_rotate:
  assumes ok: "device_view_ok acc b" and calm: "undisturbed deps"
    and k: "\<And>e b. bk_rows (snd (k e b)) = bk_rows b" "\<And>e b. bk_clients (snd (k e b)) = bk_clients b"
  shows "device_view_ok acc (snd (proceed (commit deps tk (stream acc IP_CLIENT i)
      (length (readStream (bk_rows b) (stream acc IP_CLIENT i))) (IpClientEv (IpClientCredentialRotated h t)) b) k))"
proof (cases rule: commit_cases [of deps tk "stream acc IP_CLIENT i" "length (readStream (bk_rows b) (stream acc IP_CLIENT i))"
      "IpClientEv (IpClientCredentialRotated h t)" b])
  case conflict
  with ok calm show ?thesis by (simp add: undisturbed_def)
next
  case (appended e)
  have wf: "wf_store (bk_rows b)" using ok by (simp add: device_view_ok_def)
  note new = append_after_load [OF wf undisturbed_appends [OF calm] appended(2)]
  let ?rows' = "bk_rows b @ [e]"
  have between: "rt_between deps (bk_rows b) = bk_rows b" using calm by (simp add: undisturbed_def)
  have w: "wrote (bk_rows b) ?rows' (stream acc IP_CLIENT i) (IpClientEv (IpClientCredentialRotated h t))"
    using new(5,6) by (auto simp: wrote_def)
  have "fst (loadIpClient ?rows' acc i) = (fst (loadIpClient (bk_rows b) acc i))\<lparr>ic_credentialHash := Some h\<rparr>"
    using new(6,7) by (simp add: between load_defs Let_def ipClientReducer_def)
  then have "visible_ip_client (fst (loadIpClient ?rows' acc i)) = devices_shown (bk_rows b) acc i"
    by (simp add: devices_shown_own visible_ip_client_def ip_client_summary_def)
  then have "devices_shown ?rows' acc = devices_shown (bk_rows b) acc"
    using devices_shown_wrote [OF wf _ w] new(3) by (simp add: between)
  with ok new(3,5,6) appended(1) show ?thesis by (simp add: device_view_ok_def between k device_ids_ok_def in_stream_def)
qed

lemma list_rows: "bk_rows (snd (device_list deps acc b)) = bk_rows b"
  by (simp add: device_list_def split: option.split prod.split)

lemma device_view_list:
  assumes ok: "device_view_ok acc b"
  shows "device_view_ok acc (snd (device_list deps acc b))"
    and "rt_redisError deps = None \<Longrightarrow> \<exists>items. fst (device_list deps acc b) = Json 200 (JObj [(''items'', JArr (map ip_client_summary_json items))])
      \<and> set items = ran (devices_shown (bk_rows b) acc)"
proof -
  let ?key = "ip_clients_key acc" and ?h = "r_hgetall (bk_clients b) (ip_clients_key acc)"
  obtain items redis where li: "listIpClientsProjection (bk_clients b) (bk_rows b) acc = (items, redis)" by fastforce
  have shown: "map_of (r_hgetall redis ?key) = devices_shown (bk_rows b) acc \<and> distinct (map fst (r_hgetall redis ?key))"
  proof (cases "r_exists (bk_clients b) ?key")
    case True
    with li ok show ?thesis by (auto simp: listIpClientsProjection_def Let_def device_view_ok_def)
  next
    case False
    have ids: "device_ids_ok (bk_rows b)" using ok by (simp add: device_view_ok_def)
    have fields: "ip_client_field (fst (loadIpClient (bk_rows b) acc i)) = Some i
        \<or> visible_ip_client (fst (loadIpClient (bk_rows b) acc i)) = None" for i
      using device_id_of_stream [OF ids, of acc i]
      by (auto simp: ip_client_field_def visible_ip_client_def ip_client_summary_def)
    have eq: "r_hgetall redis ?key = foldl (\<lambda>h i. add_ip_client h (fst (loadIpClient (bk_rows b) acc i))) [] (listAggregateIds (bk_rows b) acc IP_CLIENT)"
      using li False by (auto simp: listIpClientsProjection_def Let_def rebuild_ip_clients_hash)
    moreover have "distinct (map fst (r_hgetall redis ?key))"
      unfolding eq by (rule foldl_invariant) (simp_all add: add_ip_client_distinct)
    ultimately show ?thesis
      using ipm.rebuild_content [of "listAggregateIds (bk_rows b) acc IP_CLIENT" "\<lambda>i. fst (loadIpClient (bk_rows b) acc i)" "[]"] fields
      by (auto simp: fun_eq_iff devices_shown_def)
  qed
  with ok li show "device_view_ok acc (snd (device_list deps acc b))"
    by (simp add: device_list_def device_view_ok_def split: option.split)
  have "items = map snd (r_hgetall redis ?key)" using li by (auto simp: listIpClientsProjection_def Let_def)
  moreover from shown have "ran (devices_shown (bk_rows b) acc) = snd ` set (r_hgetall redis ?key)"
    using ran_distinct [of "r_hgetall redis ?key"] by simp
  ultimately have "set items = ran (devices_shown (bk_rows b) acc)" by simp
  with li show "\<exists>items. fst (device_list deps acc b) = Json 200 (JObj [(''items'', JArr (map ip_client_summary_json items))])
      \<and> set items = ran (devices_shown (bk_rows b) acc)" if "rt_redisError deps = None"
    using that by (simp add: device_list_def) blast
qed

lemma owned_id:
  assumes "device_view_ok acc b" and "loadOwnedIpClient (bk_rows b) acc i = Some (st, n)"
  shows "ic_ipClientId (fst (loadIpClient (bk_rows b) acc i)) = Some i" and "st = fst (loadIpClient (bk_rows b) acc i)"
    and "n = length (readStream (bk_rows b) (stream acc IP_CLIENT i))"
  using assms device_id_of_stream [of "bk_rows b" acc i] by (auto simp: loadOwnedIpClient_Some device_view_ok_def)

lemma device_view_change:
  assumes "device_view_ok acc b" and "undisturbed deps" and "rt_redisError deps = None"
    and "loadOwnedIpClient (bk_rows b) acc i = Some (st, n)"
    and "ip_client_allowed st (IpClientEv d)" and "ic_ipClientId (ip_client_apply st (IpClientEv d)) = ic_ipClientId st"
    and "\<And>x. d \<noteq> IpClientRegistered x"
  shows "device_view_ok acc (snd (device_change deps dr acc i n d status b))"
  unfolding device_change_def owned_id(3) [OF assms(1,4)]
  by (rule device_view_refresh [OF assms(1-3)]) (use assms(5-7) owned_id [OF assms(1,4)] in simp_all)

lemma device_view_prefer:
  assumes "device_view_ok acc b" and "undisturbed deps" and "rt_redisError deps = None"
  shows "device_view_ok acc (snd (device_prefer deps dr acc i p b))"
proof (cases "loadOwnedIpClient (bk_rows b) acc i")
  case None
  with assms(1) show ?thesis by (simp add: device_prefer_def)
next
  case (Some x)
  obtain st n where x: "x = (st, n)" by fastforce
  note own = owned_id [OF assms(1) Some [unfolded x]]
  show ?thesis
  proof (cases "parse_preference (nullish_or p [])")
    case None
    with Some x assms(1) show ?thesis by (simp add: device_prefer_def)
  next
    case pref: (Some q)
    show ?thesis unfolding device_prefer_def Some x option.case prod.case pref own(3)
      by (rule device_view_refresh [OF assms]) (use own in simp_all)
  qed
qed

lemma device_view_register:
  assumes "device_view_ok acc b" and "undisturbed deps" and "rt_redisError deps = None"
  shows "device_view_ok acc (snd (device_register deps dr acc label b))"
proof (cases "int (countActiveIpClients (bk_rows b) acc) \<ge> acc_deviceLimit (fst (loadAccount (bk_rows b) acc))")
  case True
  with assms(1) show ?thesis by (simp add: device_register_limit)
next
  case False
  let ?k = "stream acc IP_CLIENT (dr_id dr)"
  show ?thesis
  proof (cases "readStream (bk_rows b) ?k = []")
    case True
    then have zero: "(0 :: nat) = length (readStream (bk_rows b) ?k)" by simp
    show ?thesis unfolding device_register_def Let_def if_not_P [OF False] zero
      by (rule device_view_refresh [OF assms]) (use True in \<open>simp_all add: load_defs initialIpClientState_def\<close>)
  next
    case taken: False
    have "wf_store (bk_rows b)" using assms(1) by (simp add: device_view_ok_def)
    from create_taken [OF this assms(2) taken] assms(1) show ?thesis
      unfolding device_register_def Let_def if_not_P [OF False] by simp
  qed
qed

lemma device_view_route:
  assumes "device_view_ok acc b" and "undisturbed deps" and "rt_redisError deps = None"
  shows "device_view_ok acc (snd (device_route deps dr acc req b))"
proof -
  have change: "device_view_ok acc (snd (case loadOwnedIpClient (bk_rows b) acc i of None \<Rightarrow> (not_found, b)
      | Some (state, version) \<Rightarrow> if ic_status state = IcDecommissioned then (resp, b)
          else device_change deps dr acc i version d status b))"
    if "\<And>st. ic_status st \<noteq> IcDecommissioned \<Longrightarrow> ip_client_allowed st (IpClientEv d)"
      "\<And>st. ic_ipClientId (ip_client_apply st (IpClientEv d)) = ic_ipClientId st" "\<And>x. d \<noteq> IpClientRegistered x" for i d status resp
    using assms(1) device_view_change [OF assms _ that(1) that(2,3)]
    by (cases "loadOwnedIpClient (bk_rows b) acc i") (auto split: prod.split)
  have rotate: "device_view_ok acc (snd (device_rotate deps dr acc i b))" for i
  proof (cases "loadOwnedIpClient (bk_rows b) acc i")
    case (Some x)
    obtain st n where x: "x = (st, n)" by fastforce
    show ?thesis
      unfolding device_rotate_def Some x option.case prod.case owned_id(3) [OF assms(1) Some [unfolded x]] Let_def
      using assms(1) device_view_rotate [OF assms(1,2)] by simp
  qed (use assms(1) in \<open>simp add: device_rotate_def\<close>)
  show ?thesis
    using device_view_register [OF assms] device_view_prefer [OF assms] device_view_list(1) [OF assms(1)] rotate
    by (cases req) (simp_all add: device_enable_def device_disable_def device_decommission_def change,
      use assms(1) in \<open>simp add: device_get_def split: option.split\<close>)
qed

section \<open>Properties\<close>

text \<open>C13. The device routes respect ownership and the device's life cycle, even when other writers append between a
  handler's read and its write: a request on a device that is not the account's answers 404 and does
  nothing; every other request adds to the table at most one event, to the stream of the device it names
  or creates, and one its guard allows in the state that stream has at that moment; so a decommissioned
  device stays decommissioned, and no other stream changes by the request.\<close>
theorem device_requests_guarded:
  assumes "wf_store (bk_rows b)" and "others_append deps b" and "device_route deps dr acc req b = (resp, b')"
  defines "i \<equiv> nullish_or (requested_device req) (dr_id dr)" and "seen \<equiv> rt_between deps (bk_rows b)"
  shows "(\<forall>j. requested_device req = Some j \<and> loadOwnedIpClient (bk_rows b) acc j = None \<longrightarrow> resp = not_found \<and> b' = b)
    \<and> (bk_rows b' = bk_rows b \<or> bk_rows b' = seen \<or> (\<exists>e. bk_rows b' = seen @ [e] \<and> in_stream (stream acc IP_CLIENT i) e
        \<and> ip_client_allowed (fst (loadIpClient seen acc i)) (ev_data e)
        \<and> (\<forall>k. k \<noteq> stream acc IP_CLIENT i \<longrightarrow> readStream (bk_rows b') k = readStream seen k)))
    \<and> (bk_rows b' \<noteq> bk_rows b \<and> ic_status (fst (loadIpClient seen acc i)) = IcDecommissioned \<longrightarrow>
        ic_status (fst (loadIpClient (bk_rows b') acc i)) = IcDecommissioned)"
proof -
  have b': "b' = snd (device_route deps dr acc req b)" by (simp add: assms(3))
  have outcome: "device_outcome deps acc i (bk_rows b) (bk_rows b')"
    unfolding b' i_def by (rule device_route_outcome [OF assms(1,2)])
  have foreign: "resp = not_found \<and> b' = b" if "requested_device req = Some j" "loadOwnedIpClient (bk_rows b) acc j = None" for j
    using device_route_foreign [OF that, of deps dr] assms(3) by simp
  with icr.guarded_request [OF outcome] show ?thesis
    unfolding seen_def replay_loads(1) by blast
qed

text \<open>The device limit: a request raises the number of active devices of the account only if it is a registration,
  by one, and to at most the limit; at the limit a registration answers 409 and does nothing.\<close>
theorem device_limit_kept:
  assumes "wf_store (bk_rows b)" and "undisturbed deps" and "device_route deps dr acc req b = (resp, b')"
  defines "n \<equiv> countActiveIpClients (bk_rows b) acc" and "n' \<equiv> countActiveIpClients (bk_rows b') acc"
    and "limit \<equiv> acc_deviceLimit (fst (loadAccount (bk_rows b) acc))"
  shows "(n < n' \<longrightarrow> (\<exists>label. req = RegisterDevice label) \<and> n' = n + 1 \<and> int n' \<le> limit)
    \<and> (int n \<ge> limit \<longrightarrow> (\<forall>label. req = RegisterDevice label \<longrightarrow> resp_status resp = 409 \<and> b' = b))"
proof -
  define i where "i = nullish_or (requested_device req) (dr_id dr)"
  have b': "b' = snd (device_route deps dr acc req b)" by (simp add: assms(3))
  have refused: "resp_status resp = 409 \<and> b' = b" if "int n \<ge> limit" "req = RegisterDevice label" for label
    using that assms(3) device_register_limit [of b acc deps dr label] by (auto simp: n_def limit_def)
  have "(\<exists>label. req = RegisterDevice label) \<and> n' = n + 1 \<and> int n' \<le> limit" if more: "n < n'"
  proof -
    have "device_outcome deps acc i (bk_rows b) (bk_rows b')"
      unfolding b' i_def by (rule device_route_outcome [OF assms(1) undisturbed_appends [OF assms(2)]])
    moreover have between: "rt_between deps (bk_rows b) = bk_rows b" using assms(2) by (simp add: undisturbed_def)
    ultimately consider "bk_rows b' = bk_rows b" | d where "wrote (bk_rows b) (bk_rows b') (stream acc IP_CLIENT i) d"
        "ip_client_allowed (fst (loadIpClient (bk_rows b) acc i)) d" "wf_store (bk_rows b')"
      by (auto simp: guarded_outcome_def replay_loads(1))
    then have sub: "active_devices (bk_rows b') acc \<subseteq> insert i (active_devices (bk_rows b) acc)
        \<and> (readStream (bk_rows b) (stream acc IP_CLIENT i) \<noteq> [] \<longrightarrow> active_devices (bk_rows b') acc \<subseteq> active_devices (bk_rows b) acc)"
    proof cases
      case 1
      then show ?thesis by (simp only: subset_insertI order_refl simp_thms)
    next
      case (2 d)
      from active_after [OF 2(1) assms(1) 2(3,2)] show ?thesis by blast
    qed
    have new: "readStream (bk_rows b) (stream acc IP_CLIENT i) = []"
    proof (rule ccontr)
      assume "readStream (bk_rows b) (stream acc IP_CLIENT i) \<noteq> []"
      with sub have "card (active_devices (bk_rows b') acc) \<le> card (active_devices (bk_rows b) acc)"
        by (intro card_mono) simp_all
      with more show False by (simp add: n_def n'_def count_is_card)
    qed
    have "card (active_devices (bk_rows b') acc) \<le> card (insert i (active_devices (bk_rows b) acc))"
      using sub by (intro card_mono) simp_all
    also have "\<dots> \<le> card (active_devices (bk_rows b) acc) + 1" by (simp add: card_insert_if)
    finally have one: "n' = n + 1" using more by (simp add: n_def n'_def count_is_card)
    have reg: "\<exists>label. req = RegisterDevice label"
    proof (cases "requested_device req")
      case None
      with more b' show ?thesis by (cases req) (simp_all add: n_def n'_def list_rows)
    next
      case (Some j)
      with new owned_listed [of "bk_rows b" acc j] have "loadOwnedIpClient (bk_rows b) acc j = None"
        by (cases "loadOwnedIpClient (bk_rows b) acc j") (auto simp: i_def)
      from device_route_foreign [OF Some this] b' more show ?thesis by (simp add: n_def n'_def)
    qed
    moreover have "int n < limit"
    proof (rule ccontr)
      assume "\<not> int n < limit"
      with refused reg more show False by (auto simp: n_def n'_def)
    qed
    ultimately show ?thesis using one by simp
  qed
  with refused show ?thesis by blast
qed

definition calm_deps :: "route_deps \<Rightarrow> route_deps" where
  "calm_deps deps = deps\<lparr>rt_between := (\<lambda>rows. rows), rt_redisError := None\<rparr>"

lemma calm_deps_simps [simp]: "undisturbed (calm_deps deps)" "rt_redisError (calm_deps deps) = None"
  by (simp_all add: calm_deps_def undisturbed_def)

interpretation dev: request_handler "\<lambda>(dr, req) b. device_route (calm_deps deps) dr acc req b"
  "\<lambda>r b. True" "device_view_ok acc" for deps acc
  by unfold_locales (auto intro: device_view_route)

text \<open>C19. The device list is current: after any sequence of device requests from a state in which the projection agrees
  with the replayed devices (such as the empty one), the list answers exactly the summaries of the account's
  devices that are not decommissioned, whether it comes from Redis or from a rebuild.\<close>
theorem device_list_current:
  assumes "device_view_ok acc b" and "serve (\<lambda>(dr, req). device_route (calm_deps deps) dr acc req) b reqs = (resps, b')"
  shows "\<exists>items. fst (device_list (calm_deps deps) acc b') = Json 200 (JObj [(''items'', JArr (map ip_client_summary_json items))])
    \<and> set items = {s. \<exists>i. ic_status (fst (loadIpClient (bk_rows b') acc i)) \<noteq> IcDecommissioned
        \<and> ip_client_summary (fst (loadIpClient (bk_rows b') acc i)) = Some s}"
proof -
  have "device_view_ok acc b'" using dev.serve_inv [OF assms(1), of deps reqs] assms(2) by simp
  from device_view_list(2) [OF this, of "calm_deps deps"] obtain items where
    "fst (device_list (calm_deps deps) acc b') = Json 200 (JObj [(''items'', JArr (map ip_client_summary_json items))])"
    "set items = ran (devices_shown (bk_rows b') acc)" by auto
  moreover have "ran (devices_shown (bk_rows b') acc) = {s. \<exists>i. ic_status (fst (loadIpClient (bk_rows b') acc i)) \<noteq> IcDecommissioned
        \<and> ip_client_summary (fst (loadIpClient (bk_rows b') acc i)) = Some s}"
    by (simp add: ran_def devices_shown_own visible_Some)
  ultimately show ?thesis by blast
qed

section \<open>Concrete requests\<close>

lemma device_requests_guarded_witness:
  "fst (device_route sample_routes sample_drawn ''other'' (DecommissionDevice ''d'') (sample_backend sample_device_rows)) = not_found"
proof -
  have "loadOwnedIpClient sample_device_rows ''other'' ''d'' = None"
    by (simp add: loadOwnedIpClient_def load_defs Let_def readStream_def in_stream_def sample_device_defs initialIpClientState_def)
  then show ?thesis
    using device_requests_guarded [of "sample_backend sample_device_rows" sample_routes sample_drawn "''other''" "DecommissionDevice ''d''"]
      sample_device_wf(1) by (auto intro!: prod.collapse [symmetric] simp del: device_route.simps)
qed

lemma device_limit_kept_witness:
  "resp_status (fst (device_route sample_routes sample_drawn ''acc'' (RegisterDevice None) (sample_backend sample_device_rows))) = 409"
proof -
  obtain resp b' where run: "device_route sample_routes sample_drawn ''acc'' (RegisterDevice None) (sample_backend sample_device_rows) = (resp, b')"
    by fastforce
  have "acc_deviceLimit (fst (loadAccount sample_device_rows ''acc'')) = 0"
    by (simp add: load_defs readStream_def in_stream_def sample_device_defs initialAccountState_def)
  with device_limit_kept [OF _ _ run] sample_device_wf(1) run show ?thesis by simp
qed

lemma device_list_current_witness:
  "\<exists>resps b' items. serve (\<lambda>(dr, req). device_route (calm_deps sample_routes) dr ''acc'' req) (sample_backend [sample_account])
      [(sample_drawn, RegisterDevice (Some ''home'')), (sample_drawn, DecommissionDevice ''n'')] = (resps, b')
    \<and> fst (device_list (calm_deps sample_routes) ''acc'' b') = Json 200 (JObj [(''items'', JArr (map ip_client_summary_json items))])"
proof -
  have "wf_store [sample_account]" by (auto simp: wf_store_def aggregate_rows_def sample_account_def Let_def)
  moreover have "readStream [sample_account] (stream ''acc'' IP_CLIENT i) = []" for i
    by (simp add: readStream_def in_stream_def sample_account_def)
  then have "devices_shown [sample_account] ''acc'' i = None" for i
    by (simp add: devices_shown_def set_listAggregateIds)
  ultimately have "device_view_ok ''acc'' (sample_backend [sample_account])"
    by (simp add: device_view_ok_def device_ids_ok_def sample_account_def r_hgetall_def fun_eq_iff)
  moreover obtain resps b' where run: "serve (\<lambda>(dr, req). device_route (calm_deps sample_routes) dr ''acc'' req) (sample_backend [sample_account])
      [(sample_drawn, RegisterDevice (Some ''home'')), (sample_drawn, DecommissionDevice ''n'')] = (resps, b')" by fastforce
  ultimately show ?thesis using device_list_current run by blast
qed

text \<open>
  What the invariant is needed for: a status change on a hash Redis has lost creates the hash with that one
  device, and the list, which rebuilds only a missing hash, shows that device alone from then on.
\<close>

lemma lost_list_stays_partial:
  assumes "wf_store (bk_rows b)" and "undisturbed deps" and "rt_redisError deps = None"
    and "r_hgetall (bk_clients b) (ip_clients_key acc) = []"
    and "device_route deps dr acc (EnableDevice i) b = (resp, b')" and "resp_status resp = 200"
  shows "\<exists>s. fst (device_list deps acc b') = Json 200 (JObj [(''items'', JArr [ip_client_summary_json s])])"
proof -
  obtain st n where own: "loadOwnedIpClient (bk_rows b) acc i = Some (st, n)" and alive: "ic_status st \<noteq> IcDecommissioned"
    using assms(5,6) by (auto simp: device_enable_def split: option.splits if_splits)
  have n: "n = length (readStream (bk_rows b) (stream acc IP_CLIENT i))" and st: "st = fst (loadIpClient (bk_rows b) acc i)"
    and id: "truthy (ic_ipClientId st)" using own unfolding loadOwnedIpClient_Some by blast+
  have run: "device_change deps dr acc i n (IpClientEnabled i) IcEnabled b = (resp, b')"
    using assms(5) own alive by (simp add: device_enable_def)
  show ?thesis
  proof (cases rule: commit_cases [of deps "dr_tick dr" "stream acc IP_CLIENT i" n "IpClientEv (IpClientEnabled i)" b])
    case conflict
    with run assms(6) show ?thesis by (auto simp: device_change_def)
  next
    case (appended e)
    have between: "rt_between deps (bk_rows b) = bk_rows b" using assms(2) by (simp add: undisturbed_def)
    note new = append_after_load [OF assms(1) undisturbed_appends [OF assms(2)] appended(2) [unfolded n]]
    have "fst (loadIpClient (bk_rows b @ [e]) acc i) = st\<lparr>ic_status := IcEnabled\<rparr>"
      using new(6,7) by (simp add: between st load_defs Let_def ipClientReducer_def)
    then obtain s where s: "ip_client_summary (fst (loadIpClient (bk_rows b @ [e]) acc i)) = Some s" and "ics_status s = IcEnabled"
      using id by (auto simp: ip_client_summary_def)
    then have put: "put_ip_client [] (fst (loadIpClient (bk_rows b @ [e]) acc i)) = [(ics_ipClientId s, s)]"
      by (simp add: put_ip_client_def)
    have "r_hgetall (bk_clients b') (ip_clients_key acc) = [(ics_ipClientId s, s)]"
      using run appended(1) assms(3,4) by (auto simp: device_change_def between refresh_device_def upsert_ip_client_hash put)
    moreover from this have "r_exists (bk_clients b') (ip_clients_key acc)" by (auto simp: r_hgetall_def r_exists_def split: option.splits)
    ultimately have "fst (device_list deps acc b') = Json 200 (JObj [(''items'', JArr [ip_client_summary_json s])])"
      using assms(3) by (simp add: device_list_def listIpClientsProjection_def Let_def)
    then show ?thesis by blast
  qed
qed

end
