(* ===== verification/ActionRoutes.thy ===== *)
theory ActionRoutes
  imports Backend ExecutionWorker
begin

text \<open>
  The routes of an action: \<open>adapters/http/routes/actions.ts\<close>, with the validation of a configuration
  (credential, firewall selector, delivery target) and the best-effort removal of firewall entries.
  A configuration in a request body is an \<open>ActionConfig\<close>, the union of the three interfaces the body
  type names.
\<close>

section \<open>Helpers\<close>

fun delivery_target :: "ActionState option \<Rightarrow> id option" where
  "delivery_target None = None"
| "delivery_target (Some state) =
     (if ac_type state = Some TRAEFIK_CONFIG_DELIVERY_ACTION_TYPE
      then (case ac_config state of None \<Rightarrow> None | Some config \<Rightarrow> cf_traefikProviderId config)
      else None)"

definition scheduleDelivery :: "route_deps \<Rightarrow> id \<Rightarrow> ActionState option list \<Rightarrow> backend \<Rightarrow> backend" where
  "scheduleDelivery deps accountId states b =
     (if \<not> rt_hasSnapshots deps then b
      else (let ids = uniq (List.map_filter delivery_target states) in
        if length ids > 0 then b\<lparr>bk_schedules := bk_schedules b @ [(accountId, ids)]\<rparr> else b))"

definition currentState :: "event_store \<Rightarrow> id \<Rightarrow> id \<Rightarrow> ActionState" where
  "currentState rows accountId actionId = fst (loadAction rows accountId actionId)"

text \<open>\<open>/^[a-z0-9][a-z0-9._-]{0,62}$/\<close>\<close>

definition group_start :: "char \<Rightarrow> bool" where
  "group_start c = (let n = of_char c :: nat in (97 \<le> n \<and> n \<le> 122) \<or> (48 \<le> n \<and> n \<le> 57))"

definition GROUP_PATTERN :: "string \<Rightarrow> bool" where
  "GROUP_PATTERN s = (case s of
       [] \<Rightarrow> False
     | c # cs \<Rightarrow> group_start c \<and> length cs \<le> 62
         \<and> list_all (\<lambda>x. group_start x \<or> x = CHR ''.'' \<or> x = CHR ''_'' \<or> x = CHR ''-'') cs)"

definition invalid_group :: response where
  "invalid_group = Json 422 (JObj [(''error'', JStr ''invalid_group''),
     (''message'', JStr ''A group is 1-63 characters: lowercase letters, digits, '.', '_' or '-', starting with a letter or digit.'')])"

definition delivery_clash :: "event_store \<Rightarrow> id \<Rightarrow> id \<Rightarrow> id \<Rightarrow> id option \<Rightarrow> DeliveryAction option" where
  "delivery_clash rows accountId ipClientId traefikProviderId ignoreActionId =
     find (\<lambda>a. da_ipClientId a = ipClientId \<and> da_traefikProviderId a = traefikProviderId
        \<and> Some (da_actionId a) \<noteq> ignoreActionId) (listDeliveryActions rows accountId)"

definition validateDeliveryConfig ::
  "route_deps \<Rightarrow> event_store \<Rightarrow> id \<Rightarrow> id \<Rightarrow> ActionConfig option \<Rightarrow> id option \<Rightarrow> response + ActionConfig" where
  "validateDeliveryConfig deps rows accountId ipClientId raw ignoreActionId =
     (if \<not> rt_hasProviderStore deps then Inl (json_error 500 ''traefik providers are not available'')
      else (let candidate = nullish_or raw empty_config;
                traefikProviderId = nullish_or (cf_traefikProviderId candidate) [];
                group = js_trim (nullish_or (cf_group candidate) [])
        in if traefikProviderId = [] then Inl (json_error 422 ''config.traefikProviderId is required'')
           else if \<not> GROUP_PATTERN group then Inl invalid_group
           else (case provider_loadActive rows accountId traefikProviderId of
               None \<Rightarrow> Inl (json_error 404 ''traefik_provider_not_found'')
             | Some provider \<Rightarrow>
                 (case delivery_clash rows accountId ipClientId traefikProviderId ignoreActionId of
                    Some clash \<Rightarrow> Inl (Json 409 (JObj [(''error'', JStr ''delivery_action_exists''),
                      (''message'', JStr ''This device already delivers to this provider.''), (''actionId'', JStr (da_actionId clash))]))
                  | None \<Rightarrow> Inr (empty_config\<lparr>cf_traefikProviderId := Some traefikProviderId, cf_group := Some group\<rparr>)))))"

definition refresh_action :: "route_deps \<Rightarrow> id \<Rightarrow> id \<Rightarrow> backend \<Rightarrow> (exn + unit) \<times> backend" where
  "refresh_action deps accountId actionId b =
     (let state = fst (loadAction (bk_rows b) accountId actionId) in
      case rt_redisError deps of
        Some err \<Rightarrow> (Inl err, b)
      | None \<Rightarrow> (Inr (), b\<lparr>bk_actions := upsertActionProjection (bk_actions b) accountId state\<rparr>))"

definition loadOwnedAction :: "event_store \<Rightarrow> id \<Rightarrow> id \<Rightarrow> (ActionState \<times> nat) option" where
  "loadOwnedAction rows accountId actionId =
     (case loadAction rows accountId actionId of (state, events, version) \<Rightarrow>
        if \<not> truthy (ac_actionId state) \<or> ac_accountId state \<noteq> Some accountId then None
        else Some (state, version))"

text \<open>\<open>Inr None\<close> is \<open>null\<close>; a stored secret that does not decrypt throws.\<close>

definition loadOwnedActiveCredential :: "route_deps \<Rightarrow> event_store \<Rightarrow> id \<Rightarrow> id option \<Rightarrow> exn + string option" where
  "loadOwnedActiveCredential deps rows accountId credentialId =
     (if \<not> truthy credentialId then Inr None
      else (let credentialState = fst (loadCredential rows accountId (the credentialId)) in
        if \<not> truthy (pc_credentialId credentialState) \<or> pc_accountId credentialState \<noteq> Some accountId
           \<or> pc_status credentialState \<noteq> CrActive \<or> \<not> truthy (pc_encryptedSecret credentialState)
        then Inr None
        else map_sum id Some (decryptSecret (rt_crypto deps) (the (pc_encryptedSecret credentialState))
               (cfg_credentialEncryptionKey (rt_config deps)))))"

section \<open>The firewall selector\<close>

definition selector_reply :: "match_result \<Rightarrow> response option" where
  "selector_reply m = (case m of
       Matched i \<Rightarrow> None
     | NoMatch \<Rightarrow> Some (json_error 422 ''rule_selector_no_match'')
     | AmbiguousMatch n \<Rightarrow> Some (json_error 422 ''rule_selector_ambiguous''))"

text \<open>
  What is thrown while reading the firewall is answered 400; a \<open>rules\<close> property that is no array of
  rules reaches the matcher outside the \<open>try\<close>.
\<close>

definition validateFirewallSelector ::
  "route_deps \<Rightarrow> string \<Rightarrow> ActionConfig \<Rightarrow> http_request list \<Rightarrow> response option \<times> http_request list" where
  "validateFirewallSelector deps apiToken config log =
     (let missing = Some (json_error 400 ''firewall_not_found'') in
      case requestJson (rt_parse deps) (rt_server deps) log (get_request apiToken (cf_firewallId config)) ''reading the firewall'' of
        (Inl err, log') \<Rightarrow> (missing, log')
      | (Inr resp, log') \<Rightarrow>
          (if json_prop resp ''firewall'' \<in> {None, Some JNull} then missing
           else (case rules_of resp of
               Inl err \<Rightarrow> Some (Thrown err)
             | Inr rules \<Rightarrow> selector_reply (matchFirewallRule rules (firewall_selector config))), log'))"

section \<open>Best-effort cleanup\<close>

definition entries_to_remove :: "ActionState \<Rightarrow> address_family list \<Rightarrow> (address_family \<times> string) list" where
  "entries_to_remove state families =
     map (\<lambda>family. (family, the (owned_of_family (ac_firewallOwnedEntries state) family)))
       (filter (\<lambda>family. truthy (owned_of_family (ac_firewallOwnedEntries state) family)) families)"

definition cleanupFirewallEntriesBestEffort ::
  "route_deps \<Rightarrow> id \<Rightarrow> ActionState \<Rightarrow> address_family list \<Rightarrow> backend \<Rightarrow> (exn + unit) \<times> backend" where
  "cleanupFirewallEntriesBestEffort deps accountId state families b =
     (let remove = entries_to_remove state families in
      if remove = [] then (Inr (), b)
      else (case ac_config state of
          None \<Rightarrow> (Inl type_error, b)
        | Some config \<Rightarrow>
            (case loadOwnedActiveCredential deps (bk_rows b) accountId (cf_providerCredentialId config) of
               Inl err \<Rightarrow> (Inl err, b)
             | Inr None \<Rightarrow> (Inr (), b)
             | Inr (Some apiToken) \<Rightarrow>
                 (Inr (), b\<lparr>bk_requests := snd (applyFirewallRuleUpdate (rt_parse deps) (rt_server deps) (rt_acquired deps)
                    (rt_released deps) \<lparr>hf_apiToken = apiToken, hf_accountId = accountId, hf_firewallId = cf_firewallId config,
                       hf_selector = firewall_selector config, hf_previousEntries = no_entries\<rparr> remove [] (bk_requests b))\<rparr>))))"

text \<open>Best effort, but it can throw: the stored secret is decrypted outside the \<open>try\<close>.\<close>

lemma cleanup_can_throw:
  assumes "entries_to_remove state families \<noteq> []" and "ac_config state = Some config"
    and "loadOwnedActiveCredential deps (bk_rows b) accountId (cf_providerCredentialId config) = Inl err"
  shows "cleanupFirewallEntriesBestEffort deps accountId state families b = (Inl err, b)"
  using assms by (simp add: cleanupFirewallEntriesBestEffort_def Let_def)

section \<open>Attaching\<close>

record action_body =
  ab_type :: "string option"
  ab_addressFamilies :: "address_family list option"
  ab_config :: "ActionConfig option"

definition supported_types :: "string list" where
  "supported_types = [HETZNER_CLOUD_DNS_UPDATE_ACTION_TYPE, HETZNER_CLOUD_FIREWALL_RULE_UPDATE_ACTION_TYPE,
     TRAEFIK_CONFIG_DELIVERY_ACTION_TYPE]"

definition unsupported_type :: response where
  "unsupported_type = json_error 400 (''unsupported action type; must be \"'' @ HETZNER_CLOUD_DNS_UPDATE_ACTION_TYPE
     @ ''\", \"'' @ HETZNER_CLOUD_FIREWALL_RULE_UPDATE_ACTION_TYPE @ ''\" or \"'' @ TRAEFIK_CONFIG_DELIVERY_ACTION_TYPE @ ''\"'')"

definition attach_families :: "action_body \<Rightarrow> address_family list option" where
  "attach_families body = (if ab_type body = Some TRAEFIK_CONFIG_DELIVERY_ACTION_TYPE then Some [IPv4, IPv6]
     else ab_addressFamilies body)"

definition invalid_credential :: response where
  "invalid_credential = json_error 400 ''invalid providerCredentialId''"

definition dns_config_complete :: "ActionConfig option \<Rightarrow> bool" where
  "dns_config_complete config = (case config of
       None \<Rightarrow> False
     | Some cf \<Rightarrow> truthy (cf_providerCredentialId cf) \<and> truthy (cf_zone cf) \<and> truthy (cf_recordName cf))"

definition firewall_target_complete :: "ActionConfig \<Rightarrow> bool" where
  "firewall_target_complete cf = (nullish_or (cf_firewallId cf) 0 \<noteq> 0 \<and> truthy (cf_direction cf)
     \<and> truthy (cf_protocol cf) \<and> truthy (cf_description cf))"

definition firewall_config_complete :: "ActionConfig option \<Rightarrow> bool" where
  "firewall_config_complete config = (case config of
       None \<Rightarrow> False
     | Some cf \<Rightarrow> truthy (cf_providerCredentialId cf) \<and> firewall_target_complete cf)"

text \<open>The configuration to attach, or the answer that refuses it.\<close>

definition attach_dns :: "route_deps \<Rightarrow> id \<Rightarrow> ActionConfig option \<Rightarrow> backend \<Rightarrow> response + ActionConfig" where
  "attach_dns deps accountId config b =
     (if \<not> dns_config_complete config then Inl (json_error 400 ''config.providerCredentialId, zone, and recordName are required'')
      else (case loadOwnedActiveCredential deps (bk_rows b) accountId (cf_providerCredentialId (the config)) of
          Inl err \<Rightarrow> Inl (Thrown err)
        | Inr None \<Rightarrow> Inl invalid_credential
        | Inr (Some apiToken) \<Rightarrow> Inr (the config)))"

definition attach_firewall :: "route_deps \<Rightarrow> id \<Rightarrow> ActionConfig option \<Rightarrow> backend \<Rightarrow> (response + ActionConfig) \<times> http_request list" where
  "attach_firewall deps accountId config b =
     (if \<not> firewall_config_complete config
      then (Inl (json_error 400 ''config.providerCredentialId, firewallId, direction, protocol, and description are required''), bk_requests b)
      else (case loadOwnedActiveCredential deps (bk_rows b) accountId (cf_providerCredentialId (the config)) of
          Inl err \<Rightarrow> (Inl (Thrown err), bk_requests b)
        | Inr None \<Rightarrow> (Inl invalid_credential, bk_requests b)
        | Inr (Some apiToken) \<Rightarrow>
            (case validateFirewallSelector deps apiToken (the config) (bk_requests b) of
               (Some refusal, log) \<Rightarrow> (Inl refusal, log)
             | (None, log) \<Rightarrow> (Inr (the config), log))))"

definition attach_delivery :: "route_deps \<Rightarrow> id \<Rightarrow> id \<Rightarrow> ActionConfig option \<Rightarrow> backend \<Rightarrow> response + ActionConfig" where
  "attach_delivery deps accountId ipClientId config b =
     (let device = fst (loadIpClient (bk_rows b) accountId ipClientId) in
      if \<not> truthy (ic_ipClientId device) \<or> ic_accountId device \<noteq> Some accountId \<or> ic_status device = IcDecommissioned
      then Inl not_found
      else validateDeliveryConfig deps (bk_rows b) accountId ipClientId config None)"

definition attach_config :: "route_deps \<Rightarrow> id \<Rightarrow> id \<Rightarrow> action_body \<Rightarrow> backend \<Rightarrow> (response + ActionConfig) \<times> backend" where
  "attach_config deps accountId ipClientId body b =
     (if ab_type body = Some TRAEFIK_CONFIG_DELIVERY_ACTION_TYPE
      then (attach_delivery deps accountId ipClientId (ab_config body) b, b)
      else if ab_type body = Some HETZNER_CLOUD_DNS_UPDATE_ACTION_TYPE
      then (attach_dns deps accountId (ab_config body) b, b)
      else (case attach_firewall deps accountId (ab_config body) b of (res, log) \<Rightarrow> (res, b\<lparr>bk_requests := log\<rparr>)))"

definition action_attach :: "route_deps \<Rightarrow> drawn \<Rightarrow> id \<Rightarrow> id \<Rightarrow> action_body \<Rightarrow> backend \<Rightarrow> response \<times> backend" where
  "action_attach deps dr accountId ipClientId body b =
     (case ab_type body of
        None \<Rightarrow> (unsupported_type, b)
      | Some type \<Rightarrow>
          if type \<notin> set supported_types then (unsupported_type, b)
          else if nullish_or (attach_families body) [] = []
          then (json_error 400 ''addressFamilies must be a non-empty array of \"ipv4\"/\"ipv6\"'', b)
          else (case attach_config deps accountId ipClientId body b of
              (Inl refusal, b) \<Rightarrow> (refusal, b)
            | (Inr config, b) \<Rightarrow>
                (let actionId = dr_id dr in
                 proceed (commit deps (dr_tick dr) (stream accountId ACTION actionId) 0
                     (ActionEv (ActionAttached \<lparr>att_actionId = actionId, att_accountId = accountId, att_ipClientId = ipClientId,
                        att_type = type, att_addressFamilies = the (attach_families body), att_config = config,
                        att_attachedAt = tk_now (dr_tick dr)\<rparr>)) b)
                   (\<lambda>e b. proceed (refresh_action deps accountId actionId b)
                   (\<lambda>u b. (Json 201 (JObj [(''actionId'', JStr actionId)]),
                      scheduleDelivery deps accountId [Some (currentState (bk_rows b) accountId actionId)] b))))))"

section \<open>The other routes\<close>

definition action_list :: "route_deps \<Rightarrow> id \<Rightarrow> id \<Rightarrow> backend \<Rightarrow> (exn + ActionSummary list) \<times> backend" where
  "action_list deps accountId ipClientId b = (case rt_redisError deps of
       Some err \<Rightarrow> (Inl err, b)
     | None \<Rightarrow> (case listActionsProjection (bk_actions b) (bk_rows b) accountId ipClientId of
         (items, redis) \<Rightarrow> (Inr items, b\<lparr>bk_actions := redis\<rparr>)))"

text \<open>The configuration a \<open>PUT\<close> stores (\<open>None\<close>: it keeps the old one), or the answer that refuses it.\<close>

definition reconfigure_config :: "route_deps \<Rightarrow> id \<Rightarrow> id \<Rightarrow> ActionState \<Rightarrow> ActionConfig option \<Rightarrow> backend \<Rightarrow>
    (response + ActionConfig option) \<times> backend" where
  "reconfigure_config deps accountId actionId state config b = (case config of
       None \<Rightarrow> (Inr None, b)
     | Some cf \<Rightarrow>
         if ac_type state = Some TRAEFIK_CONFIG_DELIVERY_ACTION_TYPE
         then (map_sum id Some (validateDeliveryConfig deps (bk_rows b) accountId (nullish_or (ac_ipClientId state) [])
                 (Some cf) (Some actionId)), b)
         else if \<not> hasProviderCredential (Some cf) then (Inl invalid_credential, b)
         else (case loadOwnedActiveCredential deps (bk_rows b) accountId (cf_providerCredentialId cf) of
             Inl err \<Rightarrow> (Inl (Thrown err), b)
           | Inr None \<Rightarrow> (Inl invalid_credential, b)
           | Inr (Some apiToken) \<Rightarrow>
               if ac_type state \<noteq> Some HETZNER_CLOUD_FIREWALL_RULE_UPDATE_ACTION_TYPE then (Inr (Some cf), b)
               else if \<not> firewall_target_complete cf
               then (Inl (json_error 400 ''config.firewallId, direction, protocol, and description are required''), b)
               else (case validateFirewallSelector deps apiToken cf (bk_requests b) of
                   (Some refusal, log) \<Rightarrow> (Inl refusal, b\<lparr>bk_requests := log\<rparr>)
                 | (None, log) \<Rightarrow> (Inr (Some cf), b\<lparr>bk_requests := log\<rparr>))))"

definition dropped_families :: "ActionState \<Rightarrow> address_family list \<Rightarrow> address_family list" where
  "dropped_families state families = filter (\<lambda>family. family \<notin> set families) (ac_addressFamilies state)"

definition action_reconfigure :: "route_deps \<Rightarrow> drawn \<Rightarrow> id \<Rightarrow> id \<Rightarrow> action_body \<Rightarrow> backend \<Rightarrow> response \<times> backend" where
  "action_reconfigure deps dr accountId actionId body b = (case loadOwnedAction (bk_rows b) accountId actionId of
       None \<Rightarrow> (not_found, b)
     | Some (state, version) \<Rightarrow>
         if ab_addressFamilies body = Some []
         then (json_error 400 ''addressFamilies, if provided, must be a non-empty array'', b)
         else (case reconfigure_config deps accountId actionId state (ab_config body) b of
             (Inl refusal, b) \<Rightarrow> (refusal, b)
           | (Inr config, b) \<Rightarrow>
               proceed (commit deps (dr_tick dr) (stream accountId ACTION actionId) version
                   (ActionEv (ActionReconfigured \<lparr>rcf_addressFamilies =
                        (if ac_type state = Some TRAEFIK_CONFIG_DELIVERY_ACTION_TYPE then None else ab_addressFamilies body),
                      rcf_config = config, rcf_reconfiguredAt = tk_now (dr_tick dr)\<rparr>)) b)
                 (\<lambda>e b. proceed (refresh_action deps accountId actionId b)
                 (\<lambda>u b. let b = scheduleDelivery deps accountId [Some state, Some (currentState (bk_rows b) accountId actionId)] b in
                    proceed (if ac_type state = Some HETZNER_CLOUD_FIREWALL_RULE_UPDATE_ACTION_TYPE \<and> ab_addressFamilies body \<noteq> None
                        then cleanupFirewallEntriesBestEffort deps accountId state (dropped_families state (the (ab_addressFamilies body))) b
                        else (Inr (), b))
                      (\<lambda>u b. (Json 200 (JObj [(''actionId'', JStr actionId)]), b))))))"

fun action_status_name :: "action_status \<Rightarrow> string" where
  "action_status_name ActEnabled = ''enabled''"
| "action_status_name ActDisabled = ''disabled''"
| "action_status_name ActDetached = ''detached''"

definition action_status_reply :: "id \<Rightarrow> action_status \<Rightarrow> response" where
  "action_status_reply actionId status =
     Json 200 (JObj [(''actionId'', JStr actionId), (''status'', JStr (action_status_name status))])"

text \<open>The common part of enabling, disabling and detaching: append, projection, snapshots; then \<open>finish\<close>.\<close>

definition action_change ::
  "route_deps \<Rightarrow> drawn \<Rightarrow> id \<Rightarrow> id \<Rightarrow> ActionState \<Rightarrow> nat \<Rightarrow> action_event \<Rightarrow> (backend \<Rightarrow> response \<times> backend) \<Rightarrow> backend \<Rightarrow> response \<times> backend" where
  "action_change deps dr accountId actionId state version d finish b =
     proceed (commit deps (dr_tick dr) (stream accountId ACTION actionId) version (ActionEv d) b)
       (\<lambda>e b. proceed (refresh_action deps accountId actionId b)
       (\<lambda>u b. finish (scheduleDelivery deps accountId [Some state] b)))"

definition action_enable :: "route_deps \<Rightarrow> drawn \<Rightarrow> id \<Rightarrow> id \<Rightarrow> backend \<Rightarrow> response \<times> backend" where
  "action_enable deps dr accountId actionId b = (case loadOwnedAction (bk_rows b) accountId actionId of
       None \<Rightarrow> (not_found, b)
     | Some (state, version) \<Rightarrow>
         if ac_status state = ActDetached then (json_error 409 ''cannot enable a detached Action'', b)
         else action_change deps dr accountId actionId state version (ActionEnabled actionId)
           (\<lambda>b. (action_status_reply actionId ActEnabled, b)) b)"

definition action_disable :: "route_deps \<Rightarrow> drawn \<Rightarrow> id \<Rightarrow> id \<Rightarrow> backend \<Rightarrow> response \<times> backend" where
  "action_disable deps dr accountId actionId b = (case loadOwnedAction (bk_rows b) accountId actionId of
       None \<Rightarrow> (not_found, b)
     | Some (state, version) \<Rightarrow>
         if ac_status state = ActDetached then (json_error 409 ''cannot disable a detached Action'', b)
         else action_change deps dr accountId actionId state version (ActionDisabled actionId)
           (\<lambda>b. (action_status_reply actionId ActDisabled, b)) b)"

definition action_detach :: "route_deps \<Rightarrow> drawn \<Rightarrow> id \<Rightarrow> id \<Rightarrow> backend \<Rightarrow> response \<times> backend" where
  "action_detach deps dr accountId actionId b = (case loadOwnedAction (bk_rows b) accountId actionId of
       None \<Rightarrow> (not_found, b)
     | Some (state, version) \<Rightarrow>
         if ac_status state = ActDetached then (action_status_reply actionId ActDetached, b)
         else action_change deps dr accountId actionId state version (ActionDetached (tk_now (dr_tick dr)))
           (\<lambda>b. proceed (if ac_type state = Some HETZNER_CLOUD_FIREWALL_RULE_UPDATE_ACTION_TYPE
                then cleanupFirewallEntriesBestEffort deps accountId state [IPv4, IPv6] b else (Inr (), b))
              (\<lambda>u b. (action_status_reply actionId ActDetached, b))) b)"

datatype action_request =
    AttachAction id action_body
  | ReconfigureAction id action_body
  | EnableAction id
  | DisableAction id
  | DetachAction id

fun action_route :: "route_deps \<Rightarrow> drawn \<Rightarrow> id \<Rightarrow> action_request \<Rightarrow> backend \<Rightarrow> response \<times> backend" where
  "action_route deps dr acc (AttachAction d body) b = action_attach deps dr acc d body b"
| "action_route deps dr acc (ReconfigureAction i body) b = action_reconfigure deps dr acc i body b"
| "action_route deps dr acc (EnableAction i) b = action_enable deps dr acc i b"
| "action_route deps dr acc (DisableAction i) b = action_disable deps dr acc i b"
| "action_route deps dr acc (DetachAction i) b = action_detach deps dr acc i b"

fun requested_action :: "action_request \<Rightarrow> id option" where
  "requested_action (AttachAction d body) = None"
| "requested_action (ReconfigureAction i body) = Some i"
| "requested_action (EnableAction i) = Some i"
| "requested_action (DisableAction i) = Some i"
| "requested_action (DetachAction i) = Some i"

section \<open>What a request can write\<close>

interpretation actr: guarded_route initialActionState action_apply action_allowed "\<lambda>st. ac_status st = ActDetached"
  by unfold_locales

abbreviation action_outcome :: "route_deps \<Rightarrow> id \<Rightarrow> id \<Rightarrow> event_store \<Rightarrow> event_store \<Rightarrow> bool" where
  "action_outcome deps acc i \<equiv> guarded_outcome (replay initialActionState action_apply) action_allowed deps (stream acc ACTION i)"

lemma refresh_action_rows [simp]: "bk_rows (snd (refresh_action deps acc i b)) = bk_rows b"
  by (simp add: refresh_action_def Let_def split: option.split)

lemma scheduleDelivery_rows [simp]: "bk_rows (scheduleDelivery deps acc sts b) = bk_rows b"
  by (simp add: scheduleDelivery_def Let_def)

lemma cleanup_rows [simp]: "bk_rows (snd (cleanupFirewallEntriesBestEffort deps acc st fs b)) = bk_rows b"
  by (simp add: cleanupFirewallEntriesBestEffort_def Let_def split: option.split sum.split)

lemma attach_config_rows: "bk_rows (snd (attach_config deps acc d body b)) = bk_rows b"
  by (simp add: attach_config_def split: prod.split)

lemma reconfigure_config_rows: "bk_rows (snd (reconfigure_config deps acc i st cf b)) = bk_rows b"
  by (simp add: reconfigure_config_def split: option.split sum.split prod.split)

lemma refresh_action_proceed_rows:
  assumes "\<And>b. bk_rows (snd (k b)) = bk_rows b"
  shows "bk_rows (snd (proceed (refresh_action deps acc i b) (\<lambda>u. k))) = bk_rows b"
  by (subst proceed_rows) (simp_all add: assms)

lemma action_change_rows:
  assumes "\<And>b. bk_rows (snd (finish b)) = bk_rows b"
  shows "bk_rows (snd (action_change deps dr acc i st n d finish b)) =
    bk_rows (snd (commit deps (dr_tick dr) (stream acc ACTION i) n (ActionEv d) b))"
  unfolding action_change_def by (intro proceed_rows refresh_action_proceed_rows) (simp add: assms)

lemma loadOwnedAction_Some:
  "loadOwnedAction rows acc i = Some (st, n) \<longleftrightarrow> st = fst (loadAction rows acc i) \<and> n = length (readStream rows (stream acc ACTION i))
     \<and> truthy (ac_actionId st) \<and> ac_accountId st = Some acc"
  unfolding loadOwnedAction_def by (subst loads_eq(2)) auto

text \<open>The table after each route is the one after its commit, or the one before.\<close>

lemma action_attach_commit:
  obtains (refused) "bk_rows (snd (action_attach deps dr acc d body b)) = bk_rows b"
  | (attached) b1 config where "attach_config deps acc d body b = (Inr config, b1)" and "bk_rows b1 = bk_rows b"
      and "ab_type body \<noteq> None" and "the (ab_type body) \<in> set supported_types" and "nullish_or (attach_families body) [] \<noteq> []"
      and "bk_rows (snd (action_attach deps dr acc d body b)) = bk_rows (snd (commit deps (dr_tick dr) (stream acc ACTION (dr_id dr)) 0
        (ActionEv (ActionAttached \<lparr>att_actionId = dr_id dr, att_accountId = acc, att_ipClientId = d, att_type = the (ab_type body),
           att_addressFamilies = the (attach_families body), att_config = config, att_attachedAt = tk_now (dr_tick dr)\<rparr>)) b1))"
proof (cases "ab_type body = None \<or> the (ab_type body) \<notin> set supported_types \<or> nullish_or (attach_families body) [] = []")
  case True
  then have "bk_rows (snd (action_attach deps dr acc d body b)) = bk_rows b"
    by (auto simp: action_attach_def split: option.split)
  then show ?thesis by (rule refused)
next
  case False
  then obtain type where type: "ab_type body = Some type" "type \<in> set supported_types" "nullish_or (attach_families body) [] \<noteq> []" by auto
  obtain res b1 where config: "attach_config deps acc d body b = (res, b1)" by fastforce
  with attach_config_rows [of deps acc d body b] have rows: "bk_rows b1 = bk_rows b" by simp
  show ?thesis
  proof (cases res)
    case (Inl refusal)
    with type config rows refused show ?thesis by (simp add: action_attach_def)
  next
    case (Inr cf)
    show ?thesis
      by (rule attached [OF config [unfolded Inr] rows])
        (simp_all add: type action_attach_def config Inr Let_def proceed_rows refresh_action_proceed_rows)
  qed
qed

lemma action_reconfigure_commit:
  assumes own: "loadOwnedAction (bk_rows b) acc i = Some (st, n)"
  obtains (refused) "bk_rows (snd (action_reconfigure deps dr acc i body b)) = bk_rows b"
  | (stored) b1 config where "reconfigure_config deps acc i st (ab_config body) b = (Inr config, b1)" and "bk_rows b1 = bk_rows b"
      and "bk_rows (snd (action_reconfigure deps dr acc i body b)) = bk_rows (snd (commit deps (dr_tick dr) (stream acc ACTION i) n
        (ActionEv (ActionReconfigured \<lparr>rcf_addressFamilies = (if ac_type st = Some TRAEFIK_CONFIG_DELIVERY_ACTION_TYPE then None
             else ab_addressFamilies body), rcf_config = config, rcf_reconfiguredAt = tk_now (dr_tick dr)\<rparr>)) b1))"
proof (cases "ab_addressFamilies body = Some []")
  case True
  with own refused show ?thesis by (simp add: action_reconfigure_def)
next
  case False
  obtain res b1 where config: "reconfigure_config deps acc i st (ab_config body) b = (res, b1)" by fastforce
  with reconfigure_config_rows [of deps acc i st "ab_config body" b] have rows: "bk_rows b1 = bk_rows b" by simp
  show ?thesis
  proof (cases res)
    case (Inl refusal)
    with own False config rows refused show ?thesis by (simp add: action_reconfigure_def)
  next
    case (Inr cf)
    show ?thesis
      by (rule stored [OF config [unfolded Inr] rows])
        (simp add: own False action_reconfigure_def config Inr Let_def proceed_rows refresh_action_proceed_rows)
  qed
qed

lemma others_append_cong: "bk_rows b1 = bk_rows b \<Longrightarrow> others_append deps b1 = others_append deps b"
  by (simp add: others_append_def)

lemma action_route_outcome:
  assumes "wf_store (bk_rows b)" and "others_append deps b"
  shows "action_outcome deps acc (nullish_or (requested_action req) (dr_id dr)) (bk_rows b) (bk_rows (snd (action_route deps dr acc req b)))"
proof -
  have change: "action_outcome deps acc i (bk_rows b) (bk_rows (snd (case loadOwnedAction (bk_rows b) acc i of None \<Rightarrow> (not_found, b)
      | Some (state, version) \<Rightarrow> if ac_status state = ActDetached then (resp, b)
          else action_change deps dr acc i state version d (finish state) b)))"
    if "\<And>st b. bk_rows (snd (finish st b)) = bk_rows b" "\<And>st. ac_status st \<noteq> ActDetached \<Longrightarrow> action_allowed st (ActionEv d)" for i d resp finish
    using that(1) actr.commit_outcome [OF assms, of "stream acc ACTION i" "ActionEv d" "dr_tick dr"] that(2)
    by (cases "loadOwnedAction (bk_rows b) acc i")
      (auto simp: action_change_rows loadOwnedAction_Some replay_loads(2) split: prod.split)
  show ?thesis
  proof (cases req)
    case (AttachAction d body)
    show ?thesis
    proof (cases rule: action_attach_commit [of deps dr acc d body b])
      case refused
      with AttachAction show ?thesis by simp
    next
      case (attached b1 config)
      have "action_outcome deps acc (dr_id dr) (bk_rows b1)
          (bk_rows (snd (commit deps (dr_tick dr) (stream acc ACTION (dr_id dr)) 0 (ActionEv (ActionAttached x)) b1)))" for x
        by (rule actr.create_outcome) (use assms attached(2) others_append_cong [OF attached(2)] in \<open>simp_all add: initialActionState_def\<close>)
      with attached(2,6) show ?thesis unfolding AttachAction action_route.simps requested_action.simps nullish_simps by simp
    qed
  next
    case (ReconfigureAction i body)
    show ?thesis
    proof (cases "loadOwnedAction (bk_rows b) acc i")
      case None
      with ReconfigureAction show ?thesis by (simp add: action_reconfigure_def)
    next
      case (Some x)
      obtain st n where x: "x = (st, n)" by fastforce
      from Some [unfolded x] show ?thesis
      proof (cases rule: action_reconfigure_commit [where deps = deps and dr = dr and body = body])
        case refused
        with ReconfigureAction show ?thesis by simp
      next
        case (stored b1 config)
        have n: "n = length (readStream (bk_rows b1) (stream acc ACTION i))" using Some x stored(2) by (simp add: loadOwnedAction_Some)
        have "action_outcome deps acc i (bk_rows b1)
            (bk_rows (snd (commit deps (dr_tick dr) (stream acc ACTION i) n (ActionEv (ActionReconfigured r)) b1)))" for r
          unfolding n by (rule actr.commit_outcome) (use assms stored(2) others_append_cong [OF stored(2)] in simp_all)
        with stored(2,3) show ?thesis unfolding ReconfigureAction action_route.simps requested_action.simps nullish_simps by simp
      qed
    qed
  next
    case (EnableAction i)
    then show ?thesis by (simp add: action_enable_def change)
  next
    case (DisableAction i)
    then show ?thesis by (simp add: action_disable_def change)
  next
    case (DetachAction i)
    then show ?thesis by (simp add: action_detach_def change proceed_rows)
  qed
qed

lemma action_route_foreign:
  assumes "requested_action req = Some i" and "loadOwnedAction (bk_rows b) acc i = None"
  shows "action_route deps dr acc req b = (not_found, b)"
  using assms by (cases req) (simp_all add: action_reconfigure_def action_enable_def action_disable_def action_detach_def)

section \<open>One delivery per device and provider\<close>

definition delivery_of :: "event_store \<Rightarrow> id \<Rightarrow> id \<Rightarrow> DeliveryAction option" where
  "delivery_of rows acc i = delivery_action i (fst (loadAction rows acc i))"

definition same_target :: "DeliveryAction \<Rightarrow> DeliveryAction \<Rightarrow> bool" where
  "same_target d d' = (da_ipClientId d = da_ipClientId d' \<and> da_traefikProviderId d = da_traefikProviderId d')"

definition delivery_unique :: "event_store \<Rightarrow> id \<Rightarrow> bool" where
  "delivery_unique rows acc = (\<forall>d \<in> set (listDeliveryActions rows acc). \<forall>d' \<in> set (listDeliveryActions rows acc).
     same_target d d' \<longrightarrow> da_actionId d = da_actionId d')"

lemma delivery_action_id: "delivery_action i st = Some d \<Longrightarrow> da_actionId d = i"
  by (auto simp: delivery_action_def split: if_splits option.splits)

lemma set_listDeliveryActions: "set (listDeliveryActions rows acc) = {d. \<exists>i. delivery_of rows acc i = Some d}"
proof -
  have "delivery_of rows acc i = None" if "readStream rows (stream acc ACTION i) = []" for i
    using that by (simp add: delivery_of_def load_defs initialActionState_def delivery_action_def)
  then have "d \<in> {d. \<exists>i \<in> set (listAggregateIds rows acc ACTION). delivery_of rows acc i = Some d} \<longleftrightarrow> (\<exists>i. delivery_of rows acc i = Some d)" for d
    unfolding set_listAggregateIds by fastforce
  moreover have "set (List.map_filter f xs) = {d. \<exists>i \<in> set xs. f i = Some d}" for f :: "id \<Rightarrow> DeliveryAction option" and xs
    by (induction xs) (auto simp: List.map_filter_simps split: option.split)
  ultimately show ?thesis unfolding listDeliveryActions_def delivery_of_def [symmetric] by blast
qed

lemma delivery_unique_iff:
  "delivery_unique rows acc \<longleftrightarrow> (\<forall>i j d d'. delivery_of rows acc i = Some d \<longrightarrow> delivery_of rows acc j = Some d' \<longrightarrow> same_target d d' \<longrightarrow> i = j)"
  unfolding delivery_unique_def set_listDeliveryActions delivery_of_def using delivery_action_id by blast

text \<open>One event of action \<open>i\<close>: the others' deliveries stay, its own must not meet theirs.\<close>

lemma delivery_unique_wrote:
  assumes "delivery_unique rows acc" and "wf_store rows" and "wf_store rows'" and "wrote rows rows' (stream acc ACTION i) d"
    and own: "\<And>da j da'. delivery_action i (action_apply (fst (loadAction rows acc i)) d) = Some da \<Longrightarrow> j \<noteq> i \<Longrightarrow>
      delivery_of rows acc j = Some da' \<Longrightarrow> \<not> same_target da da'"
  shows "delivery_unique rows' acc"
proof -
  have at_i: "delivery_of rows' acc i = delivery_action i (action_apply (fst (loadAction rows acc i)) d)"
    unfolding delivery_of_def replay_loads(2) replay_wrote(1) [OF assms(2-4)] ..
  have at_j: "delivery_of rows' acc j = delivery_of rows acc j" if "j \<noteq> i" for j
    unfolding delivery_of_def replay_loads(2) using that by (simp add: replay_wrote(2) [OF assms(2-4)])
  have sym: "same_target x y = same_target y x" for x y by (auto simp: same_target_def)
  have meets: "j = i" if "delivery_of rows' acc i = Some x" "delivery_of rows' acc j = Some y" "same_target x y" for j x y
  proof (rule ccontr)
    assume j: "j \<noteq> i"
    with at_j that(2) have "delivery_of rows acc j = Some y" by simp
    from own [OF _ j this] at_i that(1,3) show False by simp
  qed
  show ?thesis
    unfolding delivery_unique_iff
  proof (intro allI impI)
    fix j k x y
    assume xy: "delivery_of rows' acc j = Some x" "delivery_of rows' acc k = Some y" "same_target x y"
    show "j = k"
    proof (cases "j = i \<or> k = i")
      case True
      with meets xy sym show ?thesis by metis
    next
      case False
      with assms(1) xy at_j show ?thesis unfolding delivery_unique_iff by metis
    qed
  qed
qed

lemma validateDeliveryConfig_Inr:
  assumes "validateDeliveryConfig deps rows acc d raw ignore = Inr cf"
  shows "\<exists>p g. cf = empty_config\<lparr>cf_traefikProviderId := Some p, cf_group := Some g\<rparr> \<and> p \<noteq> [] \<and> GROUP_PATTERN g
    \<and> provider_loadActive rows acc p \<noteq> None \<and> delivery_clash rows acc d p ignore = None"
  using assms by (auto simp: validateDeliveryConfig_def Let_def split: if_splits option.splits)

lemma delivery_clash_None:
  assumes "delivery_clash rows acc d p ignore = None" and "delivery_of rows acc j = Some da" and "Some j \<noteq> ignore"
  shows "\<not> (da_ipClientId da = d \<and> da_traefikProviderId da = p)"
proof -
  have "da \<in> set (listDeliveryActions rows acc)" using assms(2) by (auto simp: set_listDeliveryActions)
  moreover have "da_actionId da = j" using assms(2) by (simp add: delivery_of_def delivery_action_id)
  ultimately show ?thesis using assms(1,3) by (auto simp: delivery_clash_def find_None_iff)
qed

text \<open>Enabling, disabling and reconfiguring leave the target alone unless a new configuration was validated.\<close>

lemma delivery_action_same_target:
  assumes "delivery_action i st' = Some da" and "ac_type st' = ac_type st" and "ac_ipClientId st' = ac_ipClientId st"
    and "ac_config st' = ac_config st" and "ac_status st \<noteq> ActDetached"
  obtains da' where "delivery_action i st = Some da'" and "same_target da da'"
  using assms by (auto simp: delivery_action_def same_target_def split: if_splits option.splits)

definition deliveries_ok :: "id \<Rightarrow> event_store \<Rightarrow> bool" where
  "deliveries_ok acc rows = (wf_store rows \<and> delivery_unique rows acc)"

lemma deliveries_ok_commit:
  assumes "undisturbed deps" and "deliveries_ok acc (bk_rows b)" and "n = length (readStream (bk_rows b) (stream acc ACTION i))"
    and own: "\<And>da j da'. delivery_action i (action_apply (fst (loadAction (bk_rows b) acc i)) d) = Some da \<Longrightarrow> j \<noteq> i \<Longrightarrow>
      delivery_of (bk_rows b) acc j = Some da' \<Longrightarrow> \<not> same_target da da'"
  shows "deliveries_ok acc (bk_rows (snd (commit deps tk (stream acc ACTION i) n d b)))"
proof (cases rule: commit_cases [of deps tk "stream acc ACTION i" n d b])
  case conflict
  with assms(1,2) show ?thesis by (simp add: undisturbed_def)
next
  case (appended e)
  have wf: "wf_store (bk_rows b)" and unique: "delivery_unique (bk_rows b) acc" using assms(2) by (simp_all add: deliveries_ok_def)
  note new = append_after_load [OF wf undisturbed_appends [OF assms(1)] appended(2) [unfolded assms(3)]]
  have between: "rt_between deps (bk_rows b) = bk_rows b" using assms(1) by (simp add: undisturbed_def)
  have "wrote (bk_rows b) (bk_rows b @ [e]) (stream acc ACTION i) d" using new(5,6) by (auto simp: wrote_def)
  from delivery_unique_wrote [OF unique wf _ this own] new(3) appended(1) show ?thesis
    by (simp add: deliveries_ok_def between)
qed

lemma deliveries_ok_create:
  assumes "undisturbed deps" and "deliveries_ok acc (bk_rows b)"
    and own: "\<And>da j da'. delivery_action i (action_apply initialActionState d) = Some da \<Longrightarrow> j \<noteq> i \<Longrightarrow>
      delivery_of (bk_rows b) acc j = Some da' \<Longrightarrow> \<not> same_target da da'"
  shows "deliveries_ok acc (bk_rows (snd (commit deps tk (stream acc ACTION i) 0 d b)))"
proof (cases "readStream (bk_rows b) (stream acc ACTION i) = []")
  case True
  then have "fst (loadAction (bk_rows b) acc i) = initialActionState" by (simp add: load_defs)
  with True own assms(1,2) show ?thesis by (intro deliveries_ok_commit) simp_all
next
  case False
  have "wf_store (bk_rows b)" using assms(2) by (simp add: deliveries_ok_def)
  from create_taken [OF this assms(1) False, of tk d "\<lambda>e b. (not_found, b)"] assms(2) show ?thesis
    by (simp add: proceed_rows [symmetric, of "\<lambda>e b. (not_found, b)"])
qed

text \<open>A status change keeps type, device and configuration, so what it shows was shown before.\<close>

lemma deliveries_ok_change:
  assumes "undisturbed deps" and "deliveries_ok acc (bk_rows b)" and "loadOwnedAction (bk_rows b) acc i = Some (st, n)"
    and "ac_status st \<noteq> ActDetached" and "d = ActionEnabled i \<or> d = ActionDisabled i \<or> d = ActionDetached t"
  shows "deliveries_ok acc (bk_rows (snd (commit deps tk (stream acc ACTION i) n (ActionEv d) b)))"
proof (rule deliveries_ok_commit [OF assms(1,2)])
  have st: "st = fst (loadAction (bk_rows b) acc i)" using assms(3) by (simp add: loadOwnedAction_Some)
  show "n = length (readStream (bk_rows b) (stream acc ACTION i))" using assms(3) by (simp add: loadOwnedAction_Some)
  fix da j da'
  assume "delivery_action i (action_apply (fst (loadAction (bk_rows b) acc i)) (ActionEv d)) = Some da"
    and other: "j \<noteq> i" "delivery_of (bk_rows b) acc j = Some da'"
  then have "delivery_action i (action_apply st (ActionEv d)) = Some da" by (simp add: st)
  then obtain da0 where "delivery_action i st = Some da0" "same_target da da0"
    by (rule delivery_action_same_target) (use assms(4,5) in auto)
  moreover from this(1) have "delivery_of (bk_rows b) acc i = Some da0" by (simp add: delivery_of_def st)
  ultimately show "\<not> same_target da da'"
    using other assms(2) unfolding deliveries_ok_def delivery_unique_iff same_target_def by metis
qed

lemma deliveries_ok_reconfigure:
  assumes "undisturbed deps" and "deliveries_ok acc (bk_rows b)" and "loadOwnedAction (bk_rows b) acc i = Some (st, n)"
    and "reconfigure_config deps acc i st cf0 b = (Inr config, b1)"
  shows "deliveries_ok acc (bk_rows (snd (commit deps tk (stream acc ACTION i) n
    (ActionEv (ActionReconfigured \<lparr>rcf_addressFamilies = fs, rcf_config = config, rcf_reconfiguredAt = t\<rparr>)) b1)))"
proof -
  have rows: "bk_rows b1 = bk_rows b" using reconfigure_config_rows [of deps acc i st cf0 b] assms(4) by simp
  have st: "st = fst (loadAction (bk_rows b) acc i)" using assms(3) by (simp add: loadOwnedAction_Some)
  show ?thesis
  proof (rule deliveries_ok_commit [OF assms(1)])
    show "deliveries_ok acc (bk_rows b1)" "n = length (readStream (bk_rows b1) (stream acc ACTION i))"
      using assms(2,3) rows by (simp_all add: loadOwnedAction_Some)
    fix da j da'
    let ?st' = "action_apply st (ActionEv (ActionReconfigured \<lparr>rcf_addressFamilies = fs, rcf_config = config, rcf_reconfiguredAt = t\<rparr>))"
    assume "delivery_action i (action_apply (fst (loadAction (bk_rows b1) acc i)) (ActionEv (ActionReconfigured
        \<lparr>rcf_addressFamilies = fs, rcf_config = config, rcf_reconfiguredAt = t\<rparr>))) = Some da"
      and "j \<noteq> i" and "delivery_of (bk_rows b1) acc j = Some da'"
    then have da: "delivery_action i ?st' = Some da" and j: "j \<noteq> i" and da': "delivery_of (bk_rows b) acc j = Some da'"
      by (simp_all add: rows st)
    from da have type: "ac_type st = Some TRAEFIK_CONFIG_DELIVERY_ACTION_TYPE" and alive: "ac_status st \<noteq> ActDetached"
      by (auto simp: delivery_action_def split: if_splits)
    show "\<not> same_target da da'"
    proof (cases cf0)
      case None
      with assms(4) have "config = None" by (simp add: reconfigure_config_def)
      with alive da obtain da0 where "delivery_action i st = Some da0" "same_target da da0"
        by (auto elim: delivery_action_same_target)
      moreover from this(1) have "delivery_of (bk_rows b) acc i = Some da0" by (simp add: delivery_of_def st)
      ultimately show ?thesis
        using j da' assms(2) unfolding deliveries_ok_def delivery_unique_iff same_target_def by metis
    next
      case (Some cf)
      with assms(4) type obtain cfg where valid: "config = Some cfg"
        "validateDeliveryConfig deps (bk_rows b) acc (nullish_or (ac_ipClientId st) []) (Some cf) (Some i) = Inr cfg"
        by (cases "validateDeliveryConfig deps (bk_rows b) acc (nullish_or (ac_ipClientId st) []) (Some cf) (Some i)")
          (auto simp: reconfigure_config_def)
      from validateDeliveryConfig_Inr [OF valid(2)] obtain p g where cfg: "cfg = empty_config\<lparr>cf_traefikProviderId := Some p, cf_group := Some g\<rparr>"
        "delivery_clash (bk_rows b) acc (nullish_or (ac_ipClientId st) []) p (Some i) = None" by blast
      from delivery_clash_None [OF cfg(2) da'] j
      have "\<not> (da_ipClientId da' = nullish_or (ac_ipClientId st) [] \<and> da_traefikProviderId da' = p)" by simp
      moreover have "da_ipClientId da = nullish_or (ac_ipClientId st) []" "da_traefikProviderId da = p"
        using da by (auto simp: delivery_action_def valid(1) cfg(1) delivery_provider_def split: if_splits)
      ultimately show ?thesis by (auto simp: same_target_def)
    qed
  qed
qed

lemma deliveries_ok_attach:
  assumes "undisturbed deps" and "deliveries_ok acc (bk_rows b)" and "attach_config deps acc d body b = (Inr config, b1)"
    and "bk_rows b1 = bk_rows b" and "ab_type body \<noteq> None"
  shows "deliveries_ok acc (bk_rows (snd (commit deps tk (stream acc ACTION i) 0
    (ActionEv (ActionAttached \<lparr>att_actionId = i, att_accountId = acc, att_ipClientId = d, att_type = the (ab_type body),
       att_addressFamilies = fs, att_config = config, att_attachedAt = t\<rparr>)) b1)))"
proof (rule deliveries_ok_create [OF assms(1)])
  show "deliveries_ok acc (bk_rows b1)" using assms(2,4) by simp
  fix da j da'
  assume da: "delivery_action i (action_apply initialActionState (ActionEv (ActionAttached \<lparr>att_actionId = i, att_accountId = acc,
       att_ipClientId = d, att_type = the (ab_type body), att_addressFamilies = fs, att_config = config, att_attachedAt = t\<rparr>))) = Some da"
    and "j \<noteq> i" and da': "delivery_of (bk_rows b1) acc j = Some da'"
  from da have type: "the (ab_type body) = TRAEFIK_CONFIG_DELIVERY_ACTION_TYPE"
    by (simp add: delivery_action_def split: if_splits)
  with assms(5) have "ab_type body = Some TRAEFIK_CONFIG_DELIVERY_ACTION_TYPE" by auto
  with assms(3) have "validateDeliveryConfig deps (bk_rows b) acc d (ab_config body) None = Inr config"
    by (auto simp: attach_config_def attach_delivery_def Let_def split: if_splits)
  from validateDeliveryConfig_Inr [OF this] obtain p g where cfg: "config = empty_config\<lparr>cf_traefikProviderId := Some p, cf_group := Some g\<rparr>"
    "delivery_clash (bk_rows b) acc d p None = None" by blast
  from delivery_clash_None [OF cfg(2) da' [unfolded assms(4)]]
  have "\<not> (da_ipClientId da' = d \<and> da_traefikProviderId da' = p)" by simp
  moreover have "da_ipClientId da = d" "da_traefikProviderId da = p"
    using da by (auto simp: delivery_action_def cfg(1) delivery_provider_def split: if_splits)
  ultimately show "\<not> same_target da da'" by (auto simp: same_target_def)
qed

lemma deliveries_ok_route:
  assumes "undisturbed deps" and "deliveries_ok acc (bk_rows b)"
  shows "deliveries_ok acc (bk_rows (snd (action_route deps dr acc req b)))"
proof -
  have change: "deliveries_ok acc (bk_rows (snd (case loadOwnedAction (bk_rows b) acc i of None \<Rightarrow> (not_found, b)
      | Some (state, version) \<Rightarrow> if ac_status state = ActDetached then (resp, b)
          else action_change deps dr acc i state version d (finish state) b)))"
    if "\<And>st b. bk_rows (snd (finish st b)) = bk_rows b" "d = ActionEnabled i \<or> d = ActionDisabled i \<or> d = ActionDetached t" for i d resp finish t
  proof (cases "loadOwnedAction (bk_rows b) acc i")
    case (Some x)
    obtain st n where x: "x = (st, n)" by fastforce
    show ?thesis unfolding Some x option.case prod.case
      using deliveries_ok_change [OF assms Some [unfolded x] _ that(2)] assms(2) by (simp add: action_change_rows that(1))
  qed (use assms(2) in simp)
  show ?thesis
  proof (cases req)
    case (AttachAction d body)
    show ?thesis
    proof (cases rule: action_attach_commit [of deps dr acc d body b])
      case refused
      with AttachAction assms(2) show ?thesis by simp
    next
      case (attached b1 config)
      from deliveries_ok_attach [OF assms attached(1-3)] show ?thesis
        unfolding AttachAction action_route.simps attached(6) .
    qed
  next
    case (ReconfigureAction i body)
    show ?thesis
    proof (cases "loadOwnedAction (bk_rows b) acc i")
      case None
      with ReconfigureAction assms(2) show ?thesis by (simp add: action_reconfigure_def)
    next
      case (Some x)
      obtain st n where x: "x = (st, n)" by fastforce
      from Some [unfolded x] show ?thesis
      proof (cases rule: action_reconfigure_commit [where deps = deps and dr = dr and body = body])
        case refused
        with ReconfigureAction assms(2) show ?thesis by simp
      next
        case (stored b1 config)
        from deliveries_ok_reconfigure [OF assms Some [unfolded x] stored(1)] show ?thesis
          unfolding ReconfigureAction action_route.simps stored(3) .
      qed
    qed
  next
    case (EnableAction i)
    then show ?thesis by (simp add: action_enable_def change)
  next
    case (DisableAction i)
    then show ?thesis by (simp add: action_disable_def change)
  next
    case (DetachAction i)
    then show ?thesis by (simp add: action_detach_def change proceed_rows)
  qed
qed

section \<open>What is attached\<close>

text \<open>A configuration that passed validation, against the store and the log of requests it was validated with.\<close>

definition config_valid :: "route_deps \<Rightarrow> id \<Rightarrow> id \<Rightarrow> string \<Rightarrow> ActionConfig \<Rightarrow> backend \<Rightarrow> http_request list \<Rightarrow> bool" where
  "config_valid deps acc d type cf b log =
     (if type = TRAEFIK_CONFIG_DELIVERY_ACTION_TYPE
      then ic_accountId (fst (loadIpClient (bk_rows b) acc d)) = Some acc
        \<and> ic_status (fst (loadIpClient (bk_rows b) acc d)) \<noteq> IcDecommissioned
        \<and> (\<exists>p g. cf = empty_config\<lparr>cf_traefikProviderId := Some p, cf_group := Some g\<rparr> \<and> GROUP_PATTERN g
             \<and> provider_loadActive (bk_rows b) acc p \<noteq> None
             \<and> (\<forall>a \<in> set (listDeliveryActions (bk_rows b) acc). \<not> (da_ipClientId a = d \<and> da_traefikProviderId a = p)))
      else (\<exists>token. loadOwnedActiveCredential deps (bk_rows b) acc (cf_providerCredentialId cf) = Inr (Some token)
        \<and> (if type = HETZNER_CLOUD_DNS_UPDATE_ACTION_TYPE then dns_config_complete (Some cf)
           else firewall_config_complete (Some cf) \<and> log = bk_requests b @ [get_request token (cf_firewallId cf)]
             \<and> (\<exists>resp rules i. fst (requestJson (rt_parse deps) (rt_server deps) (bk_requests b) (get_request token (cf_firewallId cf))
                    ''reading the firewall'') = Inr resp
                  \<and> rules_of resp = Inr rules \<and> matchFirewallRule rules (firewall_selector cf) = Matched i))))"

lemma validateFirewallSelector_None:
  assumes "validateFirewallSelector deps token cf log = (None, log')"
  shows "log' = log @ [get_request token (cf_firewallId cf)]
    \<and> (\<exists>resp rules i. fst (requestJson (rt_parse deps) (rt_server deps) log (get_request token (cf_firewallId cf)) ''reading the firewall'') = Inr resp
        \<and> rules_of resp = Inr rules \<and> matchFirewallRule rules (firewall_selector cf) = Matched i)"
proof -
  obtain r log1 where rq: "requestJson (rt_parse deps) (rt_server deps) log (get_request token (cf_firewallId cf)) ''reading the firewall'' = (r, log1)"
    by fastforce
  have "log1 = log @ [get_request token (cf_firewallId cf)]"
    using requestJson_log [of "rt_parse deps" "rt_server deps" log "get_request token (cf_firewallId cf)" "''reading the firewall''"] rq by simp
  with assms rq show ?thesis
    unfolding validateFirewallSelector_def Let_def rq
    by (cases r) (auto simp: selector_reply_def split: if_splits sum.splits match_result.splits)
qed

lemma attach_config_valid:
  assumes "attach_config deps acc d body b = (Inr cf, b1)" and "ab_type body = Some type" and "type \<in> set supported_types"
  shows "config_valid deps acc d type cf b (bk_requests b1)"
proof -
  consider (delivery) "type = TRAEFIK_CONFIG_DELIVERY_ACTION_TYPE" | (dns) "type = HETZNER_CLOUD_DNS_UPDATE_ACTION_TYPE"
    | (firewall) "type = HETZNER_CLOUD_FIREWALL_RULE_UPDATE_ACTION_TYPE"
    using assms(3) by (auto simp: supported_types_def)
  then show ?thesis
  proof cases
    case delivery
    let ?dev = "fst (loadIpClient (bk_rows b) acc d)"
    from assms(1,2) delivery have device: "ic_accountId ?dev = Some acc" "ic_status ?dev \<noteq> IcDecommissioned"
      and valid: "validateDeliveryConfig deps (bk_rows b) acc d (ab_config body) None = Inr cf"
      by (auto simp: attach_config_def attach_delivery_def Let_def split: if_splits)
    from validateDeliveryConfig_Inr [OF valid] obtain p g where pg: "cf = empty_config\<lparr>cf_traefikProviderId := Some p, cf_group := Some g\<rparr>"
      "GROUP_PATTERN g" "provider_loadActive (bk_rows b) acc p \<noteq> None" "delivery_clash (bk_rows b) acc d p None = None" by blast
    from pg(4) have "\<forall>a \<in> set (listDeliveryActions (bk_rows b) acc). \<not> (da_ipClientId a = d \<and> da_traefikProviderId a = p)"
      by (auto simp: delivery_clash_def find_None_iff)
    with device pg(1-3) delivery show ?thesis by (auto simp: config_valid_def)
  next
    case dns
    with assms(1,2) show ?thesis
      by (auto simp: config_valid_def attach_config_def attach_dns_def dns_config_complete_def split: if_splits sum.splits option.splits)
  next
    case firewall
    from assms(1,2) firewall obtain log where fw: "attach_firewall deps acc (ab_config body) b = (Inr cf, log)" "bk_requests b1 = log"
      by (auto simp: attach_config_def split: prod.splits)
    from fw(1) obtain token where complete: "firewall_config_complete (Some cf)"
      and token: "loadOwnedActiveCredential deps (bk_rows b) acc (cf_providerCredentialId cf) = Inr (Some token)"
      and selector: "validateFirewallSelector deps token cf (bk_requests b) = (None, log)"
      by (auto simp: attach_firewall_def firewall_config_complete_def split: if_splits sum.splits option.splits prod.splits)
    from validateFirewallSelector_None [OF selector] complete token fw(2) firewall show ?thesis
      by (simp add: config_valid_def)
  qed
qed

lemma attach_config_refusal: "attach_config deps acc d body b = (Inl refusal, b1) \<Longrightarrow> resp_status refusal \<noteq> 201"
  by (auto simp: attach_config_def attach_delivery_def attach_dns_def attach_firewall_def validateDeliveryConfig_def Let_def
      validateFirewallSelector_def invalid_credential_def invalid_group_def selector_reply_def
      split: if_splits sum.splits option.splits prod.splits match_result.splits)

section \<open>Properties\<close>

text \<open>The action routes respect ownership and the action's life cycle, even when other writers append between a
  handler's read and its write: a request on an action that is not the account's answers 404 and does
  nothing; every other request adds to the table at most one event, to the stream of the action it names
  or creates, and one its guard allows in the state that stream has at that moment; so a detached action
  stays detached, and no other stream changes by the request.\<close>
theorem action_requests_guarded:
  assumes "wf_store (bk_rows b)" and "others_append deps b" and "action_route deps dr acc req b = (resp, b')"
  defines "i \<equiv> nullish_or (requested_action req) (dr_id dr)" and "seen \<equiv> rt_between deps (bk_rows b)"
  shows "(\<forall>j. requested_action req = Some j \<and> loadOwnedAction (bk_rows b) acc j = None \<longrightarrow> resp = not_found \<and> b' = b)
    \<and> (bk_rows b' = bk_rows b \<or> bk_rows b' = seen \<or> (\<exists>e. bk_rows b' = seen @ [e] \<and> in_stream (stream acc ACTION i) e
        \<and> action_allowed (fst (loadAction seen acc i)) (ev_data e)
        \<and> (\<forall>k. k \<noteq> stream acc ACTION i \<longrightarrow> readStream (bk_rows b') k = readStream seen k)))
    \<and> (bk_rows b' \<noteq> bk_rows b \<and> ac_status (fst (loadAction seen acc i)) = ActDetached \<longrightarrow>
        ac_status (fst (loadAction (bk_rows b') acc i)) = ActDetached)"
proof -
  have b': "b' = snd (action_route deps dr acc req b)" by (simp add: assms(3))
  have outcome: "action_outcome deps acc i (bk_rows b) (bk_rows b')"
    unfolding b' i_def by (rule action_route_outcome [OF assms(1,2)])
  have foreign: "resp = not_found \<and> b' = b" if "requested_action req = Some j" "loadOwnedAction (bk_rows b) acc j = None" for j
    using action_route_foreign [OF that, of deps dr] assms(3) by simp
  with actr.guarded_request [OF outcome] show ?thesis
    unfolding seen_def replay_loads(2) by blast
qed

interpretation deliv: request_handler "\<lambda>(dr, req) b. action_route (deps\<lparr>rt_between := (\<lambda>rows. rows)\<rparr>) dr acc req b"
  "\<lambda>r b. True" "\<lambda>b. deliveries_ok acc (bk_rows b)" for deps acc
  by unfold_locales (auto simp: undisturbed_def intro: deliveries_ok_route)

text \<open>C18. One delivery per device and provider: over any sequence of action requests that do not race each other, an
  account never has two different attached delivery actions of one device to one provider.\<close>
theorem delivery_unique_kept:
  assumes "wf_store (bk_rows b)" and "delivery_unique (bk_rows b) acc"
    and "serve (\<lambda>(dr, req). action_route (deps\<lparr>rt_between := (\<lambda>rows. rows)\<rparr>) dr acc req) b reqs = (resps, b')"
    and "d \<in> set (listDeliveryActions (bk_rows b') acc)" and "d' \<in> set (listDeliveryActions (bk_rows b') acc)"
    and "da_ipClientId d = da_ipClientId d'" and "da_traefikProviderId d = da_traefikProviderId d'"
  shows "d = d'"
proof -
  have "deliveries_ok acc (bk_rows b)" using assms(1,2) by (simp add: deliveries_ok_def)
  from deliv.serve_inv [OF this, of deps reqs] assms(3) have ok: "deliveries_ok acc (bk_rows b')" by simp
  from assms(4,5) obtain i j where at: "delivery_of (bk_rows b') acc i = Some d" "delivery_of (bk_rows b') acc j = Some d'"
    by (auto simp: set_listDeliveryActions)
  have "same_target d d'" using assms(6,7) by (simp add: same_target_def)
  with ok at have "i = j" unfolding deliveries_ok_def delivery_unique_iff by metis
  with at show ?thesis by simp
qed

text \<open>What is attached was validated: after an answer 201 the new action has the requested type, at least one address
  family and is enabled, and its configuration is complete and refers to an active credential of the
  account (a firewall rule selector matched exactly one rule of the firewall as the provider reported it)
  or, for a delivery, to an active agent of the account, a well-formed group and a device of the account
  that is not decommissioned and has no other action delivering there.\<close>
theorem attached_action_valid:
  assumes "wf_store (bk_rows b)" and "undisturbed deps" and "action_route deps dr acc (AttachAction d body) b = (resp, b')"
    and "resp_status resp = 201"
  defines "st \<equiv> fst (loadAction (bk_rows b') acc (dr_id dr))"
  shows "\<exists>type cf. ab_type body = Some type \<and> type \<in> set supported_types \<and> ac_type st = Some type \<and> ac_config st = Some cf
    \<and> ac_ipClientId st = Some d \<and> ac_status st = ActEnabled \<and> ac_addressFamilies st \<noteq> []
    \<and> config_valid deps acc d type cf b (bk_requests b')"
proof -
  let ?i = "dr_id dr" and ?k = "stream acc ACTION (dr_id dr)"
  have run: "action_attach deps dr acc d body b = (resp, b')" using assms(3) by simp
  obtain type where type: "ab_type body = Some type" "type \<in> set supported_types" and families: "nullish_or (attach_families body) [] \<noteq> []"
    using run assms(4) by (auto simp: action_attach_def unsupported_type_def split: option.splits if_splits)
  obtain res b1 where config: "attach_config deps acc d body b = (res, b1)" by fastforce
  have rows: "bk_rows b1 = bk_rows b" using attach_config_rows [of deps acc d body b] config by simp
  show ?thesis
  proof (cases res)
    case (Inl refusal)
    from attach_config_refusal [OF config [unfolded Inl]] run assms(4) type families config Inl show ?thesis
      by (simp add: action_attach_def)
  next
    case (Inr cf)
    define ev where "ev = ActionEv (ActionAttached \<lparr>att_actionId = ?i, att_accountId = acc, att_ipClientId = d, att_type = type,
      att_addressFamilies = the (attach_families body), att_config = cf, att_attachedAt = tk_now (dr_tick dr)\<rparr>)"
    define finish where "finish = (\<lambda>(e :: stored_event) b. proceed (refresh_action deps acc ?i b)
      (\<lambda>u b. (Json 201 (JObj [(''actionId'', JStr ?i)]), scheduleDelivery deps acc [Some (currentState (bk_rows b) acc ?i)] b)))"
    have run': "proceed (commit deps (dr_tick dr) ?k 0 ev b1) finish = (resp, b')"
      using run type families config Inr by (simp add: action_attach_def ev_def finish_def Let_def)
    have finish: "bk_rows (snd (finish e b2)) = bk_rows b2" "bk_requests (snd (finish e b2)) = bk_requests b2" for e b2
      by (simp_all add: finish_def refresh_action_def scheduleDelivery_def Let_def split: option.split)
    show ?thesis
    proof (cases rule: commit_cases [of deps "dr_tick dr" ?k 0 ev b1])
      case conflict
      with run' assms(4) show ?thesis by auto
    next
      case (appended e)
      have between: "rt_between deps (bk_rows b1) = bk_rows b" "rt_between deps (bk_rows b) = bk_rows b"
        using assms(2) rows by (simp_all add: undisturbed_def)
      have empty: "readStream (bk_rows b) ?k = []"
      proof (rule ccontr)
        assume "readStream (bk_rows b) ?k \<noteq> []"
        then have "1 \<le> length (readStream (bk_rows b) ?k)" by (cases "readStream (bk_rows b) ?k") simp_all
        from append_event_taken [OF assms(1) order_refl this, of "rt_config deps" "dr_tick dr" ev] appended(2) show False
          by (auto simp: between)
      qed
      have zero: "(0 :: nat) + 1 = length (readStream (bk_rows b1) ?k) + 1" using empty rows by simp
      have "wf_store (bk_rows b1)" using assms(1) rows by simp
      note new = append_after_load [OF this undisturbed_appends [OF assms(2)] appended(2) [unfolded zero]]
      have b': "b' = snd (finish e (b1\<lparr>bk_rows := bk_rows b @ [e]\<rparr>))" using run' appended(1) by (simp add: between)
      then have "bk_rows b' = bk_rows b @ [e]" "bk_requests b' = bk_requests b1" by (simp_all add: finish)
      moreover have "readStream (bk_rows b @ [e]) ?k = [e]" using new(7) empty rows by (simp add: between)
      ultimately have "st = action_apply initialActionState ev"
        using new(6) by (simp add: st_def load_defs actionReducer_def)
      with type families attach_config_valid [OF config [unfolded Inr] type] \<open>bk_requests b' = bk_requests b1\<close> show ?thesis
        by (cases "attach_families body") (auto simp: ev_def)
    qed
  qed
qed

section \<open>Concrete requests\<close>

lemma action_requests_guarded_witness:
  "fst (action_route sample_routes sample_drawn ''other'' (DetachAction ''a'') (sample_backend sample_device_rows)) = not_found"
proof -
  obtain resp b' where run: "action_route sample_routes sample_drawn ''other'' (DetachAction ''a'') (sample_backend sample_device_rows) = (resp, b')"
    by fastforce
  have "loadOwnedAction sample_device_rows ''other'' ''a'' = None"
    by (simp add: loadOwnedAction_def load_defs Let_def readStream_def in_stream_def sample_device_defs initialActionState_def)
  then show ?thesis using action_requests_guarded [OF _ _ run] sample_device_wf(1) run by simp
qed

definition sample_delivery :: stored_event where
  "sample_delivery = sample_row ''e8'' ''acc'' ''v'' 1 (sample_attach ''acc'' ''v'' ''d'' ''p'' ''web'')"

lemma delivery_unique_kept_witness:
  "\<exists>resps b' d. serve (\<lambda>(dr, req). action_route (sample_routes\<lparr>rt_between := (\<lambda>rows. rows)\<rparr>) dr ''acc'' req)
      (sample_backend [sample_delivery]) [(sample_drawn, DetachAction ''x'')] = (resps, b')
    \<and> d \<in> set (listDeliveryActions (bk_rows b') ''acc'')
    \<and> (\<forall>d' \<in> set (listDeliveryActions (bk_rows b') ''acc''). da_ipClientId d' = ''d'' \<and> da_traefikProviderId d' = ''p'' \<longrightarrow> d' = d)"
proof -
  let ?b = "sample_backend [sample_delivery]"
  have list: "listAggregateIds [sample_delivery] ''acc'' ACTION = [''v'']"
    by (simp add: listAggregateIds_def sample_delivery_def uniq_def)
  have load: "delivery_of [sample_delivery] ''acc'' ''v'' =
      Some \<lparr>da_actionId = ''v'', da_ipClientId = ''d'', da_traefikProviderId = ''p'', da_group = ''web'', da_status = ActEnabled\<rparr>"
    by (simp add: delivery_of_def delivery_action_def load_defs readStream_def in_stream_def sample_delivery_def
        sample_attach_def actionReducer_def initialActionState_def delivery_provider_def delivery_group_def empty_config_def)
  have one: "listDeliveryActions [sample_delivery] ''acc'' =
      [\<lparr>da_actionId = ''v'', da_ipClientId = ''d'', da_traefikProviderId = ''p'', da_group = ''web'', da_status = ActEnabled\<rparr>]"
    unfolding listDeliveryActions_def list delivery_of_def [symmetric] List.map_filter_simps load by simp
  have wf: "wf_store [sample_delivery]" by (auto simp: wf_store_def aggregate_rows_def sample_delivery_def Let_def)
  have unique: "delivery_unique [sample_delivery] ''acc''" by (simp add: delivery_unique_def one)
  have "loadOwnedAction [sample_delivery] ''acc'' ''x'' = None"
    by (simp add: loadOwnedAction_def load_defs Let_def readStream_def in_stream_def sample_delivery_def initialActionState_def)
  then have serve: "serve (\<lambda>(dr, req). action_route (sample_routes\<lparr>rt_between := (\<lambda>rows. rows)\<rparr>) dr ''acc'' req) ?b
      [(sample_drawn, DetachAction ''x'')] = ([not_found], ?b)"
    by (simp add: action_detach_def)
  note once = delivery_unique_kept [where b = ?b, OF _ _ serve]
  show ?thesis
    using serve once wf unique by (intro exI [of _ "[not_found]"] exI [of _ ?b] exI [of _ "hd (listDeliveryActions [sample_delivery] ''acc'')"])
      (simp add: one)
qed

definition sample_attach_body :: action_body where
  "sample_attach_body = \<lparr>ab_type = Some HETZNER_CLOUD_DNS_UPDATE_ACTION_TYPE, ab_addressFamilies = Some [IPv4],
     ab_config = Some (empty_config\<lparr>cf_providerCredentialId := Some ''c'', cf_zone := Some ''z'', cf_recordName := Some ''r''\<rparr>)\<rparr>"

lemma attached_action_valid_witness:
  "\<exists>resp b' cf. action_route sample_routes sample_drawn ''acc'' (AttachAction ''d'' sample_attach_body)
      (sample_backend (wk_rows sample_worker_state)) = (resp, b') \<and> resp_status resp = 201
    \<and> ac_config (fst (loadAction (bk_rows b') ''acc'' ''n'')) = Some cf \<and> dns_config_complete (Some cf)"
proof -
  let ?rows = "wk_rows sample_worker_state" and ?b = "sample_backend (wk_rows sample_worker_state)"
  have wf: "wf_store ?rows" using sample_worker_ready by (simp add: ready_def)
  have "pc_credentialId (fst (loadCredential ?rows ''acc'' ''c'')) = Some ''c''" "pc_accountId (fst (loadCredential ?rows ''acc'' ''c'')) = Some ''acc''"
    by (simp_all add: load_defs readStream_def in_stream_def sample_worker_state_def sample_worker_row_defs providerCredentialReducer_def)
  moreover have "encryptSecret sample_crypto iv p k \<noteq> []" for iv p k
    by (cases "aes_seal sample_crypto k iv p") (simp add: encryptSecret_def)
  ultimately have token: "loadOwnedActiveCredential sample_routes ?rows ''acc'' (Some ''c'') = Inr (Some ''token'')"
    by (simp add: loadOwnedActiveCredential_def sample_worker_loads sample_routes_def decrypt_encrypt [OF sample_aead])
  have config: "attach_config sample_routes ''acc'' ''d'' sample_attach_body ?b = (Inr (the (ab_config sample_attach_body)), ?b)"
    by (simp add: attach_config_def attach_dns_def sample_attach_body_def dns_config_complete_def empty_config_def token)
  have fresh: "tk_id (dr_tick sample_drawn) \<notin> ev_id ` set ?rows"
    by (auto simp: sample_drawn_def sample_worker_state_def sample_worker_row_defs)
  have empty: "aggregate_rows ?rows ACTION ''n'' = []"
    by (simp add: aggregate_rows_def sample_worker_state_def sample_worker_row_defs)
  then have none: "readStream ?rows (stream ''acc'' ACTION ''n'') = []"
    by (simp add: readStream_wf(1) [OF wf] filter_in_stream)
  have "\<exists>e. commit sample_routes (dr_tick sample_drawn) (stream ''acc'' ACTION ''n'') 0 d ?b = (Inr e, ?b\<lparr>bk_rows := ?rows @ [e]\<rparr>)" for d
    using commit_alone [of ?b sample_routes "dr_tick sample_drawn" ACTION "''n''" "''acc''" 0 d] wf fresh empty none by simp
  then obtain e where e: "commit sample_routes (dr_tick sample_drawn) (stream ''acc'' ACTION ''n'') 0
      (ActionEv (ActionAttached \<lparr>att_actionId = ''n'', att_accountId = ''acc'', att_ipClientId = ''d'', att_type = HETZNER_CLOUD_DNS_UPDATE_ACTION_TYPE,
         att_addressFamilies = the (attach_families sample_attach_body), att_config = the (ab_config sample_attach_body),
         att_attachedAt = tk_now (dr_tick sample_drawn)\<rparr>)) ?b = (Inr e, ?b\<lparr>bk_rows := ?rows @ [e]\<rparr>)" by blast
  obtain resp b' where run: "action_route sample_routes sample_drawn ''acc'' (AttachAction ''d'' sample_attach_body) ?b = (resp, b')"
    by fastforce
  have body: "ab_type sample_attach_body = Some HETZNER_CLOUD_DNS_UPDATE_ACTION_TYPE" "nullish_or (attach_families sample_attach_body) [] \<noteq> []"
    "HETZNER_CLOUD_DNS_UPDATE_ACTION_TYPE \<in> set supported_types" "dr_id sample_drawn = ''n''"
    by (simp_all add: sample_attach_body_def attach_families_def supported_types_def sample_drawn_def)
  have "resp_status resp = 201"
    using run unfolding action_route.simps action_attach_def body(1,4) option.case config prod.case sum.case Let_def e proceed_simps
    using body(2,3) by (auto simp: refresh_action_def)
  from attached_action_valid [OF _ _ run this] wf obtain cf where
    "ac_config (fst (loadAction (bk_rows b') ''acc'' ''n'')) = Some cf" "config_valid sample_routes ''acc'' ''d'' HETZNER_CLOUD_DNS_UPDATE_ACTION_TYPE cf ?b (bk_requests b')"
    by (auto simp: sample_attach_body_def sample_drawn_def)
  with run \<open>resp_status resp = 201\<close> show ?thesis by (auto simp: config_valid_def)
qed

end
