(* ===== verification/CredentialRoutes.thy ===== *)
theory CredentialRoutes
  imports ActionRoutes
begin

text \<open>
  The routes of provider credentials (\<open>adapters/http/routes/provider-credentials.ts\<close>) and of the
  notification channel (\<open>notification-channel.ts\<close>). Stored secrets leave these handlers only as their
  last four characters.
\<close>

section \<open>Provider credentials\<close>

record credential_body =
  kb_provider :: "string option"
  kb_label :: "string option"
  kb_secret :: "string option"

definition listActiveCredentials :: "event_store \<Rightarrow> id \<Rightarrow> ProviderCredentialState list" where
  "listActiveCredentials rows accountId =
     filter (\<lambda>state. pc_status state = CrActive)
       (map (\<lambda>i. fst (loadCredential rows accountId i)) (listAggregateIds rows accountId PROVIDER_CREDENTIAL))"

definition normalize_label :: "string \<Rightarrow> string" where
  "normalize_label s = js_lower (js_trim s)"

text \<open>\<open>dr_salt\<close> is the random IV of the encryption.\<close>

definition credential_store :: "route_deps \<Rightarrow> drawn \<Rightarrow> id \<Rightarrow> credential_body \<Rightarrow> backend \<Rightarrow> response \<times> backend" where
  "credential_store deps dr accountId body b =
     (if \<not> truthy (kb_provider body) \<or> \<not> truthy (kb_label body) \<or> \<not> truthy (kb_secret body)
      then (json_error 400 ''provider, label, and secret are required'', b)
      else (let provider = the (kb_provider body); label = the (kb_label body); secret = the (kb_secret body);
                existing = listActiveCredentials (bk_rows b) accountId
        in if list_ex (\<lambda>state. normalize_label (pc_label state) = normalize_label label) existing
           then (json_error 409 ''label already in use'', b)
           else (let credentialId = dr_id dr in
             proceed (commit deps (dr_tick dr) (stream accountId PROVIDER_CREDENTIAL credentialId) 0
                 (CredentialEv (CredentialStored \<lparr>pcs_credentialId = credentialId, pcs_accountId = accountId,
                    pcs_provider = provider, pcs_label = label,
                    pcs_encryptedSecret = encryptSecret (rt_crypto deps) (dr_salt dr) secret (cfg_credentialEncryptionKey (rt_config deps)),
                    pcs_secretLast4 = maskLast4 secret, pcs_storedAt = tk_now (dr_tick dr)\<rparr>)) b)
               (\<lambda>e b. (Json 201 (JObj [(''credentialId'', JStr credentialId), (''provider'', JStr provider),
                  (''label'', JStr label), (''secretLast4'', JStr (maskLast4 secret))]), b)))))"

definition credential_item :: "ProviderCredentialState \<Rightarrow> json" where
  "credential_item state = JObj [(''credentialId'', text_json (pc_credentialId state)), (''provider'', JStr (pc_provider state)),
     (''label'', JStr (pc_label state)), (''secretLast4'', JStr (pc_secretLast4 state))]"

definition credential_list :: "id \<Rightarrow> backend \<Rightarrow> response \<times> backend" where
  "credential_list accountId b =
     (Json 200 (JObj [(''items'', JArr (map credential_item (listActiveCredentials (bk_rows b) accountId)))]), b)"

text \<open>The actions that use a credential.\<close>

definition uses_credential :: "id \<Rightarrow> ActionState \<Rightarrow> bool" where
  "uses_credential credentialId state = (ac_status state \<noteq> ActDetached \<and> hasProviderCredential (ac_config state)
     \<and> cf_providerCredentialId (the (ac_config state)) = Some credentialId
     \<and> truthy (ac_actionId state) \<and> truthy (ac_ipClientId state))"

definition usage_json :: "ActionState \<Rightarrow> json" where
  "usage_json state = JObj ([(''actionId'', text_json (ac_actionId state)), (''ipClientId'', text_json (ac_ipClientId state))]
     @ (let config = the (ac_config state) in
        if ac_type state = Some HETZNER_CLOUD_FIREWALL_RULE_UPDATE_ACTION_TYPE
        then opt_field ''firewallId'' (map_option JNum (cf_firewallId config)) @ opt_field ''description'' (map_option JStr (cf_description config))
        else opt_field ''zone'' (map_option JStr (cf_zone config)) @ opt_field ''recordName'' (map_option JStr (cf_recordName config))))"

definition credential_usage :: "event_store \<Rightarrow> id \<Rightarrow> id \<Rightarrow> ActionState list" where
  "credential_usage rows accountId credentialId = filter (uses_credential credentialId)
     (map (\<lambda>i. fst (loadAction rows accountId i)) (listAggregateIds rows accountId ACTION))"

definition credential_revoke :: "route_deps \<Rightarrow> drawn \<Rightarrow> id \<Rightarrow> id \<Rightarrow> backend \<Rightarrow> response \<times> backend" where
  "credential_revoke deps dr accountId credentialId b =
     (case loadCredential (bk_rows b) accountId credentialId of (state, events, version) \<Rightarrow>
        if \<not> truthy (pc_credentialId state) \<or> pc_accountId state \<noteq> Some accountId \<or> pc_status state \<noteq> CrActive
        then (not_found, b)
        else (let usedBy = credential_usage (bk_rows b) accountId credentialId in
          if length usedBy > 0
          then (Json 409 (JObj [(''error'', JStr ''credential_in_use''), (''usedBy'', JArr (map usage_json usedBy))]), b)
          else proceed (commit deps (dr_tick dr) (stream accountId PROVIDER_CREDENTIAL credentialId) version
                 (CredentialEv (CredentialRevoked (tk_now (dr_tick dr)))) b)
               (\<lambda>e b. (NoBody 204, b))))"

datatype credential_request = StoreCredential credential_body | ListCredentials | RevokeCredential id

fun credential_route :: "route_deps \<Rightarrow> drawn \<Rightarrow> id \<Rightarrow> credential_request \<Rightarrow> backend \<Rightarrow> response \<times> backend" where
  "credential_route deps dr acc (StoreCredential body) b = credential_store deps dr acc body b"
| "credential_route deps dr acc ListCredentials b = credential_list acc b"
| "credential_route deps dr acc (RevokeCredential i) b = credential_revoke deps dr acc i b"

fun requested_credential :: "credential_request \<Rightarrow> id option" where
  "requested_credential (RevokeCredential i) = Some i"
| "requested_credential _ = None"

section \<open>The notification channel\<close>

text \<open>A body's \<open>addresses\<close> is an unknown value that \<open>isValidAddresses\<close> checks.\<close>

definition isValidAddresses :: "json option \<Rightarrow> bool" where
  "isValidAddresses addresses = (case addresses of
       Some (JArr xs) \<Rightarrow> length xs > 0 \<and> list_all (\<lambda>a. case a of JStr s \<Rightarrow> CHR ''@'' \<in> set s | _ \<Rightarrow> False) xs
     | _ \<Rightarrow> False)"

fun address_texts :: "json option \<Rightarrow> string list" where
  "address_texts (Some (JArr xs)) = map (\<lambda>a. case a of JStr s \<Rightarrow> s | _ \<Rightarrow> []) xs"
| "address_texts _ = []"

definition channel_active :: "NotificationChannelState \<Rightarrow> bool" where
  "channel_active state = (truthy (nc_channelId state) \<and> nc_status state = ChActive)"

definition channel_json :: "string \<Rightarrow> string list \<Rightarrow> json" where
  "channel_json type addresses = JObj [(''type'', JStr type), (''addresses'', JArr (map JStr addresses))]"

definition invalid_addresses :: response where
  "invalid_addresses = json_error 400 ''addresses must be a non-empty array of email addresses''"

definition channel_get :: "id \<Rightarrow> backend \<Rightarrow> response \<times> backend" where
  "channel_get accountId b = (let state = fst (loadChannel (bk_rows b) accountId) in
     if \<not> channel_active state then (not_found, b) else (Json 200 (channel_json (nc_type state) (nc_addresses state)), b))"

definition channel_register :: "route_deps \<Rightarrow> drawn \<Rightarrow> id \<Rightarrow> string option \<Rightarrow> json option \<Rightarrow> backend \<Rightarrow> response \<times> backend" where
  "channel_register deps dr accountId type addresses b =
     (if type \<noteq> Some EMAIL_NOTIFICATION_CHANNEL_TYPE
      then (json_error 400 (''unsupported channel type; only \"'' @ EMAIL_NOTIFICATION_CHANNEL_TYPE @ ''\" exists in this iteration''), b)
      else if \<not> isValidAddresses addresses then (invalid_addresses, b)
      else (case loadChannel (bk_rows b) accountId of (state, events, version) \<Rightarrow>
        if channel_active state
        then (json_error 409 ''a notification channel is already registered; use PUT to reconfigure'', b)
        else proceed (commit deps (dr_tick dr) (stream accountId NOTIFICATION_CHANNEL accountId) version
               (ChannelEv (ChannelRegistered \<lparr>ncr_channelId = accountId, ncr_accountId = accountId,
                  ncr_type = EMAIL_NOTIFICATION_CHANNEL_TYPE, ncr_addresses = address_texts addresses,
                  ncr_registeredAt = tk_now (dr_tick dr)\<rparr>)) b)
             (\<lambda>e b. (Json 201 (channel_json EMAIL_NOTIFICATION_CHANNEL_TYPE (address_texts addresses)), b))))"

definition channel_reconfigure :: "route_deps \<Rightarrow> drawn \<Rightarrow> id \<Rightarrow> json option \<Rightarrow> backend \<Rightarrow> response \<times> backend" where
  "channel_reconfigure deps dr accountId addresses b =
     (if \<not> isValidAddresses addresses then (invalid_addresses, b)
      else (case loadChannel (bk_rows b) accountId of (state, events, version) \<Rightarrow>
        if \<not> channel_active state then (not_found, b)
        else proceed (commit deps (dr_tick dr) (stream accountId NOTIFICATION_CHANNEL accountId) version
               (ChannelEv (ChannelReconfigured (address_texts addresses) (tk_now (dr_tick dr)))) b)
             (\<lambda>e b. (Json 200 (channel_json (nc_type state) (address_texts addresses)), b))))"

definition channel_revoke :: "route_deps \<Rightarrow> drawn \<Rightarrow> id \<Rightarrow> backend \<Rightarrow> response \<times> backend" where
  "channel_revoke deps dr accountId b =
     (case loadChannel (bk_rows b) accountId of (state, events, version) \<Rightarrow>
        if \<not> channel_active state then (not_found, b)
        else proceed (commit deps (dr_tick dr) (stream accountId NOTIFICATION_CHANNEL accountId) version
               (ChannelEv (ChannelRevoked (tk_now (dr_tick dr)))) b)
             (\<lambda>e b. (Json 200 (JObj [(''ok'', JBool True)]), b)))"

datatype channel_request =
    GetChannel
  | RegisterChannel "string option" "json option"
  | ReconfigureChannel "json option"
  | RevokeChannel

fun channel_route :: "route_deps \<Rightarrow> drawn \<Rightarrow> id \<Rightarrow> channel_request \<Rightarrow> backend \<Rightarrow> response \<times> backend" where
  "channel_route deps dr acc GetChannel b = channel_get acc b"
| "channel_route deps dr acc (RegisterChannel type addresses) b = channel_register deps dr acc type addresses b"
| "channel_route deps dr acc (ReconfigureChannel addresses) b = channel_reconfigure deps dr acc addresses b"
| "channel_route deps dr acc RevokeChannel b = channel_revoke deps dr acc b"

section \<open>What a request can write\<close>

interpretation credr: guarded_route initialProviderCredentialState provider_credential_apply credential_allowed "\<lambda>st. pc_status st = CrRevoked"
  by unfold_locales

text \<open>A channel can be registered again after it was revoked, so it has no final state.\<close>

fun channel_allowed :: "NotificationChannelState \<Rightarrow> domain_event \<Rightarrow> bool" where
  "channel_allowed st (ChannelEv (ChannelRegistered d)) = (\<not> channel_active st)"
| "channel_allowed st (ChannelEv (ChannelReconfigured as t)) = channel_active st"
| "channel_allowed st (ChannelEv (ChannelRevoked t)) = channel_active st"
| "channel_allowed st _ = False"

interpretation chr: guarded_route initialNotificationChannelState notification_channel_apply channel_allowed "\<lambda>st. False"
  by unfold_locales simp_all

lemma credential_revoke_cases:
  obtains (missing) "credential_revoke deps dr acc i b = (not_found, b)"
      and "\<not> truthy (pc_credentialId (fst (loadCredential (bk_rows b) acc i))) \<or> pc_accountId (fst (loadCredential (bk_rows b) acc i)) \<noteq> Some acc
        \<or> pc_status (fst (loadCredential (bk_rows b) acc i)) \<noteq> CrActive"
  | (used) "resp_status (fst (credential_revoke deps dr acc i b)) = 409" and "snd (credential_revoke deps dr acc i b) = b"
      and "credential_usage (bk_rows b) acc i \<noteq> []"
  | (unused) "credential_usage (bk_rows b) acc i = []" and "truthy (pc_credentialId (fst (loadCredential (bk_rows b) acc i)))"
      and "pc_status (fst (loadCredential (bk_rows b) acc i)) = CrActive"
      and "credential_revoke deps dr acc i b = proceed (commit deps (dr_tick dr) (stream acc PROVIDER_CREDENTIAL i)
         (length (readStream (bk_rows b) (stream acc PROVIDER_CREDENTIAL i))) (CredentialEv (CredentialRevoked (tk_now (dr_tick dr)))) b)
       (\<lambda>e b. (NoBody 204, b))"
proof -
  let ?st = "fst (loadCredential (bk_rows b) acc i)"
  have eq: "credential_revoke deps dr acc i b =
      (if \<not> truthy (pc_credentialId ?st) \<or> pc_accountId ?st \<noteq> Some acc \<or> pc_status ?st \<noteq> CrActive then (not_found, b)
       else if length (credential_usage (bk_rows b) acc i) > 0
       then (Json 409 (JObj [(''error'', JStr ''credential_in_use''), (''usedBy'', JArr (map usage_json (credential_usage (bk_rows b) acc i)))]), b)
       else proceed (commit deps (dr_tick dr) (stream acc PROVIDER_CREDENTIAL i)
         (length (readStream (bk_rows b) (stream acc PROVIDER_CREDENTIAL i))) (CredentialEv (CredentialRevoked (tk_now (dr_tick dr)))) b)
           (\<lambda>e b. (NoBody 204, b)))"
    unfolding credential_revoke_def Let_def by (subst loads_eq(3)) simp
  show ?thesis
  proof (cases "\<not> truthy (pc_credentialId ?st) \<or> pc_accountId ?st \<noteq> Some acc \<or> pc_status ?st \<noteq> CrActive")
    case True
    with eq missing show ?thesis by simp
  next
    case active: False
    show ?thesis
    proof (cases "credential_usage (bk_rows b) acc i = []")
      case True
      with eq active unused show ?thesis by simp
    next
      case False
      with eq active used show ?thesis by simp
    qed
  qed
qed

lemma credential_route_outcome:
  assumes "wf_store (bk_rows b)" and "others_append deps b"
  shows "guarded_outcome (replay initialProviderCredentialState provider_credential_apply) credential_allowed deps
    (stream acc PROVIDER_CREDENTIAL (nullish_or (requested_credential req) (dr_id dr))) (bk_rows b) (bk_rows (snd (credential_route deps dr acc req b)))"
proof (cases req)
  case (StoreCredential body)
  let ?k = "stream acc PROVIDER_CREDENTIAL (dr_id dr)"
  have "bk_rows (snd (credential_store deps dr acc body b)) = bk_rows b
      \<or> (\<exists>d. bk_rows (snd (credential_store deps dr acc body b)) = bk_rows (snd (commit deps (dr_tick dr) ?k 0 (CredentialEv (CredentialStored d)) b)))"
    unfolding credential_store_def Let_def by (simp add: proceed_rows) blast
  moreover have "credential_allowed initialProviderCredentialState (CredentialEv (CredentialStored d))" for d
    by (simp add: initialProviderCredentialState_def)
  ultimately show ?thesis using credr.create_outcome [OF assms] StoreCredential by fastforce
next
  case ListCredentials
  then show ?thesis by (simp add: credential_list_def)
next
  case (RevokeCredential i)
  show ?thesis
  proof (cases rule: credential_revoke_cases [of deps dr acc i b])
    case missing
    with RevokeCredential show ?thesis by simp
  next
    case used
    with RevokeCredential show ?thesis by simp
  next
    case unused
    have "guarded_outcome (replay initialProviderCredentialState provider_credential_apply) credential_allowed deps (stream acc PROVIDER_CREDENTIAL i)
        (bk_rows b) (bk_rows (snd (commit deps (dr_tick dr) (stream acc PROVIDER_CREDENTIAL i)
          (length (readStream (bk_rows b) (stream acc PROVIDER_CREDENTIAL i))) (CredentialEv (CredentialRevoked (tk_now (dr_tick dr)))) b)))"
      by (rule credr.commit_outcome [OF assms]) (use unused(2,3) in \<open>auto simp: replay_loads(3) [symmetric] truthy_def split: option.splits\<close>)
    with unused(4) RevokeCredential show ?thesis by (simp add: proceed_rows)
  qed
qed

lemma channel_route_outcome:
  assumes "wf_store (bk_rows b)" and "others_append deps b"
  shows "guarded_outcome (replay initialNotificationChannelState notification_channel_apply) channel_allowed deps
    (stream acc NOTIFICATION_CHANNEL acc) (bk_rows b) (bk_rows (snd (channel_route deps dr acc req b)))"
proof -
  let ?k = "stream acc NOTIFICATION_CHANNEL acc"
  have commit: "guarded_outcome (replay initialNotificationChannelState notification_channel_apply) channel_allowed deps ?k (bk_rows b)
      (bk_rows (snd (proceed (commit deps tk ?k (length (readStream (bk_rows b) ?k)) d b) (\<lambda>e b. (resp, b)))))"
    if "channel_allowed (fst (loadChannel (bk_rows b) acc)) d" for tk d resp
    using chr.commit_outcome [OF assms, of ?k d tk] that by (simp add: proceed_rows replay_loads(4))
  have loaded: "(case loadChannel (bk_rows b) acc of (state, events, version) \<Rightarrow> f state events version) =
      f (fst (loadChannel (bk_rows b) acc)) (readStream (bk_rows b) ?k) (length (readStream (bk_rows b) ?k))" for f :: "NotificationChannelState \<Rightarrow> stored_event list \<Rightarrow> nat \<Rightarrow> response \<times> backend"
    by (subst loads_eq(4)) simp
  show ?thesis
    by (cases req) (simp_all add: channel_get_def channel_register_def channel_reconfigure_def channel_revoke_def Let_def loaded commit)
qed

section \<open>Properties\<close>

lemma no_usage: "credential_usage rows acc i = [] \<Longrightarrow> \<not> uses_credential i (fst (loadAction rows acc a))"
proof -
  assume none: "credential_usage rows acc i = []"
  show "\<not> uses_credential i (fst (loadAction rows acc a))"
  proof (cases "readStream rows (stream acc ACTION a) = []")
    case True
    then show ?thesis by (simp add: load_defs initialActionState_def uses_credential_def)
  next
    case False
    with none show ?thesis by (auto simp: credential_usage_def filter_empty_conv set_listAggregateIds)
  qed
qed

text \<open>A provider credential is revoked only when nothing uses it: the answer 204 means that no attached action of the
  account refers to it, that it is revoked and that no execution can decrypt it any more; while an action
  refers to it the request is refused and changes nothing, and so does every other answer.\<close>
theorem revoke_only_unused:
  assumes "wf_store (bk_rows b)" and "undisturbed deps" and "credential_route deps dr acc (RevokeCredential i) b = (resp, b')"
  shows "(resp_status resp = 204 \<longrightarrow> (\<forall>a. \<not> uses_credential i (fst (loadAction (bk_rows b') acc a)))
        \<and> pc_status (fst (loadCredential (bk_rows b') acc i)) = CrRevoked \<and> usable_credential (bk_rows b') acc (Some i) = None)
    \<and> (resp_status resp \<noteq> 204 \<longrightarrow> b' = b)
    \<and> ((\<exists>a. uses_credential i (fst (loadAction (bk_rows b) acc a))) \<longrightarrow> resp_status resp = 404 \<or> resp_status resp = 409)"
proof (cases rule: credential_revoke_cases [of deps dr acc i b])
  case missing
  with assms(3) show ?thesis by auto
next
  case used
  with assms(3) show ?thesis by auto
next
  case unused
  let ?k = "stream acc PROVIDER_CREDENTIAL i" and ?d = "CredentialEv (CredentialRevoked (tk_now (dr_tick dr)))"
  obtain r b1 where commit: "commit deps (dr_tick dr) ?k (length (readStream (bk_rows b) ?k)) ?d b = (r, b1)" by fastforce
  note none = no_usage [OF unused(1)]
  show ?thesis
  proof (cases r)
    case (Inl x)
    have "b1 = b" using commit Inl assms(2) by (cases rule: commit_cases [of deps "dr_tick dr" ?k "length (readStream (bk_rows b) ?k)" ?d b])
      (simp_all add: undisturbed_def)
    with unused(4) commit Inl assms(3) none show ?thesis by auto
  next
    case (Inr e)
    note w = commit_undisturbed [OF assms(1,2) commit [unfolded Inr]]
    have b': "b' = b1" "resp = NoBody 204" using unused(4) commit Inr assms(3) by simp_all
    have "fst (loadAction (bk_rows b') acc a) = fst (loadAction (bk_rows b) acc a)" for a
      unfolding replay_loads(2) b' by (rule replay_wrote(2) [OF assms(1) w(2,1)]) simp
    moreover have revoked: "pc_status (fst (loadCredential (bk_rows b') acc i)) = CrRevoked"
      unfolding replay_loads(3) b' replay_wrote(1) [OF assms(1) w(2,1)] by simp
    then have "usable_credential (bk_rows b') acc (Some i) = None" by (simp add: usable_credential_def)
    ultimately show ?thesis using none revoked b'(2) by simp
  qed
qed

text \<open>A stored provider credential is the one that is used: after an answer 201 an execution that refers to the new
  credential decrypts exactly the secret of the request, under the hypotheses on authenticated encryption,
  while the answer holds only its last four characters; the label was not in use.\<close>
theorem stored_credential_resolves:
  assumes "aead (rt_crypto deps)" and "wf_store (bk_rows b)" and "undisturbed deps"
    and "credential_route deps dr acc (StoreCredential body) b = (resp, b')" and "resp_status resp = 201"
    and "wd_crypto worker = rt_crypto deps" and "wd_config worker = rt_config deps"
  shows "\<exists>provider label secret. body = \<lparr>kb_provider = Some provider, kb_label = Some label, kb_secret = Some secret\<rparr>
    \<and> resolve_token worker (bk_rows b') acc (Some (dr_id dr)) = Inr secret
    \<and> resp = Json 201 (JObj [(''credentialId'', JStr (dr_id dr)), (''provider'', JStr provider), (''label'', JStr label),
        (''secretLast4'', JStr (maskLast4 secret))])
    \<and> (\<forall>state \<in> set (listActiveCredentials (bk_rows b) acc). normalize_label (pc_label state) \<noteq> normalize_label label)"
proof -
  let ?k = "stream acc PROVIDER_CREDENTIAL (dr_id dr)"
  from assms(4,5) obtain provider label secret where body: "body = \<lparr>kb_provider = Some provider, kb_label = Some label, kb_secret = Some secret\<rparr>"
    and given: "truthy (Some provider)" "truthy (Some label)" "truthy (Some secret)"
    by (cases body) (auto simp: credential_store_def truthy_def split: if_splits option.splits)
  define ev where "ev = CredentialEv (CredentialStored \<lparr>pcs_credentialId = dr_id dr, pcs_accountId = acc, pcs_provider = provider,
    pcs_label = label, pcs_encryptedSecret = encryptSecret (rt_crypto deps) (dr_salt dr) secret (cfg_credentialEncryptionKey (rt_config deps)),
    pcs_secretLast4 = maskLast4 secret, pcs_storedAt = tk_now (dr_tick dr)\<rparr>)"
  define reply where "reply = Json 201 (JObj [(''credentialId'', JStr (dr_id dr)), (''provider'', JStr provider), (''label'', JStr label),
    (''secretLast4'', JStr (maskLast4 secret))])"
  have free: "\<not> list_ex (\<lambda>state. normalize_label (pc_label state) = normalize_label label) (listActiveCredentials (bk_rows b) acc)"
    using assms(4,5) given by (auto simp: body credential_store_def split: if_splits)
  then have run: "proceed (commit deps (dr_tick dr) ?k 0 ev b) (\<lambda>e b. (reply, b)) = (resp, b')"
    using assms(4) given by (simp add: body credential_store_def ev_def reply_def Let_def)
  obtain r b1 where commit: "commit deps (dr_tick dr) ?k 0 ev b = (r, b1)" by fastforce
  with run assms(5) obtain e where e: "commit deps (dr_tick dr) ?k 0 ev b = (Inr e, b')" and resp: "resp = reply" by (cases r) auto
  note w = create_undisturbed [OF assms(2,3) e]
  have "fst (loadCredential (bk_rows b') acc (dr_id dr)) = provider_credential_apply initialProviderCredentialState ev"
    unfolding replay_loads(3) replay_wrote(1) [OF assms(2) w(3,2)] using w(1) by (simp add: replay_def)
  moreover have "encryptSecret cr iv p k \<noteq> []" for cr iv p k
    by (cases "aes_seal cr k iv p") (simp add: encryptSecret_def)
  ultimately have "usable_credential (bk_rows b') acc (Some (dr_id dr)) =
      Some (encryptSecret (rt_crypto deps) (dr_salt dr) secret (cfg_credentialEncryptionKey (rt_config deps)))"
    by (simp add: usable_credential_def ev_def)
  then have "resolve_token worker (bk_rows b') acc (Some (dr_id dr)) = Inr secret"
    using given(3) by (simp add: resolve_token_def assms(6,7) decrypt_encrypt [OF assms(1)])
  with body resp free show ?thesis unfolding reply_def by (auto simp: list_ex_iff)
qed

section \<open>Concrete requests\<close>

lemma revoke_only_unused_witness:
  "\<exists>resp b'. credential_route sample_routes sample_drawn ''acc'' (RevokeCredential ''c'') (sample_backend sample_device_rows) = (resp, b')
    \<and> uses_credential ''c'' (fst (loadAction sample_device_rows ''acc'' ''a'')) \<and> b' = sample_backend sample_device_rows"
proof -
  obtain resp b' where run: "credential_route sample_routes sample_drawn ''acc'' (RevokeCredential ''c'') (sample_backend sample_device_rows) = (resp, b')"
    by fastforce
  have "uses_credential ''c'' (fst (loadAction sample_device_rows ''acc'' ''a''))"
    by (simp add: sample_action_load uses_credential_def hasProviderCredential_def initialActionState_def)
  with revoke_only_unused [OF _ _ run] sample_device_wf(1) run show ?thesis by fastforce
qed

lemma stored_credential_resolves_witness:
  "\<exists>resp b'. credential_route sample_routes sample_drawn ''acc'' (StoreCredential \<lparr>kb_provider = Some ''hetzner'', kb_label = Some ''l'',
      kb_secret = Some ''hunter2''\<rparr>) (sample_backend sample_device_rows) = (resp, b')
    \<and> resolve_token sample_worker (bk_rows b') ''acc'' (Some ''n'') = Inr ''hunter2''"
proof -
  let ?b = "sample_backend sample_device_rows" and ?body = "\<lparr>kb_provider = Some ''hetzner'', kb_label = Some ''l'', kb_secret = Some ''hunter2''\<rparr>"
  have crypto: "aead (rt_crypto sample_routes)" "wd_crypto sample_worker = rt_crypto sample_routes" "wd_config sample_worker = rt_config sample_routes"
    by (simp_all add: sample_routes_def sample_worker_def sample_aead)
  have none: "listActiveCredentials sample_device_rows ''acc'' = []"
    by (simp add: listActiveCredentials_def listAggregateIds_def sample_device_defs)
  have empty: "aggregate_rows sample_device_rows PROVIDER_CREDENTIAL ''n'' = []"
    by (simp add: aggregate_rows_def sample_device_defs)
  then have "readStream sample_device_rows (stream ''acc'' PROVIDER_CREDENTIAL ''n'') = []"
    by (simp add: readStream_wf(1) [OF sample_device_wf(1)] filter_in_stream)
  moreover have "tk_id (dr_tick sample_drawn) \<notin> ev_id ` set sample_device_rows" by (auto simp: sample_drawn_def sample_device_defs)
  ultimately have "\<exists>e. commit sample_routes (dr_tick sample_drawn) (stream ''acc'' PROVIDER_CREDENTIAL ''n'') 0 d ?b = (Inr e, ?b\<lparr>bk_rows := sample_device_rows @ [e]\<rparr>)" for d
    using commit_alone [of ?b sample_routes "dr_tick sample_drawn" PROVIDER_CREDENTIAL "''n''" "''acc''" 0 d] sample_device_wf(1) empty by simp
  then have "\<exists>b1. proceed (commit sample_routes (dr_tick sample_drawn) (stream ''acc'' PROVIDER_CREDENTIAL ''n'') 0 d ?b) (\<lambda>e b. (resp, b)) = (resp, b1)" for d resp
    by (metis proceed_simps(2))
  moreover have "dr_id sample_drawn = ''n''" by (simp add: sample_drawn_def)
  ultimately have ok: "resp_status (fst (credential_route sample_routes sample_drawn ''acc'' (StoreCredential ?body) ?b)) = 201"
    by (simp add: credential_store_def none Let_def) (metis fst_conv resp_status.simps(1))
  obtain resp b' where run: "credential_route sample_routes sample_drawn ''acc'' (StoreCredential ?body) ?b = (resp, b')" by fastforce
  with ok have "resp_status resp = 201" by (simp del: credential_route.simps)
  from stored_credential_resolves [OF crypto(1) _ _ run this crypto(2,3)] run \<open>dr_id sample_drawn = ''n''\<close> show ?thesis
    by (auto simp: sample_device_wf(1) simp del: credential_route.simps)
qed

end
