(* ===== verification/AccountRoutes.thy ===== *)
theory AccountRoutes
  imports Backend
begin

text \<open>
  Accounts: \<open>domain/account/account-service.ts\<close>, \<open>account-closure-service.ts\<close>, the routes
  \<open>adapters/http/routes/account.ts\<close>, \<open>admin-accounts.ts\<close> and \<open>action-executions.ts\<close>, and the role check
  \<open>adapters/auth-logto/admin-guard.ts\<close>.

  The closure also works on the two job queues and on all Redis projections, so its state is
  \<open>account_world\<close>. \<open>setUserPassword\<close> (a call of the identity provider) is an argument, and so are Redis's
  \<open>MATCH\<close> test, the pages a \<open>SCAN\<close> comes in and which jobs BullMQ lets be removed (a running job cannot be;
  the code ignores that error). What each call of a closure answers is the argument \<open>closure_answers\<close>, so that
  it can fail at any of them and leave what was done up to there.
\<close>

section \<open>The account service\<close>

definition ensureProvisioned :: "route_deps \<Rightarrow> tick \<Rightarrow> id \<Rightarrow> backend \<Rightarrow> (exn + AccountState) \<times> backend" where
  "ensureProvisioned deps tk accountId b =
     (case loadAccount (bk_rows b) accountId of (state, events, version) \<Rightarrow>
        if length events > 0 then (Inr state, b)
        else (case commit deps tk (stream accountId ACCOUNT accountId) 0
                (AccountEv (AccountRegistered \<lparr>reg_accountId = accountId,
                   reg_deviceLimit = cfg_defaultIpClientLimit (rt_config deps), reg_registeredAt = tk_now tk\<rparr>)) b of
            (Inl err, b) \<Rightarrow> (Inl err, b)
          | (Inr e, b) \<Rightarrow> (Inr \<lparr>acc_accountId = Some accountId,
              acc_deviceLimit = cfg_defaultIpClientLimit (rt_config deps), acc_status = AccActive\<rparr>, b)))"

definition getState :: "event_store \<Rightarrow> id \<Rightarrow> AccountState" where
  "getState rows accountId = fst (loadAccount rows accountId)"

definition overrideDeviceLimit :: "route_deps \<Rightarrow> tick \<Rightarrow> id \<Rightarrow> int \<Rightarrow> id \<Rightarrow> backend \<Rightarrow> (exn + AccountState option) \<times> backend" where
  "overrideDeviceLimit deps tk accountId newLimit overriddenBy b =
     (case loadAccount (bk_rows b) accountId of (state, events, version) \<Rightarrow>
        if \<not> truthy (acc_accountId state) then (Inr None, b)
        else (case commit deps tk (stream accountId ACCOUNT accountId) version
                (AccountEv (AccountDeviceLimitOverridden \<lparr>ovr_accountId = accountId, ovr_previousLimit = acc_deviceLimit state,
                   ovr_newLimit = newLimit, ovr_overriddenBy = overriddenBy, ovr_overriddenAt = tk_now tk\<rparr>)) b of
            (Inl err, b) \<Rightarrow> (Inl err, b)
          | (Inr e, b) \<Rightarrow> (Inr (Some (state\<lparr>acc_deviceLimit := newLimit\<rparr>)), b)))"

text \<open>The middleware in front of every \<open>/api\<close> route.\<close>

definition with_account :: "route_deps \<Rightarrow> tick \<Rightarrow> id \<Rightarrow> (backend \<Rightarrow> response \<times> backend) \<Rightarrow> backend \<Rightarrow> response \<times> backend" where
  "with_account deps tk accountId next_handler b = proceed (ensureProvisioned deps tk accountId b) (\<lambda>state. next_handler)"

section \<open>The routes\<close>

fun account_status_name :: "account_status \<Rightarrow> string" where
  "account_status_name AccActive = ''active''"
| "account_status_name AccClosed = ''closed''"

definition account_get :: "id \<Rightarrow> backend \<Rightarrow> response \<times> backend" where
  "account_get accountId b = (let state = getState (bk_rows b) accountId in
     (Json 200 (JObj [(''accountId'', text_json (acc_accountId state)), (''deviceLimit'', JNum (acc_deviceLimit state)),
        (''status'', JStr (account_status_name (acc_status state)))]), b))"

definition account_password :: "(id \<Rightarrow> string \<Rightarrow> exn option) \<Rightarrow> id \<Rightarrow> string option \<Rightarrow> response" where
  "account_password setUserPassword accountId newPassword =
     (if \<not> truthy newPassword \<or> length (the newPassword) < 8
      then json_error 400 ''newPassword must be at least 8 characters''
      else (case setUserPassword accountId (the newPassword) of
          Some err \<Rightarrow> json_error 502 ''failed to update password''
        | None \<Rightarrow> Json 200 (JObj [(''ok'', JBool True)])))"

definition ADMIN_ROLE_CLAIM :: string where
  "ADMIN_ROLE_CLAIM = ''fluxip_admin''"

definition requireAdminRole :: "string list \<Rightarrow> (backend \<Rightarrow> response \<times> backend) \<Rightarrow> backend \<Rightarrow> response \<times> backend" where
  "requireAdminRole roles next_handler b =
     (if ADMIN_ROLE_CLAIM \<notin> set roles then (json_error 403 ''forbidden'', b) else next_handler b)"

text \<open>A valid limit is an integer that is not negative; \<open>newLimit\<close> is a value of unknown type.\<close>

fun limit_of :: "json option \<Rightarrow> int option" where
  "limit_of (Some (JNum i)) = (if i < 0 then None else Some i)"
| "limit_of _ = None"

definition device_limit_route :: "route_deps \<Rightarrow> tick \<Rightarrow> id \<Rightarrow> id \<Rightarrow> json option \<Rightarrow> backend \<Rightarrow> response \<times> backend" where
  "device_limit_route deps tk adminId accountId newLimit b = (case limit_of newLimit of
       None \<Rightarrow> (json_error 400 ''newLimit must be a non-negative integer'', b)
     | Some limit \<Rightarrow> proceed (overrideDeviceLimit deps tk accountId limit adminId b)
         (\<lambda>updated b. case updated of
            None \<Rightarrow> (json_error 404 ''account not found'', b)
          | Some state \<Rightarrow> (Json 200 (JObj [(''accountId'', JStr accountId), (''deviceLimit'', JNum (acc_deviceLimit state))]), b)))"

definition admin_device_limit ::
  "route_deps \<Rightarrow> tick \<Rightarrow> string list \<Rightarrow> id \<Rightarrow> id \<Rightarrow> json option \<Rightarrow> backend \<Rightarrow> response \<times> backend" where
  "admin_device_limit deps tk roles adminId accountId newLimit =
     requireAdminRole roles (device_limit_route deps tk adminId accountId newLimit)"

text \<open>\<open>GET /actions/:actionId/executions\<close>\<close>

definition executions_list :: "event_store \<Rightarrow> ExecutionSummary redis \<Rightarrow> id \<Rightarrow> id \<Rightarrow> (response + ExecutionSummary list) \<times> ExecutionSummary redis" where
  "executions_list rows redis accountId actionId =
     (let state = fst (loadAction rows accountId actionId) in
      if \<not> truthy (ac_actionId state) \<or> ac_accountId state \<noteq> Some accountId
      then (Inl (json_error 404 ''not_found''), redis)
      else (case listExecutionsProjection redis rows accountId actionId of (items, redis') \<Rightarrow> (Inr items, redis')))"

section \<open>Closing an account\<close>

record account_world =
  aw_backend :: backend
  aw_executions :: "ExecutionSummary redis"
  aw_debounce :: "DebounceJob list"
  aw_actionExecution :: "ExecutionJob list"

definition purgeQueueJobsForAccount :: "('j \<Rightarrow> id) \<Rightarrow> ('j \<Rightarrow> bool) \<Rightarrow> id \<Rightarrow> 'j list \<Rightarrow> 'j list" where
  "purgeQueueJobsForAccount job_account removable accountId jobs =
     filter (\<lambda>job. \<not> (job_account job = accountId \<and> removable job)) jobs"

definition account_pattern :: "id \<Rightarrow> string" where
  "account_pattern accountId = ''proj:'' @ accountId @ '':*''"

text \<open>What the calls of a closure answer: the listings of the two queues, the \<open>n\<close>-th \<open>SCAN\<close> and the \<open>DEL\<close> of
  its page, and the deletion of the events. \<open>cl_pages\<close> is how Redis cuts the matching keys into pages.\<close>

record closure_answers =
  cl_debounceJobs :: "exn option"
  cl_executionJobs :: "exn option"
  cl_pages :: "string list \<Rightarrow> string list list"
  cl_scan :: "nat \<Rightarrow> exn option"
  cl_del :: "nat \<Rightarrow> answer"
  cl_delete :: answer

definition del_keys :: "string list \<Rightarrow> 'v redis \<Rightarrow> 'v redis" where
  "del_keys keys redis = filter (\<lambda>(key, h). key \<notin> set keys) redis"

definition projection_keys :: "account_world \<Rightarrow> string list" where
  "projection_keys w = map fst (bk_clients (aw_backend w)) @ map fst (bk_actions (aw_backend w)) @ map fst (aw_executions w)"

definition drop_keys :: "string list \<Rightarrow> account_world \<Rightarrow> account_world" where
  "drop_keys keys w = w\<lparr>aw_backend := (aw_backend w)\<lparr>bk_clients := del_keys keys (bk_clients (aw_backend w)),
       bk_actions := del_keys keys (bk_actions (aw_backend w))\<rparr>, aw_executions := del_keys keys (aw_executions w)\<rparr>"

fun purge_pages :: "closure_answers \<Rightarrow> nat \<Rightarrow> string list list \<Rightarrow> account_world \<Rightarrow> (exn + unit) \<times> account_world" where
  "purge_pages ans n [] w = (Inr (), w)"
| "purge_pages ans n (keys # pages) w =
     (case cl_scan ans n of
        Some err \<Rightarrow> (Inl err, w)
      | None \<Rightarrow>
          if length keys > 0
          then (case cl_del ans n of
              Errored err arrived \<Rightarrow> (Inl err, effect (Errored err arrived) (drop_keys keys w) w)
            | Done \<Rightarrow> purge_pages ans (Suc n) pages (drop_keys keys w))
          else purge_pages ans (Suc n) pages w)"

definition purgeProjectionKeysForAccount ::
  "closure_answers \<Rightarrow> (string \<Rightarrow> string \<Rightarrow> bool) \<Rightarrow> id \<Rightarrow> account_world \<Rightarrow> (exn + unit) \<times> account_world" where
  "purgeProjectionKeysForAccount ans glob accountId w =
     purge_pages ans 0 (cl_pages ans (filter (glob (account_pattern accountId)) (projection_keys w))) w"

definition account_closed_reason :: CloseReason where
  "account_closed_reason = close_reason CodeUnavailable ''this account was closed'' DrClosed"

definition end_sessions :: "id \<Rightarrow> backend \<Rightarrow> backend" where
  "end_sessions accountId b = b\<lparr>bk_terminated := bk_terminated b
     @ map (\<lambda>i. (i, account_closed_reason)) (terminateByAccount (bk_registry b) accountId)\<rparr>"

definition closeAccount ::
  "route_deps \<Rightarrow> (string \<Rightarrow> string \<Rightarrow> bool) \<Rightarrow> closure_answers \<Rightarrow> (DebounceJob \<Rightarrow> bool) \<Rightarrow> (ExecutionJob \<Rightarrow> bool) \<Rightarrow> tick \<Rightarrow> id \<Rightarrow>
   account_world \<Rightarrow> (exn + unit) \<times> account_world" where
  "closeAccount deps glob ans removable1 removable2 tk accountId w =
     (let b = aw_backend w; version = snd (snd (loadAccount (bk_rows b) accountId)) in
      case commit deps tk (stream accountId ACCOUNT accountId) version
             (AccountEv (AccountClosed \<lparr>cls_accountId = accountId, cls_closedAt = tk_now tk\<rparr>)) b of
        (Inl err, b) \<Rightarrow> (Inl err, w\<lparr>aw_backend := b\<rparr>)
      | (Inr e, b) \<Rightarrow>
        (let w1 = w\<lparr>aw_backend := end_sessions accountId b\<rparr> in
         case cl_debounceJobs ans of Some err \<Rightarrow> (Inl err, w1) | None \<Rightarrow>
        (let w2 = w1\<lparr>aw_debounce := purgeQueueJobsForAccount dj_accountId removable1 accountId (aw_debounce w1)\<rparr> in
         case cl_executionJobs ans of Some err \<Rightarrow> (Inl err, w2) | None \<Rightarrow>
        (let w3 = w2\<lparr>aw_actionExecution :=
               purgeQueueJobsForAccount (\<lambda>j. ej_accountId (xj_data j)) removable2 accountId (aw_actionExecution w2)\<rparr> in
         case purgeProjectionKeysForAccount ans glob accountId w3 of
           (Inl err, w4) \<Rightarrow> (Inl err, w4)
         | (Inr u, w4) \<Rightarrow>
           (let w5 = w4\<lparr>aw_backend := (aw_backend w4)\<lparr>bk_rows := deleteAccount (bk_rows (aw_backend w4)) accountId\<rparr>\<rparr> in
            (case cl_delete ans of Done \<Rightarrow> Inr () | Errored err arrived \<Rightarrow> Inl err, effect (cl_delete ans) w5 w4))))))"

definition account_delete ::
  "route_deps \<Rightarrow> (string \<Rightarrow> string \<Rightarrow> bool) \<Rightarrow> closure_answers \<Rightarrow> (DebounceJob \<Rightarrow> bool) \<Rightarrow> (ExecutionJob \<Rightarrow> bool) \<Rightarrow> tick \<Rightarrow> id \<Rightarrow>
   account_world \<Rightarrow> response \<times> account_world" where
  "account_delete deps glob ans removable1 removable2 tk accountId w =
     proceed (closeAccount deps glob ans removable1 removable2 tk accountId w) (\<lambda>u w. (Json 200 (JObj [(''ok'', JBool True)]), w))"

section \<open>Lemmas\<close>

fun account_allowed :: "AccountState \<Rightarrow> domain_event \<Rightarrow> bool" where
  "account_allowed st (AccountEv (AccountRegistered d)) = (acc_accountId st = None)"
| "account_allowed st (AccountEv (AccountDeviceLimitOverridden d)) = (acc_accountId st \<noteq> None)"
| "account_allowed st (AccountEv (AccountClosed d)) = True"
| "account_allowed st _ = False"

text \<open>The contract holds of every account: once registered, it stays registered.\<close>

interpretation accr: guarded_route initialAccountState account_apply account_allowed "\<lambda>st. acc_accountId st \<noteq> None"
proof unfold_locales
  show "acc_accountId (account_apply st e) \<noteq> None" if "acc_accountId st \<noteq> None" "account_allowed st e" for st e
    using that by (cases "(st, e)" rule: account_allowed.cases) auto
qed (simp add: initialAccountState_def)

lemma ensureProvisioned_eq:
  "ensureProvisioned deps tk acc b = (if readStream (bk_rows b) (stream acc ACCOUNT acc) \<noteq> [] then (Inr (getState (bk_rows b) acc), b)
     else (case commit deps tk (stream acc ACCOUNT acc) 0 (AccountEv (AccountRegistered \<lparr>reg_accountId = acc,
             reg_deviceLimit = cfg_defaultIpClientLimit (rt_config deps), reg_registeredAt = tk_now tk\<rparr>)) b of
         (Inl err, b) \<Rightarrow> (Inl err, b)
       | (Inr e, b) \<Rightarrow> (Inr \<lparr>acc_accountId = Some acc, acc_deviceLimit = cfg_defaultIpClientLimit (rt_config deps), acc_status = AccActive\<rparr>, b)))"
  unfolding ensureProvisioned_def getState_def by (subst loads_eq(5)) simp

definition glob_law :: "(string \<Rightarrow> string \<Rightarrow> bool) \<Rightarrow> id \<Rightarrow> bool" where
  "glob_law glob acc = (\<forall>key. glob (account_pattern acc) key \<longleftrightarrow> (\<exists>rest. key = ''proj:'' @ acc @ '':'' @ rest))"

definition account_key :: "id \<Rightarrow> string \<Rightarrow> bool" where
  "account_key acc key = (\<exists>rest. key = ''proj:'' @ acc @ '':'' @ rest)"

text \<open>\<open>SCAN\<close> visits every key that is there from its start to its end, and no key that does not match.\<close>

definition scan_law :: "closure_answers \<Rightarrow> bool" where
  "scan_law ans = (\<forall>keys. set (concat (cl_pages ans keys)) = set keys)"

lemma del_keys_lookup: "map_of (del_keys keys r) key = (if key \<in> set keys then None else map_of r key)"
  unfolding del_keys_def by (induction r) auto

lemma drop_keys_compose: "drop_keys ks' (drop_keys ks w) = drop_keys (ks @ ks') w" "drop_keys [] w = w"
  by (simp_all add: drop_keys_def del_keys_def case_prod_unfold conj_commute)

lemma purge_pages_drop:
  assumes "purge_pages ans n pages w = (r, w')"
  shows "\<exists>ks. set ks \<subseteq> set (concat pages) \<and> w' = drop_keys ks w \<and> (r = Inr () \<longrightarrow> set ks = set (concat pages))"
  using assms
proof (induction ans n pages w rule: purge_pages.induct)
  case (1 ans n w)
  then show ?case by (intro exI [of _ "[]"]) (simp add: drop_keys_compose)
next
  case (2 ans n keys pages w)
  show ?case
  proof (cases "cl_scan ans n")
    case (Some err)
    with "2.prems" show ?thesis by (intro exI [of _ "[]"]) (auto simp: drop_keys_compose)
  next
    case None
    show ?thesis
    proof (cases "keys = []")
      case True
      with "2.IH"(2) [OF None] "2.prems" None show ?thesis by simp
    next
      case False
      show ?thesis
      proof (cases "cl_del ans n")
        case Done
        with "2.prems" None False obtain ks where "set ks \<subseteq> set (concat pages)" "w' = drop_keys ks (drop_keys keys w)"
          "r = Inr () \<longrightarrow> set ks = set (concat pages)"
          using "2.IH"(1) [OF None _ Done] by auto
        then show ?thesis by (intro exI [of _ "keys @ ks"]) (auto simp: drop_keys_compose)
      next
        case (Errored err arrived)
        with "2.prems" None False show ?thesis
          by (cases arrived) (auto intro: exI [of _ keys] exI [of _ "[]"] simp: drop_keys_compose)
      qed
    qed
  qed
qed

text \<open>The purge of the keys, under the laws of \<open>SCAN\<close>: it drops keys of the account only, and all of them unless it fails.\<close>

lemma purge_projection_drop:
  assumes "glob_law glob acc" and "scan_law ans" and "purgeProjectionKeysForAccount ans glob acc w = (r, w')"
  obtains ks where "w' = drop_keys ks w" and "\<And>key. key \<in> set ks \<Longrightarrow> account_key acc key"
    and "\<And>key. r = Inr () \<Longrightarrow> account_key acc key \<Longrightarrow> key \<in> set (projection_keys w) \<Longrightarrow> key \<in> set ks"
proof -
  have match: "glob (account_pattern acc) key \<longleftrightarrow> account_key acc key" for key
    using assms(1) by (simp add: glob_law_def account_key_def)
  let ?keys = "filter (glob (account_pattern acc)) (projection_keys w)"
  have pages: "set (concat (cl_pages ans ?keys)) = set ?keys" using assms(2) unfolding scan_law_def by blast
  obtain ks where ks: "set ks \<subseteq> set ?keys" "w' = drop_keys ks w" "r = Inr () \<longrightarrow> set ks = set ?keys"
    using purge_pages_drop [OF assms(3) [unfolded purgeProjectionKeysForAccount_def]] unfolding pages by blast
  show ?thesis
  proof (rule that [OF ks(2)])
    show "account_key acc key" if "key \<in> set ks" for key
      using that ks(1) match [of key] by auto
    show "key \<in> set ks" if "r = Inr ()" "account_key acc key" "key \<in> set (projection_keys w)" for key
      using that ks(3) match [of key] by simp
  qed
qed

text \<open>The three families of keys of an account are among those a closure removes.\<close>

lemma account_keys:
  "account_key acc (ip_clients_key acc)" "account_key acc (actions_key acc d)" "account_key acc (executions_key acc a)"
  by (auto simp: account_key_def ip_clients_key_def actions_key_def executions_key_def)

text \<open>Account ids are drawn without a colon by the identity provider; then no key belongs to two accounts.\<close>

lemma account_key_disjoint:
  assumes "CHR '':'' \<notin> set acc" and "CHR '':'' \<notin> set acc'" and "account_key acc key" and "account_key acc' key"
  shows "acc = acc'"
proof -
  obtain r r' where "acc @ CHR '':'' # r = acc' @ CHR '':'' # r'" using assms(3,4) by (auto simp: account_key_def)
  then have "takeWhile (\<lambda>c. c \<noteq> CHR '':'') (acc @ CHR '':'' # r) = takeWhile (\<lambda>c. c \<noteq> CHR '':'') (acc' @ CHR '':'' # r')" by simp
  moreover have "takeWhile (\<lambda>c. c \<noteq> CHR '':'') (a @ CHR '':'' # s) = a" if "CHR '':'' \<notin> set a" for a s
    using that by (induction a) auto
  ultimately show ?thesis using assms(1,2) by metis
qed

lemma purge_queue_account:
  "j \<in> set (purgeQueueJobsForAccount job_account removable acc js) \<Longrightarrow> job_account j = acc \<Longrightarrow> \<not> removable j"
  "filter (\<lambda>j. job_account j \<noteq> acc) (purgeQueueJobsForAccount job_account removable acc js) = filter (\<lambda>j. job_account j \<noteq> acc) js"
  by (auto simp: purgeQueueJobsForAccount_def intro: filter_cong)

text \<open>What a closure leaves alone, and what there is no trace of when it is done.\<close>

definition others_untouched :: "id \<Rightarrow> account_world \<Rightarrow> account_world \<Rightarrow> bool" where
  "others_untouched acc w w' = (
     (\<forall>k. key_accountId k \<noteq> acc \<longrightarrow> readStream (bk_rows (aw_backend w')) k = readStream (bk_rows (aw_backend w)) k)
     \<and> (\<forall>key. \<not> account_key acc key \<longrightarrow>
          map_of (bk_clients (aw_backend w')) key = map_of (bk_clients (aw_backend w)) key
          \<and> map_of (bk_actions (aw_backend w')) key = map_of (bk_actions (aw_backend w)) key
          \<and> map_of (aw_executions w') key = map_of (aw_executions w) key)
     \<and> filter (\<lambda>j. dj_accountId j \<noteq> acc) (aw_debounce w') = filter (\<lambda>j. dj_accountId j \<noteq> acc) (aw_debounce w)
     \<and> filter (\<lambda>j. ej_accountId (xj_data j) \<noteq> acc) (aw_actionExecution w') = filter (\<lambda>j. ej_accountId (xj_data j) \<noteq> acc) (aw_actionExecution w))"

definition events_gone :: "id \<Rightarrow> event_store \<Rightarrow> bool" where
  "events_gone acc rows = ((\<forall>k. key_accountId k = acc \<longrightarrow> readStream rows k = [])
     \<and> (\<forall>t i. resolveAccountId rows t i \<noteq> Some acc) \<and> (\<forall>t. listAggregateIds rows acc t = []))"

definition keys_gone :: "id \<Rightarrow> account_world \<Rightarrow> bool" where
  "keys_gone acc w = (\<forall>key. account_key acc key \<longrightarrow> map_of (bk_clients (aw_backend w)) key = None
     \<and> map_of (bk_actions (aw_backend w)) key = None \<and> map_of (aw_executions w) key = None)"

definition keys_only_dropped :: "account_world \<Rightarrow> account_world \<Rightarrow> bool" where
  "keys_only_dropped w w' = (\<forall>key. map_of (bk_clients (aw_backend w')) key \<in> {None, map_of (bk_clients (aw_backend w)) key}
     \<and> map_of (bk_actions (aw_backend w')) key \<in> {None, map_of (bk_actions (aw_backend w)) key}
     \<and> map_of (aw_executions w') key \<in> {None, map_of (aw_executions w) key})"

definition no_jobs :: "('j \<Rightarrow> id) \<Rightarrow> ('j \<Rightarrow> bool) \<Rightarrow> id \<Rightarrow> 'j list \<Rightarrow> bool" where
  "no_jobs job_account removable acc jobs = (\<forall>j \<in> set jobs. job_account j = acc \<longrightarrow> \<not> removable j)"

definition sessions_told :: "id \<Rightarrow> backend \<Rightarrow> backend \<Rightarrow> bool" where
  "sessions_told acc b b' = (bk_terminated b' = bk_terminated b @ map (\<lambda>s. (as_sessionId s, account_closed_reason))
     (filter (\<lambda>s. as_accountId s = acc) (map snd (bk_registry b))))"

lemma events_gone_delete: "events_gone acc (deleteAccount rows acc)"
proof -
  have streams: "readStream (deleteAccount rows acc) k = []" if "key_accountId k = acc" for k
    using that by (simp add: readStream_deleteAccount)
  have resolve: "resolveAccountId (deleteAccount rows acc) t i \<noteq> Some acc" for t i
  proof
    assume "resolveAccountId (deleteAccount rows acc) t i = Some acc"
    then obtain r where "find (\<lambda>row. ev_aggregateType row = t \<and> ev_aggregateId row = i) (deleteAccount rows acc) = Some r" "ev_accountId r = acc"
      by (auto simp: resolveAccountId_def)
    then have "r \<in> set (deleteAccount rows acc)" by (metis find_Some_iff nth_mem)
    with \<open>ev_accountId r = acc\<close> show False unfolding deleteAccount_def set_filter by blast
  qed
  have "listAggregateIds (deleteAccount rows acc) acc t = []" for t
    using streams set_listAggregateIds [of "deleteAccount rows acc" acc t] by simp
  with streams resolve show ?thesis by (simp add: events_gone_def)
qed

lemma no_jobs_purge: "no_jobs job_account removable acc (purgeQueueJobsForAccount job_account removable acc js)"
  by (simp add: no_jobs_def purgeQueueJobsForAccount_def)

lemma drop_keys_simps [simp]:
  "bk_rows (aw_backend (drop_keys ks w)) = bk_rows (aw_backend w)" "bk_terminated (aw_backend (drop_keys ks w)) = bk_terminated (aw_backend w)"
  "aw_debounce (drop_keys ks w) = aw_debounce w" "aw_actionExecution (drop_keys ks w) = aw_actionExecution w"
  "map_of (bk_clients (aw_backend (drop_keys ks w))) key = (if key \<in> set ks then None else map_of (bk_clients (aw_backend w)) key)"
  "map_of (bk_actions (aw_backend (drop_keys ks w))) key = (if key \<in> set ks then None else map_of (bk_actions (aw_backend w)) key)"
  "map_of (aw_executions (drop_keys ks w)) key = (if key \<in> set ks then None else map_of (aw_executions w) key)"
  by (simp_all add: drop_keys_def del_keys_lookup)

text \<open>A closure by its cases: refused by the event store, or stopped at one of its calls, or done.\<close>

lemma closure_cases:
  assumes wf: "wf_store (bk_rows (aw_backend w))" and calm: "undisturbed deps"
    and run: "closeAccount deps glob ans rm1 rm2 tk acc w = (res, w')"
  defines "w1 b1 \<equiv> w\<lparr>aw_backend := end_sessions acc b1\<rparr>"
  defines "w2 b1 \<equiv> (w1 b1)\<lparr>aw_debounce := purgeQueueJobsForAccount dj_accountId rm1 acc (aw_debounce w)\<rparr>"
  defines "w3 b1 \<equiv> (w2 b1)\<lparr>aw_actionExecution := purgeQueueJobsForAccount (\<lambda>j. ej_accountId (xj_data j)) rm2 acc (aw_actionExecution w)\<rparr>"
  obtains (refused) err where "res = Inl err" and "w' = w"
  | (started) e b1 where "wrote (bk_rows (aw_backend w)) (bk_rows b1) (stream acc ACCOUNT acc)
        (AccountEv (AccountClosed \<lparr>cls_accountId = acc, cls_closedAt = tk_now tk\<rparr>))"
      and "b1 = (aw_backend w)\<lparr>bk_rows := bk_rows (aw_backend w) @ [e]\<rparr>"
      and "\<And>k. key_accountId k \<noteq> acc \<Longrightarrow> readStream (bk_rows b1) k = readStream (bk_rows (aw_backend w)) k"
      and "(\<exists>err. cl_debounceJobs ans = Some err \<and> res = Inl err \<and> w' = w1 b1)
        \<or> (\<exists>err. cl_debounceJobs ans = None \<and> cl_executionJobs ans = Some err \<and> res = Inl err \<and> w' = w2 b1)
        \<or> (cl_debounceJobs ans = None \<and> cl_executionJobs ans = None \<and>
            (\<exists>r w4. purgeProjectionKeysForAccount ans glob acc (w3 b1) = (r, w4) \<and>
              ((\<exists>err. r = Inl err \<and> res = Inl err \<and> w' = w4)
              \<or> (r = Inr () \<and> res = (case cl_delete ans of Done \<Rightarrow> Inr () | Errored err arrived \<Rightarrow> Inl err)
                  \<and> w' = effect (cl_delete ans)
                    (w4\<lparr>aw_backend := (aw_backend w4)\<lparr>bk_rows := deleteAccount (bk_rows (aw_backend w4)) acc\<rparr>\<rparr>) w4))))"
      and "wf_store (bk_rows b1)"
proof -
  let ?b = "aw_backend w" and ?k = "stream acc ACCOUNT acc"
  let ?d = "AccountEv (AccountClosed \<lparr>cls_accountId = acc, cls_closedAt = tk_now tk\<rparr>)"
  have version: "snd (snd (loadAccount (bk_rows ?b) acc)) = length (readStream (bk_rows ?b) ?k)" by (subst loads_eq(5)) simp
  obtain r b1 where commit: "commit deps tk ?k (length (readStream (bk_rows ?b) ?k)) ?d ?b = (r, b1)" by fastforce
  show ?thesis
  proof (cases r)
    case (Inl x)
    have "b1 = ?b" using commit Inl calm
      by (cases rule: commit_cases [of deps tk ?k "length (readStream (bk_rows ?b) ?k)" ?d ?b]) (simp_all add: undisturbed_def)
    moreover have "closeAccount deps glob ans rm1 rm2 tk acc w = (Inl x, w\<lparr>aw_backend := b1\<rparr>)"
      unfolding closeAccount_def Let_def version commit Inl by simp
    ultimately show ?thesis using refused [of x] run by simp
  next
    case (Inr e)
    note wr = commit_undisturbed [OF wf calm commit [unfolded Inr]]
    obtain pr w4 where purge: "purgeProjectionKeysForAccount ans glob acc (w3 b1) = (pr, w4)" by fastforce
    have defs: "w2 b1 = w\<lparr>aw_backend := end_sessions acc b1, aw_debounce := purgeQueueJobsForAccount dj_accountId rm1 acc (aw_debounce w)\<rparr>"
      "w3 b1 = w\<lparr>aw_backend := end_sessions acc b1, aw_debounce := purgeQueueJobsForAccount dj_accountId rm1 acc (aw_debounce w),
         aw_actionExecution := purgeQueueJobsForAccount (\<lambda>j. ej_accountId (xj_data j)) rm2 acc (aw_actionExecution w)\<rparr>"
      by (simp_all add: w1_def w2_def w3_def)
    have eq: "closeAccount deps glob ans rm1 rm2 tk acc w =
      (case cl_debounceJobs ans of Some err \<Rightarrow> (Inl err, w1 b1) | None \<Rightarrow>
        (case cl_executionJobs ans of Some err \<Rightarrow> (Inl err, w2 b1) | None \<Rightarrow>
        (case (pr, w4) of (Inl err, w4) \<Rightarrow> (Inl err, w4)
          | (Inr u, w4) \<Rightarrow> (case cl_delete ans of Done \<Rightarrow> Inr () | Errored err arrived \<Rightarrow> Inl err,
              effect (cl_delete ans) (w4\<lparr>aw_backend := (aw_backend w4)\<lparr>bk_rows := deleteAccount (bk_rows (aw_backend w4)) acc\<rparr>\<rparr>) w4))))"
      unfolding closeAccount_def Let_def version commit Inr purge [symmetric] defs w1_def by (simp split: option.split)
    show ?thesis
    proof (rule started [OF wr(1) wr(3)])
      show "readStream (bk_rows b1) k = readStream (bk_rows ?b) k" if "key_accountId k \<noteq> acc" for k
        using wrote_reads [OF wf wr(2,1)] that by (metis stream_simps(1))
    next
      show "(\<exists>err. cl_debounceJobs ans = Some err \<and> res = Inl err \<and> w' = w1 b1)
        \<or> (\<exists>err. cl_debounceJobs ans = None \<and> cl_executionJobs ans = Some err \<and> res = Inl err \<and> w' = w2 b1)
        \<or> (cl_debounceJobs ans = None \<and> cl_executionJobs ans = None \<and>
            (\<exists>r w4. purgeProjectionKeysForAccount ans glob acc (w3 b1) = (r, w4) \<and>
              ((\<exists>err. r = Inl err \<and> res = Inl err \<and> w' = w4)
              \<or> (r = Inr () \<and> res = (case cl_delete ans of Done \<Rightarrow> Inr () | Errored err arrived \<Rightarrow> Inl err)
                  \<and> w' = effect (cl_delete ans)
                    (w4\<lparr>aw_backend := (aw_backend w4)\<lparr>bk_rows := deleteAccount (bk_rows (aw_backend w4)) acc\<rparr>\<rparr>) w4))))"
        using run purge unfolding eq by (auto split: option.splits sum.splits)
    qed (rule wr(2))
  qed
qed

text \<open>The rows after a closure, however it ends.\<close>

lemma closure_rows:
  assumes "wf_store (bk_rows (aw_backend w))" and "undisturbed deps"
    and "closeAccount deps glob ans rm1 rm2 tk acc w = (res, w')"
  obtains "bk_rows (aw_backend w') = bk_rows (aw_backend w)"
  | rows where "wf_store rows" and "wrote (bk_rows (aw_backend w)) rows (stream acc ACCOUNT acc)
        (AccountEv (AccountClosed \<lparr>cls_accountId = acc, cls_closedAt = tk_now tk\<rparr>))"
      and "bk_rows (aw_backend w') = rows \<or> bk_rows (aw_backend w') = deleteAccount rows acc"
proof (cases rule: closure_cases [OF assms, case_names refused started])
  case refused
  with that(1) show ?thesis by simp
next
  case (started e b1)
  have purged: "bk_rows (aw_backend w4) = bk_rows (aw_backend v)" if "purgeProjectionKeysForAccount ans glob acc v = (r, w4)" for v r w4
    using purge_pages_drop [OF that [unfolded purgeProjectionKeysForAccount_def]] by auto
  show ?thesis
  proof (rule that(2) [OF started(5,1)])
    show "bk_rows (aw_backend w') = bk_rows b1 \<or> bk_rows (aw_backend w') = deleteAccount (bk_rows b1) acc"
      using started(4) by (cases "cl_delete ans") (auto simp: end_sessions_def dest!: purged split: if_splits)
  qed
qed

text \<open>A closure removes no other account's jobs, and adds none.\<close>

lemma closure_jobs:
  "filter (\<lambda>j. dj_accountId j = a) (aw_debounce (snd (closeAccount deps glob ans rm1 rm2 tk acc w))) = filter (\<lambda>j. dj_accountId j = a) (aw_debounce w)"
  "filter (\<lambda>j. ej_accountId (xj_data j) = a) (aw_actionExecution (snd (closeAccount deps glob ans rm1 rm2 tk acc w))) =
     filter (\<lambda>j. ej_accountId (xj_data j) = a) (aw_actionExecution w)"
  if "a \<noteq> acc"
proof -
  have purged: "aw_debounce (snd (purgeProjectionKeysForAccount ans glob acc v)) = aw_debounce v"
    "aw_actionExecution (snd (purgeProjectionKeysForAccount ans glob acc v)) = aw_actionExecution v" for v
    using purge_pages_drop [of ans 0 "cl_pages ans (filter (glob (account_pattern acc)) (projection_keys v))" v
        "fst (purgeProjectionKeysForAccount ans glob acc v)" "snd (purgeProjectionKeysForAccount ans glob acc v)"]
    by (auto simp: purgeProjectionKeysForAccount_def)
  have eff: "aw_debounce (effect x v5 v4) = aw_debounce v4" "aw_actionExecution (effect x v5 v4) = aw_actionExecution v4"
    if "aw_debounce v5 = aw_debounce v4" "aw_actionExecution v5 = aw_actionExecution v4" for x and v5 v4 :: account_world
    using that by (cases x; simp)+
  have same: "filter (\<lambda>j. job_account j = a) (purgeQueueJobsForAccount job_account removable acc jobs) = filter (\<lambda>j. job_account j = a) jobs"
    for job_account removable and jobs :: "'j list"
    using that by (auto simp: purgeQueueJobsForAccount_def intro!: filter_cong)
  show "filter (\<lambda>j. dj_accountId j = a) (aw_debounce (snd (closeAccount deps glob ans rm1 rm2 tk acc w))) = filter (\<lambda>j. dj_accountId j = a) (aw_debounce w)"
    "filter (\<lambda>j. ej_accountId (xj_data j) = a) (aw_actionExecution (snd (closeAccount deps glob ans rm1 rm2 tk acc w))) =
     filter (\<lambda>j. ej_accountId (xj_data j) = a) (aw_actionExecution w)"
    unfolding closeAccount_def Let_def
    by (simp_all add: case_prod_beta eff purged same split: sum.split option.split)
qed

text \<open>Of a closure that is done, no event can be read.\<close>

lemma closure_events:
  assumes "wf_store (bk_rows (aw_backend w))" and "undisturbed deps"
    and "closeAccount deps glob ans rm1 rm2 tk acc w = (Inr (), w')"
  shows "events_gone acc (bk_rows (aw_backend w'))"
    and "key_accountId k \<noteq> acc \<Longrightarrow> readStream (bk_rows (aw_backend w')) k = readStream (bk_rows (aw_backend w)) k"
proof -
  have "events_gone acc (bk_rows (aw_backend w')) \<and>
      (key_accountId k \<noteq> acc \<longrightarrow> readStream (bk_rows (aw_backend w')) k = readStream (bk_rows (aw_backend w)) k)"
  proof (cases rule: closure_cases [OF assms, case_names refused started])
    case (started e b1)
    from started(4) obtain w3 w4 where purge: "purgeProjectionKeysForAccount ans glob acc w3 = (Inr (), w4)"
      and w3: "bk_rows (aw_backend w3) = bk_rows b1"
      and del: "bk_rows (aw_backend w') = deleteAccount (bk_rows (aw_backend w4)) acc"
      by (cases "cl_delete ans") (auto simp: end_sessions_def)
    have "bk_rows (aw_backend w4) = bk_rows b1"
      using purge_pages_drop [OF purge [unfolded purgeProjectionKeysForAccount_def]] w3 by auto
    with del started(3) show ?thesis by (simp add: events_gone_delete readStream_deleteAccount)
  qed simp
  then show "events_gone acc (bk_rows (aw_backend w'))"
    and "key_accountId k \<noteq> acc \<Longrightarrow> readStream (bk_rows (aw_backend w')) k = readStream (bk_rows (aw_backend w)) k" by blast+
qed

section \<open>Properties\<close>

text \<open>C20. Closing an account removes the account and nothing else. However a closure ends, every other account's
  streams, projection keys and jobs are as before. When it succeeds, no event of the account can be read, no
  device of it can be resolved, it owns no id of any kind, no projection key and no removable job of it is left
  and every registered session of it was told to end. When it throws, either the store refused the closing
  event and nothing happened, or the closing event is stored, the sessions were told and what was removed is
  what the calls before the failing one remove: nothing if the first queue cannot be listed, its jobs only if
  the second cannot, then the jobs of both and some keys; the account's events are all still there, unless it
  is the answer to their deletion that was lost, and then everything is gone.\<close>
theorem account_closure_exact:
  assumes "wf_store (bk_rows (aw_backend w))" and "undisturbed deps" and "glob_law glob acc" and "scan_law ans"
    and "closeAccount deps glob ans rm1 rm2 tk acc w = (res, w')"
  shows "others_untouched acc w w' \<and> (case res of
      Inr u \<Rightarrow> events_gone acc (bk_rows (aw_backend w')) \<and> keys_gone acc w' \<and> no_jobs dj_accountId rm1 acc (aw_debounce w')
        \<and> no_jobs (\<lambda>j. ej_accountId (xj_data j)) rm2 acc (aw_actionExecution w') \<and> sessions_told acc (aw_backend w) (aw_backend w')
    | Inl err \<Rightarrow> w' = w \<or> (sessions_told acc (aw_backend w) (aw_backend w') \<and> keys_only_dropped w w' \<and>
        (if cl_debounceJobs ans = None then no_jobs dj_accountId rm1 acc (aw_debounce w')
         else aw_debounce w' = aw_debounce w) \<and>
        (if cl_debounceJobs ans = None \<and> cl_executionJobs ans = None
         then no_jobs (\<lambda>j. ej_accountId (xj_data j)) rm2 acc (aw_actionExecution w')
         else aw_actionExecution w' = aw_actionExecution w
           \<and> bk_clients (aw_backend w') = bk_clients (aw_backend w) \<and> bk_actions (aw_backend w') = bk_actions (aw_backend w)
           \<and> aw_executions w' = aw_executions w) \<and>
        (wrote (bk_rows (aw_backend w)) (bk_rows (aw_backend w')) (stream acc ACCOUNT acc)
           (AccountEv (AccountClosed \<lparr>cls_accountId = acc, cls_closedAt = tk_now tk\<rparr>))
         \<or> (cl_delete ans = Errored err True \<and> events_gone acc (bk_rows (aw_backend w')) \<and> keys_gone acc w'))))"
proof (cases rule: closure_cases [OF assms(1,2,5), case_names refused started])
  case (refused err)
  then show ?thesis by (simp add: others_untouched_def)
next
  case (started e b1)
  let ?d = "AccountEv (AccountClosed \<lparr>cls_accountId = acc, cls_closedAt = tk_now tk\<rparr>)"
  let ?w1 = "w\<lparr>aw_backend := end_sessions acc b1\<rparr>"
  let ?w2 = "?w1\<lparr>aw_debounce := purgeQueueJobsForAccount dj_accountId rm1 acc (aw_debounce w)\<rparr>"
  let ?w3 = "?w2\<lparr>aw_actionExecution := purgeQueueJobsForAccount (\<lambda>j. ej_accountId (xj_data j)) rm2 acc (aw_actionExecution w)\<rparr>"
  have told: "sessions_told acc (aw_backend w) (end_sessions acc b1)"
    by (simp add: started(2) sessions_told_def end_sessions_def terminateByAccount_def)
  have rows: "bk_rows (end_sessions acc b1) = bk_rows b1" "bk_clients (end_sessions acc b1) = bk_clients (aw_backend w)"
    "bk_actions (end_sessions acc b1) = bk_actions (aw_backend w)"
    by (simp_all add: started(2) end_sessions_def)
  have others: "others_untouched acc w ?w1" "others_untouched acc w ?w2" "others_untouched acc w ?w3"
    by (simp_all add: others_untouched_def rows started(3) purge_queue_account(2))
  consider (debounce) err where "cl_debounceJobs ans = Some err" "res = Inl err" "w' = ?w1"
    | (executions) err where "cl_debounceJobs ans = None" "cl_executionJobs ans = Some err" "res = Inl err" "w' = ?w2"
    | (keys) err where "cl_debounceJobs ans = None" "cl_executionJobs ans = None" "res = Inl err"
        "purgeProjectionKeysForAccount ans glob acc ?w3 = (Inl err, w')"
    | (events) w4 where "cl_debounceJobs ans = None" "cl_executionJobs ans = None"
        "purgeProjectionKeysForAccount ans glob acc ?w3 = (Inr (), w4)"
        "res = (case cl_delete ans of Done \<Rightarrow> Inr () | Errored err arrived \<Rightarrow> Inl err)"
        "w' = effect (cl_delete ans) (w4\<lparr>aw_backend := (aw_backend w4)\<lparr>bk_rows := deleteAccount (bk_rows (aw_backend w4)) acc\<rparr>\<rparr>) w4"
    using started(4) by blast
  then show ?thesis
  proof cases
    case debounce
    with others(1) told started(1) show ?thesis by (simp add: rows keys_only_dropped_def)
  next
    case executions
    with others(2) told started(1) show ?thesis by (simp add: rows keys_only_dropped_def no_jobs_purge)
  next
    case keys
    obtain ks where ks: "w' = drop_keys ks ?w3" "\<And>key. key \<in> set ks \<Longrightarrow> account_key acc key"
      using purge_projection_drop [OF assms(3,4) keys(4)] by metis
    have "others_untouched acc w w'" using others(3) ks by (auto simp: others_untouched_def)
    moreover have "sessions_told acc (aw_backend w) (aw_backend w')" using told by (simp add: ks(1) sessions_told_def)
    ultimately show ?thesis using keys(1-3) started(1) by (simp add: ks(1) rows keys_only_dropped_def no_jobs_purge)
  next
    case events
    obtain ks where ks: "w4 = drop_keys ks ?w3" "\<And>key. key \<in> set ks \<Longrightarrow> account_key acc key"
      and all: "\<And>key. account_key acc key \<Longrightarrow> key \<in> set (projection_keys ?w3) \<Longrightarrow> key \<in> set ks"
      using purge_projection_drop [OF assms(3,4) events(3)] by metis
    let ?w5 = "w4\<lparr>aw_backend := (aw_backend w4)\<lparr>bk_rows := deleteAccount (bk_rows (aw_backend w4)) acc\<rparr>\<rparr>"
    have gone: "keys_gone acc w4"
      using all by (fastforce simp: keys_gone_def ks(1) projection_keys_def map_of_eq_None_iff)
    have kept: "others_untouched acc w w4" using others(3) ks by (auto simp: others_untouched_def)
    then have kept5: "others_untouched acc w ?w5" by (simp add: others_untouched_def readStream_deleteAccount)
    have told4: "sessions_told acc (aw_backend w) (aw_backend w4)" using told by (simp add: ks(1) sessions_told_def)
    have jobs: "no_jobs dj_accountId rm1 acc (aw_debounce w4)" "no_jobs (\<lambda>j. ej_accountId (xj_data j)) rm2 acc (aw_actionExecution w4)"
      by (simp_all add: ks(1) no_jobs_purge)
    have dropped: "keys_only_dropped w w4" by (simp add: ks(1) rows keys_only_dropped_def)
    have rows4: "bk_rows (aw_backend w4) = bk_rows b1" by (simp add: ks(1) rows)
    have gone5: "keys_gone acc ?w5" "keys_only_dropped w ?w5" "sessions_told acc (aw_backend w) (aw_backend ?w5)"
      using gone dropped told4 by (simp_all add: keys_gone_def keys_only_dropped_def sessions_told_def)
    show ?thesis
    proof (cases "cl_delete ans")
      case Done
      with events kept5 gone5 jobs show ?thesis by (simp add: events_gone_delete)
    next
      case (Errored err arrived)
      show ?thesis
      proof (cases arrived)
        case True
        with Errored events kept5 gone5 jobs show ?thesis by (simp add: events_gone_delete)
      next
        case False
        with Errored events kept dropped told4 jobs started(1) rows4 show ?thesis by simp
      qed
    qed
  qed
qed

text \<open>An account is provisioned once: when the middleware lets a request through, the account's stream holds exactly
  one registration more if it was empty and nothing more otherwise, and the state it returns is the replayed
  one; of two first requests that race, the loser is refused by the store and writes nothing.\<close>
theorem provision_once:
  assumes "wf_store (bk_rows b)" and "others_append deps b" and "ensureProvisioned deps tk acc b = (res, b')"
  defines "seen \<equiv> rt_between deps (bk_rows b)" and "k \<equiv> stream acc ACCOUNT acc"
  shows "case res of
      Inl err \<Rightarrow> readStream (bk_rows b) k = [] \<and> bk_rows b' = seen
    | Inr st \<Rightarrow> st = getState (bk_rows b') acc
        \<and> (if readStream (bk_rows b) k \<noteq> [] then b' = b
           else acc_accountId st = Some acc \<and> readStream seen k = [] \<and> length (readStream (bk_rows b') k) = 1)"
proof (cases "readStream (bk_rows b) k = []")
  case False
  with assms(3) show ?thesis by (auto simp: ensureProvisioned_eq k_def)
next
  case True
  let ?d = "AccountEv (AccountRegistered \<lparr>reg_accountId = acc, reg_deviceLimit = cfg_defaultIpClientLimit (rt_config deps), reg_registeredAt = tk_now tk\<rparr>)"
  have zero: "(0 :: nat) = length (readStream (bk_rows b) k)" using True by simp
  show ?thesis
  proof (cases rule: commit_cases [of deps tk k 0 ?d b])
    case conflict
    with assms(3) True show ?thesis by (auto simp: ensureProvisioned_eq k_def seen_def)
  next
    case (appended e)
    note new = append_after_load [OF assms(1,2) appended(2) [unfolded zero]]
    have run: "res = Inr \<lparr>acc_accountId = Some acc, acc_deviceLimit = cfg_defaultIpClientLimit (rt_config deps), acc_status = AccActive\<rparr>"
      "bk_rows b' = seen @ [e]"
      using assms(3) True appended(1) by (auto simp: ensureProvisioned_eq k_def seen_def)
    have "readStream (bk_rows b') k = [e]" using new(7) True run(2) by (simp add: seen_def)
    moreover from this have "getState (bk_rows b') acc = account_apply initialAccountState ?d"
      using new(6) by (simp add: getState_def load_defs accountReducer_def k_def)
    ultimately show ?thesis using run True new(2) by (simp add: seen_def)
  qed
qed

text \<open>Only an administrator changes a device limit: without the role the answer is 403, and with it the limit of a
  registered account becomes exactly the requested non-negative integer, for that account alone; any other
  value is refused, and so is an unknown account.\<close>
theorem device_limit_override:
  assumes "wf_store (bk_rows b)" and "undisturbed deps"
    and "admin_device_limit deps tk roles admin acc newLimit b = (resp, b')"
  shows "(b' \<noteq> b \<longrightarrow> ADMIN_ROLE_CLAIM \<in> set roles \<and> resp_status resp = 200)
    \<and> (resp_status resp = 200 \<longrightarrow> (\<exists>limit. newLimit = Some (JNum limit) \<and> 0 \<le> limit \<and> acc_accountId (getState (bk_rows b) acc) \<noteq> None
        \<and> getState (bk_rows b') acc = (getState (bk_rows b) acc)\<lparr>acc_deviceLimit := limit\<rparr>
        \<and> (\<forall>k. k \<noteq> stream acc ACCOUNT acc \<longrightarrow> readStream (bk_rows b') k = readStream (bk_rows b) k)))
    \<and> (ADMIN_ROLE_CLAIM \<notin> set roles \<longrightarrow> resp_status resp = 403)"
proof (cases "ADMIN_ROLE_CLAIM \<in> set roles \<and> limit_of newLimit \<noteq> None \<and> truthy (acc_accountId (getState (bk_rows b) acc))")
  case False
  then have "b' = b \<and> resp_status resp \<noteq> 200 \<and> (ADMIN_ROLE_CLAIM \<notin> set roles \<longrightarrow> resp_status resp = 403)"
    using assms(3) unfolding admin_device_limit_def requireAdminRole_def device_limit_route_def overrideDeviceLimit_def getState_def
    by (subst (asm) loads_eq(5)) (auto split: if_splits option.splits)
  then show ?thesis by blast
next
  case True
  let ?k = "stream acc ACCOUNT acc" and ?st = "getState (bk_rows b) acc"
  obtain limit where limit: "newLimit = Some (JNum limit)" "0 \<le> limit" "limit_of newLimit = Some limit"
    using True by (cases newLimit rule: limit_of.cases) (auto split: if_splits)
  define ev where "ev = AccountEv (AccountDeviceLimitOverridden \<lparr>ovr_accountId = acc, ovr_previousLimit = acc_deviceLimit ?st,
    ovr_newLimit = limit, ovr_overriddenBy = admin, ovr_overriddenAt = tk_now tk\<rparr>)"
  obtain r b1 where commit: "commit deps tk ?k (length (readStream (bk_rows b) ?k)) ev b = (r, b1)" by fastforce
  have run: "(resp, b') = (case (r, b1) of (Inl err, b) \<Rightarrow> (Thrown err, b)
      | (Inr e, b) \<Rightarrow> (Json 200 (JObj [(''accountId'', JStr acc), (''deviceLimit'', JNum limit)]), b))"
    using assms(3) True commit unfolding admin_device_limit_def requireAdminRole_def device_limit_route_def overrideDeviceLimit_def
      limit(3) option.case ev_def getState_def
    by (subst (asm) loads_eq(5)) (auto split: sum.splits)
  show ?thesis
  proof (cases r)
    case (Inl x)
    have "b1 = b" using commit Inl assms(2)
      by (cases rule: commit_cases [of deps tk ?k "length (readStream (bk_rows b) ?k)" ev b]) (simp_all add: undisturbed_def)
    with run Inl True show ?thesis by simp
  next
    case (Inr e)
    note w = commit_undisturbed [OF assms(1,2) commit [unfolded Inr]]
    from run Inr have b': "b' = b1" and status: "resp_status resp = 200" by simp_all
    have "getState (bk_rows b') acc = ?st\<lparr>acc_deviceLimit := limit\<rparr>"
      unfolding getState_def replay_loads(5) b' replay_wrote(1) [OF assms(1) w(2,1)] by (simp add: ev_def)
    moreover have "readStream (bk_rows b') k = readStream (bk_rows b) k" if "k \<noteq> ?k" for k
      using wrote_reads [OF assms(1) w(2,1)] that b' by metis
    moreover have "acc_accountId ?st \<noteq> None" using True by (cases "acc_accountId ?st") simp_all
    ultimately show ?thesis using True limit status by blast
  qed
qed

section \<open>Concrete requests\<close>

definition sample_glob :: "string \<Rightarrow> string \<Rightarrow> bool" where
  "sample_glob pattern key = (take (length pattern - 1) key = take (length pattern - 1) pattern)"

lemma sample_glob_law: "glob_law sample_glob acc"
  unfolding glob_law_def
proof
  fix key
  let ?p = "''proj:'' @ acc @ '':''"
  have p: "account_pattern acc = ?p @ ''*''" by (simp add: account_pattern_def)
  have "sample_glob (account_pattern acc) key \<longleftrightarrow> take (length ?p) key = ?p" unfolding sample_glob_def p by simp
  also have "\<dots> \<longleftrightarrow> (\<exists>rest. key = ?p @ rest)" by (metis append_eq_conv_conj append_take_drop_id)
  finally show "sample_glob (account_pattern acc) key = (\<exists>rest. key = ''proj:'' @ acc @ '':'' @ rest)" by simp
qed

definition sample_world :: account_world where
  "sample_world = \<lparr>aw_backend = sample_backend sample_device_rows, aw_executions = [], aw_debounce = [scheduleDebounce sample_config ''d'' ''acc''],
     aw_actionExecution = []\<rparr>"

definition calm_closure :: closure_answers where
  "calm_closure = \<lparr>cl_debounceJobs = None, cl_executionJobs = None, cl_pages = (\<lambda>keys. [keys]), cl_scan = (\<lambda>n. None),
     cl_del = (\<lambda>n. Done), cl_delete = Done\<rparr>"

lemma sample_scan_law: "scan_law calm_closure" "scan_law (calm_closure\<lparr>cl_executionJobs := e\<rparr>)"
  by (simp_all add: scan_law_def calm_closure_def)

lemma sample_closure_commit:
  obtains e where "commit sample_routes (sample_tick 9) (stream ''acc'' ACCOUNT ''acc'') (snd (snd (loadAccount sample_device_rows ''acc'')))
      (AccountEv (AccountClosed \<lparr>cls_accountId = ''acc'', cls_closedAt = tk_now (sample_tick 9)\<rparr>)) (sample_backend sample_device_rows)
    = (Inr e, (sample_backend sample_device_rows)\<lparr>bk_rows := sample_device_rows @ [e]\<rparr>)"
proof -
  let ?b = "sample_backend sample_device_rows"
  have empty: "aggregate_rows sample_device_rows ACCOUNT ''acc'' = []" by (simp add: aggregate_rows_def sample_device_defs)
  then have none: "readStream sample_device_rows (stream ''acc'' ACCOUNT ''acc'') = []"
    by (simp add: readStream_wf(1) [OF sample_device_wf(1)] filter_in_stream)
  have "tk_id (sample_tick 9) \<notin> ev_id ` set sample_device_rows" by (auto simp: sample_tick_def sample_device_defs nat_to_string.simps)
  then obtain e where "commit sample_routes (sample_tick 9) (stream ''acc'' ACCOUNT ''acc'') 0
      (AccountEv (AccountClosed \<lparr>cls_accountId = ''acc'', cls_closedAt = tk_now (sample_tick 9)\<rparr>)) ?b = (Inr e, ?b\<lparr>bk_rows := sample_device_rows @ [e]\<rparr>)"
    using commit_alone [of ?b sample_routes "sample_tick 9" ACCOUNT "''acc''" "''acc''" 0] sample_device_wf(1) empty none by force
  moreover have "snd (snd (loadAccount sample_device_rows ''acc'')) = 0" by (simp add: load_defs Let_def none)
  ultimately show ?thesis using that by simp
qed

lemma sample_closure:
  obtains w' where "closeAccount sample_routes sample_glob calm_closure (\<lambda>j. True) (\<lambda>j. True) (sample_tick 9) ''acc'' sample_world = (Inr (), w')"
proof -
  obtain e where e: "commit sample_routes (sample_tick 9) (stream ''acc'' ACCOUNT ''acc'') (snd (snd (loadAccount sample_device_rows ''acc'')))
      (AccountEv (AccountClosed \<lparr>cls_accountId = ''acc'', cls_closedAt = tk_now (sample_tick 9)\<rparr>)) (sample_backend sample_device_rows)
    = (Inr e, (sample_backend sample_device_rows)\<lparr>bk_rows := sample_device_rows @ [e]\<rparr>)" by (rule sample_closure_commit)
  then have "fst (closeAccount sample_routes sample_glob calm_closure (\<lambda>j. True) (\<lambda>j. True) (sample_tick 9) ''acc'' sample_world) = Inr ()"
    by (simp add: closeAccount_def sample_world_def Let_def calm_closure_def purgeProjectionKeysForAccount_def)
  then show ?thesis using that by (metis prod.collapse)
qed

text \<open>A closure that gets through, and one whose second queue cannot be listed: the job is gone, the events are not.\<close>

lemma account_closure_exact_witness:
  "\<exists>w' w'' err. closeAccount sample_routes sample_glob calm_closure (\<lambda>j. True) (\<lambda>j. True) (sample_tick 9) ''acc'' sample_world = (Inr (), w')
    \<and> readStream (bk_rows (aw_backend w')) (stream ''acc'' IP_CLIENT ''d'') = [] \<and> aw_debounce w' = []
    \<and> closeAccount sample_routes sample_glob (calm_closure\<lparr>cl_executionJobs := Some err\<rparr>) (\<lambda>j. True) (\<lambda>j. True) (sample_tick 9) ''acc''
        sample_world = (Inl err, w'')
    \<and> aw_debounce w'' = [] \<and> length (bk_rows (aw_backend w'')) = 4"
proof -
  let ?err = "JsError ''ECONNREFUSED''"
  obtain w' where run: "closeAccount sample_routes sample_glob calm_closure (\<lambda>j. True) (\<lambda>j. True) (sample_tick 9) ''acc'' sample_world = (Inr (), w')"
    by (rule sample_closure)
  have world: "wf_store (bk_rows (aw_backend sample_world))" "undisturbed sample_routes"
    using sample_device_wf(1) by (simp_all add: sample_world_def)
  have debounce: "aw_debounce x = []" if "others_untouched ''acc'' sample_world x" "no_jobs dj_accountId (\<lambda>j. True) ''acc'' (aw_debounce x)" for x
  proof -
    have "filter (\<lambda>j. dj_accountId j \<noteq> ''acc'') (aw_debounce x) = []"
      using that(1) by (simp add: others_untouched_def sample_world_def scheduleDebounce_def)
    with that(2) show ?thesis by (auto simp: no_jobs_def filter_empty_conv)
  qed
  obtain res w'' where part: "closeAccount sample_routes sample_glob (calm_closure\<lparr>cl_executionJobs := Some ?err\<rparr>) (\<lambda>j. True) (\<lambda>j. True)
      (sample_tick 9) ''acc'' sample_world = (res, w'')" by fastforce
  obtain e where e: "commit sample_routes (sample_tick 9) (stream ''acc'' ACCOUNT ''acc'') (snd (snd (loadAccount sample_device_rows ''acc'')))
      (AccountEv (AccountClosed \<lparr>cls_accountId = ''acc'', cls_closedAt = tk_now (sample_tick 9)\<rparr>)) (sample_backend sample_device_rows)
    = (Inr e, (sample_backend sample_device_rows)\<lparr>bk_rows := sample_device_rows @ [e]\<rparr>)" by (rule sample_closure_commit)
  have res: "res = Inl ?err" and differs: "w'' \<noteq> sample_world"
    using part e by (auto simp: closeAccount_def sample_world_def Let_def calm_closure_def end_sessions_def
        dest!: arg_cong [where f = "\<lambda>w. bk_rows (aw_backend w)"])
  note done1 = account_closure_exact [OF world sample_glob_law sample_scan_law(1) run]
    and done2 = account_closure_exact [OF world sample_glob_law sample_scan_law(2) part]
  have "readStream (bk_rows (aw_backend w')) (stream ''acc'' IP_CLIENT ''d'') = []" using done1 by (simp add: events_gone_def)
  moreover have "aw_debounce w' = []" using done1 by (intro debounce) simp_all
  moreover have "aw_debounce w'' = []" using done2 differs by (intro debounce) (simp_all add: res calm_closure_def)
  moreover have "length (bk_rows (aw_backend w'')) = 4"
    using done2 differs by (auto simp: res calm_closure_def wrote_def sample_world_def sample_device_rows_def)
  ultimately show ?thesis using run part unfolding res by blast
qed

lemma provision_once_witness:
  "\<exists>res b'. ensureProvisioned sample_routes (sample_tick 1) ''acc'' (sample_backend [sample_account]) = (res, b') \<and> b' = sample_backend [sample_account]"
proof -
  obtain res b' where run: "ensureProvisioned sample_routes (sample_tick 1) ''acc'' (sample_backend [sample_account]) = (res, b')" by fastforce
  have "wf_store [sample_account]" by (auto simp: wf_store_def aggregate_rows_def sample_account_def Let_def)
  moreover have "readStream [sample_account] (stream ''acc'' ACCOUNT ''acc'') \<noteq> []"
    by (simp add: readStream_def in_stream_def sample_account_def)
  ultimately have "b' = sample_backend [sample_account]"
    using provision_once [OF _ _ run] by (cases res) simp_all
  with run show ?thesis by blast
qed

lemma device_limit_override_witness:
  "resp_status (fst (admin_device_limit sample_routes (sample_tick 1) [''user''] ''acc'' ''acc'' (Some (JNum 100)) (sample_backend [sample_account]))) = 403"
proof -
  obtain resp b' where run: "admin_device_limit sample_routes (sample_tick 1) [''user''] ''acc'' ''acc'' (Some (JNum 100)) (sample_backend [sample_account]) = (resp, b')"
    by fastforce
  have "wf_store [sample_account]" by (auto simp: wf_store_def aggregate_rows_def sample_account_def Let_def)
  with device_limit_override [OF _ _ run] run show ?thesis by (simp add: ADMIN_ROLE_CLAIM_def)
qed

end
