(* ===== verification/ProviderRoutes.thy ===== *)
theory ProviderRoutes
  imports ActionRoutes AgentServer Delivery
begin

text \<open>
  The routes of a Traefik provider: \<open>adapters/http/routes/traefik-providers.ts\<close>.

  The body's fields are unknown values here (\<open>json\<close>), since the code itself tests the type of the name
  and compares the connection mode. Appends go through the provider store, which loads the version
  itself and retries once; \<open>rt_between\<close> is what other processes do before each attempt.
\<close>

section \<open>Views\<close>

definition NAME_MAX :: nat where
  "NAME_MAX = 100"

definition NOTICE_WINDOW_MS :: nat where
  "NOTICE_WINDOW_MS = 24 * 3600 * 1000"

text \<open>What a request draws; \<open>pd_startedAt\<close> is the start of the process.\<close>

record provider_drawn =
  pd_id :: id
  pd_tokenId :: id
  pd_random :: string
  pd_ticks :: "nat \<Rightarrow> tick"
  pd_ticks2 :: "nat \<Rightarrow> tick"
  pd_now :: timestamp
  pd_startedAt :: timestamp

record provider_body =
  pb_name :: "json option"
  pb_connectionMode :: "json option"

fun connection_mode_name :: "connection_mode \<Rightarrow> string" where
  "connection_mode_name AgentInitiated = ''agent_initiated''"
| "connection_mode_name ServerInitiated = ''server_initiated''"

fun connection_state_name :: "connection_state \<Rightarrow> string" where
  "connection_state_name NeverConnected = ''never_connected''"
| "connection_state_name Connected = ''connected''"
| "connection_state_name Disconnected = ''disconnected''"
| "connection_state_name Stale = ''stale''"

definition agentAddress :: "Config \<Rightarrow> id \<Rightarrow> string" where
  "agentAddress config providerId = cfg_agentPublicUrl config @ ''/'' @ providerId"

definition startCommand :: "string \<Rightarrow> string \<Rightarrow> string" where
  "startCommand address token = join_with ('' '' @ [CHR 0x5C, CHR 0x0A] @ ''  '')
     [''FLUXIP_ADDRESS='' @ address, ''FLUXIP_TOKEN='' @ token,
      ''FLUXIP_TEMPLATES_DIR=/etc/fluxip-agent/templates'', ''FLUXIP_OUTPUT_DIR=/etc/traefik/dynamic'', ''fluxip-agent run'']"

definition TRAEFIK_SNIPPET :: string where
  "TRAEFIK_SNIPPET = ''providers:'' @ [CHR 0x0A] @ ''  file:'' @ [CHR 0x0A] @ ''    directory: /etc/traefik/dynamic'' @ [CHR 0x0A]
     @ ''    watch: true'' @ [CHR 0x0A]"

definition setupFor :: "string \<Rightarrow> string \<Rightarrow> json" where
  "setupFor address token = JObj [(''startCommand'', JStr (startCommand address token)), (''traefikSnippet'', JStr TRAEFIK_SNIPPET),
     (''notes'', JArr (map JStr
       [''Remove any hand-written definition of a middleware or service with the same name, otherwise Traefik reports a name conflict.'',
        ''Write the example templates with `fluxip-agent templates --write /etc/fluxip-agent/templates` and adapt them.'',
        ''Use FLUXIP_TOKEN_FILE instead of FLUXIP_TOKEN to keep the token out of the process list.'']))]"

definition tokenView :: "TraefikProviderState \<Rightarrow> json" where
  "tokenView state = JArr (map (\<lambda>token. JObj [(''tokenId'', JStr (tok_tokenId token)), (''last4'', JStr (tok_last4 token)),
     (''issuedAt'', JNum (int (tok_issuedAt token))),
     (''status'', JStr (if tok_revokedAt token \<noteq> None then ''revoked'' else ''valid''))]) (tp_tokens state))"

definition provider_notices :: "timestamp \<Rightarrow> TraefikProviderState \<Rightarrow> string list" where
  "provider_notices now state = (case tp_replacedPreviousAt state of
       Some t \<Rightarrow> if int now - int t < int NOTICE_WINDOW_MS then [''previous_session_superseded''] else []
     | None \<Rightarrow> [])"

definition version_json :: "nat option \<Rightarrow> json" where
  "version_json v = (case v of None \<Rightarrow> JNull | Some n \<Rightarrow> JNum (int n))"

definition provider_view :: "route_deps \<Rightarrow> provider_drawn \<Rightarrow> registry \<Rightarrow> TraefikProviderState \<Rightarrow> nat \<Rightarrow> (string \<times> json) list" where
  "provider_view deps pd registry state actionCount =
     (let providerId = nullish_or (tp_providerId state) []; connected = registry_isConnected registry providerId in
      [(''providerId'', text_json (tp_providerId state)), (''name'', JStr (tp_name state)),
       (''connectionMode'', JStr (connection_mode_name (tp_connectionMode state))),
       (''agentAddress'', JStr (agentAddress (rt_config deps) providerId)),
       (''state'', JStr (connection_state_name (deriveConnectionState (pd_startedAt pd) state connected (pd_now pd)))),
       (''lastConnectedAt'', time_json (tp_lastConnectedAt state)),
       (''lastDisconnectedAt'', time_json (tp_lastDisconnectedAt state)),
       (''appliedVersion'', version_json (map_option la_version (tp_lastApplied state))),
       (''publishedVersion'', version_json (map_option lp_version (tp_lastPublished state))),
       (''agentVersion'', text_json (tp_agentVersion state)),
       (''lastError'', case tp_lastApplyError state of None \<Rightarrow> JNull
          | Some e \<Rightarrow> JObj [(''version'', JNum (int (ae_version e))), (''reason'', JStr (ae_reason e)), (''at'', JNum (int (ae_appliedAt e)))]),
       (''lastPublishError'', case tp_lastPublishError state of None \<Rightarrow> JNull
          | Some e \<Rightarrow> JObj [(''reason'', JStr (publish_failure_name (le_reason e))), (''at'', JNum (int (le_failedAt e)))]),
       (''notices'', JArr (map JStr (provider_notices (pd_now pd) state))),
       (''tokens'', tokenView state), (''actionCount'', JNum (int actionCount))])"

section \<open>Handlers\<close>

definition provider_write :: "route_deps \<Rightarrow> (nat \<Rightarrow> tick) \<Rightarrow> id \<Rightarrow> id \<Rightarrow> traefik_provider_event \<Rightarrow> backend \<Rightarrow> (exn + stored_event) \<times> backend" where
  "provider_write deps ticks accountId providerId d b =
     (case provider_append_racing (rt_config deps) ticks (\<lambda>n. rt_between deps) (bk_rows b) accountId providerId d of
        (r, rows) \<Rightarrow> (r, b\<lparr>bk_rows := rows\<rparr>))"

definition body_name :: "json option \<Rightarrow> string" where
  "body_name v = (case v of Some (JStr s) \<Rightarrow> js_trim s | _ \<Rightarrow> [])"

definition bad_name :: "string \<Rightarrow> bool" where
  "bad_name name = (name = [] \<or> length name > NAME_MAX)"

definition name_key :: "string \<Rightarrow> string" where
  "name_key name = js_lower (js_trim name)"

definition name_taken :: "LoadedProvider list \<Rightarrow> string \<Rightarrow> bool" where
  "name_taken providers name = list_ex (\<lambda>p. name_key (tp_name (ld_state p)) = js_lower name) providers"

definition name_required :: response where
  "name_required = json_error 400 ''name is required (max 100 characters)''"

definition coded_error :: "nat \<Rightarrow> string \<Rightarrow> string \<Rightarrow> response" where
  "coded_error status code message = Json status (JObj [(''error'', JStr code), (''message'', JStr message)])"

definition token_json :: "id \<Rightarrow> GeneratedAgentToken \<Rightarrow> json" where
  "token_json tokenId token = JObj [(''tokenId'', JStr tokenId), (''value'', JStr (gt_plaintext token)), (''last4'', JStr (gt_last4 token))]"

text \<open>The event of a newly generated token.\<close>

definition token_issued :: "provider_drawn \<Rightarrow> GeneratedAgentToken \<Rightarrow> traefik_provider_event" where
  "token_issued pd token = TokenIssued \<lparr>tki_tokenId = pd_tokenId pd, tki_tokenHash = gt_hash token,
     tki_last4 = gt_last4 token, tki_issuedAt = pd_now pd\<rparr>"

definition provider_create :: "route_deps \<Rightarrow> provider_drawn \<Rightarrow> id \<Rightarrow> provider_body \<Rightarrow> backend \<Rightarrow> response \<times> backend" where
  "provider_create deps pd accountId body b =
     (let name = body_name (pb_name body) in
      if bad_name name then (name_required, b)
      else if (case pb_connectionMode body of None \<Rightarrow> False | Some JNull \<Rightarrow> False
          | Some mode \<Rightarrow> mode \<noteq> JStr (connection_mode_name AgentInitiated))
      then (coded_error 422 ''connection_mode_not_available''
              (''Only the connection mode '' @ [CHR 0x27] @ ''agent connects to FluxIP'' @ [CHR 0x27] @ '' (agent_initiated) is available.''), b)
      else if cfg_agentPublicUrl (rt_config deps) = []
      then (coded_error 422 ''agent_public_url_not_configured'' ''BACKEND_AGENT_PUBLIC_URL is not set on this FluxIP deployment.'', b)
      else if name_taken (provider_listActive (bk_rows b) accountId) name then (json_error 409 ''name_in_use'', b)
      else (let providerId = pd_id pd; token = generateAgentToken (rt_crypto deps) (pd_random pd);
                address = agentAddress (rt_config deps) providerId in
        proceed (provider_write deps (pd_ticks pd) accountId providerId
            (ProviderCreated \<lparr>tpc_providerId = providerId, tpc_accountId = accountId, tpc_name = name,
               tpc_connectionMode = AgentInitiated, tpc_createdAt = pd_now pd\<rparr>) b)
          (\<lambda>e b. proceed (provider_write deps (pd_ticks2 pd) accountId providerId (token_issued pd token) b)
          (\<lambda>e b. (Json 201 (JObj [(''providerId'', JStr providerId), (''name'', JStr name),
             (''connectionMode'', JStr (connection_mode_name AgentInitiated)), (''agentAddress'', JStr address),
             (''token'', token_json (pd_tokenId pd) token), (''setup'', setupFor address (gt_plaintext token))]), b)))))"

definition delivery_users :: "event_store \<Rightarrow> id \<Rightarrow> id \<Rightarrow> DeliveryAction list" where
  "delivery_users rows accountId providerId =
     filter (\<lambda>a. da_traefikProviderId a = providerId) (listDeliveryActions rows accountId)"

definition provider_list :: "route_deps \<Rightarrow> provider_drawn \<Rightarrow> id \<Rightarrow> backend \<Rightarrow> response \<times> backend" where
  "provider_list deps pd accountId b =
     (let actions = listDeliveryActions (bk_rows b) accountId in
      (Json 200 (JObj [(''items'', JArr (map (\<lambda>p. JObj (provider_view deps pd (bk_registry b) (ld_state p)
          (length (filter (\<lambda>a. Some (da_traefikProviderId a) = tp_providerId (ld_state p)) actions))))
        (provider_listActive (bk_rows b) accountId)))]), b))"

definition used_by_json :: "event_store \<Rightarrow> id \<Rightarrow> DeliveryAction \<Rightarrow> json" where
  "used_by_json rows accountId action = JObj [(''actionId'', JStr (da_actionId action)), (''ipClientId'', JStr (da_ipClientId action)),
     (''ipClientName'', JStr (ic_label (fst (loadIpClient rows accountId (da_ipClientId action))))),
     (''group'', JStr (da_group action)), (''status'', JStr (action_status_name (da_status action)))]"

definition provider_get :: "route_deps \<Rightarrow> provider_drawn \<Rightarrow> id \<Rightarrow> id \<Rightarrow> backend \<Rightarrow> response \<times> backend" where
  "provider_get deps pd accountId providerId b = (case provider_loadActive (bk_rows b) accountId providerId of
       None \<Rightarrow> (not_found, b)
     | Some loaded \<Rightarrow> (let actions = delivery_users (bk_rows b) accountId providerId in
         (Json 200 (JObj (provider_view deps pd (bk_registry b) (ld_state loaded) (length actions)
            @ [(''usedBy'', JArr (map (used_by_json (bk_rows b) accountId) actions)),
               (''groups'', JArr (map JStr (sort_by str_le (uniq (map da_group actions)))))])), b)))"

definition provider_patch :: "route_deps \<Rightarrow> provider_drawn \<Rightarrow> id \<Rightarrow> id \<Rightarrow> provider_body \<Rightarrow> backend \<Rightarrow> response \<times> backend" where
  "provider_patch deps pd accountId providerId body b = (case provider_loadActive (bk_rows b) accountId providerId of
       None \<Rightarrow> (not_found, b)
     | Some loaded \<Rightarrow>
         if pb_connectionMode body \<noteq> None
            \<and> pb_connectionMode body \<noteq> Some (JStr (connection_mode_name (tp_connectionMode (ld_state loaded))))
         then (Json 422 (JObj [(''error'', JStr ''immutable_field''), (''field'', JStr ''connectionMode'')]), b)
         else (let name = body_name (pb_name body) in
           if bad_name name then (name_required, b)
           else if name_taken (filter (\<lambda>p. tp_providerId (ld_state p) \<noteq> Some providerId) (provider_listActive (bk_rows b) accountId)) name
           then (json_error 409 ''name_in_use'', b)
           else proceed (if name \<noteq> tp_name (ld_state loaded)
                  then (case provider_write deps (pd_ticks pd) accountId providerId (ProviderRenamed name (pd_now pd)) b of
                      (Inl err, b) \<Rightarrow> (Inl err, b) | (Inr e, b) \<Rightarrow> (Inr (), b))
                  else (Inr (), b))
             (\<lambda>u b. (Json 200 (JObj (provider_view deps pd (bk_registry b) (ld_state (provider_load (bk_rows b) accountId providerId))
                (length (delivery_users (bk_rows b) accountId providerId)))), b))))"

definition use_json :: "DeliveryAction \<Rightarrow> json" where
  "use_json a = JObj [(''actionId'', JStr (da_actionId a)), (''ipClientId'', JStr (da_ipClientId a)), (''group'', JStr (da_group a))]"

definition provider_deleted_reason :: CloseReason where
  "provider_deleted_reason = close_reason CodeUnauthenticated ''this agent address was deleted'' DrRevoked"

definition token_revoked_reason :: CloseReason where
  "token_revoked_reason = close_reason CodeUnauthenticated ''invalid or revoked token for this agent address'' DrRevoked"

text \<open>Ending sessions: each is told the reason; the sessions themselves are the subject of \<open>Sessions\<close>.\<close>

definition terminate :: "id list \<Rightarrow> CloseReason \<Rightarrow> backend \<Rightarrow> backend" where
  "terminate sessionIds reason b = b\<lparr>bk_terminated := bk_terminated b @ map (\<lambda>i. (i, reason)) sessionIds\<rparr>"

definition provider_delete :: "route_deps \<Rightarrow> provider_drawn \<Rightarrow> id \<Rightarrow> id \<Rightarrow> backend \<Rightarrow> response \<times> backend" where
  "provider_delete deps pd accountId providerId b = (case provider_loadActive (bk_rows b) accountId providerId of
       None \<Rightarrow> (not_found, b)
     | Some loaded \<Rightarrow> (let usedBy = delivery_users (bk_rows b) accountId providerId in
         if length usedBy > 0
         then (Json 409 (JObj [(''error'', JStr ''traefik_provider_in_use''), (''usedBy'', JArr (map use_json usedBy))]), b)
         else proceed (provider_write deps (pd_ticks pd) accountId providerId (ProviderDeleted (pd_now pd)) b)
           (\<lambda>e b. (NoBody 204, terminate (terminateByProvider (bk_registry b) providerId) provider_deleted_reason b))))"

definition token_issue :: "route_deps \<Rightarrow> provider_drawn \<Rightarrow> id \<Rightarrow> id \<Rightarrow> backend \<Rightarrow> response \<times> backend" where
  "token_issue deps pd accountId providerId b = (case provider_loadActive (bk_rows b) accountId providerId of
       None \<Rightarrow> (not_found, b)
     | Some loaded \<Rightarrow>
         if length (activeTokens (ld_state loaded)) \<ge> MAX_ACTIVE_TOKENS
         then (coded_error 409 ''token_limit_reached'' ''Revoke one of the two valid tokens first.'', b)
         else (let token = generateAgentToken (rt_crypto deps) (pd_random pd) in
           proceed (provider_write deps (pd_ticks pd) accountId providerId (token_issued pd token) b)
             (\<lambda>e b. (Json 201 (token_json (pd_tokenId pd) token), b))))"

definition token_revoke :: "route_deps \<Rightarrow> provider_drawn \<Rightarrow> id \<Rightarrow> id \<Rightarrow> id \<Rightarrow> backend \<Rightarrow> response \<times> backend" where
  "token_revoke deps pd accountId providerId tokenId b = (case provider_loadActive (bk_rows b) accountId providerId of
       None \<Rightarrow> (not_found, b)
     | Some loaded \<Rightarrow> (case find (\<lambda>t. tok_tokenId t = tokenId) (tp_tokens (ld_state loaded)) of
         None \<Rightarrow> (not_found, b)
       | Some token \<Rightarrow>
           proceed (if tok_revokedAt token = None
                then (case provider_write deps (pd_ticks pd) accountId providerId (TokenRevoked tokenId (pd_now pd)) b of
                    (Inl err, b) \<Rightarrow> (Inl err, b) | (Inr e, b) \<Rightarrow> (Inr (), b))
                else (Inr (), b))
             (\<lambda>u b. (NoBody 204, terminate (terminateByToken (bk_registry b) providerId tokenId) token_revoked_reason b))))"

datatype provider_request =
    CreateProvider provider_body
  | ListProviders
  | GetProvider id
  | PatchProvider id provider_body
  | DeleteProvider id
  | IssueToken id
  | RevokeToken id id

fun provider_route :: "route_deps \<Rightarrow> provider_drawn \<Rightarrow> id \<Rightarrow> provider_request \<Rightarrow> backend \<Rightarrow> response \<times> backend" where
  "provider_route deps pd acc (CreateProvider body) b = provider_create deps pd acc body b"
| "provider_route deps pd acc ListProviders b = provider_list deps pd acc b"
| "provider_route deps pd acc (GetProvider i) b = provider_get deps pd acc i b"
| "provider_route deps pd acc (PatchProvider i body) b = provider_patch deps pd acc i body b"
| "provider_route deps pd acc (DeleteProvider i) b = provider_delete deps pd acc i b"
| "provider_route deps pd acc (IssueToken i) b = token_issue deps pd acc i b"
| "provider_route deps pd acc (RevokeToken i t) b = token_revoke deps pd acc i t b"

section \<open>Writes nobody interferes with\<close>

lemma racing_alone:
  obtains (appended) t e where "provider_append_racing cfg tks (\<lambda>n rows. rows) rows acc p d = (Inr e, rows @ [e])"
      and "append_event cfg t rows (stream acc TRAEFIK_PROVIDER p)
        (Suc (length (readStream rows (stream acc TRAEFIK_PROVIDER p)))) (ProviderEv d) = Inr (e, rows @ [e])"
  | (conflict) x where "provider_append_racing cfg tks (\<lambda>n rows. rows) rows acc p d = (Inl x, rows)"
proof -
  have one: "(\<exists>e. provider_attempt cfg (tks n) (\<lambda>r. r) rows acc p d = (Inr e, rows @ [e])
        \<and> append_event cfg (tks n) rows (stream acc TRAEFIK_PROVIDER p)
          (Suc (length (readStream rows (stream acc TRAEFIK_PROVIDER p)))) (ProviderEv d) = Inr (e, rows @ [e]))
      \<or> (\<exists>x. provider_attempt cfg (tks n) (\<lambda>r. r) rows acc p d = (Inl x, rows) \<and> is_conflict x)" for n
  proof (cases "provider_attempt cfg (tks n) (\<lambda>r. r) rows acc p d")
    case (Pair r rows')
    show ?thesis
    proof (cases r)
      case (Inl x)
      with provider_attempt_Inl [OF Pair [unfolded Inl]] Pair show ?thesis by simp
    next
      case (Inr e)
      note ap = provider_attempt_Inr [OF Pair [unfolded Inr]]
      with append_event_Inr(1) [OF ap] Pair Inr show ?thesis by simp
    qed
  qed
  from one [of 0] show ?thesis
  proof (elim disjE exE conjE)
    fix e assume "provider_attempt cfg (tks 0) (\<lambda>r. r) rows acc p d = (Inr e, rows @ [e])"
      and "append_event cfg (tks 0) rows (stream acc TRAEFIK_PROVIDER p)
          (Suc (length (readStream rows (stream acc TRAEFIK_PROVIDER p)))) (ProviderEv d) = Inr (e, rows @ [e])"
    then show ?thesis by (intro appended [of e "tks 0"]) (simp_all add: provider_append_racing_def)
  next
    fix x assume first: "provider_attempt cfg (tks 0) (\<lambda>r. r) rows acc p d = (Inl x, rows)" "is_conflict x"
    from one [of 1] show ?thesis
    proof (elim disjE exE conjE)
      fix e assume "provider_attempt cfg (tks 1) (\<lambda>r. r) rows acc p d = (Inr e, rows @ [e])"
        and "append_event cfg (tks 1) rows (stream acc TRAEFIK_PROVIDER p)
          (Suc (length (readStream rows (stream acc TRAEFIK_PROVIDER p)))) (ProviderEv d) = Inr (e, rows @ [e])"
      with first show ?thesis by (intro appended [of e "tks 1"]) (simp_all add: provider_append_racing_def)
    next
      fix y assume "provider_attempt cfg (tks 1) (\<lambda>r. r) rows acc p d = (Inl y, rows)"
      with first show ?thesis by (intro conflict [of y]) (simp add: provider_append_racing_def)
    qed
  qed
qed

text \<open>The replayed state of a provider, and what one more event of it does.\<close>

abbreviation provider_state :: "event_store \<Rightarrow> id \<Rightarrow> id \<Rightarrow> TraefikProviderState" where
  "provider_state rows acc p \<equiv> ld_state (provider_load rows acc p)"

lemma provider_state_wrote:
  assumes "wf_store rows" and "wf_store rows'" and "wrote rows rows' (stream acc TRAEFIK_PROVIDER p) d"
  shows "\<exists>n. provider_state rows' acc p = traefik_provider_apply (provider_state rows acc p) n d"
    and "acc' \<noteq> acc \<or> q \<noteq> p \<Longrightarrow> provider_load rows' acc' q = provider_load rows acc' q"
    and "t \<noteq> TRAEFIK_PROVIDER \<Longrightarrow> readStream rows' (stream acc' t i) = readStream rows (stream acc' t i)"
proof -
  obtain e where e: "rows' = rows @ [e]" "in_stream (stream acc TRAEFIK_PROVIDER p) e" "ev_data e = d"
    and own: "readStream rows' (stream acc TRAEFIK_PROVIDER p) = readStream rows (stream acc TRAEFIK_PROVIDER p) @ [e]"
    and other: "\<And>k'. k' \<noteq> stream acc TRAEFIK_PROVIDER p \<Longrightarrow> readStream rows' k' = readStream rows k'"
    by (rule wrote_reads [OF assms]) blast
  show "\<exists>n. provider_state rows' acc p = traefik_provider_apply (provider_state rows acc p) n d"
    by (intro exI [of _ "ev_sequenceNumber e"]) (simp add: provider_load_simps own e(3) traefikProviderReducer_def)
  show "provider_load rows' acc' q = provider_load rows acc' q" if "acc' \<noteq> acc \<or> q \<noteq> p"
  proof -
    have "stream acc' TRAEFIK_PROVIDER q \<noteq> stream acc TRAEFIK_PROVIDER p" using that by simp
    from other [OF this] show ?thesis by (simp add: provider_load_def loadAggregate_def Let_def)
  qed
  show "readStream rows' (stream acc' t i) = readStream rows (stream acc' t i)" if "t \<noteq> TRAEFIK_PROVIDER"
    using that by (intro other) simp
qed

lemma provider_write_cases:
  assumes "wf_store (bk_rows b)" and "undisturbed deps"
  obtains (appended) e b1 where "provider_write deps tks acc p d b = (Inr e, b1)" and "b1 = b\<lparr>bk_rows := bk_rows b @ [e]\<rparr>"
      and "wf_store (bk_rows b1)" and "wrote (bk_rows b) (bk_rows b1) (stream acc TRAEFIK_PROVIDER p) (ProviderEv d)"
  | (conflict) x where "provider_write deps tks acc p d b = (Inl x, b)"
proof -
  have writes: "provider_write deps tks acc p d b = (case provider_append_racing (rt_config deps) tks (\<lambda>n rows. rows) (bk_rows b) acc p d of
      (r, rows) \<Rightarrow> (r, b\<lparr>bk_rows := rows\<rparr>))"
    using assms(2) by (simp add: provider_write_def undisturbed_def)
  show ?thesis
  proof (cases rule: racing_alone [of "rt_config deps" tks "bk_rows b" acc p d])
    case (appended t e)
    note next_ev = append_event_next [OF assms(1) refl appended(2)] and new = append_event_Inr [OF appended(2)]
    show ?thesis
      by (rule that(1) [of e "b\<lparr>bk_rows := bk_rows b @ [e]\<rparr>"]) (use appended next_ev new in \<open>simp_all add: writes wrote_def\<close>)
  next
    case (conflict x)
    then show ?thesis by (intro that(2) [of x]) (simp add: writes)
  qed
qed

lemma provider_written:
  assumes "wf_store (bk_rows b)" and "undisturbed deps" and "provider_write deps tks acc p d b = (Inr e, b1)"
  shows "b1 = b\<lparr>bk_rows := bk_rows b @ [e]\<rparr> \<and> wf_store (bk_rows b1)
    \<and> wrote (bk_rows b) (bk_rows b1) (stream acc TRAEFIK_PROVIDER p) (ProviderEv d)"
  using assms(1,2)
proof (cases rule: provider_write_cases [where deps = deps and b = b and tks = tks and acc = acc and p = p and d = d])
  case (appended e' b2)
  then have "b2 = b1" "e' = e" using assms(3) by simp_all
  with appended show ?thesis by simp
qed (use assms(3) in simp)

section \<open>What the account's providers keep\<close>

definition provider_live :: "TraefikProviderState \<Rightarrow> bool" where
  "provider_live st = (tp_status st = TpActive \<and> truthy (tp_providerId st))"

definition same_name :: "TraefikProviderState \<Rightarrow> TraefikProviderState \<Rightarrow> bool" where
  "same_name st st' = (name_key (tp_name st) = name_key (tp_name st'))"

definition provider_good :: "id \<Rightarrow> TraefikProviderState \<Rightarrow> bool" where
  "provider_good p st = (tp_providerId st \<in> {None, Some p} \<and> length (activeTokens st) \<le> MAX_ACTIVE_TOKENS)"

definition providers_ok :: "id \<Rightarrow> event_store \<Rightarrow> bool" where
  "providers_ok acc rows = (wf_store rows \<and> (\<forall>p. provider_good p (provider_state rows acc p))
     \<and> (\<forall>p q. provider_live (provider_state rows acc p) \<and> provider_live (provider_state rows acc q)
          \<and> same_name (provider_state rows acc p) (provider_state rows acc q) \<longrightarrow> p = q))"

lemma providers_ok_step:
  assumes ok: "providers_ok acc rows" and "wf_store rows'" and "wrote rows rows' (stream acc TRAEFIK_PROVIDER p) d"
    and good: "\<And>n. provider_good p (traefik_provider_apply (provider_state rows acc p) n d)"
    and names: "\<And>n q. q \<noteq> p \<Longrightarrow> provider_live (provider_state rows acc q) \<Longrightarrow>
      provider_live (traefik_provider_apply (provider_state rows acc p) n d) \<Longrightarrow>
      \<not> same_name (provider_state rows acc q) (traefik_provider_apply (provider_state rows acc p) n d)"
  shows "providers_ok acc rows'"
proof -
  have wf: "wf_store rows" using ok by (simp add: providers_ok_def)
  obtain n where now: "provider_state rows' acc p = traefik_provider_apply (provider_state rows acc p) n d"
    using provider_state_wrote(1) [OF wf assms(2,3)] by blast
  have other: "provider_state rows' acc q = provider_state rows acc q" if "q \<noteq> p" for q
    using provider_state_wrote(2) [OF wf assms(2,3)] that by simp
  have "provider_good q (provider_state rows' acc q)" for q
    using good [of n] ok now other [of q] by (cases "q = p") (auto simp: providers_ok_def)
  moreover have "q = r" if "provider_live (provider_state rows' acc q)" "provider_live (provider_state rows' acc r)"
    "same_name (provider_state rows' acc q) (provider_state rows' acc r)" for q r
  proof (rule ccontr)
    assume "q \<noteq> r"
    consider "q = p" | "r = p" | "q \<noteq> p" "r \<noteq> p" by blast
    then show False
    proof cases
      case 1
      with that \<open>q \<noteq> r\<close> names [of r n] show False by (auto simp: now other same_name_def)
    next
      case 2
      with that \<open>q \<noteq> r\<close> names [of q n] show False by (auto simp: now other same_name_def)
    next
      case 3
      with that ok \<open>q \<noteq> r\<close> show False by (auto simp: providers_ok_def other)
    qed
  qed
  ultimately show ?thesis using assms(2) unfolding providers_ok_def by blast
qed

text \<open>An event that keeps id, name and status of its provider only has to keep the number of tokens.\<close>

lemma providers_ok_same_name:
  assumes ok: "providers_ok acc rows" and "wf_store rows'" and "wrote rows rows' (stream acc TRAEFIK_PROVIDER p) d"
    and same: "\<And>st n. tp_providerId (traefik_provider_apply st n d) = tp_providerId st \<and> tp_name (traefik_provider_apply st n d) = tp_name st
      \<and> (tp_status (traefik_provider_apply st n d) = TpActive \<longrightarrow> tp_status st = TpActive)"
    and tokens: "\<And>n. length (activeTokens (traefik_provider_apply (provider_state rows acc p) n d)) \<le> MAX_ACTIVE_TOKENS"
  shows "providers_ok acc rows'"
proof (rule providers_ok_step [OF ok assms(2,3)])
  show "provider_good p (traefik_provider_apply (provider_state rows acc p) n d)" for n
    using ok same [of "provider_state rows acc p" n] tokens [of n] by (auto simp: providers_ok_def provider_good_def)
  show "\<not> same_name (provider_state rows acc q) (traefik_provider_apply (provider_state rows acc p) n d)"
    if "q \<noteq> p" "provider_live (provider_state rows acc q)" "provider_live (traefik_provider_apply (provider_state rows acc p) n d)" for n q
  proof -
    have "provider_live (provider_state rows acc p)" "\<not> same_name (provider_state rows acc q) (provider_state rows acc p)"
      using that ok same [of "provider_state rows acc p" n] by (auto simp: providers_ok_def provider_live_def)
    then show ?thesis using same [of "provider_state rows acc p" n] by (simp add: same_name_def)
  qed
qed

text \<open>The name guards look at every live provider of the account.\<close>

lemma set_provider_listActive:
  "set (provider_listActive rows acc) = {provider_load rows acc p |p. provider_live (provider_state rows acc p)}"
proof -
  have "readStream rows (stream acc TRAEFIK_PROVIDER p) \<noteq> []" if "provider_live (provider_state rows acc p)" for p
    using that by (auto simp: provider_live_def provider_load_simps initialTraefikProviderState_def)
  then show ?thesis
    by (auto simp: provider_listActive_def set_listAggregateIds provider_live_def)
qed

lemma name_free:
  assumes "\<not> name_taken ps name" and "js_trim name = name" and "l \<in> set ps"
  shows "name_key (tp_name (ld_state l)) \<noteq> name_key name"
  using assms by (auto simp: name_taken_def list_ex_iff name_key_def)

lemma body_name_trimmed [simp]: "js_trim (body_name v) = body_name v"
proof (cases "\<exists>raw. v = Some (JStr raw)")
  case False
  then have "body_name v = []" by (auto simp: body_name_def split: option.split json.split)
  then show ?thesis by (simp add: js_trim_def)
qed (auto simp: body_name_def)

lemma create_keeps:
  assumes ok: "providers_ok acc (bk_rows b)" and calm: "undisturbed deps"
    and fresh: "readStream (bk_rows b) (stream acc TRAEFIK_PROVIDER (pd_id pd)) = []"
  shows "providers_ok acc (bk_rows (snd (provider_create deps pd acc body b)))"
proof (cases "bk_rows (snd (provider_create deps pd acc body b)) = bk_rows b")
  case False
  let ?name = "body_name (pb_name body)" and ?p = "pd_id pd"
  let ?d = "ProviderCreated \<lparr>tpc_providerId = ?p, tpc_accountId = acc, tpc_name = ?name, tpc_connectionMode = AgentInitiated,
    tpc_createdAt = pd_now pd\<rparr>"
  let ?token = "token_issued pd (generateAgentToken (rt_crypto deps) (pd_random pd))"
  from ok have wf: "wf_store (bk_rows b)" by (simp add: providers_ok_def)
  have init: "provider_state (bk_rows b) acc ?p = initialTraefikProviderState" by (simp add: provider_load_simps fresh)
  from False have free: "\<not> name_taken (provider_listActive (bk_rows b) acc) ?name"
    unfolding provider_create_def Let_def by (auto split: if_splits)
  from False have run: "bk_rows (snd (provider_create deps pd acc body b)) =
      bk_rows (snd (proceed (provider_write deps (pd_ticks pd) acc ?p ?d b)
        (\<lambda>e b. (undefined, snd (provider_write deps (pd_ticks2 pd) acc ?p ?token b)))))"
    unfolding provider_create_def Let_def proceed_def by (auto split: if_splits sum.splits prod.splits)
  from wf calm show ?thesis
  proof (cases rule: provider_write_cases [where deps = deps and b = b and tks = "pd_ticks pd" and acc = acc and p = ?p and d = ?d])
    case (conflict x)
    with False run show ?thesis by simp
  next
    case (appended e b1)
    have ok1: "providers_ok acc (bk_rows b1)"
    proof (rule providers_ok_step [OF ok appended(3,4)])
      show "provider_good ?p (traefik_provider_apply (provider_state (bk_rows b) acc ?p) n (ProviderEv ?d))" for n
        by (simp add: init provider_good_def activeTokens_def initialTraefikProviderState_def)
      show "\<not> same_name (provider_state (bk_rows b) acc q) (traefik_provider_apply (provider_state (bk_rows b) acc ?p) n (ProviderEv ?d))"
        if "provider_live (provider_state (bk_rows b) acc q)" for n q
      proof -
        have "provider_load (bk_rows b) acc q \<in> set (provider_listActive (bk_rows b) acc)"
          using that by (auto simp: set_provider_listActive)
        from name_free [OF free body_name_trimmed this] show ?thesis by (simp add: same_name_def)
      qed
    qed
    obtain n where "provider_state (bk_rows b1) acc ?p = traefik_provider_apply initialTraefikProviderState n (ProviderEv ?d)"
      using provider_state_wrote(1) [OF wf appended(3,4)] unfolding init by blast
    then have none: "activeTokens (provider_state (bk_rows b1) acc ?p) = []"
      by (simp add: activeTokens_def initialTraefikProviderState_def)
    have wf1: "wf_store (bk_rows b1)" by (rule appended(3))
    from wf1 calm show ?thesis
    proof (cases rule: provider_write_cases [where deps = deps and b = b1 and tks = "pd_ticks2 pd" and acc = acc and p = ?p and d = ?token])
      case (conflict x)
      with ok1 run appended(1) show ?thesis by simp
    next
      case second: (appended e2 b2)
      have "providers_ok acc (bk_rows b2)"
        by (rule providers_ok_same_name [OF ok1 second(3,4)])
          (simp_all add: token_issued_def activeTokens_snoc none MAX_ACTIVE_TOKENS_def del: traefik_provider_apply.simps,
           simp_all)
      with run appended(1) second(1) show ?thesis by simp
    qed
  qed
qed (use assms in simp)

lemma write_keeps:
  assumes ok: "providers_ok acc (bk_rows b)" and calm: "undisturbed deps"
    and step: "\<And>e b1. b1 = b\<lparr>bk_rows := bk_rows b @ [e]\<rparr> \<Longrightarrow> wf_store (bk_rows b1) \<Longrightarrow>
      wrote (bk_rows b) (bk_rows b1) (stream acc TRAEFIK_PROVIDER p) (ProviderEv d) \<Longrightarrow> providers_ok acc (bk_rows b1)"
  shows "providers_ok acc (bk_rows (snd (provider_write deps tks acc p d b)))"
proof -
  from ok have "wf_store (bk_rows b)" by (simp add: providers_ok_def)
  from this calm show ?thesis
  proof (cases rule: provider_write_cases [where deps = deps and b = b and tks = tks and acc = acc and p = p and d = d])
    case (appended e b1)
    from step [OF appended(2-4)] appended(1) show ?thesis by simp
  qed (simp add: ok)
qed

lemma patch_keeps:
  assumes ok: "providers_ok acc (bk_rows b)" and calm: "undisturbed deps"
  shows "providers_ok acc (bk_rows (snd (provider_patch deps pd acc p body b)))"
proof (cases "bk_rows (snd (provider_patch deps pd acc p body b)) = bk_rows b")
  case False
  let ?name = "body_name (pb_name body)"
  from False have free: "\<not> name_taken (filter (\<lambda>l. tp_providerId (ld_state l) \<noteq> Some p) (provider_listActive (bk_rows b) acc)) ?name"
    unfolding provider_patch_def Let_def by (auto split: option.splits if_splits)
  from False have run: "bk_rows (snd (provider_patch deps pd acc p body b)) =
      bk_rows (snd (provider_write deps (pd_ticks pd) acc p (ProviderRenamed ?name (pd_now pd)) b))"
    unfolding provider_patch_def Let_def proceed_def by (auto split: if_splits sum.splits prod.splits option.splits)
  have "providers_ok acc (bk_rows (snd (provider_write deps (pd_ticks pd) acc p (ProviderRenamed ?name (pd_now pd)) b)))"
  proof (rule write_keeps [OF ok calm])
    fix e b1 assume "wf_store (bk_rows b1)"
      and "wrote (bk_rows b) (bk_rows b1) (stream acc TRAEFIK_PROVIDER p) (ProviderEv (ProviderRenamed ?name (pd_now pd)))"
    from ok this show "providers_ok acc (bk_rows b1)"
    proof (rule providers_ok_step)
      show "provider_good p (traefik_provider_apply (provider_state (bk_rows b) acc p) n (ProviderEv (ProviderRenamed ?name (pd_now pd))))" for n
        using ok by (simp add: providers_ok_def provider_good_def activeTokens_def)
      show "\<not> same_name (provider_state (bk_rows b) acc q)
          (traefik_provider_apply (provider_state (bk_rows b) acc p) n (ProviderEv (ProviderRenamed ?name (pd_now pd))))"
        if "q \<noteq> p" "provider_live (provider_state (bk_rows b) acc q)" for n q
      proof -
        from ok have "provider_good q (provider_state (bk_rows b) acc q)" by (simp add: providers_ok_def)
        with that(1) have "tp_providerId (provider_state (bk_rows b) acc q) \<noteq> Some p" by (auto simp: provider_good_def)
        with that have "provider_load (bk_rows b) acc q
            \<in> set (filter (\<lambda>l. tp_providerId (ld_state l) \<noteq> Some p) (provider_listActive (bk_rows b) acc))"
          by (auto simp: set_provider_listActive)
        from name_free [OF free body_name_trimmed this] show ?thesis by (simp add: same_name_def)
      qed
    qed
  qed
  with run show ?thesis by simp
qed (use ok in simp)

lemma delete_keeps:
  assumes ok: "providers_ok acc (bk_rows b)" and calm: "undisturbed deps"
  shows "providers_ok acc (bk_rows (snd (provider_delete deps pd acc p b)))"
proof (cases "bk_rows (snd (provider_delete deps pd acc p b)) = bk_rows b")
  case False
  then have run: "bk_rows (snd (provider_delete deps pd acc p b)) =
      bk_rows (snd (provider_write deps (pd_ticks pd) acc p (ProviderDeleted (pd_now pd)) b))"
    unfolding provider_delete_def Let_def proceed_def terminate_def by (auto split: if_splits sum.splits prod.splits option.splits)
  have "providers_ok acc (bk_rows (snd (provider_write deps (pd_ticks pd) acc p (ProviderDeleted (pd_now pd)) b)))"
    by (rule write_keeps [OF ok calm], rule providers_ok_same_name [OF ok], assumption+)
      (use ok in \<open>simp_all add: providers_ok_def provider_good_def activeTokens_def\<close>)
  with run show ?thesis by simp
qed (use ok in simp)

lemma issue_keeps:
  assumes ok: "providers_ok acc (bk_rows b)" and calm: "undisturbed deps"
  shows "providers_ok acc (bk_rows (snd (token_issue deps pd acc p b)))"
proof (cases "bk_rows (snd (token_issue deps pd acc p b)) = bk_rows b")
  case False
  let ?d = "token_issued pd (generateAgentToken (rt_crypto deps) (pd_random pd))"
  from False have room: "length (activeTokens (provider_state (bk_rows b) acc p)) < MAX_ACTIVE_TOKENS"
    by (auto simp: token_issue_def provider_loadActive_Some split: option.splits if_splits)
  from False have run: "bk_rows (snd (token_issue deps pd acc p b)) = bk_rows (snd (provider_write deps (pd_ticks pd) acc p ?d b))"
    unfolding token_issue_def Let_def proceed_def by (auto split: if_splits sum.splits prod.splits option.splits)
  have few: "length (activeTokens (traefik_provider_apply (provider_state (bk_rows b) acc p) n (ProviderEv ?d))) \<le> MAX_ACTIVE_TOKENS" for n
    using room unfolding token_issued_def activeTokens_snoc by simp
  have "providers_ok acc (bk_rows (snd (provider_write deps (pd_ticks pd) acc p ?d b)))"
    by (rule write_keeps [OF ok calm], rule providers_ok_same_name [OF ok], assumption+, simp add: token_issued_def, rule few)
  with run show ?thesis by simp
qed (use ok in simp)

lemma revoke_keeps:
  assumes ok: "providers_ok acc (bk_rows b)" and calm: "undisturbed deps"
  shows "providers_ok acc (bk_rows (snd (token_revoke deps pd acc p t b)))"
proof (cases "bk_rows (snd (token_revoke deps pd acc p t b)) = bk_rows b")
  case False
  let ?d = "TokenRevoked t (pd_now pd)"
  from False have run: "bk_rows (snd (token_revoke deps pd acc p t b)) = bk_rows (snd (provider_write deps (pd_ticks pd) acc p ?d b))"
    unfolding token_revoke_def Let_def proceed_def terminate_def by (auto split: if_splits sum.splits prod.splits option.splits)
  have few: "length (activeTokens (traefik_provider_apply (provider_state (bk_rows b) acc p) n (ProviderEv ?d))) \<le> MAX_ACTIVE_TOKENS" for n
  proof (rule activeTokens_bounded)
    show "length (activeTokens (provider_state (bk_rows b) acc p)) \<le> MAX_ACTIVE_TOKENS"
      using ok by (simp add: providers_ok_def provider_good_def)
  qed simp
  have "providers_ok acc (bk_rows (snd (provider_write deps (pd_ticks pd) acc p ?d b)))"
    by (rule write_keeps [OF ok calm], rule providers_ok_same_name [OF ok], assumption+, simp, rule few)
  with run show ?thesis by simp
qed (use ok in simp)

text \<open>Ids are fresh: a creation draws one whose stream is empty.\<close>

fun fresh_provider :: "provider_drawn \<times> provider_request \<Rightarrow> id \<Rightarrow> backend \<Rightarrow> bool" where
  "fresh_provider (pd, CreateProvider body) acc b = (readStream (bk_rows b) (stream acc TRAEFIK_PROVIDER (pd_id pd)) = [])"
| "fresh_provider _ acc b = True"

definition calm :: "route_deps \<Rightarrow> route_deps" where
  "calm deps = deps\<lparr>rt_between := (\<lambda>rows. rows)\<rparr>"

lemma calm_undisturbed [simp]: "undisturbed (calm deps)"
  by (simp add: calm_def undisturbed_def)

interpretation prov: request_handler "\<lambda>(pd, req) b. provider_route (calm deps) pd acc req b"
  "\<lambda>r b. fresh_provider r acc b" "\<lambda>b. providers_ok acc (bk_rows b)" for deps acc
proof unfold_locales
  fix b r assume ok: "providers_ok acc (bk_rows b)" and fresh: "fresh_provider r acc b"
  obtain pd req where r: "r = (pd, req)" by fastforce
  show "providers_ok acc (bk_rows (snd ((case r of (pd, req) \<Rightarrow> \<lambda>b. provider_route (calm deps) pd acc req b) b)))"
    using fresh unfolding r
    by (cases req) (simp_all add: ok create_keeps patch_keeps delete_keeps issue_keeps revoke_keeps provider_list_def
        provider_get_def Let_def split: option.split)
qed

text \<open>A write nobody interferes with goes through, unless its event id is taken.\<close>

lemma provider_write_alone:
  assumes wf: "wf_store (bk_rows b)" and calm: "undisturbed deps" and fresh: "tk_id (tks 0) \<notin> ev_id ` set (bk_rows b)"
    and mine: "\<forall>r \<in> set (aggregate_rows (bk_rows b) TRAEFIK_PROVIDER p). ev_accountId r = acc"
  obtains e where "provider_write deps tks acc p d b = (Inr e, b\<lparr>bk_rows := bk_rows b @ [e]\<rparr>)"
    and "ev_id e = tk_id (tks 0)" and "ev_accountId e = acc"
proof -
  obtain e where e: "append_event (rt_config deps) (tks 0) (bk_rows b) (stream acc TRAEFIK_PROVIDER p)
      (Suc (length (readStream (bk_rows b) (stream acc TRAEFIK_PROVIDER p)))) (ProviderEv d) = Inr (e, bk_rows b @ [e])"
    by (rule append_alone [OF wf fresh mine])
  then have "provider_attempt (rt_config deps) (tks 0) (rt_between deps) (bk_rows b) acc p d = (Inr e, bk_rows b @ [e])"
    using calm by (simp add: provider_attempt_def undisturbed_def provider_load_simps)
  then show ?thesis
    using append_event_Inr(2,5) [OF e] by (intro that [of e]) (simp_all add: provider_write_def provider_append_racing_def in_stream_def)
qed

section \<open>Sample values\<close>

definition sample_pd :: provider_drawn where
  "sample_pd = \<lparr>pd_id = ''p'', pd_tokenId = ''t1'', pd_random = ''r'', pd_ticks = (\<lambda>n. \<lparr>tk_id = ''x1'', tk_now = n\<rparr>),
     pd_ticks2 = (\<lambda>n. \<lparr>tk_id = ''x2'', tk_now = n\<rparr>), pd_now = 7, pd_startedAt = 0\<rparr>"

definition agent_routes :: route_deps where
  "agent_routes = sample_routes\<lparr>rt_config := sample_config\<lparr>cfg_agentPublicUrl := ''https://a''\<rparr>\<rparr>"

lemma agent_routes_simps [simp]:
  "undisturbed agent_routes" "rt_between agent_routes rows = rows" "cfg_agentPublicUrl (rt_config agent_routes) = ''https://a''"
  by (simp_all add: agent_routes_def sample_routes_def undisturbed_def)

lemma sample_token_wf: "wf_store sample_token_rows"
  by (auto simp: wf_store_def aggregate_rows_def sample_token_rows_def sample_provider_rows_def Let_def)

lemma sample_token_live:
  "provider_loadActive sample_token_rows ''acc'' ''p'' = Some (provider_load sample_token_rows ''acc'' ''p'')"
  "delivery_users sample_token_rows ''acc'' ''p'' = []"
proof -
  show "provider_loadActive sample_token_rows ''acc'' ''p'' = Some (provider_load sample_token_rows ''acc'' ''p'')"
    unfolding provider_loadActive_Some sample_token_state by (simp add: initialTraefikProviderState_def)
  have "listAggregateIds sample_token_rows ''acc'' ACTION = []"
    by (simp add: listAggregateIds_def sample_token_rows_def sample_provider_rows_def)
  then show "delivery_users sample_token_rows ''acc'' ''p'' = []" by (simp add: delivery_users_def listDeliveryActions_def)
qed

lemma sample_token_write:
  obtains e where "provider_write sample_routes (pd_ticks sample_pd) ''acc'' ''p'' d (sample_backend sample_token_rows) =
    (Inr e, (sample_backend sample_token_rows)\<lparr>bk_rows := sample_token_rows @ [e]\<rparr>)"
proof -
  have "tk_id (pd_ticks sample_pd 0) \<notin> ev_id ` set (bk_rows (sample_backend sample_token_rows))"
    by (simp add: sample_pd_def sample_token_rows_def sample_provider_rows_def)
  moreover have "\<forall>r \<in> set (aggregate_rows (bk_rows (sample_backend sample_token_rows)) TRAEFIK_PROVIDER ''p''). ev_accountId r = ''acc''"
    by (simp add: aggregate_rows_def sample_token_rows_def sample_provider_rows_def)
  moreover have "wf_store (bk_rows (sample_backend sample_token_rows))" by (simp add: sample_token_wf)
  ultimately obtain e where "provider_write sample_routes (pd_ticks sample_pd) ''acc'' ''p'' d (sample_backend sample_token_rows) =
    (Inr e, (sample_backend sample_token_rows)\<lparr>bk_rows := bk_rows (sample_backend sample_token_rows) @ [e]\<rparr>)"
    using provider_write_alone [where b = "sample_backend sample_token_rows" and deps = sample_routes] by (metis sample_routes_simps(1))
  then show ?thesis by (intro that [of e]) simp
qed

text \<open>A creation on the empty table goes through.\<close>

lemma sample_creation:
  obtains reply b' where "provider_create agent_routes sample_pd ''acc'' \<lparr>pb_name = Some (JStr ''n''), pb_connectionMode = None\<rparr> (sample_backend [])
    = (Json 201 reply, b')"
proof -
  have none: "provider_listActive [] ''acc'' = []" by (simp add: provider_listActive_def listAggregateIds_def)
  have name: "\<not> bad_name (body_name (Some (JStr ''n'')))" by (simp add: bad_name_def body_name_def js_trim_def is_space_def NAME_MAX_def)
  have ids: "pd_id sample_pd = ''p''" "tk_id (pd_ticks sample_pd 0) = ''x1''" "tk_id (pd_ticks2 sample_pd 0) = ''x2''"
    by (simp_all add: sample_pd_def)
  have two: "\<exists>e1 e2. provider_write agent_routes (pd_ticks sample_pd) ''acc'' ''p'' d1 (sample_backend []) = (Inr e1, (sample_backend [])\<lparr>bk_rows := [e1]\<rparr>)
      \<and> provider_write agent_routes (pd_ticks2 sample_pd) ''acc'' ''p'' d2 ((sample_backend [])\<lparr>bk_rows := [e1]\<rparr>)
        = (Inr e2, (sample_backend [])\<lparr>bk_rows := [e1, e2]\<rparr>)" for d1 d2
  proof -
    have wf0: "wf_store (bk_rows (sample_backend []))" by (simp add: wf_store_Nil)
    obtain e1 where one: "provider_write agent_routes (pd_ticks sample_pd) ''acc'' ''p'' d1 (sample_backend []) =
        (Inr e1, (sample_backend [])\<lparr>bk_rows := bk_rows (sample_backend []) @ [e1]\<rparr>)" and e1: "ev_id e1 = ''x1''" "ev_accountId e1 = ''acc''"
      by (rule provider_write_alone [OF wf0, of agent_routes "pd_ticks sample_pd" "''p''" "''acc''" d1]) (simp_all add: aggregate_rows_def ids)
    let ?b1 = "(sample_backend [])\<lparr>bk_rows := bk_rows (sample_backend []) @ [e1]\<rparr>"
    have wf1: "wf_store (bk_rows ?b1)" using provider_written [OF wf0 _ one] by simp
    obtain e2 where "provider_write agent_routes (pd_ticks2 sample_pd) ''acc'' ''p'' d2 ?b1 = (Inr e2, ?b1\<lparr>bk_rows := bk_rows ?b1 @ [e2]\<rparr>)"
      by (rule provider_write_alone [OF wf1, of agent_routes "pd_ticks2 sample_pd" "''p''" "''acc''" d2]) (simp_all add: aggregate_rows_def ids e1)
    with one show ?thesis by auto
  qed
  have chain: "\<exists>b'. proceed (provider_write agent_routes (pd_ticks sample_pd) ''acc'' ''p'' d1 (sample_backend []))
      (\<lambda>e b. proceed (provider_write agent_routes (pd_ticks2 sample_pd) ''acc'' ''p'' d2 b) (\<lambda>e b. (r, b))) = (r, b')" for d1 d2 r
    using two [of d1 d2] by (elim exE conjE) simp
  have "\<exists>reply b'. provider_create agent_routes sample_pd ''acc'' \<lparr>pb_name = Some (JStr ''n''), pb_connectionMode = None\<rparr> (sample_backend [])
      = (Json 201 reply, b')"
    unfolding provider_create_def Let_def
    by (simp add: name none name_taken_def ids del: proceed_simps) (rule exI, rule chain)
  then show ?thesis using that by blast
qed

section \<open>Properties\<close>

text \<open>C17. Over any sequence of provider requests of an account that do not race each other, with fresh ids, no provider
  ever has more than two valid tokens, and no two live providers have the same name, ignoring case and
  surrounding space.\<close>
theorem provider_limits_kept:
  assumes "providers_ok acc (bk_rows b)"
    and "admitted (\<lambda>(pd, req) b. provider_route (calm deps) pd acc req b) (\<lambda>r b. fresh_provider r acc b) b reqs"
    and "serve (\<lambda>(pd, req). provider_route (calm deps) pd acc req) b reqs = (resps, b')"
  shows "(\<forall>p. length (activeTokens (provider_state (bk_rows b') acc p)) \<le> 2)
    \<and> inj_on (\<lambda>l. name_key (tp_name (ld_state l))) (set (provider_listActive (bk_rows b') acc))"
proof -
  have ok: "providers_ok acc (bk_rows b')" using prov.serve_inv [OF assms(1,2)] assms(3) by simp
  then have "length (activeTokens (provider_state (bk_rows b') acc p)) \<le> 2" for p
    by (simp add: providers_ok_def provider_good_def MAX_ACTIVE_TOKENS_def)
  moreover from ok have "inj_on (\<lambda>l. name_key (tp_name (ld_state l))) (set (provider_listActive (bk_rows b') acc))"
    by (intro inj_onI) (auto simp: set_provider_listActive providers_ok_def same_name_def)
  ultimately show ?thesis by blast
qed

lemma provider_limits_kept_witness:
  "\<exists>resps b'. serve (\<lambda>(pd, req). provider_route (calm sample_routes) pd ''acc'' req) (sample_backend [])
      [(sample_pd, CreateProvider \<lparr>pb_name = Some (JStr ''n''), pb_connectionMode = None\<rparr>), (sample_pd, IssueToken ''p'')] = (resps, b')
    \<and> length (activeTokens (provider_state (bk_rows b') ''acc'' ''p'')) \<le> 2"
proof -
  let ?reqs = "[(sample_pd, CreateProvider \<lparr>pb_name = Some (JStr ''n''), pb_connectionMode = None\<rparr>), (sample_pd, IssueToken ''p'')]"
  have "provider_state [] ''acc'' q = initialTraefikProviderState" for q by (simp add: provider_load_simps readStream_def)
  then have "providers_ok ''acc'' (bk_rows (sample_backend []))"
    by (simp add: providers_ok_def wf_store_Nil provider_good_def provider_live_def activeTokens_def initialTraefikProviderState_def)
  moreover have "admitted (\<lambda>(pd, req) b. provider_route (calm sample_routes) pd ''acc'' req b) (\<lambda>r b. fresh_provider r ''acc'' b)
      (sample_backend []) ?reqs"
    by (simp add: readStream_def)
  moreover obtain resps b' where "serve (\<lambda>(pd, req). provider_route (calm sample_routes) pd ''acc'' req) (sample_backend []) ?reqs = (resps, b')"
    by fastforce
  ultimately show ?thesis using provider_limits_kept [of "''acc''" "sample_backend []" sample_routes ?reqs resps b'] by blast
qed

text \<open>A provider created and given a token: what its stream and the global lookup then say.\<close>

lemma trimmed_rev: "js_trim s = s \<Longrightarrow> dropWhile is_space (rev s) = rev s \<and> dropWhile is_space s = s"
proof -
  assume trimmed: "js_trim s = s"
  have "length (js_trim s) \<le> length (dropWhile is_space s)"
    unfolding js_trim_def length_rev using length_dropWhile_le [of is_space "rev (dropWhile is_space s)"] by simp
  moreover have "s = takeWhile is_space s @ dropWhile is_space s" by simp
  ultimately have "dropWhile is_space s = s" using trimmed by (metis append_eq_append_conv append_self_conv2 le_antisym length_dropWhile_le)
  with trimmed show ?thesis unfolding js_trim_def by (metis rev_rev_ident)
qed

lemma dropWhile_fixed: "dropWhile P xs = xs \<Longrightarrow> xs \<noteq> [] \<Longrightarrow> dropWhile P (xs @ ys) = xs @ ys"
proof (cases xs)
  case (Cons x zs)
  assume "dropWhile P xs = xs"
  then have "\<not> P x" using hd_dropWhile [of P xs] Cons by fastforce
  with Cons show ?thesis by simp
qed simp

lemma trim_token: "js_trim r = r \<Longrightarrow> js_trim (TOKEN_PREFIX @ r) = TOKEN_PREFIX @ r"
proof -
  assume "js_trim r = r"
  from trimmed_rev [OF this] have "dropWhile is_space (rev r) = rev r" by simp
  then have "dropWhile is_space (rev r @ rev TOKEN_PREFIX) = rev r @ rev TOKEN_PREFIX"
    by (cases "rev r = []") (simp_all add: TOKEN_PREFIX_def is_space_def dropWhile_fixed)
  moreover have "dropWhile is_space (TOKEN_PREFIX @ r) = TOKEN_PREFIX @ r" by (simp add: TOKEN_PREFIX_def is_space_def)
  ultimately show ?thesis by (simp add: js_trim_def)
qed

lemma presented_bearer: "js_trim r = r \<Longrightarrow> presented_token (''Bearer '' @ TOKEN_PREFIX @ r) = TOKEN_PREFIX @ r"
proof -
  assume trimmed: "js_trim r = r"
  have "js_lower (''Bearer '' @ s) = ''bearer '' @ js_lower s" for s
  proof -
    have "map lower_char ''Bearer '' = ''bearer ''" by code_simp
    then show ?thesis unfolding js_lower_def map_append by simp
  qed
  then show ?thesis using trim_token [OF trimmed] by (simp add: presented_token_def del: append_Cons)
qed

lemma find_append_None: "find P xs = None \<Longrightarrow> find P (xs @ ys) = find P ys"
  by (induction xs) (auto split: if_splits)

lemma created_provider:
  assumes wf: "wf_store (bk_rows b)" and calm: "undisturbed deps" and fresh: "aggregate_rows (bk_rows b) TRAEFIK_PROVIDER (pd_id pd) = []"
    and run: "provider_create deps pd acc body b = (Json 201 reply, b')"
  defines "token \<equiv> generateAgentToken (rt_crypto deps) (pd_random pd)"
  shows "activeTokens (provider_state (bk_rows b') acc (pd_id pd)) = [\<lparr>tok_tokenId = pd_tokenId pd, tok_hash = gt_hash token,
      tok_last4 = gt_last4 token, tok_issuedAt = pd_now pd, tok_revokedAt = None\<rparr>]"
    and "tp_providerId (provider_state (bk_rows b') acc (pd_id pd)) = Some (pd_id pd)"
    and "tp_accountId (provider_state (bk_rows b') acc (pd_id pd)) = Some acc"
    and "tp_status (provider_state (bk_rows b') acc (pd_id pd)) = TpActive"
    and "provider_resolveAccountId (bk_rows b') (pd_id pd) = Some acc"
    and "json_prop reply ''token'' = Some (token_json (pd_tokenId pd) token)"
proof -
  let ?name = "body_name (pb_name body)" and ?p = "pd_id pd"
  let ?k = "stream acc TRAEFIK_PROVIDER ?p"
  let ?d = "ProviderCreated \<lparr>tpc_providerId = ?p, tpc_accountId = acc, tpc_name = ?name, tpc_connectionMode = AgentInitiated,
    tpc_createdAt = pd_now pd\<rparr>"
  have empty: "readStream (bk_rows b) ?k = []"
  proof -
    have "\<not> in_stream ?k r" if "r \<in> set (bk_rows b)" for r
      using fresh that by (auto simp: aggregate_rows_def in_stream_def filter_empty_conv)
    then show ?thesis by (simp add: readStream_wf(1) [OF wf] filter_empty_conv)
  qed
  from run obtain e1 b1 where one: "provider_write deps (pd_ticks pd) acc ?p ?d b = (Inr e1, b1)"
    and two: "proceed (provider_write deps (pd_ticks2 pd) acc ?p (token_issued pd token) b1)
      (\<lambda>e b. (Json 201 (JObj [(''providerId'', JStr ?p), (''name'', JStr ?name),
         (''connectionMode'', JStr (connection_mode_name AgentInitiated)), (''agentAddress'', JStr (agentAddress (rt_config deps) ?p)),
         (''token'', token_json (pd_tokenId pd) token), (''setup'', setupFor (agentAddress (rt_config deps) ?p) (gt_plaintext token))]), b))
      = (Json 201 reply, b')"
    unfolding provider_create_def Let_def name_required_def coded_error_def proceed_def token_def
    by (simp split: if_splits sum.splits prod.splits)
  show "json_prop reply ''token'' = Some (token_json (pd_tokenId pd) token)"
    using two by (simp add: proceed_def split: sum.splits prod.splits) (auto)
  have done2: "\<exists>e2. provider_write deps (pd_ticks2 pd) acc ?p (token_issued pd token) b1 = (Inr e2, b')"
    using two by (auto simp: proceed_def split: sum.splits prod.splits)
  then obtain e2 where second: "provider_write deps (pd_ticks2 pd) acc ?p (token_issued pd token) b1 = (Inr e2, b')" ..
  have w1: "b1 = b\<lparr>bk_rows := bk_rows b @ [e1]\<rparr>" "wf_store (bk_rows b1)" "wrote (bk_rows b) (bk_rows b1) ?k (ProviderEv ?d)"
    using provider_written [OF wf calm one] by blast+
  have w2: "b' = b1\<lparr>bk_rows := bk_rows b1 @ [e2]\<rparr>" "wf_store (bk_rows b')"
    "wrote (bk_rows b1) (bk_rows b') ?k (ProviderEv (token_issued pd token))"
    using provider_written [OF w1(2) calm second] by blast+
  obtain n1 where st1: "provider_state (bk_rows b1) acc ?p = traefik_provider_apply initialTraefikProviderState n1 (ProviderEv ?d)"
    using provider_state_wrote(1) [OF wf w1(2,3)] by (auto simp: provider_load_simps(1) empty)
  obtain n2 where st2: "provider_state (bk_rows b') acc ?p =
      traefik_provider_apply (traefik_provider_apply initialTraefikProviderState n1 (ProviderEv ?d)) n2 (ProviderEv (token_issued pd token))"
    using provider_state_wrote(1) [OF w1(2) w2(2,3)] unfolding st1 by blast
  show "activeTokens (provider_state (bk_rows b') acc ?p) = [\<lparr>tok_tokenId = pd_tokenId pd, tok_hash = gt_hash token,
      tok_last4 = gt_last4 token, tok_issuedAt = pd_now pd, tok_revokedAt = None\<rparr>]"
    "tp_providerId (provider_state (bk_rows b') acc ?p) = Some ?p" "tp_accountId (provider_state (bk_rows b') acc ?p) = Some acc"
    "tp_status (provider_state (bk_rows b') acc ?p) = TpActive"
    unfolding st2 by (simp_all add: token_issued_def activeTokens_def initialTraefikProviderState_def)
  have "in_stream ?k e1" using w1(1,3) by (auto simp: wrote_def)
  then have first: "ev_aggregateType e1 = TRAEFIK_PROVIDER" "ev_aggregateId e1 = ?p" "ev_accountId e1 = acc"
    by (simp_all add: in_stream_def)
  have "find (\<lambda>row. ev_aggregateType row = TRAEFIK_PROVIDER \<and> ev_aggregateId row = ?p) (bk_rows b) = None"
    using fresh by (auto simp: aggregate_rows_def filter_empty_conv find_None_iff)
  from find_append_None [OF this, of "[e1, e2]"] first
  show "provider_resolveAccountId (bk_rows b') ?p = Some acc"
    by (simp add: provider_resolveAccountId_def resolveAccountId_def w2(1) w1(1))
qed

text \<open>C14. The token a creation hands out works: after a 201, a call that names the new provider and presents the value
  of the answer's token is authenticated as that provider of that account with that token's id, unless its
  source is blocked. (Ids are non-empty; ids and random texts contain no space at their ends.)\<close>
theorem created_token_authenticates:
  assumes "wf_store (bk_rows b)" and "undisturbed deps" and "aggregate_rows (bk_rows b) TRAEFIK_PROVIDER (pd_id pd) = []"
    and "provider_create deps pd acc body b = (Json 201 reply, b')"
    and "acc \<noteq> []" and "pd_id pd \<noteq> []" and "js_trim (pd_id pd) = pd_id pd" and "js_trim (pd_random pd) = pd_random pd"
    and "json_prop reply ''token'' = Some (JObj fs)" and "map_of fs ''value'' = Some (JStr shown)"
    and "md_provider call = Some (pd_id pd)" and "md_authorization call = Some (''Bearer '' @ shown)"
    and "\<forall>t. throttle = Some t \<longrightarrow> \<not> isBlocked t now (sourceOf call)"
  shows "authenticate (rt_crypto deps) (bk_rows b') throttle now call = (Authenticated acc (pd_id pd) (pd_tokenId pd), throttle)"
proof -
  let ?token = "generateAgentToken (rt_crypto deps) (pd_random pd)"
  note made = created_provider [OF assms(1-4)]
  have "JObj fs = token_json (pd_tokenId pd) ?token" using made(6) assms(9) by simp
  then have "shown = TOKEN_PREFIX @ pd_random pd"
    using assms(10) by (simp add: token_json_def generateAgentToken_def Let_def)
  with presented_bearer [OF assms(8)] have presented: "presented_token (nullish_or (md_authorization call) []) = TOKEN_PREFIX @ pd_random pd"
    by (simp add: assms(12) del: append.simps)
  have provider: "js_trim (nullish_or (md_provider call) []) = pd_id pd" by (simp add: assms(7,11))
  have active: "provider_loadActive (bk_rows b') acc (pd_id pd) = Some (provider_load (bk_rows b') acc (pd_id pd))"
    using made assms(6) by (simp add: provider_loadActive_Some truthy_def)
  have "find_token (rt_crypto deps) (bk_rows b') (pd_id pd) (TOKEN_PREFIX @ pd_random pd) = Some (acc, \<lparr>tok_tokenId = pd_tokenId pd,
      tok_hash = gt_hash ?token, tok_last4 = gt_last4 ?token, tok_issuedAt = pd_now pd, tok_revokedAt = None\<rparr>)"
    using assms(5,6) by (simp add: find_token_def made active verifyAgentToken_def generateAgentToken_def Let_def)
      (simp add: TOKEN_PREFIX_def)
  moreover have "\<not> (case throttle of None \<Rightarrow> False | Some t \<Rightarrow> isBlocked t now (sourceOf call))"
    using assms(13) by (simp split: option.split)
  ultimately show ?thesis by (simp add: authenticate_def Let_def provider presented)
qed

lemma created_token_authenticates_witness:
  "\<exists>reply b' shown call. provider_create agent_routes sample_pd ''acc'' \<lparr>pb_name = Some (JStr ''n''), pb_connectionMode = None\<rparr> (sample_backend [])
      = (Json 201 reply, b') \<and> md_authorization call = Some (''Bearer '' @ shown)
    \<and> authenticate (rt_crypto agent_routes) (bk_rows b') None 0 call = (Authenticated ''acc'' ''p'' ''t1'', None)"
proof -
  obtain reply b' where run: "provider_create agent_routes sample_pd ''acc'' \<lparr>pb_name = Some (JStr ''n''), pb_connectionMode = None\<rparr> (sample_backend [])
    = (Json 201 reply, b')" by (rule sample_creation)
  let ?shown = "gt_plaintext (generateAgentToken (rt_crypto agent_routes) (pd_random sample_pd))"
  define call where "call = \<lparr>md_provider = Some ''p'', md_authorization = Some (''Bearer '' @ ?shown), md_forwardedFor = None, md_peer = ''10.0.0.1''\<rparr>"
  have start: "wf_store (bk_rows (sample_backend []))" "undisturbed agent_routes"
    "aggregate_rows (bk_rows (sample_backend [])) TRAEFIK_PROVIDER (pd_id sample_pd) = []"
    by (simp_all add: wf_store_Nil aggregate_rows_def)
  have ids: "pd_id sample_pd = ''p''" "js_trim (pd_id sample_pd) = pd_id sample_pd" "js_trim (pd_random sample_pd) = pd_random sample_pd"
    "pd_tokenId sample_pd = ''t1''"
    by (simp_all add: sample_pd_def js_trim_def is_space_def)
  have "\<exists>fs. json_prop reply ''token'' = Some (JObj fs) \<and> map_of fs ''value'' = Some (JStr ?shown)"
    unfolding created_provider(6) [OF start run] by (simp add: token_json_def)
  then obtain fs where fs: "json_prop reply ''token'' = Some (JObj fs)" "map_of fs ''value'' = Some (JStr ?shown)" by blast
  have "authenticate (rt_crypto agent_routes) (bk_rows b') None 0 call = (Authenticated ''acc'' (pd_id sample_pd) (pd_tokenId sample_pd), None)"
    by (rule created_token_authenticates [OF start run _ _ ids(2,3) fs]) (simp_all add: ids call_def)
  then show ?thesis using run ids
    by (intro exI [of _ reply] exI [of _ b'] exI [of _ ?shown] exI [of _ call]) (simp add: call_def)
qed

lemma users_wrote:
  assumes "wf_store rows" and "wf_store rows'" and "wrote rows rows' (stream acc TRAEFIK_PROVIDER p) d"
  shows "delivery_users rows' acc q = delivery_users rows acc q"
proof -
  obtain e where e: "rows' = rows @ [e]" "in_stream (stream acc TRAEFIK_PROVIDER p) e" using assms(3) by (auto simp: wrote_def)
  have "listAggregateIds rows' acc ACTION = listAggregateIds rows acc ACTION"
    unfolding e(1) by (rule listAggregateIds_other [OF e(2)]) simp
  moreover have "loadAction rows' acc i = loadAction rows acc i" for i
    by (rule loads_cong(2)) (simp add: provider_state_wrote(3) [OF assms])
  ultimately show ?thesis by (simp add: delivery_users_def listDeliveryActions_def)
qed

text \<open>Later events of a provider: any that do not create it again or issue the id anew.\<close>

definition later_events :: "event_store \<Rightarrow> event_store \<Rightarrow> id \<Rightarrow> id \<Rightarrow> (domain_event \<Rightarrow> bool) \<Rightarrow> bool" where
  "later_events rows rows' acc p good = (\<exists>es. readStream rows' (stream acc TRAEFIK_PROVIDER p) = readStream rows (stream acc TRAEFIK_PROVIDER p) @ es
     \<and> (\<forall>e \<in> set es. good (ev_data e)))"

lemma later_state:
  assumes "later_events rows rows' acc p good"
  obtains es where "provider_state rows' acc p = foldl traefikProviderReducer (provider_state rows acc p) es"
    and "\<forall>e \<in> set es. good (ev_data e)"
  using assms that unfolding later_events_def provider_load_simps by (metis foldl_append)

fun no_reissue :: "id \<Rightarrow> domain_event \<Rightarrow> bool" where
  "no_reissue t (ProviderEv (TokenIssued d)) = (tki_tokenId d \<noteq> t)"
| "no_reissue t _ = True"

fun no_recreation :: "domain_event \<Rightarrow> bool" where
  "no_recreation (ProviderEv (ProviderCreated d)) = False"
| "no_recreation _ = True"

lemma authenticated_active:
  assumes "authenticate cr rows throttle now call = (Authenticated acc p t, throttle')"
  shows "tp_status (provider_state rows acc p) = TpActive" and "t \<in> tok_tokenId ` set (activeTokens (provider_state rows acc p))"
proof -
  from authenticate_found [OF assms] obtain token where "find_token cr rows p (presented_token (nullish_or (md_authorization call) [])) = Some (acc, token)"
    and "t = tok_tokenId token" by blast
  from find_token_Some [OF this(1)] this(2)
  show "tp_status (provider_state rows acc p) = TpActive" "t \<in> tok_tokenId ` set (activeTokens (provider_state rows acc p))"
    by (auto simp: activeTokens_def)
qed

text \<open>C15. Revoking a token is final: after a 204, no call is authenticated with this token of the provider, whatever is
  written later (the id is not issued again), and the live session that holds it is told to end. Any other
  answer but an exception means there was no such token of an active provider of the account.\<close>
theorem revoked_token_rejected:
  assumes "wf_store (bk_rows b)" and "undisturbed deps" and "distinct (map tok_tokenId (tp_tokens (provider_state (bk_rows b) acc p)))"
    and "token_revoke deps pd acc p t b = (resp, b')"
  shows "case resp of
      NoBody n \<Rightarrow> n = 204
        \<and> (\<forall>rows cr throttle now call throttle'. later_events (bk_rows b') rows acc p (no_reissue t) \<longrightarrow>
             authenticate cr rows throttle now call \<noteq> (Authenticated acc p t, throttle'))
        \<and> (\<forall>s. map_of (bk_registry b) p = Some s \<and> as_tokenId s = t \<longrightarrow> (as_sessionId s, token_revoked_reason) \<in> set (bk_terminated b'))
    | Thrown err \<Rightarrow> b' = b
    | _ \<Rightarrow> resp = not_found \<and> b' = b
        \<and> \<not> (provider_live (provider_state (bk_rows b) acc p) \<and> tp_accountId (provider_state (bk_rows b) acc p) = Some acc
             \<and> t \<in> tok_tokenId ` set (tp_tokens (provider_state (bk_rows b) acc p)))"
proof -
  let ?st = "provider_state (bk_rows b) acc p"
  have final: "authenticate cr rows throttle now call \<noteq> (Authenticated acc p t, throttle')"
    if "later_events (bk_rows b1) rows acc p (no_reissue t)" "t \<notin> tok_tokenId ` set (activeTokens (provider_state (bk_rows b1) acc p))"
    for b1 rows cr throttle now call throttle'
  proof
    assume auth: "authenticate cr rows throttle now call = (Authenticated acc p t, throttle')"
    from later_state [OF that(1)] obtain es where es: "provider_state rows acc p = foldl traefikProviderReducer (provider_state (bk_rows b1) acc p) es"
      "\<forall>e \<in> set es. no_reissue t (ev_data e)" .
    from es(2) have "\<forall>e \<in> set es. \<forall>x. ev_data e = ProviderEv (TokenIssued x) \<longrightarrow> tki_tokenId x \<noteq> t" by fastforce
    from foldl_tokens_ids [OF this that(2)] authenticated_active(2) [OF auth] show False by (simp add: es(1))
  qed
  show ?thesis
  proof (cases "provider_loadActive (bk_rows b) acc p")
    case None
    then have "\<not> (provider_live ?st \<and> tp_accountId ?st = Some acc)"
      using provider_loadActive_Some [of "bk_rows b" acc p "provider_load (bk_rows b) acc p"] by (auto simp: provider_live_def)
    with assms(4) None show ?thesis by (auto simp: token_revoke_def)
  next
    case (Some loaded)
    then have loaded: "ld_state loaded = ?st" by (simp add: provider_loadActive_Some)
    show ?thesis
    proof (cases "find (\<lambda>x. tok_tokenId x = t) (tp_tokens ?st)")
      case none: None
      then have "t \<notin> tok_tokenId ` set (tp_tokens ?st)" by (auto simp: find_None_iff)
      with assms(4) none Some show ?thesis by (auto simp: token_revoke_def loaded)
    next
      case found: (Some token)
      from find_Some_mem [OF found] have token: "token \<in> set (tp_tokens ?st)" "tok_tokenId token = t" by simp_all
      have told: "\<forall>s. map_of (bk_registry b) p = Some s \<and> as_tokenId s = t \<longrightarrow>
          (as_sessionId s, token_revoked_reason) \<in> set (bk_terminated (terminate (terminateByToken (bk_registry b) p t) token_revoked_reason b1))" for b1
        by (simp add: terminate_def terminateByToken_def)
      show ?thesis
      proof (cases "tok_revokedAt token = None")
        case False
        then have "t \<notin> tok_tokenId ` set (activeTokens ?st)"
          using token assms(3) by (auto simp: activeTokens_def distinct_map inj_on_def)
        moreover have "resp = NoBody 204" "b' = terminate (terminateByToken (bk_registry b) p t) token_revoked_reason b"
          using assms(4) False by (simp_all add: token_revoke_def Some loaded found)
        ultimately show ?thesis using final [of b] told [of b] by (simp add: terminate_def)
      next
        case True
        from assms(1,2) show ?thesis
        proof (cases rule: provider_write_cases [where deps = deps and b = b and tks = "pd_ticks pd" and acc = acc and p = p
              and d = "TokenRevoked t (pd_now pd)"])
          case (conflict x)
          then show ?thesis using assms(4) True by (simp add: token_revoke_def Some loaded found) auto
        next
          case (appended e b1)
          obtain n where "provider_state (bk_rows b1) acc p = traefik_provider_apply ?st n (ProviderEv (TokenRevoked t (pd_now pd)))"
            using provider_state_wrote(1) [OF assms(1) appended(3,4)] by blast
          then have "t \<notin> tok_tokenId ` set (activeTokens (provider_state (bk_rows b1) acc p))"
            by (auto simp: activeTokens_revoke simp del: traefik_provider_apply.simps)
          moreover have "resp = NoBody 204" "b' = terminate (terminateByToken (bk_registry b1) p t) token_revoked_reason b1"
            using assms(4) True by (simp_all add: token_revoke_def Some loaded found appended(1))
          ultimately show ?thesis using final [of b1] told [of b1] appended(2) by (simp add: terminate_def)
        qed
      qed
    qed
  qed
qed

lemma revoked_token_rejected_witness:
  "\<exists>b'. token_revoke sample_routes sample_pd ''acc'' ''p'' ''t1'' (sample_backend sample_token_rows) = (NoBody 204, b')
    \<and> fst (authenticate sample_crypto (bk_rows b') None 0 sample_metadata) \<noteq> Authenticated ''acc'' ''p'' ''t1''"
proof -
  let ?b = "sample_backend sample_token_rows"
  obtain e where "provider_write sample_routes (pd_ticks sample_pd) ''acc'' ''p'' (TokenRevoked ''t1'' (pd_now sample_pd)) ?b =
    (Inr e, ?b\<lparr>bk_rows := sample_token_rows @ [e]\<rparr>)" by (rule sample_token_write)
  then have "\<exists>b'. token_revoke sample_routes sample_pd ''acc'' ''p'' ''t1'' ?b = (NoBody 204, b')"
    unfolding token_revoke_def sample_backend_simps sample_token_live option.case sample_token_state
    by (simp add: initialTraefikProviderState_def)
  then obtain b' where run: "token_revoke sample_routes sample_pd ''acc'' ''p'' ''t1'' ?b = (NoBody 204, b')" ..
  have "distinct (map tok_tokenId (tp_tokens (provider_state (bk_rows ?b) ''acc'' ''p'')))"
    unfolding sample_backend_simps sample_token_state by simp
  from revoked_token_rejected [OF _ _ this run] sample_token_wf
  have all: "\<forall>rows cr throttle now call throttle'. later_events (bk_rows b') rows ''acc'' ''p'' (no_reissue ''t1'') \<longrightarrow>
      authenticate cr rows throttle now call \<noteq> (Authenticated ''acc'' ''p'' ''t1'', throttle')"
    by simp
  have "later_events (bk_rows b') (bk_rows b') ''acc'' ''p'' (no_reissue ''t1'')" by (simp add: later_events_def)
  with all have "authenticate sample_crypto (bk_rows b') None 0 sample_metadata \<noteq> (Authenticated ''acc'' ''p'' ''t1'', throttle')" for throttle'
    by blast
  then have "fst (authenticate sample_crypto (bk_rows b') None 0 sample_metadata) \<noteq> Authenticated ''acc'' ''p'' ''t1''"
    by (metis prod.collapse)
  with run show ?thesis by blast
qed

text \<open>A provider is deleted only while no delivery action of the account points to it, and then for good: a 204 leaves
  it unused and deleted, no call is authenticated as it whatever is written later (ids are not created again), and
  its live session is told to end; a 409 names users and changes nothing.\<close>
theorem provider_delete_outcome:
  assumes "wf_store (bk_rows b)" and "undisturbed deps" and "provider_delete deps pd acc p b = (resp, b')"
  shows "case resp of
      NoBody n \<Rightarrow> n = 204 \<and> delivery_users (bk_rows b') acc p = [] \<and> tp_status (provider_state (bk_rows b') acc p) = TpDeleted
        \<and> (\<forall>rows cr throttle now call t throttle'. later_events (bk_rows b') rows acc p no_recreation \<longrightarrow>
             authenticate cr rows throttle now call \<noteq> (Authenticated acc p t, throttle'))
        \<and> (\<forall>s. map_of (bk_registry b) p = Some s \<longrightarrow> (as_sessionId s, provider_deleted_reason) \<in> set (bk_terminated b'))
    | Thrown err \<Rightarrow> b' = b
    | _ \<Rightarrow> b' = b \<and> (resp_status resp = 404 \<and> provider_loadActive (bk_rows b) acc p = None
        \<or> resp_status resp = 409 \<and> delivery_users (bk_rows b) acc p \<noteq> [])"
proof (cases "provider_loadActive (bk_rows b) acc p")
  case None
  with assms(3) show ?thesis by (auto simp: provider_delete_def)
next
  case (Some loaded)
  show ?thesis
  proof (cases "delivery_users (bk_rows b) acc p")
    case (Cons u us)
    with assms(3) Some show ?thesis by (auto simp: provider_delete_def)
  next
    case Nil
    from assms(1,2) show ?thesis
    proof (cases rule: provider_write_cases [where deps = deps and b = b and tks = "pd_ticks pd" and acc = acc and p = p
          and d = "ProviderDeleted (pd_now pd)"])
      case (conflict x)
      with assms(3) Some Nil show ?thesis by (auto simp: provider_delete_def)
    next
      case (appended e b1)
      have out: "resp = NoBody 204" "b' = terminate (terminateByProvider (bk_registry b1) p) provider_deleted_reason b1"
        using assms(3) by (simp_all add: provider_delete_def Some Nil appended(1))
      obtain n where "provider_state (bk_rows b1) acc p = traefik_provider_apply (provider_state (bk_rows b) acc p) n (ProviderEv (ProviderDeleted (pd_now pd)))"
        using provider_state_wrote(1) [OF assms(1) appended(3,4)] by blast
      then have deleted: "tp_status (provider_state (bk_rows b1) acc p) = TpDeleted" by simp
      have "tp_status (foldl traefikProviderReducer st es) = TpDeleted"
        if "tp_status st = TpDeleted" "\<forall>e \<in> set es. no_recreation (ev_data e)" for st es
        using that
      proof (induction es arbitrary: st)
        case (Cons e es)
        then have "tp_status (traefikProviderReducer st e) = TpDeleted"
          by (cases "(st, ev_sequenceNumber e, ev_data e)" rule: traefik_provider_apply.cases) (auto simp: traefikProviderReducer_def)
        with Cons show ?case by simp
      qed simp
      then have "authenticate cr rows throttle now call \<noteq> (Authenticated acc p t, throttle')"
        if "later_events (bk_rows b1) rows acc p no_recreation" for rows cr throttle now call t throttle'
        using later_state [OF that] deleted authenticated_active(1) [of cr rows throttle now call acc p t throttle'] by (metis provider_status.distinct(1))
      moreover have "delivery_users (bk_rows b1) acc p = []"
        using users_wrote [OF assms(1) appended(3,4)] Nil by simp
      moreover have "\<forall>s. map_of (bk_registry b) p = Some s \<longrightarrow> (as_sessionId s, provider_deleted_reason) \<in> set (bk_terminated b')"
        by (simp add: out(2) terminate_def terminateByProvider_def appended(2))
      ultimately show ?thesis using deleted by (simp add: out terminate_def)
    qed
  qed
qed

lemma provider_delete_outcome_witness:
  "\<exists>b'. provider_delete sample_routes sample_pd ''acc'' ''p'' (sample_backend sample_token_rows) = (NoBody 204, b')
    \<and> tp_status (provider_state (bk_rows b') ''acc'' ''p'') = TpDeleted"
proof -
  let ?b = "sample_backend sample_token_rows"
  obtain e where "provider_write sample_routes (pd_ticks sample_pd) ''acc'' ''p'' (ProviderDeleted (pd_now sample_pd)) ?b =
    (Inr e, ?b\<lparr>bk_rows := sample_token_rows @ [e]\<rparr>)" by (rule sample_token_write)
  then have "\<exists>b'. provider_delete sample_routes sample_pd ''acc'' ''p'' ?b = (NoBody 204, b')"
    unfolding provider_delete_def sample_backend_simps sample_token_live option.case by simp
  then obtain b' where run: "provider_delete sample_routes sample_pd ''acc'' ''p'' ?b = (NoBody 204, b')" ..
  from provider_delete_outcome [OF _ _ run] sample_token_wf show ?thesis using run by simp
qed

end
