(* ===== verification/History.thy ===== *)
theory History
  imports Backend Delivery
begin

text \<open>
  The history of a device: \<open>adapters/http/routes/ip-client-history.ts\<close>. Every recorded address change is
  listed with what it led to: the executions it caused and the deliveries derived from the providers'
  events. Nothing is stored for it; the route replays the account's actions, executions and providers.
\<close>

section \<open>The answer\<close>

record ActionDescription =
  ad_type :: "string option"
  ad_zone :: "string option"
  ad_recordName :: "string option"
  ad_firewallId :: "int option"
  ad_description :: "string option"

record HistoryExecution =
  he_executionId :: "id option"
  he_actionId :: "id option"
  he_action :: ActionDescription
  he_status :: execution_status
  he_attempt :: nat
  he_error :: "string option"
  he_startedAt :: "timestamp option"
  he_completedAt :: "timestamp option"
  he_failedAt :: "timestamp option"

record HistoryItem =
  hi_ipChangedEventId :: id
  hi_time :: timestamp
  hi_data :: IpClientIpChangedData
  hi_deliveries :: "TraefikDelivery list"
  hi_executions :: "HistoryExecution list"

definition describeAction :: "ActionState option \<Rightarrow> ActionDescription" where
  "describeAction state = (let config = (case state of None \<Rightarrow> empty_config | Some st \<Rightarrow> nullish_or (ac_config st) empty_config) in
     \<lparr>ad_type = (case state of None \<Rightarrow> None | Some st \<Rightarrow> ac_type st), ad_zone = cf_zone config,
      ad_recordName = cf_recordName config, ad_firewallId = cf_firewallId config, ad_description = cf_description config\<rparr>)"

section \<open>The route\<close>

definition change_of :: "stored_event \<Rightarrow> (stored_event \<times> IpClientIpChangedData) option" where
  "change_of e = (case ev_data e of IpClientEv (IpChanged d) \<Rightarrow> Some (e, d) | _ \<Rightarrow> None)"

definition relevantActions :: "event_store \<Rightarrow> id \<Rightarrow> id \<Rightarrow> (id \<times> ActionState) list" where
  "relevantActions rows accountId ipClientId =
     filter (\<lambda>(actionId, state). ac_ipClientId state = Some ipClientId)
       (map (\<lambda>actionId. (actionId, fst (loadAction rows accountId actionId))) (listAggregateIds rows accountId ACTION))"

definition history_executions :: "event_store \<Rightarrow> id \<Rightarrow> (id \<times> ActionState) list \<Rightarrow> ActionExecutionState list" where
  "history_executions rows accountId actions =
     filter (\<lambda>state. truthy (ex_actionId state) \<and> map_of actions (the (ex_actionId state)) \<noteq> None)
       (map (\<lambda>executionId. fst (loadExecution rows accountId executionId)) (listAggregateIds rows accountId ACTION_EXECUTION))"

definition delivery_ref :: "id \<times> ActionState \<Rightarrow> DeliveryActionRef option" where
  "delivery_ref = (\<lambda>(actionId, state).
     if ac_type state \<noteq> Some TRAEFIK_CONFIG_DELIVERY_ACTION_TYPE then None
     else (case ac_config state of None \<Rightarrow> None
       | Some config \<Rightarrow> Some \<lparr>ref_actionId = actionId, ref_traefikProviderId = delivery_provider config, ref_group = delivery_group config\<rparr>))"

definition history_provider :: "event_store \<Rightarrow> id \<Rightarrow> id \<Rightarrow> DeliveryProvider" where
  "history_provider rows accountId providerId =
     (case loadAggregate rows (stream accountId TRAEFIK_PROVIDER providerId) initialTraefikProviderState traefikProviderReducer of
        (state, providerEvents, version) \<Rightarrow>
          \<lparr>dp_name = (if tp_providerId state = Some providerId \<and> tp_accountId state = Some accountId \<and> tp_status state = TpActive
             then Some (tp_name state) else None), dp_events = providerEvents\<rparr>)"

definition history_execution :: "(id \<times> ActionState) list \<Rightarrow> ActionExecutionState \<Rightarrow> HistoryExecution" where
  "history_execution actions ex = \<lparr>he_executionId = ex_executionId ex, he_actionId = ex_actionId ex,
     he_action = describeAction (if truthy (ex_actionId ex) then map_of actions (the (ex_actionId ex)) else None),
     he_status = ex_status ex, he_attempt = ex_attempt ex, he_error = ex_error ex, he_startedAt = ex_startedAt ex,
     he_completedAt = ex_completedAt ex, he_failedAt = ex_failedAt ex\<rparr>"

definition history_item ::
  "(id \<times> ActionState) list \<Rightarrow> ActionExecutionState list \<Rightarrow> delivery_result \<Rightarrow> stored_event \<times> IpClientIpChangedData \<Rightarrow> HistoryItem" where
  "history_item actions executions deliveries = (\<lambda>(event, data).
     \<lparr>hi_ipChangedEventId = ev_id event, hi_time = ev_time event, hi_data = data,
      hi_deliveries = nullish_or (map_of deliveries (ev_id event)) [],
      hi_executions = map (history_execution actions) (filter (\<lambda>ex. ex_causationEventId ex = Some (ev_id event)) executions)\<rparr>)"

definition ip_client_history :: "event_store \<Rightarrow> id \<Rightarrow> id \<Rightarrow> response + HistoryItem list" where
  "ip_client_history rows accountId ipClientId =
     (case loadIpClient rows accountId ipClientId of (ipClientState, events, version) \<Rightarrow>
        if \<not> truthy (ic_ipClientId ipClientState) \<or> ic_accountId ipClientState \<noteq> Some accountId then Inl not_found
        else (let ipChangedEvents = List.map_filter change_of events;
                  actions = relevantActions rows accountId ipClientId;
                  executions = history_executions rows accountId actions;
                  deliveryActions = List.map_filter delivery_ref actions;
                  providers = map (\<lambda>providerId. (providerId, history_provider rows accountId providerId))
                    (uniq (map ref_traefikProviderId deliveryActions));
                  deliveries = deriveDeliveries (map (\<lambda>(e, d). ev_id e) ipChangedEvents) deliveryActions providers
              in Inr (map (history_item actions executions deliveries) ipChangedEvents)))"

section \<open>Lemmas\<close>

lemma winner_published: "td_kind row = Delivered \<Longrightarrow> (\<forall>q \<in> set zs. td_kind (snd q) = Combined) \<Longrightarrow> winner c (puts @ (c, row) # zs) = Some row"
proof -
  assume row: "td_kind row = Delivered" and "\<forall>q \<in> set zs. td_kind (snd q) = Combined"
  then have "filter (\<lambda>r. td_kind r = Delivered) (map snd (filter (\<lambda>q. fst q = c) zs)) = []" by (auto simp: filter_empty_conv)
  with row show ?thesis by (simp add: winner_def Let_def)
qed

lemma readStream_sorted [simp]: "sort_key ev_sequenceNumber (readStream rows k) = readStream rows k"
  by (rule sort_key_sorted_id) (simp add: readStream_def)

text \<open>The row of a publication that names the change.\<close>

lemma published_winner:
  assumes "readStream rows' k = readStream rows k @ [e]" and "ev_data e = ProviderEv (SnapshotPublished d)"
  shows "\<exists>row. winner (pub_correlationId d) (provider_puts ref \<lparr>dp_name = nm, dp_events = readStream rows' k\<rparr>) = Some row
    \<and> td_actionId row = ref_actionId ref \<and> td_group row = ref_group ref \<and> td_kind row = Delivered
    \<and> td_version row = Some (ev_sequenceNumber e)"
proof -
  let ?pr = "\<lparr>dp_name = nm, dp_events = readStream rows' k\<rparr>"
  obtain stage at err where st: "stage_of (readStream rows' k) (ev_sequenceNumber e) (pub_publishedAt d) = (stage, at, err)"
    using prod_cases3 by blast
  let ?row = "base_row ref ?pr Delivered (Some stage) (Some at) err (Some (ev_sequenceNumber e))"
  have dp: "dp_events ?pr = readStream rows' k" by simp
  have puts: "provider_puts ref ?pr = concat (map (event_puts ref ?pr (readStream rows' k)) (readStream rows k))
      @ event_puts ref ?pr (readStream rows' k) e"
    unfolding provider_puts_def Let_def dp readStream_sorted by (subst (2) assms(1)) simp
  have "event_puts ref ?pr (readStream rows' k) e = (pub_correlationId d, ?row)
      # map (\<lambda>i. (i, base_row ref ?pr Combined None None None (Some (ev_sequenceNumber e)))) (nullish_or (pub_absorbedCausationIds d) [])"
    by (simp add: event_puts_def assms(2) st Let_def)
  then have "winner (pub_correlationId d) (provider_puts ref ?pr) = Some ?row"
    unfolding puts by (simp add: winner_published base_row_def)
  then show ?thesis by (simp add: base_row_def)
qed

text \<open>A publication that changed something wrote one event that names its cause.\<close>

lemma publish_changed:
  assumes "wf_store rows" and "publish lc cr cfg tk rows acc p (Some c) absorbed = (Inr (Some r), rows')" and "pr_changed r"
  obtains e d where "rows' = rows @ [e]" and "wf_store rows'" and "wrote rows rows' (stream acc TRAEFIK_PROVIDER p) (ProviderEv (SnapshotPublished d))"
    and "pub_correlationId d = c" and "ev_data e = ProviderEv (SnapshotPublished d)" and "sp_version (pr_snapshot r) = ev_sequenceNumber e"
proof (cases rule: publish_cases [of rows acc p lc cr cfg tk "Some c" absorbed])
  case (differs loaded)
  let ?content = "buildSnapshotContent lc rows acc p (tp_name (ld_state loaded))"
  note new = assms(2) [unfolded differs(2)]
  show ?thesis
  proof (cases rule: publish_new_cases [of cr cfg tk rows acc p "Some c" absorbed ?content])
    case (published e)
    note state = provider_append_state [OF assms(1) published(3)] and ev = append_event_Inr [OF provider_append_Inr [OF published(3)]]
    show ?thesis
      by (rule that [of e]) (use published(1) new state ev in \<open>auto simp: wrote_def\<close>)
  qed (use new in simp_all)
qed (use assms in auto)

lemma history_provider_events: "\<exists>nm. history_provider rows acc p = \<lparr>dp_name = nm, dp_events = readStream rows (stream acc TRAEFIK_PROVIDER p)\<rparr>"
  by (simp add: history_provider_def loadAggregate_def Let_def)

lemma map_filter_mem: "x \<in> set xs \<Longrightarrow> f x = Some y \<Longrightarrow> y \<in> set (List.map_filter f xs)"
  by (force simp: List.map_filter_def)

text \<open>A delivery action of the device is among the actions of its history.\<close>

lemma delivery_relevant:
  assumes "a \<in> set (listDeliveryActions rows acc)"
  obtains st where "(da_actionId a, st) \<in> set (relevantActions rows acc (da_ipClientId a))"
    and "delivery_ref (da_actionId a, st) = Some \<lparr>ref_actionId = da_actionId a, ref_traefikProviderId = da_traefikProviderId a,
      ref_group = da_group a\<rparr>"
proof -
  from assms obtain i where i: "i \<in> set (listAggregateIds rows acc ACTION)"
    and a: "delivery_action i (fst (loadAction rows acc i)) = Some a"
    by (auto simp: listDeliveryActions_def List.map_filter_def)
  let ?st = "fst (loadAction rows acc i)"
  from a obtain config where "ac_type ?st = Some TRAEFIK_CONFIG_DELIVERY_ACTION_TYPE" "truthy (ac_ipClientId ?st)"
    "ac_config ?st = Some config" "a = \<lparr>da_actionId = i, da_ipClientId = nullish_or (ac_ipClientId ?st) [],
       da_traefikProviderId = delivery_provider config, da_group = delivery_group config, da_status = ac_status ?st\<rparr>"
    by (auto simp: delivery_action_def split: if_splits option.splits)
  moreover from this(2) obtain dev where "ac_ipClientId ?st = Some dev" by (cases "ac_ipClientId ?st") auto
  ultimately show ?thesis
    using i by (intro that [of ?st]) (auto simp: relevantActions_def delivery_ref_def)
qed

section \<open>Properties\<close>

text \<open>C12. What was published shows: when a publication for an address change succeeds with a new version, the device's
  history, derived from the events alone, still lists the same changes with the same data, and lists under this
  change a delivered row of that version for each of the device's delivery actions to the provider.\<close>
theorem published_change_shown:
  assumes wf: "wf_store rows" and before: "ip_client_history rows acc (da_ipClientId a) = Inr items"
    and item: "item \<in> set items" and a: "a \<in> set (listDeliveryActions rows acc)"
    and publish: "publish lc cr cfg tk rows acc (da_traefikProviderId a) (Some (hi_ipChangedEventId item)) absorbed = (Inr (Some r), rows')"
    and changed: "pr_changed r"
  shows "\<exists>items'. ip_client_history rows' acc (da_ipClientId a) = Inr items'
    \<and> map hi_ipChangedEventId items' = map hi_ipChangedEventId items \<and> map hi_data items' = map hi_data items
    \<and> (\<exists>item' \<in> set items'. hi_ipChangedEventId item' = hi_ipChangedEventId item
        \<and> (\<exists>row \<in> set (hi_deliveries item'). td_actionId row = da_actionId a \<and> td_group row = da_group a
             \<and> td_kind row = Delivered \<and> td_version row = Some (sp_version (pr_snapshot r))))"
proof -
  let ?p = "da_traefikProviderId a" and ?dev = "da_ipClientId a" and ?c = "hi_ipChangedEventId item"
  let ?k = "stream acc TRAEFIK_PROVIDER ?p"
  obtain e d where e: "rows' = rows @ [e]" "wf_store rows'" "wrote rows rows' ?k (ProviderEv (SnapshotPublished d))"
    "pub_correlationId d = ?c" "ev_data e = ProviderEv (SnapshotPublished d)" "sp_version (pr_snapshot r) = ev_sequenceNumber e"
    by (rule publish_changed [OF wf publish changed])
  obtain e' where e': "rows' = rows @ [e']" "in_stream ?k e'" "readStream rows' ?k = readStream rows ?k @ [e']"
    and other: "\<And>k. k \<noteq> ?k \<Longrightarrow> readStream rows' k = readStream rows k"
    by (rule wrote_reads [OF wf e(2,3)]) blast
  have same: "e' = e" using e(1) e'(1) by simp
  have client: "loadIpClient rows' acc ?dev = loadIpClient rows acc ?dev" by (rule loads_cong(1), rule other) simp
  have "loadAction rows' acc i = loadAction rows acc i" for i by (rule loads_cong(2), rule other) simp
  moreover have "listAggregateIds rows' acc ACTION = listAggregateIds rows acc ACTION"
    unfolding e'(1) by (rule listAggregateIds_other [OF e'(2)]) simp
  ultimately have actions: "relevantActions rows' acc ?dev = relevantActions rows acc ?dev" by (simp add: relevantActions_def)
  obtain st evs n where load: "loadIpClient rows acc ?dev = (st, evs, n)" using prod_cases3 by blast
  have owned: "\<not> (\<not> truthy (ic_ipClientId st) \<or> ic_accountId st \<noteq> Some acc)"
    using before unfolding ip_client_history_def load by (auto split: if_splits)
  let ?changes = "List.map_filter change_of evs" and ?actions = "relevantActions rows acc ?dev"
  let ?refs = "List.map_filter delivery_ref ?actions"
  define derive where "derive rows = deriveDeliveries (map (\<lambda>(e, d). ev_id e) ?changes) ?refs
    (map (\<lambda>i. (i, history_provider rows acc i)) (uniq (map ref_traefikProviderId ?refs)))" for rows
  define listed where "listed rows = map (history_item ?actions (history_executions rows acc ?actions) (derive rows)) ?changes" for rows
  have items: "items = listed rows"
    using before owned unfolding ip_client_history_def load prod.case if_not_P [OF owned] Let_def listed_def derive_def by simp
  have now: "ip_client_history rows' acc ?dev = Inr (listed rows')"
    unfolding ip_client_history_def client load prod.case if_not_P [OF owned] Let_def actions listed_def derive_def by simp
  have ids: "map hi_ipChangedEventId (listed rows) = map (\<lambda>(e, d). ev_id e) ?changes"
    "map hi_data (listed rows) = map snd ?changes" for rows
    by (simp_all add: listed_def history_item_def case_prod_beta)
  from item items ids(1) have c: "?c \<in> set (map (\<lambda>(e, d). ev_id e) ?changes)" by (metis image_eqI set_map)
  then obtain ev da where ev: "(ev, da) \<in> set ?changes" "ev_id ev = ?c" by auto
  let ?item = "history_item ?actions (history_executions rows' acc ?actions) (derive rows') (ev, da)"
  have new_item: "?item \<in> set (listed rows')" using ev(1) by (auto simp: listed_def)
  let ?ref = "\<lparr>ref_actionId = da_actionId a, ref_traefikProviderId = ?p, ref_group = da_group a\<rparr>"
  have ref: "?ref \<in> set ?refs" by (rule delivery_relevant [OF a]) (rule map_filter_mem)
  then have "?p \<in> set (map ref_traefikProviderId ?refs)" by (force simp: image_iff)
  then have provider: "map_of (map (\<lambda>i. (i, history_provider rows' acc i)) (uniq (map ref_traefikProviderId ?refs))) ?p
      = Some (history_provider rows' acc ?p)"
    by (simp add: map_of_map_restrict)
  obtain nm where hp: "history_provider rows' acc ?p = \<lparr>dp_name = nm, dp_events = readStream rows' ?k\<rparr>"
    using history_provider_events by blast
  obtain row where row: "winner ?c (provider_puts ?ref (history_provider rows' acc ?p)) = Some row"
    "td_actionId row = da_actionId a" "td_group row = da_group a" "td_kind row = Delivered" "td_version row = Some (sp_version (pr_snapshot r))"
    using published_winner [OF e'(3) [unfolded same] e(5), of ?ref nm] unfolding hp e(4,6) by auto
  have "row \<in> set (hi_deliveries ?item)"
    unfolding history_item_def prod.case HistoryItem.select_convs ev(2) derive_def deriveDeliveries_winners [OF c] nullish_or_def option.case
    by (rule map_filter_mem [OF ref]) (simp add: provider row)
  with row have "\<exists>row \<in> set (hi_deliveries ?item). td_actionId row = da_actionId a \<and> td_group row = da_group a
      \<and> td_kind row = Delivered \<and> td_version row = Some (sp_version (pr_snapshot r))" by blast
  moreover have "hi_ipChangedEventId ?item = ?c" by (simp add: history_item_def ev(2))
  ultimately have "\<exists>item' \<in> set (listed rows'). hi_ipChangedEventId item' = ?c
      \<and> (\<exists>row \<in> set (hi_deliveries item'). td_actionId row = da_actionId a \<and> td_group row = da_group a
           \<and> td_kind row = Delivered \<and> td_version row = Some (sp_version (pr_snapshot r)))"
    using new_item by (intro bexI [of _ ?item]) simp_all
  moreover have "map hi_ipChangedEventId (listed rows') = map hi_ipChangedEventId items" "map hi_data (listed rows') = map hi_data items"
    unfolding items by (simp_all only: ids)
  ultimately show ?thesis using now by blast
qed

text \<open>A device with one recorded change and one delivery action, at present disabled.\<close>

definition sample_history :: event_store where
  "sample_history = sample_provider_rows @
     [sample_row ''h1'' ''acc'' ''d'' 1 (IpClientEv (IpClientRegistered \<lparr>icr_ipClientId = ''d'', icr_accountId = ''acc'', icr_label = ''home'',
        icr_credentialHash = [], icr_registeredAt = 0\<rparr>)),
      sample_row ''c'' ''acc'' ''d'' 2 (sample_change ''1.2.3.4''),
      sample_row ''h2'' ''acc'' ''v'' 1 (sample_attach ''acc'' ''v'' ''d'' ''p'' ''web''),
      sample_row ''h3'' ''acc'' ''v'' 2 (ActionEv (ActionDisabled ''v''))]"

lemmas sample_history_defs = sample_history_def sample_provider_rows_def sample_change_def sample_attach_def

lemma sample_history_wf: "wf_store sample_history"
  by (auto simp: wf_store_def aggregate_rows_def sample_history_defs Let_def)

lemma sample_history_reads:
  "readStream sample_history (stream ''acc'' TRAEFIK_PROVIDER ''p'') = readStream sample_provider_rows (stream ''acc'' TRAEFIK_PROVIDER ''p'')"
  "listAggregateIds sample_history ''acc'' ACTION = [''v'']"
  by (simp_all add: readStream_def in_stream_def sample_history_defs listAggregateIds_def uniq_def)

lemma sample_history_action:
  "fst (loadAction sample_history ''acc'' ''v'') = initialActionState\<lparr>ac_actionId := Some ''v'', ac_accountId := Some ''acc'',
     ac_ipClientId := Some ''d'', ac_type := Some TRAEFIK_CONFIG_DELIVERY_ACTION_TYPE, ac_addressFamilies := [],
     ac_config := Some (empty_config\<lparr>cf_traefikProviderId := Some ''p'', cf_group := Some ''web''\<rparr>), ac_status := ActDisabled\<rparr>"
  by (simp add: loadAction_def loadAggregate_def readStream_def in_stream_def sample_history_defs actionReducer_def initialActionState_def)

lemma sample_history_device:
  "ic_ipClientId (fst (loadIpClient sample_history ''acc'' ''d'')) = Some ''d''" "ic_accountId (fst (loadIpClient sample_history ''acc'' ''d'')) = Some ''acc''"
  "map ev_id (map fst (List.map_filter change_of (fst (snd (loadIpClient sample_history ''acc'' ''d''))))) = [''c'']"
  by (simp_all add: loadIpClient_def loadAggregate_def readStream_def in_stream_def sample_history_defs ipClientReducer_def
      initialIpClientState_def map_filter_simps change_of_def)

lemma published_change_shown_witness:
  "\<exists>r rows' items'. publish code_point_compare sample_crypto sample_config sample_tick sample_history ''acc'' ''p'' (Some ''c'') []
      = (Inr (Some r), rows')
    \<and> ip_client_history rows' ''acc'' ''d'' = Inr items' \<and> (\<exists>item \<in> set items'. hi_ipChangedEventId item = ''c'' \<and> hi_deliveries item \<noteq> [])"
proof -
  let ?a = "\<lparr>da_actionId = ''v'', da_ipClientId = ''d'', da_traefikProviderId = ''p'', da_group = ''web'', da_status = ActDisabled\<rparr>"
  have a: "?a \<in> set (listDeliveryActions sample_history ''acc'')"
    by (simp add: listDeliveryActions_def sample_history_reads map_filter_simps sample_history_action delivery_action_def
        delivery_provider_def delivery_group_def initialActionState_def)
  have members: "snapshot_members sample_history ''acc'' ''p'' = []"
    by (simp add: snapshot_members_def sample_history_reads map_filter_simps sample_history_action snapshot_member_def initialActionState_def)
  have state: "ld_state (provider_load sample_history ''acc'' ''p'') = initialTraefikProviderState\<lparr>tp_providerId := Some ''p'',
     tp_accountId := Some ''acc'', tp_name := ''n''\<rparr>"
    using sample_provider_state by (simp add: provider_load_simps sample_history_reads)
  have "char_of (49 :: nat) \<noteq> CHR ''c''" by code_simp
  then have fresh: "tk_id (sample_tick 1) \<notin> ev_id ` set sample_history" "\<forall>r \<in> set (aggregate_rows sample_history TRAEFIK_PROVIDER ''p''). ev_accountId r = ''acc''"
    by (simp_all add: sample_history_defs sample_tick_def nat_to_string.simps aggregate_rows_def)
  obtain r rows' where publish: "publish code_point_compare sample_crypto sample_config sample_tick sample_history ''acc'' ''p'' (Some ''c'') []
      = (Inr (Some r), rows')" "pr_changed r"
    by (rule publish_first [OF sample_history_wf fresh state members])
  obtain st evs n where load: "loadIpClient sample_history ''acc'' ''d'' = (st, evs, n)" using prod_cases3 by blast
  have owned: "\<not> (\<not> truthy (ic_ipClientId st) \<or> ic_accountId st \<noteq> Some ''acc'')" using sample_history_device(1,2) by (simp add: load)
  obtain items where items: "ip_client_history sample_history ''acc'' ''d'' = Inr items" and ids: "map hi_ipChangedEventId items = [''c'']"
    using sample_history_device(3) unfolding ip_client_history_def load prod.case if_not_P [OF owned] Let_def
    by (simp add: history_item_def case_prod_beta o_def)
  then obtain item where item: "item \<in> set items" "hi_ipChangedEventId item = ''c''" by auto
  from published_change_shown [OF sample_history_wf _ item(1) a, of code_point_compare sample_crypto sample_config sample_tick "[]" r rows'] items publish item(2)
  obtain items' item' row where "ip_client_history rows' ''acc'' ''d'' = Inr items'" "item' \<in> set items'" "hi_ipChangedEventId item' = ''c''"
    "row \<in> set (hi_deliveries item')" by auto
  then show ?thesis
    by (intro exI [of _ r] exI [of _ rows'] exI [of _ items'] conjI publish(1) bexI [of _ item']) (auto)
qed

end
