(* ===== verification/Migrations.thy ===== *)
theory Migrations
  imports Config Json
begin

text \<open>
  The migration runner \<open>adapters/event-store-postgres/migrate.ts\<close> and the command
  \<open>cli/migrate-command.ts\<close> around it.

  The database is the applied schema (of a type \<open>'d\<close> nothing is assumed of), the rows of
  \<open>schema_migrations\<close> in order of insertion, if that table exists, and the session that holds the
  advisory lock. What a \<open>.sql\<close> file does to the schema and what \<open>readFileSync\<close> finds in it are
  arguments; \<open>fault\<close> says which statement of a run Postgres refuses, if any: a run sends each of its
  statements once, so this covers every pattern of failures. A transaction that does not commit leaves nothing.

  The functions \<open>runMigrations\<close> and \<open>assertSchemaCurrent\<close> are one process alone. The step machine
  \<open>mig_step\<close> cuts a run at every \<open>await\<close>; several processes, of builds that may differ in the files they
  bring, take steps on one database.
\<close>

section \<open>One run\<close>

record 'd database =
  db_schema :: 'd
  db_applied :: "string list option"
  db_lock :: "nat option"

datatype statement =
    StLock
  | StCreateTable
  | StSelect
  | StBegin string
  | StSql string
  | StInsert string
  | StCommit string

record 'd migration_env =
  me_dir :: "exn + string list"
  me_read :: "string \<Rightarrow> exn + string"
  me_exec :: "string \<Rightarrow> 'd \<Rightarrow> exn + 'd"

datatype migration_exn =
    MigrationError string exn
  | MigrationOther exn

definition migration_error_message :: "string \<Rightarrow> string \<Rightarrow> string" where
  "migration_error_message filename cause = ''migration '' @ filename @ '' failed: '' @ cause"

text \<open>\<open>readdirSync\<close> gives the names in the directory, or throws.\<close>

definition sql_files :: "string list \<Rightarrow> string list" where
  "sql_files dir = sort_by str_le (filter (\<lambda>f. ends_with f ''.sql'') dir)"

definition migrationFiles :: "exn + string list \<Rightarrow> exn + string list" where
  "migrationFiles dir = (case dir of Inl err \<Rightarrow> Inl err | Inr names \<Rightarrow> Inr (sql_files names))"

definition applied_rows :: "'d database \<Rightarrow> string list" where
  "applied_rows db = nullish_or (db_applied db) []"

text \<open>\<open>BEGIN\<close>, the file, \<open>INSERT INTO schema_migrations\<close> (whose key is the file name) and \<open>COMMIT\<close>.\<close>

definition migration_transaction ::
  "'d migration_env \<Rightarrow> (statement \<Rightarrow> exn option) \<Rightarrow> string \<Rightarrow> string \<Rightarrow> 'd database \<Rightarrow> exn + 'd database" where
  "migration_transaction env fault file sql db =
     (case fault (StBegin file) of Some err \<Rightarrow> Inl err | None \<Rightarrow>
      case fault (StSql file) of Some err \<Rightarrow> Inl err | None \<Rightarrow>
      case me_exec env sql (db_schema db) of Inl err \<Rightarrow> Inl err | Inr schema \<Rightarrow>
      case fault (StInsert file) of Some err \<Rightarrow> Inl err | None \<Rightarrow>
      if file \<in> set (applied_rows db) then Inl (JsError ''duplicate key value violates unique constraint'')
      else case fault (StCommit file) of Some err \<Rightarrow> Inl err | None \<Rightarrow>
      Inr (db\<lparr>db_schema := schema, db_applied := Some (applied_rows db @ [file])\<rparr>))"

definition apply_file ::
  "'d migration_env \<Rightarrow> (statement \<Rightarrow> exn option) \<Rightarrow> string \<Rightarrow> 'd database \<Rightarrow> (migration_exn + unit) \<times> 'd database" where
  "apply_file env fault file db =
     (case me_read env file of Inl err \<Rightarrow> (Inl (MigrationOther err), db) | Inr sql \<Rightarrow>
      case migration_transaction env fault file sql db of
        Inl err \<Rightarrow> (Inl (MigrationError file err), db)
      | Inr db' \<Rightarrow> (Inr (), db'))"

fun migrate_loop ::
  "'d migration_env \<Rightarrow> (statement \<Rightarrow> exn option) \<Rightarrow> string set \<Rightarrow> string list \<Rightarrow> string list \<Rightarrow> 'd database \<Rightarrow>
   (migration_exn + string list) \<times> 'd database" where
  "migrate_loop env fault alreadyApplied [] applied db = (Inr applied, db)"
| "migrate_loop env fault alreadyApplied (file # files) applied db =
     (if file \<in> alreadyApplied then migrate_loop env fault alreadyApplied files applied db
      else (case apply_file env fault file db of
          (Inl err, db) \<Rightarrow> (Inl err, db)
        | (Inr u, db) \<Rightarrow> migrate_loop env fault alreadyApplied files (applied @ [file]) db))"

text \<open>\<open>CREATE TABLE IF NOT EXISTS schema_migrations\<close>\<close>

definition create_table :: "'d database \<Rightarrow> 'd database" where
  "create_table db = db\<lparr>db_applied := Some (applied_rows db)\<rparr>"

text \<open>One process: the advisory lock is free, taken and given back.\<close>

definition runMigrations ::
  "'d migration_env \<Rightarrow> (statement \<Rightarrow> exn option) \<Rightarrow> 'd database \<Rightarrow> (migration_exn + string list) \<times> 'd database" where
  "runMigrations env fault db =
     (case fault StLock of Some err \<Rightarrow> (Inl (MigrationOther err), db) | None \<Rightarrow>
      case fault StCreateTable of Some err \<Rightarrow> (Inl (MigrationOther err), db) | None \<Rightarrow>
      let db = create_table db in
      case fault StSelect of Some err \<Rightarrow> (Inl (MigrationOther err), db) | None \<Rightarrow>
      case migrationFiles (me_dir env) of Inl err \<Rightarrow> (Inl (MigrationOther err), db) | Inr files \<Rightarrow>
      migrate_loop env fault (set (applied_rows db)) files [] db)"

text \<open>The check at the start of the application; its two queries can fail.\<close>

datatype schema_exn =
    SchemaOutdatedError "string list"
  | SchemaCheckFailed exn

definition schema_outdated_message :: "string list \<Rightarrow> string" where
  "schema_outdated_message pending = ''Database schema is outdated: '' @ nat_to_string (length pending) @ '' pending migration(s) ('' @
     join_with '', '' pending @ ''). Run: node backend/dist/cli.js migrate''"

definition pending_files :: "string list \<Rightarrow> 'd database \<Rightarrow> string list" where
  "pending_files files db = filter (\<lambda>f. f \<notin> set (applied_rows db)) files"

definition assertSchemaCurrent ::
  "exn option \<Rightarrow> exn option \<Rightarrow> exn + string list \<Rightarrow> 'd database \<Rightarrow> schema_exn + unit" where
  "assertSchemaCurrent regclassError selectError dir db =
     (case regclassError of Some err \<Rightarrow> Inl (SchemaCheckFailed err) | None \<Rightarrow>
      case (if db_applied db = None then None else selectError) of Some err \<Rightarrow> Inl (SchemaCheckFailed err) | None \<Rightarrow>
      case migrationFiles dir of Inl err \<Rightarrow> Inl (SchemaCheckFailed err) | Inr files \<Rightarrow>
      let pending = pending_files files db in
      if length pending > 0 then Inl (SchemaOutdatedError pending) else Inr ())"

section \<open>What a run does\<close>

text \<open>The schema after the files \<open>fs\<close>, one after the other; \<open>None\<close> if one cannot be read or executed.\<close>

fun exec_all :: "'d migration_env \<Rightarrow> string list \<Rightarrow> 'd \<Rightarrow> 'd option" where
  "exec_all env [] d = Some d"
| "exec_all env (f # fs) d = (case me_read env f of Inl err \<Rightarrow> None | Inr sql \<Rightarrow>
     case me_exec env sql d of Inl err \<Rightarrow> None | Inr d' \<Rightarrow> exec_all env fs d')"

lemma exec_all_app: "exec_all env (fs @ gs) d = Option.bind (exec_all env fs d) (exec_all env gs)"
  by (induction fs arbitrary: d) (simp_all split: sum.split)

lemma applied_rows_simps [simp]:
  "applied_rows (db\<lparr>db_applied := Some fs\<rparr>) = fs" "applied_rows (create_table db) = applied_rows db"
  "applied_rows (db\<lparr>db_lock := l\<rparr>) = applied_rows db" "applied_rows (db\<lparr>db_schema := d\<rparr>) = applied_rows db"
  "db_schema (create_table db) = db_schema db" "db_lock (create_table db) = db_lock db"
  by (simp_all add: applied_rows_def create_table_def)

text \<open>A file is applied as a whole or not at all.\<close>

lemma apply_file_cases:
  obtains (done_file) d where "apply_file env fault f db = (Inr (), db\<lparr>db_schema := d, db_applied := Some (applied_rows db @ [f])\<rparr>)"
      and "exec_all env [f] (db_schema db) = Some d" and "f \<notin> set (applied_rows db)"
  | (refused) err where "apply_file env fault f db = (Inl (MigrationError f err), db)"
  | (unread) err where "apply_file env fault f db = (Inl (MigrationOther err), db)" and "me_read env f = Inl err"
proof (cases "me_read env f")
  case (Inl err)
  then show ?thesis by (intro unread) (simp_all add: apply_file_def)
next
  case (Inr sql)
  show ?thesis
  proof (cases "migration_transaction env fault f sql db")
    case (Inl err)
    with Inr show ?thesis by (intro refused) (simp add: apply_file_def)
  next
    case tx: (Inr db')
    then obtain d where "me_exec env sql (db_schema db) = Inr d" "f \<notin> set (applied_rows db)"
      "db' = db\<lparr>db_schema := d, db_applied := Some (applied_rows db @ [f])\<rparr>"
      by (auto simp: migration_transaction_def split: option.splits sum.splits if_splits)
    with Inr tx show ?thesis by (intro done_file [of d]) (simp_all add: apply_file_def)
  qed
qed

text \<open>
  The loop from a database whose rows are the files it has seen: it applies a prefix of those not recorded, and
  stops at the first that fails.
\<close>

definition loop_outcome ::
  "'d migration_env \<Rightarrow> string list \<Rightarrow> string list \<Rightarrow> 'd database \<Rightarrow> migration_exn + string list \<Rightarrow> 'd database \<Rightarrow> bool" where
  "loop_outcome env todo applied db r db' = (\<exists>k \<le> length todo.
     db_applied db' = (if k = 0 then db_applied db else Some (applied_rows db @ take k todo))
   \<and> exec_all env (take k todo) (db_schema db) = Some (db_schema db') \<and> db_lock db' = db_lock db
   \<and> (case r of
        Inr fs \<Rightarrow> k = length todo \<and> fs = applied @ todo
      | Inl (MigrationError f err) \<Rightarrow> k < length todo \<and> f = todo ! k
      | Inl (MigrationOther err) \<Rightarrow> k < length todo \<and> me_read env (todo ! k) = Inl err))"

lemma migrate_loop_outcome:
  assumes "migrate_loop env fault already files applied db = (r, db')" and "distinct files"
    and "\<forall>f \<in> set files. f \<in> already \<longleftrightarrow> f \<in> set (applied_rows db)"
  shows "loop_outcome env (pending_files files db) applied db r db'"
  using assms
proof (induction files arbitrary: applied db)
  case Nil
  then show ?case by (auto simp: loop_outcome_def pending_files_def)
next
  case (Cons f files)
  show ?case
  proof (cases "f \<in> already")
    case True
    with Cons.prems have "migrate_loop env fault already files applied db = (r, db')" "f \<in> set (applied_rows db)" by simp_all
    with Cons.IH [OF this(1)] Cons.prems show ?thesis by (simp add: pending_files_def)
  next
    case False
    with Cons.prems have todo: "pending_files (f # files) db = f # pending_files files db" by (simp add: pending_files_def)
    show ?thesis
    proof (cases rule: apply_file_cases [of env fault f db])
      case (done_file d)
      let ?db = "db\<lparr>db_schema := d, db_applied := Some (applied_rows db @ [f])\<rparr>"
      have same: "pending_files files ?db = pending_files files db"
        unfolding pending_files_def by (rule filter_cong) (use Cons.prems(2) in auto)
      have "migrate_loop env fault already files (applied @ [f]) ?db = (r, db')" using Cons.prems(1) False done_file(1) by simp
      from Cons.IH [OF this] Cons.prems have "loop_outcome env (pending_files files db) (applied @ [f]) ?db r db'"
        by (auto simp: same)
      then obtain k where k: "k \<le> length (pending_files files db)"
        "db_applied db' = (if k = 0 then Some (applied_rows db @ [f]) else Some ((applied_rows db @ [f]) @ take k (pending_files files db)))"
        "exec_all env (take k (pending_files files db)) d = Some (db_schema db')" "db_lock db' = db_lock db"
        and r: "case r of Inr fs \<Rightarrow> k = length (pending_files files db) \<and> fs = (applied @ [f]) @ pending_files files db
          | Inl (MigrationError g err) \<Rightarrow> k < length (pending_files files db) \<and> g = pending_files files db ! k
          | Inl (MigrationOther err) \<Rightarrow> k < length (pending_files files db) \<and> me_read env (pending_files files db ! k) = Inl err"
        by (auto simp: loop_outcome_def)
      have "exec_all env (take (Suc k) (f # pending_files files db)) (db_schema db) = Some (db_schema db')"
        using k(3) done_file(2) exec_all_app [of env "[f]" "take k (pending_files files db)" "db_schema db"] by (simp del: exec_all.simps)
      then show ?thesis unfolding todo loop_outcome_def
        by (intro exI [of _ "Suc k"]) (use k r in \<open>auto split: sum.splits migration_exn.splits if_splits\<close>)
    next
      case (refused err)
      with Cons.prems(1) False have "r = Inl (MigrationError f err)" "db' = db" by simp_all
      then show ?thesis unfolding todo loop_outcome_def by (intro exI [of _ 0]) simp
    next
      case (unread err)
      with Cons.prems(1) False have "r = Inl (MigrationOther err)" "db' = db" by simp_all
      with unread(2) show ?thesis unfolding todo loop_outcome_def by (intro exI [of _ 0]) simp
    qed
  qed
qed

lemma distinct_sql_files [simp]: "distinct names \<Longrightarrow> distinct (sql_files names)"
  by (simp add: sql_files_def)

lemma set_sql_files: "f \<in> set (sql_files names) \<longleftrightarrow> f \<in> set names \<and> ends_with f ''.sql''"
  by (auto simp: sql_files_def)

section \<open>Several processes\<close>

datatype mig_pc =
    MigStart
  | MigLocked
  | MigCreated
  | MigLoop "string set" "string list" "string list"
  | MigFinally "migration_exn + string list"
  | MigDone "migration_exn + string list"

text \<open>One step of process \<open>p\<close>, up to its next \<open>await\<close> of the database; \<open>None\<close> where it waits or is done.\<close>

fun mig_step ::
  "'d migration_env \<Rightarrow> (statement \<Rightarrow> exn option) \<Rightarrow> nat \<Rightarrow> mig_pc \<times> 'd database \<Rightarrow> (mig_pc \<times> 'd database) option" where
  "mig_step env fault p (MigStart, db) =
     (case fault StLock of Some err \<Rightarrow> Some (MigDone (Inl (MigrationOther err)), db) | None \<Rightarrow>
      if db_lock db = None then Some (MigLocked, db\<lparr>db_lock := Some p\<rparr>) else None)"
| "mig_step env fault p (MigLocked, db) =
     (case fault StCreateTable of Some err \<Rightarrow> Some (MigFinally (Inl (MigrationOther err)), db) | None \<Rightarrow>
      Some (MigCreated, create_table db))"
| "mig_step env fault p (MigCreated, db) =
     (case fault StSelect of Some err \<Rightarrow> Some (MigFinally (Inl (MigrationOther err)), db) | None \<Rightarrow>
      case migrationFiles (me_dir env) of Inl err \<Rightarrow> Some (MigFinally (Inl (MigrationOther err)), db) | Inr files \<Rightarrow>
      Some (MigLoop (set (applied_rows db)) files [], db))"
| "mig_step env fault p (MigLoop already [] applied, db) = Some (MigFinally (Inr applied), db)"
| "mig_step env fault p (MigLoop already (file # files) applied, db) =
     (if file \<in> already then Some (MigLoop already files applied, db)
      else (case apply_file env fault file db of
          (Inl err, db) \<Rightarrow> Some (MigFinally (Inl err), db)
        | (Inr u, db) \<Rightarrow> Some (MigLoop already files (applied @ [file]), db)))"
| "mig_step env fault p (MigFinally r, db) = Some (MigDone r, db\<lparr>db_lock := None\<rparr>)"
| "mig_step env fault p (MigDone r, db) = None"

text \<open>
  The world: every process has its own environment (they share what a file of a given name holds) and its
  own position; a fault can strike any step.
\<close>

record 'd migration_world =
  mw_db :: "'d database"
  mw_pc :: "nat \<Rightarrow> mig_pc"

inductive mig_reachable :: "(nat \<Rightarrow> 'd migration_env) \<Rightarrow> 'd database \<Rightarrow> 'd migration_world \<Rightarrow> bool"
  for envs and start where
  mig_reach_start: "mig_reachable envs start \<lparr>mw_db = start\<lparr>db_lock := None\<rparr>, mw_pc = (\<lambda>p. MigStart)\<rparr>"
| mig_reach_step: "mig_reachable envs start w \<Longrightarrow> mig_step (envs p) fault p (mw_pc w p, mw_db w) = Some (pc', db') \<Longrightarrow>
    mig_reachable envs start (w\<lparr>mw_db := db', mw_pc := (mw_pc w)(p := pc')\<rparr>)"

section \<open>The command\<close>

text \<open>\<open>run\<close> of \<open>migrate-command.ts\<close>: the lines written and the exit code; \<open>describeError\<close> is an argument.\<close>

datatype cli_line = StdOut string | StdErr string

definition EXIT_OK :: nat where "EXIT_OK = 0"
definition EXIT_ERROR :: nat where "EXIT_ERROR = 1"
definition EXIT_USAGE :: nat where "EXIT_USAGE = 2"

definition migrate_report :: "(exn \<Rightarrow> string) \<Rightarrow> migration_exn + string list \<Rightarrow> cli_line list \<times> nat" where
  "migrate_report describe r = (case r of
       Inr applied \<Rightarrow>
         (if length applied = 0 then [StdOut ''up to date'']
          else map (\<lambda>file. StdOut (''applied '' @ file)) applied
            @ [StdOut (nat_to_string (length applied) @ '' migration(s) applied'')], EXIT_OK)
     | Inl (MigrationError file cause) \<Rightarrow> ([StdErr (''migration '' @ file @ '' failed: '' @ describe cause)], EXIT_ERROR)
     | Inl (MigrationOther err) \<Rightarrow> ([StdErr (''cannot run migrations: '' @ describe err)], EXIT_ERROR))"

definition migrate_command ::
  "(exn \<Rightarrow> string) \<Rightarrow> string option \<Rightarrow> 'd migration_env \<Rightarrow> (statement \<Rightarrow> exn option) \<Rightarrow> 'd database \<Rightarrow>
   (cli_line list \<times> nat) \<times> 'd database" where
  "migrate_command describe url env fault db =
     (if \<not> truthy url \<or> js_trim (the url) = []
      then (([StdErr ''Missing required environment variable: BACKEND_DATABASE_URL''], EXIT_ERROR), db)
      else (case runMigrations env fault db of (r, db) \<Rightarrow> (migrate_report describe r, db)))"

section \<open>One process\<close>

text \<open>A process that nobody makes wait computes \<open>runMigrations\<close>, within a number of steps the directory bounds.\<close>

fun mig_steps :: "'d migration_env \<Rightarrow> (statement \<Rightarrow> exn option) \<Rightarrow> nat \<Rightarrow> nat \<Rightarrow> mig_pc \<times> 'd database \<Rightarrow> mig_pc \<times> 'd database" where
  "mig_steps env fault p 0 s = s"
| "mig_steps env fault p (Suc n) s = (case mig_step env fault p s of None \<Rightarrow> s | Some s' \<Rightarrow> mig_steps env fault p n s')"

definition dir_files :: "'d migration_env \<Rightarrow> string list" where
  "dir_files env = (case migrationFiles (me_dir env) of Inl err \<Rightarrow> [] | Inr files \<Rightarrow> files)"

fun mig_left :: "'d migration_env \<Rightarrow> mig_pc \<Rightarrow> nat" where
  "mig_left env MigStart = length (dir_files env) + 5"
| "mig_left env MigLocked = length (dir_files env) + 4"
| "mig_left env MigCreated = length (dir_files env) + 3"
| "mig_left env (MigLoop already files applied) = length files + 2"
| "mig_left env (MigFinally r) = 1"
| "mig_left env (MigDone r) = 0"

lemma mig_step_left:
  "mig_step env fault p (pc, db) = Some (pc', db') \<Longrightarrow> mig_left env pc' < mig_left env pc"
  by (cases "(env, fault, p, pc, db)" rule: mig_step.cases)
    (auto simp: dir_files_def split: option.splits sum.splits if_splits prod.splits)

lemma mig_step_done: "mig_step env fault p (MigDone r, db) = None"
  by simp

lemma mig_steps_done [simp]: "mig_steps env fault p n (MigDone r, db) = (MigDone r, db)"
  by (cases n) simp_all

lemma mig_steps_Suc: "0 < n \<Longrightarrow> mig_steps env fault p n s =
    (case mig_step env fault p s of None \<Rightarrow> s | Some s' \<Rightarrow> mig_steps env fault p (n - 1) s')"
  by (cases n) (simp_all split: option.split)

text \<open>The lock is not looked at while it is held.\<close>

lemma apply_file_lock:
  "apply_file env fault f (db\<lparr>db_lock := l\<rparr>) = (case apply_file env fault f db of (r, db') \<Rightarrow> (r, db'\<lparr>db_lock := l\<rparr>))"
  by (simp add: apply_file_def migration_transaction_def split: sum.split option.split)

lemma mig_loop_runs:
  "length files + 2 \<le> n \<Longrightarrow> mig_steps env fault p n (MigLoop already files applied, db\<lparr>db_lock := Some p\<rparr>)
     = (case migrate_loop env fault already files applied db of (r, db') \<Rightarrow> (MigDone r, db'\<lparr>db_lock := None\<rparr>))"
proof (induction files arbitrary: n applied db)
  case Nil
  then show ?case by (simp add: mig_steps_Suc)
next
  case (Cons f files)
  then have n: "0 < n" "length files + 2 \<le> n - 1" by simp_all
  show ?case
  proof (cases "f \<in> already")
    case True
    then show ?thesis using Cons.IH [OF n(2), of applied db] n(1) by (simp add: mig_steps_Suc)
  next
    case False
    obtain r db' where ap: "apply_file env fault f db = (r, db')" by fastforce
    show ?thesis
    proof (cases r)
      case (Inl err)
      with n show ?thesis by (simp add: False mig_steps_Suc apply_file_lock ap)
    next
      case (Inr u)
      with Cons.IH [OF n(2), of "applied @ [f]" db'] n(1) show ?thesis by (simp add: False mig_steps_Suc apply_file_lock ap)
    qed
  qed
qed


lemma apply_file_keeps_lock: "apply_file env fault f db = (r, db') \<Longrightarrow> db_lock db' = db_lock db"
  by (cases rule: apply_file_cases [of env fault f db]) auto

lemma migrate_loop_lock: "migrate_loop env fault already files applied db = (r, db') \<Longrightarrow> db_lock db' = db_lock db"
  by (induction files arbitrary: applied db) (auto split: if_splits sum.splits prod.splits dest: apply_file_keeps_lock)

lemma unlocked: "db_lock db = None \<Longrightarrow> db\<lparr>db_lock := None\<rparr> = db"
  by (cases db) simp

lemma create_table_lock: "create_table (db\<lparr>db_lock := l\<rparr>) = (create_table db)\<lparr>db_lock := l\<rparr>"
  by (simp add: create_table_def)

theorem run_is_atomic:
  assumes "db_lock db = None" and "length (dir_files env) + 5 \<le> n" and "runMigrations env fault db = (r, db')"
  shows "mig_steps env fault p n (MigStart, db) = (MigDone r, db')"
proof -
  have unlock: "db\<lparr>db_lock := None\<rparr> = db" "(create_table db)\<lparr>db_lock := None\<rparr> = create_table db"
    using assms(1) by (simp_all add: unlocked)
  note run = assms(3) [unfolded runMigrations_def]
  obtain m where n: "n = Suc (Suc (Suc m))" and m: "length (dir_files env) + 2 \<le> m"
    by (rule that [of "n - 3"]) (use assms(2) in simp_all)
  then obtain m' where m': "m = Suc m'" by (cases m) simp_all
  note steps = n create_table_lock unlock assms(1)
  show ?thesis
  proof (cases "fault StLock")
    case None
    show ?thesis
    proof (cases "fault StCreateTable")
      case create: None
      show ?thesis
      proof (cases "fault StSelect")
        case select: None
        show ?thesis
        proof (cases "migrationFiles (me_dir env)")
          case (Inl err)
          with run None create select have eq: "r = Inl (MigrationOther err)" "db' = create_table db" by (simp_all add: Let_def)
          show ?thesis unfolding eq using None create select Inl by (simp add: steps m')
        next
          case (Inr files)
          with run None create select have loop: "migrate_loop env fault (set (applied_rows db)) files [] (create_table db) = (r, db')"
            by (simp add: Let_def)
          have "db'\<lparr>db_lock := None\<rparr> = db'" using migrate_loop_lock [OF loop] assms(1) by (simp add: unlocked)
          moreover have "length files + 2 \<le> m" using m Inr by (simp add: dir_files_def)
          ultimately show ?thesis using None create select Inr loop by (simp add: steps mig_loop_runs)
        qed
      next
        case (Some err)
        with run None create have eq: "r = Inl (MigrationOther err)" "db' = create_table db" by (simp_all add: Let_def)
        show ?thesis unfolding eq using None create Some by (simp add: steps m')
      qed
    next
      case (Some err)
      with run None have eq: "r = Inl (MigrationOther err)" "db' = db" by simp_all
      show ?thesis unfolding eq using None Some by (simp add: steps m')
    qed
  next
    case (Some err)
    with run show ?thesis by (simp add: steps)
  qed
qed

section \<open>Properties of a run\<close>

lemma run_cases:
  assumes "runMigrations env fault db = (r, db')" and "me_dir env = Inr names" and "distinct names"
  obtains (early) err where "r = Inl (MigrationOther err)" and "applied_rows db' = applied_rows db" and "db_schema db' = db_schema db"
  | (loop) "db_applied db' \<noteq> None" and "loop_outcome env (pending_files (sql_files names) db) [] (create_table db) r db'"
proof (cases "fault StLock = None \<and> fault StCreateTable = None \<and> fault StSelect = None")
  case True
  with assms(1,2) have "migrate_loop env fault (set (applied_rows (create_table db))) (sql_files names) [] (create_table db) = (r, db')"
    by (simp add: runMigrations_def migrationFiles_def Let_def)
  from migrate_loop_outcome [OF this] assms(3)
  have outcome: "loop_outcome env (pending_files (sql_files names) db) [] (create_table db) r db'" by (simp add: pending_files_def)
  then have "db_applied db' \<noteq> None" by (auto simp: loop_outcome_def create_table_def split: if_splits)
  with outcome show ?thesis by (intro loop)
next
  case False
  with assms(1) obtain err where "r = Inl (MigrationOther err)" "db' = db \<or> db' = create_table db"
    by (auto simp: runMigrations_def Let_def split: option.splits)
  then show ?thesis by (intro early) auto
qed

lemma run_outcome:
  assumes "runMigrations env fault db = (r, db')" and "me_dir env = Inr names" and "distinct names"
  defines "todo \<equiv> pending_files (sql_files names) db"
  shows "\<exists>k \<le> length todo. applied_rows db' = applied_rows db @ take k todo
    \<and> exec_all env (take k todo) (db_schema db) = Some (db_schema db')
    \<and> (case r of
         Inr applied \<Rightarrow> k = length todo \<and> applied = todo
       | Inl (MigrationError f err) \<Rightarrow> k < length todo \<and> f = todo ! k
       | Inl (MigrationOther err) \<Rightarrow> k = 0 \<or> k < length todo \<and> me_read env (todo ! k) = Inl err)"
  using assms(1-3)
proof (cases rule: run_cases)
  case (early err)
  then show ?thesis by (intro exI [of _ 0]) simp
next
  case loop
  note out = loop(2) [folded todo_def, unfolded loop_outcome_def]
  from out obtain k where k: "k \<le> length todo" "exec_all env (take k todo) (db_schema db) = Some (db_schema db')"
      "db_applied db' = (if k = 0 then db_applied (create_table db) else Some (applied_rows db @ take k todo))"
    and r: "case r of Inr fs \<Rightarrow> k = length todo \<and> fs = [] @ todo
      | Inl (MigrationError f err) \<Rightarrow> k < length todo \<and> f = todo ! k
      | Inl (MigrationOther err) \<Rightarrow> k < length todo \<and> me_read env (todo ! k) = Inl err"
    by (simp only: applied_rows_simps) blast
  have "applied_rows db' = applied_rows db @ take k todo"
    using k(3) by (cases "k = 0") (simp_all add: applied_rows_def create_table_def)
  with k r show ?thesis by (intro exI [of _ k]) (auto split: sum.splits migration_exn.splits)
qed

text \<open>After a run that returned, the application's check passes and another run finds nothing to do.\<close>

theorem migrated_is_current:
  assumes "runMigrations env fault db = (Inr applied, db')" and "me_dir env = Inr names" and "distinct names"
  shows "assertSchemaCurrent None None (me_dir env) db' = Inr ()"
    and "runMigrations env (\<lambda>s. None) db' = (Inr [], db')"
proof -
  from run_outcome [OF assms] have rows: "applied_rows db' = applied_rows db @ pending_files (sql_files names) db"
    by auto
  then have seen: "\<forall>f \<in> set (sql_files names). f \<in> set (applied_rows db')" by (auto simp: pending_files_def)
  then show "assertSchemaCurrent None None (me_dir env) db' = Inr ()"
    by (simp add: assertSchemaCurrent_def assms(2) migrationFiles_def pending_files_def)
  have "db_applied db' \<noteq> None" using assms by (cases rule: run_cases) auto
  then have "create_table db' = db'" by (cases db') (auto simp: create_table_def applied_rows_def)
  moreover have "migrate_loop env (\<lambda>s. None) (set (applied_rows db')) fs [] db = (Inr [], db)"
    if "set fs \<subseteq> set (applied_rows db')" for fs db
    using that by (induction fs) auto
  ultimately show "runMigrations env (\<lambda>s. None) db' = (Inr [], db')"
    using seen by (simp add: runMigrations_def migrationFiles_def assms(2) Let_def subset_iff)
qed

section \<open>Concurrent runs\<close>

fun holds_lock :: "mig_pc \<Rightarrow> bool" where
  "holds_lock MigStart = False"
| "holds_lock (MigDone r) = False"
| "holds_lock _ = True"

text \<open>The files a process has applied, and what its position promises of the table's rows.\<close>

fun contribution :: "mig_pc \<Rightarrow> string set" where
  "contribution (MigLoop already files applied) = set applied"
| "contribution (MigFinally (Inr applied)) = set applied"
| "contribution (MigDone (Inr applied)) = set applied"
| "contribution _ = {}"

definition covered :: "'d migration_env \<Rightarrow> string set \<Rightarrow> bool" where
  "covered env rows = (case migrationFiles (me_dir env) of Inl err \<Rightarrow> False | Inr files \<Rightarrow> set files \<subseteq> rows)"

lemma covered_mono: "covered env rows \<Longrightarrow> rows \<subseteq> rows' \<Longrightarrow> covered env rows'"
  by (auto simp: covered_def split: sum.splits)

fun mig_local :: "'d migration_env \<Rightarrow> string set \<Rightarrow> mig_pc \<Rightarrow> bool" where
  "mig_local env rows (MigLoop already files applied) = (covered env (rows \<union> set files) \<and> already \<subseteq> rows)"
| "mig_local env rows (MigFinally (Inr applied)) = covered env rows"
| "mig_local env rows (MigDone (Inr applied)) = covered env rows"
| "mig_local env rows _ = True"

definition mig_ok :: "(nat \<Rightarrow> 'd migration_env) \<Rightarrow> 'd database \<Rightarrow> 'd migration_world \<Rightarrow> bool" where
  "mig_ok envs start w = (
     (\<forall>p. db_lock (mw_db w) = Some p \<longleftrightarrow> holds_lock (mw_pc w p))
   \<and> (\<exists>fs. applied_rows (mw_db w) = applied_rows start @ fs \<and> exec_all (envs 0) fs (db_schema start) = Some (db_schema (mw_db w)))
   \<and> distinct (applied_rows (mw_db w))
   \<and> (\<forall>p. contribution (mw_pc w p) \<subseteq> set (applied_rows (mw_db w)) - set (applied_rows start))
   \<and> (\<forall>p q. p \<noteq> q \<longrightarrow> contribution (mw_pc w p) \<inter> contribution (mw_pc w q) = {})
   \<and> (\<forall>p. mig_local (envs p) (set (applied_rows (mw_db w))) (mw_pc w p)))"

definition same_contents :: "(nat \<Rightarrow> 'd migration_env) \<Rightarrow> bool" where
  "same_contents envs = (\<forall>p q. me_read (envs p) = me_read (envs q) \<and> me_exec (envs p) = me_exec (envs q))"

lemma exec_all_cong:
  "me_read env = me_read env' \<Longrightarrow> me_exec env = me_exec env' \<Longrightarrow> exec_all env fs d = exec_all env' fs d"
  by (induction fs arbitrary: d) (simp_all split: sum.split)

lemma mig_local_mono:
  "mig_local env rows pc \<Longrightarrow> rows \<subseteq> rows' \<Longrightarrow> \<not> holds_lock pc \<Longrightarrow> mig_local env rows' pc"
  by (cases "(env, rows, pc)" rule: mig_local.cases) (auto elim: covered_mono)

text \<open>What a step can be.\<close>

lemma mig_step_cases:
  assumes "mig_step env fault p (pc, db) = Some (pc', db')"
  obtains (acquire) "pc = MigStart" and "db_lock db = None" and "db' = db\<lparr>db_lock := Some p\<rparr>" and "pc' = MigLocked"
  | (refused) err where "pc = MigStart" and "db' = db" and "pc' = MigDone (Inl err)"
  | (release) r where "pc = MigFinally r" and "db' = db\<lparr>db_lock := None\<rparr>" and "pc' = MigDone r"
  | (quiet) "holds_lock pc" and "holds_lock pc'" and "applied_rows db' = applied_rows db" and "db_schema db' = db_schema db"
      and "db_lock db' = db_lock db" and "contribution pc' \<subseteq> contribution pc"
      and "mig_local env (set (applied_rows db)) pc \<Longrightarrow> mig_local env (set (applied_rows db)) pc'"
  | (applied) f d already files done_files where "pc = MigLoop already (f # files) done_files" and "pc' = MigLoop already files (done_files @ [f])"
      and "db' = db\<lparr>db_schema := d, db_applied := Some (applied_rows db @ [f])\<rparr>" and "exec_all env [f] (db_schema db) = Some d"
      and "f \<notin> set (applied_rows db)"
proof (cases pc)
  case MigStart
  with assms show ?thesis by (auto split: option.splits if_splits intro: acquire refused)
next
  case MigLocked
  with assms show ?thesis by (intro quiet) (auto split: option.splits)
next
  case MigCreated
  with assms show ?thesis by (intro quiet) (auto simp: covered_def split: option.splits sum.splits)
next
  case (MigLoop already todo done_files)
  show ?thesis
  proof (cases todo)
    case Nil
    with assms MigLoop show ?thesis by (intro quiet) auto
  next
    case (Cons f files)
    show ?thesis
    proof (cases "f \<in> already")
      case True
      with assms MigLoop Cons have eq: "pc = MigLoop already (f # files) done_files" "pc' = MigLoop already files done_files" "db' = db" by auto
      have "mig_local env rows pc'" if "mig_local env rows pc" for rows
        using that True unfolding eq mig_local.simps by (auto elim: covered_mono)
      with eq show ?thesis by (intro quiet) simp_all
    next
      case False
      with assms MigLoop Cons have step: "(case apply_file env fault f db of (Inl err, db) \<Rightarrow> Some (MigFinally (Inl err), db)
          | (Inr u, db) \<Rightarrow> Some (MigLoop already files (done_files @ [f]), db)) = Some (pc', db')" by simp
      show ?thesis
      proof (cases rule: apply_file_cases [of env fault f db])
        case (done_file d)
        with step MigLoop Cons show ?thesis by (intro applied) auto
      next
        case (refused err)
        with step MigLoop show ?thesis by (intro quiet) auto
      next
        case (unread err)
        with step MigLoop show ?thesis by (intro quiet) auto
      qed
    qed
  qed
next
  case (MigFinally r)
  with assms show ?thesis by (intro release) auto
next
  case (MigDone r)
  with assms show ?thesis by simp
qed

lemma mig_okD:
  assumes "mig_ok envs start w"
  shows "db_lock (mw_db w) = Some q \<longleftrightarrow> holds_lock (mw_pc w q)"
    and "\<exists>fs. applied_rows (mw_db w) = applied_rows start @ fs \<and> exec_all (envs 0) fs (db_schema start) = Some (db_schema (mw_db w))"
    and "distinct (applied_rows (mw_db w))"
    and "contribution (mw_pc w q) \<subseteq> set (applied_rows (mw_db w)) - set (applied_rows start)"
    and "q \<noteq> q' \<Longrightarrow> contribution (mw_pc w q) \<inter> contribution (mw_pc w q') = {}"
    and "mig_local (envs q) (set (applied_rows (mw_db w))) (mw_pc w q)"
  using assms by (simp_all add: mig_ok_def)

lemma mig_ok_update:
  assumes ok: "mig_ok envs start w"
    and lock: "\<And>q. db_lock db' = Some q \<longleftrightarrow> holds_lock (((mw_pc w)(p := pc')) q)"
    and hist: "\<exists>fs. applied_rows db' = applied_rows start @ fs \<and> exec_all (envs 0) fs (db_schema start) = Some (db_schema db')"
    and dist: "distinct (applied_rows db')" and grows: "set (applied_rows (mw_db w)) \<subseteq> set (applied_rows db')"
    and contr: "contribution pc' \<subseteq> set (applied_rows db') - set (applied_rows start)"
    and disj: "\<And>q. q \<noteq> p \<Longrightarrow> contribution pc' \<inter> contribution (mw_pc w q) = {}"
    and loc: "mig_local (envs p) (set (applied_rows db')) pc'"
    and locs: "\<And>q. q \<noteq> p \<Longrightarrow> mig_local (envs q) (set (applied_rows db')) (mw_pc w q)"
  shows "mig_ok envs start (w\<lparr>mw_db := db', mw_pc := (mw_pc w)(p := pc')\<rparr>)"
proof -
  have "contribution (((mw_pc w)(p := pc')) q) \<subseteq> set (applied_rows db') - set (applied_rows start)" for q
    using contr mig_okD(4) [OF ok, of q] grows by auto
  moreover have "contribution (((mw_pc w)(p := pc')) q) \<inter> contribution (((mw_pc w)(p := pc')) q') = {}" if "q \<noteq> q'" for q q'
    using disj [of q] disj [of q'] mig_okD(5) [OF ok that] that by (cases "q = p"; cases "q' = p") auto
  moreover have "mig_local (envs q) (set (applied_rows db')) (((mw_pc w)(p := pc')) q)" for q
    using loc locs [of q] by simp
  ultimately show ?thesis using lock hist dist by (simp add: mig_ok_def)
qed

text \<open>While one process holds the lock, none of the others does.\<close>

lemma mig_ok_alone: "mig_ok envs start w \<Longrightarrow> holds_lock (mw_pc w p) \<Longrightarrow> q \<noteq> p \<Longrightarrow> \<not> holds_lock (mw_pc w q)"
  using mig_okD(1) by (metis option.inject)

lemma mig_ok_step:
  assumes ok: "mig_ok envs start w" and same: "same_contents envs"
    and step: "mig_step (envs p) fault p (mw_pc w p, mw_db w) = Some (pc', db')"
  shows "mig_ok envs start (w\<lparr>mw_db := db', mw_pc := (mw_pc w)(p := pc')\<rparr>)"
proof -
  note have_ok = mig_okD [OF ok]
  from step show ?thesis
  proof (cases rule: mig_step_cases)
    case acquire
    then have "\<not> holds_lock (mw_pc w q)" for q using have_ok(1) [of q] by simp
    then show ?thesis using acquire have_ok(2,3,6)
      by (intro mig_ok_update [OF ok]) simp_all
  next
    case (refused err)
    then show ?thesis using have_ok(1) [of p] have_ok(1,2,3,6)
      by (intro mig_ok_update [OF ok]) simp_all
  next
    case (release r)
    have "contribution (MigDone r) = contribution (mw_pc w p)" "mig_local (envs p) rows (MigDone r) = mig_local (envs p) rows (mw_pc w p)" for rows
      unfolding release(1) by (cases r; simp)+
    note kept = this [folded release(3)]
    have held: "holds_lock (mw_pc w p)" unfolding release(1) by simp
    show ?thesis
    proof (rule mig_ok_update [OF ok])
      show "db_lock db' = Some q \<longleftrightarrow> holds_lock (((mw_pc w)(p := pc')) q)" for q
        using mig_ok_alone [OF ok held] release(2,3) by auto
      show "mig_local (envs p) (set (applied_rows db')) pc'" unfolding kept(2) using have_ok(6) release(2) by simp
      show "contribution pc' \<subseteq> set (applied_rows db') - set (applied_rows start)" unfolding kept(1) using have_ok(4) release(2) by simp
      show "contribution pc' \<inter> contribution (mw_pc w q) = {}" if "q \<noteq> p" for q unfolding kept(1) using have_ok(5) that by blast
    qed (use release(2) have_ok(2,3,6) in simp_all)
  next
    case quiet
    show ?thesis
    proof (rule mig_ok_update [OF ok])
      show "contribution pc' \<inter> contribution (mw_pc w q) = {}" if "q \<noteq> p" for q
        using quiet(6) have_ok(5) [of p q] that by auto
      show "contribution pc' \<subseteq> set (applied_rows db') - set (applied_rows start)" using quiet(3,6) have_ok(4) [of p] by auto
      show "db_lock db' = Some q \<longleftrightarrow> holds_lock (((mw_pc w)(p := pc')) q)" for q using quiet(1,2,5) have_ok(1) by simp
    qed (use quiet(3,4,7) have_ok(2,3,6) in simp_all)
  next
    case (applied f d already files done_files)
    have held: "holds_lock (mw_pc w p)" unfolding applied(1) by simp
    have rows: "applied_rows db' = applied_rows (mw_db w) @ [f]" and schema: "db_schema db' = d" using applied(3) by simp_all
    show ?thesis
    proof (rule mig_ok_update [OF ok])
      show "db_lock db' = Some q \<longleftrightarrow> holds_lock (((mw_pc w)(p := pc')) q)" for q using held applied(2,3) have_ok(1) by simp
      from have_ok(2) obtain fs where fs: "applied_rows (mw_db w) = applied_rows start @ fs"
        "exec_all (envs 0) fs (db_schema start) = Some (db_schema (mw_db w))" by blast
      have "exec_all (envs 0) [f] (db_schema (mw_db w)) = Some d"
        using applied(4) same exec_all_cong [of "envs p" "envs 0"] by (metis same_contents_def)
      then have "exec_all (envs 0) (fs @ [f]) (db_schema start) = Some d" unfolding exec_all_app fs(2) by simp
      then show "\<exists>fs. applied_rows db' = applied_rows start @ fs \<and> exec_all (envs 0) fs (db_schema start) = Some (db_schema db')"
        using fs(1) rows schema by (intro exI [of _ "fs @ [f]"]) simp
      show "distinct (applied_rows db')" using applied(5) have_ok(3) rows by simp
      show "set (applied_rows (mw_db w)) \<subseteq> set (applied_rows db')" using rows by auto
      show "contribution pc' \<subseteq> set (applied_rows db') - set (applied_rows start)"
        using have_ok(4) [of p] applied(5) fs(1) unfolding applied(1,2) rows by auto
      show "contribution pc' \<inter> contribution (mw_pc w q) = {}" if "q \<noteq> p" for q
        using have_ok(5) [of p q] have_ok(4) [of q] that applied(5) unfolding applied(1,2) by auto
      show "mig_local (envs p) (set (applied_rows db')) pc'"
        using have_ok(6) [of p] unfolding applied(1,2) rows by (auto elim: covered_mono)
      show "mig_local (envs q) (set (applied_rows db')) (mw_pc w q)" if "q \<noteq> p" for q
        by (rule mig_local_mono [OF have_ok(6)]) (use rows mig_ok_alone [OF ok held that] in auto)
    qed
  qed
qed

theorem mig_reachable_ok:
  assumes "mig_reachable envs start w" and "same_contents envs" and "distinct (applied_rows start)"
  shows "mig_ok envs start w"
  using assms(1)
proof induction
  case mig_reach_start
  have "\<exists>fs. applied_rows start = applied_rows start @ fs \<and> exec_all (envs 0) fs (db_schema start) = Some (db_schema start)"
    by (intro exI [of _ "[]"]) simp
  with assms(3) show ?case by (simp add: mig_ok_def)
next
  case (mig_reach_step w p fault pc' db')
  then show ?case using mig_ok_step [OF _ assms(2)] by blast
qed

text \<open>C33. Migration runs of any number of processes on one database, each step of which may fail: the schema is what the
  recorded files give, executed once each in the order recorded; no two runs applied the same file; a run that
  returned leaves a schema the start check of its build accepts, whatever the others do later; and only one run at a
  time is between taking and giving back the lock.\<close>
theorem concurrent_migrations_serialised:
  assumes "mig_reachable envs start w" and "same_contents envs" and "distinct (applied_rows start)"
  shows "(\<exists>fs. applied_rows (mw_db w) = applied_rows start @ fs \<and> distinct (applied_rows start @ fs)
      \<and> exec_all (envs 0) fs (db_schema start) = Some (db_schema (mw_db w)))
    \<and> (\<forall>p q fs gs. p \<noteq> q \<and> mw_pc w p = MigDone (Inr fs) \<and> mw_pc w q = MigDone (Inr gs) \<longrightarrow> set fs \<inter> set gs = {})
    \<and> (\<forall>p fs. mw_pc w p = MigDone (Inr fs) \<longrightarrow>
         set fs \<inter> set (applied_rows start) = {} \<and> assertSchemaCurrent None None (me_dir (envs p)) (mw_db w) = Inr ())
    \<and> (\<forall>p q. holds_lock (mw_pc w p) \<and> holds_lock (mw_pc w q) \<longrightarrow> p = q)"
proof -
  note ok = mig_reachable_ok [OF assms]
  have disjoint: "set fs \<inter> set gs = {}" if "p \<noteq> q" "mw_pc w p = MigDone (Inr fs)" "mw_pc w q = MigDone (Inr gs)" for p q fs gs
    using mig_okD(5) [OF ok that(1)] that(2,3) by simp
  have new: "set fs \<inter> set (applied_rows start) = {}" if "mw_pc w p = MigDone (Inr fs)" for p fs
    using mig_okD(4) [OF ok, of p] that by auto
  have current: "assertSchemaCurrent None None (me_dir (envs p)) (mw_db w) = Inr ()" if "mw_pc w p = MigDone (Inr fs)" for p fs
    using mig_okD(6) [OF ok, of p] that
    by (auto simp: covered_def assertSchemaCurrent_def pending_files_def filter_empty_conv Let_def split: sum.splits)
  have alone: "p = q" if "holds_lock (mw_pc w p)" "holds_lock (mw_pc w q)" for p q
    using mig_ok_alone [OF ok that(1), of q] that(2) by auto
  show ?thesis using mig_okD(2,3) [OF ok] disjoint new current alone by metis
qed

lemma holder_steps: "holds_lock pc \<Longrightarrow> \<exists>pc' db'. mig_step env fault p (pc, db) = Some (pc', db')"
  by (cases "(env, fault, p, pc, db)" rule: mig_step.cases) (simp_all split: option.split sum.split prod.split)

text \<open>No deadlock: while a run is not over, it or the run it waits for can take a step, and every step brings its run nearer to the end.\<close>

theorem migration_progress:
  assumes "mig_reachable envs start w" and "same_contents envs" and "distinct (applied_rows start)" and "\<forall>r. mw_pc w p \<noteq> MigDone r"
  shows "\<exists>q pc' db'. (q = p \<or> holds_lock (mw_pc w q))
    \<and> mig_step (envs q) fault q (mw_pc w q, mw_db w) = Some (pc', db') \<and> mig_left (envs q) pc' < mig_left (envs q) (mw_pc w q)"
proof -
  note ok = mig_reachable_ok [OF assms(1-3)]
  obtain q where q: "q = p \<or> holds_lock (mw_pc w q)" "\<exists>pc' db'. mig_step (envs q) fault q (mw_pc w q, mw_db w) = Some (pc', db')"
  proof (cases "db_lock (mw_db w)")
    case None
    show ?thesis
    proof (cases "holds_lock (mw_pc w p)")
      case True
      with holder_steps that [of p] show ?thesis by blast
    next
      case False
      with assms(4) have "mw_pc w p = MigStart" by (cases "mw_pc w p") simp_all
      with None show ?thesis by (intro that [of p]) (simp_all split: option.split)
    qed
  next
    case (Some h)
    with mig_okD(1) [OF ok] have "holds_lock (mw_pc w h)" by blast
    with holder_steps that [of h] show ?thesis by blast
  qed
  from q(2) obtain pc' db' where step: "mig_step (envs q) fault q (mw_pc w q, mw_db w) = Some (pc', db')" by blast
  with q(1) mig_step_left [OF step] show ?thesis by blast
qed

section \<open>A sample run\<close>

text \<open>The schema is the list of the statements executed; two processes start on an empty database.\<close>

definition sample_migrations :: "string list migration_env" where
  "sample_migrations = \<lparr>me_dir = Inr [''2.sql'', ''README.md'', ''1.sql''], me_read = (\<lambda>f. Inr (''run '' @ f)),
     me_exec = (\<lambda>sql d. Inr (d @ [sql]))\<rparr>"

definition sample_db :: "string list database" where
  "sample_db = \<lparr>db_schema = [], db_applied = None, db_lock = None\<rparr>"

lemma sample_run:
  "runMigrations sample_migrations (\<lambda>s. None) sample_db
     = (Inr [''1.sql'', ''2.sql''], \<lparr>db_schema = [''run 1.sql'', ''run 2.sql''], db_applied = Some [''1.sql'', ''2.sql''], db_lock = None\<rparr>)"
  by code_simp

lemma sample_failure:
  "runMigrations sample_migrations (\<lambda>s. if s = StCommit ''2.sql'' then Some (JsError ''down'') else None) sample_db
     = (Inl (MigrationError ''2.sql'' (JsError ''down'')),
        \<lparr>db_schema = [''run 1.sql''], db_applied = Some [''1.sql''], db_lock = None\<rparr>)"
  by code_simp

lemma world_same: "mw_pc w p = pc \<Longrightarrow> mw_db w = db \<Longrightarrow> w\<lparr>mw_db := db, mw_pc := (mw_pc w)(p := pc)\<rparr> = w"
  by (cases w) (auto simp: fun_eq_iff)

text \<open>Steps of one process lead from a reachable world to a reachable world.\<close>

lemma mig_reachable_steps:
  assumes "mig_reachable envs start w" and "mig_steps (envs p) fault p n (mw_pc w p, mw_db w) = (pc', db')"
  shows "mig_reachable envs start (w\<lparr>mw_db := db', mw_pc := (mw_pc w)(p := pc')\<rparr>)"
  using assms
proof (induction n arbitrary: w)
  case 0
  then show ?case by (simp add: world_same del: fun_upd_apply)
next
  case (Suc n)
  show ?case
  proof (cases "mig_step (envs p) fault p (mw_pc w p, mw_db w)")
    case None
    with Suc.prems show ?thesis by (simp add: world_same del: fun_upd_apply)
  next
    case (Some s)
    obtain pc1 db1 where s: "s = (pc1, db1)" by fastforce
    let ?w = "w\<lparr>mw_db := db1, mw_pc := (mw_pc w)(p := pc1)\<rparr>"
    have "mig_steps (envs p) fault p n (mw_pc ?w p, mw_db ?w) = (pc', db')" using Suc.prems(2) Some by (simp add: s)
    from Suc.IH [OF mig_reach_step [OF Suc.prems(1) Some [unfolded s]] this]
    show ?thesis by (simp del: fun_upd_apply)
  qed
qed

lemma concurrent_migrations_serialised_witness:
  "\<exists>w. mig_reachable (\<lambda>p. sample_migrations) sample_db w \<and> mw_pc w 0 = MigDone (Inr [''1.sql'', ''2.sql'']) \<and> mw_pc w 1 = MigDone (Inr [])
    \<and> assertSchemaCurrent None None (me_dir sample_migrations) (mw_db w) = Inr ()
    \<and> exec_all sample_migrations [''1.sql'', ''2.sql''] [] = Some (db_schema (mw_db w))"
proof -
  let ?db = "\<lparr>db_schema = [''run 1.sql'', ''run 2.sql''], db_applied = Some [''1.sql'', ''2.sql''], db_lock = None\<rparr>"
  let ?start = "\<lparr>mw_db = sample_db\<lparr>db_lock := None\<rparr>, mw_pc = (\<lambda>p. MigStart)\<rparr>"
  let ?w = "\<lparr>mw_db = ?db, mw_pc = (\<lambda>p. MigStart)(0 := MigDone (Inr [''1.sql'', ''2.sql'']), 1 := MigDone (Inr []))\<rparr>"
  have n: "length (dir_files sample_migrations) + 5 \<le> 7" by code_simp
  have first: "mig_steps sample_migrations (\<lambda>s. None) 0 7 (mw_pc ?start 0, mw_db ?start) = (MigDone (Inr [''1.sql'', ''2.sql'']), ?db)"
    using run_is_atomic [OF _ n sample_run] by (simp add: sample_db_def)
  have again: "runMigrations sample_migrations (\<lambda>s. None) ?db = (Inr [], ?db)" by code_simp
  let ?mid = "?start\<lparr>mw_db := ?db, mw_pc := (mw_pc ?start)(0 := MigDone (Inr [''1.sql'', ''2.sql'']))\<rparr>"
  have "mig_steps sample_migrations (\<lambda>s. None) 1 7 (MigStart, ?db) = (MigDone (Inr []), ?db)"
    by (rule run_is_atomic [OF _ n again]) simp
  then have second: "mig_steps sample_migrations (\<lambda>s. None) 1 7 (mw_pc ?mid 1, mw_db ?mid) = (MigDone (Inr []), ?db)" by simp
  from mig_reachable_steps [OF mig_reachable_steps [OF mig_reach_start first] second]
  have reach: "mig_reachable (\<lambda>p. sample_migrations) sample_db ?w" by simp
  have "same_contents (\<lambda>p. sample_migrations)" "distinct (applied_rows sample_db)"
    by (simp_all add: same_contents_def sample_db_def applied_rows_def)
  note all = concurrent_migrations_serialised [OF reach this, THEN conjunct2, THEN conjunct2, THEN conjunct1, rule_format, of 1 "[]"]
  have "assertSchemaCurrent None None (me_dir sample_migrations) ?db = Inr ()" using all by simp
  moreover have "exec_all sample_migrations [''1.sql'', ''2.sql''] [] = Some (db_schema ?db)" by code_simp
  ultimately show ?thesis using reach by (intro exI [of _ ?w]) simp
qed

end
