(* ===== verification/HttpApp.thy ===== *)
theory HttpApp
  imports AccountRoutes ProviderRoutes ActionRoutes CredentialRoutes DeviceRoutes History
begin

text \<open>
  The HTTP application as a whole: \<open>adapters/http/app.ts\<close> with its two middlewares
  (\<open>adapters/auth-logto/oidc-middleware.ts\<close> and the provisioning of the account), the client of the identity
  provider's management API (\<open>adapters/auth-logto/logto-management-client.ts\<close>) and the small public routes
  \<open>health.ts\<close> and \<open>version.ts\<close>.

  \<open>handle_app\<close> takes a request to the handler its path is mounted on, behind the middlewares of that path; the
  handlers are those of the theories imported here. Its state is everything a request can change: the state of
  account closures (tables, Redis, queues) and the cached token of the management API. What the code does not
  contain is a parameter, collected in \<open>app_env\<close>: the verification of a token by the \<open>jose\<close> library, base64,
  the identity provider's server, Redis's pattern match and which jobs BullMQ lets be removed.

  Then the separation of accounts: a request changes no event and no queued job of an account other than the
  one it is authenticated for.
\<close>

section \<open>Verifying a token\<close>

text \<open>The claims of a verified token are values of unknown type.\<close>

record jwt_payload =
  jwt_sub :: "json option"
  jwt_roles :: "json option"

record AuthContext =
  au_accountId :: id
  au_roles :: "string list"

definition extractRoles :: "jwt_payload \<Rightarrow> string list" where
  "extractRoles payload = (case jwt_roles payload of
       Some (JArr roles) \<Rightarrow> List.map_filter (\<lambda>r. case r of JStr s \<Rightarrow> Some s | _ \<Rightarrow> None) roles
     | _ \<Rightarrow> [])"

abbreviation unauthorized :: response where
  "unauthorized \<equiv> json_error 401 ''unauthorized''"

definition oidcAuthMiddleware :: "(string \<Rightarrow> exn + jwt_payload) \<Rightarrow> string option \<Rightarrow> response + AuthContext" where
  "oidcAuthMiddleware verify authHeader = (case authHeader of
       None \<Rightarrow> Inl unauthorized
     | Some header \<Rightarrow>
         if take 7 header \<noteq> ''Bearer '' then Inl unauthorized
         else (case verify (drop 7 header) of
             Inl err \<Rightarrow> Inl unauthorized
           | Inr payload \<Rightarrow> (case jwt_sub payload of
               Some (JStr sub) \<Rightarrow>
                 if length sub = 0 then Inl unauthorized
                 else Inr \<lparr>au_accountId = sub, au_roles = extractRoles payload\<rparr>
             | _ \<Rightarrow> Inl unauthorized)))"

section \<open>The management API of the identity provider\<close>

record logto_request =
  lq_method :: string
  lq_url :: string
  lq_contentType :: string
  lq_authorization :: string
  lq_body :: string

text \<open>The answer of the server; \<open>ls_grant\<close> is what its body parses to as a token answer.\<close>

record logto_response =
  ls_status :: nat
  ls_grant :: "exn + (string \<times> int)"

record CachedToken =
  ct_accessToken :: string
  ct_expiresAt :: int

text \<open>A call sees the requests sent before it; \<open>lc_log\<close> collects them.\<close>

record logto_client =
  lc_cachedToken :: "CachedToken option"
  lc_log :: "logto_request list"

type_synonym logto_server = "logto_request list \<Rightarrow> exn + logto_response"

definition logto_ok :: "logto_response \<Rightarrow> bool" where
  "logto_ok r = (200 \<le> ls_status r \<and> ls_status r < 300)"

definition logto_fetch :: "logto_server \<Rightarrow> logto_request \<Rightarrow> logto_client \<Rightarrow> (exn + logto_response) \<times> logto_client" where
  "logto_fetch server rq c = (let log = lc_log c @ [rq] in (server log, c\<lparr>lc_log := log\<rparr>))"

definition token_request :: "(string \<Rightarrow> string) \<Rightarrow> Config \<Rightarrow> logto_request" where
  "token_request base64 config = \<lparr>lq_method = ''POST'', lq_url = cfg_logtoEndpoint config @ ''/oidc/token'',
     lq_contentType = ''application/x-www-form-urlencoded'',
     lq_authorization = ''Basic '' @ base64 (cfg_logtoManagementClientId config @ '':'' @ cfg_logtoManagementClientSecret config),
     lq_body = ''grant_type=client_credentials&resource=https%3A%2F%2Fdefault.logto.app%2Fapi&scope=all''\<rparr>"

definition fresh_token :: "int \<Rightarrow> CachedToken option \<Rightarrow> string option" where
  "fresh_token now cached = (case cached of
       Some t \<Rightarrow> if ct_expiresAt t > now + 5000 then Some (ct_accessToken t) else None
     | None \<Rightarrow> None)"

text \<open>\<open>now\<close> and \<open>now'\<close>: the clock before the request and after its answer.\<close>

definition getManagementAccessToken ::
  "(string \<Rightarrow> string) \<Rightarrow> logto_server \<Rightarrow> Config \<Rightarrow> int \<Rightarrow> int \<Rightarrow> logto_client \<Rightarrow> (exn + string) \<times> logto_client" where
  "getManagementAccessToken base64 server config now now' c = (case fresh_token now (lc_cachedToken c) of
       Some token \<Rightarrow> (Inr token, c)
     | None \<Rightarrow> (case logto_fetch server (token_request base64 config) c of
         (Inl err, c) \<Rightarrow> (Inl err, c)
       | (Inr r, c) \<Rightarrow>
           if \<not> logto_ok r
           then (Inl (JsError (''Failed to obtain a Logto Management API token: '' @ nat_to_string (ls_status r))), c)
           else (case ls_grant r of
               Inl err \<Rightarrow> (Inl err, c)
             | Inr (token, expires_in) \<Rightarrow>
                 (Inr token, c\<lparr>lc_cachedToken := Some \<lparr>ct_accessToken = token, ct_expiresAt = now' + expires_in * 1000\<rparr>\<rparr>))))"

definition password_request :: "Config \<Rightarrow> string \<Rightarrow> string \<Rightarrow> string \<Rightarrow> logto_request" where
  "password_request config token logtoUserId newPassword = \<lparr>lq_method = ''PATCH'',
     lq_url = cfg_logtoManagementApiBaseUrl config @ ''/users/'' @ logtoUserId @ ''/password'',
     lq_contentType = ''application/json'', lq_authorization = ''Bearer '' @ token,
     lq_body = json_stringify (JObj [(''password'', JStr newPassword)])\<rparr>"

definition setUserPassword ::
  "(string \<Rightarrow> string) \<Rightarrow> logto_server \<Rightarrow> Config \<Rightarrow> int \<Rightarrow> int \<Rightarrow> string \<Rightarrow> string \<Rightarrow> logto_client \<Rightarrow> (exn + unit) \<times> logto_client" where
  "setUserPassword base64 server config now now' logtoUserId newPassword c =
     (case getManagementAccessToken base64 server config now now' c of
        (Inl err, c) \<Rightarrow> (Inl err, c)
      | (Inr token, c) \<Rightarrow> (case logto_fetch server (password_request config token logtoUserId newPassword) c of
          (Inl err, c) \<Rightarrow> (Inl err, c)
        | (Inr r, c) \<Rightarrow>
            if \<not> logto_ok r
            then (Inl (JsError (''Failed to update password via Logto Management API: '' @ nat_to_string (ls_status r))), c)
            else (Inr (), c)))"

section \<open>Public routes\<close>

definition healthz :: response where
  "healthz = Json 200 (JObj [(''status'', JStr ''ok'')])"

text \<open>A check has succeeded within its two seconds, or it has failed or not answered.\<close>

definition check_text :: "bool \<Rightarrow> string" where
  "check_text succeeded = (if succeeded then ''ok'' else ''unavailable'')"

definition readyz :: "(string \<times> bool) list \<Rightarrow> response" where
  "readyz checks = (let ready = list_all snd checks in
     Json (if ready then 200 else 503)
       (JObj [(''status'', JStr (check_text ready)),
              (''checks'', JObj (map (\<lambda>(name, succeeded). (name, JStr (check_text succeeded))) checks))]))"

definition version_get :: "Config \<Rightarrow> response" where
  "version_get config = Json 200 (JObj [(''version'', JStr (cfg_version config))])"

section \<open>The application\<close>

record app_env =
  ae_deps :: route_deps
  ae_verify :: "string \<Rightarrow> exn + jwt_payload"
  ae_base64 :: "string \<Rightarrow> string"
  ae_decode64 :: "string \<Rightarrow> string"
  ae_server :: logto_server
  ae_glob :: "string \<Rightarrow> string \<Rightarrow> bool"
  ae_removable1 :: "DebounceJob \<Rightarrow> bool"
  ae_removable2 :: "ExecutionJob \<Rightarrow> bool"

text \<open>What a request draws: for the provisioning of its account, for its handler, for an agent's routes, for a manual run.\<close>

record app_drawn =
  ad_tick :: tick
  ad_dr :: drawn
  ad_pd :: provider_drawn
  ad_executionId :: id
  ad_causationEventId :: id
  ad_now :: int
  ad_now' :: int
  ad_queued :: answer
  ad_closure :: closure_answers

record app =
  ap_world :: account_world
  ap_logto :: logto_client

datatype api_request =
    ApiVersion
  | ApiDevices device_request
  | ApiCredentials credential_request
  | ApiAgents provider_request
  | ApiDeliveryStatus id
  | ApiActions action_request
  | ApiActionList id
  | ApiExecutions id
  | ApiRun id
  | ApiHistory id
  | ApiChannel channel_request
  | ApiAccount
  | ApiPassword "string option"
  | ApiCloseAccount

datatype app_request =
    AppHealthz
  | AppReadyz "(string \<times> bool) list"
  | AppTrigger trigger_request
  | AppApi "string option" api_request
  | AppAdminLimit "string option" id "json option"

text \<open>An answer: a response, or the items a listing route answers with.\<close>

datatype app_reply =
    Reply response
  | ActionItems "ActionSummary list"
  | ExecutionItems "ExecutionSummary list"
  | HistoryItems "HistoryItem list"
  | StatusItems "DeliveryStatusItem list"

definition on_backend :: "(backend \<Rightarrow> response \<times> backend) \<Rightarrow> app \<Rightarrow> app_reply \<times> app" where
  "on_backend h s = (case h (aw_backend (ap_world s)) of
     (resp, b) \<Rightarrow> (Reply resp, s\<lparr>ap_world := (ap_world s)\<lparr>aw_backend := b\<rparr>\<rparr>))"

definition password_route :: "app_env \<Rightarrow> app_drawn \<Rightarrow> id \<Rightarrow> string option \<Rightarrow> app \<Rightarrow> app_reply \<times> app" where
  "password_route env ad accountId newPassword s =
     (let run = (\<lambda>pw. setUserPassword (ae_base64 env) (ae_server env) (rt_config (ae_deps env)) (ad_now ad) (ad_now' ad) accountId pw (ap_logto s));
          resp = account_password (\<lambda>i pw. case fst (run pw) of Inl err \<Rightarrow> Some err | Inr u \<Rightarrow> None) accountId newPassword in
      (Reply resp, if \<not> truthy newPassword \<or> length (the newPassword) < 8 then s else s\<lparr>ap_logto := snd (run (the newPassword))\<rparr>))"

fun api_route :: "app_env \<Rightarrow> app_drawn \<Rightarrow> id \<Rightarrow> api_request \<Rightarrow> app \<Rightarrow> app_reply \<times> app" where
  "api_route env ad acc ApiVersion s = (Reply (version_get (rt_config (ae_deps env))), s)"
| "api_route env ad acc (ApiDevices req) s = on_backend (device_route (ae_deps env) (ad_dr ad) acc req) s"
| "api_route env ad acc (ApiCredentials req) s = on_backend (credential_route (ae_deps env) (ad_dr ad) acc req) s"
| "api_route env ad acc (ApiAgents req) s = on_backend (provider_route (ae_deps env) (ad_pd ad) acc req) s"
| "api_route env ad acc (ApiDeliveryStatus i) s =
     (StatusItems (let b = aw_backend (ap_world s) in delivery_status_items (pd_startedAt (ad_pd ad))
        (registry_isConnected (bk_registry b)) (pd_now (ad_pd ad)) (bk_rows b) acc i), s)"
| "api_route env ad acc (ApiActions req) s = on_backend (action_route (ae_deps env) (ad_dr ad) acc req) s"
| "api_route env ad acc (ApiActionList i) s = (case action_list (ae_deps env) acc i (aw_backend (ap_world s)) of
     (r, b) \<Rightarrow> (case r of Inl err \<Rightarrow> Reply (Thrown err) | Inr items \<Rightarrow> ActionItems items,
       s\<lparr>ap_world := (ap_world s)\<lparr>aw_backend := b\<rparr>\<rparr>))"
| "api_route env ad acc (ApiExecutions i) s =
     (case executions_list (bk_rows (aw_backend (ap_world s))) (aw_executions (ap_world s)) acc i of
       (r, redis) \<Rightarrow> (case r of Inl resp \<Rightarrow> Reply resp | Inr items \<Rightarrow> ExecutionItems items,
         s\<lparr>ap_world := (ap_world s)\<lparr>aw_executions := redis\<rparr>\<rparr>))"
| "api_route env ad acc (ApiRun i) s =
     (case handle_run (ad_queued ad) (ad_executionId ad) (ad_causationEventId ad) acc (bk_rows (aw_backend (ap_world s))) i of
       (resp, jobs) \<Rightarrow> (Reply resp,
         s\<lparr>ap_world := (ap_world s)\<lparr>aw_actionExecution := aw_actionExecution (ap_world s) @ jobs\<rparr>\<rparr>))"
| "api_route env ad acc (ApiHistory i) s = (case ip_client_history (bk_rows (aw_backend (ap_world s))) acc i of
     Inl resp \<Rightarrow> Reply resp | Inr items \<Rightarrow> HistoryItems items, s)"
| "api_route env ad acc (ApiChannel req) s = on_backend (channel_route (ae_deps env) (ad_dr ad) acc req) s"
| "api_route env ad acc ApiAccount s = on_backend (account_get acc) s"
| "api_route env ad acc (ApiPassword pw) s = password_route env ad acc pw s"
| "api_route env ad acc ApiCloseAccount s =
     (case account_delete (ae_deps env) (ae_glob env) (ad_closure ad) (ae_removable1 env) (ae_removable2 env) (dr_tick (ad_dr ad)) acc (ap_world s) of
       (resp, w) \<Rightarrow> (Reply resp, s\<lparr>ap_world := w\<rparr>))"

text \<open>The middleware between the token and every \<open>/api\<close> route: it provisions the account, or answers 500.\<close>

definition provisioned :: "route_deps \<Rightarrow> tick \<Rightarrow> id \<Rightarrow> (app \<Rightarrow> app_reply \<times> app) \<Rightarrow> app \<Rightarrow> app_reply \<times> app" where
  "provisioned deps tk acc next_handler s = (case ensureProvisioned deps tk acc (aw_backend (ap_world s)) of
     (r, b) \<Rightarrow> (let s' = s\<lparr>ap_world := (ap_world s)\<lparr>aw_backend := b\<rparr>\<rparr> in
       case r of Inl err \<Rightarrow> (Reply (Thrown err), s') | Inr state \<Rightarrow> next_handler s'))"

fun handle_app :: "app_env \<Rightarrow> app_drawn \<Rightarrow> app_request \<Rightarrow> app \<Rightarrow> app_reply \<times> app" where
  "handle_app env ad AppHealthz s = (Reply healthz, s)"
| "handle_app env ad (AppReadyz checks) s = (Reply (readyz checks), s)"
| "handle_app env ad (AppTrigger req) s =
     (case handle_trigger (rt_crypto (ae_deps env)) (ae_decode64 env) (rt_config (ae_deps env)) (ad_tick ad) [] (ad_queued ad)
        (bk_rows (aw_backend (ap_world s))) req of
       (resp, rows, jobs) \<Rightarrow> (Reply resp, s\<lparr>ap_world := (ap_world s)\<lparr>aw_backend := (aw_backend (ap_world s))\<lparr>bk_rows := rows\<rparr>,
          aw_debounce := aw_debounce (ap_world s) @ jobs\<rparr>\<rparr>))"
| "handle_app env ad (AppApi header req) s = (case oidcAuthMiddleware (ae_verify env) header of
       Inl resp \<Rightarrow> (Reply resp, s)
     | Inr auth \<Rightarrow> provisioned (ae_deps env) (ad_tick ad) (au_accountId auth) (api_route env ad (au_accountId auth) req) s)"
| "handle_app env ad (AppAdminLimit header target newLimit) s = (case oidcAuthMiddleware (ae_verify env) header of
       Inl resp \<Rightarrow> (Reply resp, s)
     | Inr auth \<Rightarrow> on_backend (admin_device_limit (ae_deps env) (ad_tick ad) (au_roles auth) (au_accountId auth) target newLimit) s)"

section \<open>Writes confined to one account\<close>

definition account_events :: "id \<Rightarrow> event_store \<Rightarrow> event_store" where
  "account_events a rows = filter (\<lambda>r. ev_accountId r = a) rows"

text \<open>Every event belongs to the type of aggregate its row says.\<close>

definition typed_store :: "event_store \<Rightarrow> bool" where
  "typed_store rows = (\<forall>r \<in> set rows. event_aggregate (ev_data r) = ev_aggregateType r)"

definition confined :: "id \<Rightarrow> event_store \<Rightarrow> event_store \<Rightarrow> bool" where
  "confined acc rows rows' = (wf_store rows' \<and> (typed_store rows \<longrightarrow> typed_store rows')
     \<and> (\<forall>a. a \<noteq> acc \<longrightarrow> account_events a rows' = account_events a rows))"

lemma confined_refl: "wf_store rows \<Longrightarrow> confined acc rows rows"
  by (simp add: confined_def)

lemma confined_trans: "confined acc rows rows1 \<Longrightarrow> confined acc rows1 rows2 \<Longrightarrow> confined acc rows rows2"
  by (simp add: confined_def)

lemma confined_wf: "confined acc rows rows' \<Longrightarrow> wf_store rows'"
  by (simp add: confined_def)

lemma confined_wrote:
  "wf_store rows' \<Longrightarrow> wrote rows rows' (stream acc t i) d \<Longrightarrow> event_aggregate d = t \<Longrightarrow> confined acc rows rows'"
  by (auto simp: confined_def wrote_def account_events_def in_stream_def typed_store_def)

lemma confined_guarded:
  "guarded_outcome load allowed deps (stream acc t i) rows rows' \<Longrightarrow> undisturbed deps \<Longrightarrow> wf_store rows \<Longrightarrow>
   (\<And>st d. allowed st d \<Longrightarrow> event_aggregate d = t) \<Longrightarrow> confined acc rows rows'"
  by (auto simp: guarded_outcome_def undisturbed_def intro: confined_refl confined_wrote)

text \<open>The guards of the routes allow events of their own aggregate only.\<close>

lemma allowed_types:
  "ip_client_allowed st d \<Longrightarrow> event_aggregate d = IP_CLIENT" "action_allowed st' d \<Longrightarrow> event_aggregate d = ACTION"
  "credential_allowed st'' d \<Longrightarrow> event_aggregate d = PROVIDER_CREDENTIAL" "channel_allowed st3 d \<Longrightarrow> event_aggregate d = NOTIFICATION_CHANNEL"
  by (cases d; simp)+

lemma confined_delete: "wf_store rows \<Longrightarrow> confined acc rows (deleteAccount rows acc)"
  by (simp add: confined_def deleteAccount_wf) (auto simp: account_events_def typed_store_def deleteAccount_def intro!: filter_cong)

lemma confined_commit:
  assumes "wf_store (bk_rows b)" and "undisturbed deps" and "event_aggregate d = t"
  shows "confined acc (bk_rows b) (bk_rows (snd (commit deps tk (stream acc t i) (length (readStream (bk_rows b) (stream acc t i))) d b)))"
proof (cases "commit deps tk (stream acc t i) (length (readStream (bk_rows b) (stream acc t i))) d b")
  case (Pair r b1)
  show ?thesis
  proof (cases r)
    case (Inl x)
    with Pair have "bk_rows b1 = bk_rows b"
      using assms(2) by (cases rule: commit_cases [of deps tk "stream acc t i" "length (readStream (bk_rows b) (stream acc t i))" d b])
        (auto simp: undisturbed_def)
    with Pair assms(1) show ?thesis by (simp add: confined_refl)
  next
    case (Inr e)
    from commit_undisturbed(1,2) [OF assms(1,2) Pair [unfolded Inr]] assms(3) Pair show ?thesis by (simp add: confined_wrote)
  qed
qed

lemma confined_provisioned:
  assumes "wf_store (bk_rows b)" and "undisturbed deps"
  shows "confined acc (bk_rows b) (bk_rows (snd (ensureProvisioned deps tk acc b)))"
proof (cases "readStream (bk_rows b) (stream acc ACCOUNT acc) = []")
  case True
  let ?d = "AccountEv (AccountRegistered \<lparr>reg_accountId = acc, reg_deviceLimit = cfg_defaultIpClientLimit (rt_config deps), reg_registeredAt = tk_now tk\<rparr>)"
  have "bk_rows (snd (ensureProvisioned deps tk acc b)) = bk_rows (snd (commit deps tk (stream acc ACCOUNT acc) 0 ?d b))"
    unfolding ensureProvisioned_eq using True by (simp split: sum.split prod.split)
  with confined_commit [OF assms, of ?d ACCOUNT acc tk acc] True show ?thesis by simp
next
  case False
  then show ?thesis using assms(1) by (simp add: ensureProvisioned_eq confined_refl)
qed

text \<open>The handlers of the agents' routes: at most two writes, on the stream of the provider.\<close>

lemma confined_provider_write:
  assumes "wf_store (bk_rows b)" and "undisturbed deps"
  shows "confined acc (bk_rows b) (bk_rows (snd (provider_write deps tks acc p d b)))"
  using assms
proof (cases rule: provider_write_cases [where deps = deps and b = b and tks = tks and acc = acc and p = p and d = d])
  case (appended e b1)
  then show ?thesis by (simp add: confined_wrote)
next
  case (conflict x)
  then show ?thesis using assms(1) by (simp add: confined_refl)
qed

lemma confined_proceed:
  assumes "confined acc rows (bk_rows (snd r))" and "\<And>x b. fst r = Inr x \<Longrightarrow> confined acc rows (bk_rows b) \<Longrightarrow> b = snd r \<Longrightarrow> confined acc rows (bk_rows (snd (k x b)))"
  shows "confined acc rows (bk_rows (snd (proceed r k)))"
  using assms by (cases r; cases "fst r") (auto simp: proceed_def)

lemma confined_provider_route:
  assumes wf: "wf_store (bk_rows b)" and calm: "undisturbed deps"
  shows "confined acc (bk_rows b) (bk_rows (snd (provider_route deps pd acc req b)))"
proof -
  note same = confined_refl [OF wf]
  have one: "confined acc (bk_rows b) (bk_rows (snd (proceed (provider_write deps tks acc p d b) k)))"
    if "\<And>x b1. confined acc (bk_rows b) (bk_rows b1) \<Longrightarrow> confined acc (bk_rows b) (bk_rows (snd (k x b1)))" for tks p d k
    by (rule confined_proceed [OF confined_provider_write [OF wf calm]]) (rule that)
  show ?thesis
  proof (cases req)
    case (CreateProvider body)
    have second: "confined acc (bk_rows b) (bk_rows (snd (proceed (provider_write deps tks acc p d b1) (\<lambda>e b. (resp, b)))))"
      if "confined acc (bk_rows b) (bk_rows b1)" for tks p d b1 resp
      by (rule confined_proceed [OF confined_trans [OF that confined_provider_write [OF confined_wf [OF that] calm]]]) simp
    show ?thesis unfolding CreateProvider provider_route.simps provider_create_def Let_def
      by (simp add: same one second)
  next
    case ListProviders
    then show ?thesis by (simp add: provider_list_def same Let_def)
  next
    case (GetProvider i)
    then show ?thesis by (simp add: provider_get_def same Let_def split: option.split)
  next
    case (PatchProvider i body)
    show ?thesis unfolding PatchProvider provider_route.simps provider_patch_def Let_def
      using confined_provider_write [OF wf calm, of acc "pd_ticks pd" i "ProviderRenamed (body_name (pb_name body)) (pd_now pd)"]
      by (auto simp: same proceed_rows split: option.split sum.split prod.split)
  next
    case (DeleteProvider i)
    show ?thesis unfolding DeleteProvider provider_route.simps provider_delete_def Let_def
      by (simp add: same one terminate_def split: option.split)
  next
    case (IssueToken i)
    show ?thesis unfolding IssueToken provider_route.simps token_issue_def Let_def
      by (simp add: same one split: option.split)
  next
    case (RevokeToken i t)
    show ?thesis unfolding RevokeToken provider_route.simps token_revoke_def Let_def
      using confined_provider_write [OF wf calm, of acc "pd_ticks pd" i "TokenRevoked t (pd_now pd)"]
      by (auto simp: same proceed_rows terminate_def split: option.split sum.split prod.split)
  qed
qed

lemma confined_closure:
  assumes "wf_store (bk_rows (aw_backend w))" and "undisturbed deps"
  shows "confined acc (bk_rows (aw_backend w)) (bk_rows (aw_backend (snd (account_delete deps glob ans rm1 rm2 tk acc w))))"
proof -
  obtain res w' where run: "closeAccount deps glob ans rm1 rm2 tk acc w = (res, w')" by fastforce
  have "confined acc (bk_rows (aw_backend w)) (bk_rows (aw_backend w'))"
  proof (cases rule: closure_rows [OF assms run])
    case 1
    with assms(1) show ?thesis by (simp add: confined_refl)
  next
    case (2 rows)
    from confined_wrote [OF 2(1,2)] have first: "confined acc (bk_rows (aw_backend w)) rows" by simp
    from confined_trans [OF first confined_delete [OF 2(1)]] have "confined acc (bk_rows (aw_backend w)) (deleteAccount rows acc)" .
    with first 2(3) show ?thesis by auto
  qed
  then show ?thesis by (cases res) (simp_all add: account_delete_def run)
qed

lemma confined_override:
  assumes "wf_store (bk_rows b)" and "undisturbed deps"
  shows "confined target (bk_rows b) (bk_rows (snd (admin_device_limit deps tk roles adminId target newLimit b)))"
proof -
  let ?k = "stream target ACCOUNT target"
  let ?d = "\<lambda>l p. AccountEv (AccountDeviceLimitOverridden \<lparr>ovr_accountId = target, ovr_previousLimit = p, ovr_newLimit = l,
    ovr_overriddenBy = adminId, ovr_overriddenAt = tk_now tk\<rparr>)"
  have "confined target (bk_rows b) (bk_rows (snd (overrideDeviceLimit deps tk target l adminId b)))" for l
    unfolding overrideDeviceLimit_def
    using confined_commit [OF assms, of "?d l (acc_deviceLimit (fst (loadAccount (bk_rows b) target)))" ACCOUNT target tk target]
      confined_refl [OF assms(1)]
    by (subst loads_eq(5)) (auto split: sum.split prod.split)
  then show ?thesis
    using confined_refl [OF assms(1)]
    by (auto simp: admin_device_limit_def requireAdminRole_def device_limit_route_def proceed_rows split: option.split)
qed

text \<open>Every handler behind the token, for the account of the token.\<close>

lemma on_backend_rows:
  "bk_rows (aw_backend (ap_world (snd (on_backend h s)))) = bk_rows (snd (h (aw_backend (ap_world s))))"
  by (simp add: on_backend_def split: prod.split)

lemma confined_api_route:
  assumes wf: "wf_store (bk_rows (aw_backend (ap_world s)))" and calm: "undisturbed (ae_deps env)"
  shows "confined acc (bk_rows (aw_backend (ap_world s))) (bk_rows (aw_backend (ap_world (snd (api_route env ad acc req s)))))"
proof -
  note same = confined_refl [OF wf] and others = undisturbed_appends [OF calm]
  show ?thesis
  proof (cases req)
    case (ApiDevices r)
    from confined_guarded [OF device_route_outcome [OF wf others, of acc r "ad_dr ad"] calm wf allowed_types(1)]
    show ?thesis by (simp add: ApiDevices on_backend_rows del: device_route.simps)
  next
    case (ApiCredentials r)
    from confined_guarded [OF credential_route_outcome [OF wf others, of acc r "ad_dr ad"] calm wf allowed_types(3)]
    show ?thesis by (simp add: ApiCredentials on_backend_rows del: credential_route.simps)
  next
    case (ApiAgents r)
    from confined_provider_route [OF wf calm, of acc "ad_pd ad" r]
    show ?thesis by (simp add: ApiAgents on_backend_rows del: provider_route.simps)
  next
    case (ApiActions r)
    from confined_guarded [OF action_route_outcome [OF wf others, of acc r "ad_dr ad"] calm wf allowed_types(2)]
    show ?thesis by (simp add: ApiActions on_backend_rows del: action_route.simps)
  next
    case (ApiChannel r)
    from confined_guarded [OF channel_route_outcome [OF wf others, of acc "ad_dr ad" r] calm wf allowed_types(4)]
    show ?thesis by (simp add: ApiChannel on_backend_rows del: channel_route.simps)
  next
    case ApiCloseAccount
    from confined_closure [OF wf calm, of acc "ae_glob env" "ad_closure ad" "ae_removable1 env" "ae_removable2 env" "dr_tick (ad_dr ad)"]
    show ?thesis by (simp add: ApiCloseAccount case_prod_beta)
  next
    case ApiAccount
    then show ?thesis by (simp add: same on_backend_rows account_get_def Let_def)
  next
    case (ApiPassword pw)
    then show ?thesis by (simp add: same password_route_def Let_def)
  next
    case (ApiActionList i)
    then show ?thesis by (simp add: same action_list_def split: prod.split option.split)
  qed (simp_all add: same split: prod.split)
qed

text \<open>The jobs of one account in the two queues.\<close>

definition account_jobs :: "id \<Rightarrow> account_world \<Rightarrow> DebounceJob list \<times> ExecutionJob list" where
  "account_jobs a w = (filter (\<lambda>j. dj_accountId j = a) (aw_debounce w),
     filter (\<lambda>j. ej_accountId (xj_data j) = a) (aw_actionExecution w))"

lemma account_jobs_simps [simp]:
  "account_jobs a (w\<lparr>aw_backend := b\<rparr>) = account_jobs a w" "account_jobs a (w\<lparr>aw_executions := r\<rparr>) = account_jobs a w"
  by (simp_all add: account_jobs_def)

lemma handle_run_jobs:
  "handle_run q x c acc rows i = (resp, jobs) \<Longrightarrow> \<forall>j \<in> set jobs. ej_accountId (xj_data j) = acc"
  by (cases q) (auto simp: handle_run_def Let_def split: if_splits)

lemma on_backend_jobs [simp]: "account_jobs a (ap_world (snd (on_backend h s))) = account_jobs a (ap_world s)"
  by (simp add: on_backend_def split: prod.split)

lemma purged_jobs: "a \<noteq> acc \<Longrightarrow>
    filter (\<lambda>j. job_account j = a) (purgeQueueJobsForAccount job_account removable acc jobs) = filter (\<lambda>j. job_account j = a) jobs"
  by (auto simp: purgeQueueJobsForAccount_def intro!: filter_cong)

lemma api_route_jobs:
  assumes "a \<noteq> acc"
  shows "account_jobs a (ap_world (snd (api_route env ad acc req s))) = account_jobs a (ap_world s)"
proof (cases req)
  case (ApiRun i)
  obtain resp jobs where run: "handle_run (ad_queued ad) (ad_executionId ad) (ad_causationEventId ad) acc (bk_rows (aw_backend (ap_world s))) i = (resp, jobs)"
    by fastforce
  from handle_run_jobs [OF run] assms have "filter (\<lambda>j. ej_accountId (xj_data j) = a) jobs = []" by (auto simp: filter_empty_conv)
  with run ApiRun show ?thesis by (simp add: account_jobs_def)
next
  case ApiCloseAccount
  let ?w = "ap_world s"
  have "account_jobs a (snd (account_delete deps glob ans rm1 rm2 tk acc ?w)) = account_jobs a ?w" for deps glob ans rm1 rm2 tk
    using closure_jobs [OF assms, of deps glob ans rm1 rm2 tk ?w]
    by (cases "closeAccount deps glob ans rm1 rm2 tk acc ?w"; cases "fst (closeAccount deps glob ans rm1 rm2 tk acc ?w)")
      (auto simp: account_delete_def account_jobs_def)
  with ApiCloseAccount show ?thesis by (simp add: case_prod_beta)
qed (simp_all add: password_route_def action_list_def Let_def split: prod.split)

section \<open>Accounts are separate\<close>

text \<open>What of the state belongs to an account, and whose request a request is.\<close>

definition account_view :: "id \<Rightarrow> app \<Rightarrow> event_store \<times> DebounceJob list \<times> ExecutionJob list" where
  "account_view a s = (account_events a (bk_rows (aw_backend (ap_world s))), account_jobs a (ap_world s))"

fun concerns :: "app_env \<Rightarrow> id \<Rightarrow> app_request \<Rightarrow> app \<Rightarrow> bool" where
  "concerns env a (AppApi header req) s = (\<exists>auth. oidcAuthMiddleware (ae_verify env) header = Inr auth \<and> au_accountId auth = a)"
| "concerns env a (AppAdminLimit header target newLimit) s =
     (target = a \<and> (\<exists>auth. oidcAuthMiddleware (ae_verify env) header = Inr auth \<and> ADMIN_ROLE_CLAIM \<in> set (au_roles auth)))"
| "concerns env a (AppTrigger req) s = (\<exists>i password. parseBasicAuth (ae_decode64 env) (tr_authorization req) = Some (i, password)
     \<and> resolveAccountId (bk_rows (aw_backend (ap_world s))) IP_CLIENT i = Some a)"
| "concerns env a req s = False"

lemma handle_app_confined:
  assumes wf: "wf_store (bk_rows (aw_backend (ap_world s)))" and calm: "undisturbed (ae_deps env)"
  shows "wf_store (bk_rows (aw_backend (ap_world (snd (handle_app env ad req s)))))"
    and "\<not> concerns env a req s \<Longrightarrow> account_view a (snd (handle_app env ad req s)) = account_view a s"
    and "typed_store (bk_rows (aw_backend (ap_world s))) \<Longrightarrow> typed_store (bk_rows (aw_backend (ap_world (snd (handle_app env ad req s)))))"
proof -
  let ?rows = "bk_rows (aw_backend (ap_world s))" and ?s' = "snd (handle_app env ad req s)"
  have "wf_store (bk_rows (aw_backend (ap_world ?s'))) \<and> (\<not> concerns env a req s \<longrightarrow> account_view a ?s' = account_view a s)
    \<and> (typed_store ?rows \<longrightarrow> typed_store (bk_rows (aw_backend (ap_world ?s'))))"
  proof (cases req)
    case (AppTrigger tr)
    obtain resp rows' jobs where run: "handle_trigger (rt_crypto (ae_deps env)) (ae_decode64 env) (rt_config (ae_deps env)) (ad_tick ad) [] (ad_queued ad) ?rows tr
      = (resp, rows', jobs)" using prod_cases3 by blast
    from wf have wf0: "wf_store (?rows @ [])" by simp
    from trigger_outcome [OF wf wf0 run] have wf': "wf_store rows'" by (rule conjunct1)
    let ?job = "scheduleDebounce (rt_config (ae_deps env))"
    let ?outcome = "rows' = ?rows \<and> jobs = [] \<or> (\<exists>i password acc e. parseBasicAuth (ae_decode64 env) (tr_authorization tr) = Some (i, password)
        \<and> resolveAccountId ?rows IP_CLIENT i = Some acc \<and> rows' = ?rows @ [e] \<and> in_stream (stream acc IP_CLIENT i) e
        \<and> event_aggregate (ev_data e) = IP_CLIENT \<and> jobs \<in> {[], [?job i acc]})"
    have step: ?outcome if "parseBasicAuth (ae_decode64 env) (tr_authorization tr) = Some (i, password)" "resolveAccountId ?rows IP_CLIENT i = Some acc"
        "rows' = ?rows @ [] @ [e]" "in_stream (stream acc IP_CLIENT i) e" "ev_data e = IpClientEv (IpReportReceived d)"
        "case ad_queued ad of Done \<Rightarrow> resp_status resp = 200 \<and> jobs = [?job i acc]
           | Errored err arrived \<Rightarrow> resp = Thrown err \<and> jobs = (if arrived then [?job i acc] else [])"
      for i password acc e d
    proof -
      have "jobs \<in> {[], [?job i acc]}" using that(6) by (auto split: answer.splits if_splits)
      with that(1-5) show ?thesis by (intro disjI2 exI [of _ i] exI [of _ password] exI [of _ acc] exI [of _ e]) simp
    qed
    have outcome: ?outcome
      using trigger_outcome [OF wf wf0 run, THEN conjunct2]
      by (elim disjE exE conjE) (simp, (rule step; assumption)+)
    have "typed_store ?rows \<longrightarrow> typed_store rows'" using outcome by (auto simp: typed_store_def in_stream_def)
    moreover have "account_view a ?s' = account_view a s" if "\<not> concerns env a req s"
      using outcome that run AppTrigger
      by (auto simp: account_view_def account_events_def account_jobs_def in_stream_def scheduleDebounce_def)
    ultimately show ?thesis using wf' run AppTrigger by simp
  next
    case (AppApi header r)
    show ?thesis
    proof (cases "oidcAuthMiddleware (ae_verify env) header")
      case (Inl resp)
      with AppApi wf show ?thesis by simp
    next
      case (Inr auth)
      let ?acc = "au_accountId auth"
      obtain r1 b1 where prov: "ensureProvisioned (ae_deps env) (ad_tick ad) ?acc (aw_backend (ap_world s)) = (r1, b1)" by fastforce
      let ?s1 = "s\<lparr>ap_world := (ap_world s)\<lparr>aw_backend := b1\<rparr>\<rparr>"
      from confined_provisioned [OF wf calm, of ?acc "ad_tick ad"] prov have first: "confined ?acc ?rows (bk_rows b1)" by simp
      have "confined ?acc ?rows (bk_rows (aw_backend (ap_world ?s')))"
        "\<And>a. a \<noteq> ?acc \<Longrightarrow> account_jobs a (ap_world ?s') = account_jobs a (ap_world s)"
        using first confined_trans [OF first, of "bk_rows (aw_backend (ap_world (snd (api_route env ad ?acc r ?s1))))"]
          confined_api_route [of ?s1 env ?acc ad r, OF _ calm] confined_wf [OF first]
          api_route_jobs [of _ ?acc env ad r ?s1] AppApi Inr prov
        by (cases r1; simp add: provisioned_def)+
      then show ?thesis using AppApi Inr by (auto simp: confined_def account_view_def)
    qed
  next
    case (AppAdminLimit header target newLimit)
    show ?thesis
    proof (cases "oidcAuthMiddleware (ae_verify env) header")
      case (Inl resp)
      with AppAdminLimit wf show ?thesis by simp
    next
      case (Inr auth)
      have s': "?s' = snd (on_backend (admin_device_limit (ae_deps env) (ad_tick ad) (au_roles auth) (au_accountId auth) target newLimit) s)"
        using AppAdminLimit Inr by simp
      from confined_override [OF wf calm, of target "ad_tick ad" "au_roles auth" "au_accountId auth" newLimit]
      have conf: "confined target ?rows (bk_rows (aw_backend (ap_world ?s')))" unfolding s' on_backend_rows .
      have idle: "?s' = s" if "ADMIN_ROLE_CLAIM \<notin> set (au_roles auth)"
        unfolding s' using that by (simp add: on_backend_def admin_device_limit_def requireAdminRole_def)
      have "account_jobs a (ap_world ?s') = account_jobs a (ap_world s)" unfolding s' by simp
      with conf idle show ?thesis using AppAdminLimit Inr by (auto simp: confined_def account_view_def)
    qed
  qed (use wf in simp_all)
  then show "wf_store (bk_rows (aw_backend (ap_world ?s')))"
    and "\<not> concerns env a req s \<Longrightarrow> account_view a ?s' = account_view a s"
    and "typed_store ?rows \<Longrightarrow> typed_store (bk_rows (aw_backend (ap_world ?s')))" by blast+
qed

text \<open>Over a sequence of requests: the table stays well formed and well typed, and an account whose request none of them is
  stays as it is.\<close>

interpretation appt: request_handler "\<lambda>(ad, req) s. handle_app env ad req s" "\<lambda>r s. True"
  "\<lambda>s. undisturbed (ae_deps env) \<and> wf_store (bk_rows (aw_backend (ap_world s))) \<and> typed_store (bk_rows (aw_backend (ap_world s)))" for env
proof unfold_locales
  fix s :: app and r :: "app_drawn \<times> app_request"
  obtain ad req where r: "r = (ad, req)" by fastforce
  assume "undisturbed (ae_deps env) \<and> wf_store (bk_rows (aw_backend (ap_world s))) \<and> typed_store (bk_rows (aw_backend (ap_world s)))"
  then show "undisturbed (ae_deps env) \<and> wf_store (bk_rows (aw_backend (ap_world (snd ((case r of (ad, req) \<Rightarrow> \<lambda>s. handle_app env ad req s) s)))))
    \<and> typed_store (bk_rows (aw_backend (ap_world (snd ((case r of (ad, req) \<Rightarrow> \<lambda>s. handle_app env ad req s) s)))))"
    using handle_app_confined(1,3) [where s = s and env = env and req = req and ad = ad] by (simp add: r del: handle_app.simps)
qed

interpretation apph: request_handler "\<lambda>(ad, req) s. handle_app env ad req s"
  "\<lambda>r s. \<not> concerns env a (snd r) s"
  "\<lambda>s. undisturbed (ae_deps env) \<and> wf_store (bk_rows (aw_backend (ap_world s))) \<and> account_view a s = v" for env a v
proof unfold_locales
  fix s :: app and r :: "app_drawn \<times> app_request"
  obtain ad req where r: "r = (ad, req)" by fastforce
  assume "undisturbed (ae_deps env) \<and> wf_store (bk_rows (aw_backend (ap_world s))) \<and> account_view a s = v"
    and "\<not> concerns env a (snd r) s"
  then show "undisturbed (ae_deps env) \<and> wf_store (bk_rows (aw_backend (ap_world (snd ((case r of (ad, req) \<Rightarrow> \<lambda>s. handle_app env ad req s) s)))))
    \<and> account_view a (snd ((case r of (ad, req) \<Rightarrow> \<lambda>s. handle_app env ad req s) s)) = v"
    using handle_app_confined(1,2) [where s = s and env = env and req = req and ad = ad] by (simp add: r del: handle_app.simps)
qed

text \<open>C2. Accounts are separate, through every entrance: whatever requests the server answers, as long as none carries a
  verified token of an account, credentials of one of its devices or an administrator's token that names it, the
  account's events and its jobs in both queues stay as they are.\<close>
theorem foreign_requests_confined:
  assumes "wf_store (bk_rows (aw_backend (ap_world s)))" and "undisturbed (ae_deps env)"
    and "admitted (\<lambda>(ad, req) s. handle_app env ad req s) (\<lambda>r s. \<not> concerns env a (snd r) s) s rs"
    and "serve (\<lambda>(ad, req) s. handle_app env ad req s) s rs = (replies, s')"
  shows "account_view a s' = account_view a s \<and> length replies = length rs"
proof -
  have "account_view a s' = account_view a s"
    using apph.serve_inv [where v = "account_view a s", OF _ assms(3)] assms(1,2,4) by simp
  with apph.serve_length [of env s rs] assms(4) show ?thesis by simp
qed

text \<open>C16. The table is well typed: whatever requests the server answers, every row has an event of the aggregate type its
  row names, the events of an aggregate are numbered from 1 without a gap, and all belong to one account.\<close>
theorem served_store_typed:
  assumes "wf_store (bk_rows (aw_backend (ap_world s)))" and "typed_store (bk_rows (aw_backend (ap_world s)))"
    and "undisturbed (ae_deps env)" and "serve (\<lambda>(ad, req) s. handle_app env ad req s) s rs = (replies, s')"
  defines "rows \<equiv> bk_rows (aw_backend (ap_world s'))"
  shows "(\<forall>r \<in> set rows. event_aggregate (ev_data r) = ev_aggregateType r)
    \<and> (\<forall>t i. map ev_sequenceNumber (aggregate_rows rows t i) = [1..<Suc (length (aggregate_rows rows t i))])
    \<and> (\<forall>r \<in> set rows. \<forall>r' \<in> set rows. ev_aggregateType r = ev_aggregateType r' \<and> ev_aggregateId r = ev_aggregateId r' \<longrightarrow>
        ev_accountId r = ev_accountId r')"
proof -
  have inv: "wf_store rows" "typed_store rows"
    using appt.serve_inv [of env s rs] assms(1-4) by (simp_all add: rows_def)
  have "ev_accountId r = ev_accountId r'" if "r \<in> set rows" "r' \<in> set rows" "ev_aggregateType r = ev_aggregateType r'" "ev_aggregateId r = ev_aggregateId r'" for r r'
    using wf_store_account [OF inv(1), of r "ev_aggregateType r" "ev_aggregateId r" r'] that by (simp add: aggregate_rows_def)
  with inv(2) wf_store_numbers [OF inv(1)] show ?thesis unfolding typed_store_def by blast
qed

section \<open>The two guards\<close>

text \<open>Behind the first guard a handler runs for the subject of a verified token, or not at all.\<close>

lemma api_needs_token:
  obtains (refused) "handle_app env ad (AppApi header req) s = (Reply unauthorized, s)"
  | (verified) token payload sub where "header = Some (''Bearer '' @ token)" and "ae_verify env token = Inr payload"
      and "jwt_sub payload = Some (JStr sub)" and "sub \<noteq> []"
      and "handle_app env ad (AppApi header req) s = provisioned (ae_deps env) (ad_tick ad) sub (api_route env ad sub req) s"
proof (cases "oidcAuthMiddleware (ae_verify env) header")
  case (Inl resp)
  then have "resp = unauthorized"
    by (auto simp: oidcAuthMiddleware_def split: option.splits if_splits sum.splits json.splits)
  with Inl show ?thesis by (intro refused) simp
next
  case (Inr auth)
  then obtain h payload sub where "header = Some h" "take 7 h = ''Bearer ''" "ae_verify env (drop 7 h) = Inr payload"
    "jwt_sub payload = Some (JStr sub)" "sub \<noteq> []" "au_accountId auth = sub"
    by (auto simp: oidcAuthMiddleware_def split: option.splits if_splits sum.splits json.splits)
  moreover from this(2) have "h = ''Bearer '' @ drop 7 h" by (metis append_take_drop_id)
  ultimately show ?thesis using Inr by (intro verified [of "drop 7 h" payload sub]) simp_all
qed

section \<open>Changing a password\<close>

text \<open>
  A change sends at most two requests. It is reported done only when the last of them, a \<open>PATCH\<close> of that user, was
  accepted; the token it carried is the cached one with more than five seconds left, or one granted just before,
  which is then the cached one.
\<close>

theorem password_change_outcome:
  assumes "setUserPassword base64 server config now now' user pw c = (r, c')"
  shows "\<exists>sent. lc_log c' = lc_log c @ sent \<and> length sent \<le> 2
    \<and> (r = Inr () \<longrightarrow> (\<exists>token resp. last sent = password_request config token user pw \<and> server (lc_log c') = Inr resp \<and> logto_ok resp
        \<and> (sent = [last sent] \<and> fresh_token now (lc_cachedToken c) = Some token \<and> lc_cachedToken c' = lc_cachedToken c
          \<or> (\<exists>g ttl. sent = [token_request base64 config, last sent] \<and> server (lc_log c @ [token_request base64 config]) = Inr g \<and> logto_ok g
              \<and> ls_grant g = Inr (token, ttl) \<and> lc_cachedToken c' = Some \<lparr>ct_accessToken = token, ct_expiresAt = now' + ttl * 1000\<rparr>))))"
proof (cases "fresh_token now (lc_cachedToken c)")
  case (Some token)
  with assms show ?thesis
    by (intro exI [of _ "[password_request config token user pw]"])
      (auto simp: setUserPassword_def getManagementAccessToken_def logto_fetch_def Let_def split: sum.splits if_splits)
next
  case None
  let ?t = "token_request base64 config"
  show ?thesis
  proof (cases "\<exists>g token ttl. server (lc_log c @ [?t]) = Inr g \<and> logto_ok g \<and> ls_grant g = Inr (token, ttl)")
    case True
    then obtain g token ttl where g: "server (lc_log c @ [?t]) = Inr g" "logto_ok g" "ls_grant g = Inr (token, ttl)" by blast
    with None assms show ?thesis
      by (intro exI [of _ "[?t, password_request config token user pw]"])
        (auto simp: setUserPassword_def getManagementAccessToken_def logto_fetch_def Let_def split: sum.splits if_splits)
  next
    case False
    then have "lc_log c' = lc_log c @ [?t] \<and> r \<noteq> Inr ()" using None assms
      by (auto simp: setUserPassword_def getManagementAccessToken_def logto_fetch_def Let_def split: sum.splits if_splits prod.splits)
    then show ?thesis by (intro exI [of _ "[?t]"]) simp
  qed
qed

section \<open>A sample application\<close>

definition sample_app_env :: app_env where
  "sample_app_env = \<lparr>ae_deps = sample_routes,
     ae_verify = (\<lambda>token. if token = ''t'' then Inr \<lparr>jwt_sub = Some (JStr ''other''), jwt_roles = None\<rparr> else Inl (JsError ''bad token'')),
     ae_base64 = (\<lambda>s. s), ae_decode64 = (\<lambda>s. s), ae_server = (\<lambda>log. Inl (JsError ''down'')), ae_glob = sample_glob,
     ae_removable1 = (\<lambda>j. True), ae_removable2 = (\<lambda>j. True)\<rparr>"

definition sample_app :: app where
  "sample_app = \<lparr>ap_world = \<lparr>aw_backend = sample_backend sample_device_rows, aw_executions = [], aw_debounce = [], aw_actionExecution = []\<rparr>,
     ap_logto = \<lparr>lc_cachedToken = None, lc_log = []\<rparr>\<rparr>"

definition sample_app_drawn :: app_drawn where
  "sample_app_drawn = \<lparr>ad_tick = \<lparr>tk_id = ''v'', tk_now = 9\<rparr>, ad_dr = sample_drawn, ad_pd = sample_pd,
     ad_executionId = ''x'', ad_causationEventId = ''c'', ad_now = 0, ad_now' = 0,
     ad_queued = Done, ad_closure = calm_closure\<rparr>"

lemma foreign_requests_confined_witness:
  "\<exists>replies s'. serve (\<lambda>(ad, req) s. handle_app sample_app_env ad req s) sample_app
      [(sample_app_drawn, AppApi (Some ''Bearer t'') (ApiDevices (DecommissionDevice ''d''))), (sample_app_drawn, AppApi None ApiCloseAccount)]
      = (replies, s')
    \<and> account_view ''acc'' s' = account_view ''acc'' sample_app \<and> length replies = 2"
proof -
  let ?h = "\<lambda>(ad, req) s. handle_app sample_app_env ad req s"
  let ?rs = "[(sample_app_drawn, AppApi (Some ''Bearer t'') (ApiDevices (DecommissionDevice ''d''))), (sample_app_drawn, AppApi None ApiCloseAccount)]"
  obtain replies s' where run: "serve ?h sample_app ?rs = (replies, s')" by fastforce
  have "oidcAuthMiddleware (ae_verify sample_app_env) (Some ''Bearer t'') = Inr \<lparr>au_accountId = ''other'', au_roles = []\<rparr>"
    "oidcAuthMiddleware (ae_verify sample_app_env) None = Inl unauthorized"
    by (simp_all add: oidcAuthMiddleware_def sample_app_env_def extractRoles_def)
  then have ok: "admitted ?h (\<lambda>r s. \<not> concerns sample_app_env ''acc'' (snd r) s) sample_app ?rs" by (simp del: handle_app.simps)
  have "wf_store (bk_rows (aw_backend (ap_world sample_app)))" "undisturbed (ae_deps sample_app_env)"
    using sample_device_wf(1) by (simp_all add: sample_app_def sample_app_env_def sample_backend_def)
  from foreign_requests_confined [OF this ok run] run show ?thesis by auto
qed

lemma served_store_typed_witness:
  "\<exists>replies s'. serve (\<lambda>(ad, req) s. handle_app sample_app_env ad req s) sample_app
      [(sample_app_drawn, AppApi (Some ''Bearer t'') (ApiDevices (RegisterDevice None)))] = (replies, s')
    \<and> (\<forall>r \<in> set (bk_rows (aw_backend (ap_world s'))). event_aggregate (ev_data r) = ev_aggregateType r)"
proof -
  let ?h = "\<lambda>(ad, req) s. handle_app sample_app_env ad req s"
  obtain replies s' where run: "serve ?h sample_app [(sample_app_drawn, AppApi (Some ''Bearer t'') (ApiDevices (RegisterDevice None)))] = (replies, s')"
    by fastforce
  have "wf_store (bk_rows (aw_backend (ap_world sample_app)))" "undisturbed (ae_deps sample_app_env)"
    "typed_store (bk_rows (aw_backend (ap_world sample_app)))"
    using sample_device_wf(1) by (simp_all add: sample_app_def sample_app_env_def sample_backend_def typed_store_def sample_device_defs)
  from served_store_typed [OF this(1,3,2) run] run show ?thesis by blast
qed

end
