(* ===== verification/Queues.thy ===== *)
theory Queues
  imports ExecutionWorker
begin

text \<open>
  The queues and the mail channel around the execution worker: \<open>adapters/queue-bullmq/queue.ts\<close> (names, shared
  connection, default job options) and \<open>adapters/notifications-email/email-notifier.ts\<close>, and the life of a
  queued execution over all its attempts.

  BullMQ decides whether a failed attempt is repeated: a parameter \<open>retried\<close>, of the job's \<open>attempts\<close> and the number of
  attempts made, that the lemmas take to be its documented rule (\<open>bull_retries\<close>: until \<open>attempts\<close> are made, one
  without the option). The SMTP transport is a parameter too. A \<open>turn\<close> is one delivery of a job to a worker: its
  dependencies and what others did to the event table since the previous one.
\<close>

section \<open>Queues\<close>

definition QUEUE_NAMES :: "string \<Rightarrow> string option" where
  "QUEUE_NAMES = map_of [(''debounce'', ''ip-client-debounce''), (''actionExecution'', ''action-execution'')]"

text \<open>\<open>connections\<close>: the URLs of the connections opened so far, the shared one among them if there is one.\<close>

record redis_connections =
  rc_shared :: "string option"
  rc_opened :: "(string \<times> (string \<times> json) list) list"

definition getRedisConnection :: "Config \<Rightarrow> redis_connections \<Rightarrow> string \<times> redis_connections" where
  "getRedisConnection config c = (case rc_shared c of
     Some url \<Rightarrow> (url, c)
   | None \<Rightarrow> (cfg_redisUrl config, c\<lparr>rc_shared := Some (cfg_redisUrl config),
       rc_opened := rc_opened c @ [(cfg_redisUrl config, [(''maxRetriesPerRequest'', JNull)])]\<rparr>))"

record job_options =
  jo_attempts :: int
  jo_backoffType :: string
  jo_backoffDelay :: int
  jo_stackTraceLimit :: nat

record queue =
  qu_name :: string
  qu_connection :: string
  qu_defaultJobOptions :: "job_options option"

definition createDebounceQueue :: "Config \<Rightarrow> redis_connections \<Rightarrow> queue \<times> redis_connections" where
  "createDebounceQueue config c = (case getRedisConnection config c of (connection, c) \<Rightarrow>
     (\<lparr>qu_name = the (QUEUE_NAMES ''debounce''), qu_connection = connection, qu_defaultJobOptions = None\<rparr>, c))"

definition createActionExecutionQueue :: "Config \<Rightarrow> redis_connections \<Rightarrow> queue \<times> redis_connections" where
  "createActionExecutionQueue config c = (case getRedisConnection config c of (connection, c) \<Rightarrow>
     (\<lparr>qu_name = the (QUEUE_NAMES ''actionExecution''), qu_connection = connection,
       qu_defaultJobOptions = Some \<lparr>jo_attempts = cfg_actionRetryAttempts config, jo_backoffType = ''exponential'',
         jo_backoffDelay = cfg_actionRetryBaseDelayMs config, jo_stackTraceLimit = 0\<rparr>\<rparr>, c))"

text \<open>A job as it is added: it inherits the queue's default options.\<close>

definition queued_job :: "queue \<Rightarrow> ActionExecutionJobData \<Rightarrow> job" where
  "queued_job q data = \<lparr>jb_data = data, jb_attemptsMade = 0, jb_attempts = map_option jo_attempts (qu_defaultJobOptions q)\<rparr>"

lemma one_connection:
  "rc_opened c = [] \<Longrightarrow> rc_shared c = None \<Longrightarrow>
     (case createDebounceQueue config c of (q, c1) \<Rightarrow> case createActionExecutionQueue config c1 of (q', c2) \<Rightarrow>
        case getRedisConnection config c2 of (url, c3) \<Rightarrow>
        length (rc_opened c3) = 1 \<and> qu_connection q = url \<and> qu_connection q' = url \<and> url = cfg_redisUrl config)"
  by (simp add: createDebounceQueue_def createActionExecutionQueue_def getRedisConnection_def)

section \<open>Mail\<close>

record smtp_transport =
  st_host :: string
  st_port :: int
  st_secure :: bool
  st_auth :: "(string \<times> string) option"

record mail =
  ml_from :: string
  ml_to :: string
  ml_subject :: string
  ml_text :: string

definition createTransport :: "Config \<Rightarrow> smtp_transport" where
  "createTransport config = \<lparr>st_host = cfg_smtpHost config, st_port = cfg_smtpPort config, st_secure = cfg_smtpSecure config,
     st_auth = (if cfg_smtpUser config \<noteq> [] then Some (cfg_smtpUser config, cfg_smtpPassword config) else None)\<rparr>"

definition email_of :: "Config \<Rightarrow> notification_message \<Rightarrow> mail" where
  "email_of config message = \<lparr>ml_from = cfg_notificationFromAddress config, ml_to = join_with '', '' (nm_addresses message),
     ml_subject = nm_subject message, ml_text = nm_body message\<rparr>"

definition email_send :: "(smtp_transport \<Rightarrow> mail \<Rightarrow> exn option) \<Rightarrow> Config \<Rightarrow> notification_message \<Rightarrow> exn option" where
  "email_send sendMail config message = sendMail (createTransport config) (email_of config message)"

text \<open>The table of \<open>main.ts\<close>.\<close>

definition notification_channels ::
  "(smtp_transport \<Rightarrow> mail \<Rightarrow> exn option) \<Rightarrow> Config \<Rightarrow> string \<Rightarrow> (notification_message \<Rightarrow> exn option) option" where
  "notification_channels sendMail config = map_of [(EMAIL_NOTIFICATION_CHANNEL_TYPE, email_send sendMail config)]"

section \<open>The life of a queued execution\<close>

record turn =
  tu_deps :: worker_deps
  tu_others :: "event_store \<Rightarrow> event_store"

text \<open>The number of attempts, the result of the last one if the job is settled, and the state it leaves.\<close>

fun job_life ::
  "(int option \<Rightarrow> nat \<Rightarrow> bool) \<Rightarrow> turn list \<Rightarrow> job \<Rightarrow> worker_state \<Rightarrow> nat \<times> (exn + unit) option \<times> worker_state" where
  "job_life retried [] j w = (0, None, w)"
| "job_life retried (t # ts) j w =
     (case run_execution (tu_deps t) j (w\<lparr>wk_rows := tu_others t (wk_rows w)\<rparr>) of
        (Inr u, w) \<Rightarrow> (1, Some (Inr u), w)
      | (Inl err, w) \<Rightarrow>
          if retried (jb_attempts j) (jb_attemptsMade j + 1)
          then (case job_life retried ts (j\<lparr>jb_attemptsMade := jb_attemptsMade j + 1\<rparr>) w of (n, res, w) \<Rightarrow> (n + 1, res, w))
          else (1, Some (Inl err), w))"

definition bull_retries :: "(int option \<Rightarrow> nat \<Rightarrow> bool) \<Rightarrow> bool" where
  "bull_retries retried = (\<forall>attempts made. retried attempts made = (int made < nullish_or attempts 1))"

definition calm_turn :: "turn \<Rightarrow> bool" where
  "calm_turn t = (wd_between (tu_deps t) = (\<lambda>n r. r))"

text \<open>How often a job is attempted at most.\<close>

definition attempt_limit :: "job \<Rightarrow> nat" where
  "attempt_limit j = nat (nullish_or (jb_attempts j) 1)"

lemma one_attempt_mails:
  assumes "run_execution deps j w = (res, w')" and "wd_between deps = (\<lambda>n r. r)"
  shows "length (wk_mails w') \<le> length (wk_mails w) + 1
    \<and> (length (wk_mails w') = length (wk_mails w) + 1 \<longrightarrow> res = Inr () \<or> is_final_attempt j)
    \<and> (\<exists>ms. wk_mails w' = wk_mails w @ ms)"
  using notification_respects_preference [OF assms]
  by (elim disjE exE conjE) (auto split: outcome.splits)

lemma final_not_retried:
  "bull_retries retried \<Longrightarrow> retried (jb_attempts j) (Suc (jb_attemptsMade j)) = (\<not> is_final_attempt j)"
  by (auto simp: bull_retries_def is_final_attempt_def)

lemma job_life_mails:
  assumes "bull_retries retried" and "list_all calm_turn ts" and "job_life retried ts j w = (n, res, w')"
  shows "length (wk_mails w') \<le> length (wk_mails w) + 1 \<and> (\<exists>ms. wk_mails w' = wk_mails w @ ms)"
  using assms(2,3)
proof (induction ts arbitrary: j w n res w')
  case (Cons t ts)
  obtain r w1 where r: "run_execution (tu_deps t) j (w\<lparr>wk_rows := tu_others t (wk_rows w)\<rparr>) = (r, w1)" by fastforce
  from Cons.prems(1) have calm: "calm_turn t" "list_all calm_turn ts" by simp_all
  note once = one_attempt_mails [OF r calm(1) [unfolded calm_turn_def]]
  show ?case
  proof (cases "(\<exists>u. r = Inr u) \<or> is_final_attempt j")
    case True
    with Cons.prems(2) r have "w' = w1" by (cases r) (simp_all add: final_not_retried [OF assms(1)])
    with once show ?thesis by simp
  next
    case False
    then obtain err where err: "r = Inl err" by (cases r) simp_all
    let ?j = "j\<lparr>jb_attemptsMade := jb_attemptsMade j + 1\<rparr>"
    obtain n' where life: "job_life retried ts ?j w1 = (n', res, w')"
      using Cons.prems(2) r err False by (auto simp: final_not_retried [OF assms(1)] split: prod.splits)
    from Cons.IH [OF calm(2) life] once False err show ?thesis by auto
  qed
qed simp

text \<open>A job with at least as many turns as attempts is settled, within its limit.\<close>

lemma job_life_attempts:
  assumes "bull_retries retried" and "job_life retried ts j w = (n, res, w')"
    and "length ts \<ge> max 1 (attempt_limit j - jb_attemptsMade j)"
  shows "res \<noteq> None \<and> 1 \<le> n \<and> n \<le> max 1 (attempt_limit j - jb_attemptsMade j)
    \<and> (\<forall>err. res = Some (Inl err) \<longrightarrow> n = max 1 (attempt_limit j - jb_attemptsMade j))"
  using assms(2,3)
proof (induction ts arbitrary: j w n res w')
  case (Cons t ts)
  obtain r w1 where r: "run_execution (tu_deps t) j (w\<lparr>wk_rows := tu_others t (wk_rows w)\<rparr>) = (r, w1)" by fastforce
  show ?case
  proof (cases "\<exists>u. r = Inr u")
    case True
    with Cons.prems(1) r show ?thesis by auto
  next
    case False
    then obtain err where err: "r = Inl err" by (cases r) simp_all
    show ?thesis
    proof (cases "is_final_attempt j")
      case True
      with Cons.prems(1) r err have "n = 1" "res = Some (Inl err)" by (simp_all add: final_not_retried [OF assms(1)])
      moreover have "attempt_limit j \<le> jb_attemptsMade j + 1" using True by (simp add: is_final_attempt_def attempt_limit_def)
      ultimately show ?thesis by simp
    next
      case more: False
      let ?j = "j\<lparr>jb_attemptsMade := jb_attemptsMade j + 1\<rparr>"
      obtain n' where life: "job_life retried ts ?j w1 = (n', res, w')" "n = n' + 1"
        using Cons.prems(1) r err more by (auto simp: final_not_retried [OF assms(1)] split: prod.splits)
      have lim: "attempt_limit ?j - jb_attemptsMade ?j = attempt_limit j - jb_attemptsMade j - 1"
        "attempt_limit j - jb_attemptsMade j \<ge> 2"
        using more by (simp_all add: attempt_limit_def is_final_attempt_def)
      with Cons.prems(2) have "length ts \<ge> max 1 (attempt_limit ?j - jb_attemptsMade ?j)" by simp
      from Cons.IH [OF life(1) this] life(2) lim show ?thesis by auto
    qed
  qed
qed simp

section \<open>Properties\<close>

text \<open>C31. A queued execution is attempted a bounded number of times and its owner hears of it at most once: a job of the
  queue the application creates is settled after at most the configured number of attempts (one at least), a
  failure only after all of them, and over its whole life, whatever other writers do between the attempts, at
  most one notification is sent.\<close>
theorem queued_execution_settles:
  assumes "bull_retries retried" and "list_all calm_turn ts"
    and "length ts \<ge> max 1 (nat (cfg_actionRetryAttempts config))"
    and "job_life retried ts (queued_job (fst (createActionExecutionQueue config c)) data) w = (n, res, w')"
  shows "res \<noteq> None \<and> 1 \<le> n \<and> n \<le> max 1 (nat (cfg_actionRetryAttempts config))
    \<and> (\<forall>err. res = Some (Inl err) \<longrightarrow> n = max 1 (nat (cfg_actionRetryAttempts config)))
    \<and> length (wk_mails w') \<le> length (wk_mails w) + 1"
proof -
  let ?j = "queued_job (fst (createActionExecutionQueue config c)) data"
  have limit: "attempt_limit ?j - jb_attemptsMade ?j = nat (cfg_actionRetryAttempts config)"
    by (simp add: queued_job_def createActionExecutionQueue_def attempt_limit_def nullish_or_def split: prod.split)
  from job_life_attempts [OF assms(1,4)] job_life_mails [OF assms(1,2,4)] assms(3) show ?thesis
    unfolding limit by blast
qed

lemma queued_execution_settles_witness:
  "\<exists>n res w'. job_life (\<lambda>a m. int m < nullish_or a 1) (replicate 9 \<lparr>tu_deps = sample_worker, tu_others = (\<lambda>rows. rows)\<rparr>)
       (queued_job (fst (createActionExecutionQueue (sample_config\<lparr>cfg_actionRetryAttempts := 5\<rparr>) \<lparr>rc_shared = None, rc_opened = []\<rparr>))
         (jb_data sample_job)) sample_worker_state = (n, Some res, w')
     \<and> n \<le> 5 \<and> length (wk_mails w') \<le> 1"
proof -
  let ?retried = "\<lambda>a m. int m < nullish_or a 1" and ?config = "sample_config\<lparr>cfg_actionRetryAttempts := 5\<rparr>"
  let ?ts = "replicate 9 \<lparr>tu_deps = sample_worker, tu_others = (\<lambda>rows. rows)\<rparr>"
  let ?j = "queued_job (fst (createActionExecutionQueue ?config \<lparr>rc_shared = None, rc_opened = []\<rparr>)) (jb_data sample_job)"
  obtain n res w' where life: "job_life ?retried ?ts ?j sample_worker_state = (n, res, w')" by (rule prod_cases3)
  have "bull_retries ?retried" by (simp add: bull_retries_def)
  moreover have "list_all calm_turn ?ts" by (simp add: list_all_iff calm_turn_def sample_worker_def)
  ultimately have "res \<noteq> None \<and> n \<le> max 1 (nat 5) \<and> length (wk_mails w') \<le> length (wk_mails sample_worker_state) + 1"
    using queued_execution_settles [OF _ _ _ life] by simp
  with life show ?thesis by (auto simp: sample_worker_state_def)
qed

end
