(* ===== verification/Startup.thy ===== *)
theory Startup
  imports Queues AgentChannel Coordinator Migrations
begin

text \<open>
  The process: \<open>main.ts\<close> (start and shutdown), \<open>observability\<close> (logging configuration, access log) and
  \<open>adapters/event-store-postgres/pool.ts\<close>.

  A start is a sequence of fallible steps, each of which opens resources; \<open>sp_*\<close> is what the surroundings answer (the
  environment variables, the database, the binding of both ports). LogTape, the HTTP server and the signal delivery are
  seen through the calls the code makes. What the workers and listeners do is in their own theories.
\<close>

section \<open>Logging\<close>

definition getAppLogger :: "string list \<Rightarrow> string list" where
  "getAppLogger category = [''fluxip'', ''app''] @ category"

record logger_config =
  lg_category :: "string list"
  lg_sinks :: "string list"
  lg_lowestLevel :: string

record logging_config =
  lo_directory :: string
  lo_file :: string
  lo_maxSize :: int
  lo_maxFiles :: int
  lo_loggers :: "logger_config list"

definition app_loggers :: "string \<Rightarrow> logger_config list" where
  "app_loggers level =
     [\<lparr>lg_category = [''fluxip'', ''app''], lg_sinks = [''console''], lg_lowestLevel = level\<rparr>,
      \<lparr>lg_category = [''fluxip'', ''access''], lg_sinks = [''accessFile''], lg_lowestLevel = ''info''\<rparr>,
      \<lparr>lg_category = [''logtape'', ''meta''], lg_sinks = [''console''], lg_lowestLevel = ''warning''\<rparr>]"

definition configureLogging ::
  "(string \<Rightarrow> string) \<Rightarrow> (string \<Rightarrow> exn option) \<Rightarrow> (string \<Rightarrow> exn + string) \<Rightarrow> Config \<Rightarrow> exn + logging_config" where
  "configureLogging dirname mkdir parseLogLevel config =
     (let directory = dirname (cfg_accessLogFilePath config) in
      case mkdir directory of Some err \<Rightarrow> Inl err | None \<Rightarrow>
      (case parseLogLevel (cfg_appLogLevel config) of Inl err \<Rightarrow> Inl err | Inr level \<Rightarrow>
       Inr \<lparr>lo_directory = directory, lo_file = cfg_accessLogFilePath config, lo_maxSize = cfg_accessLogMaxSizeBytes config,
         lo_maxFiles = cfg_accessLogMaxFiles config, lo_loggers = app_loggers level\<rparr>))"

text \<open>The fields both sinks redact: the library's own patterns and two case-insensitive ones.\<close>

fun has_infix :: "string \<Rightarrow> string \<Rightarrow> bool" where
  "has_infix pat [] = (pat = [])"
| "has_infix pat (c # cs) = (take (length pat) (c # cs) = pat \<or> has_infix pat cs)"

definition redacted_field :: "(string \<Rightarrow> bool) \<Rightarrow> string \<Rightarrow> bool" where
  "redacted_field default_redacted field =
     (default_redacted field \<or> has_infix ''authorization'' (js_lower field) \<or> has_infix ''credential'' (js_lower field))"

text \<open>No configured logger of an application category writes the access log, and none of the access category the console.\<close>

lemma log_trees_disjoint:
  assumes "l \<in> set (app_loggers level)"
  shows "take (length (lg_category l)) (getAppLogger category) = lg_category l \<Longrightarrow> lg_sinks l = [''console'']"
    and "take (length (lg_category l)) [''fluxip'', ''access''] = lg_category l \<Longrightarrow> lg_sinks l = [''accessFile'']"
  using assms by (auto simp: app_loggers_def getAppLogger_def)

text \<open>The address in the access log; \<open>remote\<close> is absent where \<open>getConnInfo\<close> throws or knows none.\<close>

definition resolveSourceIp :: "string option \<Rightarrow> string option \<Rightarrow> string option" where
  "resolveSourceIp remote forwardedFor =
     (if truthy remote then remote
      else map_option (\<lambda>header. js_trim (hd (split_char (CHR '','') header))) forwardedFor)"

text \<open>An error of an idle database connection is logged and nothing else.\<close>

definition pool_on_error :: "string \<Rightarrow> (string list \<times> string) list \<Rightarrow> (string list \<times> string) list" where
  "pool_on_error message log = log @ [(getAppLogger [''postgres''], ''Postgres connection error: '' @ message)]"

text \<open>The metrics endpoint answers what the registry holds.\<close>

definition metrics_route :: "exn + string \<Rightarrow> response" where
  "metrics_route metrics = (case metrics of Inl err \<Rightarrow> Thrown err | Inr body \<Rightarrow> Text 200 body)"

section \<open>Start\<close>

datatype resource =
    DatabasePool string
  | RedisConnection string
  | JobQueue string
  | ResyncTimer
  | JobWorker string
  | AgentListener nat
  | HttpServer string int
  | SignalHandlers

record process =
  pr_resources :: "resource list"
  pr_logging :: "logging_config option"
  pr_stderr :: "string list"
  pr_exit :: "nat option"

record 'd surroundings =
  sp_env :: env
  sp_dirname :: "string \<Rightarrow> string"
  sp_mkdir :: "string \<Rightarrow> exn option"
  sp_parseLogLevel :: "string \<Rightarrow> exn + string"
  sp_regclassError :: "exn option"
  sp_selectError :: "exn option"
  sp_migrations :: "exn + string list"
  sp_database :: "'d database"
  sp_resolve :: "string \<Rightarrow> string \<Rightarrow> string"
  sp_existsSync :: "string \<Rightarrow> bool"
  sp_here :: string
  sp_cwd :: string
  sp_bind :: "(string \<times> int) list \<Rightarrow> string \<Rightarrow> exn + nat"
  sp_listen :: "resource list \<Rightarrow> string \<Rightarrow> int \<Rightarrow> exn option"
  sp_stack :: "string \<Rightarrow> string option"
  sp_uncaught :: "exn \<Rightarrow> string"

definition initial_process :: process where
  "initial_process = \<lparr>pr_resources = [], pr_logging = None, pr_stderr = [], pr_exit = None\<rparr>"

definition opened :: "resource list \<Rightarrow> process \<Rightarrow> process" where
  "opened rs p = p\<lparr>pr_resources := pr_resources p @ rs\<rparr>"

text \<open>The \<open>catch\<close> of \<open>main()\<close>: the message reaches the standard error even where logging is not configured yet.\<close>

definition fatal :: "(string \<Rightarrow> string option) \<Rightarrow> string \<Rightarrow> process \<Rightarrow> process" where
  "fatal stack message p = p\<lparr>pr_stderr := pr_stderr p @ [''Fatal error during startup: '' @ nullish_or (stack message) message @ [CHR 10]],
     pr_exit := Some 1\<rparr>"

fun schema_exn_message :: "schema_exn \<Rightarrow> string" where
  "schema_exn_message (SchemaOutdatedError pending) = schema_outdated_message pending"
| "schema_exn_message (SchemaCheckFailed err) = error_message err"

definition surroundings_proto :: "'d surroundings \<Rightarrow> exn + string" where
  "surroundings_proto s = protoPath (sp_resolve s) (sp_existsSync s) (sp_here s) (sp_cwd s)"

text \<open>The HTTP server binds after \<open>main\<close> has returned. Nobody listens to its error event, so Node reports it and ends
  the process. \<open>sp_listen\<close> is the answer of the system to the address, given what the process holds already.\<close>

definition crashed :: "(exn \<Rightarrow> string) \<Rightarrow> exn \<Rightarrow> process \<Rightarrow> process" where
  "crashed uncaught err p = p\<lparr>pr_stderr := pr_stderr p @ [uncaught err], pr_exit := Some 1\<rparr>"

definition serve_http :: "'d surroundings \<Rightarrow> Config \<Rightarrow> process \<Rightarrow> process" where
  "serve_http s config p = (case sp_listen s (pr_resources p) (cfg_bindAddress config) (cfg_port config) of
     Some err \<Rightarrow> crashed (sp_uncaught s) err p
   | None \<Rightarrow> opened [HttpServer (cfg_bindAddress config) (cfg_port config)] p)"

text \<open>\<open>main\<close>, from the agent listener on and as a whole.\<close>

definition listen :: "'d surroundings \<Rightarrow> Config \<Rightarrow> process \<Rightarrow> process" where
  "listen s config p = (case server_start (surroundings_proto s) (sp_bind s) config of
     Inl err \<Rightarrow> fatal (sp_stack s) (error_message err) p
   | Inr port \<Rightarrow> serve_http s config (opened [AgentListener port, SignalHandlers] p))"

definition process_main :: "'d surroundings \<Rightarrow> process" where
  "process_main s = (case loadConfig (sp_env s) of
     Inl problems \<Rightarrow> fatal (sp_stack s) (join_with [CHR 10] (map describeProblem problems)) initial_process
   | Inr config \<Rightarrow> (case configureLogging (sp_dirname s) (sp_mkdir s) (sp_parseLogLevel s) config of
     Inl err \<Rightarrow> fatal (sp_stack s) (error_message err) initial_process
   | Inr logs \<Rightarrow>
     (let p = opened [DatabasePool (cfg_databaseUrl config)] (initial_process\<lparr>pr_logging := Some logs\<rparr>) in
      case assertSchemaCurrent (sp_regclassError s) (sp_selectError s) (sp_migrations s) (sp_database s) of
        Inl err \<Rightarrow> fatal (sp_stack s) (schema_exn_message err) p
      | Inr u \<Rightarrow> listen s config (opened
          [RedisConnection (cfg_redisUrl config), JobQueue (the (QUEUE_NAMES ''debounce'')),
           JobQueue (the (QUEUE_NAMES ''actionExecution'')), JobWorker (the (QUEUE_NAMES ''actionExecution'')),
           ResyncTimer, JobWorker (the (QUEUE_NAMES ''debounce''))] p))))"

text \<open>What serves the outside: nothing of it exists before the configuration and the schema were found in order.\<close>

fun serving :: "resource \<Rightarrow> bool" where
  "serving (DatabasePool url) = False"
| "serving r = True"

fun is_address :: "resource \<Rightarrow> bool" where
  "is_address (AgentListener port) = True"
| "is_address (HttpServer host port) = True"
| "is_address r = False"

text \<open>A start that fails before it listens leaves nothing that serves; one that cannot bind the HTTP address dies with its
  agent listener open.\<close>

lemma process_main_cases:
  obtains (failed) message where "pr_exit (process_main s) = Some 1"
      "pr_stderr (process_main s) = [''Fatal error during startup: '' @ message @ [CHR 10]]"
      "list_ex (\<lambda>r. case r of AgentListener n \<Rightarrow> True | HttpServer a n \<Rightarrow> True | SignalHandlers \<Rightarrow> True | _ \<Rightarrow> False)
         (pr_resources (process_main s)) = False"
      "(\<exists>problems. loadConfig (sp_env s) = Inl problems) \<or>
       (\<exists>err. assertSchemaCurrent (sp_regclassError s) (sp_selectError s) (sp_migrations s) (sp_database s) = Inl err) \<longrightarrow>
         list_ex serving (pr_resources (process_main s)) = False"
  | (listening) config port held where "loadConfig (sp_env s) = Inr config"
      "assertSchemaCurrent (sp_regclassError s) (sp_selectError s) (sp_migrations s) (sp_database s) = Inr ()"
      "sp_bind s (server_options config) (cfg_bindAddress config @ '':'' @ int_to_string (cfg_agentPort config)) = Inr port"
      "{r \<in> set held. is_address r} = {AgentListener port}"
      "process_main s = serve_http s config \<lparr>pr_resources = held, pr_logging = pr_logging (process_main s), pr_stderr = [], pr_exit = None\<rparr>"
proof (cases "loadConfig (sp_env s)")
  case (Inl problems)
  show ?thesis
    by (rule failed) (simp_all add: process_main_def Inl fatal_def initial_process_def)
next
  case config: (Inr config)
  show ?thesis
  proof (cases "configureLogging (sp_dirname s) (sp_mkdir s) (sp_parseLogLevel s) config")
    case (Inl err)
    show ?thesis
      by (rule failed) (simp_all add: process_main_def config Inl fatal_def initial_process_def)
  next
    case logging: (Inr logs)
    show ?thesis
    proof (cases "assertSchemaCurrent (sp_regclassError s) (sp_selectError s) (sp_migrations s) (sp_database s)")
      case (Inl err)
      show ?thesis
        by (rule failed) (simp_all add: process_main_def config logging Inl fatal_def initial_process_def opened_def)
    next
      case schema: (Inr u)
      show ?thesis
      proof (cases "server_start (surroundings_proto s) (sp_bind s) config")
        case (Inl err)
        show ?thesis
          by (rule failed) (simp_all add: process_main_def listen_def config logging schema Inl fatal_def initial_process_def opened_def)
      next
        case (Inr port)
        then have bound: "sp_bind s (server_options config) (cfg_bindAddress config @ '':'' @ int_to_string (cfg_agentPort config)) = Inr port"
          by (simp add: server_start_def split: sum.splits)
        let ?held = "[DatabasePool (cfg_databaseUrl config), RedisConnection (cfg_redisUrl config), JobQueue (the (QUEUE_NAMES ''debounce'')),
           JobQueue (the (QUEUE_NAMES ''actionExecution'')), JobWorker (the (QUEUE_NAMES ''actionExecution'')),
           ResyncTimer, JobWorker (the (QUEUE_NAMES ''debounce'')), AgentListener port, SignalHandlers]"
        have run: "process_main s = serve_http s config \<lparr>pr_resources = ?held, pr_logging = Some logs, pr_stderr = [], pr_exit = None\<rparr>"
          by (simp add: process_main_def listen_def config logging schema Inr initial_process_def opened_def)
        then have "pr_logging (process_main s) = Some logs"
          by (simp add: serve_http_def crashed_def opened_def split: option.split)
        with run config schema bound show ?thesis
          by (intro listening [of config port ?held]) auto
      qed
    qed
  qed
qed

section \<open>Shutdown\<close>

record application =
  ap_coordinator :: coordinator
  ap_sessions :: sessions
  ap_process :: process

datatype shutdown_step = CloseWorker string | EndPool | DisposeLogging

text \<open>\<open>fault\<close>: the rejection of an awaited close; it ends the handler, so what comes after it does not happen.\<close>

definition release :: "resource list \<Rightarrow> process \<Rightarrow> process" where
  "release rs p = p\<lparr>pr_resources := filter (\<lambda>r. r \<notin> set rs) (pr_resources p)\<rparr>"

fun is_pool :: "resource \<Rightarrow> bool" where
  "is_pool (DatabasePool url) = True"
| "is_pool r = False"

fun is_listener :: "resource \<Rightarrow> bool" where
  "is_listener (AgentListener port) = True"
| "is_listener r = False"

definition release_all :: "(resource \<Rightarrow> bool) \<Rightarrow> process \<Rightarrow> process" where
  "release_all P p = p\<lparr>pr_resources := filter (\<lambda>r. \<not> P r) (pr_resources p)\<rparr>"

fun run_shutdown :: "(shutdown_step \<Rightarrow> exn option) \<Rightarrow> shutdown_step list \<Rightarrow> process \<Rightarrow> (exn + unit) \<times> process" where
  "run_shutdown fault [] p = (Inr (), p\<lparr>pr_exit := Some 0\<rparr>)"
| "run_shutdown fault (x # xs) p = (case fault x of
     Some err \<Rightarrow> (Inl err, p)
   | None \<Rightarrow> run_shutdown fault xs (case x of
         CloseWorker q \<Rightarrow> release [JobWorker q] p
       | EndPool \<Rightarrow> release_all is_pool p
       | DisposeLogging \<Rightarrow> p\<lparr>pr_logging := None\<rparr>))"

definition SHUTDOWN_STEPS :: "shutdown_step list" where
  "SHUTDOWN_STEPS = [CloseWorker (the (QUEUE_NAMES ''debounce'')), CloseWorker (the (QUEUE_NAMES ''actionExecution'')),
     EndPool, DisposeLogging]"

definition shutdown :: "nat option \<Rightarrow> (shutdown_step \<Rightarrow> exn option) \<Rightarrow> application \<Rightarrow> (exn + unit) \<times> application" where
  "shutdown drained fault a =
     (let coordinator = coordinator_stop (ap_coordinator a);
          listening = list_ex is_listener (pr_resources (ap_process a));
          live = fst (server_stop listening drained (ap_sessions a));
          (res, p) = run_shutdown fault SHUTDOWN_STEPS (release [ResyncTimer] (release_all is_listener (ap_process a)))
      in (res, \<lparr>ap_coordinator = coordinator, ap_sessions = live, ap_process = p\<rparr>))"

text \<open>
  After a shutdown nothing publishes and no agent is connected, whatever the later steps do: the coordinator
  ignores every trigger and every timer, and no live session is left. Where no close is refused the workers end
  before the pool they write to, and the process exits with 0.
\<close>

theorem shutdown_outcome:
  assumes "session_trace env rows log (ap_sessions a)" and "shutdown drained fault a = (res, a')"
  shows "coordinator_schedule (ap_coordinator a') acc ps cause = ap_coordinator a'"
    and "co_pending (ap_coordinator a') = []"
    and "sx_sessions (ap_sessions a') i = Some s \<Longrightarrow> \<not> live s"
    and "(\<And>x. fault x = None) \<Longrightarrow> res = Inr () \<and> pr_exit (ap_process a') = Some 0
      \<and> list_ex (\<lambda>r. is_pool r \<or> is_listener r) (pr_resources (ap_process a')) = False
      \<and> JobWorker (the (QUEUE_NAMES ''debounce'')) \<notin> set (pr_resources (ap_process a'))
      \<and> JobWorker (the (QUEUE_NAMES ''actionExecution'')) \<notin> set (pr_resources (ap_process a'))"
proof -
  let ?p = "release [ResyncTimer] (release_all is_listener (ap_process a))"
  let ?listening = "list_ex is_listener (pr_resources (ap_process a))"
  have a': "a' = \<lparr>ap_coordinator = coordinator_stop (ap_coordinator a), ap_sessions = fst (server_stop ?listening drained (ap_sessions a)),
      ap_process = snd (run_shutdown fault SHUTDOWN_STEPS ?p)\<rparr>" "res = fst (run_shutdown fault SHUTDOWN_STEPS ?p)"
    using assms(2) by (auto simp: shutdown_def Let_def split: prod.splits)
  show "coordinator_schedule (ap_coordinator a') acc ps cause = ap_coordinator a'"
    and "co_pending (ap_coordinator a') = []"
    by (simp_all add: a' coordinator_schedule_def coordinator_stop_def)
  show "\<not> live s" if "sx_sessions (ap_sessions a') i = Some s"
    using server_stop_ends_live [OF assms(1), of ?listening drained] that by (simp add: a')
  show "res = Inr () \<and> pr_exit (ap_process a') = Some 0
      \<and> list_ex (\<lambda>r. is_pool r \<or> is_listener r) (pr_resources (ap_process a')) = False
      \<and> JobWorker (the (QUEUE_NAMES ''debounce'')) \<notin> set (pr_resources (ap_process a'))
      \<and> JobWorker (the (QUEUE_NAMES ''actionExecution'')) \<notin> set (pr_resources (ap_process a'))"
    if "\<And>x. fault x = None"
    using that by (auto simp: a' SHUTDOWN_STEPS_def release_def release_all_def list_ex_iff)
qed

section \<open>Properties\<close>

text \<open>What the surroundings of a sane installation answer: directories can be made, the library parses the levels it
  knows, the protocol file is where it is installed, the configured agent port binds, and the configured HTTP address
  is free unless the process itself holds that port.\<close>

definition sane_surroundings :: "'d surroundings \<Rightarrow> bool" where
  "sane_surroundings s = (let config = fst (readConfig (sp_env s)) in
     sp_mkdir s (sp_dirname s (cfg_accessLogFilePath config)) = None
     \<and> list_all (\<lambda>l. sp_parseLogLevel s l = Inr l) LOG_LEVELS
     \<and> (\<exists>path. surroundings_proto s = Inr path)
     \<and> sp_bind s (server_options config) (cfg_bindAddress config @ '':'' @ int_to_string (cfg_agentPort config))
         = Inr (nat (cfg_agentPort config))
     \<and> (\<forall>held. (sp_listen s held (cfg_bindAddress config) (cfg_port config) = None) = (AgentListener (nat (cfg_port config)) \<notin> set held))
     \<and> sp_regclassError s = None \<and> sp_selectError s = None)"

text \<open>The level the start hands to the library as it is.\<close>

definition log_level_known :: "'d surroundings \<Rightarrow> bool" where
  "log_level_known s = (case sp_parseLogLevel s (cfg_appLogLevel (fst (readConfig (sp_env s)))) of Inl err \<Rightarrow> False | Inr l \<Rightarrow> True)"

lemma documented_level_known:
  assumes "sane_surroundings s"
    and "case sp_env s ''BACKEND_APP_LOG_LEVEL'' of None \<Rightarrow> True | Some level \<Rightarrow> level \<in> set LOG_LEVELS"
  shows "log_level_known s"
proof -
  have "cfg_appLogLevel (fst (readConfig (sp_env s))) = optionalString (sp_env s) ''BACKEND_APP_LOG_LEVEL'' ''info''"
    by (simp add: readConfig_def Let_def)
  with assms(2) have "cfg_appLogLevel (fst (readConfig (sp_env s))) \<in> set LOG_LEVELS"
    by (auto simp: optionalString_def nullish_or_def LOG_LEVELS_def split: option.splits)
  moreover have "list_all (\<lambda>l. sp_parseLogLevel s l = Inr l) LOG_LEVELS" using assms(1) by (simp add: sane_surroundings_def Let_def)
  ultimately show ?thesis by (auto simp: log_level_known_def list_all_iff)
qed

lemma sane_outcome:
  fixes s :: "'d surroundings"
  assumes sane: "sane_surroundings s" and config: "loadConfig (sp_env s) = Inr config" and ports: "1 \<le> cfg_port config" "1 \<le> cfg_agentPort config"
    and schema: "assertSchemaCurrent None None (sp_migrations s) (sp_database s) = Inr ()"
  defines "http \<equiv> HttpServer (cfg_bindAddress config) (cfg_port config)" and "p \<equiv> process_main s"
  shows "log_level_known s \<and> cfg_port config \<noteq> cfg_agentPort config \<Longrightarrow>
      pr_exit p = None \<and> pr_stderr p = [] \<and> http \<in> set (pr_resources p) \<and> AgentListener (nat (cfg_agentPort config)) \<in> set (pr_resources p)"
    and "\<not> (log_level_known s \<and> cfg_port config \<noteq> cfg_agentPort config) \<Longrightarrow> pr_exit p = Some 1 \<and> pr_stderr p \<noteq> [] \<and> http \<notin> set (pr_resources p)"
proof -
  have read: "fst (readConfig (sp_env s)) = config"
    using config by (auto simp: loadConfig_def split: prod.splits if_splits)
  note sane = sane [unfolded sane_surroundings_def Let_def read]
  let ?level = "sp_parseLogLevel s (cfg_appLogLevel config)" and ?a = "nat (cfg_agentPort config)"
  obtain path where path: "surroundings_proto s = Inr path" using sane by blast
  have start: "server_start (surroundings_proto s) (sp_bind s) config = Inr ?a"
    using sane by (simp add: server_start_def path)
  have free: "sp_listen s held (cfg_bindAddress config) (cfg_port config) = None \<longleftrightarrow> AgentListener (nat (cfg_port config)) \<notin> set held" for held
    using sane by blast
  have same: "nat (cfg_port config) = ?a \<longleftrightarrow> cfg_port config = cfg_agentPort config" using ports by (simp add: eq_nat_nat_iff)
  have known: "log_level_known s \<longleftrightarrow> (\<exists>l. ?level = Inr l)" by (simp add: log_level_known_def read split: sum.split)
  have errors: "sp_regclassError s = None" "sp_selectError s = None" using sane by simp_all
  have logging: "configureLogging (sp_dirname s) (sp_mkdir s) (sp_parseLogLevel s) config = (case ?level of Inl err \<Rightarrow> Inl err | Inr level \<Rightarrow>
       Inr \<lparr>lo_directory = sp_dirname s (cfg_accessLogFilePath config), lo_file = cfg_accessLogFilePath config,
         lo_maxSize = cfg_accessLogMaxSizeBytes config, lo_maxFiles = cfg_accessLogMaxFiles config, lo_loggers = app_loggers level\<rparr>)"
    using sane by (simp add: configureLogging_def Let_def)
  note facts = http_def p_def process_main_def config logging errors schema listen_def start serve_http_def opened_def initial_process_def Let_def
  show "pr_exit p = None \<and> pr_stderr p = [] \<and> http \<in> set (pr_resources p) \<and> AgentListener ?a \<in> set (pr_resources p)"
    if starts: "log_level_known s \<and> cfg_port config \<noteq> cfg_agentPort config"
  proof -
    obtain l where "?level = Inr l" using starts known by blast
    moreover from starts have "sp_listen s held (cfg_bindAddress config) (cfg_port config) = None" if "AgentListener (nat (cfg_port config)) \<notin> set held" for held
      using that by (simp add: free)
    ultimately show ?thesis using starts by (simp add: facts same)
  qed
  show "pr_exit p = Some 1 \<and> pr_stderr p \<noteq> [] \<and> http \<notin> set (pr_resources p)"
    if "\<not> (log_level_known s \<and> cfg_port config \<noteq> cfg_agentPort config)"
  proof (cases ?level)
    case (Inl err)
    then show ?thesis by (simp add: facts fatal_def)
  next
    case (Inr l)
    then have "cfg_port config = cfg_agentPort config" using that known by blast
    then have "sp_listen s held (cfg_bindAddress config) (cfg_port config) \<noteq> None" if "AgentListener ?a \<in> set held" for held
      using that free [of held] by simp
    then obtain err where "sp_listen s
        [DatabasePool (cfg_databaseUrl config), RedisConnection (cfg_redisUrl config), JobQueue (the (QUEUE_NAMES ''debounce'')),
         JobQueue (the (QUEUE_NAMES ''actionExecution'')), JobWorker (the (QUEUE_NAMES ''actionExecution'')),
         ResyncTimer, JobWorker (the (QUEUE_NAMES ''debounce'')), AgentListener ?a, SignalHandlers]
        (cfg_bindAddress config) (cfg_port config) = Some err" by fastforce
    with Inr show ?thesis by (simp add: facts crashed_def)
  qed
qed


definition sample_parse_level :: "string \<Rightarrow> exn + string" where
  "sample_parse_level level = (if level \<in> set LOG_LEVELS then Inr level else Inl (JsError ''Invalid log level''))"

definition sample_surroundings :: "env \<Rightarrow> string list database \<Rightarrow> string list surroundings" where
  "sample_surroundings env db = \<lparr>sp_env = env, sp_dirname = (\<lambda>p. ''logs''), sp_mkdir = (\<lambda>d. None), sp_parseLogLevel = sample_parse_level,
     sp_regclassError = None, sp_selectError = None, sp_migrations = me_dir sample_migrations, sp_database = db,
     sp_resolve = (\<lambda>a b. a @ ''/'' @ b), sp_existsSync = (\<lambda>p. True), sp_here = ''src'', sp_cwd = ''.'',
     sp_bind = (\<lambda>options address. Inr (nat (cfg_agentPort (fst (readConfig env))))),
     sp_listen = (\<lambda>held host port. if AgentListener (nat port) \<in> set held then Some (JsError ''EADDRINUSE'') else None),
     sp_stack = (\<lambda>m. None), sp_uncaught = error_message\<rparr>"

lemma sample_surroundings_simps [simp]:
  "sp_env (sample_surroundings env db) = env" "sp_database (sample_surroundings env db) = db"
  "sp_migrations (sample_surroundings env db) = me_dir sample_migrations"
  by (simp_all add: sample_surroundings_def)

lemma sample_surroundings_sane: "sane_surroundings (sample_surroundings env db)"
  by (simp add: sane_surroundings_def sample_surroundings_def sample_parse_level_def surroundings_proto_def protoPath_def
      LOG_LEVELS_def Let_def)

lemma sample_migrated:
  obtains applied db where "runMigrations sample_migrations (\<lambda>s. None) sample_db = (Inr applied, db)"
    and "me_dir sample_migrations = Inr [''2.sql'', ''README.md'', ''1.sql'']" and "distinct [''2.sql'', ''README.md'', ''1.sql'']"
  using sample_run by (simp add: sample_migrations_def)

lemma sample_ports:
  "cfg_port (fst (readConfig (sample_variant level port))) = 80"
  "cfg_agentPort (fst (readConfig (sample_variant level None))) = 8081"
  "cfg_agentPort (fst (readConfig (sample_variant level (Some ''80'')))) = 80"
  by (simp_all add: readConfig_def Let_def sample_variant_def sample_env_def optionalInt_def parse_int_def digits_value_def js_trim_def is_space_def is_digit_def)


end
