(* ===== verification/Cli.thy ===== *)
theory Cli
  imports Config Migrations
begin

text \<open>
  The command line, \<open>src/backend/src/cli.ts\<close>, with \<open>cli/validate-config-command.ts\<close>, \<open>cli/online-checks.ts\<close> and
  \<open>cli/describe-error.ts\<close>; the command \<open>migrate\<close> is in Migrations.

  \<open>parseArgs\<close> of \<open>node:util\<close> is modelled for what the commands declare: at most the boolean option \<open>online\<close>,
  positionals allowed, strict. The text of its errors is the argument \<open>parse_message\<close>. What a server answers within
  the time limit is the record \<open>network\<close>.
\<close>

section \<open>Describing an error\<close>

text \<open>
  What \<open>describeError\<close> looks at: a code is present when it is a string; \<open>je_errors\<close> are the codes of the inner
  errors. The message is \<open>err.message\<close> or \<open>String(err)\<close>.
\<close>

record js_error =
  je_name :: "string option"
  je_cause_code :: "string option"
  je_code :: "string option"
  je_errors :: "string option list option"
  je_message :: string

definition is_letter :: "char \<Rightarrow> bool" where
  "is_letter c = (let n = of_char c :: nat in (65 \<le> n \<and> n \<le> 90) \<or> (97 \<le> n \<and> n \<le> 122))"

definition is_word_char :: "char \<Rightarrow> bool" where
  "is_word_char c = (is_letter c \<or> is_digit c \<or> c = CHR ''_'')"

definition is_scheme_char :: "char \<Rightarrow> bool" where
  "is_scheme_char c = (is_letter c \<or> is_digit c \<or> c = CHR ''+'' \<or> c = CHR ''.'' \<or> c = CHR ''-'')"

definition is_user_char :: "char \<Rightarrow> bool" where
  "is_user_char c = (\<not> is_space c \<and> c \<noteq> CHR ''/'' \<and> c \<noteq> CHR ''@'')"

text \<open>
  A match of \<open>([a-z][a-z0-9+.-]*:\/\/)[^\s/@]+@\<close> at the start of the text: the scheme, the user info, what follows. Each
  repetition ends at a character it cannot contain, so there is one way to match.
\<close>

definition userinfo_match :: "string \<Rightarrow> (string \<times> string \<times> string) option" where
  "userinfo_match s =
     (let scheme = takeWhile is_scheme_char s; r = dropWhile is_scheme_char s;
          user = takeWhile is_user_char (drop 3 r); rest = dropWhile is_user_char (drop 3 r)
      in if s \<noteq> [] \<and> is_letter (hd s) \<and> take 3 r = ''://'' \<and> user \<noteq> [] \<and> rest \<noteq> [] \<and> hd rest = CHR ''@''
         then Some (scheme, user, tl rest) else None)"

text \<open>
  \<open>message.replace(/\b(...)@/gi, "$1***@")\<close>; the first argument says whether the character before is a word
  character (then there is no word boundary before a letter).
\<close>

lemma userinfo_match_shorter: "userinfo_match s = Some (scheme, user, rest) \<Longrightarrow> length rest < length s"
proof -
  assume m: "userinfo_match s = Some (scheme, user, rest)"
  let ?r = "dropWhile is_user_char (drop 3 (dropWhile is_scheme_char s))"
  from m have "rest = tl ?r" "s \<noteq> []" "?r \<noteq> []" by (auto simp: userinfo_match_def Let_def split: if_splits)
  moreover have "length ?r \<le> length s"
    using length_dropWhile_le [of is_user_char "drop 3 (dropWhile is_scheme_char s)"] length_dropWhile_le [of is_scheme_char s] by simp
  ultimately show ?thesis by (cases ?r) auto
qed

function redact_userinfo :: "bool \<Rightarrow> string \<Rightarrow> string" where
  "redact_userinfo w [] = []"
| "redact_userinfo w (c # cs) = (case (if w then None else userinfo_match (c # cs)) of
       Some (scheme, user, rest) \<Rightarrow> scheme @ ''://***@'' @ redact_userinfo False rest
     | None \<Rightarrow> c # redact_userinfo (is_word_char c) cs)"
  by pat_completeness auto
termination
  by (relation "measure (\<lambda>(w, s). length s)") (auto dest: userinfo_match_shorter split: if_splits)

declare redact_userinfo.simps(2) [simp del]

definition describeError :: "js_error \<Rightarrow> string" where
  "describeError err =
     (if je_name err = Some ''TimeoutError'' \<or> je_name err = Some ''AbortError'' then ''timeout''
      else case je_cause_code err of Some code \<Rightarrow> code
      | None \<Rightarrow> if truthy (je_code err) then the (je_code err)
          else (case find (\<lambda>c. c \<noteq> None) (nullish_or (je_errors err) []) of
              Some (Some first) \<Rightarrow> first
            | _ \<Rightarrow> redact_userinfo False (je_message err)))"

text \<open>The user infos the same expression finds.\<close>

function user_infos :: "bool \<Rightarrow> string \<Rightarrow> string list" where
  "user_infos w [] = []"
| "user_infos w (c # cs) = (case (if w then None else userinfo_match (c # cs)) of
       Some (scheme, user, rest) \<Rightarrow> user # user_infos False rest
     | None \<Rightarrow> user_infos (is_word_char c) cs)"
  by pat_completeness auto
termination
  by (relation "measure (\<lambda>(w, s). length s)") (auto dest: userinfo_match_shorter split: if_splits)

declare user_infos.simps(2) [simp del]

section \<open>The checks of validate-config --online\<close>

datatype online_service = SvcPostgres | SvcRedis | SvcLogto

fun service_name :: "online_service \<Rightarrow> string" where
  "service_name SvcPostgres = ''postgres''"
| "service_name SvcRedis = ''redis''"
| "service_name SvcLogto = ''logto''"

datatype Reachability = Reachable | Unreachable string

text \<open>
  What a connection attempt ends with, the time limit included: the error, for Redis with the cause its error event
  reported, for Logto the answer's status and whether its body is JSON with an array \<open>keys\<close>.
\<close>

record network =
  nt_postgres :: "string \<Rightarrow> js_error option"
  nt_redis :: "string \<Rightarrow> (js_error \<times> js_error option) option"
  nt_fetch :: "string \<Rightarrow> js_error + nat \<times> bool"

definition checkPostgres :: "network \<Rightarrow> string \<Rightarrow> Reachability" where
  "checkPostgres net url = (case nt_postgres net url of None \<Rightarrow> Reachable | Some err \<Rightarrow> Unreachable (describeError err))"

definition checkRedis :: "network \<Rightarrow> string \<Rightarrow> Reachability" where
  "checkRedis net url = (case nt_redis net url of
       None \<Rightarrow> Reachable
     | Some (err, cause) \<Rightarrow> Unreachable (describeError (nullish_or cause err)))"

definition checkLogto :: "network \<Rightarrow> string \<Rightarrow> Reachability" where
  "checkLogto net endpoint = (case nt_fetch net (strip_trailing_slashes endpoint @ ''/oidc/jwks'') of
       Inl err \<Rightarrow> Unreachable (describeError err)
     | Inr (status, keys) \<Rightarrow> if status \<noteq> 200 then Unreachable (''HTTP '' @ nat_to_string status)
         else if keys then Reachable else Unreachable ''unexpected response'')"

definition ONLINE_TARGETS :: "(online_service \<times> string \<times> (network \<Rightarrow> string \<Rightarrow> Reachability)) list" where
  "ONLINE_TARGETS = [(SvcPostgres, ''BACKEND_DATABASE_URL'', checkPostgres), (SvcRedis, ''BACKEND_REDIS_URL'', checkRedis),
     (SvcLogto, ''BACKEND_LOGTO_ENDPOINT'', checkLogto)]"

section \<open>validate-config\<close>

definition printFinding :: "ConfigFinding \<Rightarrow> cli_line" where
  "printFinding finding = (if f_level finding = LevelError then StdOut (''ERROR '' @ f_name finding @ '': '' @ f_reason finding)
     else StdOut (''WARN  '' @ f_name finding @ '': '' @ f_reason finding @ '' ('' @ nullish_or (f_feature finding) ''undefined''
       @ '' will not work)''))"

text \<open>\<open>None\<close> is a skipped target.\<close>

definition check_target :: "network \<Rightarrow> env \<Rightarrow> string list \<Rightarrow> online_service \<times> string \<times> (network \<Rightarrow> string \<Rightarrow> Reachability)
    \<Rightarrow> online_service \<times> Reachability option" where
  "check_target net env invalid = (\<lambda>(service, variable, check).
     let v = map_option js_trim (env variable) in
     (service, if variable \<in> set invalid \<or> \<not> truthy v then None else Some (check net (the v))))"

definition target_line :: "online_service \<times> Reachability option \<Rightarrow> cli_line" where
  "target_line = (\<lambda>(service, result). case result of
       None \<Rightarrow> StdOut (''skip  '' @ service_name service @ '': configuration invalid'')
     | Some Reachable \<Rightarrow> StdOut (''ok    '' @ service_name service)
     | Some (Unreachable reason) \<Rightarrow> StdOut (''FAIL  '' @ service_name service @ '': '' @ reason))"

definition is_unreachable :: "online_service \<times> Reachability option \<Rightarrow> bool" where
  "is_unreachable = (\<lambda>(service, result). case result of Some (Unreachable reason) \<Rightarrow> True | _ \<Rightarrow> False)"

definition summary_line :: "nat \<Rightarrow> nat \<Rightarrow> cli_line" where
  "summary_line errors warnings =
     (if errors > 0 then StdOut (nat_to_string errors @ '' error(s), '' @ nat_to_string warnings @ '' warning(s)'')
      else if warnings > 0 then StdOut (''configuration ok ('' @ nat_to_string warnings @ '' warning(s))'')
      else StdOut ''configuration ok'')"

definition validate_config :: "(string \<Rightarrow> string option) \<Rightarrow> network \<Rightarrow> env \<Rightarrow> bool \<Rightarrow> cli_line list \<times> nat" where
  "validate_config url_protocol net env online =
     (let findings = checkConfig url_protocol env;
          errors = filter (\<lambda>f. f_level f = LevelError) findings;
          warnings = filter (\<lambda>f. f_level f = LevelWarning) findings;
          results = (if online then map (check_target net env (map f_name errors)) ONLINE_TARGETS else []);
          unreachable = length (filter is_unreachable results)
      in (map printFinding findings @ [summary_line (length errors) (length warnings)] @ map target_line results,
          if length errors > 0 \<or> unreachable > 0 then EXIT_ERROR else EXIT_OK))"

section \<open>The commands\<close>

datatype cli_command = MigrateCommand | ValidateCommand | InheritedMember

text \<open>
  \<open>commands[name]\<close> on an object literal: besides its two entries it answers the members every object inherits, whose
  \<open>options\<close> is undefined and whose \<open>load\<close> is no function.
\<close>

definition inherited_names :: "string list" where
  "inherited_names = [''constructor'', ''hasOwnProperty'', ''isPrototypeOf'', ''propertyIsEnumerable'', ''toLocaleString'', ''toString'',
     ''valueOf'', ''__proto__'', ''__defineGetter__'', ''__defineSetter__'', ''__lookupGetter__'', ''__lookupSetter__'']"

definition commands :: "string \<Rightarrow> cli_command option" where
  "commands name = (if name = ''migrate'' then Some MigrateCommand
     else if name = ''validate-config'' then Some ValidateCommand
     else if name \<in> set inherited_names then Some InheritedMember else None)"

fun command_options :: "cli_command \<Rightarrow> string list" where
  "command_options ValidateCommand = [''online'']"
| "command_options _ = []"

definition pad_end :: "nat \<Rightarrow> string \<Rightarrow> string" where
  "pad_end n s = s @ replicate (n - length s) CHR '' ''"

definition helpLines :: "string list" where
  "helpLines = [''Usage: node backend/dist/cli.js <command> [options]'', [], ''Commands:'',
     ''  '' @ pad_end 28 ''migrate'' @ ''Apply pending database migrations (needs BACKEND_DATABASE_URL)'',
     ''  '' @ pad_end 28 ''validate-config [--online]'' @ ''Check the configuration; --online also checks Postgres, Redis and Logto'',
     [], ''Exit codes: 0 ok, 1 failed, 2 usage error.'']"

section \<open>Arguments\<close>

datatype arg_error = UnknownOption string | UnexpectedValue string

text \<open>
  The declared options are boolean and have no short name: \<open>-x...\<close> is always unknown, \<open>--name=value\<close> gives a value
  to an option that takes none, a lone \<open>-\<close> is positional, and everything after \<open>--\<close> is.
\<close>

fun parseArgs :: "string list \<Rightarrow> string list \<Rightarrow> arg_error + string list \<times> string list" where
  "parseArgs options [] = Inr ([], [])"
| "parseArgs options (a # as) =
     (if a = ''--'' then Inr ([], as)
      else if take 2 a = ''--'' then
        (let name = hd (drop 2 a) # takeWhile (\<lambda>c. c \<noteq> CHR ''='') (drop 3 a) in
         if name \<notin> set options then Inl (UnknownOption (''--'' @ name))
         else if CHR ''='' \<in> set (drop 3 a) then Inl (UnexpectedValue name)
         else map_sum id (apfst (\<lambda>given. name # given)) (parseArgs options as))
      else if take 1 a = ''-'' \<and> length a > 1 then Inl (UnknownOption (take 2 a))
      else map_sum id (apsnd (\<lambda>positionals. a # positionals)) (parseArgs options as))"

text \<open>What a command module does: \<open>migrate\<close> changes the database, \<open>validate-config\<close> changes nothing.\<close>

record 'd cli_env =
  ce_env :: env
  ce_url_protocol :: "string \<Rightarrow> string option"
  ce_network :: network
  ce_reason :: "exn \<Rightarrow> js_error"
  ce_migration :: "'d migration_env"
  ce_fault :: "statement \<Rightarrow> exn option"

fun run_command :: "'d cli_env \<Rightarrow> cli_command \<Rightarrow> bool \<Rightarrow> 'd database \<Rightarrow> (cli_line list \<times> (string + nat)) \<times> 'd database" where
  "run_command ce MigrateCommand online db = (case migrate_command (\<lambda>e. describeError (ce_reason ce e)) (ce_env ce ''BACKEND_DATABASE_URL'')
       (ce_migration ce) (ce_fault ce) db of ((output, code), db) \<Rightarrow> ((output, Inr code), db))"
| "run_command ce ValidateCommand online db = (case validate_config (ce_url_protocol ce) (ce_network ce) (ce_env ce) online of
       (output, code) \<Rightarrow> ((output, Inr code), db))"
| "run_command ce InheritedMember online db = (([], Inl ''command.load is not a function''), db)"

definition runCli :: "(arg_error \<Rightarrow> string) \<Rightarrow> 'd cli_env \<Rightarrow> string list \<Rightarrow> 'd database \<Rightarrow> (cli_line list \<times> (string + nat)) \<times> 'd database" where
  "runCli parse_message ce argv db = (case argv of
       [] \<Rightarrow> ((map StdOut helpLines, Inr EXIT_OK), db)
     | name # rest \<Rightarrow>
         if name \<in> {''help'', ''--help'', ''-h''} then ((map StdOut helpLines, Inr EXIT_OK), db)
         else (case commands name of
             None \<Rightarrow> ((StdErr (''Unknown command: '' @ name) # StdErr [] # map StdErr helpLines, Inr EXIT_USAGE), db)
           | Some command \<Rightarrow> (case parseArgs (command_options command) rest of
               Inl err \<Rightarrow> (([StdErr (parse_message err)], Inr EXIT_USAGE), db)
             | Inr (given, positionals) \<Rightarrow>
                 if positionals \<noteq> [] then (([StdErr (''Unexpected argument: '' @ hd positionals)], Inr EXIT_USAGE), db)
                 else run_command ce command (''online'' \<in> set given) db)))"

text \<open>The process around it: a rejection is printed and exits with 1.\<close>

definition cli_main :: "(arg_error \<Rightarrow> string) \<Rightarrow> 'd cli_env \<Rightarrow> string list \<Rightarrow> 'd database \<Rightarrow> (cli_line list \<times> nat) \<times> 'd database" where
  "cli_main parse_message ce argv db = (case runCli parse_message ce argv db of
       ((output, Inr code), db) \<Rightarrow> ((output, code), db)
     | ((output, Inl message), db) \<Rightarrow> ((output @ [StdErr message], EXIT_ERROR), db))"

section \<open>No user info is left in a described error\<close>

lemma scheme_chars:
  "\<not> is_scheme_char CHR '':''" "\<not> is_user_char CHR ''/''" "is_user_char CHR '':''" "\<not> is_user_char CHR ''@''" "\<not> is_letter CHR '':''"
  "\<not> is_letter CHR ''/''" "is_scheme_char c \<Longrightarrow> is_user_char c" "is_letter c \<Longrightarrow> is_scheme_char c" "is_user_char CHR ''*''"
  by (auto simp: is_scheme_char_def is_user_char_def is_letter_def is_digit_def is_space_def)

lemma take_eq_append: "take (length u) r = u \<longleftrightarrow> (\<exists>t. r = u @ t)"
  by (metis append_eq_conv_conj append_take_drop_id)

text \<open>A match, spelled out.\<close>

lemma userinfo_match_iff:
  "userinfo_match s = Some (scheme, user, rest) \<longleftrightarrow> s = scheme @ ''://'' @ user @ ''@'' @ rest \<and> scheme \<noteq> [] \<and> is_letter (hd scheme)
     \<and> (\<forall>c \<in> set scheme. is_scheme_char c) \<and> user \<noteq> [] \<and> (\<forall>c \<in> set user. is_user_char c)" (is "?l \<longleftrightarrow> ?r")
proof
  assume ?l
  let ?after = "dropWhile is_user_char (drop 3 (dropWhile is_scheme_char s))"
  from \<open>?l\<close> have m: "scheme = takeWhile is_scheme_char s" "user = takeWhile is_user_char (drop 3 (dropWhile is_scheme_char s))"
    "take 3 (dropWhile is_scheme_char s) = ''://''" and rest: "rest = tl ?after" "?after \<noteq> []" "hd ?after = CHR ''@''"
    and start: "s \<noteq> []" "is_letter (hd s)" "user \<noteq> []"
    by (simp_all add: userinfo_match_def Let_def split: if_splits)
  have after: "?after = CHR ''@'' # rest" using rest by (cases ?after) simp_all
  have "s = takeWhile is_scheme_char s @ dropWhile is_scheme_char s" by simp
  also have "dropWhile is_scheme_char s = ''://'' @ drop 3 (dropWhile is_scheme_char s)" using m(3) by (metis append_take_drop_id)
  also have "drop 3 (dropWhile is_scheme_char s) = user @ CHR ''@'' # rest" using m(2) after by (metis takeWhile_dropWhile_id)
  finally have s: "s = scheme @ ''://'' @ user @ ''@'' @ rest" using m(1) by simp
  have "scheme \<noteq> []" "hd scheme = hd s" using m(1) start(1,2) scheme_chars(8) by (cases s; simp)+
  moreover have "\<forall>c \<in> set scheme. is_scheme_char c" "\<forall>c \<in> set user. is_user_char c" unfolding m(1,2) by (auto dest: set_takeWhileD)
  ultimately show ?r using s start(2,3) by simp
next
  assume r: ?r
  then have scheme: "takeWhile is_scheme_char s = scheme" "dropWhile is_scheme_char s = ''://'' @ user @ ''@'' @ rest"
    using scheme_chars(1) by (simp_all add: takeWhile_append2 dropWhile_append2)
  have user: "takeWhile is_user_char (user @ ''@'' @ rest) = user" "dropWhile is_user_char (user @ ''@'' @ rest) = ''@'' @ rest"
    using r scheme_chars(4) by (simp_all add: takeWhile_append2 dropWhile_append2)
  have colon: "take 3 (''://'' @ t) = ''://''" "drop 3 (''://'' @ t) = t" for t by simp_all
  from r have "s \<noteq> []" "is_letter (hd s)" "user \<noteq> []" by simp_all
  then show ?l unfolding userinfo_match_def Let_def scheme colon user by simp
qed

lemma redact_cases:
  obtains (nil) "s = []" | (match) scheme user rest where "userinfo_match s = Some (scheme, user, rest)" "\<not> w" "s \<noteq> []"
      "redact_userinfo w s = scheme @ ''://***@'' @ redact_userinfo False rest"
  | (keep) c cs where "s = c # cs" "w \<or> userinfo_match s = None" "redact_userinfo w s = c # redact_userinfo (is_word_char c) cs"
proof (cases s)
  case (Cons c cs)
  show ?thesis
  proof (cases "if w then None else userinfo_match s")
    case None
    with Cons keep show ?thesis by (simp add: redact_userinfo.simps(2) split: if_splits)
  next
    case (Some m)
    then have "\<not> w" "userinfo_match s = Some m" by (simp_all split: if_splits)
    with Cons match [of "fst m" "fst (snd m)" "snd (snd m)"] show ?thesis by (simp add: redact_userinfo.simps(2) split: prod.splits)
  qed
qed (rule nil)

text \<open>The replacement changes nothing up to the end of the first repetition, nor the character after it.\<close>

lemma redact_takeWhile:
  assumes "\<not> P CHR ''/''" and "\<And>c. is_scheme_char c \<Longrightarrow> P c"
  shows "takeWhile P (redact_userinfo w s) = takeWhile P s
    \<and> take 1 (dropWhile P (redact_userinfo w s)) = take 1 (dropWhile P s)"
proof (induction "length s" arbitrary: w s rule: less_induct)
  case less
  show ?case
  proof (cases rule: redact_cases [where s = s and w = w])
    case (match scheme user rest)
    then have s: "s = scheme @ ''://'' @ user @ ''@'' @ rest" and scheme: "\<forall>c \<in> set scheme. P c"
      using assms(2) by (auto simp: userinfo_match_iff)
    have "takeWhile P (scheme @ t) = scheme @ takeWhile P t" "dropWhile P (scheme @ t) = dropWhile P t" for t
      using scheme by (simp_all add: takeWhile_append2 dropWhile_append2)
    then show ?thesis using assms(1) by (simp add: match(4)) (simp add: s)
  next
    case (keep c cs)
    then have "length cs < length s" by simp
    from less [OF this, of "is_word_char c"] keep show ?thesis by simp
  qed simp
qed

lemma redact_dropWhile:
  "(\<exists>w'. dropWhile is_scheme_char (redact_userinfo w s) = redact_userinfo w' (dropWhile is_scheme_char s))
   \<or> (\<exists>user rest. dropWhile is_scheme_char s = ''://'' @ user @ ''@'' @ rest \<and> user \<noteq> [] \<and> (\<forall>c \<in> set user. is_user_char c))"
proof (induction "length s" arbitrary: w s rule: less_induct)
  case less
  show ?case
  proof (cases rule: redact_cases [where s = s and w = w])
    case (match scheme user rest)
    then have s: "s = scheme @ ''://'' @ user @ ''@'' @ rest" and user: "user \<noteq> []" "\<forall>c \<in> set user. is_user_char c"
      and scheme: "\<forall>c \<in> set scheme. is_scheme_char c" by (simp_all add: userinfo_match_iff)
    have "dropWhile is_scheme_char s = ''://'' @ user @ ''@'' @ rest"
      using scheme scheme_chars(1) unfolding s by (simp add: dropWhile_append2)
    with user show ?thesis by blast
  next
    case (keep c cs)
    show ?thesis
    proof (cases "is_scheme_char c")
      case True
      from keep(1) have "length cs < length s" by simp
      from less [OF this, of "is_word_char c"] True show ?thesis unfolding keep(3) unfolding keep(1) by simp
    next
      case False
      then have "dropWhile is_scheme_char (redact_userinfo w s) = redact_userinfo w (dropWhile is_scheme_char s)"
        unfolding keep(3) using keep(1,3) by simp
      then show ?thesis by blast
    qed
  qed (auto intro: exI [of _ True])
qed

lemma redact_nonletter:
  assumes "redact_userinfo w s = x # t" and "\<not> is_letter x"
  shows "\<exists>s' w'. s = x # s' \<and> t = redact_userinfo w' s'"
proof (cases rule: redact_cases [where s = s and w = w])
  case (match scheme user rest)
  then have "scheme \<noteq> []" "is_letter (hd scheme)" by (simp_all add: userinfo_match_iff)
  with match(4) assms show ?thesis by (cases scheme) simp_all
qed (use assms in auto)

text \<open>A replacement further on never makes a match.\<close>

lemma redact_no_new_match:
  assumes "userinfo_match (c # redact_userinfo w cs) = Some m"
  shows "userinfo_match (c # cs) \<noteq> None"
proof -
  obtain scheme user rest where m: "userinfo_match (c # redact_userinfo w cs) = Some (scheme, user, rest)" using assms by (cases m) auto
  then have o: "c # redact_userinfo w cs = scheme @ ''://'' @ user @ ''@'' @ rest" and ok: "scheme \<noteq> []" "is_letter (hd scheme)"
    "\<forall>c \<in> set scheme. is_scheme_char c" "user \<noteq> []" "\<forall>c \<in> set user. is_user_char c" by (simp_all add: userinfo_match_iff)
  then have c: "is_letter c" "is_scheme_char c" by (cases scheme; simp)+
  have split: "takeWhile is_scheme_char (c # redact_userinfo w cs) = scheme" "dropWhile is_scheme_char (c # redact_userinfo w cs) = ''://'' @ user @ ''@'' @ rest"
    unfolding o using ok(3) scheme_chars(1) by (simp_all add: takeWhile_append2 dropWhile_append2)
  have scheme: "c # takeWhile is_scheme_char cs = scheme"
    using redact_takeWhile [of is_scheme_char w cs] scheme_chars split(1) c by (simp add: is_scheme_char_def is_letter_def is_digit_def)
  have cs: "c # cs = scheme @ dropWhile is_scheme_char cs" using scheme by (metis append_Cons takeWhile_dropWhile_id)
  have matches: "userinfo_match (c # cs) \<noteq> None" if "dropWhile is_scheme_char cs = ''://'' @ u @ ''@'' @ r" "u \<noteq> []" "\<forall>c \<in> set u. is_user_char c" for u r
  proof -
    have "userinfo_match (c # cs) = Some (scheme, u, r)" unfolding userinfo_match_iff using cs that ok by simp
    then show ?thesis by simp
  qed
  from redact_dropWhile [of w cs] consider w' where "dropWhile is_scheme_char (redact_userinfo w cs) = redact_userinfo w' (dropWhile is_scheme_char cs)"
    | u r where "dropWhile is_scheme_char cs = ''://'' @ u @ ''@'' @ r" "u \<noteq> []" "\<forall>c \<in> set u. is_user_char c" by blast
  then show ?thesis
  proof cases
    case 1
    with split(2) c have "redact_userinfo w' (dropWhile is_scheme_char cs) = CHR '':'' # ''//'' @ user @ ''@'' @ rest" by simp
    from redact_nonletter [OF this] obtain r1 w1 where r1: "dropWhile is_scheme_char cs = CHR '':'' # r1"
      "redact_userinfo w1 r1 = CHR ''/'' # ''/'' @ user @ ''@'' @ rest" by (auto simp: scheme_chars)
    from redact_nonletter [OF r1(2)] obtain r2 w2 where r2: "r1 = CHR ''/'' # r2" "redact_userinfo w2 r2 = CHR ''/'' # user @ ''@'' @ rest"
      by (auto simp: scheme_chars)
    from redact_nonletter [OF r2(2)] obtain r3 w3 where r3: "r2 = CHR ''/'' # r3" "redact_userinfo w3 r3 = user @ ''@'' @ rest"
      by (auto simp: scheme_chars)
    have "takeWhile is_user_char (user @ ''@'' @ rest) = user" "dropWhile is_user_char (user @ ''@'' @ rest) = ''@'' @ rest"
      using ok(5) scheme_chars(4) by (simp_all add: takeWhile_append2 dropWhile_append2)
    with redact_takeWhile [of is_user_char w3 r3] r3(2) scheme_chars(2,7)
    have "takeWhile is_user_char r3 = user" "take 1 (dropWhile is_user_char r3) = ''@''" by simp_all
    then have "r3 = user @ ''@'' @ drop 1 (dropWhile is_user_char r3)" by (metis append_take_drop_id takeWhile_dropWhile_id)
    with r1 r2 r3 matches ok(4,5) show ?thesis by simp
  qed (rule matches)
qed

lemma redacted_match:
  assumes "userinfo_match s = Some (scheme, user, rest)"
  shows "userinfo_match (scheme @ ''://***@'' @ t) = Some (scheme, ''***'', t)"
  using assms by (simp add: userinfo_match_iff scheme_chars)

lemma redact_userinfo_clean:
  "set (user_infos w (redact_userinfo w s)) \<subseteq> {''***''} \<and> redact_userinfo w (redact_userinfo w s) = redact_userinfo w s"
proof (induction "length s" arbitrary: w s rule: less_induct)
  case less
  show ?case
  proof (cases rule: redact_cases [where s = s and w = w])
    case (match scheme user rest)
    from match(1) have "scheme \<noteq> []" by (simp add: userinfo_match_iff)
    then obtain x xs where o: "scheme @ ''://***@'' @ redact_userinfo False rest = x # xs" by (cases scheme) auto
    have found: "userinfo_match (x # xs) = Some (scheme, ''***'', redact_userinfo False rest)"
      unfolding o [symmetric] by (rule redacted_match [OF match(1)])
    let ?t = "redact_userinfo False rest"
    have infos: "user_infos w (x # xs) = ''***'' # user_infos False ?t"
      and again: "redact_userinfo w (x # xs) = scheme @ ''://***@'' @ redact_userinfo False ?t"
      using match(2) found by (simp_all add: user_infos.simps(2) redact_userinfo.simps(2))
    have e: "redact_userinfo w s = x # xs" by (simp only: match(4) o)
    note IH = less [OF userinfo_match_shorter [OF match(1)], of False]
    show ?thesis unfolding e infos again IH [THEN conjunct2] o using IH [THEN conjunct1] by simp
  next
    case (keep c cs)
    then have "length cs < length s" by simp
    note IH = less [OF this, of "is_word_char c"]
    have "w \<or> userinfo_match (c # redact_userinfo (is_word_char c) cs) = None"
      using keep(1,2) redact_no_new_match by blast
    with IH show ?thesis unfolding keep(3) by (auto simp: user_infos.simps(2) redact_userinfo.simps(2))
  qed simp
qed

text \<open>A reported reason is the word timeout, one of the error's codes, or its message in which every user info the expression
  finds has been replaced; redacting once is enough.\<close>
theorem described_error_redacted:
  "describeError err = ''timeout'' \<or> Some (describeError err) \<in> {je_cause_code err, je_code err} \<union> set (nullish_or (je_errors err) [])
   \<or> describeError err = redact_userinfo False (je_message err) \<and> set (user_infos False (describeError err)) \<subseteq> {''***''}
     \<and> redact_userinfo False (describeError err) = describeError err"
proof -
  have first: "Some first \<in> set (nullish_or (je_errors err) [])" if "find (\<lambda>c. c \<noteq> None) (nullish_or (je_errors err) []) = Some (Some first)" for first
    using that by (auto simp: find_Some_iff in_set_conv_nth)
  show ?thesis
    using redact_userinfo_clean [of False "je_message err"] first
    by (auto simp: describeError_def truthy_def split: option.splits if_splits)
qed

text \<open>
  A user info with a \<open>@\<close> or a slash in it, which the URL parser accepts (it splits at the last \<open>@\<close>) or pg does, is
  not replaced as a whole.
\<close>

lemma redaction_leaks:
  "redact_userinfo False ''x://u:p@s@h'' = ''x://***@s@h''" "redact_userinfo False ''x://u:p/s@h'' = ''x://u:p/s@h''"
  by (simp_all add: redact_userinfo.simps(2) userinfo_match_def is_scheme_char_def is_letter_def is_digit_def is_user_char_def is_space_def
      is_word_char_def Let_def)

section \<open>What the commands promise\<close>

lemma map_f_name_errors: "filter (\<lambda>f. f_level f = LevelError) findings = [] \<longleftrightarrow> config_accepted findings"
  by (auto simp: config_accepted_def list_all_iff filter_empty_conv)

definition target_up :: "network \<Rightarrow> env \<Rightarrow> bool" where
  "target_up net env = (\<forall>(service, variable, check) \<in> set ONLINE_TARGETS. check net (js_trim (nullish_or (env variable) [])) = Reachable)"

text \<open>\<open>validate-config\<close> answers 0 exactly when the configuration has no error and, online, Postgres, Redis and Logto all answered for
  the values it names; no target is skipped then, and \<open>loadConfig\<close> accepts the environment.\<close>
theorem validate_config_exit:
  "snd (validate_config url_protocol net env online) = EXIT_OK \<longleftrightarrow>
     config_accepted (checkConfig url_protocol env) \<and> loadConfig env = Inr (fst (readConfig env)) \<and> (online \<longrightarrow> target_up net env)"
proof (cases "config_accepted (checkConfig url_protocol env)")
  case False
  then show ?thesis by (simp add: validate_config_def Let_def map_f_name_errors [symmetric] EXIT_OK_def EXIT_ERROR_def)
next
  case True
  note ok = accepted_passes [OF True]
  have load: "loadConfig env = Inr (fst (readConfig env))"
    using ok(1) by (simp add: loadConfig_def collectConfigProblems_def case_prod_beta)
  have blank: "\<not> isBlank (env k)" if "k \<in> set REQUIRED_STRING_VARS" for k
    using missing_problems [of env] ok(1) that by (auto simp: requireString_problem split: if_splits)
  have given: "truthy (map_option js_trim (env k))" if "k \<in> set REQUIRED_STRING_VARS" for k
    using blank [OF that] by (cases "env k") (auto simp: isBlank_def)
  have "snd x = Some (snd (snd t) net (js_trim (nullish_or (env (fst (snd t))) [])))"
    if "t \<in> set ONLINE_TARGETS" "x = check_target net env [] t" for t x
  proof -
    from that(1) have "fst (snd t) \<in> set REQUIRED_STRING_VARS" by (auto simp: ONLINE_TARGETS_def REQUIRED_STRING_VARS_def)
    with given [of "fst (snd t)"] that(2) show ?thesis by (auto simp: check_target_def Let_def truthy_def case_prod_beta nullish_or_def split: option.splits)
  qed
  then have one: "is_unreachable (check_target net env [] t) \<longleftrightarrow> snd (snd t) net (js_trim (nullish_or (env (fst (snd t))) [])) \<noteq> Reachable"
    if "t \<in> set ONLINE_TARGETS" for t
    using that by (cases "snd (snd t) net (js_trim (nullish_or (env (fst (snd t))) []))") (auto simp: is_unreachable_def case_prod_beta)
  have "length (filter is_unreachable (map (check_target net env []) ONLINE_TARGETS)) = 0 \<longleftrightarrow> target_up net env"
    by (auto simp: filter_empty_conv target_up_def one case_prod_beta)
  moreover have "filter (\<lambda>f. f_level f = LevelError) (checkConfig url_protocol env) = []" using True by (simp only: map_f_name_errors)
  ultimately show ?thesis
    using True load by (simp only: validate_config_def Let_def snd_conv EXIT_OK_def EXIT_ERROR_def list.map list.size) (auto simp: filter_map)
qed

lemma no_positionals: "parseArgs [] args = Inr (given, []) \<Longrightarrow> args = [] \<or> args = [''--'']"
  by (cases args; cases "parseArgs [] (tl args)") (auto simp: Let_def split: if_splits)

lemma migrate_codes:
  assumes "migrate_command describe url env fault db = ((output, code), db')"
  shows "code = EXIT_OK \<or> code = EXIT_ERROR"
    and "code = EXIT_OK \<Longrightarrow> \<exists>applied. runMigrations env fault db = (Inr applied, db')"
proof -
  note run = assms [unfolded migrate_command_def migrate_report_def]
  from run show "code = EXIT_OK \<or> code = EXIT_ERROR"
    by (auto split: if_splits prod.splits sum.splits migration_exn.splits)
  assume "code = EXIT_OK"
  with run show "\<exists>applied. runMigrations env fault db = (Inr applied, db')"
    by (auto simp: EXIT_OK_def EXIT_ERROR_def split: if_splits prod.splits sum.splits migration_exn.splits)
qed

lemma validate_codes: "snd (validate_config up net env online) = EXIT_OK \<or> snd (validate_config up net env online) = EXIT_ERROR"
  by (simp add: validate_config_def Let_def)

lemmas exit_codes = EXIT_OK_def EXIT_ERROR_def EXIT_USAGE_def

lemma commands_Some:
  assumes "commands name = Some c"
  shows "c = MigrateCommand \<longleftrightarrow> name = ''migrate''"
  using assms by (auto simp: commands_def split: if_splits)

text \<open>How an invocation ends: with the help, a usage error, or in a command.\<close>

lemma runCli_cases:
  assumes "runCli parse_message ce argv db = ((output, r), db')"
  obtains (helped) "r = Inr EXIT_OK" "db' = db" "argv = [] \<or> hd argv \<noteq> ''migrate''"
  | (usage) "r = Inr EXIT_USAGE" "db' = db" "\<forall>l \<in> set output. \<exists>m. l = StdErr m"
  | (ran) c given where "commands (hd argv) = Some c" "argv \<noteq> []" "parseArgs (command_options c) (tl argv) = Inr (given, [])"
      "run_command ce c (''online'' \<in> set given) db = ((output, r), db')"
proof (cases argv)
  case Nil
  with assms helped show ?thesis by (simp add: runCli_def)
next
  case (Cons name rest)
  show ?thesis
  proof (cases "name \<in> {''help'', ''--help'', ''-h''}")
    case True
    then have "name \<noteq> ''migrate''" by auto
    with True Cons assms helped show ?thesis by (simp add: runCli_def del: insert_iff)
  next
    case False
    note run = assms [unfolded runCli_def Cons list.case if_not_P [OF False]]
    show ?thesis
    proof (cases "commands name")
      case None
      with run have "r = Inr EXIT_USAGE" "db' = db" "\<forall>l \<in> set output. \<exists>m. l = StdErr m" by auto
      then show ?thesis by (rule usage)
    next
      case (Some c)
      note run = run [unfolded Some option.case]
      show ?thesis
      proof (cases "parseArgs (command_options c) rest")
        case (Inl err)
        with run have "r = Inr EXIT_USAGE" "db' = db" "\<forall>l \<in> set output. \<exists>m. l = StdErr m" by auto
        then show ?thesis by (rule usage)
      next
        case (Inr x)
        obtain given positionals where x: "x = (given, positionals)" by fastforce
        show ?thesis
        proof (cases "positionals = []")
          case True
          with run Inr x ran [of c given] Cons Some show ?thesis by simp
        next
          case False
          with run Inr x have "r = Inr EXIT_USAGE" "db' = db" "\<forall>l \<in> set output. \<exists>m. l = StdErr m" by auto
          then show ?thesis by (rule usage)
        qed
      qed
    qed
  qed
qed

text \<open>C25. However the program is called: it exits with 0, 1 or 2; a usage error goes to standard error and changes nothing; the database
  changes only under \<open>migrate\<close> without further arguments, and when that answers 0 the schema is current.\<close>
theorem cli_main_outcome:
  assumes "cli_main parse_message ce argv db = ((output, code), db')" and "me_dir (ce_migration ce) = Inr names" and "distinct names"
  shows "code \<in> {EXIT_OK, EXIT_ERROR, EXIT_USAGE}
    \<and> (code = EXIT_USAGE \<longrightarrow> db' = db \<and> (\<forall>l \<in> set output. \<exists>m. l = StdErr m))
    \<and> (db' \<noteq> db \<longrightarrow> argv = [''migrate''] \<or> argv = [''migrate'', ''--''])
    \<and> (argv \<noteq> [] \<and> hd argv = ''migrate'' \<and> code = EXIT_OK \<longrightarrow> assertSchemaCurrent None None (me_dir (ce_migration ce)) db' = Inr ())"
proof -
  obtain output' r where run: "runCli parse_message ce argv db = ((output', r), db')" and main: "case r of Inr c \<Rightarrow> output = output' \<and> code = c | Inl m \<Rightarrow> code = EXIT_ERROR"
    using assms(1) unfolding cli_main_def by (auto split: prod.splits sum.splits)
  from run show ?thesis
  proof (cases rule: runCli_cases)
    case helped
    with main show ?thesis by (auto simp: exit_codes)
  next
    case usage
    with main show ?thesis by (auto simp: exit_codes)
  next
    case (ran c given)
    note named = commands_Some [OF ran(1)]
    show ?thesis
    proof (cases c)
      case MigrateCommand
      with ran(2,3) named have argv: "argv = [''migrate''] \<or> argv = [''migrate'', ''--'']" using no_positionals [of "tl argv" given] by (cases argv) auto
      obtain code' where "migrate_command (\<lambda>e. describeError (ce_reason ce e)) (ce_env ce ''BACKEND_DATABASE_URL'') (ce_migration ce) (ce_fault ce) db
          = ((output', code'), db')" and r: "r = Inr code'" using ran(4) MigrateCommand by (auto split: prod.splits)
      note codes = migrate_codes [OF this(1)]
      have "assertSchemaCurrent None None (me_dir (ce_migration ce)) db' = Inr ()" if "code' = EXIT_OK"
        using codes(2) [OF that] migrated_is_current(1) [OF _ assms(2,3)] by blast
      with argv codes(1) r main show ?thesis by (auto simp: exit_codes)
    next
      case ValidateCommand
      with ran(4) have "db' = db" "r = Inr (snd (validate_config (ce_url_protocol ce) (ce_network ce) (ce_env ce) (''online'' \<in> set given)))"
        by (auto split: prod.splits)
      moreover from validate_codes have "snd (validate_config (ce_url_protocol ce) (ce_network ce) (ce_env ce) (''online'' \<in> set given)) \<in> {EXIT_OK, EXIT_ERROR}"
        by simp
      ultimately show ?thesis using ValidateCommand named main by (auto simp: exit_codes)
    next
      case InheritedMember
      with ran(4) have "db' = db" "\<exists>m. r = Inl m" by auto
      with InheritedMember named main show ?thesis by (auto simp: exit_codes)
    qed
  qed
qed

text \<open>A name every object inherits is taken for a command: the call is a failure instead of a usage error.\<close>

lemma inherited_name_fails:
  "cli_main parse_message ce [''constructor''] db = (([StdErr ''command.load is not a function''], EXIT_ERROR), db)"
  by (simp add: cli_main_def runCli_def commands_def inherited_names_def)

definition sample_cli :: "string list cli_env" where
  "sample_cli = \<lparr>ce_env = map_of [(''BACKEND_DATABASE_URL'', ''postgres://d'')], ce_url_protocol = sample_protocol,
     ce_network = \<lparr>nt_postgres = (\<lambda>u. None), nt_redis = (\<lambda>u. None), nt_fetch = (\<lambda>u. Inr (200, True))\<rparr>,
     ce_reason = (\<lambda>e. \<lparr>je_name = None, je_cause_code = None, je_code = None, je_errors = None, je_message = []\<rparr>),
     ce_migration = sample_migrations, ce_fault = (\<lambda>s. None)\<rparr>"

theorem cli_main_outcome_witness:
  "\<exists>output db'. cli_main (\<lambda>e. []) sample_cli [''migrate''] sample_db = ((output, EXIT_OK), db') \<and> db' \<noteq> sample_db
     \<and> assertSchemaCurrent None None (me_dir sample_migrations) db' = Inr ()"
proof -
  obtain db' where run: "runMigrations sample_migrations (\<lambda>s. None) sample_db = (Inr [''1.sql'', ''2.sql''], db')" and changed: "db' \<noteq> sample_db"
    using sample_run by (auto simp: sample_db_def)
  have "\<exists>output. cli_main (\<lambda>e. []) sample_cli [''migrate''] sample_db = ((output, EXIT_OK), db')"
    by (simp add: cli_main_def runCli_def commands_def sample_cli_def migrate_command_def migrate_report_def run js_trim_def is_space_def)
  then obtain lines where main: "cli_main (\<lambda>e. []) sample_cli [''migrate''] sample_db = ((lines, EXIT_OK), db')" by blast
  have "me_dir (ce_migration sample_cli) = Inr [''2.sql'', ''README.md'', ''1.sql'']" by (simp add: sample_cli_def sample_migrations_def)
  from cli_main_outcome [OF main this] main changed show ?thesis
    by (auto simp: sample_cli_def)
qed

end
