(* ===== verification/Wizard.thy ===== *)
theory Wizard
  imports Prelude
begin

text \<open>
  The step state behind every guided flow of the web interface, \<open>src/frontend/src/flows/wizard/useWizard.ts\<close>,
  and the flows themselves except the one for actions: \<open>OnboardingWizard.tsx\<close>, \<open>DeviceWizard.tsx\<close>,
  \<open>TraefikProviderWizard.tsx\<close>.

  The four signals of the hook are the record \<open>wizard\<close>; \<open>wz_submitted\<close> and \<open>wz_settled\<close> are its history: the data
  \<open>onComplete\<close> was called with, and how those calls ended. What a user or the network can do is an
  event, \<open>wizard_step\<close> the hook's answer. A submission is two events, because \<open>submit\<close> awaits \<open>onComplete\<close>: anything
  can happen in between. An update is a function on the data; which updates a step's component makes is said by
  each flow.
\<close>

section \<open>The hook\<close>

record 'd WizardStepDefinition =
  ws_id :: string
  ws_title :: string
  ws_isValid :: "'d \<Rightarrow> bool"

record 'd wizard =
  wz_currentStepIndex :: nat
  wz_data :: 'd
  wz_isSubmitting :: bool
  wz_submitError :: "exn option"
  wz_submitted :: "'d list"
  wz_settled :: "exn option list"

type_synonym 'd steps = "'d WizardStepDefinition list"

definition useWizard :: "'d \<Rightarrow> 'd wizard" where
  "useWizard initialData = \<lparr>wz_currentStepIndex = 0, wz_data = initialData, wz_isSubmitting = False, wz_submitError = None,
     wz_submitted = [], wz_settled = []\<rparr>"

definition currentStep :: "'d steps \<Rightarrow> 'd wizard \<Rightarrow> 'd WizardStepDefinition" where
  "currentStep steps w = steps ! wz_currentStepIndex w"

definition isLastStep :: "'d steps \<Rightarrow> 'd wizard \<Rightarrow> bool" where
  "isLastStep steps w = (wz_currentStepIndex w = length steps - 1)"

definition canGoNext :: "'d steps \<Rightarrow> 'd wizard \<Rightarrow> bool" where
  "canGoNext steps w = ws_isValid (currentStep steps w) (wz_data w)"

definition canGoBack :: "'d wizard \<Rightarrow> bool" where
  "canGoBack w = (wz_currentStepIndex w > 0)"

definition updateStepData :: "('d \<Rightarrow> 'd) \<Rightarrow> 'd wizard \<Rightarrow> 'd wizard" where
  "updateStepData patch w = w\<lparr>wz_data := patch (wz_data w)\<rparr>"

definition goNext :: "'d steps \<Rightarrow> 'd wizard \<Rightarrow> 'd wizard" where
  "goNext steps w = (if \<not> canGoNext steps w then w
     else w\<lparr>wz_currentStepIndex := min (wz_currentStepIndex w + 1) (length steps - 1)\<rparr>)"

definition goBack :: "'d wizard \<Rightarrow> 'd wizard" where
  "goBack w = (if \<not> canGoBack w then w else w\<lparr>wz_currentStepIndex := wz_currentStepIndex w - 1\<rparr>)"

definition submit :: "'d steps \<Rightarrow> 'd wizard \<Rightarrow> 'd wizard" where
  "submit steps w = (if \<not> isLastStep steps w \<or> \<not> canGoNext steps w \<or> wz_isSubmitting w then w
     else w\<lparr>wz_isSubmitting := True, wz_submitError := None, wz_submitted := wz_submitted w @ [wz_data w]\<rparr>)"

text \<open>The call of \<open>onComplete\<close> ends, with an error or without.\<close>

definition submit_settled :: "exn option \<Rightarrow> 'd wizard \<Rightarrow> 'd wizard" where
  "submit_settled r w = (if \<not> wz_isSubmitting w then w
     else w\<lparr>wz_isSubmitting := False, wz_submitError := nullish r (wz_submitError w), wz_settled := wz_settled w @ [r]\<rparr>)"

datatype 'd wizard_event =
    Update "'d \<Rightarrow> 'd"
  | Next
  | Back
  | Submit
  | Settled "exn option"

fun wizard_step :: "'d steps \<Rightarrow> 'd wizard_event \<Rightarrow> 'd wizard \<Rightarrow> 'd wizard" where
  "wizard_step steps (Update patch) w = updateStepData patch w"
| "wizard_step steps Next w = goNext steps w"
| "wizard_step steps Back w = goBack w"
| "wizard_step steps Submit w = submit steps w"
| "wizard_step steps (Settled r) w = submit_settled r w"

fun wizard_run :: "'d steps \<Rightarrow> 'd wizard_event list \<Rightarrow> 'd wizard \<Rightarrow> 'd wizard" where
  "wizard_run steps [] w = w"
| "wizard_run steps (ev # evs) w = wizard_run steps evs (wizard_step steps ev w)"

text \<open>Only the component of the current step is on the screen: \<open>makes i\<close> are the updates that step makes, and those
  an answer to a request of an earlier step makes while step \<open>i\<close> is on the screen.\<close>

fun permitted :: "'d steps \<Rightarrow> (nat \<Rightarrow> ('d \<Rightarrow> 'd) \<Rightarrow> bool) \<Rightarrow> 'd wizard_event list \<Rightarrow> 'd wizard \<Rightarrow> bool" where
  "permitted steps makes [] w = True"
| "permitted steps makes (ev # evs) w =
     ((case ev of Update patch \<Rightarrow> makes (wz_currentStepIndex w) patch | _ \<Rightarrow> True) \<and> permitted steps makes evs (wizard_step steps ev w))"

section \<open>What every flow keeps\<close>

definition valid_upto :: "'d steps \<Rightarrow> nat \<Rightarrow> 'd \<Rightarrow> bool" where
  "valid_upto steps n d = (\<forall>j < n. ws_isValid (steps ! j) d)"

definition wizard_ok :: "'d steps \<Rightarrow> 'd wizard \<Rightarrow> bool" where
  "wizard_ok steps w = (wz_currentStepIndex w < length steps
     \<and> valid_upto steps (wz_currentStepIndex w) (wz_data w)
     \<and> (\<forall>d \<in> set (wz_submitted w). valid_upto steps (length steps) d)
     \<and> length (wz_submitted w) = length (wz_settled w) + (if wz_isSubmitting w then 1 else 0))"

text \<open>
  The contract of a flow: it has a step, and what a step's component changes leaves the steps before it as
  valid as they were. The hook itself does not check this.
\<close>

locale wizard_flow =
  fixes steps :: "'d steps" and makes :: "nat \<Rightarrow> ('d \<Rightarrow> 'd) \<Rightarrow> bool"
  assumes some_step: "steps \<noteq> []"
    and keeps_earlier: "makes i patch \<Longrightarrow> valid_upto steps i d \<Longrightarrow> valid_upto steps i (patch d)"
begin

lemma start_ok: "wizard_ok steps (useWizard d)"
  using some_step by (simp add: wizard_ok_def useWizard_def valid_upto_def)

lemma step_ok:
  assumes ok: "wizard_ok steps w" and legal: "case ev of Update patch \<Rightarrow> makes (wz_currentStepIndex w) patch | _ \<Rightarrow> True"
  shows "wizard_ok steps (wizard_step steps ev w)"
proof (cases ev)
  case (Update patch)
  with ok legal show ?thesis by (simp add: wizard_ok_def updateStepData_def keeps_earlier)
next
  case Next
  have "valid_upto steps (min (wz_currentStepIndex w + 1) (length steps - 1)) (wz_data w)" if "canGoNext steps w"
    using ok that by (auto simp: wizard_ok_def valid_upto_def canGoNext_def currentStep_def less_Suc_eq)
  with ok some_step Next show ?thesis by (auto simp: wizard_ok_def goNext_def)
next
  case Back
  from ok have "valid_upto steps (wz_currentStepIndex w - 1) (wz_data w)" by (simp add: wizard_ok_def valid_upto_def)
  with ok Back show ?thesis by (auto simp: wizard_ok_def goBack_def)
next
  case Submit
  have "valid_upto steps (length steps) (wz_data w)" if "isLastStep steps w" "canGoNext steps w"
  proof -
    from that(1) some_step have n: "length steps = Suc (wz_currentStepIndex w)" by (simp add: isLastStep_def)
    from ok that(2) show ?thesis unfolding n
      by (auto simp: wizard_ok_def valid_upto_def canGoNext_def currentStep_def less_Suc_eq)
  qed
  with ok Submit show ?thesis by (auto simp: wizard_ok_def submit_def)
next
  case (Settled r)
  with ok show ?thesis by (auto simp: wizard_ok_def submit_settled_def)
qed

lemma run_ok: "wizard_ok steps w \<Longrightarrow> permitted steps makes evs w \<Longrightarrow> wizard_ok steps (wizard_run steps evs w)"
proof (induction evs arbitrary: w)
  case (Cons ev evs)
  then have "wizard_ok steps (wizard_step steps ev w)" by (intro step_ok) simp_all
  with Cons show ?case by simp
qed simp

lemma submitted_valid:
  "permitted steps makes evs (useWizard d0) \<Longrightarrow> d \<in> set (wz_submitted (wizard_run steps evs (useWizard d0))) \<Longrightarrow>
   valid_upto steps (length steps) d"
  using run_ok [OF start_ok] by (auto simp: wizard_ok_def)

lemma one_in_flight:
  "permitted steps makes evs (useWizard d0) \<Longrightarrow>
   length (wz_submitted (wizard_run steps evs (useWizard d0)))
     = length (wz_settled (wizard_run steps evs (useWizard d0))) + (if wz_isSubmitting (wizard_run steps evs (useWizard d0)) then 1 else 0)"
  using run_ok [OF start_ok] by (simp add: wizard_ok_def)

lemma submitted_invariant:
  assumes makes_keeps: "\<And>i patch d. makes i patch \<Longrightarrow> P d \<Longrightarrow> P (patch d)"
  shows "permitted steps makes evs w \<Longrightarrow> P (wz_data w) \<Longrightarrow> \<forall>d \<in> set (wz_submitted w). P d \<Longrightarrow>
    \<forall>d \<in> set (wz_submitted (wizard_run steps evs w)). P d"
proof (induction evs arbitrary: w)
  case (Cons ev evs)
  have "P (patch (wz_data w))" if "ev = Update patch" for patch
    using Cons.prems(1,2) that by (auto intro: makes_keeps)
  with Cons.prems have "P (wz_data (wizard_step steps ev w)) \<and> (\<forall>d \<in> set (wz_submitted (wizard_step steps ev w)). P d)"
    by (cases ev) (simp_all add: updateStepData_def goNext_def goBack_def submit_def submit_settled_def)
  moreover from Cons.prems(1) have "permitted steps makes evs (wizard_step steps ev w)" by simp
  ultimately show ?case unfolding wizard_run.simps by (intro Cons.IH) blast+
qed simp

end

text \<open>Going back, going on and a failed submission never lose what was entered.\<close>

lemma data_kept:
  "wz_data (goBack w) = wz_data w" "wz_data (goNext steps w) = wz_data w" "wz_data (submit steps w) = wz_data w"
  "wz_data (submit_settled r w) = wz_data w" "wz_currentStepIndex (submit_settled r w) = wz_currentStepIndex w"
  by (simp_all add: goBack_def goNext_def submit_def submit_settled_def)

section \<open>The first visit\<close>

record OnboardingData =
  ob_notificationAddresses :: string
  ob_wantsFirstDevice :: bool

definition onboarding_initial :: OnboardingData where
  "onboarding_initial = \<lparr>ob_notificationAddresses = [], ob_wantsFirstDevice = True\<rparr>"

definition onboarding_steps :: "OnboardingData steps" where
  "onboarding_steps = [
     \<lparr>ws_id = ''welcome'', ws_title = ''Welcome'', ws_isValid = (\<lambda>d. True)\<rparr>,
     \<lparr>ws_id = ''notifications'', ws_title = ''Notifications'', ws_isValid = (\<lambda>d. True)\<rparr>,
     \<lparr>ws_id = ''first-device'', ws_title = ''Your first device'', ws_isValid = (\<lambda>d. True)\<rparr>]"

definition notification_step_makes :: "(OnboardingData \<Rightarrow> OnboardingData) \<Rightarrow> bool" where
  "notification_step_makes patch = (\<exists>v. patch = (\<lambda>d. d\<lparr>ob_notificationAddresses := v\<rparr>))"

definition first_device_step_makes :: "(OnboardingData \<Rightarrow> OnboardingData) \<Rightarrow> bool" where
  "first_device_step_makes patch = (\<exists>v. patch = (\<lambda>d. d\<lparr>ob_wantsFirstDevice := v\<rparr>))"

fun onboarding_makes :: "nat \<Rightarrow> (OnboardingData \<Rightarrow> OnboardingData) \<Rightarrow> bool" where
  "onboarding_makes (Suc 0) patch = notification_step_makes patch"
| "onboarding_makes (Suc (Suc 0)) patch = first_device_step_makes patch"
| "onboarding_makes _ patch = False"

text \<open>The addresses to register; none means that no channel is created.\<close>

definition onboarding_addresses :: "OnboardingData \<Rightarrow> string list" where
  "onboarding_addresses d = filter (\<lambda>a. length a > 0) (map js_trim (split_char CHR '','' (ob_notificationAddresses d)))"

definition onboarding_target :: "OnboardingData \<Rightarrow> string" where
  "onboarding_target d = (if ob_wantsFirstDevice d then ''/ip-clients'' else ''/'')"

section \<open>A new device\<close>

record DeviceWizardData =
  dw_label :: string

definition device_wizard_steps :: "DeviceWizardData steps" where
  "device_wizard_steps = [
     \<lparr>ws_id = ''name'', ws_title = ''Name'', ws_isValid = (\<lambda>d. length (js_trim (dw_label d)) > 0)\<rparr>,
     \<lparr>ws_id = ''confirm'', ws_title = ''Confirm'', ws_isValid = (\<lambda>d. True)\<rparr>]"

definition name_device_step_makes :: "(DeviceWizardData \<Rightarrow> DeviceWizardData) \<Rightarrow> bool" where
  "name_device_step_makes patch = (\<exists>v. patch = (\<lambda>d. d\<lparr>dw_label := v\<rparr>))"

fun device_wizard_makes :: "nat \<Rightarrow> (DeviceWizardData \<Rightarrow> DeviceWizardData) \<Rightarrow> bool" where
  "device_wizard_makes 0 patch = name_device_step_makes patch"
| "device_wizard_makes _ patch = False"

definition device_wizard_label :: "DeviceWizardData \<Rightarrow> string" where
  "device_wizard_label d = js_trim (dw_label d)"

section \<open>A new agent\<close>

datatype wizard_mode = WizAgentInitiated | WizServerInitiated

record TraefikProviderWizardData =
  tw_name :: string
  tw_connectionMode :: wizard_mode

definition provider_wizard_steps :: "TraefikProviderWizardData steps" where
  "provider_wizard_steps = [
     \<lparr>ws_id = ''name'', ws_title = ''Name'', ws_isValid = (\<lambda>d. length (js_trim (tw_name d)) > 0)\<rparr>,
     \<lparr>ws_id = ''connection'', ws_title = ''Connection'', ws_isValid = (\<lambda>d. tw_connectionMode d = WizAgentInitiated)\<rparr>,
     \<lparr>ws_id = ''review'', ws_title = ''Review'', ws_isValid = (\<lambda>d. True)\<rparr>]"

definition name_step_makes :: "(TraefikProviderWizardData \<Rightarrow> TraefikProviderWizardData) \<Rightarrow> bool" where
  "name_step_makes patch = (\<exists>v. patch = (\<lambda>d. d\<lparr>tw_name := v\<rparr>))"

text \<open>The modes with their availability; an unavailable one is shown and cannot be chosen.\<close>

definition MODES :: "(wizard_mode \<times> bool) list" where
  "MODES = [(WizAgentInitiated, True), (WizServerInitiated, False)]"

definition connection_mode_step_makes :: "(TraefikProviderWizardData \<Rightarrow> TraefikProviderWizardData) \<Rightarrow> bool" where
  "connection_mode_step_makes patch = (\<exists>v. (v, True) \<in> set MODES \<and> patch = (\<lambda>d. d\<lparr>tw_connectionMode := v\<rparr>))"

fun provider_wizard_makes :: "nat \<Rightarrow> (TraefikProviderWizardData \<Rightarrow> TraefikProviderWizardData) \<Rightarrow> bool" where
  "provider_wizard_makes 0 patch = name_step_makes patch"
| "provider_wizard_makes (Suc 0) patch = connection_mode_step_makes patch"
| "provider_wizard_makes _ patch = False"

definition provider_wizard_initial :: TraefikProviderWizardData where
  "provider_wizard_initial = \<lparr>tw_name = [], tw_connectionMode = WizAgentInitiated\<rparr>"

definition provider_wizard_body :: "TraefikProviderWizardData \<Rightarrow> string \<times> wizard_mode" where
  "provider_wizard_body d = (js_trim (tw_name d), tw_connectionMode d)"

interpretation onboarding: wizard_flow onboarding_steps onboarding_makes
proof unfold_locales
  show "valid_upto onboarding_steps i (patch d)" if "onboarding_makes i patch" "valid_upto onboarding_steps i d" for i patch d
    using that by (cases "(i, patch)" rule: onboarding_makes.cases)
      (auto simp: notification_step_makes_def first_device_step_makes_def valid_upto_def onboarding_steps_def nth_Cons split: nat.split)
qed (simp add: onboarding_steps_def)

interpretation device_wizard: wizard_flow device_wizard_steps device_wizard_makes
proof unfold_locales
  show "valid_upto device_wizard_steps i (patch d)" if "device_wizard_makes i patch" "valid_upto device_wizard_steps i d" for i patch d
    using that by (cases i) (simp_all add: valid_upto_def)
qed (simp add: device_wizard_steps_def)

interpretation provider_wizard: wizard_flow provider_wizard_steps provider_wizard_makes
proof unfold_locales
  show "valid_upto provider_wizard_steps i (patch d)" if "provider_wizard_makes i patch" "valid_upto provider_wizard_steps i d" for i patch d
    using that by (cases "(i, patch)" rule: provider_wizard_makes.cases) (auto simp: connection_mode_step_makes_def valid_upto_def provider_wizard_steps_def)
qed (simp add: provider_wizard_steps_def)

section \<open>What these flows send\<close>

lemma device_label_given:
  assumes "permitted device_wizard_steps device_wizard_makes evs (useWizard d0)"
    and "d \<in> set (wz_submitted (wizard_run device_wizard_steps evs (useWizard d0)))"
  shows "device_wizard_label d \<noteq> []"
  using device_wizard.submitted_valid [OF assms] by (auto simp: valid_upto_def device_wizard_steps_def device_wizard_label_def less_Suc_eq)

lemma provider_body_accepted:
  assumes "permitted provider_wizard_steps provider_wizard_makes evs (useWizard d0)"
    and "d \<in> set (wz_submitted (wizard_run provider_wizard_steps evs (useWizard d0)))"
  shows "fst (provider_wizard_body d) \<noteq> []" and "js_trim (fst (provider_wizard_body d)) = fst (provider_wizard_body d)"
    and "snd (provider_wizard_body d) = WizAgentInitiated"
  using provider_wizard.submitted_valid [OF assms]
  by (simp_all add: valid_upto_def provider_wizard_steps_def provider_wizard_body_def less_Suc_eq)

lemma onboarding_addresses_given: "a \<in> set (onboarding_addresses d) \<Longrightarrow> a \<noteq> [] \<and> js_trim a = a"
  by (auto simp: onboarding_addresses_def)

end
