(* ===== verification/ActionWizard.thy ===== *)
theory ActionWizard
  imports Wizard Config ActionRoutes
begin

text \<open>
  The flow that attaches or edits an action, \<open>src/frontend/src/flows/action-wizard\<close>, from the summary a page
  lists (\<open>pages/Actions.tsx\<close>) to the request the backend's action routes answer.

  The steps' components are modelled by the updates they make: \<open>action_wizard_makes i\<close> are those of step \<open>i\<close>. Which
  credentials, agents and groups a component offers comes from other requests, so any value may be chosen
  there. The answer to the final request is \<open>action_route\<close>'s: the two ends are put together in
  \<open>wizard_request_complete\<close>.
\<close>

section \<open>Numbers in text fields\<close>

text \<open>
  \<open>Number(s)\<close>: an integer, a fraction, or NaN or an infinity, which \<open>JSON.stringify\<close> sends as \<open>null\<close>. An integer is
  taken as exact, though a double rounds those above \<open>2 ^ 53\<close>; from \<open>number_limit\<close> on it rounds to an infinity.
\<close>

datatype js_numeral =
    Whole int
  | Fraction
  | NotFinite

definition number_limit :: int where
  "number_limit = 2 ^ 1024 - 2 ^ 970"

definition char_digit :: "char \<Rightarrow> int" where
  "char_digit c = (let n = int (of_char c) in
     if is_digit c then n - 48 else if 97 \<le> n \<and> n \<le> 102 then n - 87 else if 65 \<le> n \<and> n \<le> 70 then n - 55 else 99)"

definition whole :: "int \<Rightarrow> js_numeral" where
  "whole n = (if \<bar>n\<bar> < number_limit then Whole n else NotFinite)"

text \<open>\<open>n\<close> times ten to the power \<open>k\<close>, for a natural \<open>n\<close>\<close>

definition scaled :: "int \<Rightarrow> int \<Rightarrow> js_numeral" where
  "scaled n k = (if 0 \<le> k then whole (n * 10 ^ nat k)
     else if n mod 10 ^ nat (- k) = 0 \<or> whole (n div 10 ^ nat (- k)) = NotFinite then whole (n div 10 ^ nat (- k))
     else Fraction)"

fun negated :: "js_numeral \<Rightarrow> js_numeral" where
  "negated (Whole n) = Whole (- n)"
| "negated r = r"

definition radix_value :: "int \<Rightarrow> string \<Rightarrow> js_numeral" where
  "radix_value r ds = (if ds \<noteq> [] \<and> list_all (\<lambda>c. char_digit c < r) ds
     then whole (foldl (\<lambda>n c. r * n + char_digit c) 0 ds) else NotFinite)"

definition split_sign :: "string \<Rightarrow> bool \<times> string" where
  "split_sign s = (case s of [] \<Rightarrow> (False, []) | c # cs \<Rightarrow>
     if c = CHR ''-'' then (True, cs) else if c = CHR ''+'' then (False, cs) else (False, s))"

definition decimal_number :: "string \<Rightarrow> js_numeral" where
  "decimal_number s =
     (let ip = takeWhile is_digit s; r = dropWhile is_digit s;
          point = (r \<noteq> [] \<and> hd r = CHR ''.'');
          fp = (if point then takeWhile is_digit (tl r) else []);
          r2 = (if point then dropWhile is_digit (tl r) else r)
      in if ip = [] \<and> fp = [] then NotFinite
         else if r2 = [] then scaled (digits_value (ip @ fp)) (- int (length fp))
         else if hd r2 = CHR ''e'' \<or> hd r2 = CHR ''E''
         then (case split_sign (tl r2) of (neg, ds) \<Rightarrow>
             if ds \<noteq> [] \<and> list_all is_digit ds
             then scaled (digits_value (ip @ fp)) ((if neg then - digits_value ds else digits_value ds) - int (length fp))
             else NotFinite)
         else NotFinite)"

definition js_number :: "string \<Rightarrow> js_numeral" where
  "js_number s = (let t = js_trim s in
     if t = [] then Whole 0
     else if take 2 t \<in> {''0x'', ''0X''} then radix_value 16 (drop 2 t)
     else if take 2 t \<in> {''0o'', ''0O''} then radix_value 8 (drop 2 t)
     else if take 2 t \<in> {''0b'', ''0B''} then radix_value 2 (drop 2 t)
     else (case split_sign t of (neg, u) \<Rightarrow> if neg then negated (decimal_number u) else decimal_number u))"

section \<open>The data and its steps\<close>

record ActionWizardData =
  wd_type :: string
  wd_providerCredentialId :: string
  wd_zone :: string
  wd_recordName :: string
  wd_firewallId :: string
  wd_direction :: string
  wd_protocol :: string
  wd_port :: string
  wd_description :: string
  wd_traefikProviderId :: string
  wd_group :: string
  wd_ipv4 :: bool
  wd_ipv6 :: bool

definition new_action_data :: ActionWizardData where
  "new_action_data = \<lparr>wd_type = HETZNER_CLOUD_DNS_UPDATE_ACTION_TYPE, wd_providerCredentialId = [], wd_zone = [], wd_recordName = [],
     wd_firewallId = [], wd_direction = ''in'', wd_protocol = ''tcp'', wd_port = [], wd_description = [],
     wd_traefikProviderId = [], wd_group = [], wd_ipv4 = True, wd_ipv6 = False\<rparr>"

definition target_valid :: "ActionWizardData \<Rightarrow> bool" where
  "target_valid d =
     (if wd_type d = TRAEFIK_CONFIG_DELIVERY_ACTION_TYPE then length (wd_traefikProviderId d) > 0 \<and> GROUP_PATTERN (js_trim (wd_group d))
      else if wd_type d = HETZNER_CLOUD_DNS_UPDATE_ACTION_TYPE
      then length (wd_providerCredentialId d) > 0 \<and> length (js_trim (wd_zone d)) > 0 \<and> length (js_trim (wd_recordName d)) > 0
      else length (wd_providerCredentialId d) > 0 \<and> length (js_trim (wd_firewallId d)) > 0 \<and> length (wd_direction d) > 0
        \<and> length (wd_protocol d) > 0 \<and> length (js_trim (wd_description d)) > 0)"

definition families_valid :: "ActionWizardData \<Rightarrow> bool" where
  "families_valid d = (wd_type d = TRAEFIK_CONFIG_DELIVERY_ACTION_TYPE \<or> wd_ipv4 d \<or> wd_ipv6 d)"

definition action_wizard_steps :: "ActionWizardData steps" where
  "action_wizard_steps = [
     \<lparr>ws_id = ''type'', ws_title = ''Action type'', ws_isValid = (\<lambda>d. True)\<rparr>,
     \<lparr>ws_id = ''target'', ws_title = ''Target'', ws_isValid = target_valid\<rparr>,
     \<lparr>ws_id = ''address-family'', ws_title = ''Address family'', ws_isValid = families_valid\<rparr>,
     \<lparr>ws_id = ''review'', ws_title = ''Review'', ws_isValid = (\<lambda>d. True)\<rparr>]"

text \<open>The components' updates.\<close>

definition choose_type :: "string \<Rightarrow> ActionWizardData \<Rightarrow> ActionWizardData" where
  "choose_type t d = d\<lparr>wd_type := t\<rparr>"

definition DIRECTIONS :: "string list" where "DIRECTIONS = [''in'', ''out'']"
definition PROTOCOLS :: "string list" where "PROTOCOLS = [''tcp'', ''udp'', ''icmp'', ''esp'', ''ah'', ''gre'']"

definition port_applies :: "ActionWizardData \<Rightarrow> bool" where
  "port_applies d = (wd_protocol d = ''tcp'' \<or> wd_protocol d = ''udp'')"

text \<open>The port is kept or cleared by the protocol that was chosen before.\<close>

definition choose_protocol :: "string \<Rightarrow> ActionWizardData \<Rightarrow> ActionWizardData" where
  "choose_protocol v d = d\<lparr>wd_protocol := v, wd_port := (if port_applies d then wd_port d else [])\<rparr>"

definition choose_agent :: "string \<Rightarrow> ActionWizardData \<Rightarrow> ActionWizardData" where
  "choose_agent p d = d\<lparr>wd_traefikProviderId := p, wd_group := []\<rparr>"

definition type_group :: "string \<Rightarrow> ActionWizardData \<Rightarrow> ActionWizardData" where
  "type_group v d = d\<lparr>wd_group := js_lower v\<rparr>"

definition dns_target_makes :: "(ActionWizardData \<Rightarrow> ActionWizardData) \<Rightarrow> bool" where
  "dns_target_makes patch = ((\<exists>v. patch = (\<lambda>d. d\<lparr>wd_providerCredentialId := v\<rparr>)) \<or> (\<exists>v. patch = (\<lambda>d. d\<lparr>wd_zone := v\<rparr>))
     \<or> (\<exists>v. patch = (\<lambda>d. d\<lparr>wd_recordName := v\<rparr>)))"

definition firewall_target_makes :: "(ActionWizardData \<Rightarrow> ActionWizardData) \<Rightarrow> bool" where
  "firewall_target_makes patch = ((\<exists>v. patch = (\<lambda>d. d\<lparr>wd_providerCredentialId := v\<rparr>)) \<or> (\<exists>v. patch = (\<lambda>d. d\<lparr>wd_firewallId := v\<rparr>))
     \<or> (\<exists>v \<in> set DIRECTIONS. patch = (\<lambda>d. d\<lparr>wd_direction := v\<rparr>)) \<or> (\<exists>v \<in> set PROTOCOLS. patch = choose_protocol v)
     \<or> (\<exists>v. patch = (\<lambda>d. d\<lparr>wd_port := v\<rparr>)) \<or> (\<exists>v. patch = (\<lambda>d. d\<lparr>wd_description := v\<rparr>)))"

definition delivery_target_makes :: "(ActionWizardData \<Rightarrow> ActionWizardData) \<Rightarrow> bool" where
  "delivery_target_makes patch = ((\<exists>p. patch = choose_agent p) \<or> (\<exists>v. patch = type_group v) \<or> (\<exists>v. patch = (\<lambda>d. d\<lparr>wd_group := v\<rparr>)))"

text \<open>Which of the three the second step shows depends on the type; any of them may be used here.\<close>

definition target_updates :: "(ActionWizardData \<Rightarrow> ActionWizardData) \<Rightarrow> bool" where
  "target_updates patch = (dns_target_makes patch \<or> firewall_target_makes patch \<or> delivery_target_makes patch)"

lemmas target_makes_defs = target_updates_def dns_target_makes_def firewall_target_makes_def delivery_target_makes_def

definition address_family_makes :: "(ActionWizardData \<Rightarrow> ActionWizardData) \<Rightarrow> bool" where
  "address_family_makes patch = ((\<exists>v. patch = (\<lambda>d. d\<lparr>wd_ipv4 := v\<rparr>)) \<or> (\<exists>v. patch = (\<lambda>d. d\<lparr>wd_ipv6 := v\<rparr>)))"

fun action_step_makes :: "nat \<Rightarrow> (ActionWizardData \<Rightarrow> ActionWizardData) \<Rightarrow> bool" where
  "action_step_makes 0 patch = (\<exists>t \<in> set supported_types. patch = choose_type t)"
| "action_step_makes (Suc 0) patch = target_updates patch"
| "action_step_makes (Suc (Suc 0)) patch = address_family_makes patch"
| "action_step_makes _ patch = False"

text \<open>A credential created from the target step is selected when its request and the refetch are answered, whatever
  step is on the screen then (\<open>handleCreated\<close>); its id is the one of the backend's answer, so not empty.\<close>

definition handleCreated :: "(ActionWizardData \<Rightarrow> ActionWizardData) \<Rightarrow> bool" where
  "handleCreated patch = (\<exists>v. v \<noteq> [] \<and> patch = (\<lambda>d. d\<lparr>wd_providerCredentialId := v\<rparr>))"

definition action_wizard_makes :: "nat \<Rightarrow> (ActionWizardData \<Rightarrow> ActionWizardData) \<Rightarrow> bool" where
  "action_wizard_makes i patch = (action_step_makes i patch \<or> (i < length action_wizard_steps \<and> handleCreated patch))"

section \<open>The request\<close>

text \<open>The id the body carries. An \<open>ActionConfig\<close> holds an integer; a fraction, which the form would send too, has no
  place in it, and the properties say where they leave it out.\<close>

definition firewall_number :: "string \<Rightarrow> int option" where
  "firewall_number s = (case js_number s of Whole n \<Rightarrow> Some n | Fraction \<Rightarrow> None | NotFinite \<Rightarrow> None)"

definition wizard_families :: "ActionWizardData \<Rightarrow> address_family list" where
  "wizard_families d = (if wd_ipv4 d then [IPv4] else []) @ (if wd_ipv6 d then [IPv6] else [])"

definition wizard_config :: "ActionWizardData \<Rightarrow> ActionConfig" where
  "wizard_config d =
     (if wd_type d = TRAEFIK_CONFIG_DELIVERY_ACTION_TYPE
      then empty_config\<lparr>cf_traefikProviderId := Some (wd_traefikProviderId d), cf_group := Some (js_trim (wd_group d))\<rparr>
      else if wd_type d = HETZNER_CLOUD_DNS_UPDATE_ACTION_TYPE
      then empty_config\<lparr>cf_providerCredentialId := Some (wd_providerCredentialId d), cf_zone := Some (wd_zone d),
             cf_recordName := Some (wd_recordName d)\<rparr>
      else empty_config\<lparr>cf_providerCredentialId := Some (wd_providerCredentialId d), cf_firewallId := firewall_number (wd_firewallId d),
             cf_direction := Some (wd_direction d), cf_protocol := Some (wd_protocol d),
             cf_port := (if js_trim (wd_port d) \<noteq> [] then Some (wd_port d) else None), cf_description := Some (wd_description d)\<rparr>)"

definition wizard_request :: "id \<Rightarrow> id option \<Rightarrow> ActionWizardData \<Rightarrow> action_request" where
  "wizard_request ipClientId existing d = (case existing of
       Some actionId \<Rightarrow> ReconfigureAction actionId \<lparr>ab_type = None, ab_addressFamilies = Some (wizard_families d), ab_config = Some (wizard_config d)\<rparr>
     | None \<Rightarrow> AttachAction ipClientId \<lparr>ab_type = Some (wd_type d), ab_addressFamilies = Some (wizard_families d), ab_config = Some (wizard_config d)\<rparr>)"

text \<open>The data an edit starts from.\<close>

definition toExistingAction :: "ActionSummary \<Rightarrow> ActionWizardData" where
  "toExistingAction a =
     (let firewall = (case acs_config a of Some cf \<Rightarrow> if cf_firewallId cf \<noteq> None then Some cf else None | None \<Rightarrow> None);
          dns = (case acs_config a of Some cf \<Rightarrow> if cf_zone cf \<noteq> None then Some cf else None | None \<Rightarrow> None);
          traefik = (case acs_config a of Some cf \<Rightarrow> if cf_traefikProviderId cf \<noteq> None then Some cf else None | None \<Rightarrow> None)
      in \<lparr>wd_type = acs_type a,
          wd_providerCredentialId = nullish_or (nullish (Option.bind firewall cf_providerCredentialId) (Option.bind dns cf_providerCredentialId)) [],
          wd_zone = nullish_or (Option.bind dns cf_zone) [], wd_recordName = nullish_or (Option.bind dns cf_recordName) [],
          wd_firewallId = (case Option.bind firewall cf_firewallId of Some n \<Rightarrow> int_to_string n | None \<Rightarrow> []),
          wd_direction = nullish_or (Option.bind firewall cf_direction) ''in'',
          wd_protocol = nullish_or (Option.bind firewall cf_protocol) ''tcp'',
          wd_port = nullish_or (Option.bind firewall cf_port) [], wd_description = nullish_or (Option.bind firewall cf_description) [],
          wd_traefikProviderId = nullish_or (Option.bind traefik cf_traefikProviderId) [],
          wd_group = nullish_or (Option.bind traefik cf_group) [],
          wd_ipv4 = (IPv4 \<in> set (acs_addressFamilies a)), wd_ipv6 = (IPv6 \<in> set (acs_addressFamilies a))\<rparr>)"

section \<open>What a flow submits\<close>

lemma handleCreated_keeps:
  assumes "handleCreated patch" and "i < length action_wizard_steps" and "valid_upto action_wizard_steps i d"
  shows "valid_upto action_wizard_steps i (patch d)"
proof -
  obtain v where v: "v \<noteq> []" "patch = (\<lambda>d. d\<lparr>wd_providerCredentialId := v\<rparr>)" using assms(1) by (auto simp: handleCreated_def)
  have "target_valid d \<Longrightarrow> target_valid (patch d)" "families_valid (patch d) = families_valid d"
    using v by (auto simp: target_valid_def families_valid_def)
  with assms(2,3) show ?thesis
    by (auto simp: valid_upto_def action_wizard_steps_def less_Suc_eq numeral_2_eq_2 numeral_3_eq_3)
qed

interpretation action_wizard: wizard_flow action_wizard_steps action_wizard_makes
proof unfold_locales
  fix i patch d
  assume makes: "action_wizard_makes i patch" and valid: "valid_upto action_wizard_steps i d"
  show "valid_upto action_wizard_steps i (patch d)"
  proof (cases "i < length action_wizard_steps \<and> handleCreated patch")
    case True
    with valid show ?thesis by (simp add: handleCreated_keeps)
  next
    case False
    with makes have step: "action_step_makes i patch" by (simp add: action_wizard_makes_def)
    then consider "i = 0" | "i = Suc 0" | "i = Suc (Suc 0)" by (cases "(i, patch)" rule: action_step_makes.cases) simp_all
    then show ?thesis
    proof cases
      case 3
      with step have "target_valid (patch d) = target_valid d" by (auto simp: target_valid_def address_family_makes_def)
      with valid 3 show ?thesis by (simp add: valid_upto_def action_wizard_steps_def less_Suc_eq)
    qed (simp_all add: valid_upto_def action_wizard_steps_def)
  qed
qed (simp add: action_wizard_steps_def)

lemma submitted_data:
  assumes "permitted action_wizard_steps action_wizard_makes evs (useWizard d0)"
    and "d \<in> set (wz_submitted (wizard_run action_wizard_steps evs (useWizard d0)))"
  shows "target_valid d" and "families_valid d"
  using action_wizard.submitted_valid [OF assms]
  by (simp_all add: valid_upto_def action_wizard_steps_def less_Suc_eq)

text \<open>The type stays one the backend knows.\<close>

lemma step_keeps_type:
  assumes "action_step_makes i patch" and "wd_type d \<in> set supported_types"
  shows "wd_type (patch d) \<in> set supported_types"
proof -
  from assms(1) consider t where "t \<in> set supported_types" "patch = choose_type t" | "target_updates patch"
    | v where "patch = (\<lambda>d. d\<lparr>wd_ipv4 := v\<rparr>) \<or> patch = (\<lambda>d. d\<lparr>wd_ipv6 := v\<rparr>)"
    by (cases "(i, patch)" rule: action_step_makes.cases) (auto simp: address_family_makes_def)
  then show ?thesis
  proof cases
    case 2
    then have "wd_type (patch d) = wd_type d"
      by (auto simp: target_makes_defs choose_protocol_def choose_agent_def type_group_def)
    with assms(2) show ?thesis by simp
  qed (use assms(2) in \<open>auto simp: choose_type_def\<close>)
qed

lemma makes_keeps_type:
  "action_wizard_makes i patch \<Longrightarrow> wd_type d \<in> set supported_types \<Longrightarrow> wd_type (patch d) \<in> set supported_types"
  unfolding action_wizard_makes_def by (auto simp: step_keeps_type handleCreated_def)

lemma submitted_type:
  assumes "permitted action_wizard_steps action_wizard_makes evs (useWizard d0)" and "wd_type d0 \<in> set supported_types"
    and "d \<in> set (wz_submitted (wizard_run action_wizard_steps evs (useWizard d0)))"
  shows "wd_type d \<in> set supported_types"
proof -
  have "\<forall>d \<in> set (wz_submitted (wizard_run action_wizard_steps evs (useWizard d0))). wd_type d \<in> set supported_types"
    by (rule action_wizard.submitted_invariant [OF _ assms(1)]) (simp_all add: makes_keeps_type assms(2) useWizard_def)
  with assms(3) show ?thesis by blast
qed

section \<open>The answer to it\<close>

text \<open>The answers by which the attaching route refuses the body itself, whatever is stored.\<close>

definition body_refusals :: "response list" where
  "body_refusals = [unsupported_type,
     json_error 400 ''addressFamilies must be a non-empty array of \"ipv4\"/\"ipv6\"'',
     json_error 400 ''config.providerCredentialId, zone, and recordName are required'',
     json_error 400 ''config.providerCredentialId, firewallId, direction, protocol, and description are required'',
     json_error 422 ''config.traefikProviderId is required'', invalid_group]"

lemma trim_Nil [simp]: "js_trim [] = []"
  by (simp add: js_trim_def)

lemma trim_nonempty: "js_trim s \<noteq> [] \<Longrightarrow> s \<noteq> []"
  by (auto simp: js_trim_def)

lemma supported_type_cases:
  assumes "t \<in> set supported_types"
  obtains (delivery) "t = TRAEFIK_CONFIG_DELIVERY_ACTION_TYPE" | (dns) "t = HETZNER_CLOUD_DNS_UPDATE_ACTION_TYPE"
    | (firewall) "t = HETZNER_CLOUD_FIREWALL_RULE_UPDATE_ACTION_TYPE"
  using assms unfolding supported_types_def by auto

lemma types_differ [simp]:
  "TRAEFIK_CONFIG_DELIVERY_ACTION_TYPE \<noteq> HETZNER_CLOUD_DNS_UPDATE_ACTION_TYPE"
  "HETZNER_CLOUD_DNS_UPDATE_ACTION_TYPE \<noteq> TRAEFIK_CONFIG_DELIVERY_ACTION_TYPE"
  "HETZNER_CLOUD_FIREWALL_RULE_UPDATE_ACTION_TYPE \<noteq> TRAEFIK_CONFIG_DELIVERY_ACTION_TYPE"
  "HETZNER_CLOUD_FIREWALL_RULE_UPDATE_ACTION_TYPE \<noteq> HETZNER_CLOUD_DNS_UPDATE_ACTION_TYPE"
  by (simp_all add: TRAEFIK_CONFIG_DELIVERY_ACTION_TYPE_def HETZNER_CLOUD_DNS_UPDATE_ACTION_TYPE_def
    HETZNER_CLOUD_FIREWALL_RULE_UPDATE_ACTION_TYPE_def)

text \<open>What the three kinds of configuration can still be refused with.\<close>

lemma attach_dns_refusal:
  assumes "dns_config_complete config" and "attach_dns deps acc config b = Inl refusal"
  shows "refusal = invalid_credential \<or> (\<exists>err. refusal = Thrown err)"
  using assms by (auto simp: attach_dns_def split: sum.splits option.splits)

lemma selector_refusal:
  assumes "validateFirewallSelector deps apiToken config log = (Some refusal, log')"
  shows "refusal \<in> {json_error 400 ''firewall_not_found'', json_error 422 ''rule_selector_no_match'',
    json_error 422 ''rule_selector_ambiguous''} \<or> (\<exists>err. refusal = Thrown err)"
  using assms unfolding validateFirewallSelector_def Let_def selector_reply_def
  by (simp split: sum.splits prod.splits if_splits option.splits match_result.splits) blast+

lemma attach_firewall_refusal:
  assumes "firewall_config_complete config" and "attach_firewall deps acc config b = (Inl refusal, log)"
  shows "refusal \<in> {invalid_credential, json_error 400 ''firewall_not_found'', json_error 422 ''rule_selector_no_match'',
    json_error 422 ''rule_selector_ambiguous''} \<or> (\<exists>err. refusal = Thrown err)"
proof (cases "\<exists>tok log'. validateFirewallSelector deps tok (the config) (bk_requests b) = (Some refusal, log')")
  case True
  then show ?thesis using selector_refusal by blast
next
  case False
  with assms show ?thesis unfolding attach_firewall_def by (simp split: sum.splits option.splits prod.splits) blast
qed

lemma attach_delivery_refusal:
  assumes "cf_traefikProviderId cf = Some p" and "p \<noteq> []" and "cf_group cf = Some g" and "GROUP_PATTERN (js_trim g)"
    and "attach_delivery deps acc d (Some cf) b = Inl refusal"
  shows "(\<exists>message. refusal = json_error 404 message) \<or> (\<exists>message. refusal = json_error 500 message) \<or> (\<exists>body. refusal = Json 409 body)"
  using assms unfolding attach_delivery_def validateDeliveryConfig_def Let_def
  by (simp add: nullish_or_def split: if_splits option.splits) blast+

lemma body_refusals_status:
  assumes "r \<in> set body_refusals"
  shows "\<exists>body. r = Json 400 body \<or> r = Json 422 body"
  using assms unfolding body_refusals_def unsupported_type_def invalid_group_def set_simps by (elim insertE emptyE) simp_all

text \<open>Messages are told apart by their first letters.\<close>

fun answer_start :: "response \<Rightarrow> string" where
  "answer_start (Json status (JObj ((k, JStr message) # rest))) = take 10 message"
| "answer_start r = []"

lemma body_refusals_start:
  "r \<in> set body_refusals \<Longrightarrow>
   answer_start r \<in> {''unsupporte'', ''addressFam'', ''config.pro'', ''config.tra'', ''invalid_gr''}"
  unfolding body_refusals_def unsupported_type_def invalid_group_def set_simps by (elim insertE emptyE) simp_all

lemma selector_answers_differ:
  "invalid_credential \<notin> set body_refusals" "json_error 400 ''firewall_not_found'' \<notin> set body_refusals"
  "json_error 422 ''rule_selector_no_match'' \<notin> set body_refusals"
  "json_error 422 ''rule_selector_ambiguous'' \<notin> set body_refusals"
  using body_refusals_start [of invalid_credential] body_refusals_start [of "json_error 400 ''firewall_not_found''"]
    body_refusals_start [of "json_error 422 ''rule_selector_no_match''"] body_refusals_start [of "json_error 422 ''rule_selector_ambiguous''"]
  unfolding invalid_credential_def by (simp_all, blast+)

lemma not_body_refusal:
  "Thrown err \<notin> set body_refusals" "Json 201 body \<notin> set body_refusals" "Json 404 body \<notin> set body_refusals"
  "Json 409 body \<notin> set body_refusals" "Json 500 body \<notin> set body_refusals"
  by (rule notI, drule body_refusals_status, simp)+

text \<open>C21. Completing the flow for a new action, in any order of its steps and with late answers of the credential
  dialog, sends a body the attaching route refuses for what it says in exactly one case: the action updates a
  firewall rule and the typed firewall id reads as the number zero or as no number at all, which the form does
  not check (a non-blank text is enough for it). Then the answer is the 400 of the missing fields. (An id that
  reads as a fraction is left out.)\<close>

theorem wizard_request_complete:
  fixes deps dr acc ipClientId d b
  assumes "permitted action_wizard_steps action_wizard_makes evs (useWizard new_action_data)"
    and "d \<in> set (wz_submitted (wizard_run action_wizard_steps evs (useWizard new_action_data)))"
    and "wd_type d = HETZNER_CLOUD_FIREWALL_RULE_UPDATE_ACTION_TYPE \<Longrightarrow> js_number (wd_firewallId d) \<noteq> Fraction"
  defines "answer \<equiv> fst (action_route deps dr acc (wizard_request ipClientId None d) b)"
    and "bad_number \<equiv> wd_type d = HETZNER_CLOUD_FIREWALL_RULE_UPDATE_ACTION_TYPE \<and> js_number (wd_firewallId d) \<in> {Whole 0, NotFinite}"
  shows "(answer \<in> set body_refusals \<longleftrightarrow> bad_number)
    \<and> (bad_number \<longrightarrow> answer = json_error 400 ''config.providerCredentialId, firewallId, direction, protocol, and description are required'')"
proof -
  let ?body = "\<lparr>ab_type = Some (wd_type d), ab_addressFamilies = Some (wizard_families d), ab_config = Some (wizard_config d)\<rparr>"
  let ?missing = "json_error 400 ''config.providerCredentialId, firewallId, direction, protocol, and description are required''"
  note valid = submitted_data [OF assms(1,2)]
  have type: "wd_type d \<in> set supported_types"
    by (rule submitted_type [OF assms(1) _ assms(2)]) (simp add: new_action_data_def supported_types_def)
  have families: "nullish_or (attach_families ?body) [] \<noteq> []"
    using valid(2) by (auto simp: attach_families_def families_valid_def wizard_families_def)
  have number: "nullish_or (firewall_number (wd_firewallId d)) 0 = 0 \<longleftrightarrow> js_number (wd_firewallId d) \<in> {Whole 0, NotFinite}"
    if "wd_type d = HETZNER_CLOUD_FIREWALL_RULE_UPDATE_ACTION_TYPE"
    using assms(3) [OF that] by (auto simp: firewall_number_def nullish_or_def split: js_numeral.splits)
  have config: "refusal \<notin> set body_refusals"
    if "attach_config deps acc ipClientId ?body b = (Inl refusal, b')" "\<not> bad_number" for refusal b'
    using type
  proof (cases rule: supported_type_cases)
    case delivery
    with that(1) have "attach_delivery deps acc ipClientId (Some (wizard_config d)) b = Inl refusal" by (auto simp: attach_config_def)
    then have "(\<exists>message. refusal = json_error 404 message) \<or> (\<exists>message. refusal = json_error 500 message) \<or> (\<exists>body. refusal = Json 409 body)"
      by (rule attach_delivery_refusal [rotated -1])
        (use valid(1) delivery in \<open>auto simp: wizard_config_def target_valid_def empty_config_def\<close>)
    then show ?thesis using not_body_refusal by blast
  next
    case dns
    with valid(1) have "dns_config_complete (Some (wizard_config d))"
      by (auto simp: wizard_config_def target_valid_def dns_config_complete_def dest: trim_nonempty)
    from attach_dns_refusal [OF this] dns that(1) show ?thesis
      using not_body_refusal selector_answers_differ by (simp add: attach_config_def) blast
  next
    case firewall
    with that(2) number [OF firewall] have "nullish_or (firewall_number (wd_firewallId d)) 0 \<noteq> 0" by (simp add: bad_number_def)
    with valid(1) firewall have "firewall_config_complete (Some (wizard_config d))"
      by (auto simp: wizard_config_def target_valid_def firewall_config_complete_def firewall_target_complete_def dest: trim_nonempty)
    from attach_firewall_refusal [OF this] firewall that(1) show ?thesis
      using not_body_refusal selector_answers_differ by (simp add: attach_config_def split: prod.splits) blast
  qed
  have bad: "answer = ?missing" if bad_number
  proof -
    from that have "wd_type d = HETZNER_CLOUD_FIREWALL_RULE_UPDATE_ACTION_TYPE" "\<not> firewall_config_complete (Some (wizard_config d))"
      using number by (auto simp: bad_number_def wizard_config_def firewall_config_complete_def firewall_target_complete_def)
    then have "attach_config deps acc ipClientId ?body b = (Inl ?missing, b)"
      by (simp add: attach_config_def attach_firewall_def)
    with type families show ?thesis by (simp add: answer_def wizard_request_def action_attach_def)
  qed
  have good: "answer \<notin> set body_refusals" if "\<not> bad_number"
  proof (cases "attach_config deps acc ipClientId ?body b")
    case (Pair res b')
    with config that type families show ?thesis
      by (auto simp: answer_def wizard_request_def action_attach_def Let_def proceed_def not_body_refusal split: sum.splits prod.splits)
  qed
  have "?missing \<in> set body_refusals" by (simp add: body_refusals_def)
  with bad good show ?thesis by blast
qed

definition sample_flow :: "ActionWizardData wizard_event list" where
  "sample_flow = [Next, Update (\<lambda>d. d\<lparr>wd_providerCredentialId := ''c''\<rparr>), Update (\<lambda>d. d\<lparr>wd_zone := ''z''\<rparr>),
     Update (\<lambda>d. d\<lparr>wd_recordName := ''r''\<rparr>), Next, Next, Submit]"

definition sample_data :: ActionWizardData where
  "sample_data = new_action_data\<lparr>wd_providerCredentialId := ''c'', wd_zone := ''z'', wd_recordName := ''r''\<rparr>"

lemma sample_makes:
  "action_wizard_makes (Suc 0) (\<lambda>d. d\<lparr>wd_providerCredentialId := v\<rparr>)" "action_wizard_makes (Suc 0) (\<lambda>d. d\<lparr>wd_zone := v\<rparr>)"
  "action_wizard_makes (Suc 0) (\<lambda>d. d\<lparr>wd_recordName := v\<rparr>)" "action_wizard_makes (Suc 0) (\<lambda>d. d\<lparr>wd_firewallId := v\<rparr>)"
  "action_wizard_makes (Suc 0) (\<lambda>d. d\<lparr>wd_description := v\<rparr>)"
  "t \<in> set supported_types \<Longrightarrow> action_wizard_makes 0 (choose_type t)"
  "v \<noteq> [] \<Longrightarrow> i < length action_wizard_steps \<Longrightarrow> action_wizard_makes i (\<lambda>d. d\<lparr>wd_providerCredentialId := v\<rparr>)"
  unfolding action_wizard_makes_def action_step_makes.simps target_updates_def dns_target_makes_def firewall_target_makes_def handleCreated_def
  by blast+

lemma sample_flow_facts:
  "permitted action_wizard_steps action_wizard_makes sample_flow (useWizard new_action_data)"
  "wz_submitted (wizard_run action_wizard_steps sample_flow (useWizard new_action_data)) = [sample_data]"
  by (simp_all add: sample_makes sample_flow_def sample_data_def useWizard_def updateStepData_def goNext_def submit_def canGoNext_def currentStep_def
    isLastStep_def action_wizard_steps_def target_valid_def families_valid_def new_action_data_def js_trim_def is_space_def)

text \<open>The flow for a firewall rule whose id is typed as \<open>0\<close>; the credential is chosen by a late answer.\<close>

definition sample_zero_flow :: "ActionWizardData wizard_event list" where
  "sample_zero_flow = [Update (choose_type HETZNER_CLOUD_FIREWALL_RULE_UPDATE_ACTION_TYPE), Next,
     Update (\<lambda>d. d\<lparr>wd_firewallId := ''0''\<rparr>), Update (\<lambda>d. d\<lparr>wd_description := ''r''\<rparr>), Back,
     Update (\<lambda>d. d\<lparr>wd_providerCredentialId := ''c''\<rparr>), Next, Next, Next, Submit]"

definition sample_zero_data :: ActionWizardData where
  "sample_zero_data = new_action_data\<lparr>wd_type := HETZNER_CLOUD_FIREWALL_RULE_UPDATE_ACTION_TYPE, wd_providerCredentialId := ''c'',
     wd_firewallId := ''0'', wd_description := ''r''\<rparr>"

lemma sample_zero_facts:
  "permitted action_wizard_steps action_wizard_makes sample_zero_flow (useWizard new_action_data)"
  "wz_submitted (wizard_run action_wizard_steps sample_zero_flow (useWizard new_action_data)) = [sample_zero_data]"
proof -
  have types: "HETZNER_CLOUD_FIREWALL_RULE_UPDATE_ACTION_TYPE \<in> set supported_types" by (simp add: supported_types_def)
  have late: "action_wizard_makes 0 (\<lambda>d. d\<lparr>wd_providerCredentialId := ''c''\<rparr>)"
    by (rule sample_makes(7)) (simp_all add: action_wizard_steps_def)
  note makes = sample_makes(4,5) sample_makes(6) [OF types] late
  show "permitted action_wizard_steps action_wizard_makes sample_zero_flow (useWizard new_action_data)"
    "wz_submitted (wizard_run action_wizard_steps sample_zero_flow (useWizard new_action_data)) = [sample_zero_data]"
    by (simp_all add: makes sample_zero_flow_def sample_zero_data_def useWizard_def updateStepData_def goNext_def goBack_def canGoBack_def
      submit_def canGoNext_def currentStep_def isLastStep_def action_wizard_steps_def target_valid_def families_valid_def
      new_action_data_def js_trim_def is_space_def choose_type_def)
qed

theorem wizard_request_complete_witness:
  "(\<forall>deps dr acc b. fst (action_route deps dr acc (wizard_request ''dev'' None sample_data) b) \<notin> set body_refusals)
   \<and> (\<forall>deps dr acc b. fst (action_route deps dr acc (wizard_request ''dev'' None sample_zero_data) b) =
        json_error 400 ''config.providerCredentialId, firewallId, direction, protocol, and description are required'')"
proof -
  have "js_number [] = Whole 0" "js_number ''0'' = Whole 0"
    by (simp_all add: js_number_def js_trim_def is_space_def split_sign_def decimal_number_def is_digit_def scaled_def whole_def
        number_limit_def digits_value_def)
  then show ?thesis
    using wizard_request_complete [OF sample_flow_facts(1), of sample_data] sample_flow_facts(2)
      wizard_request_complete [OF sample_zero_facts(1), of sample_zero_data] sample_zero_facts(2)
    by (simp add: sample_data_def sample_zero_data_def new_action_data_def)
qed

section \<open>Editing\<close>

text \<open>A decimal integer reads back.\<close>

lemma digits_not_special:
  assumes "list_all is_digit ds" and "ds \<noteq> []"
  shows "takeWhile is_digit ds = ds" and "dropWhile is_digit ds = []" and "js_trim ds = ds" and "split_sign ds = (False, ds)"
proof -
  have digits: "\<forall>c \<in> set ds. is_digit c" using assms(1) by (simp add: list_all_iff)
  then show "takeWhile is_digit ds = ds" "dropWhile is_digit ds = []" by simp_all
  have "is_digit (hd ds)" using digits assms(2) by simp
  then show "split_sign ds = (False, ds)" by (cases ds) (auto simp: split_sign_def)
  have "dropWhile is_space xs = xs" if "\<forall>c \<in> set xs. is_digit c" for xs
    using that by (cases xs) (simp_all add: is_digit_not_space)
  from this [of ds] this [of "rev ds"] digits show "js_trim ds = ds" by (simp add: js_trim_def)
qed

lemma decimal_number_digits:
  assumes "list_all is_digit ds" and "ds \<noteq> []"
  shows "decimal_number ds = whole (digits_value ds)"
  unfolding decimal_number_def Let_def digits_not_special(1,2) [OF assms] using assms by (simp add: scaled_def)

lemma js_number_int_to_string:
  assumes "\<bar>n\<bar> < number_limit"
  shows "js_number (int_to_string n) = Whole n"
proof -
  obtain ds where ds: "list_all is_digit ds" "ds \<noteq> []" "digits_value ds = \<bar>n\<bar>"
    and n: "int_to_string n = (if n < 0 then ''-'' else []) @ ds"
    using nat_to_string_digits [of "nat \<bar>n\<bar>"] by (auto simp: int_to_string_def)
  have trim: "js_trim (int_to_string n) = int_to_string n"
  proof (cases "n < 0")
    case True
    have "dropWhile is_space (rev ds @ ''-'') = rev ds @ ''-''"
      using ds(1,2) by (cases "rev ds") (auto simp: list_all_iff is_digit_not_space dest: is_digit_not_space)
    with True n show ?thesis by (simp add: js_trim_def)
  qed (use n digits_not_special(3) [OF ds(1,2)] in simp)
  have radix: "take 2 (int_to_string n) \<notin> {''0x'', ''0X'', ''0o'', ''0O'', ''0b'', ''0B''}"
  proof (cases "n < 0")
    case False
    have digits: "\<forall>c \<in> set (take 2 ds). is_digit c" using ds(1) by (auto simp: list_all_iff dest: in_set_takeD)
    have "take 2 ds \<noteq> [c, p]" if "\<not> is_digit p" for c p using digits that by auto
    with False n show ?thesis by (simp add: is_digit_def)
  qed (simp add: n)
  have sign: "split_sign (int_to_string n) = (n < 0, ds)"
    using digits_not_special(4) [OF ds(1,2)] unfolding n by (cases "n < 0") (simp_all add: split_sign_def)
  have "int_to_string n \<noteq> []" using ds(2) n by simp
  with trim radix sign decimal_number_digits [OF ds(1,2)] ds(3) assms show ?thesis
    by (simp add: js_number_def Let_def whole_def)
qed

lemma js_number_limit: "js_number s = Whole n \<Longrightarrow> \<bar>n\<bar> < number_limit"
proof -
  have whole: "whole m = Whole n \<Longrightarrow> \<bar>n\<bar> < number_limit" for m n by (auto simp: whole_def split: if_splits)
  have zero: "\<bar>0\<bar> < number_limit" by (simp add: number_limit_def)
  have scaled: "scaled m k = Whole n \<Longrightarrow> \<bar>n\<bar> < number_limit" for m k n
    by (auto simp: scaled_def split: if_splits dest: whole)
  have decimal: "decimal_number t = Whole n \<Longrightarrow> \<bar>n\<bar> < number_limit" for t n
    unfolding decimal_number_def Let_def by (auto split: if_splits prod.splits dest: scaled)
  have radix: "radix_value r ds = Whole n \<Longrightarrow> \<bar>n\<bar> < number_limit" for r ds n
    unfolding radix_value_def by (auto split: if_splits dest: whole)
  have neg: "negated r = Whole n \<Longrightarrow> r = Whole (- n)" for r n by (cases r) auto
  show "\<bar>n\<bar> < number_limit" if "js_number s = Whole n"
    using that zero unfolding js_number_def Let_def
    by (auto split: if_splits prod.splits dest: radix decimal dest!: neg)
qed

text \<open>What the listed action gives back is what was entered.\<close>

lemma edit_unchanged:
  assumes "acs_type a = wd_type d" and "acs_config a = Some (wizard_config d)" and "wd_type d \<in> set supported_types"
    and "wd_type d = HETZNER_CLOUD_FIREWALL_RULE_UPDATE_ACTION_TYPE \<Longrightarrow> firewall_number (wd_firewallId d) \<noteq> None"
  shows "wizard_config (toExistingAction a) = wizard_config d" and "wd_type (toExistingAction a) = wd_type d"
proof -
  show type: "wd_type (toExistingAction a) = wd_type d" by (simp add: toExistingAction_def Let_def assms(1))
  show "wizard_config (toExistingAction a) = wizard_config d"
    using assms(3)
  proof (cases rule: supported_type_cases)
    case firewall
    with assms(4) obtain n where n: "js_number (wd_firewallId d) = Whole n"
      by (auto simp: firewall_number_def split: js_numeral.splits)
    with firewall show ?thesis
      by (simp add: wizard_config_def toExistingAction_def assms(1,2) empty_config_def nullish_or_def nullish_def firewall_number_def
          js_number_int_to_string [OF js_number_limit [OF n]])
  qed (simp_all add: wizard_config_def toExistingAction_def assms(1,2) empty_config_def nullish_or_def nullish_def)
qed

lemma edit_families:
  assumes "acs_addressFamilies a = wizard_families d"
  shows "wizard_families (toExistingAction a) = wizard_families d"
  using assms by (simp add: wizard_families_def toExistingAction_def Let_def)

lemma attached_201:
  assumes "action_attach deps dr acc dev body b = (Json 201 reply, b')"
  obtains config b1 e b2 where "attach_config deps acc dev body b = (Inr config, b1)"
    and "commit deps (dr_tick dr) (stream acc ACTION (dr_id dr)) 0 (ActionEv (ActionAttached \<lparr>att_actionId = dr_id dr, att_accountId = acc,
      att_ipClientId = dev, att_type = the (ab_type body), att_addressFamilies = the (attach_families body), att_config = config,
      att_attachedAt = tk_now (dr_tick dr)\<rparr>)) b1 = (Inr e, b2)"
    and "bk_rows b' = bk_rows b2" and "nullish_or (attach_families body) [] \<noteq> []"
proof -
  from assms have checks: "ab_type body \<noteq> None" "the (ab_type body) \<in> set supported_types" "nullish_or (attach_families body) [] \<noteq> []"
    by (auto simp: action_attach_def unsupported_type_def split: option.splits if_splits)
  obtain res b1 where config: "attach_config deps acc dev body b = (res, b1)" by fastforce
  show ?thesis
  proof (cases res)
    case (Inl refusal)
    with assms config checks have "refusal = Json 201 reply" by (auto simp: action_attach_def)
    with attach_config_refusal [OF config [unfolded Inl]] show ?thesis by simp
  next
    case (Inr cf)
    let ?commit = "commit deps (dr_tick dr) (stream acc ACTION (dr_id dr)) 0 (ActionEv (ActionAttached \<lparr>att_actionId = dr_id dr,
      att_accountId = acc, att_ipClientId = dev, att_type = the (ab_type body), att_addressFamilies = the (attach_families body),
      att_config = cf, att_attachedAt = tk_now (dr_tick dr)\<rparr>)) b1"
    obtain r b2 where commit: "?commit = (r, b2)" by fastforce
    have run: "action_attach deps dr acc dev body b = proceed (r, b2) (\<lambda>e b. proceed (refresh_action deps acc (dr_id dr) b)
        (\<lambda>u b. (Json 201 (JObj [(''actionId'', JStr (dr_id dr))]),
          scheduleDelivery deps acc [Some (currentState (bk_rows b) acc (dr_id dr))] b)))"
      using checks commit by (cases "ab_type body") (simp_all add: action_attach_def config Inr Let_def)
    obtain e where e: "r = Inr e" using assms run by (cases r) simp_all
    have b': "b' = snd (proceed (refresh_action deps acc (dr_id dr) b2) (\<lambda>u b. (Json 201 (JObj [(''actionId'', JStr (dr_id dr))]),
        scheduleDelivery deps acc [Some (currentState (bk_rows b) acc (dr_id dr))] b)))"
      unfolding proceed_simps(2) [symmetric, of "\<lambda>e b. proceed (refresh_action deps acc (dr_id dr) b) _" e b2] run [unfolded e, symmetric] assms by simp
    have "bk_rows b' = bk_rows b2" unfolding b' by (rule refresh_action_proceed_rows) simp
    from that [OF config [unfolded Inr] commit [unfolded e] this checks(3)] show ?thesis .
  qed
qed

lemma attach_config_wizard:
  assumes "attach_config deps acc dev \<lparr>ab_type = Some (wd_type d), ab_addressFamilies = fs, ab_config = Some (wizard_config d)\<rparr> b = (Inr config, b1)"
    and "wd_type d \<in> set supported_types"
  shows "config = wizard_config d \<and>
    (wd_type d = HETZNER_CLOUD_FIREWALL_RULE_UPDATE_ACTION_TYPE \<longrightarrow> firewall_number (wd_firewallId d) \<noteq> None)"
  using assms(2)
proof (cases rule: supported_type_cases)
  case delivery
  with assms(1) have "validateDeliveryConfig deps (bk_rows b) acc dev (Some (wizard_config d)) None = Inr config"
    by (auto simp: attach_config_def attach_delivery_def Let_def split: if_splits)
  with delivery show ?thesis
    by (auto simp: validateDeliveryConfig_def wizard_config_def nullish_or_def Let_def split: if_splits option.splits)
next
  case dns
  with assms(1) show ?thesis by (auto simp: attach_config_def attach_dns_def split: if_splits sum.splits option.splits)
next
  case firewall
  with assms(1) have "config = wizard_config d \<and> firewall_config_complete (Some (wizard_config d))"
    by (auto simp: attach_config_def attach_firewall_def split: if_splits sum.splits option.splits prod.splits)
  with firewall show ?thesis
    by (cases "firewall_number (wd_firewallId d)")
      (simp_all add: firewall_config_complete_def firewall_target_complete_def wizard_config_def nullish_or_def)
qed

text \<open>C22. An action attached by the flow, listed and opened for editing, gives back the configuration and the families that
  were entered: saving it unchanged sends the same request again.\<close>

theorem attached_action_edits_back:
  assumes "wf_store (bk_rows b)" and "undisturbed deps" and "dr_id dr \<noteq> []" and "ipClientId \<noteq> []" and "wd_type d \<in> set supported_types"
    and "action_route deps dr acc (wizard_request ipClientId None d) b = (Json 201 reply, b')"
  shows "\<exists>a. action_summary (currentState (bk_rows b') acc (dr_id dr)) = Some a \<and> acs_ipClientId a = ipClientId
    \<and> wd_type (toExistingAction a) = wd_type d \<and> wizard_config (toExistingAction a) = wizard_config d
    \<and> wizard_families (toExistingAction a) = (if wd_type d = TRAEFIK_CONFIG_DELIVERY_ACTION_TYPE then [IPv4, IPv6] else wizard_families d)"
proof -
  let ?body = "\<lparr>ab_type = Some (wd_type d), ab_addressFamilies = Some (wizard_families d), ab_config = Some (wizard_config d)\<rparr>"
  let ?families = "the (attach_families ?body)"
  from assms(6) have "action_attach deps dr acc ipClientId ?body b = (Json 201 reply, b')" by (simp add: wizard_request_def)
  then obtain config b1 e b2 where config: "attach_config deps acc ipClientId ?body b = (Inr config, b1)"
    and commit: "commit deps (dr_tick dr) (stream acc ACTION (dr_id dr)) 0 (ActionEv (ActionAttached \<lparr>att_actionId = dr_id dr, att_accountId = acc,
      att_ipClientId = ipClientId, att_type = wd_type d, att_addressFamilies = ?families, att_config = config,
      att_attachedAt = tk_now (dr_tick dr)\<rparr>)) b1 = (Inr e, b2)"
    and rows: "bk_rows b' = bk_rows b2" by (rule attached_201) simp
  have b1: "bk_rows b1 = bk_rows b" using attach_config_rows [of deps acc ipClientId ?body b] config by simp
  note created = create_undisturbed [OF assms(1) [folded b1] assms(2) commit]
  have empty: "replay initialActionState action_apply (bk_rows b1) (stream acc ACTION (dr_id dr)) = initialActionState"
    using created(1) by (simp add: replay_def)
  have state: "currentState (bk_rows b') acc (dr_id dr) = initialActionState\<lparr>ac_actionId := Some (dr_id dr), ac_accountId := Some acc,
      ac_ipClientId := Some ipClientId, ac_type := Some (wd_type d), ac_addressFamilies := ?families, ac_config := Some config, ac_status := ActEnabled\<rparr>"
    unfolding currentState_def replay_loads(2) rows replay_wrote(1) [OF assms(1) [folded b1] created(3,2)] empty by simp
  note entered = attach_config_wizard [OF config assms(5)]
  have "wd_type d \<noteq> []" using assms(5) by (cases rule: supported_type_cases)
    (simp_all add: TRAEFIK_CONFIG_DELIVERY_ACTION_TYPE_def HETZNER_CLOUD_DNS_UPDATE_ACTION_TYPE_def HETZNER_CLOUD_FIREWALL_RULE_UPDATE_ACTION_TYPE_def)
  then obtain a where a: "action_summary (currentState (bk_rows b') acc (dr_id dr)) = Some a"
    and fields: "acs_ipClientId a = ipClientId" "acs_type a = wd_type d" "acs_config a = Some (wizard_config d)" "acs_addressFamilies a = ?families"
    using assms(3,4) entered by (simp add: action_summary_def state)
  note again = edit_unchanged [OF fields(2,3) assms(5)]
  have "wizard_families (toExistingAction a) = (if wd_type d = TRAEFIK_CONFIG_DELIVERY_ACTION_TYPE then [IPv4, IPv6] else wizard_families d)"
    using fields(4) edit_families [of a d] by (simp add: attach_families_def wizard_families_def toExistingAction_def Let_def)
  with a fields(1) again entered show ?thesis by blast
qed

definition sample_edit_rows :: event_store where
  "sample_edit_rows = sample_provider_rows @ [sample_row ''h1'' ''acc'' ''d'' 1 (IpClientEv (IpClientRegistered
     \<lparr>icr_ipClientId = ''d'', icr_accountId = ''acc'', icr_label = ''home'', icr_credentialHash = [], icr_registeredAt = 0\<rparr>))]"

definition sample_delivery_data :: ActionWizardData where
  "sample_delivery_data = new_action_data\<lparr>wd_type := TRAEFIK_CONFIG_DELIVERY_ACTION_TYPE, wd_traefikProviderId := ''p'', wd_group := '' web''\<rparr>"

lemma sample_delivery_data_facts:
  "wd_type sample_delivery_data = TRAEFIK_CONFIG_DELIVERY_ACTION_TYPE" "wizard_families sample_delivery_data = [IPv4]"
  by (simp_all add: sample_delivery_data_def wizard_families_def new_action_data_def)

lemma sample_edit_attach:
  "attach_config sample_routes ''acc'' ''d'' \<lparr>ab_type = Some (wd_type sample_delivery_data), ab_addressFamilies = fs,
     ab_config = Some (wizard_config sample_delivery_data)\<rparr> (sample_backend sample_edit_rows)
   = (Inr (wizard_config sample_delivery_data), sample_backend sample_edit_rows)"
proof -
  have device: "fst (loadIpClient sample_edit_rows ''acc'' ''d'') = initialIpClientState\<lparr>ic_ipClientId := Some ''d'',
      ic_accountId := Some ''acc'', ic_label := ''home'', ic_credentialHash := Some [], ic_status := IcEnabled\<rparr>"
    by (simp add: load_defs readStream_def in_stream_def sample_edit_rows_def sample_provider_rows_def ipClientReducer_def initialIpClientState_def)
  have actions: "listDeliveryActions sample_edit_rows ''acc'' = []"
    by (simp add: listDeliveryActions_def listAggregateIds_def sample_edit_rows_def sample_provider_rows_def List.map_filter_simps uniq_def)
  have "readStream sample_edit_rows (stream ''acc'' TRAEFIK_PROVIDER ''p'') = readStream sample_provider_rows (stream ''acc'' TRAEFIK_PROVIDER ''p'')"
    by (simp add: readStream_def in_stream_def sample_edit_rows_def sample_provider_rows_def)
  then have provider: "provider_loadActive sample_edit_rows ''acc'' ''p'' \<noteq> None"
    using sample_provider_state by (simp add: provider_loadActive_def provider_load_simps initialTraefikProviderState_def Let_def)
  have group: "js_trim '' web'' = ''web''" "js_trim ''web'' = ''web''" "GROUP_PATTERN ''web''"
    by (simp_all add: js_trim_def is_space_def GROUP_PATTERN_def group_start_def)
  have config: "wizard_config sample_delivery_data = empty_config\<lparr>cf_traefikProviderId := Some ''p'', cf_group := Some ''web''\<rparr>"
    by (simp add: wizard_config_def sample_delivery_data_def group)
  show ?thesis
    unfolding config using provider
    by (auto simp: attach_config_def attach_delivery_def device validateDeliveryConfig_def delivery_clash_def actions group Let_def
        nullish_or_def sample_delivery_data_facts sample_routes_def empty_config_def initialIpClientState_def split: option.split)
qed

theorem attached_action_edits_back_witness:
  "\<exists>reply b' a. action_route sample_routes sample_drawn ''acc'' (wizard_request ''d'' None sample_delivery_data) (sample_backend sample_edit_rows)
      = (Json 201 reply, b')
    \<and> action_summary (currentState (bk_rows b') ''acc'' ''n'') = Some a
    \<and> wizard_config (toExistingAction a) = wizard_config sample_delivery_data"
proof -
  let ?b = "sample_backend sample_edit_rows"
  have wf: "wf_store sample_edit_rows"
    by (auto simp: wf_store_def aggregate_rows_def sample_edit_rows_def sample_provider_rows_def Let_def)
  have id: "dr_id sample_drawn = ''n''" by (simp add: sample_drawn_def)
  have type: "wd_type sample_delivery_data \<in> set supported_types" by (simp add: sample_delivery_data_def supported_types_def)
  have "aggregate_rows sample_edit_rows ACTION ''n'' = []" by (simp add: aggregate_rows_def sample_edit_rows_def sample_provider_rows_def)
  moreover from this have "readStream sample_edit_rows (stream ''acc'' ACTION ''n'') = []"
    by (simp add: readStream_wf(1) [OF wf] filter_in_stream)
  moreover have "tk_id (dr_tick sample_drawn) \<notin> ev_id ` set sample_edit_rows"
    by (simp add: sample_drawn_def sample_edit_rows_def sample_provider_rows_def)
  ultimately have commit: "\<exists>e. commit sample_routes (dr_tick sample_drawn) (stream ''acc'' ACTION ''n'') 0 x ?b = (Inr e, ?b\<lparr>bk_rows := sample_edit_rows @ [e]\<rparr>)" for x
    using commit_alone [of ?b sample_routes "dr_tick sample_drawn" ACTION "''n''" "''acc''" 0 x] wf by simp
  have created: "\<exists>reply b'. proceed (commit sample_routes (dr_tick sample_drawn) (stream ''acc'' ACTION ''n'') 0 x ?b)
      (\<lambda>e b. proceed (refresh_action sample_routes ''acc'' ''n'' b) (\<lambda>u b. (Json 201 r, f b))) = (Json 201 reply, b')" for x r f
    using commit [of x] by (auto simp: refresh_action_def Let_def)
  have "\<exists>reply b'. action_route sample_routes sample_drawn ''acc'' (wizard_request ''d'' None sample_delivery_data) ?b = (Json 201 reply, b')"
    using type created by (simp add: wizard_request_def action_attach_def sample_edit_attach [unfolded sample_delivery_data_facts] Let_def id
      attach_families_def sample_delivery_data_facts)
  then obtain reply b' where run: "action_route sample_routes sample_drawn ''acc'' (wizard_request ''d'' None sample_delivery_data) ?b = (Json 201 reply, b')"
    by blast
  have "wf_store (bk_rows ?b)" using wf by simp
  from attached_action_edits_back [OF this _ _ _ type run] id run show ?thesis by fastforce
qed

section \<open>Where the two ends disagree\<close>

text \<open>Leaving \<open>tcp\<close> or \<open>udp\<close> for a protocol without ports keeps the port, whose field is then hidden; it is sent.\<close>

lemma hidden_port_sent:
  assumes "wd_type d = HETZNER_CLOUD_FIREWALL_RULE_UPDATE_ACTION_TYPE" and "port_applies d" and "js_trim (wd_port d) \<noteq> []"
    and "v \<notin> {''tcp'', ''udp''}"
  shows "\<not> port_applies (choose_protocol v d)" and "cf_port (wizard_config (choose_protocol v d)) = Some (wd_port d)"
  using assms by (auto simp: choose_protocol_def port_applies_def wizard_config_def)

text \<open>
  An edit may choose another type, which the request does not carry: a DNS action then stores the configuration of
  a firewall rule, without zone or record.
\<close>

lemma edit_stores_other_shape:
  assumes "loadOwnedAction (bk_rows b) acc i = Some (st, n)" and "ac_type st = Some HETZNER_CLOUD_DNS_UPDATE_ACTION_TYPE"
    and "wd_type d = HETZNER_CLOUD_FIREWALL_RULE_UPDATE_ACTION_TYPE" and "target_valid d"
    and "loadOwnedActiveCredential deps (bk_rows b) acc (Some (wd_providerCredentialId d)) = Inr (Some tok)"
  shows "reconfigure_config deps acc i st (Some (wizard_config d)) b = (Inr (Some (wizard_config d)), b)"
    and "cf_zone (wizard_config d) = None" and "cf_recordName (wizard_config d) = None"
  using assms by (auto simp: reconfigure_config_def wizard_config_def hasProviderCredential_def target_valid_def empty_config_def)

end
