(* ===== verification/WebClient.thy ===== *)
theory WebClient
  imports Json Config Delivery "HOL-Library.Multiset"
begin

text \<open>
  What every page of the web interface rests on (\<open>src/frontend/src\<close>): the runtime configuration (\<open>config.ts\<close>), the
  sign-in state (\<open>services/auth.ts\<close>, \<open>ProtectedLayout.tsx\<close>), the fetch client (\<open>services/api.ts\<close>), the messages for
  errors (\<open>lib/errors.ts\<close>), labels (\<open>lib/traefik-providers.ts\<close>, \<open>lib/credential-types.ts\<close>), the breadcrumbs
  (\<open>lib/breadcrumbs.ts\<close>) and the gate in front of the pages (\<open>lib/onboarding-state.ts\<close>, \<open>OnboardingGate.tsx\<close>).

  \<open>fetch\<close> is a function on the state of whatever answers; \<open>JSON.parse\<close> and \<open>decodeURIComponent\<close> are arguments.
\<close>

section \<open>Configuration\<close>

definition resolveValue :: "string option \<Rightarrow> string option \<Rightarrow> string" where
  "resolveValue runtimeValue buildTimeValue =
     (if truthy runtimeValue then the runtimeValue else if truthy buildTimeValue then the buildTimeValue else [])"

text \<open>\<open>window.__ENV__\<close>, absent in development, and \<open>import.meta.env\<close>.\<close>

record web_env =
  we_window :: "env option"
  we_build :: env

definition setting :: "web_env \<Rightarrow> string \<Rightarrow> string" where
  "setting we name = resolveValue (Option.bind (we_window we) (\<lambda>w. w name)) (we_build we (''VITE_'' @ name))"

definition getLogtoEndpoint :: "web_env \<Rightarrow> string" where "getLogtoEndpoint we = setting we ''LOGTO_ENDPOINT''"
definition getLogtoAppId :: "web_env \<Rightarrow> string" where "getLogtoAppId we = setting we ''LOGTO_APP_ID''"
definition getLogtoApiResource :: "web_env \<Rightarrow> string" where "getLogtoApiResource we = setting we ''LOGTO_API_RESOURCE''"
definition getBackendUrl :: "web_env \<Rightarrow> string" where "getBackendUrl we = setting we ''BACKEND_URL''"

section \<open>Sign-in\<close>

datatype AuthStatus = AuthLoading | AuthAuthenticated | AuthUnauthenticated

text \<open>Each operation with what the SDK's call ended with; a rejected call leaves the status alone.\<close>

definition refreshAuthState :: "exn + bool \<Rightarrow> AuthStatus \<Rightarrow> (exn + unit) \<times> AuthStatus" where
  "refreshAuthState isAuthenticated status = (case isAuthenticated of
       Inl err \<Rightarrow> (Inl err, status)
     | Inr b \<Rightarrow> (Inr (), if b then AuthAuthenticated else AuthUnauthenticated))"

definition signOut :: "exn + unit \<Rightarrow> AuthStatus \<Rightarrow> (exn + unit) \<times> AuthStatus" where
  "signOut sdk status = (case sdk of Inl err \<Rightarrow> (Inl err, status) | Inr u \<Rightarrow> (Inr (), AuthUnauthenticated))"

definition handleSignInCallback :: "exn + unit \<Rightarrow> exn + bool \<Rightarrow> AuthStatus \<Rightarrow> (exn + unit) \<times> AuthStatus" where
  "handleSignInCallback sdk isAuthenticated status = (case sdk of
       Inl err \<Rightarrow> (Inl err, status)
     | Inr u \<Rightarrow> refreshAuthState isAuthenticated status)"

definition getAccessToken :: "exn + string \<Rightarrow> string option" where
  "getAccessToken sdk = (case sdk of Inl err \<Rightarrow> None | Inr token \<Rightarrow> Some token)"

datatype protected_view = ViewSpinner | ViewApp | ViewLogin

definition ProtectedLayout :: "AuthStatus \<Rightarrow> protected_view" where
  "ProtectedLayout status = (case status of AuthLoading \<Rightarrow> ViewSpinner | AuthAuthenticated \<Rightarrow> ViewApp | AuthUnauthenticated \<Rightarrow> ViewLogin)"

section \<open>Requests\<close>

record web_call =
  wc_url :: string
  wc_method :: string
  wc_headers :: "(string \<times> string) list"
  wc_body :: "string option"

text \<open>\<open>NoConnection\<close> is the \<open>TypeError\<close> of a request that never reached the server.\<close>

datatype web_answer = NoConnection string | Answered nat string string

datatype web_error = ApiError nat string | TypeErr string | OtherErr string

record 's browser =
  br_env :: web_env
  br_token :: "exn + string"
  br_fetch :: "web_call \<Rightarrow> 's \<Rightarrow> web_answer \<times> 's"
  br_parse :: "string \<Rightarrow> string + json"

fun falsy_json :: "json \<Rightarrow> bool" where
  "falsy_json JNull = True"
| "falsy_json (JBool b) = (\<not> b)"
| "falsy_json (JNum n) = (n = 0)"
| "falsy_json (JStr s) = (s = [])"
| "falsy_json _ = False"

text \<open>\<open>body ? JSON.stringify(body) : undefined\<close>\<close>

definition body_text :: "json option \<Rightarrow> string option" where
  "body_text body = (case body of None \<Rightarrow> None | Some j \<Rightarrow> if falsy_json j then None else Some (json_stringify j))"

definition api_call :: "'s browser \<Rightarrow> string \<Rightarrow> string \<Rightarrow> json option \<Rightarrow> web_call" where
  "api_call br method path body = \<lparr>wc_url = getBackendUrl (br_env br) @ ''/api'' @ path, wc_method = method,
     wc_headers = (''Content-Type'', ''application/json'')
       # (case getAccessToken (br_token br) of Some (t # ts) \<Rightarrow> [(''Authorization'', ''Bearer '' @ t # ts)] | _ \<Rightarrow> []),
     wc_body = body_text body\<rparr>"

text \<open>\<open>Inr None\<close> is \<open>undefined\<close>.\<close>

definition read_answer :: "(string \<Rightarrow> string + json) \<Rightarrow> web_answer \<Rightarrow> web_error + json option" where
  "read_answer parse answer = (case answer of
       NoConnection message \<Rightarrow> Inl (TypeErr message)
     | Answered status statusText body \<Rightarrow>
         if \<not> (200 \<le> status \<and> status \<le> 299) then Inl (ApiError status (or_default body statusText))
         else if status = 204 then Inr None
         else (case parse body of Inl message \<Rightarrow> Inl (OtherErr message) | Inr j \<Rightarrow> Inr (Some j)))"

definition api :: "'s browser \<Rightarrow> string \<Rightarrow> string \<Rightarrow> json option \<Rightarrow> 's \<Rightarrow> (web_error + json option) \<times> 's" where
  "api br method path body s = (case br_fetch br (api_call br method path body) s of
     (answer, s) \<Rightarrow> (read_answer (br_parse br) answer, s))"

section \<open>Messages\<close>

record ErrorMatch =
  em_status :: "nat option"
  em_errorBody :: "string option"
  em_message :: string

definition PASSWORD_FAILED :: string where
  "PASSWORD_FAILED = ''We couldn't update your password right now. Please try again in a moment.''"

definition CATALOG :: "ErrorMatch list" where
  "CATALOG = [
     \<lparr>em_status = Some 400, em_errorBody = Some ''newPassword must be at least 8 characters'',
      em_message = ''Your new password needs to be at least 8 characters.''\<rparr>,
     \<lparr>em_status = Some 422, em_errorBody = Some ''agent_public_url_not_configured'',
      em_message = ''This FluxIP deployment has no public agent address yet. Set BACKEND_AGENT_PUBLIC_URL on the backend (e.g. https://agents.example.com) and restart it.''\<rparr>,
     \<lparr>em_status = Some 409, em_errorBody = Some ''name_in_use'',
      em_message = ''You already have an agent with this name. Choose a different one.''\<rparr>,
     \<lparr>em_status = Some 409, em_errorBody = Some ''delivery_action_exists'',
      em_message = ''This device already delivers to that agent. Edit the existing action instead.''\<rparr>,
     \<lparr>em_status = Some 422, em_errorBody = Some ''invalid_group'',
      em_message = ''The group may only contain lowercase letters, digits, \".\", \"_\" or \"-\", and must start with a letter or digit.''\<rparr>,
     \<lparr>em_status = Some 502, em_errorBody = None, em_message = PASSWORD_FAILED\<rparr>]"

definition FALLBACK :: string where "FALLBACK = ''Something went wrong. Please try again.''"
definition NETWORK_FALLBACK :: string where "NETWORK_FALLBACK = ''We couldn't reach FluxIP. Check your connection and try again.''"

definition string_prop :: "json \<Rightarrow> string \<Rightarrow> string option" where
  "string_prop j k = (case json_prop j k of Some (JStr s) \<Rightarrow> Some s | _ \<Rightarrow> None)"

definition parseErrorBody :: "(string \<Rightarrow> string + json) \<Rightarrow> string \<Rightarrow> string option" where
  "parseErrorBody parse raw = (case parse raw of Inl e \<Rightarrow> None | Inr j \<Rightarrow> string_prop j ''error'')"

definition catalog_match :: "nat \<Rightarrow> string option \<Rightarrow> ErrorMatch \<Rightarrow> bool" where
  "catalog_match status errorBody entry = ((em_status entry = None \<or> em_status entry = Some status)
     \<and> (em_errorBody entry = None \<or> em_errorBody entry = errorBody))"

definition toUserMessage :: "(string \<Rightarrow> string + json) \<Rightarrow> web_error \<Rightarrow> string" where
  "toUserMessage parse err = (case err of
       ApiError status message \<Rightarrow> (case find (catalog_match status (parseErrorBody parse message)) CATALOG of
           Some entry \<Rightarrow> em_message entry
         | None \<Rightarrow> FALLBACK)
     | TypeErr message \<Rightarrow> NETWORK_FALLBACK
     | OtherErr message \<Rightarrow> FALLBACK)"

text \<open>\<open>null\<close> and the JSON value \<open>null\<close> are not told apart: no caller does.\<close>

definition parseApiError :: "(string \<Rightarrow> string + json) \<Rightarrow> web_error \<Rightarrow> nat option \<Rightarrow> json option" where
  "parseApiError parse err status = (case err of
       ApiError st message \<Rightarrow> if status \<noteq> None \<and> status \<noteq> Some st then None
         else (case parse message of Inl e \<Rightarrow> None | Inr j \<Rightarrow> if j = JNull then None else Some j)
     | _ \<Rightarrow> None)"

section \<open>Labels\<close>

fun STATE_LABEL :: "connection_state \<Rightarrow> string" where
  "STATE_LABEL NeverConnected = ''Never connected''"
| "STATE_LABEL Connected = ''Connected''"
| "STATE_LABEL Disconnected = ''Disconnected''"
| "STATE_LABEL Stale = ''Stale''"

fun STATE_HINT :: "connection_state \<Rightarrow> string" where
  "STATE_HINT NeverConnected = ''No agent has connected yet.''"
| "STATE_HINT Connected = ''The agent is online.''"
| "STATE_HINT Disconnected = ''The agent is offline. Its files stay as they were.''"
| "STATE_HINT Stale = ''The agent has been offline longer than its maximum offline duration and now uses fallback data.''"

fun DELIVERY_LABEL :: "delivery_status \<Rightarrow> string" where
  "DELIVERY_LABEL DsApplied = ''Applied''"
| "DELIVERY_LABEL DsPending = ''Pending''"
| "DELIVERY_LABEL DsError = ''Failed''"
| "DELIVERY_LABEL DsAgentDisconnected = ''Agent disconnected''"
| "DELIVERY_LABEL DsDisabled = ''Disabled''"

definition notice_label :: "string \<Rightarrow> string" where
  "notice_label notice = (if notice = ''previous_session_superseded''
     then ''A second agent connected with the same credentials; the first one was disconnected.'' else notice)"

definition credentialTypeLabel :: "string \<Rightarrow> string" where
  "credentialTypeLabel provider = (if provider = ''hetzner'' then ''Hetzner API Token'' else provider)"

definition formatVersion :: "string \<Rightarrow> string" where
  "formatVersion version = (case version of [] \<Rightarrow> version | c # cs \<Rightarrow> if is_digit c then CHR ''v'' # version else version)"

section \<open>Breadcrumbs\<close>

record BreadcrumbSegment =
  bc_label :: "string option"
  bc_href :: "string option"

abbreviation crumb :: "string \<Rightarrow> BreadcrumbSegment" where
  "crumb label \<equiv> \<lparr>bc_label = Some label, bc_href = None\<rparr>"

abbreviation linked :: "string option \<Rightarrow> string \<Rightarrow> BreadcrumbSegment" where
  "linked label href \<equiv> \<lparr>bc_label = label, bc_href = Some href\<rparr>"

datatype trail = PlainTrail string | DeviceTrail string | ExecutionTrail

definition ROUTES :: "(string \<times> trail) list" where
  "ROUTES = [(''/'', PlainTrail ''Devices''), (''/ip-clients'', PlainTrail ''Devices''),
     (''/ip-clients/:ipClientId/actions'', DeviceTrail ''Actions''), (''/ip-clients/:ipClientId/history'', DeviceTrail ''History''),
     (''/ip-clients/:ipClientId/settings'', DeviceTrail ''Settings''), (''/actions/:actionId/executions'', ExecutionTrail),
     (''/credentials'', PlainTrail ''Credentials''), (''/agents'', PlainTrail ''Agents''),
     (''/notifications'', PlainTrail ''Notifications''), (''/account'', PlainTrail ''Account'')]"

text \<open>
  The regular expression of a pattern is anchored, escapes the literal segments and has \<open>([^/]+)\<close> for a parameter,
  which cannot match a slash: it matches segment by segment.
\<close>

fun match_segments :: "string list \<Rightarrow> string list \<Rightarrow> (string \<times> string) list option" where
  "match_segments [] [] = Some []"
| "match_segments (p # ps) (s # ss) =
     (if p \<noteq> [] \<and> hd p = CHR '':'' then (if s = [] then None else map_option (\<lambda>ms. (tl p, s) # ms) (match_segments ps ss))
      else if p = s then match_segments ps ss else None)"
| "match_segments _ _ = None"

definition pattern_match :: "string \<Rightarrow> string \<Rightarrow> (string \<times> string) list option" where
  "pattern_match pattern pathname = match_segments (split_char CHR ''/'' pattern) (split_char CHR ''/'' pathname)"

fun decode_params :: "(string \<Rightarrow> exn + string) \<Rightarrow> (string \<times> string) list \<Rightarrow> exn + (string \<times> string) list" where
  "decode_params decode [] = Inr []"
| "decode_params decode ((name, v) # ms) = (case decode v of
       Inl err \<Rightarrow> Inl err
     | Inr d \<Rightarrow> map_sum id (\<lambda>ps. (name, d) # ps) (decode_params decode ms))"

fun match_route :: "(string \<Rightarrow> exn + string) \<Rightarrow> (string \<times> trail) list \<Rightarrow> string \<Rightarrow> exn + (trail \<times> (string \<times> string) list) option" where
  "match_route decode [] pathname = Inr None"
| "match_route decode ((pattern, trail) # routes) pathname = (case pattern_match pattern pathname of
       None \<Rightarrow> match_route decode routes pathname
     | Some ms \<Rightarrow> map_sum id (\<lambda>ps. Some (trail, ps)) (decode_params decode ms))"

definition matchRoute :: "(string \<Rightarrow> exn + string) \<Rightarrow> string \<Rightarrow> exn + (trail \<times> (string \<times> string) list) option" where
  "matchRoute decode pathname = match_route decode ROUTES pathname"

text \<open>\<open>None\<close>: it threw. The inner option is the label, which may be missing.\<close>

definition fetchDeviceLabel :: "'s browser \<Rightarrow> string \<Rightarrow> 's \<Rightarrow> string option option \<times> 's" where
  "fetchDeviceLabel br ipClientId s = (case api br ''GET'' (''/ip-clients/'' @ ipClientId) None s of
       (Inr (Some found), s) \<Rightarrow> ((if found = JNull then None else Some (string_prop found ''label'')), s)
     | (_, s) \<Rightarrow> (None, s))"

definition actions_href :: "string \<Rightarrow> string" where
  "actions_href ipClientId = ''/ip-clients/'' @ ipClientId @ ''/actions''"

definition deviceCrumbs :: "'s browser \<Rightarrow> string \<Rightarrow> string \<Rightarrow> 's \<Rightarrow> BreadcrumbSegment list \<times> 's" where
  "deviceCrumbs br trail_end ipClientId s = (case fetchDeviceLabel br ipClientId s of
       (label, s) \<Rightarrow> ([linked (Some ''Devices'') ''/ip-clients'', linked (nullish_or label (Some ipClientId)) (actions_href ipClientId),
          crumb trail_end], s))"

definition first_ip_client :: "json \<Rightarrow> string option" where
  "first_ip_client j = (case json_prop j ''items'' of Some (JArr (x # xs)) \<Rightarrow> string_prop x ''ipClientId'' | _ \<Rightarrow> None)"

definition executionCrumbs :: "'s browser \<Rightarrow> string \<Rightarrow> 's \<Rightarrow> BreadcrumbSegment list \<times> 's" where
  "executionCrumbs br actionId s =
     (let unknown = [linked (Some ''Devices'') ''/ip-clients'', crumb ''Update history''] in
      case api br ''GET'' (''/actions/'' @ actionId @ ''/executions'') None s of
        (Inr (Some j), s) \<Rightarrow>
          (if \<not> truthy (first_ip_client j) then (unknown, s)
           else (case fetchDeviceLabel br (the (first_ip_client j)) s of
               (None, s) \<Rightarrow> (unknown, s)
             | (Some label, s) \<Rightarrow> ([linked (Some ''Devices'') ''/ip-clients'', linked label (actions_href (the (first_ip_client j))),
                 crumb ''Update history''], s)))
      | (_, s) \<Rightarrow> (unknown, s))"

definition resolveBreadcrumbs :: "'s browser \<Rightarrow> (string \<Rightarrow> exn + string) \<Rightarrow> string \<Rightarrow> 's \<Rightarrow> (exn + BreadcrumbSegment list) \<times> 's" where
  "resolveBreadcrumbs br decode pathname s = (case matchRoute decode pathname of
       Inl err \<Rightarrow> (Inl err, s)
     | Inr None \<Rightarrow> (Inr [], s)
     | Inr (Some (PlainTrail label, ps)) \<Rightarrow> (Inr [crumb label], s)
     | Inr (Some (DeviceTrail trail_end, ps)) \<Rightarrow>
         (case deviceCrumbs br trail_end (nullish_or (map_of ps ''ipClientId'') ''undefined'') s of (cs, s) \<Rightarrow> (Inr cs, s))
     | Inr (Some (ExecutionTrail, ps)) \<Rightarrow>
         (case executionCrumbs br (nullish_or (map_of ps ''actionId'') ''undefined'') s of (cs, s) \<Rightarrow> (Inr cs, s)))"

text \<open>The pages behind \<open>ProtectedLayout\<close> (\<open>App.tsx\<close>), nested paths joined.\<close>

definition app_routes :: "string list" where
  "app_routes = [''/'', ''/ip-clients'', ''/ip-clients/:ipClientId/actions'', ''/ip-clients/:ipClientId/history'',
     ''/ip-clients/:ipClientId/settings'', ''/actions/:actionId/executions'', ''/credentials'', ''/agents'', ''/notifications'', ''/account'']"

section \<open>Onboarding\<close>

text \<open>\<open>localStorage\<close>: what it holds, and whether reading and writing throw.\<close>

record local_storage =
  ls_items :: "string \<Rightarrow> string option"
  ls_readable :: bool
  ls_writable :: bool

definition storageKey :: "string \<Rightarrow> string" where
  "storageKey accountId = ''fluxip.onboarding.'' @ accountId @ ''.completed''"

definition hasCompletedOnboarding :: "local_storage \<Rightarrow> string \<Rightarrow> bool" where
  "hasCompletedOnboarding ls accountId = (if ls_readable ls then ls_items ls (storageKey accountId) = Some ''true'' else True)"

definition markOnboardingComplete :: "string \<Rightarrow> local_storage \<Rightarrow> local_storage" where
  "markOnboardingComplete accountId ls = (if ls_writable ls then ls\<lparr>ls_items := (ls_items ls)(storageKey accountId \<mapsto> ''true'')\<rparr> else ls)"

text \<open>A visit: the account once it was fetched, and whether the flow was dismissed.\<close>

record visit =
  vi_accountId :: "string option"
  vi_dismissedThisSession :: bool

definition shouldShowOnboarding :: "local_storage \<Rightarrow> visit \<Rightarrow> bool" where
  "shouldShowOnboarding ls v = (truthy (vi_accountId v) \<and> \<not> vi_dismissedThisSession v \<and> \<not> hasCompletedOnboarding ls (the (vi_accountId v)))"

definition onboarding_complete :: "local_storage \<times> visit \<Rightarrow> local_storage \<times> visit" where
  "onboarding_complete = (\<lambda>(ls, v). (markOnboardingComplete (nullish_or (vi_accountId v) ''undefined'') ls, v\<lparr>vi_dismissedThisSession := True\<rparr>))"

definition onboarding_cancel :: "local_storage \<times> visit \<Rightarrow> local_storage \<times> visit" where
  "onboarding_cancel = (\<lambda>(ls, v). (ls, v\<lparr>vi_dismissedThisSession := True\<rparr>))"

section \<open>Lemmas\<close>

text \<open>Two patterns that match one path agree wherever both are literal.\<close>

fun compatible :: "string list \<Rightarrow> string list \<Rightarrow> bool" where
  "compatible [] [] = True"
| "compatible (p # ps) (q # qs) = ((p \<noteq> [] \<and> hd p = CHR '':'' \<or> q \<noteq> [] \<and> hd q = CHR '':'' \<or> p = q) \<and> compatible ps qs)"
| "compatible _ _ = False"

lemma matching_compatible:
  "match_segments ps ss \<noteq> None \<Longrightarrow> match_segments qs ss \<noteq> None \<Longrightarrow> compatible ps qs"
proof (induction ps ss arbitrary: qs rule: match_segments.induct)
  case (2 p ps s ss)
  then obtain q qs' where qs: "qs = q # qs'" by (cases qs) auto
  with "2.prems" have "match_segments ps ss \<noteq> None" "match_segments qs' ss \<noteq> None" by (auto split: if_splits)
  with "2.IH" "2.prems" show ?case by (auto simp: qs split: if_splits)
next
  case (1 qs)
  then show ?case by (cases qs) auto
qed auto

lemma routes_distinct:
  "\<forall>r \<in> set ROUTES. \<forall>r' \<in> set ROUTES. compatible (split_char CHR ''/'' (fst r)) (split_char CHR ''/'' (fst r')) \<longrightarrow> r = r'"
  by code_simp

lemma match_unique:
  assumes "r \<in> set ROUTES" and "r' \<in> set ROUTES" and "pattern_match (fst r) path \<noteq> None" and "pattern_match (fst r') path \<noteq> None"
  shows "r = r'"
  using assms routes_distinct matching_compatible unfolding pattern_match_def by metis

lemma match_route_None: "\<forall>r \<in> set routes. pattern_match (fst r) path = None \<Longrightarrow> match_route decode routes path = Inr None"
  by (induction routes) auto

lemma match_route_only:
  assumes "set routes \<subseteq> set ROUTES" and "(pattern, trail) \<in> set routes" and "pattern_match pattern path = Some ms"
  shows "match_route decode routes path = map_sum id (\<lambda>ps. Some (trail, ps)) (decode_params decode ms)"
  using assms
proof (induction routes)
  case (Cons r routes)
  show ?case
  proof (cases "pattern_match (fst r) path")
    case None
    with Cons show ?thesis by (cases r) auto
  next
    case (Some ms')
    with match_unique [of r "(pattern, trail)" path] Cons.prems have "r = (pattern, trail)" by (cases r) auto
    with Cons.prems show ?thesis by (simp add: id_def)
  qed
qed simp

text \<open>The order of the table does not matter: at most one pattern matches a path.\<close>

theorem breadcrumb_order_irrelevant:
  assumes "mset routes = mset ROUTES"
  shows "match_route decode routes path = matchRoute decode path"
proof -
  have same: "set routes = set ROUTES" using assms by (rule mset_eq_setD)
  show ?thesis
  proof (cases "\<exists>r \<in> set ROUTES. pattern_match (fst r) path \<noteq> None")
    case True
    then obtain pattern trail ms where "(pattern, trail) \<in> set ROUTES" "pattern_match pattern path = Some ms" by fastforce
    with match_route_only [of routes] match_route_only [of ROUTES] same show ?thesis by (simp add: matchRoute_def)
  next
    case False
    with same show ?thesis by (simp add: matchRoute_def match_route_None)
  qed
qed

lemma every_page_has_a_trail: "set app_routes = fst ` set ROUTES"
  by (simp add: app_routes_def ROUTES_def)

text \<open>The link of a device leads to the route of its actions, with that device.\<close>

lemma split_no_slash: "CHR ''/'' \<notin> set s \<Longrightarrow> split_char CHR ''/'' (s @ CHR ''/'' # t) = s # split_char CHR ''/'' t"
  by (induction s) auto

lemma actions_link_back:
  assumes "ipClientId \<noteq> []" and "CHR ''/'' \<notin> set ipClientId" and "decode ipClientId = Inr d"
  shows "matchRoute decode (actions_href ipClientId) = Inr (Some (DeviceTrail ''Actions'', [(''ipClientId'', d)]))"
proof -
  have path: "split_char CHR ''/'' (actions_href ipClientId) = [[], ''ip-clients'', ipClientId, ''actions'']"
    using split_no_slash [OF assms(2), of "''actions''"] by (simp add: actions_href_def)
  have "pattern_match ''/ip-clients/:ipClientId/actions'' (actions_href ipClientId) = Some [(''ipClientId'', ipClientId)]"
    unfolding pattern_match_def path using assms(1) by simp
  moreover have "(''/ip-clients/:ipClientId/actions'', DeviceTrail ''Actions'') \<in> set ROUTES" by (simp add: ROUTES_def)
  ultimately show ?thesis using assms(3) match_route_only [of ROUTES] by (simp add: matchRoute_def)
qed

text \<open>A trail ends with the current page, which is no link; everything before it is one.\<close>

lemma trail_shape:
  assumes "resolveBreadcrumbs br decode path s = (Inr cs, s')" and "cs \<noteq> []"
  shows "bc_href (last cs) = None \<and> (\<forall>c \<in> set (butlast cs). bc_href c \<noteq> None)"
  using assms
  by (auto simp: resolveBreadcrumbs_def deviceCrumbs_def executionCrumbs_def Let_def
      split: sum.splits option.splits prod.splits trail.splits if_splits)

text \<open>Every failure is shown as one of a fixed set of messages.\<close>

lemma message_from_catalog: "toUserMessage parse err \<in> {FALLBACK, NETWORK_FALLBACK} \<union> em_message ` set CATALOG"
  by (auto simp: toUserMessage_def find_Some_iff split: web_error.split option.split)

text \<open>The entry for a failed password change asks for no error body: any answer 502 is shown as one, also that of a proxy.\<close>

lemma any_502_is_the_password: "toUserMessage parse (ApiError 502 message) = PASSWORD_FAILED"
  by (simp add: toUserMessage_def CATALOG_def catalog_match_def)

text \<open>The gate: a completed flow is not shown to that account again while the storage keeps its entries, and says nothing of others.\<close>

lemma storageKey_inject: "storageKey a = storageKey b \<longleftrightarrow> a = b"
  by (simp add: storageKey_def)

lemma onboarding_shown_once:
  assumes "ls_writable ls" and "onboarding_complete (ls, v) = (ls', v')" and "vi_accountId v = Some acc"
  shows "vi_accountId w = Some acc \<Longrightarrow> \<not> shouldShowOnboarding ls' w"
    and "vi_accountId w = Some other \<Longrightarrow> other \<noteq> acc \<Longrightarrow> shouldShowOnboarding ls' w = shouldShowOnboarding ls w"
    and "\<not> shouldShowOnboarding ls' v'"
  using assms by (auto simp: onboarding_complete_def markOnboardingComplete_def shouldShowOnboarding_def hasCompletedOnboarding_def storageKey_inject)

lemma cancel_shows_again:
  assumes "onboarding_cancel (ls, v) = (ls', v')"
  shows "ls' = ls" and "\<not> shouldShowOnboarding ls' v'" and "shouldShowOnboarding ls v \<Longrightarrow> shouldShowOnboarding ls' (v'\<lparr>vi_dismissedThisSession := False\<rparr>)"
  using assms by (auto simp: onboarding_cancel_def shouldShowOnboarding_def)

end
