(* ===== verification/WebPages.thy ===== *)
theory WebPages
  imports WebClient CredentialRoutes ProviderRoutes
begin

text \<open>
  The pages of the web interface, \<open>src/frontend/src/pages\<close>, and the form of a credential: what their handlers send and what the
  page shows afterwards. A handler is one function (its awaits are not interleaved with another handler of the page); \<open>confirm\<close>
  and \<open>prompt\<close> are arguments. Markup is not modelled.

  The state of the server is the backend's where a page is put together with a route: \<open>served_by\<close> says that requests on a path
  are answered by that route.
\<close>

section \<open>A page\<close>

text \<open>
  The signals the pages share: the error, what blocks a deletion, the answer of the last fetch of the list (\<open>None\<close>: still
  loading). \<open>refetch\<close> does not reject: a failure is in the resource.
\<close>

record page =
  pg_error :: "web_error option"
  pg_blockedBy :: "json option"
  pg_list :: "(web_error + json option) option"

definition refetch :: "'s browser \<Rightarrow> string \<Rightarrow> page \<Rightarrow> 's \<Rightarrow> page \<times> 's" where
  "refetch br path pg s = (case api br ''GET'' path None s of (r, s) \<Rightarrow> (pg\<lparr>pg_list := Some r\<rparr>, s))"

text \<open>The pattern of most handlers: clear the error, send, refetch; or keep the error.\<close>

definition send_and_refetch :: "'s browser \<Rightarrow> string \<Rightarrow> string \<Rightarrow> json option \<Rightarrow> string \<Rightarrow> page \<Rightarrow> 's \<Rightarrow> page \<times> 's" where
  "send_and_refetch br method path body list pg s = (case api br method path body s of
       (Inl err, s) \<Rightarrow> (pg\<lparr>pg_error := Some err\<rparr>, s)
     | (Inr r, s) \<Rightarrow> refetch br list (pg\<lparr>pg_error := None\<rparr>) s)"

section \<open>Credentials\<close>

definition parseBlockingActions :: "(string \<Rightarrow> string + json) \<Rightarrow> web_error \<Rightarrow> json option" where
  "parseBlockingActions parse err = (case err of
       ApiError status message \<Rightarrow>
         if status \<noteq> 409 then None
         else (case parse message of Inl e \<Rightarrow> None | Inr body \<Rightarrow>
           if string_prop body ''error'' = Some ''credential_in_use''
           then (case json_prop body ''usedBy'' of Some (JArr users) \<Rightarrow> Some (JArr users) | _ \<Rightarrow> None) else None)
     | _ \<Rightarrow> None)"

definition credential_delete :: "'s browser \<Rightarrow> bool \<Rightarrow> id \<Rightarrow> page \<Rightarrow> 's \<Rightarrow> page \<times> 's" where
  "credential_delete br confirmed credentialId pg s =
     (let pg = pg\<lparr>pg_error := None, pg_blockedBy := None\<rparr> in
      if \<not> confirmed then (pg, s)
      else (case api br ''DELETE'' (''/provider-credentials/'' @ credentialId) None s of
          (Inr r, s) \<Rightarrow> refetch br ''/provider-credentials'' pg s
        | (Inl err, s) \<Rightarrow> (case parseBlockingActions (br_parse br) err of
              Some usedBy \<Rightarrow> (pg\<lparr>pg_blockedBy := Some usedBy\<rparr>, s)
            | None \<Rightarrow> (pg\<lparr>pg_error := Some err\<rparr>, s))))"

text \<open>The text of one blocking action; an absent field renders as nothing.\<close>

definition blocking_text :: "json \<Rightarrow> string" where
  "blocking_text action = nullish_or (string_prop action ''recordName'') [] @ '' ('' @ nullish_or (string_prop action ''zone'') [] @ '')''"

text \<open>The form: \<open>handleSubmit\<close> up to its await, and what follows.\<close>

record credential_form =
  fm_provider :: string
  fm_label :: string
  fm_secret :: string
  fm_isSubmitting :: bool
  fm_error :: "web_error option"

definition form_start :: credential_form where
  "form_start = \<lparr>fm_provider = ''hetzner'', fm_label = [], fm_secret = [], fm_isSubmitting = False, fm_error = None\<rparr>"

definition form_reset :: "credential_form \<Rightarrow> credential_form" where
  "form_reset fm = fm\<lparr>fm_provider := ''hetzner'', fm_label := [], fm_secret := [], fm_error := None\<rparr>"

definition form_body :: "credential_form \<Rightarrow> credential_body" where
  "form_body fm = \<lparr>kb_provider = Some (fm_provider fm), kb_label = Some (js_trim (fm_label fm)), kb_secret = Some (fm_secret fm)\<rparr>"

definition form_submit :: "credential_form \<Rightarrow> credential_form \<times> credential_body option" where
  "form_submit fm = (if js_trim (fm_label fm) = [] \<or> js_trim (fm_secret fm) = [] \<or> fm_isSubmitting fm then (fm, None)
     else (fm\<lparr>fm_error := None, fm_isSubmitting := True\<rparr>, Some (form_body fm)))"

definition form_settled :: "web_error + json option \<Rightarrow> credential_form \<Rightarrow> credential_form" where
  "form_settled r fm = (case r of Inr created \<Rightarrow> (form_reset fm)\<lparr>fm_isSubmitting := False\<rparr>
     | Inl err \<Rightarrow> fm\<lparr>fm_error := Some err, fm_isSubmitting := False\<rparr>)"

section \<open>Agents\<close>

text \<open>\<open>guarded\<close> around an action; \<open>Inr False\<close> is an action that returned without sending anything (it refetches all the same).\<close>

definition guarded :: "'s browser \<Rightarrow> ('s \<Rightarrow> (web_error + 'r) \<times> 's) \<Rightarrow> page \<Rightarrow> 's \<Rightarrow> page \<times> 's" where
  "guarded br action pg s =
     (let pg = pg\<lparr>pg_error := None, pg_blockedBy := None\<rparr> in
      case action s of
        (Inr r, s) \<Rightarrow> refetch br ''/agents'' pg s
      | (Inl err, s) \<Rightarrow>
          (case parseApiError (br_parse br) err (Some 409) of
             Some body \<Rightarrow>
               if string_prop body ''error'' = Some ''traefik_provider_in_use'' \<and> json_prop body ''usedBy'' \<noteq> None
                 \<and> \<not> falsy_json (the (json_prop body ''usedBy''))
               then (pg\<lparr>pg_blockedBy := json_prop body ''usedBy''\<rparr>, s) else (pg\<lparr>pg_error := Some err\<rparr>, s)
           | None \<Rightarrow> (pg\<lparr>pg_error := Some err\<rparr>, s)))"

definition agent_path :: "id \<Rightarrow> string" where "agent_path providerId = ''/agents/'' @ providerId"

definition handleRename :: "'s browser \<Rightarrow> string option \<Rightarrow> id \<Rightarrow> string \<Rightarrow> page \<Rightarrow> 's \<Rightarrow> page \<times> 's" where
  "handleRename br prompted providerId name = guarded br (\<lambda>s.
     let new = map_option js_trim prompted in
     if \<not> truthy new \<or> new = Some name then (Inr None, s)
     else api br ''PATCH'' (agent_path providerId) (Some (JObj [(''name'', JStr (the new))])) s)"

definition handleDelete :: "'s browser \<Rightarrow> bool \<Rightarrow> id \<Rightarrow> page \<Rightarrow> 's \<Rightarrow> page \<times> 's" where
  "handleDelete br confirmed providerId = guarded br (\<lambda>s.
     if \<not> confirmed then (Inr None, s) else api br ''DELETE'' (agent_path providerId) None s)"

text \<open>The new token is kept to be shown once; the flag of the page is what \<open>newToken\<close> holds.\<close>

definition handleNewToken :: "'s browser \<Rightarrow> id \<Rightarrow> string \<Rightarrow> page \<times> (string \<times> json option) option \<Rightarrow> 's \<Rightarrow> (page \<times> (string \<times> json option) option) \<times> 's" where
  "handleNewToken br providerId name = (\<lambda>(pg, shown) s.
     case api br ''POST'' (agent_path providerId @ ''/tokens'') None s of (r, s') \<Rightarrow>
       (let r = (case r of Inr None \<Rightarrow> Inl (TypeErr ''value'') | _ \<Rightarrow> r) in
        case guarded br (\<lambda>_. (r, s')) pg s of (pg, s'') \<Rightarrow>
          ((pg, case r of Inr (Some j) \<Rightarrow> Some (name, json_prop j ''value'') | _ \<Rightarrow> shown), s'')))"

definition handleRevoke :: "'s browser \<Rightarrow> bool \<Rightarrow> id \<Rightarrow> id \<Rightarrow> page \<Rightarrow> 's \<Rightarrow> page \<times> 's" where
  "handleRevoke br confirmed providerId tokenId = guarded br (\<lambda>s.
     if \<not> confirmed then (Inr None, s) else api br ''DELETE'' (agent_path providerId @ ''/tokens/'' @ tokenId) None s)"

section \<open>Notifications\<close>

text \<open>\<open>Inr None\<close>: no channel. A rejected fetch leaves the resource in error.\<close>

definition fetchChannel :: "'s browser \<Rightarrow> 's \<Rightarrow> (web_error + json option) \<times> 's" where
  "fetchChannel br s = (case api br ''GET'' ''/notification-channel'' None s of
       (Inl (ApiError status message), s) \<Rightarrow> (if status = 404 then Inr None else Inl (ApiError status message), s)
     | (r, s) \<Rightarrow> (r, s))"

definition addressList :: "string \<Rightarrow> string list" where
  "addressList addresses = filter (\<lambda>a. length a > 0) (map js_trim (split_char CHR '','' addresses))"

record notification_page =
  np_channel :: "(web_error + json option) option"
  np_addresses :: string
  np_error :: "web_error option"

text \<open>\<open>channel()\<close> in a handler: the value, if there is one.\<close>

definition current_channel :: "notification_page \<Rightarrow> json option" where
  "current_channel pg = (case np_channel pg of Some (Inr (Some j)) \<Rightarrow> if falsy_json j then None else Some j | _ \<Rightarrow> None)"

definition handleSave :: "'s browser \<Rightarrow> notification_page \<Rightarrow> 's \<Rightarrow> notification_page \<times> 's" where
  "handleSave br pg s =
     (let addresses = JArr (map JStr (addressList (np_addresses pg)));
          pg = pg\<lparr>np_error := None\<rparr>
      in case (if current_channel pg \<noteq> None
            then api br ''PUT'' ''/notification-channel'' (Some (JObj [(''addresses'', addresses)])) s
            else api br ''POST'' ''/notification-channel'' (Some (JObj [(''type'', JStr ''email''), (''addresses'', addresses)])) s) of
          (Inl err, s) \<Rightarrow> (pg\<lparr>np_error := Some err\<rparr>, s)
        | (Inr r, s) \<Rightarrow> (case fetchChannel br s of (ch, s) \<Rightarrow> (pg\<lparr>np_addresses := [], np_channel := Some ch\<rparr>, s)))"

section \<open>One device, the account, a re-run\<close>

definition device_path :: "id \<Rightarrow> string" where "device_path ipClientId = ''/ip-clients/'' @ ipClientId"

definition handleToggle :: "'s browser \<Rightarrow> id \<Rightarrow> string \<Rightarrow> page \<Rightarrow> 's \<Rightarrow> page \<times> 's" where
  "handleToggle br ipClientId status =
     send_and_refetch br ''POST'' (device_path ipClientId @ (if status = ''enabled'' then ''/disable'' else ''/enable'')) None (device_path ipClientId)"

definition handleDecommission :: "'s browser \<Rightarrow> bool \<Rightarrow> id \<Rightarrow> page \<Rightarrow> 's \<Rightarrow> page \<times> 's" where
  "handleDecommission br confirmed ipClientId pg s =
     (if \<not> confirmed then (pg\<lparr>pg_error := None\<rparr>, s)
      else send_and_refetch br ''DELETE'' (device_path ipClientId) None (device_path ipClientId) pg s)"

text \<open>The rotated credential is shown once it was answered.\<close>

definition handleRotate :: "'s browser \<Rightarrow> bool \<Rightarrow> id \<Rightarrow> page \<times> json option \<Rightarrow> 's \<Rightarrow> (page \<times> json option) \<times> 's" where
  "handleRotate br confirmed ipClientId = (\<lambda>(pg, shown) s.
     let pg = pg\<lparr>pg_error := None\<rparr> in
     if \<not> confirmed then ((pg, shown), s)
     else (case api br ''POST'' (device_path ipClientId @ ''/rotate-credential'') None s of
         (Inl err, s) \<Rightarrow> ((pg\<lparr>pg_error := Some err\<rparr>, shown), s)
       | (Inr None, s) \<Rightarrow> ((pg\<lparr>pg_error := Some (TypeErr ''reportingCredential'')\<rparr>, shown), s)
       | (Inr (Some j), s) \<Rightarrow> ((pg, json_prop j ''reportingCredential''), s)))"

text \<open>\<open>handleDelete\<close> of the channel; \<open>refetchChannel\<close> does not touch the error.\<close>

definition channel_delete :: "'s browser \<Rightarrow> notification_page \<Rightarrow> 's \<Rightarrow> notification_page \<times> 's" where
  "channel_delete br pg s = (case api br ''DELETE'' ''/notification-channel'' None s of
       (Inl err, s) \<Rightarrow> (pg\<lparr>np_error := Some err\<rparr>, s)
     | (Inr r, s) \<Rightarrow> (case fetchChannel br s of (ch, s) \<Rightarrow> (pg\<lparr>np_error := None, np_channel := Some ch\<rparr>, s)))"

definition handlePreferenceChange :: "'s browser \<Rightarrow> id \<Rightarrow> string \<Rightarrow> page \<Rightarrow> 's \<Rightarrow> page \<times> 's" where
  "handlePreferenceChange br ipClientId preference =
     send_and_refetch br ''PUT'' (device_path ipClientId @ ''/notification-preference'') (Some (JObj [(''preference'', JStr preference)])) ''/ip-clients''"

record account_page =
  ap_newPassword :: string
  ap_passwordError :: "web_error option"
  ap_passwordSuccess :: bool
  ap_deleteError :: "web_error option"
  ap_left :: bool

definition handlePasswordChange :: "'s browser \<Rightarrow> account_page \<Rightarrow> 's \<Rightarrow> account_page \<times> 's" where
  "handlePasswordChange br pg s =
     (let pg = pg\<lparr>ap_passwordError := None, ap_passwordSuccess := False\<rparr> in
      case api br ''PUT'' ''/account/password'' (Some (JObj [(''newPassword'', JStr (ap_newPassword pg))])) s of
        (Inl err, s) \<Rightarrow> (pg\<lparr>ap_passwordError := Some err\<rparr>, s)
      | (Inr r, s) \<Rightarrow> (pg\<lparr>ap_newPassword := [], ap_passwordSuccess := True\<rparr>, s))"

definition handleDeleteAccount :: "'s browser \<Rightarrow> bool \<Rightarrow> account_page \<Rightarrow> 's \<Rightarrow> account_page \<times> 's" where
  "handleDeleteAccount br confirmed pg s =
     (let pg = pg\<lparr>ap_deleteError := None\<rparr> in
      if \<not> confirmed then (pg, s)
      else (case api br ''DELETE'' ''/account'' None s of
          (Inl err, s) \<Rightarrow> (pg\<lparr>ap_deleteError := Some err\<rparr>, s)
        | (Inr r, s) \<Rightarrow> (pg\<lparr>ap_left := True\<rparr>, s)))"

definition handleRerun :: "'s browser \<Rightarrow> id \<Rightarrow> page \<Rightarrow> 's \<Rightarrow> page \<times> 's" where
  "handleRerun br actionId =
     send_and_refetch br ''POST'' (''/actions/'' @ actionId @ ''/run'') None (''/actions/'' @ actionId @ ''/executions'')"

section \<open>The actions of a device\<close>

definition actions_path :: "id \<Rightarrow> string" where "actions_path ipClientId = ''/ip-clients/'' @ ipClientId @ ''/actions''"

definition action_toggle :: "'s browser \<Rightarrow> id \<Rightarrow> id \<Rightarrow> string \<Rightarrow> page \<Rightarrow> 's \<Rightarrow> page \<times> 's" where
  "action_toggle br ipClientId actionId status =
     send_and_refetch br ''POST'' (''/actions/'' @ actionId @ (if status = ''enabled'' then ''/disable'' else ''/enable'')) None (actions_path ipClientId)"

definition handleDetach :: "'s browser \<Rightarrow> bool \<Rightarrow> id \<Rightarrow> id \<Rightarrow> page \<Rightarrow> 's \<Rightarrow> page \<times> 's" where
  "handleDetach br confirmed ipClientId actionId pg s =
     (if \<not> confirmed then (pg\<lparr>pg_error := None\<rparr>, s)
      else send_and_refetch br ''DELETE'' (''/actions/'' @ actionId) None (actions_path ipClientId) pg s)"

section \<open>Pages and the routes behind them\<close>

text \<open>Hono's answer as \<open>fetch\<close> sees it; the status text is of no use to the pages.\<close>

fun answer_of :: "response \<Rightarrow> web_answer" where
  "answer_of (Json status j) = Answered status [] (json_stringify j)"
| "answer_of (Text status t) = Answered status [] t"
| "answer_of (NoBody status) = Answered status [] []"
| "answer_of (Thrown err) = Answered 500 [] ''Internal Server Error''"

definition served_by :: "'s browser \<Rightarrow> string \<Rightarrow> string \<Rightarrow> ('s \<Rightarrow> response \<times> 's) \<Rightarrow> bool" where
  "served_by br method path route = (\<forall>s. br_fetch br (api_call br method path None) s = (case route s of (r, s') \<Rightarrow> (answer_of r, s')))"

text \<open>\<open>JSON.parse\<close> reads back what \<open>JSON.stringify\<close> wrote.\<close>

definition reads_back :: "'s browser \<Rightarrow> json \<Rightarrow> bool" where
  "reads_back br j = (br_parse br (json_stringify j) = Inr j)"

lemma served_api:
  assumes "served_by br method path route"
  shows "api br method path None s = (read_answer (br_parse br) (answer_of (fst (route s))), snd (route s))"
  using assms by (simp add: served_by_def api_def split: prod.split)

lemma read_refusal:
  assumes "reads_back br j" and "status = 409"
  shows "read_answer (br_parse br) (answer_of (Json status j)) = Inl (ApiError 409 (or_default (json_stringify j) []))"
  using assms by (simp add: read_answer_def)

lemma stringify_object: "json_stringify (JObj fs) \<noteq> []"
  by simp

text \<open>Deleting a credential that actions use: the page shows exactly those actions, no error, and does not fetch the list again; deleting
  one nobody uses revokes it and shows the list without it.\<close>

theorem credential_delete_shown:
  assumes "served_by br ''DELETE'' (''/provider-credentials/'' @ i) (credential_route deps dr acc (RevokeCredential i))"
    and "pc_credentialId (fst (loadCredential (bk_rows b) acc i)) = Some i" and "i \<noteq> []"
    and "pc_accountId (fst (loadCredential (bk_rows b) acc i)) = Some acc" and "pc_status (fst (loadCredential (bk_rows b) acc i)) = CrActive"
    and "credential_usage (bk_rows b) acc i = users"
    and "reads_back br (JObj [(''error'', JStr ''credential_in_use''), (''usedBy'', JArr (map usage_json users))])"
    and "credential_delete br True i pg b = (pg', b')"
  shows "if users \<noteq> [] then pg' = pg\<lparr>pg_error := None, pg_blockedBy := Some (JArr (map usage_json users))\<rparr> \<and> b' = b
    else pg_blockedBy pg' = None \<and> (pg_error pg' = None \<longleftrightarrow> fst (credential_route deps dr acc (RevokeCredential i) b) = NoBody 204)"
proof -
  let ?refusal = "JObj [(''error'', JStr ''credential_in_use''), (''usedBy'', JArr (map usage_json users))]"
  let ?run = "credential_route deps dr acc (RevokeCredential i) b"
  have route: "if users \<noteq> [] then ?run = (Json 409 ?refusal, b) else (fst ?run = NoBody 204 \<or> (\<exists>err. fst ?run = Thrown err))"
    using assms(2-6) by (auto simp: credential_revoke_def Let_def proceed_def split: prod.split sum.split)
  have call: "api br ''DELETE'' (''/provider-credentials/'' @ i) None b = (read_answer (br_parse br) (answer_of (fst ?run)), snd ?run)"
    by (rule served_api [OF assms(1)])
  show ?thesis
  proof (cases "users = []")
    case False
    with route have run: "?run = (Json 409 ?refusal, b)" by simp
    have "read_answer (br_parse br) (answer_of (fst ?run)) = Inl (ApiError 409 (json_stringify ?refusal))"
      unfolding run by (simp add: read_answer_def or_default_def)
    moreover have "parseBlockingActions (br_parse br) (ApiError 409 (json_stringify ?refusal)) = Some (JArr (map usage_json users))"
      using assms(7) unfolding reads_back_def by (simp add: parseBlockingActions_def string_prop_def)
    ultimately show ?thesis using assms(8) False run unfolding credential_delete_def Let_def call by simp
  next
    case True
    with route consider "fst ?run = NoBody 204" | err where "fst ?run = Thrown err" by auto
    then show ?thesis
    proof cases
      case 1
      then have "read_answer (br_parse br) (answer_of (fst ?run)) = Inr None" by (simp add: read_answer_def)
      with 1 True assms(8) show ?thesis unfolding credential_delete_def Let_def call by (auto simp: refetch_def split: prod.splits)
    next
      case 2
      then have "read_answer (br_parse br) (answer_of (fst ?run)) = Inl (ApiError 500 ''Internal Server Error'')"
        by (simp add: read_answer_def or_default_def)
      with 2 True assms(8) show ?thesis unfolding credential_delete_def Let_def call by (auto simp: parseBlockingActions_def)
    qed
  qed
qed

text \<open>What the page prints for a firewall action that uses the credential: neither its record nor its zone is in the answer.\<close>

lemma blocked_firewall_unnamed:
  assumes "ac_type st = Some HETZNER_CLOUD_FIREWALL_RULE_UPDATE_ACTION_TYPE"
  shows "blocking_text (usage_json st) = '' ()''"
  using assms by (simp add: blocking_text_def usage_json_def string_prop_def Let_def opt_field_def split: option.split)

text \<open>The same for an agent; every other refusal is shown as an error.\<close>

theorem agent_delete_shown:
  assumes "served_by br ''DELETE'' (agent_path p) (provider_route deps pd acc (DeleteProvider p))"
    and "provider_loadActive (bk_rows b) acc p \<noteq> None" and "delivery_users (bk_rows b) acc p = users"
    and "reads_back br (JObj [(''error'', JStr ''traefik_provider_in_use''), (''usedBy'', JArr (map use_json users))])"
    and "handleDelete br True p pg b = (pg', b')"
  shows "if users \<noteq> [] then pg' = pg\<lparr>pg_error := None, pg_blockedBy := Some (JArr (map use_json users))\<rparr> \<and> b' = b
    else pg_blockedBy pg' = None \<and> (pg_error pg' = None \<longleftrightarrow> fst (provider_route deps pd acc (DeleteProvider p) b) = NoBody 204)"
proof -
  let ?refusal = "JObj [(''error'', JStr ''traefik_provider_in_use''), (''usedBy'', JArr (map use_json users))]"
  let ?run = "provider_route deps pd acc (DeleteProvider p) b"
  have route: "if users \<noteq> [] then ?run = (Json 409 ?refusal, b) else (fst ?run = NoBody 204 \<or> (\<exists>err. fst ?run = Thrown err))"
    using assms(2,3) by (auto simp: provider_delete_def Let_def proceed_def split: prod.split sum.split)
  have call: "api br ''DELETE'' (agent_path p) None b = (read_answer (br_parse br) (answer_of (fst ?run)), snd ?run)"
    by (rule served_api [OF assms(1)])
  note handler = assms(5) [unfolded handleDelete_def guarded_def Let_def simp_thms if_True call]
  show ?thesis
  proof (cases "users = []")
    case False
    with route have run: "?run = (Json 409 ?refusal, b)" by simp
    have "read_answer (br_parse br) (answer_of (fst ?run)) = Inl (ApiError 409 (json_stringify ?refusal))"
      unfolding run by (simp add: read_answer_def or_default_def)
    moreover have "parseApiError (br_parse br) (ApiError 409 (json_stringify ?refusal)) (Some 409) = Some ?refusal"
      using assms(4) unfolding reads_back_def by (simp add: parseApiError_def)
    ultimately show ?thesis using handler False run by (simp add: string_prop_def)
  next
    case True
    with route consider "fst ?run = NoBody 204" | err where "fst ?run = Thrown err" by auto
    then show ?thesis
    proof cases
      case 1
      then have "read_answer (br_parse br) (answer_of (fst ?run)) = Inr None" by (simp add: read_answer_def)
      with 1 True handler show ?thesis by (auto simp: refetch_def split: prod.splits)
    next
      case 2
      then have "read_answer (br_parse br) (answer_of (fst ?run)) = Inl (ApiError 500 ''Internal Server Error'')"
        by (simp add: read_answer_def or_default_def)
      with 2 True handler show ?thesis by (auto simp: parseApiError_def)
    qed
  qed
qed

text \<open>The credential form never sends a body that is refused for a missing field, and sends one at a time.\<close>

lemma form_body_complete:
  assumes "form_submit fm = (fm', Some body)" and "fm_provider fm \<noteq> []"
  shows "\<not> fm_isSubmitting fm" and "fm_isSubmitting fm'" and "form_submit fm' = (fm', None)"
    and "truthy (kb_provider body) \<and> truthy (kb_label body) \<and> truthy (kb_secret body)"
proof -
  from assms(1) have fm: "js_trim (fm_label fm) \<noteq> []" "js_trim (fm_secret fm) \<noteq> []" "\<not> fm_isSubmitting fm"
    "fm' = fm\<lparr>fm_error := None, fm_isSubmitting := True\<rparr>" "body = form_body fm" by (auto simp: form_submit_def split: if_splits)
  moreover from fm(2) have "fm_secret fm \<noteq> []" by (auto simp: js_trim_def)
  ultimately show "\<not> fm_isSubmitting fm" "fm_isSubmitting fm'" "form_submit fm' = (fm', None)"
    "truthy (kb_provider body) \<and> truthy (kb_label body) \<and> truthy (kb_secret body)"
    using assms(2) by (simp_all add: form_submit_def form_body_def)
qed

text \<open>The page and the application agree on what an address list is.\<close>

lemma addressList_given: "a \<in> set (addressList text) \<Longrightarrow> a \<noteq> [] \<and> js_trim a = a"
  by (auto simp: addressList_def)

text \<open>A channel that is not there is no error; a failed save keeps what was typed.\<close>

lemma fetchChannel_absent:
  assumes "served_by br ''GET'' ''/notification-channel'' route" and "fst (route s) = Json 404 j"
  shows "fst (fetchChannel br s) = Inr None"
  by (simp add: fetchChannel_def served_api [OF assms(1)] assms(2) read_answer_def)

lemma failed_save_keeps_text:
  assumes "handleSave br pg s = (pg', s')" and "np_error pg' \<noteq> None"
  shows "np_addresses pg' = np_addresses pg" and "np_channel pg' = np_channel pg"
  using assms by (auto simp: handleSave_def Let_def split: sum.splits prod.splits)

end
