(* ===== verification/WebViews.thy ===== *)
theory WebViews
  imports WebPages ActionWizard HttpApp
begin

text \<open>
  What the pages of the web interface show (\<open>src/frontend/src/pages\<close>), as data: the cards of devices, actions and agents with the
  commands they offer, the rows of the two histories and the pages a history is cut into. A page shows what a route of the backend
  answered, so a view is a function of the route's records. Markup, styles and the local form of a time (\<open>local_time\<close> prints one) are left out.
\<close>

section \<open>Punctuation\<close>

text \<open>A character of the development is one byte; the dash, the middle dot and the ellipsis the pages print are written in UTF-8.\<close>

definition em_dash :: string where "em_dash = map char_of [226, 128, 148 :: nat]"
definition middle_dot :: string where "middle_dot = map char_of [194, 183 :: nat]"
definition ellipsis :: string where "ellipsis = map char_of [226, 128, 166 :: nat]"

text \<open>\<open>v ?? "-"\<close>\<close>

definition or_dash :: "string option \<Rightarrow> string" where "or_dash v = nullish_or v em_dash"

section \<open>Devices\<close>

fun DEVICE_STATUS_LABEL :: "ip_client_status \<Rightarrow> string" where
  "DEVICE_STATUS_LABEL IcEnabled = ''Enabled''"
| "DEVICE_STATUS_LABEL IcDisabled = ''Disabled''"
| "DEVICE_STATUS_LABEL IcDecommissioned = ''Decommissioned''"

fun NOTIFICATION_LABEL :: "notification_preference \<Rightarrow> string" where
  "NOTIFICATION_LABEL PrefOff = ''Off''"
| "NOTIFICATION_LABEL PrefFailuresOnly = ''Failures only''"
| "NOTIFICATION_LABEL PrefAll = ''All updates''"

record device_card =
  dvc_label :: string
  dvc_href :: string
  dvc_status :: string
  dvc_rows :: "(string \<times> string) list"

definition device_card :: "IpClientSummary \<Rightarrow> device_card" where
  "device_card client = \<lparr>dvc_label = ics_label client, dvc_href = actions_href (ics_ipClientId client),
     dvc_status = DEVICE_STATUS_LABEL (ics_status client),
     dvc_rows = [(''Last IPv4'', or_dash (ics_lastKnownIPv4 client)), (''Last IPv6'', or_dash (ics_lastKnownIPv6 client)),
       (''Notifications'', NOTIFICATION_LABEL (ics_notificationPreference client))]\<rparr>"

text \<open>A list that is loaded: its message when it is empty, or its cards.\<close>

definition list_view :: "string \<Rightarrow> ('a \<Rightarrow> 'c) \<Rightarrow> 'a list \<Rightarrow> string + 'c list" where
  "list_view message view items = (if length items > 0 then Inr (map view items) else Inl message)"

definition devices_view :: "IpClientSummary list \<Rightarrow> string + device_card list" where
  "devices_view = list_view ''You haven't added any devices yet.'' device_card"

text \<open>The settings of a device: the title, description and button of each card, and what its handler sends.\<close>

datatype device_command = ToggleDevice | RotateDevice | DecommissionCommand

fun device_card_texts :: "ip_client_status \<Rightarrow> device_command \<Rightarrow> string list" where
  "device_card_texts status ToggleDevice = (let button = (if status = IcEnabled then ''Disable device'' else ''Enable device'') in
     [button, if status = IcEnabled
        then ''A disabled device's reported address changes are ignored and none of its actions run.''
        else ''Resume processing this device's reported address changes and run its actions again.'', button])"
| "device_card_texts status RotateDevice = [''Rotate credential'',
     ''Issues a new reporting credential. The current one stops working, so update the device with the new one.'', ''Rotate credential'']"
| "device_card_texts status DecommissionCommand = [''Decommission device'',
     ''Permanently retires this device. This cannot be undone.'', ''Decommission device'']"

definition device_commands :: "ip_client_status \<Rightarrow> device_command list" where
  "device_commands status = (if status \<noteq> IcDecommissioned then [ToggleDevice, RotateDevice, DecommissionCommand] else [])"

fun device_command_sends :: "id \<Rightarrow> ip_client_status \<Rightarrow> device_command \<Rightarrow> device_request" where
  "device_command_sends i status ToggleDevice = (if status = IcEnabled then DisableDevice i else EnableDevice i)"
| "device_command_sends i status RotateDevice = RotateCredential i"
| "device_command_sends i status DecommissionCommand = DecommissionDevice i"

text \<open>Below the status: the cards, or the one message of a decommissioned device.\<close>

definition device_settings :: "ip_client_status \<Rightarrow> string \<times> string list list" where
  "device_settings status = (DEVICE_STATUS_LABEL status,
     if status \<noteq> IcDecommissioned then map (device_card_texts status) (device_commands status)
     else [[''This device has been decommissioned. No further changes are possible.'']])"

section \<open>Actions\<close>

fun ACTION_STATUS_LABEL :: "action_status \<Rightarrow> string" where
  "ACTION_STATUS_LABEL ActEnabled = ''Enabled''"
| "ACTION_STATUS_LABEL ActDisabled = ''Disabled''"
| "ACTION_STATUS_LABEL ActDetached = ''Detached''"

fun ADDRESS_FAMILY_LABEL :: "address_family \<Rightarrow> string" where
  "ADDRESS_FAMILY_LABEL IPv4 = ''IPv4''"
| "ADDRESS_FAMILY_LABEL IPv6 = ''IPv6''"

definition formatAddressFamilies :: "address_family list \<Rightarrow> string" where
  "formatAddressFamilies families = join_with '' and '' (map ADDRESS_FAMILY_LABEL families)"

definition ACTION_TYPE_LABEL :: "string \<Rightarrow> string option" where
  "ACTION_TYPE_LABEL type = (if type = HETZNER_CLOUD_DNS_UPDATE_ACTION_TYPE then Some ''Hetzner Cloud DNS Update''
     else if type = HETZNER_CLOUD_FIREWALL_RULE_UPDATE_ACTION_TYPE then Some ''Hetzner Cloud Firewall Rule Update'' else None)"

definition action_title :: "string \<Rightarrow> string" where
  "action_title type = (if type = TRAEFIK_CONFIG_DELIVERY_ACTION_TYPE then ''Traefik configuration'' else nullish_or (ACTION_TYPE_LABEL type) type)"

text \<open>The delivery status is asked for only where the list has a delivery; of two items of one action the later counts.\<close>

definition action_delivery :: "ActionSummary list \<Rightarrow> DeliveryStatusItem list \<Rightarrow> id \<Rightarrow> DeliveryStatusItem option" where
  "action_delivery actions items actionId =
     (if \<not> list_ex (\<lambda>a. acs_type a = TRAEFIK_CONFIG_DELIVERY_ACTION_TYPE) actions then None
      else map_of (rev (map (\<lambda>item. (dsi_actionId item, item)) items)) actionId)"

definition delivery_row_of :: "DeliveryStatusItem \<Rightarrow> string \<times> string" where
  "delivery_row_of d = (''Delivery'', DELIVERY_LABEL (dsi_status d) @
     (case dsi_error d of Some (reason, at) \<Rightarrow> if dsi_status d = DsError then reason else [] | None \<Rightarrow> []))"

text \<open>The rows of a card; which of the three kinds shows depends on the fields the configuration has.\<close>

definition traefik_rows :: "ActionConfig \<Rightarrow> DeliveryStatusItem option \<Rightarrow> (string \<times> string) list" where
  "traefik_rows cf delivery = (if cf_traefikProviderId cf = None then [] else
     [(''Agent'', case delivery of Some d \<Rightarrow> dsi_providerName d | None \<Rightarrow> nullish_or (cf_traefikProviderId cf) []),
      (''Group'', nullish_or (cf_group cf) [])] @ (case delivery of Some d \<Rightarrow> [delivery_row_of d] | None \<Rightarrow> []))"

definition firewall_rows :: "ActionConfig \<Rightarrow> (string \<times> string) list" where
  "firewall_rows cf = (case cf_firewallId cf of None \<Rightarrow> []
     | Some n \<Rightarrow> [(''Firewall'', int_to_string n), (''Rule'', nullish_or (cf_description cf) [])])"

definition dns_rows :: "ActionConfig \<Rightarrow> (string \<times> string) list" where
  "dns_rows cf = (case cf_zone cf of None \<Rightarrow> [] | Some zone \<Rightarrow> [(''Zone'', zone), (''Record'', nullish_or (cf_recordName cf) [])])"

datatype action_command = EditAction | ToggleAction | DetachCommand

definition action_commands :: "action_status \<Rightarrow> action_command list" where
  "action_commands status = (if status \<noteq> ActDetached then [EditAction, ToggleAction, DetachCommand] else [])"

fun action_button :: "action_status \<Rightarrow> action_command \<Rightarrow> string" where
  "action_button status EditAction = ''Edit''"
| "action_button status ToggleAction = (if status = ActEnabled then ''Disable'' else ''Enable'')"
| "action_button status DetachCommand = ''Detach''"

text \<open>\<open>None\<close>: editing opens the flow and sends nothing by itself.\<close>

fun action_command_sends :: "id \<Rightarrow> action_status \<Rightarrow> action_command \<Rightarrow> action_request option" where
  "action_command_sends i status EditAction = None"
| "action_command_sends i status ToggleAction = Some (if status = ActEnabled then DisableAction i else EnableAction i)"
| "action_command_sends i status DetachCommand = Some (DetachAction i)"

record action_card =
  acd_title :: string
  acd_status :: string
  acd_rows :: "(string \<times> string) list"
  acd_history :: "string option"
  acd_buttons :: "(string \<times> action_command) list"

definition action_card :: "(id \<Rightarrow> DeliveryStatusItem option) \<Rightarrow> ActionSummary \<Rightarrow> action_card" where
  "action_card deliveryStatus action = \<lparr>acd_title = action_title (acs_type action), acd_status = ACTION_STATUS_LABEL (acs_status action),
     acd_rows = (case acs_config action of None \<Rightarrow> []
         | Some cf \<Rightarrow> traefik_rows cf (deliveryStatus (acs_actionId action)) @ firewall_rows cf @ dns_rows cf)
       @ [(''Families'', formatAddressFamilies (acs_addressFamilies action))],
     acd_history = (if acs_type action \<noteq> TRAEFIK_CONFIG_DELIVERY_ACTION_TYPE
       then Some (''/actions/'' @ acs_actionId action @ ''/executions'') else None),
     acd_buttons = map (\<lambda>c. (action_button (acs_status action) c, c)) (action_commands (acs_status action))\<rparr>"

definition actions_view :: "ActionSummary list \<Rightarrow> DeliveryStatusItem list \<Rightarrow> string + action_card list" where
  "actions_view actions items = list_view ''This device has no actions configured yet.'' (action_card (action_delivery actions items)) actions"

section \<open>Agents\<close>

text \<open>An agent's card is read from the JSON object the agents' routes answer (\<open>provider_view\<close>).\<close>

definition number_prop :: "json \<Rightarrow> string \<Rightarrow> int option" where
  "number_prop j k = (case json_prop j k of Some (JNum n) \<Rightarrow> Some n | _ \<Rightarrow> None)"

definition items_prop :: "json \<Rightarrow> string \<Rightarrow> json list" where
  "items_prop j k = (case json_prop j k of Some (JArr xs) \<Rightarrow> xs | _ \<Rightarrow> [])"

text \<open>\<open><Show when={provider[k]}>\<close>\<close>

definition shown_prop :: "json \<Rightarrow> string \<Rightarrow> json option" where
  "shown_prop j k = (case json_prop j k of Some v \<Rightarrow> if falsy_json v then None else Some v | None \<Rightarrow> None)"

definition number_text :: "int option \<Rightarrow> string" where
  "number_text n = or_dash (map_option int_to_string n)"

text \<open>The applied version, and the published one where it is another.\<close>

definition versions_text :: "json \<Rightarrow> string" where
  "versions_text p = number_text (number_prop p ''appliedVersion'') @
     (case number_prop p ''publishedVersion'' of
        Some n \<Rightarrow> if number_prop p ''appliedVersion'' = Some n then [] else '' (latest '' @ int_to_string n @ '')''
      | None \<Rightarrow> [])"

definition apply_alert :: "json \<Rightarrow> string list" where
  "apply_alert p = (case shown_prop p ''lastError'' of None \<Rightarrow> []
     | Some e \<Rightarrow> [''The agent could not apply version '' @ nullish_or (map_option int_to_string (number_prop e ''version'')) []
         @ '': '' @ nullish_or (string_prop e ''reason'') []])"

definition publish_alert :: "json \<Rightarrow> string list" where
  "publish_alert p = (case shown_prop p ''lastPublishError'' of None \<Rightarrow> []
     | Some e \<Rightarrow> [if string_prop e ''reason'' = Some ''too_large''
         then ''The current data is too large to send to the agent. Remove devices from this provider.''
         else ''FluxIP could not prepare the latest data for this agent.''])"

definition formatTime :: "(timestamp \<Rightarrow> string) \<Rightarrow> int option \<Rightarrow> string" where
  "formatTime local_time v = or_dash (map_option (\<lambda>t. local_time (nat t)) v)"

text \<open>A token: its text, whether it is struck through, and the id its \<open>Revoke\<close> button sends, where it has one.\<close>

definition token_row :: "(timestamp \<Rightarrow> string) \<Rightarrow> json \<Rightarrow> string \<times> bool \<times> id option" where
  "token_row local_time token =
     (''fxt_'' @ ellipsis @ nullish_or (string_prop token ''last4'') [] @ '' issued '' @ formatTime local_time (number_prop token ''issuedAt''),
      string_prop token ''status'' = Some ''revoked'',
      if string_prop token ''status'' = Some ''valid'' then string_prop token ''tokenId'' else None)"

record provider_card =
  pvc_name :: string
  pvc_state :: string
  pvc_hint :: string
  pvc_lastConnected :: string
  pvc_versions :: string
  pvc_agent :: string
  pvc_actions :: string
  pvc_address :: string
  pvc_alerts :: "string list"
  pvc_notices :: "string list"
  pvc_tokens :: "(string \<times> bool \<times> id option) list"

definition state_of :: "string \<Rightarrow> connection_state option" where
  "state_of name = find (\<lambda>st. connection_state_name st = name) [NeverConnected, Connected, Disconnected, Stale]"

definition provider_card :: "(timestamp \<Rightarrow> string) \<Rightarrow> json \<Rightarrow> provider_card" where
  "provider_card local_time p = (let state = Option.bind (string_prop p ''state'') state_of in
     \<lparr>pvc_name = nullish_or (string_prop p ''name'') [], pvc_state = nullish_or (map_option STATE_LABEL state) [],
      pvc_hint = nullish_or (map_option STATE_HINT state) [], pvc_lastConnected = formatTime local_time (number_prop p ''lastConnectedAt''),
      pvc_versions = versions_text p, pvc_agent = or_dash (string_prop p ''agentVersion''),
      pvc_actions = nullish_or (map_option int_to_string (number_prop p ''actionCount'')) [],
      pvc_address = nullish_or (string_prop p ''agentAddress'') [], pvc_alerts = apply_alert p @ publish_alert p,
      pvc_notices = List.map_filter (\<lambda>n. case n of JStr s \<Rightarrow> Some (notice_label s) | _ \<Rightarrow> None) (items_prop p ''notices''),
      pvc_tokens = map (token_row local_time) (items_prop p ''tokens'')\<rparr>)"

definition providers_view :: "(timestamp \<Rightarrow> string) \<Rightarrow> json list \<Rightarrow> string + provider_card list" where
  "providers_view local_time = list_view ''You haven't added an agent yet. An agent runs next to a Traefik and lets FluxIP keep its allow-lists and upstreams up to date.''
     (provider_card local_time)"

section \<open>Histories\<close>

text \<open>The history of a device labels the two kinds of actions that run as executions.\<close>

definition action_target :: "ActionDescription \<Rightarrow> string option" where
  "action_target a = (if truthy (ad_zone a) \<and> truthy (ad_recordName a) then Some (the (ad_recordName a) @ ''.'' @ the (ad_zone a))
     else case ad_firewallId a of
         Some n \<Rightarrow> Some (''Firewall '' @ int_to_string n @ (if truthy (ad_description a) then '' '' @ middle_dot @ '' '' @ the (ad_description a) else []))
       | None \<Rightarrow> None)"

definition actionLabel :: "ActionDescription \<Rightarrow> string" where
  "actionLabel a = (let type = (if truthy (ad_type a) then nullish_or (ACTION_TYPE_LABEL (the (ad_type a))) (the (ad_type a)) else ''Action'') in
     if truthy (action_target a) then type @ '' '' @ em_dash @ '' '' @ the (action_target a) else type)"

definition executionTime :: "(timestamp \<Rightarrow> string) \<Rightarrow> timestamp option \<Rightarrow> timestamp option \<Rightarrow> timestamp option \<Rightarrow> string" where
  "executionTime local_time completedAt failedAt startedAt = or_dash (map_option local_time (nullish completedAt (nullish failedAt startedAt)))"

fun EXECUTION_STATUS_LABEL :: "execution_status \<Rightarrow> string" where
  "EXECUTION_STATUS_LABEL ExRunning = ''In progress''"
| "EXECUTION_STATUS_LABEL ExSucceeded = ''Succeeded''"
| "EXECUTION_STATUS_LABEL ExFailed = ''Failed''"

fun TRIGGERED_BY_LABEL :: "triggered_by \<Rightarrow> string" where
  "TRIGGERED_BY_LABEL ByIpChange = ''Automatic (address changed)''"
| "TRIGGERED_BY_LABEL ByManual = ''Manual re-run''"

text \<open>A row of an action's executions (the table; the cards of a narrow screen show the same).\<close>

definition execution_cells :: "(timestamp \<Rightarrow> string) \<Rightarrow> ExecutionSummary \<Rightarrow> string list" where
  "execution_cells local_time ex = [executionTime local_time (exs_completedAt ex) (exs_failedAt ex) (exs_startedAt ex),
     (case exs_triggeredBy ex of Some t \<Rightarrow> TRIGGERED_BY_LABEL t | None \<Rightarrow> []),
     or_dash (ipv_ipv4 (exs_ipValuesUsed ex)) @ '' / '' @ or_dash (ipv_ipv6 (exs_ipValuesUsed ex)),
     EXECUTION_STATUS_LABEL (exs_status ex), nat_to_string (exs_attempt ex), or_dash (exs_error ex)]"

fun DELIVERY_STAGE :: "delivery_stage \<Rightarrow> string \<times> execution_status" where
  "DELIVERY_STAGE StagePublished = (''Published, awaiting agent'', ExRunning)"
| "DELIVERY_STAGE StageApplied = (''Applied'', ExSucceeded)"
| "DELIVERY_STAGE StageFailed = (''Failed'', ExFailed)"

definition addressChange :: "string option \<Rightarrow> string option \<Rightarrow> (string option \<times> string) option" where
  "addressChange previous next_address = (if truthy next_address then Some (previous, the next_address) else None)"

text \<open>\<open><Show when={text}>\<close> around one text\<close>

definition when_text :: "string option \<Rightarrow> (string \<Rightarrow> string) \<Rightarrow> string list" where
  "when_text v f = (if truthy v then [f (the v)] else [])"

text \<open>The texts of a delivery, with the icon's status in front.\<close>

definition DeliveryRow :: "(timestamp \<Rightarrow> string) \<Rightarrow> TraefikDelivery \<Rightarrow> execution_status option \<times> string list" where
  "DeliveryRow local_time d = (map_option (\<lambda>st. snd (DELIVERY_STAGE st)) (td_stage d),
     when_text (map_option local_time (td_at d)) (\<lambda>t. t)
       @ [''Traefik delivery '' @ em_dash @ '' '' @ nullish_or (td_providerName d) ''Agent no longer exists'' @ '' '' @ middle_dot @ '' '' @ td_group d,
          case td_stage d of Some st \<Rightarrow> fst (DELIVERY_STAGE st) | None \<Rightarrow> ''Delivered together with a later change'']
       @ when_text (td_error d) (\<lambda>e. em_dash @ '' '' @ e))"

definition ExecutionRow :: "(timestamp \<Rightarrow> string) \<Rightarrow> HistoryExecution \<Rightarrow> execution_status \<times> string list" where
  "ExecutionRow local_time e = (he_status e,
     [executionTime local_time (he_completedAt e) (he_failedAt e) (he_startedAt e), actionLabel (he_action e)]
       @ (if he_attempt e > 1 then [''attempt '' @ nat_to_string (he_attempt e)] else [])
       @ when_text (he_error e) (\<lambda>t. em_dash @ '' '' @ t))"

record change_card =
  chc_time :: timestamp
  chc_ipv4 :: "(string option \<times> string) option"
  chc_ipv6 :: "(string option \<times> string) option"
  chc_empty :: bool
  chc_executions :: "(execution_status \<times> string list) list"
  chc_deliveries :: "(execution_status option \<times> string list) list"

definition change_card :: "(timestamp \<Rightarrow> string) \<Rightarrow> HistoryItem \<Rightarrow> change_card" where
  "change_card local_time change = \<lparr>chc_time = hi_time change,
     chc_ipv4 = addressChange (chg_previousIPv4 (hi_data change)) (chg_newIPv4 (hi_data change)),
     chc_ipv6 = addressChange (chg_previousIPv6 (hi_data change)) (chg_newIPv6 (hi_data change)),
     chc_empty = (\<not> (length (hi_executions change) > 0 \<or> length (hi_deliveries change) > 0)),
     chc_executions = map (ExecutionRow local_time) (hi_executions change),
     chc_deliveries = map (DeliveryRow local_time) (hi_deliveries change)\<rparr>"

text \<open>The list of changes, newest first, in pages.\<close>

record 'c history_page =
  hp_changes :: "'c list"
  hp_pageSize :: nat
  hp_requestedPage :: nat

definition PAGE_SIZES :: "nat list" where "PAGE_SIZES = [10, 25, 50]"

definition history_start :: "'c list \<Rightarrow> 'c history_page" where
  "history_start items = \<lparr>hp_changes = rev items, hp_pageSize = 10, hp_requestedPage = 1\<rparr>"

definition totalPages :: "'c history_page \<Rightarrow> nat" where
  "totalPages hp = max 1 ((length (hp_changes hp) + hp_pageSize hp - 1) div hp_pageSize hp)"

definition current_page :: "'c history_page \<Rightarrow> nat" where
  "current_page hp = min (hp_requestedPage hp) (totalPages hp)"

definition page_slice :: "'c history_page \<Rightarrow> nat \<Rightarrow> 'c list" where
  "page_slice hp n = take (hp_pageSize hp) (drop ((n - 1) * hp_pageSize hp) (hp_changes hp))"

definition visible :: "'c history_page \<Rightarrow> 'c list" where
  "visible hp = page_slice hp (current_page hp)"

datatype 'c history_event = ChoosePageSize nat | Newer | Older | Refetched "'c list"

text \<open>A disabled button does nothing.\<close>

fun history_step :: "'c history_event \<Rightarrow> 'c history_page \<Rightarrow> 'c history_page" where
  "history_step (ChoosePageSize n) hp = (if n \<in> set PAGE_SIZES then hp\<lparr>hp_pageSize := n, hp_requestedPage := 1\<rparr> else hp)"
| "history_step Newer hp = (if current_page hp \<le> 1 then hp else hp\<lparr>hp_requestedPage := current_page hp - 1\<rparr>)"
| "history_step Older hp = (if current_page hp \<ge> totalPages hp then hp else hp\<lparr>hp_requestedPage := current_page hp + 1\<rparr>)"
| "history_step (Refetched items) hp = hp\<lparr>hp_changes := rev items\<rparr>"

definition history_run :: "'c history_event list \<Rightarrow> 'c history_page \<Rightarrow> 'c history_page" where
  "history_run evs hp = foldl (\<lambda>hp ev. history_step ev hp) hp evs"

lemma page_slices: "concat (map (\<lambda>n. take sz (drop (n * sz) xs)) [0..<k]) = take (k * sz) xs"
  by (induction k) (simp_all add: take_add add.commute [of sz])

definition history_ok :: "'c history_page \<Rightarrow> bool" where
  "history_ok hp = (hp_pageSize hp > 0 \<and> hp_requestedPage hp > 0)"

lemma history_run_ok: "history_ok (history_run evs (history_start items))"
  unfolding history_run_def
proof (rule foldl_invariant)
  show "history_ok (history_start items)" by (simp add: history_ok_def history_start_def)
  show "history_ok (history_step ev hp)" if "history_ok hp" for ev hp
    using that by (cases ev) (auto simp: history_ok_def PAGE_SIZES_def)
qed

lemma total_pages_cover:
  assumes "hp_pageSize hp > 0"
  shows "length (hp_changes hp) \<le> totalPages hp * hp_pageSize hp"
    and "hp_changes hp \<noteq> [] \<Longrightarrow> (totalPages hp - 1) * hp_pageSize hp < length (hp_changes hp)"
proof -
  let ?n = "length (hp_changes hp)" and ?s = "hp_pageSize hp"
  obtain t where t: "?s = Suc t" using assms by (cases ?s) simp_all
  define q where "q = (?n + t) div ?s"
  define r where "r = (?n + t) mod ?s"
  have r: "r \<le> t" unfolding r_def using mod_less_divisor [of ?s "?n + t"] t by linarith
  have sum: "?n + t = q * ?s + r" by (simp add: q_def r_def)
  have total: "totalPages hp = max 1 q" by (simp add: totalPages_def q_def t)
  from sum r have cover: "?n \<le> q * ?s" by linarith
  have "q * ?s \<le> max 1 q * ?s" by (rule mult_le_mono1) simp
  with cover show "?n \<le> totalPages hp * ?s" unfolding total by linarith
  assume "hp_changes hp \<noteq> []"
  then have n: "?n > 0" by simp
  with cover obtain q' where q': "q = Suc q'" by (cases q) auto
  have "q * ?s = q' * ?s + Suc t" by (simp add: q' t)
  with sum have "q' * ?s < ?n" by linarith
  then show "(totalPages hp - 1) * ?s < ?n" by (simp add: total q')
qed

text \<open>The pages of a history put together are the whole list, newest first, whatever was clicked and refetched; the page shown is one
  of them and is empty only when there is nothing to show.\<close>

theorem history_pages_partition:
  fixes evs :: "'c history_event list" and items :: "'c list"
  defines "hp \<equiv> history_run evs (history_start items)"
  shows "concat (map (page_slice hp) [1..<Suc (totalPages hp)]) = hp_changes hp
    \<and> 1 \<le> current_page hp \<and> current_page hp \<le> totalPages hp \<and> length (visible hp) \<le> hp_pageSize hp
    \<and> (visible hp = [] \<longleftrightarrow> hp_changes hp = [])"
proof -
  have ok: "hp_pageSize hp > 0" "hp_requestedPage hp > 0" using history_run_ok [of evs items] by (simp_all add: hp_def history_ok_def)
  have slices: "map (page_slice hp) [1..<Suc (totalPages hp)] = map (\<lambda>n. take (hp_pageSize hp) (drop (n * hp_pageSize hp) (hp_changes hp))) [0..<totalPages hp]"
    unfolding One_nat_def map_Suc_upt [symmetric] by (simp add: page_slice_def)
  have whole: "concat (map (page_slice hp) [1..<Suc (totalPages hp)]) = hp_changes hp"
    unfolding slices page_slices using total_pages_cover(1) [OF ok(1)] by simp
  have one: "1 \<le> totalPages hp" by (simp add: totalPages_def)
  then have page: "1 \<le> current_page hp" "current_page hp \<le> totalPages hp" "length (visible hp) \<le> hp_pageSize hp"
    using ok(2) by (simp_all add: current_page_def visible_def page_slice_def)
  have "visible hp \<noteq> []" if "hp_changes hp \<noteq> []"
  proof -
    from total_pages_cover(2) [OF ok(1) that] page(2)
    have "(current_page hp - 1) * hp_pageSize hp < length (hp_changes hp)"
      by (meson diff_le_mono le_less_trans mult_le_mono1)
    then show ?thesis using ok(1) by (simp add: visible_def page_slice_def)
  qed
  moreover have "visible hp = []" if "hp_changes hp = []" using that by (simp add: visible_def page_slice_def)
  ultimately show ?thesis using whole page by blast
qed

section \<open>Commands and the routes behind them\<close>

text \<open>What the label of a command promises of the device, of the action.\<close>

fun device_promise :: "string \<Rightarrow> device_command \<Rightarrow> IpClientState \<Rightarrow> IpClientState" where
  "device_promise hash ToggleDevice st = st\<lparr>ic_status := (if ic_status st = IcEnabled then IcDisabled else IcEnabled)\<rparr>"
| "device_promise hash RotateDevice st = st\<lparr>ic_credentialHash := Some hash\<rparr>"
| "device_promise hash DecommissionCommand st = st\<lparr>ic_status := IcDecommissioned\<rparr>"

fun action_promise :: "action_command \<Rightarrow> ActionState \<Rightarrow> ActionState" where
  "action_promise ToggleAction st = st\<lparr>ac_status := (if ac_status st = ActEnabled then ActDisabled else ActEnabled)\<rparr>"
| "action_promise DetachCommand st = st\<lparr>ac_status := ActDetached\<rparr>"
| "action_promise EditAction st = st"

text \<open>A write to a stream that has rows of the account goes through when nobody interferes.\<close>

lemma owned_commit:
  assumes wf: "wf_store (bk_rows b)" and calm: "undisturbed deps" and fresh: "tk_id tk \<notin> ev_id ` set (bk_rows b)"
    and own: "readStream (bk_rows b) (stream acc t i) \<noteq> []"
  obtains e b1 where "commit deps tk (stream acc t i) (length (readStream (bk_rows b) (stream acc t i))) d b = (Inr e, b1)"
    and "b1 = b\<lparr>bk_rows := bk_rows b @ [e]\<rparr>"
    and "\<And>init red. replay init red (bk_rows b1) (stream acc t i) = red (replay init red (bk_rows b) (stream acc t i)) d"
proof -
  from own obtain r where r: "r \<in> set (aggregate_rows (bk_rows b) t i)" "ev_accountId r = acc"
    by (auto simp: readStream_wf(1) [OF wf] filter_in_stream filter_empty_conv)
  have mine: "\<forall>r \<in> set (aggregate_rows (bk_rows b) t i). ev_accountId r = acc"
    using wf_store_account [OF wf r(1)] r(2) by metis
  obtain e where commit: "commit deps tk (stream acc t i) (length (readStream (bk_rows b) (stream acc t i))) d b = (Inr e, b\<lparr>bk_rows := bk_rows b @ [e]\<rparr>)"
    using commit_alone [OF wf calm fresh mine refl] by blast
  note w = commit_undisturbed [OF wf calm commit]
  show ?thesis by (rule that [OF commit refl]) (rule replay_wrote(1) [OF wf w(2,1)])
qed

lemma device_command_works:
  assumes wf: "wf_store (bk_rows b)" and calm: "undisturbed deps" and redis: "rt_redisError deps = None"
    and fresh: "tk_id (dr_tick dr) \<notin> ev_id ` set (bk_rows b)" and owned: "loadOwnedIpClient (bk_rows b) acc i = Some (st, n)"
  shows "case device_route deps dr acc (device_command_sends i (ic_status st) c) b of (resp, b') \<Rightarrow>
      if c \<in> set (device_commands (ic_status st))
      then resp_status resp = 200 \<and> length (bk_rows b') = Suc (length (bk_rows b))
        \<and> fst (loadIpClient (bk_rows b') acc i) = device_promise (gc_hash (generateCredential (rt_crypto deps) (dr_random dr) (dr_salt dr))) c st
      else bk_rows b' = bk_rows b"
proof (cases "ic_status st = IcDecommissioned")
  case True
  with owned show ?thesis
    by (cases c) (simp_all add: device_commands_def device_enable_def device_rotate_def device_decommission_def)
next
  case False
  let ?k = "stream acc IP_CLIENT i"
  note own = owned [unfolded loadOwnedIpClient_Some]
  have rows: "readStream (bk_rows b) ?k \<noteq> []"
  proof
    assume "readStream (bk_rows b) ?k = []"
    with own show False by (auto simp: replay_loads(1) replay_def initialIpClientState_def)
  qed
  note commit = owned_commit [OF wf calm fresh rows]
  have refresh: "\<exists>b2. refresh_device deps acc i b1 = (Inr (), b2) \<and> bk_rows b2 = bk_rows b1" for b1
    using refresh_rows [of deps acc i b1] redis by (simp add: refresh_device_def Let_def)
  have change: "\<exists>b'. device_change deps dr acc i n d status b = (device_status_reply i status, b') \<and> length (bk_rows b') = Suc (length (bk_rows b))
      \<and> fst (loadIpClient (bk_rows b') acc i) = ip_client_apply st (IpClientEv d)" for d status
  proof -
    obtain e b1 where c: "commit deps (dr_tick dr) ?k n (IpClientEv d) b = (Inr e, b1)" and b1: "b1 = b\<lparr>bk_rows := bk_rows b @ [e]\<rparr>"
      and st: "\<And>init red. replay init red (bk_rows b1) ?k = red (replay init red (bk_rows b) ?k :: IpClientState) (IpClientEv d)"
      using commit [of "IpClientEv d"] own by metis
    obtain b2 where b2: "refresh_device deps acc i b1 = (Inr (), b2)" "bk_rows b2 = bk_rows b1" using refresh by blast
    have "device_change deps dr acc i n d status b = (device_status_reply i status, scheduleDeviceProviders deps acc i b2)"
      by (simp add: device_change_def c b2)
    moreover have "length (bk_rows b1) = Suc (length (bk_rows b))" by (simp add: b1)
    moreover have "fst (loadIpClient (bk_rows b1) acc i) = ip_client_apply st (IpClientEv d)"
      using own st by (simp add: replay_loads(1))
    ultimately show ?thesis by (simp add: b2(2) replay_loads(1))
  qed
  let ?hash = "gc_hash (generateCredential (rt_crypto deps) (dr_random dr) (dr_salt dr))"
  let ?rotated = "IpClientEv (IpClientCredentialRotated ?hash (tk_now (dr_tick dr)))"
  obtain e b1 where rotate: "commit deps (dr_tick dr) ?k n ?rotated b = (Inr e, b1)" and b1: "b1 = b\<lparr>bk_rows := bk_rows b @ [e]\<rparr>"
    and "\<And>init red. replay init red (bk_rows b1) ?k = red (replay init red (bk_rows b) ?k :: IpClientState) ?rotated"
    using commit [of ?rotated] own by metis
  then have rotated: "length (bk_rows b1) = Suc (length (bk_rows b))" "fst (loadIpClient (bk_rows b1) acc i) = st\<lparr>ic_credentialHash := Some ?hash\<rparr>"
    using own by (simp_all add: replay_loads(1))
  show ?thesis
  proof (cases c)
    case ToggleDevice
    obtain b' where "device_change deps dr acc i n (if ic_status st = IcEnabled then IpClientDisabled i else IpClientEnabled i)
        (if ic_status st = IcEnabled then IcDisabled else IcEnabled) b
        = (device_status_reply i (if ic_status st = IcEnabled then IcDisabled else IcEnabled), b')"
      "length (bk_rows b') = Suc (length (bk_rows b))"
      "fst (loadIpClient (bk_rows b') acc i) = ip_client_apply st (IpClientEv (if ic_status st = IcEnabled then IpClientDisabled i else IpClientEnabled i))"
      using change by blast
    with False owned ToggleDevice show ?thesis
      by (simp add: device_commands_def device_enable_def device_disable_def device_status_reply_def split: if_splits)
  next
    case RotateDevice
    with False owned rotate rotated show ?thesis by (simp add: device_commands_def device_rotate_def Let_def)
  next
    case DecommissionCommand
    obtain b' where "device_change deps dr acc i n (IpClientDecommissioned (tk_now (dr_tick dr))) IcDecommissioned b
        = (device_status_reply i IcDecommissioned, b')" "length (bk_rows b') = Suc (length (bk_rows b))"
      "fst (loadIpClient (bk_rows b') acc i) = ip_client_apply st (IpClientEv (IpClientDecommissioned (tk_now (dr_tick dr))))"
      using change by blast
    with False owned DecommissionCommand show ?thesis
      by (simp add: device_commands_def device_decommission_def device_status_reply_def)
  qed
qed

lemma action_command_works:
  assumes wf: "wf_store (bk_rows b)" and calm: "undisturbed deps" and redis: "rt_redisError deps = None"
    and fresh: "tk_id (dr_tick dr) \<notin> ev_id ` set (bk_rows b)" and owned: "loadOwnedAction (bk_rows b) acc i = Some (st, n)"
    and sends: "action_command_sends i (ac_status st) c = Some req"
  shows "case action_route deps dr acc req b of (resp, b') \<Rightarrow>
      if c \<in> set (action_commands (ac_status st))
      then (resp_status resp = 200 \<or> (c = DetachCommand \<and> ac_type st = Some HETZNER_CLOUD_FIREWALL_RULE_UPDATE_ACTION_TYPE \<and> (\<exists>err. resp = Thrown err)))
        \<and> length (bk_rows b') = Suc (length (bk_rows b)) \<and> fst (loadAction (bk_rows b') acc i) = action_promise c st
      else bk_rows b' = bk_rows b"
proof (cases "ac_status st = ActDetached")
  case True
  with owned sends show ?thesis
    by (cases c) (auto simp: action_commands_def action_enable_def action_detach_def)
next
  case False
  let ?k = "stream acc ACTION i"
  note own = owned [unfolded loadOwnedAction_Some]
  have rows: "readStream (bk_rows b) ?k \<noteq> []"
  proof
    assume "readStream (bk_rows b) ?k = []"
    with own show False by (auto simp: replay_loads(2) replay_def initialActionState_def)
  qed
  note commit = owned_commit [OF wf calm fresh rows]
  have refresh: "\<exists>b2. refresh_action deps acc i b1 = (Inr (), b2) \<and> bk_rows b2 = bk_rows b1" for b1
    using refresh_action_rows [of deps acc i b1] redis by (simp add: refresh_action_def Let_def)
  have change: "\<exists>b'. action_change deps dr acc i st n d finish b = finish b' \<and> length (bk_rows b') = Suc (length (bk_rows b))
      \<and> fst (loadAction (bk_rows b') acc i) = action_apply st (ActionEv d)" for d finish
  proof -
    obtain e b1 where c: "commit deps (dr_tick dr) ?k n (ActionEv d) b = (Inr e, b1)" and b1: "b1 = b\<lparr>bk_rows := bk_rows b @ [e]\<rparr>"
      and st: "\<And>init red. replay init red (bk_rows b1) ?k = red (replay init red (bk_rows b) ?k :: ActionState) (ActionEv d)"
      using commit [of "ActionEv d"] own by metis
    obtain b2 where b2: "refresh_action deps acc i b1 = (Inr (), b2)" "bk_rows b2 = bk_rows b1" using refresh by blast
    have "action_change deps dr acc i st n d finish b = finish (scheduleDelivery deps acc [Some st] b2)"
      by (simp add: action_change_def c b2)
    moreover have "length (bk_rows b1) = Suc (length (bk_rows b))" by (simp add: b1)
    moreover have "fst (loadAction (bk_rows b1) acc i) = action_apply st (ActionEv d)" using own st by (simp add: replay_loads(2))
    ultimately show ?thesis by (intro exI [of _ "scheduleDelivery deps acc [Some st] b2"]) (simp add: b2(2) replay_loads(2))
  qed
  show ?thesis
  proof (cases c)
    case EditAction
    with sends show ?thesis by simp
  next
    case ToggleAction
    let ?d = "if ac_status st = ActEnabled then ActionDisabled i else ActionEnabled i"
    let ?finish = "\<lambda>b. (action_status_reply i (if ac_status st = ActEnabled then ActDisabled else ActEnabled), b :: backend)"
    obtain b' where b': "action_change deps dr acc i st n ?d ?finish b = ?finish b'" "length (bk_rows b') = Suc (length (bk_rows b))"
      "fst (loadAction (bk_rows b') acc i) = action_apply st (ActionEv ?d)" using change [of ?d ?finish] by blast
    have "action_route deps dr acc req b = action_change deps dr acc i st n ?d ?finish b"
      using False owned sends ToggleAction by (auto simp: action_enable_def action_disable_def)
    with b' False ToggleAction show ?thesis by (simp add: action_commands_def action_status_reply_def split: if_splits)
  next
    case DetachCommand
    let ?finish = "\<lambda>b. proceed (if ac_type st = Some HETZNER_CLOUD_FIREWALL_RULE_UPDATE_ACTION_TYPE
                then cleanupFirewallEntriesBestEffort deps acc st [IPv4, IPv6] b else (Inr (), b))
              (\<lambda>u b. (action_status_reply i ActDetached, b))"
    let ?d = "ActionDetached (tk_now (dr_tick dr))"
    obtain b' where b': "action_change deps dr acc i st n ?d ?finish b = ?finish b'" "length (bk_rows b') = Suc (length (bk_rows b))"
      "fst (loadAction (bk_rows b') acc i) = action_apply st (ActionEv ?d)" using change [of ?d ?finish] by blast
    have run: "action_route deps dr acc req b = ?finish b'"
      using False owned sends DetachCommand b'(1) by (auto simp: action_detach_def)
    obtain r b2 where cleaned: "cleanupFirewallEntriesBestEffort deps acc st [IPv4, IPv6] b' = (r, b2)" by fastforce
    have b2: "bk_rows b2 = bk_rows b'" using cleanup_rows [of deps acc st "[IPv4, IPv6]" b'] cleaned by simp
    have "fst (loadAction (bk_rows b2) acc i) = fst (loadAction (bk_rows b') acc i)" by (simp add: b2)
    with b' False DetachCommand show ?thesis
      unfolding run by (cases r) (simp_all add: cleaned b2 action_commands_def action_status_reply_def)
  qed
qed

text \<open>The tokens of the card that is read from an agent's answer.\<close>

lemma card_tokens:
  "pvc_tokens (provider_card local_time (JObj (provider_view deps pd registry st n)))
     = map (\<lambda>t. (''fxt_'' @ ellipsis @ tok_last4 t @ '' issued '' @ local_time (tok_issuedAt t), tok_revokedAt t \<noteq> None,
         if tok_revokedAt t = None then Some (tok_tokenId t) else None)) (tp_tokens st)"
proof -
  have "items_prop (JObj (provider_view deps pd registry st n)) ''tokens''
      = map (\<lambda>token. JObj [(''tokenId'', JStr (tok_tokenId token)), (''last4'', JStr (tok_last4 token)),
          (''issuedAt'', JNum (int (tok_issuedAt token))), (''status'', JStr (if tok_revokedAt token \<noteq> None then ''revoked'' else ''valid''))]) (tp_tokens st)"
    by (simp add: items_prop_def provider_view_def tokenView_def Let_def)
  then show ?thesis
    by (auto simp: provider_card_def Let_def token_row_def string_prop_def number_prop_def formatTime_def or_dash_def)
qed

text \<open>The ids the \<open>Revoke\<close> buttons of a card send.\<close>

definition revocable :: "provider_card \<Rightarrow> id set" where
  "revocable view = {i. Some i \<in> (snd \<circ> snd) ` set (pvc_tokens view)}"

lemma card_revocable:
  "revocable (provider_card local_time (JObj (provider_view deps pd registry st n))) = tok_tokenId ` set (activeTokens st)"
  unfolding revocable_def card_tokens activeTokens_def by (auto simp: image_image split: if_splits)

lemma token_command_works:
  assumes wf: "wf_store (bk_rows b)" and calm: "undisturbed deps" and fresh: "tk_id (pd_ticks pd 0) \<notin> ev_id ` set (bk_rows b)"
    and loaded: "provider_loadActive (bk_rows b) acc p = Some l"
    and ids: "distinct (map tok_tokenId (tp_tokens (ld_state l)))" and token: "t \<in> set (tp_tokens (ld_state l))"
  shows "case provider_route deps pd acc (RevokeToken p (tok_tokenId t)) b of (resp, b') \<Rightarrow> resp = NoBody 204 \<and>
      (if tok_revokedAt t = None
       then length (bk_rows b') = Suc (length (bk_rows b))
         \<and> activeTokens (ld_state (provider_load (bk_rows b') acc p)) =
             filter (\<lambda>u. tok_tokenId u \<noteq> tok_tokenId t) (activeTokens (ld_state l))
       else bk_rows b' = bk_rows b)"
proof -
  from token have "find (\<lambda>u. tok_tokenId u = tok_tokenId t) (tp_tokens (ld_state l)) \<noteq> None" by (auto simp: find_None_iff)
  then obtain u where u: "find (\<lambda>u. tok_tokenId u = tok_tokenId t) (tp_tokens (ld_state l)) = Some u" by blast
  from find_Some_mem [OF u] have "u \<in> set (tp_tokens (ld_state l))" "tok_tokenId u = tok_tokenId t" by simp_all
  with ids token have same: "u = t" by (auto simp: distinct_map inj_on_def)
  have l: "ld_state l = provider_state (bk_rows b) acc p" using loaded by (simp add: provider_loadActive_Some)
  show ?thesis
  proof (cases "tok_revokedAt t = None")
    case False
    then obtain y where "tok_revokedAt t = Some y" by auto
    with loaded u same show ?thesis by (simp add: token_revoke_def terminate_def)
  next
    case True
    have rows: "readStream (bk_rows b) (stream acc TRAEFIK_PROVIDER p) \<noteq> []"
    proof
      assume "readStream (bk_rows b) (stream acc TRAEFIK_PROVIDER p) = []"
      with loaded show False by (auto simp: provider_loadActive_Some provider_load_simps initialTraefikProviderState_def)
    qed
    then obtain r where r: "r \<in> set (aggregate_rows (bk_rows b) TRAEFIK_PROVIDER p)" "ev_accountId r = acc"
      by (auto simp: readStream_wf(1) [OF wf] filter_in_stream filter_empty_conv)
    have mine: "\<forall>r \<in> set (aggregate_rows (bk_rows b) TRAEFIK_PROVIDER p). ev_accountId r = acc"
      using wf_store_account [OF wf r(1)] r(2) by metis
    let ?d = "TokenRevoked (tok_tokenId t) (pd_now pd)"
    obtain e where e: "provider_write deps (pd_ticks pd) acc p ?d b = (Inr e, b\<lparr>bk_rows := bk_rows b @ [e]\<rparr>)"
      by (rule provider_write_alone [where tks = "pd_ticks pd", OF wf calm fresh mine])
    define b1 where "b1 = b\<lparr>bk_rows := bk_rows b @ [e]\<rparr>"
    have "\<exists>n. provider_state (bk_rows b1) acc p = traefik_provider_apply (provider_state (bk_rows b) acc p) n (ProviderEv ?d)"
      using wf calm
    proof (cases rule: provider_write_cases [where deps = deps and b = b and tks = "pd_ticks pd" and acc = acc and p = p and d = ?d])
      case (appended e' b')
      with e have "b' = b1" by (simp add: b1_def)
      with provider_state_wrote(1) [OF wf appended(3,4)] show ?thesis by blast
    next
      case (conflict x)
      with e show ?thesis by simp
    qed
    then have "activeTokens (provider_state (bk_rows b1) acc p) = filter (\<lambda>u. tok_tokenId u \<noteq> tok_tokenId t) (activeTokens (ld_state l))"
      unfolding l by (auto simp: activeTokens_revoke simp del: traefik_provider_apply.simps)
    with loaded u same True e show ?thesis by (simp add: token_revoke_def terminate_def b1_def)
  qed
qed

text \<open>C24. A page offers a command exactly where its route has something to do, and then the command does what its
  button says. With services that answer and nobody else writing: for every command of a device (switch,
  rotate, decommission) and of an action (switch, detach), if the page offers it, the answer is a success,
  one event is appended and the replayed state has become the one the label promises, an enabled one
  disabled and a disabled one enabled; if the page does not offer it, its request changes nothing. (A
  detachment of a firewall action can still throw after it is stored, in its cleanup.) The \<open>Revoke\<close> buttons of
  an agent are those of its valid tokens: revoking one makes that token, and no other, invalid, and a
  revocation of a token without a button changes nothing. Editing only opens the flow of \<open>ActionWizard\<close>.\<close>

theorem offered_commands_accepted:
  assumes "wf_store (bk_rows b)" and "undisturbed deps" and "rt_redisError deps = None"
    and "tk_id (dr_tick dr) \<notin> ev_id ` set (bk_rows b)" and "tk_id (pd_ticks pd 0) \<notin> ev_id ` set (bk_rows b)"
    and "loadOwnedIpClient (bk_rows b) acc d = Some (dst, dn)" and "loadOwnedAction (bk_rows b) acc a = Some (ast, an)"
    and "provider_loadActive (bk_rows b) acc p = Some loaded" and "distinct (map tok_tokenId (tp_tokens (ld_state loaded)))"
  shows "(\<forall>c. case device_route deps dr acc (device_command_sends d (ic_status dst) c) b of (resp, b') \<Rightarrow>
        if c \<in> set (device_commands (ic_status dst))
        then resp_status resp = 200 \<and> length (bk_rows b') = Suc (length (bk_rows b))
          \<and> fst (loadIpClient (bk_rows b') acc d) = device_promise (gc_hash (generateCredential (rt_crypto deps) (dr_random dr) (dr_salt dr))) c dst
        else bk_rows b' = bk_rows b)
    \<and> (\<forall>c req. action_command_sends a (ac_status ast) c = Some req \<longrightarrow> (case action_route deps dr acc req b of (resp, b') \<Rightarrow>
        if c \<in> set (action_commands (ac_status ast))
        then (resp_status resp = 200 \<or> (c = DetachCommand \<and> ac_type ast = Some HETZNER_CLOUD_FIREWALL_RULE_UPDATE_ACTION_TYPE \<and> (\<exists>err. resp = Thrown err)))
          \<and> length (bk_rows b') = Suc (length (bk_rows b)) \<and> fst (loadAction (bk_rows b') acc a) = action_promise c ast
        else bk_rows b' = bk_rows b))
    \<and> (\<forall>t \<in> set (tp_tokens (ld_state loaded)). case provider_route deps pd acc (RevokeToken p (tok_tokenId t)) b of (resp, b') \<Rightarrow>
        resp = NoBody 204 \<and>
        (if tok_tokenId t \<in> revocable (provider_card local_time (JObj (provider_view deps pd registry (ld_state loaded) n)))
         then activeTokens (ld_state (provider_load (bk_rows b') acc p)) = filter (\<lambda>u. tok_tokenId u \<noteq> tok_tokenId t) (activeTokens (ld_state loaded))
           \<and> length (bk_rows b') = Suc (length (bk_rows b))
         else bk_rows b' = bk_rows b))"
proof (intro conjI allI ballI impI)
  show "case device_route deps dr acc (device_command_sends d (ic_status dst) c) b of (resp, b') \<Rightarrow>
        if c \<in> set (device_commands (ic_status dst))
        then resp_status resp = 200 \<and> length (bk_rows b') = Suc (length (bk_rows b))
          \<and> fst (loadIpClient (bk_rows b') acc d) = device_promise (gc_hash (generateCredential (rt_crypto deps) (dr_random dr) (dr_salt dr))) c dst
        else bk_rows b' = bk_rows b" for c
    by (rule device_command_works [OF assms(1-4,6)])
  show "case action_route deps dr acc req b of (resp, b') \<Rightarrow>
        if c \<in> set (action_commands (ac_status ast))
        then (resp_status resp = 200 \<or> (c = DetachCommand \<and> ac_type ast = Some HETZNER_CLOUD_FIREWALL_RULE_UPDATE_ACTION_TYPE \<and> (\<exists>err. resp = Thrown err)))
          \<and> length (bk_rows b') = Suc (length (bk_rows b)) \<and> fst (loadAction (bk_rows b') acc a) = action_promise c ast
        else bk_rows b' = bk_rows b" if "action_command_sends a (ac_status ast) c = Some req" for c req
    by (rule action_command_works [OF assms(1-4,7) that])
  show "case provider_route deps pd acc (RevokeToken p (tok_tokenId t)) b of (resp, b') \<Rightarrow>
        resp = NoBody 204 \<and>
        (if tok_tokenId t \<in> revocable (provider_card local_time (JObj (provider_view deps pd registry (ld_state loaded) n)))
         then activeTokens (ld_state (provider_load (bk_rows b') acc p)) = filter (\<lambda>u. tok_tokenId u \<noteq> tok_tokenId t) (activeTokens (ld_state loaded))
           \<and> length (bk_rows b') = Suc (length (bk_rows b))
         else bk_rows b' = bk_rows b)" if t: "t \<in> set (tp_tokens (ld_state loaded))" for t
  proof -
    have "tok_tokenId t \<in> tok_tokenId ` set (activeTokens (ld_state loaded)) \<longleftrightarrow> tok_revokedAt t = None"
      using t assms(9) by (auto simp: activeTokens_def distinct_map inj_on_def)
    with token_command_works [OF assms(1,2,5,8,9) t] show ?thesis unfolding card_revocable by (auto split: if_splits)
  qed
qed

text \<open>An enabled device, a disabled action and an agent with one valid token.\<close>

definition sample_offer_rows :: event_store where
  "sample_offer_rows = sample_history @ [sample_row ''i1'' ''acc'' ''p'' 2 (ProviderEv (TokenIssued
     \<lparr>tki_tokenId = ''t1'', tki_tokenHash = ''h'', tki_last4 = ''last'', tki_issuedAt = 0\<rparr>))]"

lemma sample_offer_facts:
  "wf_store sample_offer_rows" "tk_id (dr_tick sample_drawn) \<notin> ev_id ` set sample_offer_rows"
  "tk_id (pd_ticks sample_pd 0) \<notin> ev_id ` set sample_offer_rows"
  by (auto simp: wf_store_def aggregate_rows_def sample_offer_rows_def sample_history_defs Let_def sample_drawn_def sample_pd_def)

lemma sample_offer_provider:
  "tp_tokens (ld_state (provider_load sample_offer_rows ''acc'' ''p'')) = [\<lparr>tok_tokenId = ''t1'', tok_hash = ''h'', tok_last4 = ''last'',
     tok_issuedAt = 0, tok_revokedAt = None\<rparr>]"
  "provider_loadActive sample_offer_rows ''acc'' ''p'' = Some (provider_load sample_offer_rows ''acc'' ''p'')"
  by (simp_all add: provider_loadActive_Some provider_load_simps readStream_def in_stream_def sample_offer_rows_def sample_history_defs
      traefikProviderReducer_def initialTraefikProviderState_def)

lemma offered_commands_accepted_witness:
  "\<exists>r1 b1 r2 b2 r3 b3. device_route sample_routes sample_drawn ''acc'' (device_command_sends ''d'' IcEnabled ToggleDevice) (sample_backend sample_offer_rows) = (r1, b1)
    \<and> ic_status (fst (loadIpClient (bk_rows b1) ''acc'' ''d'')) = IcDisabled
    \<and> action_route sample_routes sample_drawn ''acc'' (EnableAction ''v'') (sample_backend sample_offer_rows) = (r2, b2)
    \<and> ac_status (fst (loadAction (bk_rows b2) ''acc'' ''v'')) = ActEnabled
    \<and> provider_route sample_routes sample_pd ''acc'' (RevokeToken ''p'' ''t1'') (sample_backend sample_offer_rows) = (r3, b3)
    \<and> activeTokens (ld_state (provider_load (bk_rows b3) ''acc'' ''p'')) = []"
proof -
  let ?b = "sample_backend sample_offer_rows" and ?l = "provider_load sample_offer_rows ''acc'' ''p''"
  obtain dst dn where d: "loadOwnedIpClient (bk_rows ?b) ''acc'' ''d'' = Some (dst, dn)" "ic_status dst = IcEnabled"
    by (simp add: loadOwnedIpClient_Some loadIpClient_def loadAggregate_def readStream_def in_stream_def sample_offer_rows_def
        sample_history_defs ipClientReducer_def initialIpClientState_def)
  obtain ast an where a: "loadOwnedAction (bk_rows ?b) ''acc'' ''v'' = Some (ast, an)" "ac_status ast = ActDisabled"
    by (simp add: loadOwnedAction_Some loadAction_def loadAggregate_def readStream_def in_stream_def sample_offer_rows_def
        sample_history_defs actionReducer_def initialActionState_def)
  have p: "provider_loadActive (bk_rows ?b) ''acc'' ''p'' = Some ?l" "distinct (map tok_tokenId (tp_tokens (ld_state ?l)))"
    by (simp_all add: sample_offer_provider)
  have wf: "wf_store (bk_rows ?b)" "undisturbed sample_routes" "rt_redisError sample_routes = None"
    "tk_id (dr_tick sample_drawn) \<notin> ev_id ` set (bk_rows ?b)" "tk_id (pd_ticks sample_pd 0) \<notin> ev_id ` set (bk_rows ?b)"
    using sample_offer_facts by simp_all
  note claim = offered_commands_accepted [where deps = sample_routes and dr = sample_drawn and pd = sample_pd, OF wf d(1) a(1) p]
  have "ic_status (fst (loadIpClient (bk_rows (snd (device_route sample_routes sample_drawn ''acc'' (device_command_sends ''d'' IcEnabled ToggleDevice) ?b))) ''acc'' ''d''))
      = IcDisabled"
    using claim [THEN conjunct1, THEN spec, of ToggleDevice] d(2) by (simp add: device_commands_def case_prod_beta)
  moreover have "ac_status (fst (loadAction (bk_rows (snd (action_route sample_routes sample_drawn ''acc'' (EnableAction ''v'') ?b))) ''acc'' ''v'')) = ActEnabled"
    using claim [THEN conjunct2, THEN conjunct1, THEN spec, of ToggleAction] a(2) by (simp add: action_commands_def case_prod_beta)
  moreover have "activeTokens (ld_state (provider_load (bk_rows (snd (provider_route sample_routes sample_pd ''acc'' (RevokeToken ''p'' ''t1'') ?b))) ''acc'' ''p'')) = []"
    using claim [THEN conjunct2, THEN conjunct2] unfolding card_revocable sample_offer_provider(1)
    by (simp add: case_prod_beta activeTokens_def sample_offer_provider(1) del: provider_route.simps)
  ultimately show ?thesis by (metis prod.collapse)
qed

text \<open>The card of an agent has an alert exactly where the replayed state holds an error.\<close>

lemma card_alerts:
  "pvc_alerts (provider_card local_time (JObj (provider_view deps pd registry st n))) = [] \<longleftrightarrow> tp_lastApplyError st = None \<and> tp_lastPublishError st = None"
proof -
  have "apply_alert (JObj (provider_view deps pd registry st n)) = [] \<longleftrightarrow> tp_lastApplyError st = None"
    by (simp add: apply_alert_def shown_prop_def provider_view_def Let_def split: option.split)
  moreover have "publish_alert (JObj (provider_view deps pd registry st n)) = [] \<longleftrightarrow> tp_lastPublishError st = None"
    by (simp add: publish_alert_def shown_prop_def provider_view_def Let_def split: option.split)
  ultimately show ?thesis by (simp add: provider_card_def Let_def)
qed

lemma card_state:
  "pvc_state (provider_card local_time (JObj (provider_view deps pd registry st n)))
     = STATE_LABEL (deriveConnectionState (pd_startedAt pd) st (registry_isConnected registry (nullish_or (tp_providerId st) [])) (pd_now pd))"
proof -
  have "state_of (connection_state_name c) = Some c" for c by (cases c) (simp_all add: state_of_def)
  moreover have "string_prop (JObj (provider_view deps pd registry st n)) ''state''
      = Some (connection_state_name (deriveConnectionState (pd_startedAt pd) st (registry_isConnected registry (nullish_or (tp_providerId st) [])) (pd_now pd)))"
    by (simp add: string_prop_def provider_view_def Let_def)
  ultimately show ?thesis by (simp add: provider_card_def Let_def)
qed

section \<open>A delivery's status on its card\<close>

text \<open>What \<open>delivery_status_items\<close> answers for one delivery.\<close>

definition status_item :: "timestamp \<Rightarrow> (id \<Rightarrow> bool) \<Rightarrow> timestamp \<Rightarrow> DeliveryAction \<Rightarrow> TraefikProviderState \<Rightarrow> DeliveryStatusItem" where
  "status_item started isConnected now da state =
     (let status = deriveDeliveryStatus started state (isConnected (da_traefikProviderId da)) now (da_status da = ActEnabled)
      in \<lparr>dsi_actionId = da_actionId da, dsi_traefikProviderId = da_traefikProviderId da, dsi_providerName = tp_name state,
          dsi_group = da_group da, dsi_status = status, dsi_publishedVersion = map_option lp_version (tp_lastPublished state),
          dsi_appliedVersion = map_option la_version (tp_lastApplied state),
          dsi_error = (if status = DsError then map_option (\<lambda>e. (ae_reason e, ae_appliedAt e)) (tp_lastApplyError state) else None)\<rparr>)"

lemma set_status_items:
  "item \<in> set (delivery_status_items started isConnected now rows acc d) \<longleftrightarrow>
     (\<exists>i da loaded. delivery_of rows acc i = Some da \<and> da_ipClientId da = d
        \<and> provider_loadActive rows acc (da_traefikProviderId da) = Some loaded \<and> item = status_item started isConnected now da (ld_state loaded))"
proof -
  have "set (List.map_filter f xs) = {y. \<exists>x \<in> set xs. f x = Some y}" for f :: "DeliveryAction \<Rightarrow> DeliveryStatusItem option" and xs
    by (induction xs) (auto simp: List.map_filter_simps split: option.split)
  then show ?thesis
    unfolding delivery_status_items_def by (fastforce simp: set_listDeliveryActions status_item_def Let_def split: option.splits)
qed

lemma map_of_key:
  assumes "x \<in> set xs" and "f x = k" and "\<And>y. y \<in> set xs \<Longrightarrow> f y = k \<Longrightarrow> y = x"
  shows "map_of (rev (map (\<lambda>y. (f y, y)) xs)) k = Some x"
proof (cases "map_of (rev (map (\<lambda>y. (f y, y)) xs)) k")
  case None
  with assms(1,2) show ?thesis by (force simp: map_of_eq_None_iff)
next
  case (Some y)
  from map_of_SomeD [OF Some] have "y \<in> set xs" "f y = k" by auto
  with assms(3) Some show ?thesis by simp
qed

text \<open>The card of a listed delivery shows the name of its agent and the status that is derived for it.\<close>

theorem delivery_card_current:
  fixes started now :: timestamp and isConnected :: "id \<Rightarrow> bool"
  assumes "delivery_of rows acc i = Some da" and "provider_loadActive rows acc (da_traefikProviderId da) = Some loaded"
    and "action \<in> set actions" and "acs_actionId action = i" and "acs_type action = TRAEFIK_CONFIG_DELIVERY_ACTION_TYPE"
    and "acs_config action = Some cf" and "cf_traefikProviderId cf \<noteq> None"
  defines "items \<equiv> delivery_status_items started isConnected now rows acc (da_ipClientId da)"
    and "item \<equiv> status_item started isConnected now da (ld_state loaded)"
  shows "(''Agent'', tp_name (ld_state loaded)) \<in> set (acd_rows (action_card (action_delivery actions items) action))"
    and "delivery_row_of item \<in> set (acd_rows (action_card (action_delivery actions items) action))"
proof -
  have id: "da_actionId da = i" using assms(1) delivery_action_id unfolding delivery_of_def by blast
  have "item \<in> set items" unfolding items_def item_def set_status_items using assms(1,2) by blast
  moreover have "item' = item" if "item' \<in> set items" "dsi_actionId item' = i" for item'
  proof -
    from that(1) obtain j da' loaded' where j: "delivery_of rows acc j = Some da'" "provider_loadActive rows acc (da_traefikProviderId da') = Some loaded'"
      "item' = status_item started isConnected now da' (ld_state loaded')" unfolding items_def set_status_items by blast
    from j(1) delivery_action_id have "da_actionId da' = j" unfolding delivery_of_def by blast
    with that(2) j have "j = i" by (simp add: status_item_def Let_def)
    with j assms(1,2) show ?thesis by (simp add: item_def)
  qed
  moreover have "dsi_actionId item = i" using id by (simp add: item_def status_item_def Let_def)
  ultimately have "map_of (rev (map (\<lambda>it. (dsi_actionId it, it)) items)) i = Some item" using map_of_key [of item items dsi_actionId i] by metis
  moreover have "list_ex (\<lambda>a. acs_type a = TRAEFIK_CONFIG_DELIVERY_ACTION_TYPE) actions" using assms(3,5) by (auto simp: list_ex_iff)
  ultimately have "action_delivery actions items i = Some item" by (simp add: action_delivery_def)
  moreover have "dsi_providerName item = tp_name (ld_state loaded)" by (simp add: item_def status_item_def Let_def)
  ultimately show "(''Agent'', tp_name (ld_state loaded)) \<in> set (acd_rows (action_card (action_delivery actions items) action))"
    and "delivery_row_of item \<in> set (acd_rows (action_card (action_delivery actions items) action))"
    using assms(4,6,7) by (auto simp: action_card_def traefik_rows_def)
qed

end
