(* ===== verification/WebForms.thy ===== *)
theory WebForms
  imports WebViews
begin

text \<open>
  The frames around the pages and the forms of the web interface, as data: the shell of the guided flows
  (\<open>flows/wizard/WizardShell.tsx\<close>) with its buttons, the review of a new action, the dialog for a credential, the pages of
  credentials, notifications and the account, the one-time result of a new agent, and the navigation. A button is what it does
  and whether it can be pressed; the lemmas compare that with what the handlers of \<open>Wizard\<close> and \<open>WebPages\<close> then do.
\<close>

section \<open>The shell of a guided flow\<close>

datatype shell_button =
    CancelButton
  | BackButton
  | NextButton bool
  | ConfirmButton string bool

definition shell_confirm :: "string option \<Rightarrow> 'd steps \<Rightarrow> 'd wizard \<Rightarrow> shell_button" where
  "shell_confirm confirmLabel steps w =
     (if isLastStep steps w
      then ConfirmButton (if wz_isSubmitting w then ''Saving'' @ ellipsis else nullish_or confirmLabel ''Finish'')
             (\<not> (\<not> canGoNext steps w \<or> wz_isSubmitting w))
      else NextButton (canGoNext steps w))"

definition shell_buttons :: "string option \<Rightarrow> 'd steps \<Rightarrow> 'd wizard \<Rightarrow> shell_button list" where
  "shell_buttons confirmLabel steps w =
     [CancelButton] @ (if canGoBack w then [BackButton] else []) @ [shell_confirm confirmLabel steps w]"

definition shell_progress :: "'d steps \<Rightarrow> 'd wizard \<Rightarrow> string \<times> string" where
  "shell_progress steps w = (ws_title (currentStep steps w),
     ''Step '' @ nat_to_string (wz_currentStepIndex w + 1) @ '' of '' @ nat_to_string (length steps))"

text \<open>What pressing a button does; leaving the flow is no event of the hook.\<close>

fun shell_press :: "shell_button \<Rightarrow> 'd wizard_event option" where
  "shell_press CancelButton = None"
| "shell_press BackButton = Some Back"
| "shell_press (NextButton enabled) = (if enabled then Some Next else None)"
| "shell_press (ConfirmButton label enabled) = (if enabled then Some Submit else None)"

text \<open>Every button that can be pressed does something: it moves to the step before or after, or submits the data once. The hook's
  own guards are never what stops a press.\<close>

theorem shell_press_acts:
  assumes "wz_currentStepIndex w < length steps" and "x \<in> set (shell_buttons confirmLabel steps w)" and "shell_press x = Some ev"
  shows "case ev of
      Back \<Rightarrow> Suc (wz_currentStepIndex (wizard_step steps ev w)) = wz_currentStepIndex w
    | Next \<Rightarrow> wz_currentStepIndex (wizard_step steps ev w) = Suc (wz_currentStepIndex w)
    | Submit \<Rightarrow> wz_submitted (wizard_step steps ev w) = wz_submitted w @ [wz_data w] \<and> wz_isSubmitting (wizard_step steps ev w)
    | _ \<Rightarrow> False"
  using assms
  by (auto simp: shell_buttons_def shell_confirm_def canGoBack_def goBack_def goNext_def submit_def isLastStep_def canGoNext_def
      split: if_splits)

text \<open>While a submission runs no second one can be started from the shell, and the last step of a flow with invalid data cannot submit.\<close>

lemma shell_no_second_submit:
  "wz_isSubmitting w \<or> \<not> canGoNext steps w \<Longrightarrow> x \<in> set (shell_buttons confirmLabel steps w) \<Longrightarrow> shell_press x \<noteq> Some Submit"
  by (auto simp: shell_buttons_def shell_confirm_def split: if_splits)

section \<open>The review of an action\<close>

definition review_families :: "ActionWizardData \<Rightarrow> string" where
  "review_families d = join_with '' and '' ((if wd_ipv4 d then [''IPv4''] else []) @ (if wd_ipv6 d then [''IPv6''] else []))"

definition review_rows :: "ActionWizardData \<Rightarrow> (string \<times> string) list" where
  "review_rows d =
     (if wd_type d = TRAEFIK_CONFIG_DELIVERY_ACTION_TYPE
      then [(''Group'', js_trim (wd_group d)), (''Sends'', ''All addresses of this device (IPv4 and IPv6)'')]
      else if wd_type d = HETZNER_CLOUD_DNS_UPDATE_ACTION_TYPE
      then [(''Zone'', wd_zone d), (''Record'', wd_recordName d), (''Keeps updated'', review_families d)]
      else [(''Firewall ID'', wd_firewallId d),
            (''Rule'', wd_direction d @ '' / '' @ wd_protocol d @ (if wd_port d \<noteq> [] then '' / '' @ wd_port d else []) @ '' / '' @ wd_description d),
            (''Keeps updated'', review_families d)])"

definition review_note :: "ActionWizardData \<Rightarrow> string" where
  "review_note d =
     (if wd_type d = TRAEFIK_CONFIG_DELIVERY_ACTION_TYPE
      then ''Once confirmed, this device's address is sent to the Traefik agent and kept up to date whenever it changes.''
      else ''Once confirmed, this '' @ (if wd_type d = HETZNER_CLOUD_DNS_UPDATE_ACTION_TYPE then ''record'' else ''rule'')
        @ '' will be kept up to date automatically whenever this device's address changes.'')"

text \<open>The review of a DNS action or a delivery says all that is sent besides the credential or agent chosen: two drafts of the same
  type and choice with the same review send the same configuration, and for DNS the same families.\<close>

lemma review_families_inj: "review_families d = review_families d' \<longleftrightarrow> wizard_families d = wizard_families d'"
  by (auto simp: review_families_def wizard_families_def)

theorem review_says_request:
  assumes "review_rows d = review_rows d'" and "wd_type d = wd_type d'" and "wd_providerCredentialId d = wd_providerCredentialId d'"
    and "wd_traefikProviderId d = wd_traefikProviderId d'"
    and "wd_type d \<in> {TRAEFIK_CONFIG_DELIVERY_ACTION_TYPE, HETZNER_CLOUD_DNS_UPDATE_ACTION_TYPE}"
  shows "wizard_config d = wizard_config d'"
    and "wd_type d = HETZNER_CLOUD_DNS_UPDATE_ACTION_TYPE \<Longrightarrow> wizard_families d = wizard_families d'"
  using assms by (auto simp: review_rows_def wizard_config_def review_families_inj TRAEFIK_CONFIG_DELIVERY_ACTION_TYPE_def
      HETZNER_CLOUD_DNS_UPDATE_ACTION_TYPE_def)

section \<open>Credentials\<close>

definition CREDENTIAL_TYPES :: "string list" where "CREDENTIAL_TYPES = [''hetzner'']"

definition masked_token :: "string \<Rightarrow> string" where
  "masked_token last4 = concat (replicate 4 (map char_of [226, 128, 162 :: nat])) @ last4"

record credential_card =
  cdc_label :: string
  cdc_type :: string
  cdc_token :: string

definition credential_card :: "ProviderCredentialState \<Rightarrow> credential_card" where
  "credential_card credential = \<lparr>cdc_label = pc_label credential, cdc_type = credentialTypeLabel (pc_provider credential),
     cdc_token = masked_token (pc_secretLast4 credential)\<rparr>"

definition form_button :: "credential_form \<Rightarrow> string \<times> bool" where
  "form_button fm = (if fm_isSubmitting fm then ''Saving'' @ ellipsis else ''Add credential'',
     \<not> (js_trim (fm_label fm) = [] \<or> js_trim (fm_secret fm) = [] \<or> fm_isSubmitting fm))"

definition form_open_change :: "bool \<Rightarrow> credential_form \<Rightarrow> credential_form" where
  "form_open_change now_open fm = (if \<not> now_open then form_reset fm else fm)"

text \<open>The button is offered exactly where a press sends something, and closing the dialog forgets the secret.\<close>

lemma form_button_sends: "snd (form_button fm) \<longleftrightarrow> snd (form_submit fm) \<noteq> None"
  by (simp add: form_button_def form_submit_def)

lemma closed_form_forgets: "fm_secret (form_open_change False fm) = [] \<and> fm_error (form_open_change False fm) = None"
  by (simp add: form_open_change_def form_reset_def)

lemma submitted_form_sends: "snd (form_submit fm) = Some body \<Longrightarrow> kb_label body = Some (js_trim (fm_label fm)) \<and> js_trim (fm_label fm) \<noteq> []"
  by (auto simp: form_submit_def form_body_def split: if_splits)

section \<open>Notifications\<close>

definition PREFERENCE_OPTIONS :: "(string \<times> string) list" where
  "PREFERENCE_OPTIONS = [(''off'', ''Off''), (''failures_only'', ''Failures only''), (''all'', ''All updates'')]"

definition channel_line :: "string list \<Rightarrow> string" where
  "channel_line addresses = join_with '', '' addresses"

definition channel_button :: "'c option \<Rightarrow> string" where
  "channel_button channel = (if channel \<noteq> None then ''Update addresses'' else ''Save'')"

definition selected_preference :: "string \<Rightarrow> (string \<times> string) option" where
  "selected_preference preference = find (\<lambda>option. fst option = preference) PREFERENCE_OPTIONS"

text \<open>The select shows the preference of every device, and each of its choices is one the route reads.\<close>

lemma preference_shown: "selected_preference (preference_name p) = Some (preference_name p, NOTIFICATION_LABEL p)"
  by (cases p) (simp_all add: selected_preference_def PREFERENCE_OPTIONS_def)

lemma preference_choice_read: "option \<in> set PREFERENCE_OPTIONS \<Longrightarrow> parse_preference (fst option) \<noteq> None"
  by (auto simp: PREFERENCE_OPTIONS_def parse_preference_def)

section \<open>Executions and the account\<close>

text \<open>The card of one execution on a narrow screen: its heading and its rows.\<close>

definition execution_card :: "(timestamp \<Rightarrow> string) \<Rightarrow> ExecutionSummary \<Rightarrow> (string \<times> string) \<times> (string \<times> string) list" where
  "execution_card local_time ex =
     ((case exs_triggeredBy ex of Some t \<Rightarrow> TRIGGERED_BY_LABEL t | None \<Rightarrow> [], EXECUTION_STATUS_LABEL (exs_status ex)),
      [(''Time'', executionTime local_time (exs_completedAt ex) (exs_failedAt ex) (exs_startedAt ex)),
       (''Address used'', or_dash (ipv_ipv4 (exs_ipValuesUsed ex)) @ '' / '' @ or_dash (ipv_ipv6 (exs_ipValuesUsed ex))),
       (''Attempt'', nat_to_string (exs_attempt ex))]
      @ (if truthy (exs_error ex) then [(''Details'', the (exs_error ex))] else []))"

text \<open>The card says what the row of the table says, besides the dash that stands for no error.\<close>

lemma card_matches_row:
  "(case execution_card local_time ex of ((trigger, status), rows) \<Rightarrow>
      [snd (rows ! 0), trigger, snd (rows ! 1), status, snd (rows ! 2)]) = butlast (execution_cells local_time ex)"
  "truthy (exs_error ex) \<Longrightarrow> snd (last (snd (execution_card local_time ex))) = last (execution_cells local_time ex)"
  by (auto simp: execution_card_def execution_cells_def or_dash_def nullish_or_def truthy_def split: option.splits)

definition account_rows :: "string \<Rightarrow> int \<Rightarrow> string \<Rightarrow> (string \<times> string) list" where
  "account_rows accountId deviceLimit status =
     [(''Account ID'', accountId), (''Device limit'', int_to_string deviceLimit),
      (''Status'', if status = ''active'' then ''Active'' else ''Closed'')]"

section \<open>A new agent\<close>

text \<open>The command as it is copied: \<open>replace\<close> turns every continuation of a line into one space.\<close>

fun one_line :: "string \<Rightarrow> string" where
  "one_line (a # b # c # d # e # cs) =
     (if [a, b, c, d, e] = '' '' @ [CHR 0x5C, CHR 0x0A] @ ''  '' then '' '' @ one_line cs else a # one_line (b # c # d # e # cs))"
| "one_line cs = cs"

lemma one_line_step: "cs = [] \<or> hd cs \<noteq> CHR 0x5C \<Longrightarrow> one_line (a # cs) = a # one_line cs"
  by (cases "a # cs" rule: one_line.cases) auto

lemma one_line_keeps:
  assumes "CHR 0x5C \<notin> set p"
  shows "one_line (p @ '' '' @ [CHR 0x5C, CHR 0x0A] @ ''  '' @ cs) = p @ '' '' @ one_line cs"
  using assms
proof (induction p)
  case (Cons a p)
  have "hd (p @ '' '' @ [CHR 0x5C, CHR 0x0A] @ ''  '' @ cs) \<noteq> CHR 0x5C" using Cons.prems by (cases p) auto
  with Cons show ?case by (simp del: one_line.simps add: one_line_step)
qed simp

lemma one_line_plain: "CHR 0x5C \<notin> set p \<Longrightarrow> one_line p = p"
proof (induction p)
  case (Cons a p)
  then have "p = [] \<or> hd p \<noteq> CHR 0x5C" by (cases p) auto
  with Cons show ?case by (simp del: one_line.simps add: one_line_step)
qed simp

lemma one_line_join:
  assumes "list_all (\<lambda>p. CHR 0x5C \<notin> set p) ps"
  shows "one_line (join_with ('' '' @ [CHR 0x5C, CHR 0x0A] @ ''  '') ps) = join_with '' '' ps"
  using assms
proof (induction ps rule: induct_list012)
  case (2 p)
  then show ?case by (simp del: one_line.simps add: one_line_plain)
next
  case (3 p q ps)
  then have "CHR 0x5C \<notin> set p" by simp
  from one_line_keeps [OF this, of "join_with ('' '' @ [CHR 0x5C, CHR 0x0A] @ ''  '') (q # ps)"] 3 show ?case
    by (simp del: one_line.simps)
qed simp

text \<open>The copied command of a new agent is one line with everything the command on the screen has.\<close>

theorem copied_command_one_line:
  assumes "CHR 0x5C \<notin> set address" and "CHR 0x5C \<notin> set token"
  shows "one_line (startCommand address token) = join_with '' ''
    [''FLUXIP_ADDRESS='' @ address, ''FLUXIP_TOKEN='' @ token, ''FLUXIP_TEMPLATES_DIR=/etc/fluxip-agent/templates'',
     ''FLUXIP_OUTPUT_DIR=/etc/traefik/dynamic'', ''fluxip-agent run'']"
  unfolding startCommand_def by (rule one_line_join) (use assms in simp)

section \<open>Navigation\<close>

definition NAV_LINKS :: "(string \<times> string) list" where
  "NAV_LINKS = [(''/ip-clients'', ''Devices''), (''/credentials'', ''Credentials''), (''/agents'', ''Agents''),
     (''/notifications'', ''Notifications'')]"

text \<open>The trail of a page: the separator in front of all but the first, a link where there is an address.\<close>

datatype crumb_item = Separator | CrumbLink "string option" string | CrumbPage "string option"

definition crumb_item :: "BreadcrumbSegment \<Rightarrow> crumb_item" where
  "crumb_item segment = (if truthy (bc_href segment) then CrumbLink (bc_label segment) (the (bc_href segment)) else CrumbPage (bc_label segment))"

fun crumb_items :: "BreadcrumbSegment list \<Rightarrow> crumb_item list" where
  "crumb_items [] = []"
| "crumb_items (segment # rest) = crumb_item segment # concat (map (\<lambda>s. [Separator, crumb_item s]) rest)"

text \<open>Every link of the navigation leads to a page whose trail is its own label.\<close>

lemma nav_links_are_pages:
  assumes "link \<in> set NAV_LINKS"
  shows "fst (resolveBreadcrumbs br decode (fst link) s) = Inr [\<lparr>bc_label = Some (snd link), bc_href = None\<rparr>]"
proof -
  have "matchRoute decode (fst link) = Inr (Some (PlainTrail (snd link), []))"
    using assms unfolding NAV_LINKS_def matchRoute_def ROUTES_def by (auto simp: pattern_match_def)
  then show ?thesis by (simp add: resolveBreadcrumbs_def)
qed

end
