(* ===== verification/Router.thy ===== *)
theory Router
  imports WebViews Cli
begin

text \<open>
  Between the pages and the routes: the table of \<open>/api\<close> routes as \<open>adapters/http/app.ts\<close> mounts them, what a route reads from a
  request, and the calls the pages make (\<open>src/frontend/src\<close>).

  Hono is a parameter: \<open>router routes method path\<close> is the registered route it picks and the parameters it reads.
  \<open>documented_router\<close> is what its documentation says for paths without percent signs: the first registered route of the method
  whose pattern matches segment by segment, a parameter matching any one segment that is not empty.
\<close>

section \<open>Bodies\<close>

text \<open>
  What a handler reads from a JSON body. Fields of another type than the handler declares are outside the model (the records do
  not hold them); a body that does not parse is read as an empty object, as the handlers' \<open>catch\<close> does.
\<close>

fun read_family :: "json \<Rightarrow> address_family option" where
  "read_family (JStr s) = (if s = ''ipv4'' then Some IPv4 else if s = ''ipv6'' then Some IPv6 else None)"
| "read_family _ = None"

definition read_families :: "json \<Rightarrow> address_family list option" where
  "read_families j = (case j of JArr xs \<Rightarrow> Some (List.map_filter read_family xs) | _ \<Rightarrow> None)"

definition read_config :: "json \<Rightarrow> ActionConfig" where
  "read_config j = \<lparr>cf_providerCredentialId = string_prop j ''providerCredentialId'', cf_zone = string_prop j ''zone'',
     cf_recordName = string_prop j ''recordName'', cf_firewallId = number_prop j ''firewallId'', cf_direction = string_prop j ''direction'',
     cf_protocol = string_prop j ''protocol'', cf_port = string_prop j ''port'', cf_description = string_prop j ''description'',
     cf_traefikProviderId = string_prop j ''traefikProviderId'', cf_group = string_prop j ''group''\<rparr>"

definition read_action_body :: "json \<Rightarrow> action_body" where
  "read_action_body j = \<lparr>ab_type = string_prop j ''type'',
     ab_addressFamilies = Option.bind (json_prop j ''addressFamilies'') read_families,
     ab_config = map_option read_config (json_prop j ''config'')\<rparr>"

definition read_credential_body :: "json \<Rightarrow> credential_body" where
  "read_credential_body j = \<lparr>kb_provider = string_prop j ''provider'', kb_label = string_prop j ''label'', kb_secret = string_prop j ''secret''\<rparr>"

definition read_provider_body :: "json \<Rightarrow> provider_body" where
  "read_provider_body j = \<lparr>pb_name = json_prop j ''name'', pb_connectionMode = json_prop j ''connectionMode''\<rparr>"

section \<open>The table\<close>

text \<open>Method, pattern and handler, in the order \<open>createApp\<close> mounts them; \<open>p\<close> looks a parameter up.\<close>

definition API_ROUTES :: "(string \<times> string \<times> ((string \<Rightarrow> id) \<Rightarrow> json \<Rightarrow> api_request)) list" where
  "API_ROUTES = [
     (''GET'', ''/api/version'', \<lambda>p j. ApiVersion),
     (''POST'', ''/api/ip-clients'', \<lambda>p j. ApiDevices (RegisterDevice (string_prop j ''label''))),
     (''GET'', ''/api/ip-clients'', \<lambda>p j. ApiDevices ListDevices),
     (''GET'', ''/api/ip-clients/:id'', \<lambda>p j. ApiDevices (GetDevice (p ''id''))),
     (''POST'', ''/api/ip-clients/:id/enable'', \<lambda>p j. ApiDevices (EnableDevice (p ''id''))),
     (''POST'', ''/api/ip-clients/:id/disable'', \<lambda>p j. ApiDevices (DisableDevice (p ''id''))),
     (''POST'', ''/api/ip-clients/:id/rotate-credential'', \<lambda>p j. ApiDevices (RotateCredential (p ''id''))),
     (''PUT'', ''/api/ip-clients/:id/notification-preference'', \<lambda>p j. ApiDevices (SetPreference (p ''id'') (string_prop j ''preference''))),
     (''DELETE'', ''/api/ip-clients/:id'', \<lambda>p j. ApiDevices (DecommissionDevice (p ''id''))),
     (''POST'', ''/api/provider-credentials'', \<lambda>p j. ApiCredentials (StoreCredential (read_credential_body j))),
     (''GET'', ''/api/provider-credentials'', \<lambda>p j. ApiCredentials ListCredentials),
     (''DELETE'', ''/api/provider-credentials/:id'', \<lambda>p j. ApiCredentials (RevokeCredential (p ''id''))),
     (''POST'', ''/api/agents'', \<lambda>p j. ApiAgents (CreateProvider (read_provider_body j))),
     (''GET'', ''/api/agents'', \<lambda>p j. ApiAgents ListProviders),
     (''GET'', ''/api/agents/:id'', \<lambda>p j. ApiAgents (GetProvider (p ''id''))),
     (''PATCH'', ''/api/agents/:id'', \<lambda>p j. ApiAgents (PatchProvider (p ''id'') (read_provider_body j))),
     (''DELETE'', ''/api/agents/:id'', \<lambda>p j. ApiAgents (DeleteProvider (p ''id''))),
     (''POST'', ''/api/agents/:id/tokens'', \<lambda>p j. ApiAgents (IssueToken (p ''id''))),
     (''DELETE'', ''/api/agents/:id/tokens/:tokenId'', \<lambda>p j. ApiAgents (RevokeToken (p ''id'') (p ''tokenId''))),
     (''GET'', ''/api/ip-clients/:ipClientId/delivery-status'', \<lambda>p j. ApiDeliveryStatus (p ''ipClientId'')),
     (''POST'', ''/api/ip-clients/:ipClientId/actions'', \<lambda>p j. ApiActions (AttachAction (p ''ipClientId'') (read_action_body j))),
     (''GET'', ''/api/ip-clients/:ipClientId/actions'', \<lambda>p j. ApiActionList (p ''ipClientId'')),
     (''PUT'', ''/api/actions/:id'', \<lambda>p j. ApiActions (ReconfigureAction (p ''id'') (read_action_body j))),
     (''POST'', ''/api/actions/:id/enable'', \<lambda>p j. ApiActions (EnableAction (p ''id''))),
     (''POST'', ''/api/actions/:id/disable'', \<lambda>p j. ApiActions (DisableAction (p ''id''))),
     (''DELETE'', ''/api/actions/:id'', \<lambda>p j. ApiActions (DetachAction (p ''id''))),
     (''GET'', ''/api/actions/:actionId/executions'', \<lambda>p j. ApiExecutions (p ''actionId'')),
     (''POST'', ''/api/actions/:id/run'', \<lambda>p j. ApiRun (p ''id'')),
     (''GET'', ''/api/ip-clients/:id/history'', \<lambda>p j. ApiHistory (p ''id'')),
     (''GET'', ''/api/notification-channel'', \<lambda>p j. ApiChannel GetChannel),
     (''POST'', ''/api/notification-channel'', \<lambda>p j. ApiChannel (RegisterChannel (string_prop j ''type'') (json_prop j ''addresses''))),
     (''PUT'', ''/api/notification-channel'', \<lambda>p j. ApiChannel (ReconfigureChannel (json_prop j ''addresses''))),
     (''DELETE'', ''/api/notification-channel'', \<lambda>p j. ApiChannel RevokeChannel),
     (''GET'', ''/api/account'', \<lambda>p j. ApiAccount),
     (''PUT'', ''/api/account/password'', \<lambda>p j. ApiPassword (string_prop j ''newPassword'')),
     (''DELETE'', ''/api/account'', \<lambda>p j. ApiCloseAccount)]"

type_synonym router = "(string \<times> string) list \<Rightarrow> string \<Rightarrow> string \<Rightarrow> (nat \<times> (string \<times> string) list) option"

definition registered :: "(string \<times> string) list" where
  "registered = map (\<lambda>(m, p, h). (m, p)) API_ROUTES"

fun segment_match :: "nat \<Rightarrow> (string \<times> string list) list \<Rightarrow> string \<Rightarrow> string list \<Rightarrow> (nat \<times> (string \<times> string) list) option" where
  "segment_match n [] method ss = None"
| "segment_match n ((m, ps) # routes) method ss =
     (case (if m = method then match_segments ps ss else None) of
        Some ms \<Rightarrow> Some (n, ms)
      | None \<Rightarrow> segment_match (Suc n) routes method ss)"

definition documented_router :: "router \<Rightarrow> bool" where
  "documented_router router = (\<forall>routes method path. CHR ''%'' \<notin> set path \<longrightarrow>
     router routes method path = segment_match 0 (map (map_prod id (split_char CHR ''/'')) routes) method (split_char CHR ''/'' path))"

definition read_body :: "(string \<Rightarrow> string + json) \<Rightarrow> string option \<Rightarrow> json" where
  "read_body parse body = (case body of None \<Rightarrow> JObj [] | Some t \<Rightarrow> (case parse t of Inl e \<Rightarrow> JObj [] | Inr j \<Rightarrow> j))"

text \<open>The request of a call to the server at \<open>origin\<close>; \<open>None\<close>: no route (404).\<close>

definition call_request :: "router \<Rightarrow> (string \<Rightarrow> string + json) \<Rightarrow> string \<Rightarrow> web_call \<Rightarrow> api_request option" where
  "call_request router parse origin call =
     (if take (length origin) (wc_url call) \<noteq> origin then None
      else map_option (\<lambda>(n, ms). snd (snd (API_ROUTES ! n)) (\<lambda>k. nullish_or (map_of ms k) []) (read_body parse (wc_body call)))
        (router registered (wc_method call) (drop (length origin) (wc_url call))))"

section \<open>Paths\<close>

text \<open>The ids of the application are UUIDs; letters, digits and hyphens are what is needed of them.\<close>

definition plain_id :: "id \<Rightarrow> bool" where
  "plain_id i = (i \<noteq> [] \<and> (\<forall>c \<in> set i. is_digit c \<or> is_letter c \<or> c = CHR ''-''))"

lemma plain_idD:
  assumes "plain_id i"
  shows "i \<noteq> []" and "CHR ''/'' \<notin> set i" and "CHR ''%'' \<notin> set i"
  using assms by (auto simp: plain_id_def is_digit_def is_letter_def Let_def)

definition route_segments :: "(string \<times> string list) list" where
  "route_segments = map (map_prod id (split_char CHR ''/'')) registered"

lemmas route_segments_eq = route_segments_def [unfolded registered_def API_ROUTES_def, simplified]

text \<open>No route is shadowed: two routes of one method never match the same path.\<close>

definition clash :: "string \<times> string list \<Rightarrow> string \<times> string list \<Rightarrow> bool" where
  "clash r r' = (fst r = fst r' \<and> compatible (snd r) (snd r'))"

fun unambiguous :: "(string \<times> string list) list \<Rightarrow> bool" where
  "unambiguous [] = True"
| "unambiguous (r # rs) = (list_all (\<lambda>r'. \<not> clash r r') rs \<and> unambiguous rs)"

lemma routes_unambiguous: "unambiguous route_segments"
  unfolding route_segments_eq by (simp add: clash_def)

text \<open>A call reaches a route: the route's request, for the router as documented.\<close>

definition reaches :: "router \<Rightarrow> 's browser \<Rightarrow> string \<Rightarrow> string \<Rightarrow> json option \<Rightarrow> api_request \<Rightarrow> bool" where
  "reaches router br method path body req =
     (call_request router (br_parse br) (getBackendUrl (br_env br)) (api_call br method path body) = Some req)"

definition sent_body :: "(string \<Rightarrow> string + json) \<Rightarrow> json option \<Rightarrow> json" where
  "sent_body parse body = read_body parse (body_text body)"

lemma sent_body_None: "sent_body parse None = JObj []"
  by (simp add: sent_body_def body_text_def read_body_def)

lemma sent_body_object: "reads_back br (JObj fs) \<Longrightarrow> sent_body (br_parse br) (Some (JObj fs)) = JObj fs"
  by (simp add: sent_body_def body_text_def read_body_def reads_back_def)

lemma reachesI:
  assumes "documented_router router" and "CHR ''%'' \<notin> set path"
    and "segment_match 0 route_segments method (split_char CHR ''/'' (''/api'' @ path)) = Some (n, ms)"
    and "snd (snd (API_ROUTES ! n)) (\<lambda>k. nullish_or (map_of ms k) []) (sent_body (br_parse br) body) = req"
  shows "reaches router br method path body req"
proof -
  have "router registered method (''/api'' @ path) = Some (n, ms)"
    using assms(1-3) unfolding documented_router_def route_segments_def by simp
  with assms(4) show ?thesis by (simp add: reaches_def call_request_def api_call_def sent_body_def)
qed

lemma split_plain:
  assumes "plain_id i"
  shows "split_char CHR ''/'' (i @ CHR ''/'' # t) = i # split_char CHR ''/'' t" and "split_char CHR ''/'' i = [i]" and "i \<noteq> []"
    and "CHR ''%'' \<notin> set i"
  using plain_idD [OF assms] split_no_slash split_char_no_sep by auto

text \<open>Where each path of the interface leads.\<close>

lemma device_paths:
  assumes "documented_router router" and "plain_id i"
  shows "reaches router br ''GET'' ''/ip-clients'' None (ApiDevices ListDevices)"
    and "reaches router br ''GET'' (''/ip-clients/'' @ i) None (ApiDevices (GetDevice i))"
    and "reaches router br ''POST'' (''/ip-clients/'' @ i @ ''/enable'') None (ApiDevices (EnableDevice i))"
    and "reaches router br ''POST'' (''/ip-clients/'' @ i @ ''/disable'') None (ApiDevices (DisableDevice i))"
    and "reaches router br ''POST'' (''/ip-clients/'' @ i @ ''/rotate-credential'') None (ApiDevices (RotateCredential i))"
    and "reaches router br ''DELETE'' (''/ip-clients/'' @ i) None (ApiDevices (DecommissionDevice i))"
    and "reaches router br ''GET'' (''/ip-clients/'' @ i @ ''/actions'') None (ApiActionList i)"
    and "reaches router br ''GET'' (''/ip-clients/'' @ i @ ''/history'') None (ApiHistory i)"
    and "reaches router br ''GET'' (''/ip-clients/'' @ i @ ''/delivery-status'') None (ApiDeliveryStatus i)"
    and "reads_back br (JObj [(''preference'', JStr v)]) \<Longrightarrow> reaches router br ''PUT'' (''/ip-clients/'' @ i @ ''/notification-preference'')
      (Some (JObj [(''preference'', JStr v)])) (ApiDevices (SetPreference i (Some v)))"
  using split_plain [OF assms(2)]
  by (auto intro!: reachesI [OF assms(1)] simp: route_segments_eq API_ROUTES_def sent_body_object string_prop_def)

lemma action_paths:
  assumes "documented_router router" and "plain_id i"
  shows "reaches router br ''POST'' (''/actions/'' @ i @ ''/enable'') None (ApiActions (EnableAction i))"
    and "reaches router br ''POST'' (''/actions/'' @ i @ ''/disable'') None (ApiActions (DisableAction i))"
    and "reaches router br ''DELETE'' (''/actions/'' @ i) None (ApiActions (DetachAction i))"
    and "reaches router br ''GET'' (''/actions/'' @ i @ ''/executions'') None (ApiExecutions i)"
    and "reaches router br ''POST'' (''/actions/'' @ i @ ''/run'') None (ApiRun i)"
  using split_plain [OF assms(2)]
  by (auto intro!: reachesI [OF assms(1)] simp: route_segments_eq API_ROUTES_def)

lemma credential_paths:
  assumes "documented_router router" and "plain_id i"
  shows "reaches router br ''GET'' ''/provider-credentials'' None (ApiCredentials ListCredentials)"
    and "reaches router br ''DELETE'' (''/provider-credentials/'' @ i) None (ApiCredentials (RevokeCredential i))"
  using split_plain [OF assms(2)]
  by (auto intro!: reachesI [OF assms(1)] simp: route_segments_eq API_ROUTES_def)

lemma agent_paths:
  assumes "documented_router router" and "plain_id i" and "plain_id t"
  shows "reaches router br ''GET'' ''/agents'' None (ApiAgents ListProviders)"
    and "reaches router br ''GET'' (''/agents/'' @ i) None (ApiAgents (GetProvider i))"
    and "reaches router br ''DELETE'' (''/agents/'' @ i) None (ApiAgents (DeleteProvider i))"
    and "reaches router br ''POST'' (''/agents/'' @ i @ ''/tokens'') None (ApiAgents (IssueToken i))"
    and "reaches router br ''DELETE'' (''/agents/'' @ i @ ''/tokens/'' @ t) None (ApiAgents (RevokeToken i t))"
    and "reads_back br (JObj [(''name'', JStr v)]) \<Longrightarrow> reaches router br ''PATCH'' (''/agents/'' @ i) (Some (JObj [(''name'', JStr v)]))
      (ApiAgents (PatchProvider i \<lparr>pb_name = Some (JStr v), pb_connectionMode = None\<rparr>))"
  using split_plain [OF assms(2)] split_plain [OF assms(3)]
  by (auto intro!: reachesI [OF assms(1)] simp: route_segments_eq API_ROUTES_def sent_body_object read_provider_body_def)

lemma channel_paths:
  assumes "documented_router router"
  shows "reaches router br ''GET'' ''/notification-channel'' None (ApiChannel GetChannel)"
    and "reaches router br ''DELETE'' ''/notification-channel'' None (ApiChannel RevokeChannel)"
    and "reads_back br (JObj [(''type'', JStr v), (''addresses'', j)]) \<Longrightarrow> reaches router br ''POST'' ''/notification-channel''
      (Some (JObj [(''type'', JStr v), (''addresses'', j)])) (ApiChannel (RegisterChannel (Some v) (Some j)))"
    and "reads_back br (JObj [(''addresses'', j)]) \<Longrightarrow> reaches router br ''PUT'' ''/notification-channel''
      (Some (JObj [(''addresses'', j)])) (ApiChannel (ReconfigureChannel (Some j)))"
  by (auto intro!: reachesI [OF assms] simp: route_segments_eq API_ROUTES_def sent_body_object string_prop_def)

lemma account_paths:
  assumes "documented_router router"
  shows "reaches router br ''GET'' ''/account'' None ApiAccount"
    and "reaches router br ''GET'' ''/version'' None ApiVersion"
    and "reaches router br ''DELETE'' ''/account'' None ApiCloseAccount"
    and "reads_back br (JObj [(''newPassword'', JStr v)]) \<Longrightarrow> reaches router br ''PUT'' ''/account/password''
      (Some (JObj [(''newPassword'', JStr v)])) (ApiPassword (Some v))"
  by (auto intro!: reachesI [OF assms] simp: route_segments_eq API_ROUTES_def sent_body_object string_prop_def)

section \<open>What the flow of an action sends\<close>

text \<open>The body as the flow writes it; \<open>JSON.stringify\<close> leaves fields out that are undefined.\<close>

fun family_name :: "address_family \<Rightarrow> string" where
  "family_name IPv4 = ''ipv4''"
| "family_name IPv6 = ''ipv6''"

definition text_field :: "string \<Rightarrow> string option \<Rightarrow> (string \<times> json) list" where
  "text_field k v = opt_field k (map_option JStr v)"

definition config_json :: "ActionConfig \<Rightarrow> json" where
  "config_json cf = JObj (text_field ''providerCredentialId'' (cf_providerCredentialId cf) @ text_field ''zone'' (cf_zone cf)
     @ text_field ''recordName'' (cf_recordName cf) @ opt_field ''firewallId'' (map_option JNum (cf_firewallId cf))
     @ text_field ''direction'' (cf_direction cf) @ text_field ''protocol'' (cf_protocol cf) @ text_field ''port'' (cf_port cf)
     @ text_field ''description'' (cf_description cf) @ text_field ''traefikProviderId'' (cf_traefikProviderId cf)
     @ text_field ''group'' (cf_group cf))"

definition action_body_json :: "action_body \<Rightarrow> json" where
  "action_body_json body = JObj (text_field ''type'' (ab_type body)
     @ opt_field ''addressFamilies'' (map_option (\<lambda>fs. JArr (map (\<lambda>f. JStr (family_name f)) fs)) (ab_addressFamilies body))
     @ opt_field ''config'' (map_option config_json (ab_config body)))"

definition action_flow_send :: "'s browser \<Rightarrow> action_request \<Rightarrow> 's \<Rightarrow> (web_error + json option) \<times> 's" where
  "action_flow_send br req s = (case req of
       AttachAction ipClientId body \<Rightarrow> api br ''POST'' (''/ip-clients/'' @ ipClientId @ ''/actions'') (Some (action_body_json body)) s
     | ReconfigureAction actionId body \<Rightarrow> api br ''PUT'' (''/actions/'' @ actionId) (Some (action_body_json body)) s
     | _ \<Rightarrow> (Inr None, s))"

lemma map_of_text_field: "map_of (text_field k v @ fs) k' = (if k = k' then nullish (map_option JStr v) (map_of fs k') else map_of fs k')"
  by (cases v) (simp_all add: text_field_def opt_field_def nullish_def)

lemma map_of_opt_field: "map_of (opt_field k v @ fs) k' = (if k = k' then nullish v (map_of fs k') else map_of fs k')"
  by (cases v) (simp_all add: opt_field_def nullish_def)

lemmas map_of_fields = map_of_text_field map_of_text_field [where fs = "[]", simplified] map_of_opt_field map_of_opt_field [where fs = "[]", simplified]

lemma read_config_json: "read_config (config_json cf) = cf"
proof -
  have texts: "string_prop (JObj fs) k = v" if "map_of fs k = map_option JStr v" for fs k v
    using that by (cases v) (simp_all add: string_prop_def)
  have number: "number_prop (JObj fs) k = v" if "map_of fs k = map_option JNum v" for fs k v
    using that by (cases v) (simp_all add: number_prop_def)
  show ?thesis unfolding read_config_def config_json_def
    by (intro ActionConfig.equality) (simp_all add: texts number map_of_fields del: map_of_append)
qed

lemma read_families_json: "read_families (JArr (map (\<lambda>f. JStr (family_name f)) fs)) = Some fs"
proof -
  have "read_family (JStr (family_name f)) = Some f" for f by (cases f) simp_all
  then show ?thesis by (induction fs) (simp_all add: read_families_def map_filter_simps del: read_family.simps)
qed

lemma read_action_body_json: "read_action_body (action_body_json body) = body"
proof -
  have "string_prop (action_body_json body) ''type'' = ab_type body"
    by (cases "ab_type body") (simp_all add: string_prop_def action_body_json_def map_of_fields del: map_of_append)
  moreover have "Option.bind (json_prop (action_body_json body) ''addressFamilies'') read_families = ab_addressFamilies body"
    by (cases "ab_addressFamilies body") (simp_all add: action_body_json_def map_of_fields read_families_json del: map_of_append)
  moreover have "map_option read_config (json_prop (action_body_json body) ''config'') = ab_config body"
    by (cases "ab_config body") (simp_all add: action_body_json_def map_of_fields read_config_json del: map_of_append)
  ultimately show ?thesis by (simp add: read_action_body_def)
qed

lemma flow_paths:
  assumes "documented_router router" and "plain_id i" and "reads_back br (action_body_json body)"
  shows "reaches router br ''POST'' (''/ip-clients/'' @ i @ ''/actions'') (Some (action_body_json body)) (ApiActions (AttachAction i body))"
    and "reaches router br ''PUT'' (''/actions/'' @ i) (Some (action_body_json body)) (ApiActions (ReconfigureAction i body))"
proof -
  have body: "read_action_body (sent_body (br_parse br) (Some (action_body_json body))) = body"
    using assms(3) sent_body_object [of br] read_action_body_json [of body] unfolding action_body_json_def by simp
  show "reaches router br ''POST'' (''/ip-clients/'' @ i @ ''/actions'') (Some (action_body_json body)) (ApiActions (AttachAction i body))"
    and "reaches router br ''PUT'' (''/actions/'' @ i) (Some (action_body_json body)) (ApiActions (ReconfigureAction i body))"
    using split_plain [OF assms(2)] by (auto intro!: reachesI [OF assms(1)] simp: route_segments_eq API_ROUTES_def body)
qed

section \<open>Every handler's calls\<close>

text \<open>A browser that records its calls and gets any answers; a handler sends a prefix of \<open>reqs\<close>, which is not empty.\<close>

definition records :: "web_call list browser \<Rightarrow> bool" where
  "records br = (\<exists>answers. br_fetch br = (\<lambda>call calls. (answers (calls @ [call]), calls @ [call])))"

definition sends :: "router \<Rightarrow> web_call list browser \<Rightarrow> (web_call list \<Rightarrow> 'r \<times> web_call list) \<Rightarrow> api_request list \<Rightarrow> bool" where
  "sends router br h reqs = (\<exists>k > 0. map (call_request router (br_parse br) (getBackendUrl (br_env br))) (snd (h [])) = map Some (take k reqs))"

lemma records_api:
  assumes "records br"
  shows "\<exists>answer. \<forall>m p b s. api br m p b s = (answer (s @ [api_call br m p b]), s @ [api_call br m p b])"
proof -
  from assms obtain answers where "br_fetch br = (\<lambda>call calls. (answers (calls @ [call]), calls @ [call]))" by (auto simp: records_def)
  then show ?thesis by (intro exI [of _ "\<lambda>cs. read_answer (br_parse br) (answers cs)"]) (simp add: api_def)
qed

lemma sends_one:
  assumes "snd (h []) = [api_call br m p b]" and "reaches router br m p b req"
  shows "sends router br h [req]"
  using assms unfolding sends_def reaches_def by (intro exI [of _ 1]) simp

lemma sends_two:
  assumes "snd (h []) = [api_call br m p b] \<or> snd (h []) = [api_call br m p b, api_call br m' p' b']"
    and "reaches router br m p b req" and "reaches router br m' p' b' req'"
  shows "sends router br h [req, req']"
  using assms unfolding sends_def reaches_def by (elim disjE) (intro exI [of _ 1], simp, intro exI [of _ 2], simp)

lemma sends_refetch:
  assumes "records br" and "reaches router br m p b req" and "reaches router br ''GET'' list None req'"
  shows "sends router br (send_and_refetch br m p b list pg) [req, req']"
proof -
  obtain answer where answer: "\<forall>m p b s. api br m p b s = (answer (s @ [api_call br m p b]), s @ [api_call br m p b])"
    using records_api [OF assms(1)] by blast
  have "snd (send_and_refetch br m p b list pg []) = [api_call br m p b]
      \<or> snd (send_and_refetch br m p b list pg []) = [api_call br m p b, api_call br ''GET'' list None]"
    by (simp add: send_and_refetch_def refetch_def answer split: sum.split)
  then show ?thesis using sends_two assms(2,3) by blast
qed

lemma device_handlers_send:
  assumes "documented_router router" and "records br" and "plain_id d"
  shows "sends router br (handleToggle br d status pg)
      [ApiDevices (if status = ''enabled'' then DisableDevice d else EnableDevice d), ApiDevices (GetDevice d)]"
    and "sends router br (handleDecommission br True d pg) [ApiDevices (DecommissionDevice d), ApiDevices (GetDevice d)]"
    and "sends router br (handleRotate br True d (pg, shown)) [ApiDevices (RotateCredential d)]"
    and "reads_back br (JObj [(''preference'', JStr v)]) \<Longrightarrow>
      sends router br (handlePreferenceChange br d v pg) [ApiDevices (SetPreference d (Some v)), ApiDevices ListDevices]"
proof -
  note paths = device_paths [OF assms(1,3)]
  show "sends router br (handleToggle br d status pg)
      [ApiDevices (if status = ''enabled'' then DisableDevice d else EnableDevice d), ApiDevices (GetDevice d)]"
    unfolding handleToggle_def device_path_def using paths by (cases "status = ''enabled''") (auto intro!: sends_refetch [OF assms(2)])
  have "handleDecommission br True d pg = send_and_refetch br ''DELETE'' (device_path d) None (device_path d) pg"
    by (rule ext) (simp add: handleDecommission_def)
  then show "sends router br (handleDecommission br True d pg) [ApiDevices (DecommissionDevice d), ApiDevices (GetDevice d)]"
    using paths by (auto simp: device_path_def intro!: sends_refetch [OF assms(2)])
  obtain answer where answer: "\<forall>m p b s. api br m p b s = (answer (s @ [api_call br m p b]), s @ [api_call br m p b])"
    using records_api [OF assms(2)] by blast
  have "snd (handleRotate br True d (pg, shown) []) = [api_call br ''POST'' (''/ip-clients/'' @ d @ ''/rotate-credential'') None]"
    by (simp add: handleRotate_def Let_def answer device_path_def split: sum.split option.split)
  then show "sends router br (handleRotate br True d (pg, shown)) [ApiDevices (RotateCredential d)]" by (rule sends_one [OF _ paths(5)])
  show "sends router br (handlePreferenceChange br d v pg) [ApiDevices (SetPreference d (Some v)), ApiDevices ListDevices]"
    if "reads_back br (JObj [(''preference'', JStr v)])"
    unfolding handlePreferenceChange_def device_path_def append_assoc using paths(10) [OF that] paths(1) by (intro sends_refetch [OF assms(2)])
qed

lemma action_handlers_send:
  assumes "documented_router router" and "records br" and "plain_id d" and "plain_id a"
  shows "sends router br (action_toggle br d a status pg)
      [ApiActions (if status = ''enabled'' then DisableAction a else EnableAction a), ApiActionList d]"
    and "sends router br (handleDetach br True d a pg) [ApiActions (DetachAction a), ApiActionList d]"
    and "sends router br (handleRerun br a pg) [ApiRun a, ApiExecutions a]"
    and "reads_back br (action_body_json body) \<Longrightarrow> sends router br (action_flow_send br (AttachAction d body)) [ApiActions (AttachAction d body)]"
    and "reads_back br (action_body_json body) \<Longrightarrow> sends router br (action_flow_send br (ReconfigureAction a body)) [ApiActions (ReconfigureAction a body)]"
proof -
  note paths = action_paths [OF assms(1,4)] device_paths(7) [OF assms(1,3)]
  show "sends router br (action_toggle br d a status pg)
      [ApiActions (if status = ''enabled'' then DisableAction a else EnableAction a), ApiActionList d]"
    unfolding action_toggle_def actions_path_def using paths by (cases "status = ''enabled''") (auto intro!: sends_refetch [OF assms(2)])
  have "handleDetach br True d a pg = send_and_refetch br ''DELETE'' (''/actions/'' @ a) None (actions_path d) pg"
    by (rule ext) (simp add: handleDetach_def)
  then show "sends router br (handleDetach br True d a pg) [ApiActions (DetachAction a), ApiActionList d]"
    using paths by (auto simp: actions_path_def intro!: sends_refetch [OF assms(2)])
  show "sends router br (handleRerun br a pg) [ApiRun a, ApiExecutions a]"
    unfolding handleRerun_def using paths(4,5) by (intro sends_refetch [OF assms(2)])
  obtain answer where answer: "\<forall>m p b s. api br m p b s = (answer (s @ [api_call br m p b]), s @ [api_call br m p b])"
    using records_api [OF assms(2)] by blast
  show "sends router br (action_flow_send br (AttachAction d body)) [ApiActions (AttachAction d body)]" if "reads_back br (action_body_json body)"
    by (rule sends_one [OF _ flow_paths(1) [OF assms(1,3) that]]) (simp add: action_flow_send_def answer)
  show "sends router br (action_flow_send br (ReconfigureAction a body)) [ApiActions (ReconfigureAction a body)]" if "reads_back br (action_body_json body)"
    by (rule sends_one [OF _ flow_paths(2) [OF assms(1,4) that]]) (simp add: action_flow_send_def answer)
qed

lemma credential_handlers_send:
  assumes "documented_router router" and "records br" and "plain_id k"
  shows "sends router br (credential_delete br True k pg) [ApiCredentials (RevokeCredential k), ApiCredentials ListCredentials]"
proof -
  obtain answer where answer: "\<forall>m p b s. api br m p b s = (answer (s @ [api_call br m p b]), s @ [api_call br m p b])"
    using records_api [OF assms(2)] by blast
  show ?thesis
    by (rule sends_two [OF _ credential_paths(2) [OF assms(1,3)] credential_paths(1) [OF assms(1,3)]])
      (simp add: credential_delete_def refetch_def Let_def answer split: sum.split option.split)
qed

lemma agent_handlers_send:
  assumes "documented_router router" and "records br" and "plain_id p" and "plain_id t"
  shows "sends router br (handleDelete br True p pg) [ApiAgents (DeleteProvider p), ApiAgents ListProviders]"
    and "sends router br (handleNewToken br p name (pg, shown)) [ApiAgents (IssueToken p), ApiAgents ListProviders]"
    and "sends router br (handleRevoke br True p t pg) [ApiAgents (RevokeToken p t), ApiAgents ListProviders]"
    and "js_trim v \<noteq> [] \<Longrightarrow> js_trim v \<noteq> name \<Longrightarrow> reads_back br (JObj [(''name'', JStr (js_trim v))]) \<Longrightarrow>
      sends router br (handleRename br (Some v) p name pg)
        [ApiAgents (PatchProvider p \<lparr>pb_name = Some (JStr (js_trim v)), pb_connectionMode = None\<rparr>), ApiAgents ListProviders]"
proof -
  note paths = agent_paths [OF assms(1,3,4)]
  obtain answer where answer: "\<forall>m p b s. api br m p b s = (answer (s @ [api_call br m p b]), s @ [api_call br m p b])"
    using records_api [OF assms(2)] by blast
  have guarded: "snd (guarded br (\<lambda>s. api br m q b s) pg []) = [api_call br m q b]
      \<or> snd (guarded br (\<lambda>s. api br m q b s) pg []) = [api_call br m q b, api_call br ''GET'' ''/agents'' None]" for m q b
    by (simp add: guarded_def refetch_def Let_def answer split: sum.split option.split)
  show "sends router br (handleDelete br True p pg) [ApiAgents (DeleteProvider p), ApiAgents ListProviders]"
    by (rule sends_two [OF _ paths(3) paths(1)]) (use guarded in \<open>simp add: handleDelete_def agent_path_def\<close>)
  show "sends router br (handleRevoke br True p t pg) [ApiAgents (RevokeToken p t), ApiAgents ListProviders]"
    by (rule sends_two [OF _ paths(5) paths(1)]) (use guarded in \<open>simp add: handleRevoke_def agent_path_def\<close>)
  show "sends router br (handleNewToken br p name (pg, shown)) [ApiAgents (IssueToken p), ApiAgents ListProviders]"
    by (rule sends_two [OF _ paths(4) paths(1)])
      (simp add: handleNewToken_def guarded_def refetch_def Let_def agent_path_def answer split: sum.split option.split)
  show "sends router br (handleRename br (Some v) p name pg)
      [ApiAgents (PatchProvider p \<lparr>pb_name = Some (JStr (js_trim v)), pb_connectionMode = None\<rparr>), ApiAgents ListProviders]"
    if "js_trim v \<noteq> []" "js_trim v \<noteq> name" "reads_back br (JObj [(''name'', JStr (js_trim v))])"
    by (rule sends_two [OF _ paths(6) [OF that(3)] paths(1)])
      (use guarded that(1,2) in \<open>simp add: handleRename_def agent_path_def Let_def\<close>)
qed

lemma setting_handlers_send:
  assumes "documented_router router" and "records br"
  shows "sends router br (channel_delete br np) [ApiChannel RevokeChannel, ApiChannel GetChannel]"
    and "reads_back br (JObj [(''addresses'', JArr (map JStr (addressList (np_addresses np))))]) \<Longrightarrow>
      reads_back br (JObj [(''type'', JStr ''email''), (''addresses'', JArr (map JStr (addressList (np_addresses np))))]) \<Longrightarrow>
      sends router br (handleSave br np)
        [if current_channel np \<noteq> None then ApiChannel (ReconfigureChannel (Some (JArr (map JStr (addressList (np_addresses np))))))
         else ApiChannel (RegisterChannel (Some ''email'') (Some (JArr (map JStr (addressList (np_addresses np)))))), ApiChannel GetChannel]"
    and "reads_back br (JObj [(''newPassword'', JStr (ap_newPassword ap))]) \<Longrightarrow>
      sends router br (handlePasswordChange br ap) [ApiPassword (Some (ap_newPassword ap))]"
    and "sends router br (handleDeleteAccount br True ap) [ApiCloseAccount]"
proof -
  note paths = channel_paths [OF assms(1)] account_paths [OF assms(1)]
  obtain answer where answer: "\<forall>m p b s. api br m p b s = (answer (s @ [api_call br m p b]), s @ [api_call br m p b])"
    using records_api [OF assms(2)] by blast
  have fetch: "snd (fetchChannel br s) = s @ [api_call br ''GET'' ''/notification-channel'' None]" for s
    by (simp add: fetchChannel_def answer split: sum.split web_error.split)
  show "sends router br (channel_delete br np) [ApiChannel RevokeChannel, ApiChannel GetChannel]"
    by (rule sends_two [OF _ paths(2,1)]) (simp add: channel_delete_def answer fetch case_prod_beta split: sum.split)
  show "sends router br (handleDeleteAccount br True ap) [ApiCloseAccount]"
    by (rule sends_one [OF _ paths(7)]) (simp add: handleDeleteAccount_def Let_def answer split: sum.split)
  show "sends router br (handlePasswordChange br ap) [ApiPassword (Some (ap_newPassword ap))]"
    if "reads_back br (JObj [(''newPassword'', JStr (ap_newPassword ap))])"
    by (rule sends_one [OF _ paths(8) [OF that]]) (simp add: handlePasswordChange_def Let_def answer split: sum.split)
  show "sends router br (handleSave br np)
        [if current_channel np \<noteq> None then ApiChannel (ReconfigureChannel (Some (JArr (map JStr (addressList (np_addresses np))))))
         else ApiChannel (RegisterChannel (Some ''email'') (Some (JArr (map JStr (addressList (np_addresses np)))))), ApiChannel GetChannel]"
    if "reads_back br (JObj [(''addresses'', JArr (map JStr (addressList (np_addresses np))))])"
      "reads_back br (JObj [(''type'', JStr ''email''), (''addresses'', JArr (map JStr (addressList (np_addresses np))))])"
  proof (cases "current_channel np = None")
    case True
    then have "snd (handleSave br np []) = [api_call br ''POST'' ''/notification-channel'' (Some (JObj [(''type'', JStr ''email''), (''addresses'', JArr (map JStr (addressList (np_addresses np))))]))]
      \<or> snd (handleSave br np []) = [api_call br ''POST'' ''/notification-channel'' (Some (JObj [(''type'', JStr ''email''), (''addresses'', JArr (map JStr (addressList (np_addresses np))))])),
          api_call br ''GET'' ''/notification-channel'' None]"
      by (simp add: handleSave_def Let_def current_channel_def answer fetch case_prod_beta split: sum.split)
    from sends_two [where h = "handleSave br np", OF this paths(3) [OF that(2)] paths(1)] True show ?thesis by simp
  next
    case False
    then have "snd (handleSave br np []) = [api_call br ''PUT'' ''/notification-channel'' (Some (JObj [(''addresses'', JArr (map JStr (addressList (np_addresses np))))]))]
      \<or> snd (handleSave br np []) = [api_call br ''PUT'' ''/notification-channel'' (Some (JObj [(''addresses'', JArr (map JStr (addressList (np_addresses np))))])),
          api_call br ''GET'' ''/notification-channel'' None]"
      by (simp add: handleSave_def Let_def current_channel_def answer fetch case_prod_beta split: sum.split)
    from sends_two [where h = "handleSave br np", OF this paths(4) [OF that(1)] paths(1)] False show ?thesis by simp
  qed
qed

text \<open>The bodies of the handlers that send one.\<close>

definition sent_bodies :: "string \<Rightarrow> string \<Rightarrow> notification_page \<Rightarrow> account_page \<Rightarrow> action_body \<Rightarrow> json list" where
  "sent_bodies preference v np ap body =
     (let addresses = JArr (map JStr (addressList (np_addresses np))) in
      [JObj [(''preference'', JStr preference)], JObj [(''name'', JStr (js_trim v))], JObj [(''addresses'', addresses)],
       JObj [(''type'', JStr ''email''), (''addresses'', addresses)], JObj [(''newPassword'', JStr (ap_newPassword ap))],
       action_body_json body])"

text \<open>C23. Whatever is answered, the calls a page makes lead to the routes they are meant for.\<close>

theorem page_commands_reach_routes:
  fixes br :: "web_call list browser"
  assumes "documented_router router" and "records br" and "list_all plain_id [d, a, p, t, k]"
    and "js_trim v \<noteq> []" and "js_trim v \<noteq> name" and "\<forall>j \<in> set (sent_bodies preference v np ap body). reads_back br j"
  shows "sends router br (handleToggle br d status pg)
        [ApiDevices (if status = ''enabled'' then DisableDevice d else EnableDevice d), ApiDevices (GetDevice d)]
    \<and> sends router br (handleRotate br True d (pg, shown)) [ApiDevices (RotateCredential d)]
    \<and> sends router br (handleDecommission br True d pg) [ApiDevices (DecommissionDevice d), ApiDevices (GetDevice d)]
    \<and> sends router br (handlePreferenceChange br d preference pg) [ApiDevices (SetPreference d (Some preference)), ApiDevices ListDevices]
    \<and> sends router br (action_toggle br d a status pg)
        [ApiActions (if status = ''enabled'' then DisableAction a else EnableAction a), ApiActionList d]
    \<and> sends router br (handleDetach br True d a pg) [ApiActions (DetachAction a), ApiActionList d]
    \<and> sends router br (handleRerun br a pg) [ApiRun a, ApiExecutions a]
    \<and> sends router br (action_flow_send br (AttachAction d body)) [ApiActions (AttachAction d body)]
    \<and> sends router br (action_flow_send br (ReconfigureAction a body)) [ApiActions (ReconfigureAction a body)]
    \<and> sends router br (credential_delete br True k pg) [ApiCredentials (RevokeCredential k), ApiCredentials ListCredentials]
    \<and> sends router br (handleRename br (Some v) p name pg)
        [ApiAgents (PatchProvider p \<lparr>pb_name = Some (JStr (js_trim v)), pb_connectionMode = None\<rparr>), ApiAgents ListProviders]
    \<and> sends router br (handleDelete br True p pg) [ApiAgents (DeleteProvider p), ApiAgents ListProviders]
    \<and> sends router br (handleNewToken br p name (pg, token)) [ApiAgents (IssueToken p), ApiAgents ListProviders]
    \<and> sends router br (handleRevoke br True p t pg) [ApiAgents (RevokeToken p t), ApiAgents ListProviders]
    \<and> sends router br (handleSave br np)
        [if current_channel np \<noteq> None then ApiChannel (ReconfigureChannel (Some (JArr (map JStr (addressList (np_addresses np))))))
         else ApiChannel (RegisterChannel (Some ''email'') (Some (JArr (map JStr (addressList (np_addresses np)))))), ApiChannel GetChannel]
    \<and> sends router br (channel_delete br np) [ApiChannel RevokeChannel, ApiChannel GetChannel]
    \<and> sends router br (handlePasswordChange br ap) [ApiPassword (Some (ap_newPassword ap))]
    \<and> sends router br (handleDeleteAccount br True ap) [ApiCloseAccount]"
proof -
  have ids: "plain_id d" "plain_id a" "plain_id p" "plain_id t" "plain_id k" using assms(3) by simp_all
  from assms(6) have bodies: "reads_back br (JObj [(''preference'', JStr preference)])" "reads_back br (JObj [(''name'', JStr (js_trim v))])"
    "reads_back br (JObj [(''addresses'', JArr (map JStr (addressList (np_addresses np))))])"
    "reads_back br (JObj [(''type'', JStr ''email''), (''addresses'', JArr (map JStr (addressList (np_addresses np))))])"
    "reads_back br (JObj [(''newPassword'', JStr (ap_newPassword ap))])" "reads_back br (action_body_json body)"
    by (simp_all add: sent_bodies_def Let_def)
  note device = device_handlers_send [OF assms(1,2) ids(1)] and action = action_handlers_send [OF assms(1,2) ids(1,2)]
    and agent = agent_handlers_send [OF assms(1,2) ids(3,4)] and settings = setting_handlers_send [OF assms(1,2)]
  show ?thesis
    by (intro conjI device(1-3) device(4) [OF bodies(1)] action(1-3) action(4,5) [OF bodies(6)] agent(1-3) agent(4) [OF assms(4,5) bodies(2)]
        credential_handlers_send [OF assms(1,2) ids(5)] settings(1,4) settings(2) [OF bodies(3,4)] settings(3) [OF bodies(5)])
qed

definition sample_read :: "json list \<Rightarrow> string \<Rightarrow> string + json" where
  "sample_read bodies t = (case find (\<lambda>j. json_stringify j = t) bodies of Some j \<Rightarrow> Inr j | None \<Rightarrow> Inl [])"

definition segment_router :: router where
  "segment_router routes method path = segment_match 0 (map (map_prod id (split_char CHR ''/'')) routes) method (split_char CHR ''/'' path)"

lemma segment_router_documented: "documented_router segment_router"
  by (simp add: documented_router_def segment_router_def)

definition sample_np :: notification_page where
  "sample_np = \<lparr>np_channel = None, np_addresses = ''a@b, c@d'', np_error = None\<rparr>"

definition sample_ap :: account_page where
  "sample_ap = \<lparr>ap_newPassword = ''pw'', ap_passwordError = None, ap_passwordSuccess = False, ap_deleteError = None, ap_left = False\<rparr>"

definition sample_recorder :: "web_call list browser" where
  "sample_recorder = \<lparr>br_env = \<lparr>we_window = None, we_build = (\<lambda>n. None)\<rparr>, br_token = Inr ''t'',
     br_fetch = (\<lambda>call calls. (Answered 204 [] [], calls @ [call])),
     br_parse = sample_read (sent_bodies ''off'' ''home'' sample_np sample_ap \<lparr>ab_type = None, ab_addressFamilies = Some [IPv4], ab_config = None\<rparr>)\<rparr>"

lemma page_commands_reach_routes_witness:
  "sends segment_router sample_recorder (handleRevoke sample_recorder True ''p'' ''t'' \<lparr>pg_error = None, pg_blockedBy = None, pg_list = None\<rparr>)
     [ApiAgents (RevokeToken ''p'' ''t''), ApiAgents ListProviders]"
proof -
  let ?body = "\<lparr>ab_type = None, ab_addressFamilies = Some [IPv4], ab_config = None\<rparr>"
  have rec: "records sample_recorder" unfolding records_def by (intro exI [of _ "\<lambda>calls. Answered 204 [] []"]) (simp add: sample_recorder_def)
  have ids: "list_all plain_id [''d'', ''a'', ''p'', ''t'', ''k'']" by code_simp
  have names: "js_trim ''home'' \<noteq> []" "js_trim ''home'' \<noteq> ''old''" by code_simp+
  have "list_all (\<lambda>j. sample_read (sent_bodies ''off'' ''home'' sample_np sample_ap ?body) (json_stringify j) = Inr j)
      (sent_bodies ''off'' ''home'' sample_np sample_ap ?body)" by code_simp
  then have bodies: "\<forall>j \<in> set (sent_bodies ''off'' ''home'' sample_np sample_ap ?body). reads_back sample_recorder j"
    by (simp add: list_all_iff reads_back_def sample_recorder_def)
  show ?thesis
    using page_commands_reach_routes [OF segment_router_documented rec ids names bodies, of _ "\<lparr>pg_error = None, pg_blockedBy = None, pg_list = None\<rparr>"]
    by blast
qed

end
