(* ===== verification/FullStack.thy ===== *)
theory FullStack
  imports Router
begin

text \<open>
  The whole application: a page of the web interface in a browser whose requests the backend answers. \<open>app_fetch\<close> is \<open>fetch\<close>
  put together from the client's call (\<open>WebClient\<close>), the route it reaches (\<open>Router\<close>) and \<open>handle_app\<close> (\<open>HttpApp\<close>); what happens
  between a click and what is shown after it is then one function on the state of the server.

  The texts of the four listing answers are a parameter, and so is what each request draws (ids, times, random bytes).
\<close>

section \<open>Requests served by the application\<close>

record stack =
  sk_router :: router
  sk_env :: app_env
  sk_draw :: "web_call \<Rightarrow> app \<Rightarrow> app_drawn"
  sk_items :: "app_reply \<Rightarrow> string"

definition app_answer :: "(app_reply \<Rightarrow> string) \<Rightarrow> app_reply \<Rightarrow> web_answer" where
  "app_answer items reply = (case reply of Reply r \<Rightarrow> answer_of r | _ \<Rightarrow> Answered 200 [] (items reply))"

definition app_fetch :: "stack \<Rightarrow> (string \<Rightarrow> string + json) \<Rightarrow> string \<Rightarrow> web_call \<Rightarrow> app \<Rightarrow> web_answer \<times> app" where
  "app_fetch sk parse origin call s = (case call_request (sk_router sk) parse origin call of
       None \<Rightarrow> (Answered 404 [] ''404 Not Found'', s)
     | Some req \<Rightarrow> (case handle_app (sk_env sk) (sk_draw sk call s) (AppApi (map_of (wc_headers call) ''Authorization'') req) s of
         (reply, s') \<Rightarrow> (app_answer (sk_items sk) reply, s')))"

definition served_app :: "stack \<Rightarrow> app browser \<Rightarrow> bool" where
  "served_app sk br = (documented_router (sk_router sk) \<and> br_fetch br = app_fetch sk (br_parse br) (getBackendUrl (br_env br)))"

text \<open>The browser's token is accepted as one of the account's.\<close>

definition signed_in :: "stack \<Rightarrow> app browser \<Rightarrow> id \<Rightarrow> bool" where
  "signed_in sk br acc = (case br_token br of
       Inl err \<Rightarrow> False
     | Inr token \<Rightarrow> token \<noteq> [] \<and> map_sum id au_accountId (oidcAuthMiddleware (ae_verify (sk_env sk)) (Some (''Bearer '' @ token))) = Inr acc)"

abbreviation app_rows :: "app \<Rightarrow> event_store" where
  "app_rows s \<equiv> bk_rows (aw_backend (ap_world s))"

text \<open>A call of a signed-in page with a provisioned account is its route's answer.\<close>

lemma api_served:
  assumes "served_app sk br" and "signed_in sk br acc" and "reaches (sk_router sk) br method path body req"
    and "readStream (app_rows s) (stream acc ACCOUNT acc) \<noteq> []"
  obtains ad where "ad = sk_draw sk (api_call br method path body) s"
    and "api br method path body s = (read_answer (br_parse br) (app_answer (sk_items sk) (fst (api_route (sk_env sk) ad acc req s))),
      snd (api_route (sk_env sk) ad acc req s))"
proof -
  let ?call = "api_call br method path body" and ?ad = "sk_draw sk (api_call br method path body) s"
  from assms(2) obtain token auth where token: "br_token br = Inr token" "token \<noteq> []"
    "oidcAuthMiddleware (ae_verify (sk_env sk)) (Some (''Bearer '' @ token)) = Inr auth" "au_accountId auth = acc"
    by (auto simp: signed_in_def map_sum_def split: sum.splits)
  then have header: "map_of (wc_headers ?call) ''Authorization'' = Some (''Bearer '' @ token)"
    by (cases token) (simp_all add: api_call_def getAccessToken_def)
  have "ensureProvisioned (ae_deps (sk_env sk)) (ad_tick ?ad) acc (aw_backend (ap_world s))
      = (Inr (getState (app_rows s) acc), aw_backend (ap_world s))"
    using assms(4) by (simp add: ensureProvisioned_eq)
  then have "handle_app (sk_env sk) ?ad (AppApi (map_of (wc_headers ?call) ''Authorization'') req) s = api_route (sk_env sk) ?ad acc req s"
    unfolding header using token(3,4) by (simp add: provisioned_def Let_def)
  moreover have "call_request (sk_router sk) (br_parse br) (getBackendUrl (br_env br)) ?call = Some req"
    using assms(3) by (simp add: reaches_def)
  ultimately have "br_fetch br ?call s = (app_answer (sk_items sk) (fst (api_route (sk_env sk) ?ad acc req s)), snd (api_route (sk_env sk) ?ad acc req s))"
    using assms(1) by (simp add: served_app_def app_fetch_def case_prod_beta)
  then show thesis using that [OF refl] by (simp add: api_def)
qed

section \<open>A switch is thrown\<close>

definition toggled :: "ip_client_status \<Rightarrow> ip_client_status" where
  "toggled status = (if status = IcEnabled then IcDisabled else IcEnabled)"

definition device_json :: "IpClientState \<Rightarrow> json" where
  "device_json state = JObj [(''ipClientId'', text_json (ic_ipClientId state)), (''label'', JStr (ic_label state)),
     (''status'', JStr (ip_client_status_name (ic_status state))),
     (''lastKnownIPv4'', text_json (ic_lastKnownIPv4 state)), (''lastKnownIPv6'', text_json (ic_lastKnownIPv6 state)),
     (''notificationPreference'', JStr (preference_name (ic_notificationPreference state)))]"

text \<open>Nobody else writes, Redis answers, and the event ids the requests draw are new.\<close>

definition quiet :: "stack \<Rightarrow> app \<Rightarrow> bool" where
  "quiet sk s = (undisturbed (ae_deps (sk_env sk)) \<and> rt_redisError (ae_deps (sk_env sk)) = None
     \<and> (\<forall>call. tk_id (dr_tick (ad_dr (sk_draw sk call s))) \<notin> ev_id ` set (app_rows s)))"

lemma toggle_route:
  assumes "wf_store (bk_rows b)" and "undisturbed deps" and "rt_redisError deps = None" and "tk_id (dr_tick dr) \<notin> ev_id ` set (bk_rows b)"
    and "\<forall>r \<in> set (aggregate_rows (bk_rows b) IP_CLIENT d). ev_accountId r = acc"
    and "loadOwnedIpClient (bk_rows b) acc d = Some (st, n)" and "ic_status st \<noteq> IcDecommissioned"
  obtains b' where "device_route deps dr acc (if ic_status st = IcEnabled then DisableDevice d else EnableDevice d) b
      = (device_status_reply d (toggled (ic_status st)), b')"
    and "wf_store (bk_rows b')" and "loadOwnedIpClient (bk_rows b') acc d = Some (st\<lparr>ic_status := toggled (ic_status st)\<rparr>, Suc n)"
    and "\<And>k. k \<noteq> stream acc IP_CLIENT d \<Longrightarrow> readStream (bk_rows b') k = readStream (bk_rows b) k"
proof -
  let ?d = "if ic_status st = IcEnabled then IpClientDisabled d else IpClientEnabled d"
  let ?k = "stream acc IP_CLIENT d"
  note owned = assms(6) [unfolded loadOwnedIpClient_Some]
  obtain e where commit: "commit deps (dr_tick dr) ?k n (IpClientEv ?d) b = (Inr e, b\<lparr>bk_rows := bk_rows b @ [e]\<rparr>)"
    using commit_alone [OF assms(1,2,4,5)] owned by blast
  define b1 where "b1 = b\<lparr>bk_rows := bk_rows b @ [e]\<rparr>"
  have "commit deps (dr_tick dr) ?k (length (readStream (bk_rows b) ?k)) (IpClientEv ?d) b = (Inr e, b1)"
    using commit owned by (simp add: b1_def)
  note w = commit_undisturbed [OF assms(1,2) this]
  obtain e' where reads: "readStream (bk_rows b1) ?k = readStream (bk_rows b) ?k @ [e']"
    "\<And>k. k \<noteq> ?k \<Longrightarrow> readStream (bk_rows b1) k = readStream (bk_rows b) k"
    by (rule wrote_reads [OF assms(1) w(2,1)]) blast
  have state: "fst (loadIpClient (bk_rows b1) acc d) = st\<lparr>ic_status := toggled (ic_status st)\<rparr>"
    using replay_wrote(1) [OF assms(1) w(2,1), of initialIpClientState ip_client_apply] owned
    by (simp add: replay_loads(1) toggled_def split: if_split)
  then have loaded: "loadOwnedIpClient (bk_rows b1) acc d = Some (st\<lparr>ic_status := toggled (ic_status st)\<rparr>, Suc n)"
    using owned [THEN conjunct2] reads(1) unfolding loadOwnedIpClient_Some state by simp
  obtain b2 where refresh: "refresh_device deps acc d b1 = (Inr (), b2)" "bk_rows b2 = bk_rows b1"
    using refresh_rows [of deps acc d b1] assms(3) by (simp add: refresh_device_def Let_def)
  have "device_change deps dr acc d n ?d (toggled (ic_status st)) b
      = (device_status_reply d (toggled (ic_status st)), scheduleDeviceProviders deps acc d b2)"
    by (simp add: device_change_def commit [folded b1_def] refresh)
  then have "device_route deps dr acc (if ic_status st = IcEnabled then DisableDevice d else EnableDevice d) b
      = (device_status_reply d (toggled (ic_status st)), scheduleDeviceProviders deps acc d b2)"
    using assms(6,7) by (auto simp: device_enable_def device_disable_def toggled_def split: if_splits)
  then show thesis using that [of "scheduleDeviceProviders deps acc d b2"] loaded reads(2) w(2) refresh(2) by simp
qed

text \<open>C11. The switch of a device's settings, from the click to what the page then shows.\<close>

theorem toggle_end_to_end:
  assumes "served_app sk br" and "signed_in sk br acc" and "plain_id d" and "quiet sk s" and "wf_store (app_rows s)"
    and "readStream (app_rows s) (stream acc ACCOUNT acc) \<noteq> []"
    and "\<forall>r \<in> set (aggregate_rows (app_rows s) IP_CLIENT d). ev_accountId r = acc"
    and "loadOwnedIpClient (app_rows s) acc d = Some (st, n)" and "ic_status st \<noteq> IcDecommissioned"
    and "reads_back br (device_json (st\<lparr>ic_status := toggled (ic_status st)\<rparr>))"
    and "reads_back br (JObj [(''ipClientId'', JStr d), (''status'', JStr (ip_client_status_name (toggled (ic_status st))))])"
    and "handleToggle br d (ip_client_status_name (ic_status st)) pg s = (pg', s')"
  shows "pg_error pg' = None \<and> pg_list pg' = Some (Inr (Some (device_json (st\<lparr>ic_status := toggled (ic_status st)\<rparr>))))
    \<and> fst (loadIpClient (app_rows s') acc d) = st\<lparr>ic_status := toggled (ic_status st)\<rparr>
    \<and> (\<forall>k. k \<noteq> stream acc IP_CLIENT d \<longrightarrow> readStream (app_rows s') k = readStream (app_rows s) k)"
proof -
  let ?path = "''/ip-clients/'' @ d @ (if ip_client_status_name (ic_status st) = ''enabled'' then ''/disable'' else ''/enable'')"
  let ?req = "if ic_status st = IcEnabled then DisableDevice d else EnableDevice d"
  have router: "documented_router (sk_router sk)" using assms(1) by (simp add: served_app_def)
  have enabled: "ip_client_status_name (ic_status st) = ''enabled'' \<longleftrightarrow> ic_status st = IcEnabled" by (cases "ic_status st") simp_all
  have post: "reaches (sk_router sk) br ''POST'' ?path None (ApiDevices ?req)"
    unfolding enabled using device_paths(3,4) [OF router assms(3), of br] by simp
  obtain ad where ad: "ad = sk_draw sk (api_call br ''POST'' ?path None) s"
    "api br ''POST'' ?path None s = (read_answer (br_parse br) (app_answer (sk_items sk) (fst (api_route (sk_env sk) ad acc (ApiDevices ?req) s))),
      snd (api_route (sk_env sk) ad acc (ApiDevices ?req) s))"
    by (rule api_served [OF assms(1,2) post assms(6)]) (rule that)
  from assms(4) have quiet: "undisturbed (ae_deps (sk_env sk))" "rt_redisError (ae_deps (sk_env sk)) = None"
    "tk_id (dr_tick (ad_dr ad)) \<notin> ev_id ` set (app_rows s)" by (simp_all add: quiet_def ad(1))
  obtain b' where b': "device_route (ae_deps (sk_env sk)) (ad_dr ad) acc ?req (aw_backend (ap_world s))
      = (device_status_reply d (toggled (ic_status st)), b')"
    "loadOwnedIpClient (bk_rows b') acc d = Some (st\<lparr>ic_status := toggled (ic_status st)\<rparr>, Suc n)"
    "\<And>k. k \<noteq> stream acc IP_CLIENT d \<Longrightarrow> readStream (bk_rows b') k = readStream (app_rows s) k"
    using toggle_route [OF assms(5) quiet assms(7-9)] by metis
  define s1 where "s1 = s\<lparr>ap_world := (ap_world s)\<lparr>aw_backend := b'\<rparr>\<rparr>"
  have rows1: "app_rows s1 = bk_rows b'" by (simp add: s1_def)
  have "api br ''POST'' ?path None s = (Inr (Some (JObj [(''ipClientId'', JStr d), (''status'', JStr (ip_client_status_name (toggled (ic_status st))))])), s1)"
    unfolding ad(2) using assms(11) b'(1)
    by (simp add: on_backend_def s1_def app_answer_def device_status_reply_def read_answer_def reads_back_def del: json_stringify.simps device_route.simps)
  moreover
  have "readStream (app_rows s1) (stream acc ACCOUNT acc) \<noteq> []" using b'(3) assms(6) rows1 by simp
  from api_served [OF assms(1,2) device_paths(2) [OF router assms(3)] this]
  obtain ad' where "api br ''GET'' (''/ip-clients/'' @ d) None s1
      = (read_answer (br_parse br) (app_answer (sk_items sk) (fst (api_route (sk_env sk) ad' acc (ApiDevices (GetDevice d)) s1))),
         snd (api_route (sk_env sk) ad' acc (ApiDevices (GetDevice d)) s1))" by metis
  moreover have "api_route (sk_env sk) ad' acc (ApiDevices (GetDevice d)) s1 = (Reply (Json 200 (device_json (st\<lparr>ic_status := toggled (ic_status st)\<rparr>))), s1)"
    using b'(2) rows1 by (simp add: on_backend_def device_get_def device_json_def)
  ultimately have "handleToggle br d (ip_client_status_name (ic_status st)) pg s
      = (pg\<lparr>pg_error := None, pg_list := Some (Inr (Some (device_json (st\<lparr>ic_status := toggled (ic_status st)\<rparr>))))\<rparr>, s1)"
    using assms(10) unfolding handleToggle_def send_and_refetch_def refetch_def device_path_def append_assoc reads_back_def
    by (simp add: app_answer_def read_answer_def del: json_stringify.simps)
  with assms(12) have "s' = s1" "pg_error pg' = None" "pg_list pg' = Some (Inr (Some (device_json (st\<lparr>ic_status := toggled (ic_status st)\<rparr>))))" by auto
  moreover have "fst (loadIpClient (bk_rows b') acc d) = st\<lparr>ic_status := toggled (ic_status st)\<rparr>"
    using b'(2) by (simp add: loadOwnedIpClient_Some)
  ultimately show ?thesis using b'(3) rows1 by simp
qed

definition sample_switch_rows :: event_store where
  "sample_switch_rows = [sample_account, sample_row ''h1'' ''acc'' ''d'' 1 (IpClientEv (IpClientRegistered
     \<lparr>icr_ipClientId = ''d'', icr_accountId = ''acc'', icr_label = ''home'', icr_credentialHash = [], icr_registeredAt = 0\<rparr>))]"

definition sample_switch_state :: IpClientState where
  "sample_switch_state = initialIpClientState\<lparr>ic_ipClientId := Some ''d'', ic_accountId := Some ''acc'', ic_label := ''home'',
     ic_credentialHash := Some [], ic_status := IcEnabled\<rparr>"

definition sample_stack :: stack where
  "sample_stack = \<lparr>sk_router = segment_router,
     sk_env = sample_app_env\<lparr>ae_verify := (\<lambda>token. Inr \<lparr>jwt_sub = Some (JStr ''acc''), jwt_roles = None\<rparr>)\<rparr>,
     sk_draw = (\<lambda>call s. sample_app_drawn), sk_items = (\<lambda>reply. [])\<rparr>"

definition sample_browser :: "app browser" where
  "sample_browser = (let parse = sample_read [device_json (sample_switch_state\<lparr>ic_status := IcDisabled\<rparr>),
       JObj [(''ipClientId'', JStr ''d''), (''status'', JStr ''disabled'')]]
     in \<lparr>br_env = \<lparr>we_window = None, we_build = (\<lambda>n. None)\<rparr>, br_token = Inr ''t'', br_fetch = app_fetch sample_stack parse [], br_parse = parse\<rparr>)"

definition sample_switch_app :: app where
  "sample_switch_app = sample_app\<lparr>ap_world := (ap_world sample_app)\<lparr>aw_backend := sample_backend sample_switch_rows\<rparr>\<rparr>"

lemma toggle_end_to_end_witness:
  "\<exists>pg' s'. handleToggle sample_browser ''d'' ''enabled'' \<lparr>pg_error = None, pg_blockedBy = None, pg_list = None\<rparr> sample_switch_app = (pg', s')
    \<and> pg_error pg' = None \<and> ic_status (fst (loadIpClient (app_rows s') ''acc'' ''d'')) = IcDisabled"
proof -
  let ?pg = "\<lparr>pg_error = None, pg_blockedBy = None, pg_list = None\<rparr>" and ?s = sample_switch_app
  obtain pg' s' where run: "handleToggle sample_browser ''d'' ''enabled'' ?pg ?s = (pg', s')" by fastforce
  have rows: "app_rows ?s = sample_switch_rows" by (simp add: sample_switch_app_def)
  have served: "served_app sample_stack sample_browser"
    by (simp add: served_app_def sample_browser_def sample_stack_def segment_router_documented Let_def getBackendUrl_def setting_def resolveValue_def)
  have signed: "signed_in sample_stack sample_browser ''acc''"
    by (simp add: signed_in_def sample_browser_def sample_stack_def oidcAuthMiddleware_def Let_def)
  have plain: "plain_id ''d''" by code_simp
  have quiet: "quiet sample_stack ?s"
    by (simp add: quiet_def rows sample_stack_def sample_app_env_def sample_app_drawn_def sample_drawn_def sample_switch_rows_def sample_account_def)
  have wf: "wf_store (app_rows ?s)" unfolding rows by (auto simp: wf_store_def aggregate_rows_def sample_switch_rows_def sample_account_def Let_def)
  have account: "readStream (app_rows ?s) (stream ''acc'' ACCOUNT ''acc'') \<noteq> []"
    unfolding rows by (simp add: readStream_def in_stream_def sample_switch_rows_def sample_account_def)
  have owner: "\<forall>r \<in> set (aggregate_rows (app_rows ?s) IP_CLIENT ''d''). ev_accountId r = ''acc''"
    unfolding rows by (simp add: aggregate_rows_def sample_switch_rows_def sample_account_def)
  have device: "loadOwnedIpClient (app_rows ?s) ''acc'' ''d'' = Some (sample_switch_state, 1)"
    unfolding rows by (simp add: loadOwnedIpClient_Some loadIpClient_def loadAggregate_def readStream_def in_stream_def sample_switch_rows_def
        sample_account_def ipClientReducer_def initialIpClientState_def sample_switch_state_def)
  have status: "ic_status sample_switch_state = IcEnabled" by (simp add: sample_switch_state_def)
  have "reads_back sample_browser (device_json (sample_switch_state\<lparr>ic_status := IcDisabled\<rparr>))"
    by (simp add: reads_back_def sample_browser_def Let_def sample_read_def)
  moreover have "reads_back sample_browser (JObj [(''ipClientId'', JStr ''d''), (''status'', JStr ''disabled'')])"
  proof -
    have "sample_read [device_json (sample_switch_state\<lparr>ic_status := IcDisabled\<rparr>), JObj [(''ipClientId'', JStr ''d''), (''status'', JStr ''disabled'')]]
      (json_stringify (JObj [(''ipClientId'', JStr ''d''), (''status'', JStr ''disabled'')])) = Inr (JObj [(''ipClientId'', JStr ''d''), (''status'', JStr ''disabled'')])"
      by code_simp
    then show ?thesis by (simp add: reads_back_def sample_browser_def Let_def)
  qed
  ultimately show ?thesis
    using toggle_end_to_end [OF served signed plain quiet wf account owner device, of ?pg pg' s'] run
    by (simp add: status toggled_def)
qed

end
