(* ===== verification/Spec2Isabelle.thy ===== *)
theory Spec2Isabelle
  imports Prelude Events Config EventStore Aggregates Projections Json Secrets TraefikProvider Snapshot Publisher
    Delivery Coordinator AgentProtocol Sessions AgentServer AgentChannel Hetzner Locks Pipeline ExecutionWorker Backend DeviceRoutes
    ActionRoutes CredentialRoutes AccountRoutes ProviderRoutes History Migrations HttpApp
    Queues Startup Cli Wizard ActionWizard WebClient WebPages WebViews WebForms Router FullStack
begin

text \<open>
  FluxIP is a dynamic-address service: devices report their public addresses over HTTP, settled changes run
  the user's actions (Hetzner DNS records and firewall rules, Traefik configuration delivered to remote agents)
  and accounts manage devices, actions, credentials and agents in a web interface. This development models the backend
  (\<open>src/backend/src\<close>: the event-sourced domain, the workers and sessions that act on it, its routes, its command line and
  its start) and the logic of the web interface (\<open>src/frontend/src\<close>: client, pages, guided flows).

  \<^bold>\<open>How the parts interact.\<close> Everything durable is one table of events (\<open>EventStore\<close>): a stream per aggregate,
  numbered from 1, an append that names the number it expects and is refused when that is taken. Aggregates
  are folds of their streams (\<open>Events\<close>, \<open>Aggregates\<close>, \<open>TraefikProvider\<close>), the three Redis projections are caches of the
  folds (\<open>Projections\<close>). A report (\<open>handle_trigger\<close>) appends to its device's stream and schedules a settlement;
  \<open>settle\<close> appends the change, asks for snapshots and queues executions; \<open>run_execution\<close> runs an executor
  (\<open>Hetzner\<close>) and records the outcome, over the attempts of \<open>job_life\<close>; the coordinator publishes snapshots of the providers
  concerned (\<open>publish\<close>), which sessions push to agents; the history and status views derive what happened from the
  events alone. The routes (\<open>Backend\<close> and the theories on it) are the guarded writers of all this; \<open>Router\<close> and \<open>FullStack\<close>
  put the pages on one side and \<open>app_fetch\<close> on the other.

  \<^bold>\<open>Theories and sources.\<close>
  \<^item> \<open>Prelude\<close>, \<open>Json\<close>: the JavaScript helpers the code uses (\<open>trim\<close>, \<open>??\<close>, \<open>split\<close>, \<open>JSON.stringify\<close>, sorting with a
    comparator) and errors and responses as values.
  \<^item> \<open>Config\<close>: \<open>config/env.ts\<close>, \<open>config/check.ts\<close>. \<open>Secrets\<close>: \<open>domain/ip-client/credential.ts\<close>,
    \<open>domain/provider-credential/secret-encryption.ts\<close>, \<open>domain/traefik-provider/token.ts\<close>.
  \<^item> \<open>Events\<close>, \<open>Aggregates\<close>: \<open>domain/*/events.ts\<close>, \<open>domain/*/*-aggregate.ts\<close>. \<open>EventStore\<close>: \<open>adapters/event-store-postgres\<close>,
    \<open>domain/replay.ts\<close>, \<open>domain/cloud-events.ts\<close>. \<open>Projections\<close>: \<open>projections\<close>.
    \<open>Migrations\<close>: \<open>adapters/event-store-postgres/migrate.ts\<close>, \<open>cli/migrate-command.ts\<close>.
  \<^item> \<open>TraefikProvider\<close>, \<open>Snapshot\<close>, \<open>Delivery\<close>, \<open>Locks\<close> (the keyed mutex): \<open>domain/traefik-provider\<close>.
    \<open>Publisher\<close>: \<open>adapters/queue-bullmq/snapshot-publisher.ts\<close>. \<open>Coordinator\<close>: \<open>adapters/agent-grpc/snapshot-coordinator.ts\<close>.
  \<^item> \<open>AgentProtocol\<close>, \<open>Sessions\<close>, \<open>AgentServer\<close>, \<open>AgentChannel\<close>: the agent protocol, its codec, the session registry and handler,
    authentication and the failure throttle, the listener and its streams (\<open>domain/traefik-provider/agent-*.ts\<close>, \<open>adapters/agent-grpc\<close>).
  \<^item> \<open>Hetzner\<close>, \<open>Locks\<close> (the firewall lock): \<open>adapters/actions\<close>. \<open>Pipeline\<close>, \<open>ExecutionWorker\<close>, \<open>Queues\<close>: the workers and queues in
    \<open>adapters/queue-bullmq\<close>, \<open>adapters/notifications-email\<close> and the routes \<open>trigger.ts\<close> and \<open>action-run.ts\<close>.
  \<^item> \<open>Backend\<close>, \<open>DeviceRoutes\<close>, \<open>ActionRoutes\<close>, \<open>CredentialRoutes\<close>, \<open>AccountRoutes\<close>, \<open>ProviderRoutes\<close>, \<open>History\<close>:
    \<open>adapters/http/routes\<close>, \<open>domain/account\<close> and the role check. \<open>HttpApp\<close>: \<open>adapters/http/app.ts\<close>, \<open>adapters/auth-logto\<close>,
    the routes \<open>health.ts\<close> and \<open>version.ts\<close>.
  \<^item> \<open>Startup\<close>: \<open>main.ts\<close>, \<open>observability\<close>, \<open>pool.ts\<close>, \<open>metrics-route.ts\<close>. \<open>Cli\<close>: \<open>cli.ts\<close>, \<open>cli\<close>.
  \<^item> \<open>Wizard\<close>, \<open>ActionWizard\<close>: \<open>flows\<close> of the web interface (the hook \<open>useWizard\<close>, the four guided flows, their bodies).
    \<open>WebClient\<close>: \<open>config.ts\<close>, \<open>services\<close>, \<open>lib\<close> and the gates in front of the pages. \<open>WebPages\<close>: the handlers of \<open>pages\<close> and of the
    credential dialog. \<open>WebViews\<close>, \<open>WebForms\<close>: what pages, forms, flows and navigation show and which commands they offer.
  \<^item> \<open>Router\<close>: the table of the \<open>/api\<close> routes in \<open>app.ts\<close>, the bodies they read and the calls of the pages.
    \<open>FullStack\<close>: pages, client, routes and event table as one system.

  Definitions have the names of the functions they model; where a handler is anonymous (a route, a worker) its name
  says what it serves (\<open>device_enable\<close>, \<open>settle\<close>). A TypeScript interface is a record with a prefix per type, a union
  a datatype, an error a value: \<open>exn + 'a\<close> for what may throw, a \<open>response\<close> for what a handler answers.

  \<^bold>\<open>Interleaving.\<close> Sessions, coordinator, mutex, firewall lock and migration runs are step relations cut at every \<open>await\<close>
  (\<open>session_step\<close>, with the pushes of the coordinator and the resync among its steps, \<open>coord_step\<close>, \<open>mutex_step\<close>, \<open>mig_step\<close>,
  in which one migration file is one transaction). A route, a report and an execution attempt are functions whose one point of
  interference is the table just before an append: \<open>rt_between\<close>, the \<open>others\<close> of \<open>handle_trigger\<close> and \<open>wd_between\<close> stand for
  what other writers do there, and hypotheses say what they may do (\<open>others_append\<close>: append legally; \<open>undisturbed\<close>: nothing).
  Between the attempts of a queued execution other writers are unrestricted.

  \<^bold>\<open>Failures of services.\<close> What a queue, Redis or the database answers to a call is an argument: an \<open>answer\<close> is \<open>Done\<close> or an
  error with the bit whether the command took effect all the same. A report and a manual run take the answer of the queue, a
  settlement \<open>announce_answers\<close> and the fan-out \<open>fan_out_answers\<close> for its calls after the append, a closure \<open>closure_answers\<close> for its
  queues, each page of its scan and its deletion, the firewall lock the rejection of each of its attempts; the start gets the
  answers to both bindings.

  \<^bold>\<open>Interfaces.\<close> \<open>event_log\<close> (interpreted as \<open>es\<close>) gives optimistic concurrency; \<open>guarded_aggregate\<close> (\<open>ic\<close>, \<open>act\<close>, \<open>cred\<close>, \<open>tp\<close>) and
  its extension \<open>guarded_route\<close> (\<open>icr\<close>, \<open>actr\<close>, \<open>credr\<close>, \<open>chr\<close>, \<open>accr\<close>) give each aggregate's writers their invariants;
  \<open>request_handler\<close> (\<open>dev\<close>, \<open>deliv\<close>, \<open>prov\<close>, \<open>appt\<close>, \<open>apph\<close>) lifts them to request sequences; \<open>read_model\<close> (\<open>ipm\<close>, \<open>acm\<close>, \<open>exm\<close>) is
  the contract of the three projections, \<open>session_registry\<close> (\<open>sr\<close>) and \<open>auth_throttle\<close> (\<open>rt\<close>) those of the ports of the agent
  server, \<open>comparator_order\<close> (\<open>str_le\<close>, \<open>group_le\<close>) that of a sorting comparator, \<open>wizard_flow\<close> (one interpretation per guided flow)
  that of a flow whose steps keep what earlier steps checked. Each is interpreted on the model's own definitions.

  \<^bold>\<open>What is shown.\<close> Of each component its contract: no event is lost or numbered twice; a handler writes at most one event,
  on a stream of its account, that the state it read allows; over any sequence of requests the table stays typed, accounts
  stay apart through every entrance, and tokens, names, deliveries and device limits keep their bounds; secrets and
  credentials round-trip; snapshots are complete and canonical; no cause of a publication is lost or published twice; one
  live session per provider, and a stream that ends once; executions record what happened on every branch, settle within the
  configured attempts and notify at most once; concurrent migrations are serialised; the command line changes the database
  only under \<open>migrate\<close>; what \<open>validate-config\<close> accepts starts on a migrated database if and only if the log level is one the library
  knows as it is written and the two ports differ, which that command does not check; a change whose announcement failed is
  not announced by running the job again; a closure that fails leaves what the calls before the failing one removed. Of the web
  interface: the action flow submits only data its route accepts, except a firewall id that reads as zero or as no number, which
  it does not check; an action that is edited gives back what was entered, every call of a page reaches the route it is meant for,
  and where nothing fails the commands of devices and actions and the revocations of tokens are offered exactly where they
  change something, and then do what their button says. This theory and \<open>FullStack\<close> add what spans components: a registered device can
  report with what it was given, a closed account is locked out of every entrance, and the switch of a device page does,
  from the click to the event and back to the page, what it says.

  \<^bold>\<open>Bounds and fuel.\<close> JavaScript numbers are \<open>nat\<close> or \<open>int\<close>: the code computes versions, counts, milliseconds and byte sizes,
  all far below $2^{53}$; a number typed into the action flow is read as a whole number, a fraction or not finite (\<open>js_numeral\<close>), and
  what a fraction does as a firewall id is left out. Characters are code units below 256. The acquisition of the firewall lock is a partial function, and
  \<open>firewall_lock_returns\<close> shows that it returns after at most 51 attempts. \<open>mig_steps\<close> takes a number of steps; \<open>run_is_atomic\<close>
  shows how many are enough. \<open>job_life\<close> takes the deliveries of a job to a worker; as many as its attempts settle it.

  \<^bold>\<open>Parameters.\<close> \<open>node:crypto\<close> (the record \<open>crypto\<close>), URL parsing, \<open>localeCompare\<close>, base64, the remote HTTP API, the identity
  provider and its token verification, SQL execution and directories (\<open>migration_env\<close>), BullMQ's choice of removable jobs and its
  retry rule, the SMTP transport, Redis's pattern match, Hono's router, \<open>JSON.parse\<close>, \<open>decodeURIComponent\<close>, the local form of a time,
  the file system and port binding of a start (\<open>surroundings\<close>) are arguments; the theorems name what they need of them
  (\<open>hex_digests\<close>, \<open>aead\<close>, \<open>glob_law\<close>, \<open>scan_law\<close>, \<open>documented_router\<close>, \<open>bull_retries\<close>, \<open>sane_surroundings\<close>), with concrete instances in the witnesses.

  \<^bold>\<open>Not modelled.\<close> Writing log lines and collecting metrics, the inside of third-party clients (pool, Redis, BullMQ, nodemailer,
  gRPC, LogTape), markup and styles of the web interface, its wrappers of a component library, and the Go agent: they hold no
  state and take no decision of the program, or are not TypeScript. BullMQ and Redis are seen through the calls the code makes;
  their own delivery guarantees are not part of the model.
\<close>

section \<open>A device from its registration to its first report\<close>

lemma registered_device_stored:
  assumes wf: "wf_store (bk_rows b)" and calm: "undisturbed deps" and fresh: "aggregate_rows (bk_rows b) IP_CLIENT (dr_id dr) = []"
    and run: "device_register deps dr acc label b = (Json 201 reply, b')"
  defines "st \<equiv> fst (loadIpClient (bk_rows b') acc (dr_id dr))"
  shows "wf_store (bk_rows b')" and "resolveAccountId (bk_rows b') IP_CLIENT (dr_id dr) = Some acc"
    and "ic_credentialHash st = Some (gc_hash (generateCredential (rt_crypto deps) (dr_random dr) (dr_salt dr)))"
    and "ic_status st = IcEnabled" and "\<forall>r \<in> set (aggregate_rows (bk_rows b') IP_CLIENT (dr_id dr)). ev_accountId r = acc"
    and "json_prop reply ''reportingCredential'' = Some (credential_json (dr_id dr) (dr_random dr))"
proof -
  let ?i = "dr_id dr" and ?gen = "generateCredential (rt_crypto deps) (dr_random dr) (dr_salt dr)"
  let ?k = "stream acc IP_CLIENT ?i"
  let ?d = "IpClientEv (IpClientRegistered \<lparr>icr_ipClientId = ?i, icr_accountId = acc, icr_label = device_label label,
    icr_credentialHash = gc_hash ?gen, icr_registeredAt = tk_now (dr_tick dr)\<rparr>)"
  let ?reply = "JObj [(''ipClientId'', JStr ?i), (''label'', JStr (device_label label)),
    (''reportingCredential'', credential_json ?i (gc_secret ?gen))]"
  from run have "proceed (commit deps (dr_tick dr) ?k 0 ?d b)
      (\<lambda>e b. proceed (refresh_device deps acc ?i b) (\<lambda>u b. (Json 201 ?reply, b))) = (Json 201 reply, b')"
    unfolding device_register_def Let_def by (simp split: if_splits)
  then obtain e b1 u where commit: "commit deps (dr_tick dr) ?k 0 ?d b = (Inr e, b1)"
    and refresh: "refresh_device deps acc ?i b1 = (Inr u, b')" and reply: "reply = ?reply"
    by (auto simp: proceed_def split: sum.splits prod.splits)
  note w = create_undisturbed [OF wf calm commit]
  have rows: "bk_rows b' = bk_rows b1" using refresh by (auto simp: refresh_device_def Let_def split: option.splits)
  show "wf_store (bk_rows b')" using w(3) rows by simp
  have "in_stream ?k e" using w(2,4) by (auto simp: wrote_def)
  then have e: "ev_aggregateType e = IP_CLIENT" "ev_aggregateId e = ?i" "ev_accountId e = acc" by (simp_all add: in_stream_def)
  have "find (\<lambda>row. ev_aggregateType row = IP_CLIENT \<and> ev_aggregateId row = ?i) (bk_rows b) = None"
    using fresh by (auto simp: aggregate_rows_def filter_empty_conv find_None_iff)
  from find_append_None [OF this, of "[e]"] e show "resolveAccountId (bk_rows b') IP_CLIENT ?i = Some acc"
    by (simp add: resolveAccountId_def rows w(4))
  show "\<forall>r \<in> set (aggregate_rows (bk_rows b') IP_CLIENT ?i). ev_accountId r = acc"
    using fresh e by (simp add: aggregate_rows_def rows w(4))
  have "st = ip_client_apply (replay initialIpClientState ip_client_apply (bk_rows b) ?k) ?d"
    unfolding st_def rows replay_loads(1) by (rule replay_wrote(1) [OF wf w(3,2)])
  then have "st = ip_client_apply initialIpClientState ?d" using w(1) by (simp add: replay_def)
  then show "ic_credentialHash st = Some (gc_hash ?gen)" "ic_status st = IcEnabled" by (simp_all add: initialIpClientState_def)
  show "json_prop reply ''reportingCredential'' = Some (credential_json ?i (dr_random dr))"
    by (simp add: reply generateCredential_def)
qed

text \<open>C9. A registered device can report with what it was given: after a 201, a request with the answer's user name and
  password as Basic credentials and an address is, where nothing fails and nobody else writes, answered ``good'', its report is stored as the latest of
  that device, and one settlement of the device is scheduled. (The device id has no colon; \<open>decode64\<close> undoes
  the encoding of the header; the event id is new.)\<close>
theorem registered_device_reports:
  assumes "wf_store (bk_rows b)" and "undisturbed deps" and "aggregate_rows (bk_rows b) IP_CLIENT (dr_id dr) = []"
    and "device_register deps dr acc label b = (Json 201 reply, b')"
    and "hex_digests (rt_crypto deps)" and "dr_salt dr \<noteq> []" and "CHR '':'' \<notin> set (dr_salt dr)" and "acc \<noteq> []" and "CHR '':'' \<notin> set (dr_id dr)"
    and "json_prop reply ''reportingCredential'' = Some (JObj fs)" and "map_of fs ''username'' = Some (JStr user)"
    and "map_of fs ''password'' = Some (JStr password)"
    and "tr_authorization req = Some (''Basic '' @ encoded)" and "decode64 encoded = user @ '':'' @ password"
    and "tr_myip req = Some ip" and "ip \<noteq> []" and "tk_id tk \<notin> ev_id ` set (bk_rows b')"
  shows "\<exists>rows'. handle_trigger (rt_crypto deps) decode64 config tk [] Done (bk_rows b') req
      = (Text 200 (''good '' @ ip), rows', [scheduleDebounce config (dr_id dr) acc])
    \<and> last_report (readStream rows' (stream acc IP_CLIENT (dr_id dr))) =
        Some \<lparr>rep_reportedIPv4 = Some ip, rep_reportedIPv6 = tr_myip6 req, rep_receivedAt = tk_now tk\<rparr>"
proof -
  let ?i = "dr_id dr" and ?st = "fst (loadIpClient (bk_rows b') acc (dr_id dr))"
  let ?k = "stream acc IP_CLIENT ?i" and ?hash = "gc_hash (generateCredential (rt_crypto deps) (dr_random dr) (dr_salt dr))"
  note stored = registered_device_stored [OF assms(1-4)]
  have "JObj fs = credential_json ?i (dr_random dr)" using stored(6) assms(10) by simp
  then have "user = ?i" "password = dr_random dr" using assms(11,12) by (simp_all add: credential_json_def)
  then have auth: "parseBasicAuth decode64 (tr_authorization req) = Some (?i, dr_random dr)"
    using assms(9,13,14) by (simp add: parseBasicAuth_def Let_def takeWhile_append)
  have good: "verifyCredential (rt_crypto deps) (dr_random dr) ?hash"
    using credential_verifies [OF assms(5,6,7)] by simp
  have hash: "?hash \<noteq> []" by (simp add: generateCredential_def assms(6))
  have addr: "reported_ipv4 req = Some ip" by (simp add: reported_ipv4_def assms(15,16))
  let ?report = "\<lparr>rep_reportedIPv4 = Some ip, rep_reportedIPv6 = tr_myip6 req, rep_receivedAt = tk_now tk\<rparr>"
  obtain e where app: "append_event config tk (bk_rows b') ?k (Suc (length (readStream (bk_rows b') ?k))) (IpClientEv (IpReportReceived ?report))
      = Inr (e, bk_rows b' @ [e])" by (rule append_alone [OF stored(1) assms(17) stored(5)])
  have "handle_trigger (rt_crypto deps) decode64 config tk [] Done (bk_rows b') req
      = (Text 200 (''good '' @ ip), bk_rows b' @ [e], [scheduleDebounce config ?i acc])"
    unfolding handle_trigger_def auth option.case prod.case stored(2)
    using assms(8,16) by (subst loadIpClient_eq) (simp add: stored(3,4) hash good addr app nullish_def nullish_or_def Let_def)
  moreover have "last_report (readStream (bk_rows b' @ [e]) ?k) = Some ?report"
    unfolding append_event_next(2) [OF stored(1) refl app] last_report_snoc
    using append_event_Inr(4) [OF app] by (simp add: is_report_def)
  ultimately show ?thesis by blast
qed

lemma sample_registration:
  obtains reply e where "device_register sample_routes sample_drawn ''acc'' None (sample_backend [sample_account]) =
      (Json 201 reply, (sample_backend [sample_account])\<lparr>bk_rows := [sample_account, e],
        bk_clients := upsertIpClientProjection [] ''acc'' (fst (loadIpClient [sample_account, e] ''acc'' ''n''))\<rparr>)"
    and "ev_id e = ''t''"
proof -
  let ?b = "sample_backend [sample_account]" and ?k = "stream ''acc'' IP_CLIENT ''n''"
  have wf: "wf_store (bk_rows ?b)" by (auto simp: wf_store_def aggregate_rows_def sample_account_def Let_def)
  have none: "readStream [sample_account] (stream ''acc'' IP_CLIENT i) = []" for i
    by (simp add: readStream_def in_stream_def sample_account_def)
  have "listAggregateIds [sample_account] ''acc'' IP_CLIENT = []" by (simp add: listAggregateIds_def sample_account_def)
  then have zero: "countActiveIpClients [sample_account] ''acc'' = 0" by (simp add: countActiveIpClients_def)
  have five: "acc_deviceLimit (fst (loadAccount [sample_account] ''acc'')) = 5"
    by (simp add: load_defs Let_def readStream_def in_stream_def sample_account_def accountReducer_def)
  have dr: "dr_id sample_drawn = ''n''" "tk_id (dr_tick sample_drawn) = ''t''" by (simp_all add: sample_drawn_def)
  have new: "\<exists>e. commit sample_routes (dr_tick sample_drawn) ?k 0 d ?b = (Inr e, ?b\<lparr>bk_rows := [sample_account, e]\<rparr>) \<and> ev_id e = ''t''" for d
  proof -
    have "\<exists>e. commit sample_routes (dr_tick sample_drawn) ?k 0 d ?b = (Inr e, ?b\<lparr>bk_rows := bk_rows ?b @ [e]\<rparr>)"
      by (rule commit_alone [OF wf]) (simp_all add: dr none, simp_all add: sample_account_def aggregate_rows_def)
    then obtain e where e: "commit sample_routes (dr_tick sample_drawn) ?k 0 d ?b = (Inr e, ?b\<lparr>bk_rows := bk_rows ?b @ [e]\<rparr>)" ..
    from e have "append_event (rt_config sample_routes) (dr_tick sample_drawn) [sample_account] ?k 1 d = Inr (e, [sample_account] @ [e])"
      by (auto simp: commit_def Let_def dest: arg_cong [where f = bk_rows] split: sum.splits prod.splits)
    from append_event_Inr(5) [OF this] e dr show ?thesis by (intro exI [of _ e]) simp
  qed
  obtain d reply where run: "device_register sample_routes sample_drawn ''acc'' None ?b =
      proceed (commit sample_routes (dr_tick sample_drawn) ?k 0 d ?b)
        (\<lambda>e b. proceed (refresh_device sample_routes ''acc'' ''n'' b) (\<lambda>u b. (Json 201 reply, b)))"
    unfolding device_register_def Let_def dr sample_backend_simps zero five by simp
  obtain e where e: "commit sample_routes (dr_tick sample_drawn) ?k 0 d ?b = (Inr e, ?b\<lparr>bk_rows := [sample_account, e]\<rparr>)" "ev_id e = ''t''"
    using new by blast
  show ?thesis
    by (rule that [of reply e]) (simp_all add: run e refresh_device_def)
qed

lemma registered_device_reports_witness:
  "\<exists>reply b' req rows' jobs. device_register sample_routes sample_drawn ''acc'' None (sample_backend [sample_account]) = (Json 201 reply, b')
    \<and> tr_authorization req = Some (''Basic '' @ ''n:r'')
    \<and> handle_trigger sample_crypto (\<lambda>s. s) sample_config \<lparr>tk_id = ''zz'', tk_now = 9\<rparr> [] Done (bk_rows b') req = (Text 200 ''good 1.2.3.4'', rows', jobs)"
proof -
  obtain reply e where run: "device_register sample_routes sample_drawn ''acc'' None (sample_backend [sample_account]) =
      (Json 201 reply, (sample_backend [sample_account])\<lparr>bk_rows := [sample_account, e],
        bk_clients := upsertIpClientProjection [] ''acc'' (fst (loadIpClient [sample_account, e] ''acc'' ''n''))\<rparr>)" and e: "ev_id e = ''t''"
    by (rule sample_registration)
  let ?req = "\<lparr>tr_authorization = Some (''Basic '' @ ''n:r''), tr_myip = Some ''1.2.3.4'', tr_myip6 = None, tr_remoteAddress = None\<rparr>"
  have start: "wf_store (bk_rows (sample_backend [sample_account]))" "undisturbed sample_routes"
    "aggregate_rows (bk_rows (sample_backend [sample_account])) IP_CLIENT (dr_id sample_drawn) = []"
    by (auto simp: wf_store_def aggregate_rows_def sample_account_def Let_def)
  have crypto: "rt_crypto sample_routes = sample_crypto" by (simp add: sample_routes_def)
  have dr: "dr_id sample_drawn = ''n''" "dr_random sample_drawn = ''r''" "dr_salt sample_drawn = ''5a''" by (simp_all add: sample_drawn_def)
  obtain fs where fs: "json_prop reply ''reportingCredential'' = Some (JObj fs)" "map_of fs ''username'' = Some (JStr ''n'')"
    "map_of fs ''password'' = Some (JStr ''r'')"
    using registered_device_stored(6) [OF start run] by (simp add: credential_json_def dr)
  have "\<exists>rows'. handle_trigger (rt_crypto sample_routes) (\<lambda>s. s) sample_config \<lparr>tk_id = ''zz'', tk_now = 9\<rparr> [] Done
      (bk_rows ((sample_backend [sample_account])\<lparr>bk_rows := [sample_account, e],
        bk_clients := upsertIpClientProjection [] ''acc'' (fst (loadIpClient [sample_account, e] ''acc'' ''n''))\<rparr>)) ?req
      = (Text 200 (''good '' @ ''1.2.3.4''), rows', [scheduleDebounce sample_config (dr_id sample_drawn) ''acc''])
    \<and> last_report (readStream rows' (stream ''acc'' IP_CLIENT (dr_id sample_drawn))) =
        Some \<lparr>rep_reportedIPv4 = Some ''1.2.3.4'', rep_reportedIPv6 = tr_myip6 ?req, rep_receivedAt = tk_now \<lparr>tk_id = ''zz'', tk_now = 9\<rparr>\<rparr>"
    by (rule registered_device_reports [OF start run _ _ _ _ _ fs, where encoded = "''n:r''"])
      (simp_all add: crypto dr sample_digests e sample_account_def)
  then show ?thesis unfolding crypto using run
    by (intro exI [of _ reply] exI [of _ "(sample_backend [sample_account])\<lparr>bk_rows := [sample_account, e],
        bk_clients := upsertIpClientProjection [] ''acc'' (fst (loadIpClient [sample_account, e] ''acc'' ''n''))\<rparr>"] exI [of _ ?req]) auto
qed

section \<open>After an account is closed\<close>

text \<open>C10. A closed account is locked out everywhere: its devices get ``badauth'' and store nothing, its agents are never
  authenticated, no execution is queued for it, and its histories are not found. (Its live sessions are told to
  end and its data is gone, by \<open>account_closure_exact\<close>.)\<close>
theorem closed_account_locked_out:
  assumes "wf_store (bk_rows (aw_backend w))" and "undisturbed deps"
    and "closeAccount deps glob ans rm1 rm2 tk acc w = (Inr (), w')"
  defines "rows \<equiv> bk_rows (aw_backend w)" and "rows' \<equiv> bk_rows (aw_backend w')"
  shows "(\<forall>cr decode64 config tk' others queued req i password. parseBasicAuth decode64 (tr_authorization req) = Some (i, password)
        \<and> resolveAccountId rows IP_CLIENT i = Some acc \<longrightarrow> handle_trigger cr decode64 config tk' others queued rows' req = (badauth, rows', []))
    \<and> (\<forall>cr throttle now call p t throttle'. authenticate cr rows' throttle now call \<noteq> (Authenticated acc p t, throttle'))
    \<and> (\<forall>fan fresh params. fo_accountId params = acc \<longrightarrow> snd (fanOutActionExecutions fan fresh rows' params) = [])
    \<and> (\<forall>i. ip_client_history rows' acc i = Inl not_found)"
proof -
  note closure = closure_events [OF assms(1-3), folded rows_def rows'_def]
  have streams: "readStream rows' k = (if key_accountId k = acc then [] else readStream rows k)" for k
    using closure by (simp add: events_gone_def)
  have resolve: "resolveAccountId rows' t i \<noteq> Some acc" for t i using closure(1) by (simp add: events_gone_def)
  have ids: "listAggregateIds rows' acc t = []" for t using closure(1) by (simp add: events_gone_def)
  have wf: "wf_store rows" using assms(1) by (simp add: rows_def)
  have gone: "resolveAccountId rows' IP_CLIENT i = None" if "resolveAccountId rows IP_CLIENT i = Some acc" for i
  proof (rule ccontr)
    assume "resolveAccountId rows' IP_CLIENT i \<noteq> None"
    then obtain r where r: "find (\<lambda>row. ev_aggregateType row = IP_CLIENT \<and> ev_aggregateId row = i) rows' = Some r"
      by (auto simp: resolveAccountId_def)
    from find_Some_mem [OF r] have mem: "r \<in> set rows'" "ev_aggregateType r = IP_CLIENT" "ev_aggregateId r = i" by simp_all
    have "ev_accountId r \<noteq> acc" using resolve [of IP_CLIENT i] r by (auto simp: resolveAccountId_def)
    moreover have "r \<in> set (readStream rows' (stream (ev_accountId r) IP_CLIENT i))"
      using mem by (simp add: readStream_def in_stream_def)
    ultimately have "r \<in> set (readStream rows (stream (ev_accountId r) IP_CLIENT i))"
      using streams [of "stream (ev_accountId r) IP_CLIENT i"] by simp
    then have "r \<in> set (aggregate_rows rows IP_CLIENT i)" by (simp add: readStream_def in_stream_def aggregate_rows_def)
    moreover from that obtain q where q: "find (\<lambda>row. ev_aggregateType row = IP_CLIENT \<and> ev_aggregateId row = i) rows = Some q"
      "ev_accountId q = acc" by (auto simp: resolveAccountId_def)
    from find_Some_mem [OF q(1)] have "q \<in> set (aggregate_rows rows IP_CLIENT i)" by (simp add: aggregate_rows_def)
    ultimately show False using wf_store_account [OF wf] q(2) \<open>ev_accountId r \<noteq> acc\<close> by metis
  qed
  have "handle_trigger cr decode64 config tk' others queued rows' req = (badauth, rows', [])"
    if "parseBasicAuth decode64 (tr_authorization req) = Some (i, password)" "resolveAccountId rows IP_CLIENT i = Some acc"
    for cr decode64 config tk' others queued req i password
    unfolding handle_trigger_def that(1) option.case prod.case gone [OF that(2)] by (rule refl)
  moreover have "authenticate cr rows' throttle now call \<noteq> (Authenticated acc p t, throttle')" for cr throttle now call p t throttle'
  proof
    assume "authenticate cr rows' throttle now call = (Authenticated acc p t, throttle')"
    from authenticate_found [OF this] obtain token where
      "find_token cr rows' p (presented_token (nullish_or (md_authorization call) [])) = Some (acc, token)" by blast
    from find_token_Some [OF this] resolve show False by (simp add: provider_resolveAccountId_def)
  qed
  moreover have "snd (fanOutActionExecutions fan fresh rows' params) = []" if "fo_accountId params = acc" for fan fresh params
    by (simp add: fanOutActionExecutions_def that ids split: option.split)
  moreover have "ip_client_history rows' acc i = Inl not_found" for i
    by (simp add: ip_client_history_def load_defs Let_def streams initialIpClientState_def)
  ultimately show ?thesis by blast
qed

lemma closed_account_locked_out_witness:
  "\<exists>w'. closeAccount sample_routes sample_glob calm_closure (\<lambda>j. True) (\<lambda>j. True) (sample_tick 9) ''acc'' sample_world = (Inr (), w')
    \<and> handle_trigger sample_crypto (\<lambda>s. s) sample_config (sample_tick 9) [] Done (bk_rows (aw_backend w')) sample_trigger
        = (badauth, bk_rows (aw_backend w'), [])"
proof -
  obtain w' where run: "closeAccount sample_routes sample_glob calm_closure (\<lambda>j. True) (\<lambda>j. True) (sample_tick 9) ''acc'' sample_world = (Inr (), w')"
    by (rule sample_closure)
  have wf: "wf_store (bk_rows (aw_backend sample_world))" by (simp add: sample_world_def sample_device_wf(1))
  have "parseBasicAuth (\<lambda>s. s) (tr_authorization sample_trigger) = Some (''d'', ''pw'')"
    by (simp add: parseBasicAuth_def sample_trigger_def Let_def)
  moreover have "resolveAccountId (bk_rows (aw_backend sample_world)) IP_CLIENT ''d'' = Some ''acc''"
    by (simp add: resolveAccountId_def sample_world_def sample_device_defs)
  ultimately show ?thesis
    using closed_account_locked_out [OF wf _ run] run by auto
qed

end
